(* ===== verification/Prelude.thy ===== *)
theory Prelude
  imports Main "HOL-Library.AList" "HOL-Library.Char_ord" "HOL-Library.List_Lexorder"
    "HOL-Library.Product_Lexorder"
begin

text \<open>
  The generic layer of the development: exceptions as the left of a sum, loops that may raise, Python dicts
  (association lists that keep insertion order), Python sets (lists without duplicates, in an arbitrary iteration
  order) and the string operations the sources use. Nothing here is about the program; every component imports it.

  A Python \<open>str\<close> is a HOL \<open>string\<close>. Characters are code points below 256, which covers every identifier and every
  message of the modelled code except the Chinese titles of two prompts; no modelled operation looks at a character
  beyond comparing it, ordering it or asking whether it is white space.
\<close>

named_theorems exn_simps \<open>how raising and sequencing behave on results that are known\<close>
named_theorems dict_simps \<open>what a lookup sees after a dict operation\<close>

section \<open>Exceptions\<close>

definition bindE :: "'e + 'a \<Rightarrow> ('a \<Rightarrow> 'e + 'b) \<Rightarrow> 'e + 'b" where
  "bindE m f = (case m of Inl e \<Rightarrow> Inl e | Inr x \<Rightarrow> f x)"

definition raise_if :: "bool \<Rightarrow> 'e \<Rightarrow> 'e + unit" where
  "raise_if c e = (if c then Inl e else Inr ())"

lemma bindE_Inl [simp, exn_simps]: "bindE (Inl e) f = Inl e"
  and bindE_Inr [simp, exn_simps]: "bindE (Inr x) f = f x"
  by (simp_all add: bindE_def)

lemma bindE_eq_Inr [simp, exn_simps]: "bindE m f = Inr y \<longleftrightarrow> (\<exists>x. m = Inr x \<and> f x = Inr y)"
  by (cases m) simp_all

lemma bindE_eq_Inl: "bindE m f = Inl e \<longleftrightarrow> m = Inl e \<or> (\<exists>x. m = Inr x \<and> f x = Inl e)"
  by (cases m) simp_all

lemma raise_if_True [simp, exn_simps]: "raise_if True e = Inl e"
  and raise_if_False [simp, exn_simps]: "raise_if False e = Inr ()"
  by (simp_all add: raise_if_def)

lemma raise_if_eq_Inr [simp, exn_simps]: "raise_if c e = Inr u \<longleftrightarrow> \<not> c"
  and raise_if_eq_Inl [simp, exn_simps]: "raise_if c e = Inl e' \<longleftrightarrow> c \<and> e = e'"
  by (auto simp: raise_if_def)

lemma bindE_raise_if [exn_simps]: "bindE (raise_if c e) f = (if c then Inl e else f ())"
  by simp

lemma bindE_cong [fundef_cong]:
  assumes "m = m'" and "\<And>x. m' = Inr x \<Longrightarrow> f x = g x"
  shows "bindE m f = bindE m' g"
  using assms by (cases m') simp_all

text \<open>A \<^verbatim>\<open>for\<close> loop whose body may raise: the state goes from one iteration to the next, the first exception ends it.\<close>

primrec foldE :: "('s \<Rightarrow> 'a \<Rightarrow> 'e + 's) \<Rightarrow> 's \<Rightarrow> 'a list \<Rightarrow> 'e + 's" where
  "foldE f s [] = Inr s"
| "foldE f s (x # xs) = bindE (f s x) (\<lambda>s'. foldE f s' xs)"

lemma foldE_append: "foldE f s (xs @ ys) = bindE (foldE f s xs) (\<lambda>s'. foldE f s' ys)"
proof (induction xs arbitrary: s)
  case (Cons x xs)
  then show ?case by (cases "f s x") simp_all
qed simp

text \<open>The invariant rule: what every iteration keeps holds of the result.\<close>

lemma foldE_invariant:
  assumes "foldE f s xs = Inr t" and "P s"
    and "\<And>s x s'. x \<in> set xs \<Longrightarrow> P s \<Longrightarrow> f s x = Inr s' \<Longrightarrow> P s'"
  shows "P t"
  using assms
proof (induction xs arbitrary: s)
  case (Cons x xs)
  from Cons.prems(1) obtain s' where s': "f s x = Inr s'" "foldE f s' xs = Inr t" by auto
  have P': "P s'" using Cons.prems(2) s'(1) by (intro Cons.prems(3)[of x s s']) simp_all
  show ?case by (rule Cons.IH[OF s'(2) P']) (rule Cons.prems(3), simp_all)
qed simp

text \<open>The exceptions of a loop are those of its body, raised from a state that satisfies the invariant.\<close>

lemma foldE_raises:
  assumes "foldE f s xs = Inl e" and "P s"
    and "\<And>s x s'. x \<in> set xs \<Longrightarrow> P s \<Longrightarrow> f s x = Inr s' \<Longrightarrow> P s'"
  shows "\<exists>s'. \<exists>x\<in>set xs. P s' \<and> f s' x = Inl e"
  using assms
proof (induction xs arbitrary: s)
  case (Cons x xs)
  show ?case
  proof (cases "f s x")
    case (Inl e')
    with Cons.prems(1,2) show ?thesis by auto
  next
    case (Inr s')
    with Cons.prems(1) have rest: "foldE f s' xs = Inl e" by simp
    have P': "P s'" using Cons.prems(2) Inr by (intro Cons.prems(3)[of x s s']) simp_all
    have "\<exists>t. \<exists>y\<in>set xs. P t \<and> f t y = Inl e"
      by (rule Cons.IH[OF rest P']) (rule Cons.prems(3), simp_all)
    then show ?thesis by auto
  qed
qed simp

text \<open>A loop that only checks: it passes exactly when every check passes.\<close>

primrec checkE :: "('a \<Rightarrow> 'e + unit) \<Rightarrow> 'a list \<Rightarrow> 'e + unit" where
  "checkE f [] = Inr ()"
| "checkE f (x # xs) = bindE (f x) (\<lambda>_. checkE f xs)"

lemma checkE_eq_Inr [exn_simps]: "checkE f xs = Inr u \<longleftrightarrow> (\<forall>x\<in>set xs. f x = Inr ())"
  by (induction xs) auto

lemma checkE_eq_Inl: "checkE f xs = Inl e \<Longrightarrow> \<exists>x\<in>set xs. f x = Inl e"
  by (induction xs) (auto simp: bindE_eq_Inl)

primrec mapE :: "('a \<Rightarrow> 'e + 'b) \<Rightarrow> 'a list \<Rightarrow> 'e + 'b list" where
  "mapE f [] = Inr []"
| "mapE f (x # xs) = bindE (f x) (\<lambda>y. bindE (mapE f xs) (\<lambda>ys. Inr (y # ys)))"

lemma mapE_eq_Inr: "mapE f xs = Inr ys \<longleftrightarrow> list_all2 (\<lambda>x y. f x = Inr y) xs ys"
  by (induction xs arbitrary: ys) (auto simp: list_all2_Cons1)

lemma mapE_eq_Inl: "mapE f xs = Inl e \<Longrightarrow> \<exists>x\<in>set xs. f x = Inl e"
  by (induction xs) (auto simp: bindE_eq_Inl)

section \<open>Dicts\<close>

text \<open>
  A dict keeps the order its keys were inserted in, and the sources rely on it (the order of the plan's nodes is the
  order they are scheduled in), so it is an association list with distinct keys: assigning to a key that is there keeps
  its place, a new key goes to the end.
\<close>

type_synonym ('k, 'v) dict = "('k \<times> 'v) list"

abbreviation dget :: "('k, 'v) dict \<Rightarrow> 'k \<Rightarrow> 'v option" where "dget \<equiv> map_of"
abbreviation dset :: "'k \<Rightarrow> 'v \<Rightarrow> ('k, 'v) dict \<Rightarrow> ('k, 'v) dict" where "dset \<equiv> AList.update"
abbreviation dpop :: "'k \<Rightarrow> ('k, 'v) dict \<Rightarrow> ('k, 'v) dict" where "dpop \<equiv> AList.delete"
abbreviation dkeys :: "('k, 'v) dict \<Rightarrow> 'k list" where "dkeys d \<equiv> map fst d"
abbreviation dvals :: "('k, 'v) dict \<Rightarrow> 'v list" where "dvals d \<equiv> map snd d"
abbreviation has_key :: "('k, 'v) dict \<Rightarrow> 'k \<Rightarrow> bool" where "has_key d k \<equiv> k \<in> fst ` set d"
abbreviation dict_ok :: "('k, 'v) dict \<Rightarrow> bool" where "dict_ok d \<equiv> distinct (map fst d)"

text \<open>What a client of a dict relies on: the laws of lookups, of the key order and of the distinctness of keys.\<close>

locale ordered_dict =
  fixes get :: "'d \<Rightarrow> 'k \<Rightarrow> 'v option"
    and put :: "'k \<Rightarrow> 'v \<Rightarrow> 'd \<Rightarrow> 'd"
    and pop :: "'k \<Rightarrow> 'd \<Rightarrow> 'd"
    and keys :: "'d \<Rightarrow> 'k list"
    and ok :: "'d \<Rightarrow> bool"
  assumes get_put: "get (put k v d) j = (if j = k then Some v else get d j)"
    and get_pop: "get (pop k d) j = (if j = k then None else get d j)"
    and keys_put: "keys (put k v d) = (if k \<in> set (keys d) then keys d else keys d @ [k])"
    and keys_pop: "keys (pop k d) = filter (\<lambda>j. j \<noteq> k) (keys d)"
    and keys_get: "k \<in> set (keys d) \<longleftrightarrow> get d k \<noteq> None"
    and ok_keys: "ok d \<longleftrightarrow> distinct (keys d)"
begin

lemma ok_put: "ok d \<Longrightarrow> ok (put k v d)"
  by (auto simp: ok_keys keys_put)

lemma ok_pop: "ok d \<Longrightarrow> ok (pop k d)"
  by (simp add: ok_keys keys_pop)

lemma get_put_same: "get (put k v d) k = Some v"
  by (simp add: get_put)

lemma get_put_other: "j \<noteq> k \<Longrightarrow> get (put k v d) j = get d j"
  by (simp add: get_put)

text \<open>Storing under a key that is there keeps the order of the keys; removing it again leaves the other keys in order.\<close>

lemma keys_put_present: "get d k \<noteq> None \<Longrightarrow> keys (put k v d) = keys d"
  by (simp only: keys_put keys_get if_True not_False_eq_True)

lemma keys_put_pop: "get d k = None \<Longrightarrow> keys (pop k (put k v d)) = keys d"
proof -
  assume "get d k = None"
  then have k: "k \<notin> set (keys d)" by (simp add: keys_get)
  then have "\<forall>x\<in>set (keys d). x \<noteq> k" by auto
  with k show ?thesis by (simp add: keys_pop keys_put)
qed

end

lemma dget_dset [dict_simps]: "dget (dset k v d) j = (if j = k then Some v else dget d j)"
  by (simp add: update_conv')

lemma dget_dpop [dict_simps]: "dget (dpop k d) j = (if j = k then None else dget d j)"
  by (simp add: delete_conv')

lemma dkeys_dset [dict_simps]: "dkeys (dset k v d) = (if has_key d k then dkeys d else dkeys d @ [k])"
  by (induction d) auto

lemma dkeys_dpop [dict_simps]: "dkeys (dpop k d) = filter (\<lambda>j. j \<noteq> k) (dkeys d)"
  by (induction d) auto

lemma has_key_dget: "has_key d k \<longleftrightarrow> dget d k \<noteq> None"
  by (simp add: map_of_eq_None_iff)

lemma key_of_dget: "dget d k = Some v \<Longrightarrow> has_key d k"
  by (simp add: has_key_dget)

interpretation pydict: ordered_dict map_of AList.update AList.delete "map fst" "\<lambda>d. distinct (map fst d)"
proof unfold_locales
  show "map_of (AList.update k v d) j = (if j = k then Some v else map_of d j)" for k v d j
    by (rule dget_dset)
  show "map_of (AList.delete k d) j = (if j = k then None else map_of d j)" for k d j
    by (rule dget_dpop)
  show "map fst (AList.update k v d) = (if k \<in> set (map fst d) then map fst d else map fst d @ [k])" for k v d
    by (simp add: dkeys_dset)
  show "map fst (AList.delete k d) = filter (\<lambda>j. j \<noteq> k) (map fst d)" for k d
    by (rule dkeys_dpop)
  show "k \<in> set (map fst d) \<longleftrightarrow> map_of d k \<noteq> None" for k d
    by (simp add: map_of_eq_None_iff)
  show "distinct (map fst d) \<longleftrightarrow> distinct (map fst d)" for d
    by simp
qed

lemmas dict_ok_dset [simp, intro] = pydict.ok_put
lemmas dict_ok_dpop [simp, intro] = pydict.ok_pop

lemma has_key_dset [simp]: "has_key (dset k v d) j \<longleftrightarrow> j = k \<or> has_key d j"
  by (simp add: has_key_dget dget_dset)

lemma has_key_dpop [simp]: "has_key (dpop k d) j \<longleftrightarrow> j \<noteq> k \<and> has_key d j"
  by (simp add: has_key_dget dget_dpop)

lemma keys_dset_set: "fst ` set (dset k v d) = insert k (fst ` set d)"
  by (auto simp: set_eq_iff has_key_dset)

lemma keys_dpop_set: "fst ` set (dpop k d) = fst ` set d - {k}"
  by (auto simp: set_eq_iff)

lemma dget_mem: "dict_ok d \<Longrightarrow> (k, v) \<in> set d \<longleftrightarrow> dget d k = Some v"
  by (simp add: map_of_eq_Some_iff)

lemma set_dset: "dict_ok d \<Longrightarrow> set (dset k v d) = insert (k, v) {p \<in> set d. fst p \<noteq> k}"
proof -
  assume ok: "dict_ok d"
  have "p \<in> set (dset k v d) \<longleftrightarrow> p = (k, v) \<or> p \<in> set d \<and> fst p \<noteq> k" for p
    using ok dget_mem[of "dset k v d" "fst p" "snd p"] dget_mem[of d "fst p" "snd p"]
    by (cases p) (auto simp: dget_dset split: if_splits)
  then show ?thesis by auto
qed

lemma set_dpop: "dict_ok d \<Longrightarrow> set (dpop k d) = {p \<in> set d. fst p \<noteq> k}"
  by (induction d) auto

lemma dvals_image: "dict_ok d \<Longrightarrow> set (dvals d) = (\<lambda>k. the (dget d k)) ` fst ` set d"
  by (force simp: image_iff)

text \<open>\<^verbatim>\<open>{k: f(k, v) for k, v in d.items()}\<close>: a comprehension that keeps the keys.\<close>

definition dmap :: "('k \<Rightarrow> 'v \<Rightarrow> 'w) \<Rightarrow> ('k, 'v) dict \<Rightarrow> ('k, 'w) dict" where
  "dmap f d = map (\<lambda>(k, v). (k, f k v)) d"

lemma dkeys_dmap [simp]: "dkeys (dmap f d) = dkeys d"
  by (simp add: dmap_def comp_def case_prod_beta)

lemma has_key_dmap [simp]: "has_key (dmap f d) k \<longleftrightarrow> has_key d k"
  by (force simp: dmap_def)

lemma dget_dmap [simp]: "dget (dmap f d) k = map_option (f k) (dget d k)"
  by (induction d) (auto simp: dmap_def)

text \<open>\<^verbatim>\<open>{k: v for k, v in d.items() if p(k, v)}\<close>.\<close>

abbreviation dfilter :: "('k \<Rightarrow> 'v \<Rightarrow> bool) \<Rightarrow> ('k, 'v) dict \<Rightarrow> ('k, 'v) dict" where
  "dfilter p d \<equiv> filter (\<lambda>(k, v). p k v) d"

lemma dict_ok_filter [simp, intro]: "dict_ok d \<Longrightarrow> dict_ok (filter p d)"
  by (induction d) auto

lemma dget_dfilter_key: "dget (dfilter (\<lambda>k v. p k) d) k = (if p k then dget d k else None)"
  by (induction d) auto

lemma dget_dfilter:
  "dict_ok d \<Longrightarrow> dget (dfilter p d) k = (case dget d k of None \<Rightarrow> None | Some v \<Rightarrow> if p k v then Some v else None)"
proof (induction d)
  case (Cons kv d)
  obtain j w where kv: "kv = (j, w)" by fastforce
  from Cons.prems have none: "dget d j = None"
    by (simp add: kv map_of_eq_None_iff)
  have IH: "dget (dfilter p d) k = (case dget d k of None \<Rightarrow> None | Some v \<Rightarrow> if p k v then Some v else None)"
    using Cons by (simp add: kv)
  show ?case
    using IH none by (cases "k = j") (simp_all add: kv)
qed simp

section \<open>Sets\<close>

text \<open>
  A Python set is iterated in an order nothing fixes (the hash of a string changes from process to process). It is a
  list without duplicates: the list's order is the iteration order, and a theorem about every list is a theorem about
  every iteration order.
\<close>

abbreviation sadd :: "'a \<Rightarrow> 'a list \<Rightarrow> 'a list" where "sadd \<equiv> List.insert"
abbreviation sdiscard :: "'a \<Rightarrow> 'a list \<Rightarrow> 'a list" where "sdiscard x xs \<equiv> filter (\<lambda>y. y \<noteq> x) xs"

section \<open>Strings\<close>

text \<open>A string literal of the source, with the parts an f-string puts in.\<close>

definition startswith :: "string \<Rightarrow> string \<Rightarrow> bool" where
  "startswith s p \<longleftrightarrow> take (length p) s = p"

lemma startswith_append [simp]: "startswith (p @ s) p"
  by (simp add: startswith_def)

fun digit :: "nat \<Rightarrow> char" where
  "digit n = char_of (48 + n mod 10)"

fun nat_str :: "nat \<Rightarrow> string" where
  "nat_str n = (if n < 10 then [digit n] else nat_str (n div 10) @ [digit (n mod 10)])"

declare nat_str.simps [simp del]

definition int_str :: "int \<Rightarrow> string" where
  "int_str i = (if i < 0 then ''-'' @ nat_str (nat (- i)) else nat_str (nat i))"

primrec join :: "string \<Rightarrow> string list \<Rightarrow> string" where
  "join sep [] = []"
| "join sep (x # xs) = (if xs = [] then x else x @ sep @ join sep xs)"

lemma nat_str_nonempty [simp]: "nat_str n \<noteq> []"
  by (subst nat_str.simps) simp

text \<open>The decimal text of a number determines it: identifiers built from a counter never collide.\<close>

definition digit_val :: "char \<Rightarrow> nat" where
  "digit_val c = of_char c - 48"

definition str_nat :: "string \<Rightarrow> nat" where
  "str_nat s = foldl (\<lambda>n c. 10 * n + digit_val c) 0 s"

lemma digit_val_digit [simp]: "digit_val (digit n) = n mod 10"
  by (simp add: digit_val_def)

lemma str_nat_nat_str [simp]: "str_nat (nat_str n) = n"
proof (induction n rule: nat_str.induct)
  case (1 n)
  show ?case
  proof (cases "n < 10")
    case True
    then show ?thesis by (simp add: nat_str.simps[of n] str_nat_def del: digit.simps)
  next
    case False
    have "str_nat (nat_str n) = 10 * str_nat (nat_str (n div 10)) + n mod 10"
      using False by (simp add: nat_str.simps[of n] str_nat_def del: digit.simps)
    with "1"[OF False] show ?thesis by simp
  qed
qed

lemma nat_str_inject [simp]: "nat_str m = nat_str n \<longleftrightarrow> m = n"
  by (metis str_nat_nat_str)

end
