(* ===== verification/Pylib.thy ===== *)
theory Pylib
  imports Prelude "HOL-Library.Word" "HOL-Library.Multiset"
begin

text \<open>
  What the sources use of Python's standard library: \<open>str.encode\<close>, \<open>hashlib.sha256\<close>, \<open>int.from_bytes\<close> and
  \<open>json.dumps\<close>. SHA-256 is the algorithm of FIPS 180-4 on 32-bit words, so the identifiers and hashes of the model are
  values, not parameters.
\<close>

unbundle bit_operations_syntax

section \<open>UTF-8\<close>

type_synonym bytes = "int list"

text \<open>\<open>s.encode("utf-8")\<close>, for code points below 256.\<close>

definition utf8_char :: "char \<Rightarrow> bytes" where
  "utf8_char c = (let n = of_char c in if n < 128 then [n] else [192 + n div 64, 128 + n mod 64])"

definition utf8 :: "string \<Rightarrow> bytes" where
  "utf8 s = concat (map utf8_char s)"

section \<open>SHA-256\<close>

type_synonym u32 = "32 word"

definition sha_k :: "u32 list" where
  "sha_k =
    [1116352408, 1899447441, 3049323471, 3921009573, 961987163, 1508970993, 2453635748, 2870763221,
     3624381080, 310598401, 607225278, 1426881987, 1925078388, 2162078206, 2614888103, 3248222580,
     3835390401, 4022224774, 264347078, 604807628, 770255983, 1249150122, 1555081692, 1996064986,
     2554220882, 2821834349, 2952996808, 3210313671, 3336571891, 3584528711, 113926993, 338241895,
     666307205, 773529912, 1294757372, 1396182291, 1695183700, 1986661051, 2177026350, 2456956037,
     2730485921, 2820302411, 3259730800, 3345764771, 3516065817, 3600352804, 4094571909, 275423344,
     430227734, 506948616, 659060556, 883997877, 958139571, 1322822218, 1537002063, 1747873779,
     1955562222, 2024104815, 2227730452, 2361852424, 2428436474, 2756734187, 3204031479, 3329325298]"

definition sha_init :: "u32 list" where
  "sha_init = [1779033703, 3144134277, 1013904242, 2773480762, 1359893119, 2600822924, 528734635, 1541459225]"

definition rotr :: "nat \<Rightarrow> u32 \<Rightarrow> u32" where
  "rotr n w = drop_bit n w OR push_bit (32 - n) w"

definition big_endian :: "nat \<Rightarrow> int \<Rightarrow> bytes" where
  "big_endian k n = map (\<lambda>i. n div 256 ^ (k - 1 - i) mod 256) [0..<k]"

definition sha_pad :: "bytes \<Rightarrow> bytes" where
  "sha_pad bs = (let n = length bs in
     bs @ [128] @ replicate ((119 - n mod 64) mod 64) 0 @ big_endian 8 (8 * int n))"

fun words_of :: "bytes \<Rightarrow> u32 list" where
  "words_of (a # b # c # d # bs) = word_of_int (((a * 256 + b) * 256 + c) * 256 + d) # words_of bs"
| "words_of _ = []"

text \<open>The message schedule, newest word first: \<open>ws ! 15\<close> is sixteen words back.\<close>

definition sha_extend :: "u32 list \<Rightarrow> u32 list" where
  "sha_extend ws = (let a = ws ! 14; b = ws ! 1;
       s0 = rotr 7 a XOR rotr 18 a XOR drop_bit 3 a;
       s1 = rotr 17 b XOR rotr 19 b XOR drop_bit 10 b
     in (ws ! 15 + s0 + ws ! 6 + s1) # ws)"

definition sha_schedule :: "u32 list \<Rightarrow> u32 list" where
  "sha_schedule block = rev ((sha_extend ^^ 48) (rev block))"

fun sha_round :: "u32 list \<Rightarrow> u32 \<times> u32 \<Rightarrow> u32 list" where
  "sha_round [a, b, c, d, e, f, g, h] (k, w) =
     (let s1 = rotr 6 e XOR rotr 11 e XOR rotr 25 e;
          ch = (e AND f) XOR (NOT e AND g);
          t1 = h + s1 + ch + k + w;
          s0 = rotr 2 a XOR rotr 13 a XOR rotr 22 a;
          maj = (a AND b) XOR (a AND c) XOR (b AND c);
          t2 = s0 + maj
      in [t1 + t2, a, b, c, d + t1, e, f, g])"
| "sha_round st _ = st"

definition sha_block :: "u32 list \<Rightarrow> u32 list \<Rightarrow> u32 list" where
  "sha_block st block = map2 (+) st (foldl sha_round st (zip sha_k (sha_schedule block)))"

fun sha_blocks :: "u32 list \<Rightarrow> u32 list \<Rightarrow> u32 list" where
  "sha_blocks st ws = (if length ws < 16 then st else sha_blocks (sha_block st (take 16 ws)) (drop 16 ws))"

declare sha_blocks.simps [simp del]

text \<open>\<open>hashlib.sha256(bs).digest()\<close>.\<close>

definition sha256 :: "bytes \<Rightarrow> bytes" where
  "sha256 bs = concat (map (\<lambda>w. big_endian 4 (uint w)) (sha_blocks sha_init (words_of (sha_pad bs))))"

definition hex_digit :: "int \<Rightarrow> char" where
  "hex_digit n = (let d = n mod 16 in char_of (if d < 10 then 48 + d else 87 + d))"

definition hex_byte :: "int \<Rightarrow> string" where
  "hex_byte n = [hex_digit (n div 16), hex_digit n]"

definition hexdigest :: "bytes \<Rightarrow> string" where
  "hexdigest bs = concat (map hex_byte (sha256 bs))"

text \<open>\<open>int.from_bytes(bs, "big")\<close>.\<close>

definition from_bytes :: "bytes \<Rightarrow> int" where
  "from_bytes bs = foldl (\<lambda>n b. 256 * n + b) 0 bs"

lemma length_big_endian [simp]: "length (big_endian k n) = k"
  by (simp add: big_endian_def)

lemma length_sha_round: "length st = 8 \<Longrightarrow> length (sha_round st kw) = 8"
  by (cases "(st, kw)" rule: sha_round.cases) (simp_all add: Let_def)

lemma length_sha_rounds: "length st = 8 \<Longrightarrow> length (foldl sha_round st kws) = 8"
  by (induction kws arbitrary: st) (simp_all add: length_sha_round)

lemma length_sha_block: "length st = 8 \<Longrightarrow> length (sha_block st block) = 8"
  by (simp add: sha_block_def length_sha_rounds)

lemma length_sha_blocks: "length st = 8 \<Longrightarrow> length (sha_blocks st ws) = 8"
proof (induction st ws rule: sha_blocks.induct)
  case (1 st ws)
  then show ?case by (subst sha_blocks.simps) (simp add: length_sha_block)
qed

text \<open>A digest is 32 bytes, and its hexadecimal text 64 characters.\<close>

lemma length_sha256 [simp]: "length (sha256 bs) = 32"
  by (simp add: sha256_def length_concat comp_def sum_list_triv length_sha_blocks sha_init_def)

lemma length_hexdigest [simp]: "length (hexdigest bs) = 64"
  by (simp add: hexdigest_def length_concat comp_def sum_list_triv hex_byte_def)

section \<open>JSON\<close>

text \<open>
  A JSON value as the sources hold it (dicts keep their order; a float is kept as the text \<open>repr\<close> prints). \<open>dumps\<close> is
  \<open>json.dumps\<close> with its defaults except for \<open>sort_keys\<close> and the two separators, which are arguments.
\<close>

datatype json = JNull | JBool bool | JInt int | JFloat string | JStr string | JArr "json list"
  | JObj "(string \<times> json) list"

definition hex4 :: "int \<Rightarrow> string" where
  "hex4 n = [hex_digit (n div 4096), hex_digit (n div 256), hex_digit (n div 16), hex_digit n]"

definition json_char :: "char \<Rightarrow> string" where
  "json_char c = (let n = (of_char c :: int) in
     if n = 34 then [char_of (92::int), c]
     else if n = 92 then [c, c]
     else if n = 10 then [char_of (92::int), CHR ''n'']
     else if n = 13 then [char_of (92::int), CHR ''r'']
     else if n = 9 then [char_of (92::int), CHR ''t'']
     else if n = 12 then [char_of (92::int), CHR ''f'']
     else if n = 8 then [char_of (92::int), CHR ''b'']
     else if n < 32 \<or> 126 < n then [char_of (92::int), CHR ''u''] @ hex4 n
     else [c])"

definition json_str :: "string \<Rightarrow> string" where
  "json_str s = [char_of (34::int)] @ concat (map json_char s) @ [char_of (34::int)]"

fun dumps :: "bool \<Rightarrow> string \<Rightarrow> string \<Rightarrow> json \<Rightarrow> string" where
  "dumps sort_keys isep ksep JNull = ''null''"
| "dumps sort_keys isep ksep (JBool b) = (if b then ''true'' else ''false'')"
| "dumps sort_keys isep ksep (JInt i) = int_str i"
| "dumps sort_keys isep ksep (JFloat t) = t"
| "dumps sort_keys isep ksep (JStr s) = json_str s"
| "dumps sort_keys isep ksep (JArr xs) = ''['' @ join isep (map (dumps sort_keys isep ksep) xs) @ '']''"
| "dumps sort_keys isep ksep (JObj kvs) =
     ''{'' @ join isep (map (\<lambda>(k, t). json_str k @ ksep @ t)
       ((if sort_keys then sort_key fst else id) (map (\<lambda>kv. (fst kv, dumps sort_keys isep ksep (snd kv))) kvs))) @ ''}''"

text \<open>\<open>json.dumps(x)\<close> and \<open>json.dumps(x, sort_keys=True, separators=(",", ":"))\<close>.\<close>

definition json_dumps :: "json \<Rightarrow> string" where
  "json_dumps = dumps False '', '' '': ''"

definition json_canonical :: "json \<Rightarrow> string" where
  "json_canonical = dumps True '','' '':''"

text \<open>With sorted keys the text does not depend on the order the dict was filled in.\<close>

lemma sort_key_fst_perm:
  fixes xs ys :: "(string \<times> 'b) list"
  assumes "mset xs = mset ys" and "distinct (map fst xs)"
  shows "sort_key fst xs = sort_key fst ys"
proof (rule properties_for_sort_key)
  have one: "length (filter (\<lambda>x. k = fst x) zs) \<le> 1" if "distinct (map fst zs)" for k and zs :: "(string \<times> 'b) list"
    using that
  proof (induction zs)
    case (Cons z zs)
    have "filter (\<lambda>x. fst z = fst x) zs = []"
      using Cons.prems by (auto simp: filter_empty_conv)
    with Cons show ?case by (cases "k = fst z") auto
  qed simp
  show "mset (sort_key fst ys) = mset xs" using assms(1) by simp
  show "sorted (map fst (sort_key fst ys))" by simp
  fix k
  have "distinct (map fst ys)"
    using assms by (metis mset_eq_imp_distinct_iff mset_map)
  then have dist: "distinct (map fst (sort_key fst ys))"
    by (metis mset_eq_imp_distinct_iff mset_map mset_sort)
  have "mset (filter (\<lambda>x. fst k = fst x) (sort_key fst ys)) = mset (filter (\<lambda>x. fst k = fst x) xs)"
    using assms(1) by (simp only: mset_filter mset_sort)
  with one[OF dist, of "fst k"] one[OF assms(2), of "fst k"]
  show "filter (\<lambda>x. fst k = fst x) (sort_key fst ys) = filter (\<lambda>x. fst k = fst x) xs"
    by (cases "filter (\<lambda>x. fst k = fst x) (sort_key fst ys)"; cases "filter (\<lambda>x. fst k = fst x) xs") auto
qed

section \<open>White space\<close>

definition is_space :: "char \<Rightarrow> bool" where
  "is_space c \<longleftrightarrow> (of_char c :: nat) \<in> {9, 10, 11, 12, 13, 28, 29, 30, 31, 32, 133, 160}"

definition is_line_break :: "char \<Rightarrow> bool" where
  "is_line_break c \<longleftrightarrow> (of_char c :: nat) \<in> {10, 11, 12, 13, 28, 29, 30, 133}"

definition rstrip :: "string \<Rightarrow> string" where
  "rstrip s = rev (dropWhile is_space (rev s))"

definition strip :: "string \<Rightarrow> string" where
  "strip s = rstrip (dropWhile is_space s)"

end
