(* ===== verification/Contracts.thy ===== *)
theory Contracts
  imports Pylib
begin

text \<open>
  Contract v3 (\<^verbatim>\<open>orbit_contracts/v3/common.py\<close>, \<^verbatim>\<open>nodes.py\<close>, \<^verbatim>\<open>plan.py\<close>): the data a plan is made of and the commands
  that change it. A contract model is a record, a \<open>Literal\<close> a datatype, a discriminated union a datatype with one
  constructor per member. A \<open>Count\<close> (an integer that pydantic refuses below zero) is a \<open>nat\<close>. The constraints the
  models declare on their fields (patterns, lengths, validators) are the \<open>valid_\<close> predicates: every instance the
  program holds satisfies them, because pydantic builds none that does not.
\<close>

section \<open>Identifiers\<close>

definition ulid_alphabet :: string where
  "ulid_alphabet = ''0123456789ABCDEFGHJKMNPQRSTVWXYZ''"

definition is_ulid :: "string \<Rightarrow> bool" where
  "is_ulid s \<longleftrightarrow> length s = 26 \<and> list_all (\<lambda>c. c \<in> set ulid_alphabet) s"

definition prefixed :: "string \<Rightarrow> string \<Rightarrow> bool" where
  "prefixed p s \<longleftrightarrow> startswith s (p @ ''_'') \<and> is_ulid (drop (length p + 1) s)"

definition is_hex :: "nat \<Rightarrow> string \<Rightarrow> bool" where
  "is_hex n s \<longleftrightarrow> length s = n \<and> list_all (\<lambda>c. c \<in> set ''0123456789abcdef'') s"

definition is_uuid :: "string \<Rightarrow> bool" where
  "is_uuid s \<longleftrightarrow> length s = 36 \<and> is_hex 8 (take 8 s) \<and> s ! 8 = CHR ''-'' \<and> is_hex 4 (take 4 (drop 9 s))
     \<and> s ! 13 = CHR ''-'' \<and> is_hex 4 (take 4 (drop 14 s)) \<and> s ! 18 = CHR ''-'' \<and> is_hex 4 (take 4 (drop 19 s))
     \<and> s ! 23 = CHR ''-'' \<and> is_hex 12 (drop 24 s)"

definition is_positive_decimal :: "string \<Rightarrow> bool" where
  "is_positive_decimal s \<longleftrightarrow> s \<noteq> [] \<and> hd s \<in> set ''123456789'' \<and> list_all (\<lambda>c. c \<in> set ''0123456789'') s"

definition is_tmp :: "string \<Rightarrow> bool" where
  "is_tmp s \<longleftrightarrow> startswith s ''tmp:''"

definition valid_node_id :: "string \<Rightarrow> bool" where "valid_node_id = prefixed ''n''"
definition valid_attempt_id :: "string \<Rightarrow> bool" where "valid_attempt_id = prefixed ''att''"
definition valid_approval_id :: "string \<Rightarrow> bool" where "valid_approval_id = prefixed ''apr''"

definition valid_task_id :: "string \<Rightarrow> bool" where
  "valid_task_id s \<longleftrightarrow> startswith s ''task_'' \<and> (is_ulid (drop 5 s) \<or> is_uuid (drop 5 s))"

definition valid_node_ref :: "string \<Rightarrow> bool" where
  "valid_node_ref s \<longleftrightarrow> valid_node_id s \<or> is_tmp s \<and> is_positive_decimal (drop 4 s)"

definition valid_command_id :: "string \<Rightarrow> bool" where
  "valid_command_id s \<longleftrightarrow> is_ulid s \<or> is_uuid s \<or> is_hex 64 s"

definition valid_sha256_ref :: "string \<Rightarrow> bool" where
  "valid_sha256_ref s \<longleftrightarrow> startswith s ''sha256:'' \<and> is_hex 64 (drop 7 s)"

definition is_alnum :: "char \<Rightarrow> bool" where
  "is_alnum c \<longleftrightarrow> c \<in> set ''0123456789ABCDEFGHIJKLMNOPQRSTUVWXYZabcdefghijklmnopqrstuvwxyz''"

definition not_space :: "char \<Rightarrow> bool" where
  "not_space c \<longleftrightarrow> (of_char c :: nat) \<notin> {9, 10, 11, 12, 13, 32, 133, 160}"

text \<open>\<open>VersionedRef\<close>: the one \<open>@\<close> splits it, since neither side may hold another.\<close>

definition is_versioned_ref :: "string \<Rightarrow> bool" where
  "is_versioned_ref s \<longleftrightarrow>
     (let name = takeWhile (\<lambda>c. c \<noteq> CHR ''@'') s; rest = dropWhile (\<lambda>c. c \<noteq> CHR ''@'') s in
      name \<noteq> [] \<and> is_alnum (hd name) \<and> list_all (\<lambda>c. is_alnum c \<or> c \<in> set ''_.-'') name
      \<and> rest \<noteq> [] \<and> is_positive_decimal (tl rest))"

definition is_artifact_uri :: "string \<Rightarrow> bool" where
  "is_artifact_uri s \<longleftrightarrow> startswith s ''artifact://'' \<and> drop 11 s \<noteq> [] \<and> list_all not_space (drop 11 s)"

text \<open>\<^verbatim>\<open>^schema://\S+/[1-9][0-9]*$\<close>: the version is what follows the last slash.\<close>

definition is_schema_ref :: "string \<Rightarrow> bool" where
  "is_schema_ref s \<longleftrightarrow>
     (let body = drop 9 s; version = rev (takeWhile (\<lambda>c. c \<noteq> CHR ''/'') (rev body)) in
      startswith s ''schema://'' \<and> list_all not_space body \<and> is_positive_decimal version \<and> length version + 2 \<le> length body)"

definition is_role :: "string \<Rightarrow> bool" where
  "is_role s \<longleftrightarrow> s \<noteq> [] \<and> length s \<le> 32 \<and> hd s \<in> set ''abcdefghijklmnopqrstuvwxyz''
     \<and> list_all (\<lambda>c. c \<in> set ''abcdefghijklmnopqrstuvwxyz0123456789_-'') s"

text \<open>A node id is never a temporary one: the two alternatives of a \<open>NodeRef\<close> exclude each other.\<close>

lemma node_id_not_tmp: "valid_node_id s \<Longrightarrow> \<not> is_tmp s"
  by (auto simp: valid_node_id_def prefixed_def is_tmp_def startswith_def take_Suc_conv_app_nth numeral_eq_Suc)
     (cases s; simp)

section \<open>Actors, budgets and statuses\<close>

datatype actor_kind = User | Agent | System

datatype task_status = TS_CREATED | TS_PLANNING | TS_RUNNING | TS_WAITING | TS_PAUSED | TS_PAUSED_NEEDS_REVIEW
  | TS_TAKEN_OVER | TS_COMPLETED | TS_FAILED | TS_CANCELLED

datatype node_status = PENDING | READY | RUNNING | AWAITING_APPROVAL | AWAITING_INPUT | PROPOSED | VERIFYING
  | COMPLETED | RETRY_PENDING | BLOCKED | SKIPPED | CANCELLED

datatype failure_class = Transient | Model | Tool | PolicyF | BudgetF | VerificationF | Lost

datatype risk = Low | Medium | High

record actor =
  a_kind :: actor_kind
  a_id :: string
  a_attempt_id :: "string option"
  a_profile :: "string option"

record budget =
  b_tokens :: "nat option"
  b_tool_calls :: "nat option"
  b_wall_s :: "nat option"
  b_cost_usd_micros :: "nat option"

definition no_budget :: budget where
  "no_budget = \<lparr>b_tokens = None, b_tool_calls = None, b_wall_s = None, b_cost_usd_micros = None\<rparr>"

text \<open>The names a loop over the limits goes through (\<open>FIELDS\<close>), and \<open>getattr(budget, field)\<close>.\<close>

datatype budget_field = Tokens | ToolCalls | WallS | CostUsdMicros

definition FIELDS :: "budget_field list" where
  "FIELDS = [Tokens, ToolCalls, WallS, CostUsdMicros]"

primrec bget :: "budget \<Rightarrow> budget_field \<Rightarrow> nat option" where
  "bget b Tokens = b_tokens b"
| "bget b ToolCalls = b_tool_calls b"
| "bget b WallS = b_wall_s b"
| "bget b CostUsdMicros = b_cost_usd_micros b"

primrec field_str :: "budget_field \<Rightarrow> string" where
  "field_str Tokens = ''tokens''"
| "field_str ToolCalls = ''tool_calls''"
| "field_str WallS = ''wall_s''"
| "field_str CostUsdMicros = ''cost_usd_micros''"

lemma set_FIELDS [simp]: "set FIELDS = UNIV"
  using budget_field.exhaust by (auto simp: FIELDS_def)

lemma bget_eqI: "(\<And>f. bget b f = bget c f) \<Longrightarrow> b = (c :: budget)"
  by (metis bget.simps budget.equality old.unit.exhaust)

lemma bget_no_budget [simp]: "bget no_budget f = None"
  by (cases f) (simp_all add: no_budget_def)

record usage =
  u_tokens_in :: nat
  u_tokens_out :: nat
  u_tool_calls :: nat
  u_wall_s :: nat
  u_cost_usd_micros :: "nat option"

definition no_usage :: usage where
  "no_usage = \<lparr>u_tokens_in = 0, u_tokens_out = 0, u_tool_calls = 0, u_wall_s = 0, u_cost_usd_micros = None\<rparr>"

record failure =
  f_class :: failure_class
  f_retryable :: bool
  f_message :: string

record policy =
  p_denied_tools :: "string list"
  p_exploration_max_tool_calls :: "nat option"
  p_max_concurrency :: "nat option"
  p_max_review_rounds :: "nat option"

definition valid_policy :: "policy \<Rightarrow> bool" where
  "valid_policy p \<longleftrightarrow> p_max_concurrency p \<noteq> Some 0"

record permission_rule =
  pr_tool_name :: string
  pr_rule_content :: "string option"

datatype config_mode = ModeDefault | ModePlan | ModeAsk
datatype permission_preset = PresetDefault | PresetRequest | PresetAuto | PresetFull | PresetCustom
datatype write_scope = ScopeNone | ScopeWorkspace

record permission_spec =
  ps_preset :: permission_preset
  ps_write_scope :: write_scope
  ps_auto_edits :: bool
  ps_auto_commands :: bool
  ps_auto_builtin :: bool

datatype transport = Stdio | StreamableHttp

record connector_snapshot =
  cs_id :: string
  cs_name :: string
  cs_transport :: transport
  cs_command :: string
  cs_args :: "string list"
  cs_env_refs :: "string list"
  cs_url :: string
  cs_header_refs :: "(string \<times> string) list"

record team_member =
  tm_role :: string
  tm_expert :: string
  tm_description :: string
  tm_label :: string

record team =
  team_ref :: "string option"
  team_leader :: string
  team_members :: "team_member list"
  team_max_depth :: nat

definition valid_team :: "team \<Rightarrow> bool" where
  "valid_team t \<longleftrightarrow> 1 \<le> length (team_members t) \<and> length (team_members t) \<le> 8
     \<and> (case team_ref t of None \<Rightarrow> True | Some r \<Rightarrow> is_versioned_ref r) \<and> is_role (team_leader t)
     \<and> list_all (\<lambda>m. is_role (tm_role m) \<and> is_versioned_ref (tm_expert m) \<and> length (tm_description m) \<le> 300 \<and> length (tm_label m) \<le> 40)
          (team_members t)
     \<and> 1 \<le> team_max_depth t \<and> team_max_depth t \<le> 8"

record task_config =
  c_config_version :: nat
  c_expert :: "string option"
  c_skills :: "string list option"
  c_connectors :: "connector_snapshot list option"
  c_mode :: config_mode
  c_model :: "string option"
  c_team :: "team option"
  c_permissions :: "permission_spec option"

section \<open>Nodes\<close>

datatype node_type = AgentTurn | SopStage | TeamStage | Approval | Wait | Checkpoint
datatype workspace_access = WriteAccess | ReadAccess | NoAccess
datatype verification_kind = CommandV | SchemaV | HumanV | SopVerifierV

record artifact_requirement =
  ar_name :: string
  ar_media_type :: string
  ar_min_count :: nat

record verification =
  v_kind :: verification_kind
  v_spec :: "(string, json) dict"

record completion_contract =
  cc_output_schema_ref :: "string option"
  cc_required_artifacts :: "artifact_requirement list"
  cc_verifications :: "verification list"
  cc_allowed_side_effects :: "string list"

definition empty_contract :: completion_contract where
  "empty_contract = \<lparr>cc_output_schema_ref = None, cc_required_artifacts = [], cc_verifications = [],
     cc_allowed_side_effects = []\<rparr>"

record node_timeout =
  nt_attempt_s :: "nat option"
  nt_node_s :: "nat option"

record retry_policy =
  r_max_attempts :: nat
  r_backoff_s :: nat
  r_repair_profile :: "string option"

record team_stage_member =
  m_role :: string
  m_executor :: string
  m_description :: string
  m_label :: string

record team_stage_limits =
  l_max_members :: nat
  l_max_rounds :: nat
  l_max_messages :: nat
  l_max_hops :: nat

definition default_limits :: team_stage_limits where
  "default_limits = \<lparr>l_max_members = 4, l_max_rounds = 10, l_max_messages = 100, l_max_hops = 3\<rparr>"

record team_stage_spec =
  ts_goal :: string
  ts_members :: "team_stage_member list"
  ts_leader :: string
  ts_limits :: team_stage_limits
  ts_workspace_access :: workspace_access
  ts_inputs :: "string list"

text \<open>\<open>TeamStageLimits\<close> and the validator \<open>_a_team\<close> of a team stage.\<close>

definition valid_limits :: "team_stage_limits \<Rightarrow> bool" where
  "valid_limits l \<longleftrightarrow> 1 \<le> l_max_members l \<and> l_max_members l \<le> 8 \<and> 1 \<le> l_max_rounds l \<and> l_max_rounds l \<le> 30
     \<and> 1 \<le> l_max_messages l \<and> l_max_messages l \<le> 200 \<and> l_max_hops l \<le> 8"

definition valid_member :: "team_stage_member \<Rightarrow> bool" where
  "valid_member m \<longleftrightarrow> is_role (m_role m) \<and> is_versioned_ref (m_executor m) \<and> length (m_description m) \<le> 300 \<and> length (m_label m) \<le> 40"

definition valid_team_stage :: "team_stage_spec \<Rightarrow> bool" where
  "valid_team_stage s \<longleftrightarrow> ts_goal s \<noteq> [] \<and> 2 \<le> length (ts_members s) \<and> length (ts_members s) \<le> 8
     \<and> list_all valid_member (ts_members s) \<and> is_role (ts_leader s) \<and> list_all is_artifact_uri (ts_inputs s)
     \<and> valid_limits (ts_limits s) \<and> ts_workspace_access s \<noteq> WriteAccess
     \<and> distinct (map m_role (ts_members s))
     \<and> ts_leader s \<in> set (map m_role (ts_members s))
     \<and> length (ts_members s) \<le> l_max_members (ts_limits s)"

datatype node_spec =
    AgentTurnSpec (spec_goal: string) (spec_inputs: "string list")
  | SopStageSpec (spec_sop: string) (spec_sop_inputs: "string list")
  | TeamStageSpec team_stage_spec
  | ApprovalSpec (spec_summary: string) (spec_risk: risk)
  | WaitSpec (spec_wait_key: "string option") (spec_timer_s: "nat option")
  | CheckpointSpec (spec_label: string)

primrec spec_type :: "node_spec \<Rightarrow> node_type" where
  "spec_type (AgentTurnSpec g i) = AgentTurn"
| "spec_type (SopStageSpec s i) = SopStage"
| "spec_type (TeamStageSpec t) = TeamStage"
| "spec_type (ApprovalSpec s r) = Approval"
| "spec_type (WaitSpec k t) = Wait"
| "spec_type (CheckpointSpec l) = Checkpoint"

text \<open>The constraints of the specs, \<open>_needs_a_condition\<close> of a wait among them.\<close>

primrec valid_spec :: "node_spec \<Rightarrow> bool" where
  "valid_spec (AgentTurnSpec g i) = (g \<noteq> [] \<and> list_all is_artifact_uri i)"
| "valid_spec (SopStageSpec s i) = (is_versioned_ref s \<and> list_all is_artifact_uri i)"
| "valid_spec (TeamStageSpec t) = valid_team_stage t"
| "valid_spec (ApprovalSpec s r) = (s \<noteq> [])"
| "valid_spec (WaitSpec k t) = ((k \<noteq> None \<or> t \<noteq> None) \<and> k \<noteq> Some [] \<and> t \<noteq> Some 0)"
| "valid_spec (CheckpointSpec l) = (l \<noteq> [])"

record task_node_draft =
  d_node_id :: string
  d_type_version :: nat
  d_title :: string
  d_depends_on :: "string list"
  d_parent_node_id :: "string option"
  d_workspace_access :: "workspace_access option"
  d_owner_profile :: "string option"
  d_budget :: budget
  d_timeout :: "node_timeout option"
  d_retry :: "retry_policy option"
  d_completion_contract :: completion_contract
  d_spec :: node_spec

abbreviation d_type :: "task_node_draft \<Rightarrow> node_type" where
  "d_type d \<equiv> spec_type (d_spec d)"

definition valid_contract :: "completion_contract \<Rightarrow> bool" where
  "valid_contract c \<longleftrightarrow> (case cc_output_schema_ref c of None \<Rightarrow> True | Some r \<Rightarrow> is_schema_ref r)
     \<and> list_all (\<lambda>a. ar_name a \<noteq> [] \<and> ar_media_type a \<noteq> [] \<and> 1 \<le> ar_min_count a) (cc_required_artifacts c)"

definition valid_retry :: "retry_policy \<Rightarrow> bool" where
  "valid_retry r \<longleftrightarrow> 1 \<le> r_max_attempts r \<and> (case r_repair_profile r of None \<Rightarrow> True | Some p \<Rightarrow> is_versioned_ref p)"

definition valid_draft :: "task_node_draft \<Rightarrow> bool" where
  "valid_draft d \<longleftrightarrow> valid_node_ref (d_node_id d) \<and> 1 \<le> d_type_version d
     \<and> 1 \<le> length (d_title d) \<and> length (d_title d) \<le> 200
     \<and> list_all valid_node_ref (d_depends_on d)
     \<and> (case d_parent_node_id d of None \<Rightarrow> True | Some p \<Rightarrow> valid_node_ref p)
     \<and> (case d_owner_profile d of None \<Rightarrow> True | Some p \<Rightarrow> is_versioned_ref p)
     \<and> (case d_retry d of None \<Rightarrow> True | Some r \<Rightarrow> valid_retry r) \<and> valid_contract (d_completion_contract d)
     \<and> valid_spec (d_spec d)"

text \<open>A draft with nothing but its id, title and spec: what the other fields default to.\<close>

definition new_draft :: "string \<Rightarrow> string \<Rightarrow> node_spec \<Rightarrow> task_node_draft" where
  "new_draft i t s = \<lparr>d_node_id = i, d_type_version = 1, d_title = t, d_depends_on = [], d_parent_node_id = None,
     d_workspace_access = None, d_owner_profile = None, d_budget = no_budget, d_timeout = None, d_retry = None,
     d_completion_contract = empty_contract, d_spec = s\<rparr>"

section \<open>Plan change commands\<close>

datatype plan_reject_code = VERSION_CONFLICT | FROZEN_NODE | TYPE_NOT_ALLOWED | POLICY_DENIED | BUDGET_EXCEEDED
  | CYCLE | DEPTH_EXCEEDED | TOO_MANY_OPS | VISIBILITY | SCHEMA_INVALID | STALE_ATTEMPT

record node_patch =
  np_title :: "string option"
  np_spec :: "(string, json) dict option"
  np_budget :: "budget option"

datatype plan_op =
    AddNodeOp task_node_draft
  | UpdateNodeOp string node_patch
  | RemoveNodeOp string
  | AddEdgeOp string string
  | RemoveEdgeOp string string
  | DeclareBlockedOp string string

primrec valid_op :: "plan_op \<Rightarrow> bool" where
  "valid_op (AddNodeOp d) = valid_draft d"
| "valid_op (UpdateNodeOp n p) = (valid_node_ref n \<and> (case np_title p of None \<Rightarrow> True | Some t \<Rightarrow> 1 \<le> length t \<and> length t \<le> 200))"
| "valid_op (RemoveNodeOp n) = valid_node_ref n"
| "valid_op (AddEdgeOp s t) = (valid_node_ref s \<and> valid_node_ref t)"
| "valid_op (RemoveEdgeOp s t) = (valid_node_ref s \<and> valid_node_ref t)"
| "valid_op (DeclareBlockedOp n r) = (valid_node_ref n \<and> r \<noteq> [])"

record plan_change_command =
  pc_command_id :: string
  pc_task_id :: string
  pc_base_plan_version :: int
  pc_actor :: actor
  pc_ops :: "plan_op list"
  pc_reason :: string

definition valid_actor :: "actor \<Rightarrow> bool" where
  "valid_actor a \<longleftrightarrow> a_id a \<noteq> [] \<and> (case a_attempt_id a of None \<Rightarrow> True | Some i \<Rightarrow> valid_attempt_id i)
     \<and> (case a_profile a of None \<Rightarrow> True | Some p \<Rightarrow> is_versioned_ref p)"

definition valid_command :: "plan_change_command \<Rightarrow> bool" where
  "valid_command c \<longleftrightarrow> valid_command_id (pc_command_id c) \<and> valid_task_id (pc_task_id c)
     \<and> 1 \<le> pc_base_plan_version c \<and> valid_actor (pc_actor c) \<and> pc_ops c \<noteq> [] \<and> list_all valid_op (pc_ops c)"

datatype plan_change_result =
    PlanChangeAccepted (acc_plan_version: int) (acc_id_map: "(string, string) dict")
  | PlanChangeRejected (rej_code: plan_reject_code) (rej_detail: string) (rej_latest_version: int) (rej_latest_hash: string)

end
