(* ===== verification/Plan_Engine.thy ===== *)
theory Plan_Engine
  imports Contracts
begin

text \<open>
  \<^verbatim>\<open>orbit_orch/plan_engine.py\<close>: the rules a plan change is judged by. The definitions follow the file from top to
  bottom; the correctness of the graph check is in \<^verbatim>\<open>Plan_Graph\<close>, what an applied command guarantees in
  \<^verbatim>\<open>Plan_Apply\<close>.

  The only code the module calls that is not in the repository and not Python's library is pydantic: dumping a draft
  (\<open>model_dump\<close>) and validating one (\<open>TypeAdapter.validate_python\<close>). Both are the parameter \<open>px\<close>.
\<close>

section \<open>Identifiers\<close>

definition attempt_workflow_id :: "string \<Rightarrow> string \<Rightarrow> nat \<Rightarrow> string" where
  "attempt_workflow_id task_id node_id attempt_no = ''attempt/'' @ task_id @ ''/'' @ node_id @ ''/'' @ nat_str attempt_no"

text \<open>The loop of \<open>deterministic_id\<close>: \<open>n\<close> times the low five bits, the value shifted right each time.\<close>

primrec id_chars :: "nat \<Rightarrow> int \<Rightarrow> string" where
  "id_chars 0 value = []"
| "id_chars (Suc n) value = (ulid_alphabet ! nat (value AND 31)) # id_chars n (drop_bit 5 value)"

definition deterministic_id :: "string \<Rightarrow> string \<Rightarrow> string" where
  "deterministic_id seed pfx =
     (let value = from_bytes (take 16 (sha256 (utf8 seed)))
      in pfx @ ''_'' @ rev (id_chars 26 value))"

section \<open>Plan state\<close>

record plan_node_state =
  ns_draft :: task_node_draft
  ns_status :: node_status
  ns_frozen :: bool
  ns_current_attempt_id :: "string option"
  ns_attempt_count :: nat
  ns_created_by :: "string option"

text \<open>What a dict handed to \<open>validate_python\<close> holds: dumped JSON, or the \<open>Budget\<close> instance of a patch.\<close>

datatype draft_value = DJson json | DBudget budget

record pydantic =
  px_dump :: "bool \<Rightarrow> task_node_draft \<Rightarrow> (string, json) dict"  \<comment> \<open>\<open>model_dump(mode="json", exclude_none=_)\<close>\<close>
  px_dump_spec :: "node_spec \<Rightarrow> (string, json) dict"
  px_validate :: "(string, draft_value) dict \<Rightarrow> task_node_draft option"  \<comment> \<open>\<open>None\<close>: \<open>ValidationError\<close>\<close>

primrec node_status_str :: "node_status \<Rightarrow> string" where
  "node_status_str PENDING = ''PENDING''"
| "node_status_str READY = ''READY''"
| "node_status_str RUNNING = ''RUNNING''"
| "node_status_str AWAITING_APPROVAL = ''AWAITING_APPROVAL''"
| "node_status_str AWAITING_INPUT = ''AWAITING_INPUT''"
| "node_status_str PROPOSED = ''PROPOSED''"
| "node_status_str VERIFYING = ''VERIFYING''"
| "node_status_str COMPLETED = ''COMPLETED''"
| "node_status_str RETRY_PENDING = ''RETRY_PENDING''"
| "node_status_str BLOCKED = ''BLOCKED''"
| "node_status_str SKIPPED = ''SKIPPED''"
| "node_status_str CANCELLED = ''CANCELLED''"

primrec node_type_str :: "node_type \<Rightarrow> string" where
  "node_type_str AgentTurn = ''agent_turn''"
| "node_type_str SopStage = ''sop_stage''"
| "node_type_str TeamStage = ''team_stage''"
| "node_type_str Approval = ''approval''"
| "node_type_str Wait = ''wait''"
| "node_type_str Checkpoint = ''checkpoint''"

definition jopt :: "string option \<Rightarrow> json" where
  "jopt x = (case x of None \<Rightarrow> JNull | Some s \<Rightarrow> JStr s)"

definition canonical :: "pydantic \<Rightarrow> plan_node_state \<Rightarrow> json" where
  "canonical px s = JObj [(''draft'', JObj (px_dump px True (ns_draft s))), (''status'', JStr (node_status_str (ns_status s))),
     (''frozen'', JBool (ns_frozen s)), (''current_attempt_id'', jopt (ns_current_attempt_id s)),
     (''attempt_count'', JInt (int (ns_attempt_count s))), (''created_by'', jopt (ns_created_by s))]"

definition canonical_draft :: "pydantic \<Rightarrow> task_node_draft \<Rightarrow> json" where
  "canonical_draft px d =
     (let data = px_dump px False d
      in JObj (if dget data ''parent_node_id'' \<in> {None, Some JNull} then dpop ''parent_node_id'' data else data))"

type_synonym edge = "string \<times> string"

record plan_state =
  pl_version :: int
  pl_nodes :: "(string, plan_node_state) dict"
  pl_edges :: "edge list"
  pl_hash :: string

definition plan_json :: "pydantic \<Rightarrow> int \<Rightarrow> (string, plan_node_state) dict \<Rightarrow> edge list \<Rightarrow> json" where
  "plan_json px version nodes edges = JObj
     [(''version'', JInt version),
      (''nodes'', JObj (map (\<lambda>k. (k, case dget nodes k of None \<Rightarrow> JNull | Some s \<Rightarrow> canonical_draft px (ns_draft s)))
        (sort (dkeys nodes)))),
      (''edges'', JArr (map (\<lambda>(s, t). JArr [JStr s, JStr t]) (sort edges)))]"

text \<open>\<open>PlanState.build\<close> and \<open>PlanState.with_updates\<close>.\<close>

definition build :: "pydantic \<Rightarrow> int \<Rightarrow> (string, plan_node_state) dict \<Rightarrow> edge list \<Rightarrow> plan_state" where
  "build px version nodes edges =
     (let edge_set = remdups edges
      in \<lparr>pl_version = version, pl_nodes = nodes, pl_edges = edge_set,
          pl_hash = ''sha256:'' @ hexdigest (utf8 (json_canonical (plan_json px version nodes edge_set)))\<rparr>)"

definition with_updates ::
  "pydantic \<Rightarrow> plan_state \<Rightarrow> int option \<Rightarrow> (string, plan_node_state) dict option \<Rightarrow> edge list option \<Rightarrow> plan_state" where
  "with_updates px plan version nodes edges =
     build px (case version of None \<Rightarrow> pl_version plan | Some v \<Rightarrow> v)
       (case nodes of None \<Rightarrow> pl_nodes plan | Some n \<Rightarrow> n) (case edges of None \<Rightarrow> pl_edges plan | Some e \<Rightarrow> e)"

definition NODE_TYPES :: "node_type list" where
  "NODE_TYPES = [AgentTurn, SopStage, Approval, Wait, Checkpoint]"

definition NODE_TYPES_WITH_TEAM :: "node_type list" where
  "NODE_TYPES_WITH_TEAM = NODE_TYPES @ [TeamStage]"

record plan_policy =
  pp_allowed_node_types :: "node_type list"
  pp_max_ops :: nat
  pp_max_depth :: "nat option"
  pp_max_chain :: nat
  pp_legacy_depth :: bool
  pp_max_serialized_bytes :: nat
  pp_max_budget :: budget
  pp_active_attempt_id :: "string option"
  pp_active_attempt_ids :: "string list"
  pp_active_node_ids :: "string list"
  pp_visible_node_ids :: "string list option"
  pp_archived_node_ids :: "string list"
  pp_agent_team_experts :: "string list option"

definition default_policy :: plan_policy where
  "default_policy = \<lparr>pp_allowed_node_types = NODE_TYPES, pp_max_ops = 32, pp_max_depth = Some 1, pp_max_chain = 256,
     pp_legacy_depth = False, pp_max_serialized_bytes = 256 * 1024, pp_max_budget = no_budget,
     pp_active_attempt_id = None, pp_active_attempt_ids = [], pp_active_node_ids = [], pp_visible_node_ids = None,
     pp_archived_node_ids = [], pp_agent_team_experts = None\<rparr>"

record plan_apply_outcome =
  po_result :: plan_change_result
  po_plan :: plan_state

definition fresh_node :: "task_node_draft \<Rightarrow> node_status \<Rightarrow> string option \<Rightarrow> plan_node_state" where
  "fresh_node d st by = \<lparr>ns_draft = d, ns_status = st, ns_frozen = False, ns_current_attempt_id = None,
     ns_attempt_count = 0, ns_created_by = by\<rparr>"

definition initial_plan :: "pydantic \<Rightarrow> string \<Rightarrow> string \<Rightarrow> string \<Rightarrow> plan_state" where
  "initial_plan px task_id goal profile =
     (let node_id = deterministic_id (task_id @ '':exploration'') ''n'';
          node = (new_draft node_id ''Explore and plan'' (AgentTurnSpec goal []))\<lparr>d_owner_profile := Some profile\<rparr>
      in build px 1 [(node_id, fresh_node node READY None)] [])"

section \<open>Exceptions and checks\<close>

text \<open>\<open>_PlanError\<close>, pydantic's \<open>ValidationError\<close>, and what Python raises where a lookup or a \<open>next\<close> fails.\<close>

datatype plan_exn = PlanError plan_reject_code string | ValidationError | KeyError | StopIteration

definition reject :: "plan_state \<Rightarrow> plan_reject_code \<Rightarrow> string \<Rightarrow> plan_apply_outcome" where
  "reject plan code detail = \<lparr>po_result = PlanChangeRejected code detail (pl_version plan) (pl_hash plan), po_plan = plan\<rparr>"

definition resolve_new_id :: "string \<Rightarrow> string \<Rightarrow> nat \<Rightarrow> (string, plan_node_state) dict \<Rightarrow> plan_exn + string" where
  "resolve_new_id raw command_id index nodes =
     (let candidate = (if is_tmp raw then deterministic_id (command_id @ '':'' @ raw @ '':'' @ nat_str index) ''n'' else raw)
      in if has_key nodes candidate then Inl (PlanError SCHEMA_INVALID (''node '' @ candidate @ '' already exists''))
         else Inr candidate)"

definition resolve_ref :: "(string, string) dict \<Rightarrow> string \<Rightarrow> plan_exn + string" where
  "resolve_ref id_map raw =
     (if is_tmp raw then
        (case dget id_map raw of None \<Rightarrow> Inl (PlanError SCHEMA_INVALID (''unknown temporary node '' @ raw)) | Some i \<Rightarrow> Inr i)
      else Inr raw)"

definition refuse_archived :: "string \<Rightarrow> (string, plan_node_state) dict \<Rightarrow> plan_policy \<Rightarrow> plan_exn + unit" where
  "refuse_archived node_id nodes policy =
     raise_if (\<not> has_key nodes node_id \<and> node_id \<in> set (pp_archived_node_ids policy))
       (PlanError FROZEN_NODE (''node '' @ node_id @ '' is completed and archived''))"

definition require_node :: "(string, plan_node_state) dict \<Rightarrow> string \<Rightarrow> plan_exn + plan_node_state" where
  "require_node nodes node_id =
     (case dget nodes node_id of None \<Rightarrow> Inl (PlanError SCHEMA_INVALID (''unknown node '' @ node_id)) | Some s \<Rightarrow> Inr s)"

definition check_type :: "node_type \<Rightarrow> plan_policy \<Rightarrow> plan_exn + unit" where
  "check_type t policy =
     raise_if (t \<notin> set (pp_allowed_node_types policy)) (PlanError TYPE_NOT_ALLOWED (''node type '' @ node_type_str t @ '' is disabled''))"

definition check_team_stage :: "team_stage_spec \<Rightarrow> actor \<Rightarrow> plan_policy \<Rightarrow> plan_exn + unit" where
  "check_team_stage spec actor policy =
     (if a_kind actor \<noteq> Agent then Inr ()
      else case pp_agent_team_experts policy of
        None \<Rightarrow> Inl (PlanError TYPE_NOT_ALLOWED ''only the leader of a task with a team may create a team stage'')
      | Some experts \<Rightarrow>
          (let strangers = sort (remdups (filter (\<lambda>e. e \<notin> set experts) (map m_executor (ts_members spec))))
           in raise_if (strangers \<noteq> []) (PlanError POLICY_DENIED
                (''a team stage may only use the experts of the task's team, not '' @ join '', '' strangers))))"

definition team_stage_defaults :: "team_stage_spec \<Rightarrow> task_node_draft \<Rightarrow> plan_exn + task_node_draft" where
  "team_stage_defaults spec node =
     (case find (\<lambda>m. m_role m = ts_leader spec) (ts_members spec) of
        None \<Rightarrow> Inl StopIteration
      | Some leader \<Rightarrow> Inr (node\<lparr>
          d_workspace_access := Some (case d_workspace_access node of None \<Rightarrow> WriteAccess | Some a \<Rightarrow> a),
          d_owner_profile := Some (if d_owner_profile node \<in> {None, Some []} then m_executor leader else the (d_owner_profile node))\<rparr>))"

definition check_mutable :: "plan_node_state \<Rightarrow> plan_exn + unit" where
  "check_mutable node =
     raise_if (ns_frozen node \<or> ns_status node = COMPLETED) (PlanError FROZEN_NODE ''completed nodes are immutable'')"

definition check_visibility :: "actor \<Rightarrow> string \<Rightarrow> plan_policy \<Rightarrow> plan_exn + unit" where
  "check_visibility actor node_id policy =
     raise_if (a_kind actor = Agent \<and> (case pp_visible_node_ids policy of None \<Rightarrow> False | Some vs \<Rightarrow> node_id \<notin> set vs))
       (PlanError VISIBILITY (''node '' @ node_id @ '' is outside the actor visibility scope''))"

definition check_author :: "actor \<Rightarrow> plan_node_state \<Rightarrow> plan_exn + unit" where
  "check_author actor node =
     raise_if (a_kind actor = Agent \<and> (ns_created_by node \<noteq> Some (a_id actor) \<or> ns_status node \<notin> {PENDING, READY}))
       (PlanError POLICY_DENIED ''agent can only change its own unstarted nodes'')"

text \<open>\<^verbatim>\<open>{**a, **b}\<close>.\<close>

definition dmerge :: "('k, 'v) dict \<Rightarrow> ('k, 'v) dict \<Rightarrow> ('k, 'v) dict" where
  "dmerge a b = foldl (\<lambda>d (k, v). dset k v d) a b"

definition patch_node :: "pydantic \<Rightarrow> task_node_draft \<Rightarrow> node_patch \<Rightarrow> plan_exn + task_node_draft" where
  "patch_node px node patch =
     (let changes = (case np_title patch of None \<Rightarrow> [] | Some t \<Rightarrow> [(''title'', DJson (JStr t))])
            @ (case np_budget patch of None \<Rightarrow> [] | Some b \<Rightarrow> [(''budget'', DBudget b)])
            @ (case np_spec patch of None \<Rightarrow> [] | Some s \<Rightarrow> [(''spec'', DJson (JObj (dmerge (px_dump_spec px (d_spec node)) s)))])
      in case px_validate px (dmerge (dmap (\<lambda>_. DJson) (px_dump px False node)) changes) of
           None \<Rightarrow> Inl ValidationError | Some d \<Rightarrow> Inr d)"

section \<open>The graph\<close>

definition check_edges :: "(string, plan_node_state) dict \<Rightarrow> edge list \<Rightarrow> plan_exn + unit" where
  "check_edges nodes edges = checkE (\<lambda>(source, target).
     bindE (raise_if (\<not> has_key nodes source \<or> \<not> has_key nodes target)
              (PlanError SCHEMA_INVALID ''an edge references a missing node''))
       (\<lambda>_. raise_if (source = target) (PlanError CYCLE ''a node cannot depend on itself''))) edges"

text \<open>\<open>adjacency[source].append(target)\<close> and \<open>incoming[target] += 1\<close>, for one edge.\<close>

fun count_edge ::
  "(string, string list) dict \<times> (string, int) dict \<Rightarrow> edge \<Rightarrow> plan_exn + (string, string list) dict \<times> (string, int) dict" where
  "count_edge (adjacency, incoming) (source, target) =
     (case (dget adjacency source, dget incoming target) of
        (Some outs, Some n) \<Rightarrow> Inr (dset source (outs @ [target]) adjacency, dset target (n + 1) incoming)
      | _ \<Rightarrow> Inl KeyError)"

text \<open>One child of a processed node: its depth is raised, its count falls, and at zero it is ready.\<close>

type_synonym kahn_state = "(string, int) dict \<times> (string, int) dict \<times> string list"

fun kahn_child :: "int \<Rightarrow> kahn_state \<Rightarrow> string \<Rightarrow> plan_exn + kahn_state" where
  "kahn_child depth (depths, incoming, ready) child =
     (case (dget depths child, dget incoming child) of
        (Some dc, Some ic) \<Rightarrow> Inr (dset child (max dc (depth + 1)) depths, dset child (ic - 1) incoming,
                                  if ic - 1 = 0 then ready @ [child] else ready)
      | _ \<Rightarrow> Inl KeyError)"

definition positives :: "(string, int) dict \<Rightarrow> nat" where
  "positives d = length (filter (\<lambda>(k, n). 0 < n) d)"

lemma positives_dset:
  assumes "dget d k = Some n"
  shows "positives (dset k (n - 1) d) = positives d - (if n = 1 then 1 else 0)"
    and "n = 1 \<Longrightarrow> 0 < positives d"
  using assms by (induction d) (auto simp: positives_def split: if_splits)

lemma kahn_child_measure:
  assumes "kahn_child depth (depths, incoming, ready) child = Inr (depths', incoming', ready')"
  shows "length ready' + positives incoming' = length ready + positives incoming"
proof -
  from assms obtain dc ic where ic: "dget incoming child = Some ic"
    and incoming': "incoming' = dset child (ic - 1) incoming"
    and ready': "ready' = (if ic - 1 = 0 then ready @ [child] else ready)"
    by (auto split: option.splits)
  show ?thesis
    using positives_dset[OF ic] by (simp add: incoming' ready' eq_diff_eq)
qed

lemma kahn_children_measure:
  assumes "foldE (kahn_child depth) st children = Inr st'"
  shows "length (snd (snd st')) + positives (fst (snd st')) = length (snd (snd st)) + positives (fst (snd st))"
  using assms(1)
proof (rule foldE_invariant[where P = "\<lambda>t. length (snd (snd t)) + positives (fst (snd t))
    = length (snd (snd st)) + positives (fst (snd st))"])
  fix s x s' assume "kahn_child depth s x = Inr s'"
    and eq: "length (snd (snd s)) + positives (fst (snd s)) = length (snd (snd st)) + positives (fst (snd st))"
  then show "length (snd (snd s')) + positives (fst (snd s')) = length (snd (snd st)) + positives (fst (snd st))"
    using kahn_child_measure[of depth "fst s" "fst (snd s)" "snd (snd s)" x "fst s'" "fst (snd s')" "snd (snd s')"]
    by simp
qed simp

text \<open>The \<^verbatim>\<open>while ready\<close> loop: it returns the depths and how many nodes were processed.\<close>

function kahn :: "(string, string list) dict \<Rightarrow> kahn_state \<Rightarrow> nat \<Rightarrow> plan_exn + (string, int) dict \<times> nat" where
  "kahn adjacency (depths, incoming, []) processed = Inr (depths, processed)"
| "kahn adjacency (depths, incoming, node_id # ready) processed =
     (case (dget adjacency node_id, dget depths node_id) of
        (Some children, Some depth) \<Rightarrow>
          bindE (foldE (kahn_child depth) (depths, incoming, ready) children) (\<lambda>st. kahn adjacency st (processed + 1))
      | _ \<Rightarrow> Inl KeyError)"
  by pat_completeness auto
termination
proof (relation "measure (\<lambda>(adjacency, (depths, incoming, ready), processed). length ready + positives incoming)")
  fix adjacency depths incoming node_id ready processed children depth st
  assume "foldE (kahn_child depth) (depths, incoming, ready) children = Inr st"
  from kahn_children_measure[OF this]
  show "((adjacency, st, processed + 1), adjacency, (depths, incoming, node_id # ready), processed)
    \<in> measure (\<lambda>(adjacency, (depths, incoming, ready), processed). length ready + positives incoming)"
    by (cases st) simp
qed simp

text \<open>\<open>_validate_nesting\<close>: the walk up the parents of one node. \<open>seen\<close> grows within the plan's nodes, so it ends.\<close>

function nesting_depth ::
  "(string, plan_node_state) dict \<Rightarrow> plan_policy \<Rightarrow> string \<Rightarrow> string list \<Rightarrow> string \<Rightarrow> nat \<Rightarrow> plan_exn + nat" where
  "nesting_depth nodes policy node_id seen current depth =
     (case dget nodes current of None \<Rightarrow> Inl KeyError
      | Some state \<Rightarrow> (case d_parent_node_id (ns_draft state) of None \<Rightarrow> Inr depth
        | Some link \<Rightarrow>
            if link \<in> set seen then Inl (PlanError CYCLE ''the parent chain of a node loops'')
            else if \<not> has_key nodes link then
              (if node_id = current \<and> link \<notin> set (pp_archived_node_ids policy)
               then Inl (PlanError SCHEMA_INVALID (''unknown parent node '' @ link)) else Inr (depth + 1))
            else nesting_depth nodes policy node_id (link # seen) link (depth + 1)))"
  by pat_completeness auto
termination
proof (relation "measure (\<lambda>(nodes, policy, node_id, seen, current, depth). card (fst ` set nodes - set seen))")
  fix nodes :: "(string, plan_node_state) dict" and policy :: plan_policy and node_id seen current depth state and link :: string
  assume "link \<notin> set seen" and "\<not> \<not> has_key nodes link"
  then have "card (fst ` set nodes - set (link # seen)) < card (fst ` set nodes - set seen)"
    by (intro psubset_card_mono) auto
  then show "((nodes, policy, node_id, link # seen, link, depth + 1), nodes, policy, node_id, seen, current, depth)
    \<in> measure (\<lambda>(nodes, policy, node_id, seen, current, depth). card (fst ` set nodes - set seen))"
    by simp
qed simp

declare nesting_depth.simps [simp del]

definition validate_nesting_of ::
  "(string, plan_node_state) dict \<Rightarrow> plan_policy \<Rightarrow> (string, plan_node_state) dict \<Rightarrow> string \<times> plan_node_state \<Rightarrow> plan_exn + unit" where
  "validate_nesting_of nodes policy previous = (\<lambda>(node_id, state).
     (case d_parent_node_id (ns_draft state) of None \<Rightarrow> Inr ()
      | Some parent \<Rightarrow>
          if (case dget previous node_id of None \<Rightarrow> False | Some before \<Rightarrow> d_parent_node_id (ns_draft before) = Some parent)
          then Inr ()
          else bindE (nesting_depth nodes policy node_id [node_id] node_id 0) (\<lambda>depth.
            case pp_max_depth policy of None \<Rightarrow> Inr ()
            | Some m \<Rightarrow> raise_if (m < depth) (PlanError DEPTH_EXCEEDED
                (''node nesting depth '' @ nat_str depth @ '' exceeds the limit of '' @ nat_str m)))))"

definition validate_nesting ::
  "(string, plan_node_state) dict \<Rightarrow> plan_policy \<Rightarrow> (string, plan_node_state) dict \<Rightarrow> plan_exn + unit" where
  "validate_nesting nodes policy previous = checkE (validate_nesting_of nodes policy previous) nodes"

definition validate_graph ::
  "(string, plan_node_state) dict \<Rightarrow> edge list \<Rightarrow> plan_policy \<Rightarrow> (string, plan_node_state) dict \<Rightarrow> plan_exn + unit" where
  "validate_graph nodes edges policy previous =
     bindE (check_edges nodes edges) (\<lambda>_.
     bindE (foldE count_edge (dmap (\<lambda>_ _. []) nodes, dmap (\<lambda>_ _. 0) nodes) (sort edges)) (\<lambda>(adjacency, incoming).
     let ready = sort (map fst (filter (\<lambda>(k, n). n = 0) incoming)) in
     bindE (kahn adjacency (dmap (\<lambda>_ _. 0) nodes, incoming, ready) 0) (\<lambda>(depths, processed).
     bindE (raise_if (processed \<noteq> length nodes) (PlanError CYCLE ''plan graph contains a cycle'')) (\<lambda>_.
     let chain = foldl max 0 (dvals depths) in
     bindE (raise_if (int (pp_max_chain policy) < chain)
       (if pp_legacy_depth policy then PlanError DEPTH_EXCEEDED ''plan depth exceeds policy''
        else PlanError TOO_MANY_OPS (''the longest chain of dependencies ('' @ int_str chain @ '') exceeds the bound of ''
               @ nat_str (pp_max_chain policy)))) (\<lambda>_.
     validate_nesting nodes policy previous)))))"

section \<open>Budgets of a plan\<close>

definition counts_for_budget :: "plan_node_state \<Rightarrow> bool" where
  "counts_for_budget node \<longleftrightarrow> ns_status node \<notin> {COMPLETED, SKIPPED, CANCELLED}"

definition add_field ::
  "budget \<Rightarrow> budget \<Rightarrow> (budget_field \<Rightarrow> nat) \<Rightarrow> budget_field \<Rightarrow> plan_exn + (budget_field \<Rightarrow> nat)" where
  "add_field maximum b totals f =
     (case bget b f of None \<Rightarrow> Inr totals
      | Some v \<Rightarrow> (let t = totals f + v in
          case bget maximum f of None \<Rightarrow> Inr (totals(f := t))
          | Some limit \<Rightarrow> if limit < t then Inl (PlanError BUDGET_EXCEEDED (''plan '' @ field_str f @ '' budget exceeds policy''))
                           else Inr (totals(f := t))))"

definition add_node_budget ::
  "budget \<Rightarrow> (budget_field \<Rightarrow> nat) \<Rightarrow> plan_node_state \<Rightarrow> plan_exn + (budget_field \<Rightarrow> nat)" where
  "add_node_budget maximum totals node =
     (if counts_for_budget node then foldE (add_field maximum (d_budget (ns_draft node))) totals FIELDS else Inr totals)"

definition validate_budget :: "plan_node_state list \<Rightarrow> budget \<Rightarrow> plan_exn + unit" where
  "validate_budget nodes maximum = bindE (foldE (add_node_budget maximum) (\<lambda>_. 0) nodes) (\<lambda>_. Inr ())"

section \<open>Size of a plan\<close>

definition plan_bytes_of :: "pydantic \<Rightarrow> (string, plan_node_state) dict \<Rightarrow> nat" where
  "plan_bytes_of px nodes = length (utf8 (json_dumps (JObj (dmap (\<lambda>_. canonical px) nodes))))"

definition plan_bytes :: "pydantic \<Rightarrow> plan_state \<Rightarrow> nat" where
  "plan_bytes px plan = plan_bytes_of px (pl_nodes plan)"

end
