(* ===== verification/Plan_Apply.thy ===== *)
theory Plan_Apply
  imports Plan_Engine
begin

text \<open>
  \<open>apply\<close> and \<open>compact\<close> of \<^verbatim>\<open>orbit_orch/plan_engine.py\<close>. Each branch of the loop over a command's operations is a
  definition on the loop's state: the nodes, the edges and the map from temporary ids to real ones.
\<close>

section \<open>The operations\<close>

type_synonym nodes = "(string, plan_node_state) dict"
type_synonym loop_state = "nodes \<times> edge list \<times> (string, string) dict"

text \<open>The first loop: every temporary id gets its real one, so an operation may name a node that is added after it.\<close>

definition assign_tmp :: "string \<Rightarrow> nodes \<Rightarrow> (string, string) dict \<Rightarrow> nat \<times> plan_op \<Rightarrow> plan_exn + (string, string) dict" where
  "assign_tmp command_id nodes id_map = (\<lambda>(index, op).
     case op of
       AddNodeOp node \<Rightarrow>
         (let raw = d_node_id node in
          if is_tmp raw then
            bindE (raise_if (has_key id_map raw) (PlanError SCHEMA_INVALID ''duplicate temporary node id'')) (\<lambda>_.
            bindE (resolve_new_id raw command_id index nodes) (\<lambda>i. Inr (dset raw i id_map)))
          else Inr id_map)
     | _ \<Rightarrow> Inr id_map)"

definition live_refs :: "nodes \<Rightarrow> (string, string) dict \<Rightarrow> plan_policy \<Rightarrow> string list \<Rightarrow> string list" where
  "live_refs nodes id_map policy refs =
     filter (\<lambda>ref. has_key nodes ref \<or> ref \<in> set (dvals id_map) \<or> ref \<notin> set (pp_archived_node_ids policy)) refs"

definition check_ref_visible :: "actor \<Rightarrow> (string, string) dict \<Rightarrow> plan_policy \<Rightarrow> string \<Rightarrow> plan_exn + unit" where
  "check_ref_visible actor id_map policy ref =
     (if ref \<in> set (dvals id_map) then Inr () else check_visibility actor ref policy)"

definition with_defaults :: "task_node_draft \<Rightarrow> plan_exn + task_node_draft" where
  "with_defaults draft = (case d_spec draft of TeamStageSpec t \<Rightarrow> team_stage_defaults t draft | _ \<Rightarrow> Inr draft)"

definition check_new_node :: "task_node_draft \<Rightarrow> actor \<Rightarrow> plan_policy \<Rightarrow> plan_exn + unit" where
  "check_new_node node actor policy =
     bindE (check_type (d_type node) policy) (\<lambda>_.
     bindE (raise_if (d_type_version node \<noteq> 1 \<or> a_kind actor = Agent \<and> d_type node = SopStage)
       (PlanError TYPE_NOT_ALLOWED ''node type or version is not available to this actor'')) (\<lambda>_.
     case d_spec node of TeamStageSpec t \<Rightarrow> check_team_stage t actor policy | _ \<Rightarrow> Inr ()))"

definition op_add_node ::
  "plan_change_command \<Rightarrow> plan_policy \<Rightarrow> nat \<Rightarrow> task_node_draft \<Rightarrow> loop_state \<Rightarrow> plan_exn + loop_state" where
  "op_add_node command policy index node = (\<lambda>(nodes, edges, id_map).
     bindE (check_new_node node (pc_actor command) policy) (\<lambda>_.
     bindE (resolve_new_id (d_node_id node) (pc_command_id command) index nodes) (\<lambda>real_id.
     let id_map = (if is_tmp (d_node_id node) then dset (d_node_id node) real_id id_map else id_map) in
     bindE (mapE (resolve_ref id_map) (d_depends_on node)) (\<lambda>refs0.
     let refs = live_refs nodes id_map policy refs0 in
     bindE (case d_parent_node_id node of None \<Rightarrow> Inr None | Some p \<Rightarrow> bindE (resolve_ref id_map p) (\<lambda>q. Inr (Some q))) (\<lambda>parent.
     bindE (with_defaults (node\<lparr>d_node_id := real_id, d_depends_on := refs, d_parent_node_id := parent\<rparr>)) (\<lambda>draft.
     bindE (checkE (check_ref_visible (pc_actor command) id_map policy) (d_depends_on draft)) (\<lambda>_.
     bindE (case parent of None \<Rightarrow> Inr ()
            | Some p \<Rightarrow> if p \<in> set (dvals id_map) then Inr ()
                else bindE (refuse_archived p nodes policy) (\<lambda>_. check_visibility (pc_actor command) p policy)) (\<lambda>_.
     Inr (dset real_id (fresh_node draft PENDING (Some (a_id (pc_actor command)))) nodes,
          foldl (\<lambda>es dependency. sadd (dependency, real_id) es) edges (d_depends_on draft),
          id_map)))))))))"

text \<open>What \<open>update_node\<close> and \<open>remove_node\<close> check of the node they name.\<close>

definition own_node :: "plan_change_command \<Rightarrow> plan_policy \<Rightarrow> nodes \<Rightarrow> string \<Rightarrow> plan_exn + plan_node_state" where
  "own_node command policy nodes node_id =
     bindE (refuse_archived node_id nodes policy) (\<lambda>_.
     bindE (require_node nodes node_id) (\<lambda>current.
     bindE (check_mutable current) (\<lambda>_.
     bindE (check_visibility (pc_actor command) node_id policy) (\<lambda>_.
     bindE (check_author (pc_actor command) current) (\<lambda>_. Inr current)))))"

definition op_update_node ::
  "pydantic \<Rightarrow> plan_change_command \<Rightarrow> plan_policy \<Rightarrow> string \<Rightarrow> node_patch \<Rightarrow> loop_state \<Rightarrow> plan_exn + loop_state" where
  "op_update_node px command policy ref patch = (\<lambda>(nodes, edges, id_map).
     bindE (resolve_ref id_map ref) (\<lambda>node_id.
     bindE (own_node command policy nodes node_id) (\<lambda>current.
     bindE (patch_node px (ns_draft current) patch) (\<lambda>draft.
     Inr (dset node_id (current\<lparr>ns_draft := draft\<rparr>) nodes, edges, id_map)))))"

text \<open>\<open>any(nodes[target].frozen for source, target in edges if source == node_id)\<close>: the lookup may fail.\<close>

primrec any_frozen_target :: "nodes \<Rightarrow> string \<Rightarrow> edge list \<Rightarrow> plan_exn + bool" where
  "any_frozen_target nodes node_id [] = Inr False"
| "any_frozen_target nodes node_id (e # es) =
     (if fst e \<noteq> node_id then any_frozen_target nodes node_id es
      else case dget nodes (snd e) of None \<Rightarrow> Inl KeyError
        | Some s \<Rightarrow> if ns_frozen s then Inr True else any_frozen_target nodes node_id es)"

definition op_remove_node ::
  "plan_change_command \<Rightarrow> plan_policy \<Rightarrow> string \<Rightarrow> loop_state \<Rightarrow> plan_exn + loop_state" where
  "op_remove_node command policy ref = (\<lambda>(nodes, edges, id_map).
     bindE (resolve_ref id_map ref) (\<lambda>node_id.
     bindE (own_node command policy nodes node_id) (\<lambda>current.
     bindE (any_frozen_target nodes node_id edges) (\<lambda>frozen.
     bindE (raise_if frozen (PlanError FROZEN_NODE ''removing this node changes a frozen dependency'')) (\<lambda>_.
     bindE (raise_if (\<exists>other\<in>set (dvals nodes). d_parent_node_id (ns_draft other) = Some node_id)
       (PlanError SCHEMA_INVALID (''node '' @ node_id @ '' has nodes nested under it''))) (\<lambda>_.
     Inr (dpop node_id nodes, filter (\<lambda>e. fst e \<noteq> node_id \<and> snd e \<noteq> node_id) edges, id_map)))))))"

definition op_add_edge ::
  "plan_change_command \<Rightarrow> plan_policy \<Rightarrow> string \<Rightarrow> string \<Rightarrow> loop_state \<Rightarrow> plan_exn + loop_state" where
  "op_add_edge command policy from_ref to_ref = (\<lambda>(nodes, edges, id_map).
     bindE (resolve_ref id_map from_ref) (\<lambda>source.
     bindE (resolve_ref id_map to_ref) (\<lambda>target.
     bindE (refuse_archived target nodes policy) (\<lambda>_.
     if \<not> has_key nodes source \<and> source \<in> set (pp_archived_node_ids policy) then Inr (nodes, edges, id_map)
     else bindE (require_node nodes source) (\<lambda>_.
     bindE (require_node nodes target) (\<lambda>target_node.
     bindE (raise_if (ns_frozen target_node)
       (PlanError FROZEN_NODE (''cannot add a dependency to frozen node '' @ target))) (\<lambda>_.
     bindE (checkE (check_ref_visible (pc_actor command) id_map policy) [source, target]) (\<lambda>_.
     bindE (check_author (pc_actor command) target_node) (\<lambda>_.
     Inr (nodes, sadd (source, target) edges, id_map))))))))))"

definition op_remove_edge ::
  "plan_change_command \<Rightarrow> plan_policy \<Rightarrow> string \<Rightarrow> string \<Rightarrow> loop_state \<Rightarrow> plan_exn + loop_state" where
  "op_remove_edge command policy from_ref to_ref = (\<lambda>(nodes, edges, id_map).
     bindE (resolve_ref id_map from_ref) (\<lambda>source.
     bindE (resolve_ref id_map to_ref) (\<lambda>target.
     bindE (refuse_archived source nodes policy) (\<lambda>_.
     bindE (refuse_archived target nodes policy) (\<lambda>_.
     bindE (require_node nodes target) (\<lambda>target_node.
     bindE (require_node nodes source) (\<lambda>source_node.
     bindE (raise_if (ns_frozen target_node \<or> ns_frozen source_node)
       (PlanError FROZEN_NODE (''cannot change frozen node '' @ target))) (\<lambda>_.
     let edges = sdiscard (source, target) edges in
     bindE (check_visibility (pc_actor command) source policy) (\<lambda>_.
     bindE (check_visibility (pc_actor command) target policy) (\<lambda>_.
     bindE (check_author (pc_actor command) target_node) (\<lambda>_.
     Inr (nodes, edges, id_map))))))))))))"

definition op_declare_blocked ::
  "plan_change_command \<Rightarrow> plan_policy \<Rightarrow> string \<Rightarrow> loop_state \<Rightarrow> plan_exn + loop_state" where
  "op_declare_blocked command policy ref = (\<lambda>(nodes, edges, id_map).
     bindE (resolve_ref id_map ref) (\<lambda>node_id.
     bindE (require_node nodes node_id) (\<lambda>current.
     bindE (check_visibility (pc_actor command) node_id policy) (\<lambda>_.
     bindE (check_mutable current) (\<lambda>_.
     bindE (raise_if (a_kind (pc_actor command) = Agent \<and> node_id \<notin> set (pp_active_node_ids policy))
       (PlanError POLICY_DENIED ''agent can only block its own node'')) (\<lambda>_.
     Inr (dset node_id (current\<lparr>ns_status := BLOCKED\<rparr>) nodes, edges, id_map)))))))"

definition apply_op ::
  "pydantic \<Rightarrow> plan_change_command \<Rightarrow> plan_policy \<Rightarrow> loop_state \<Rightarrow> nat \<times> plan_op \<Rightarrow> plan_exn + loop_state" where
  "apply_op px command policy st = (\<lambda>(index, op).
     case op of
       AddNodeOp node \<Rightarrow> op_add_node command policy index node st
     | UpdateNodeOp ref patch \<Rightarrow> op_update_node px command policy ref patch st
     | RemoveNodeOp ref \<Rightarrow> op_remove_node command policy ref st
     | AddEdgeOp s t \<Rightarrow> op_add_edge command policy s t st
     | RemoveEdgeOp s t \<Rightarrow> op_remove_edge command policy s t st
     | DeclareBlockedOp ref reason \<Rightarrow> op_declare_blocked command policy ref st)"

section \<open>Applying a command\<close>

definition dependencies_of :: "edge list \<Rightarrow> string \<Rightarrow> string list" where
  "dependencies_of edges node_id = sort (map fst (filter (\<lambda>e. snd e = node_id) edges))"

definition refresh_depends_on :: "edge list \<Rightarrow> nodes \<Rightarrow> nodes" where
  "refresh_depends_on edges nodes =
     dmap (\<lambda>node_id state. state\<lparr>ns_draft := (ns_draft state)\<lparr>d_depends_on := dependencies_of edges node_id\<rparr>\<rparr>) nodes"

text \<open>The body of the \<^verbatim>\<open>try\<close>: the new plan and the map of ids, or the exception it raises.\<close>

definition run_ops ::
  "pydantic \<Rightarrow> plan_state \<Rightarrow> plan_change_command \<Rightarrow> plan_policy \<Rightarrow> plan_exn + plan_state \<times> (string, string) dict" where
  "run_ops px plan command policy =
     (let ops = enumerate 0 (pc_ops command) in
      bindE (foldE (assign_tmp (pc_command_id command) (pl_nodes plan)) [] ops) (\<lambda>id_map0.
      bindE (foldE (apply_op px command policy) (pl_nodes plan, pl_edges plan, id_map0) ops) (\<lambda>(nodes0, edges, id_map).
      bindE (validate_graph nodes0 edges policy (pl_nodes plan)) (\<lambda>_.
      let nodes = refresh_depends_on edges nodes0; new_plan = build px (pl_version plan + 1) nodes edges in
      bindE (raise_if (pp_max_serialized_bytes policy < plan_bytes_of px nodes)
        (PlanError TOO_MANY_OPS ''plan exceeds the serialized size limit'')) (\<lambda>_.
      bindE (validate_budget (dvals (pl_nodes new_plan)) (pp_max_budget policy)) (\<lambda>_.
      Inr (new_plan, id_map)))))))"

definition stale_attempt :: "actor \<Rightarrow> plan_policy \<Rightarrow> bool" where
  "stale_attempt actor policy \<longleftrightarrow>
     (case a_attempt_id actor of None \<Rightarrow> True | Some i \<Rightarrow> i \<notin> set (pp_active_attempt_ids policy))
     \<and> pp_active_attempt_id policy \<noteq> a_attempt_id actor"

text \<open>\<open>apply\<close> (a keyword of Isar, hence the longer name): \<open>Inl\<close> is an exception the function does not catch.\<close>

definition apply_command :: "pydantic \<Rightarrow> plan_state \<Rightarrow> plan_change_command \<Rightarrow> plan_policy \<Rightarrow> plan_exn + plan_apply_outcome" where
  "apply_command px plan command policy =
     (if pc_base_plan_version command \<noteq> pl_version plan then Inr (reject plan VERSION_CONFLICT ''base plan version is stale'')
      else if pp_max_ops policy < length (pc_ops command)
        then Inr (reject plan TOO_MANY_OPS ''plan change contains too many operations'')
      else if a_kind (pc_actor command) = Agent \<and> stale_attempt (pc_actor command) policy
        then Inr (reject plan STALE_ATTEMPT ''agent attempt is no longer active'')
      else if a_kind (pc_actor command) = Agent \<and> a_attempt_id (pc_actor command) \<in> {None, Some []}
        then Inr (reject plan STALE_ATTEMPT ''agent commands require an attempt'')
      else case run_ops px plan command policy of
          Inl ValidationError \<Rightarrow> Inr (reject plan SCHEMA_INVALID ''node spec does not match its schema'')
        | Inl (PlanError code detail) \<Rightarrow> Inr (reject plan code detail)
        | Inl e \<Rightarrow> Inl e
        | Inr (new_plan, id_map) \<Rightarrow>
            Inr \<lparr>po_result = PlanChangeAccepted (pl_version new_plan) id_map, po_plan = new_plan\<rparr>)"

section \<open>Compaction\<close>

record compaction =
  co_plan :: plan_state
  co_removed :: "string list"
  co_titles :: "string list"

definition unfinished_nodes :: "plan_state \<Rightarrow> string list" where
  "unfinished_nodes plan = map fst (filter (\<lambda>(k, s). ns_status s \<notin> {COMPLETED, SKIPPED}) (pl_nodes plan))"

definition needed_nodes :: "plan_state \<Rightarrow> string list \<Rightarrow> string list" where
  "needed_nodes plan held =
     (let unfinished = unfinished_nodes plan in
      unfinished @ map fst (filter (\<lambda>e. snd e \<in> set unfinished) (pl_edges plan)) @ held
      @ List.map_filter (\<lambda>(k, s). if k \<in> set unfinished then d_parent_node_id (ns_draft s) else None) (pl_nodes plan))"

definition compaction_candidates :: "plan_state \<Rightarrow> string list \<Rightarrow> nat \<Rightarrow> string list" where
  "compaction_candidates plan held keep_recent =
     (let candidates = map fst (filter (\<lambda>(k, s). ns_status s = COMPLETED \<and> ns_frozen s \<and> k \<notin> set (needed_nodes plan held)) (pl_nodes plan))
      in take (length candidates - keep_recent) candidates)"

definition compact :: "pydantic \<Rightarrow> plan_state \<Rightarrow> string list \<Rightarrow> nat \<Rightarrow> compaction option" where
  "compact px plan held keep_recent =
     (let candidates = compaction_candidates plan held keep_recent in
      if candidates = [] then None
      else Some \<lparr>co_plan = build px (pl_version plan + 1)
            (filter (\<lambda>(k, s). k \<notin> set candidates) (pl_nodes plan))
            (filter (\<lambda>e. fst e \<notin> set candidates \<and> snd e \<notin> set candidates) (pl_edges plan)),
          co_removed = candidates,
          co_titles = map (\<lambda>k. case dget (pl_nodes plan) k of None \<Rightarrow> [] | Some s \<Rightarrow> d_title (ns_draft s)) candidates\<rparr>)"

end
