(* ===== verification/Plan_Graph.thy ===== *)
theory Plan_Graph
  imports Plan_Engine
begin

text \<open>
  The graph check of a plan change is right: \<open>_validate_graph\<close> accepts exactly the plans whose edges stay inside the
  plan, form no cycle and have no chain longer than the policy allows. The loop is Kahn's algorithm with a depth per node;
  the depth of a processed node is the length of the longest chain that ends in it.
\<close>

section \<open>Building the adjacency lists\<close>

lemma count_edges:
  assumes "\<forall>e\<in>set es. has_key adj (fst e) \<and> has_key inc (snd e)"
  shows "\<exists>adj' inc'. foldE count_edge (adj, inc) es = Inr (adj', inc') \<and> dkeys adj' = dkeys adj \<and> dkeys inc' = dkeys inc
    \<and> (\<forall>v. dget adj' v = map_option (\<lambda>l. l @ map snd (filter (\<lambda>e. fst e = v) es)) (dget adj v))
    \<and> (\<forall>v. dget inc' v = map_option (\<lambda>n. n + int (length (filter (\<lambda>e. snd e = v) es))) (dget inc v))"
  using assms
proof (induction es arbitrary: adj inc)
  case Nil
  then show ?case by (auto simp: map_option.identity)
next
  case (Cons e es)
  obtain s t where e: "e = (s, t)" by fastforce
  from Cons.prems obtain l n where l: "dget adj s = Some l" and n: "dget inc t = Some n"
    by (auto simp: e has_key_dget)
  let ?adj = "dset s (l @ [t]) adj" and ?inc = "dset t (n + 1) inc"
  have keys: "dkeys ?adj = dkeys adj" "dkeys ?inc = dkeys inc"
    using Cons.prems by (auto simp: e dkeys_dset)
  from Cons.prems have "\<forall>e\<in>set es. has_key ?adj (fst e) \<and> has_key ?inc (snd e)" by simp
  from Cons.IH[OF this] obtain adj' inc' where
    *: "foldE count_edge (?adj, ?inc) es = Inr (adj', inc')" "dkeys adj' = dkeys ?adj" "dkeys inc' = dkeys ?inc"
      "\<And>v. dget adj' v = map_option (\<lambda>l. l @ map snd (filter (\<lambda>e. fst e = v) es)) (dget ?adj v)"
      "\<And>v. dget inc' v = map_option (\<lambda>n. n + int (length (filter (\<lambda>e. snd e = v) es))) (dget ?inc v)"
    by blast
  show ?case
    using * keys by (intro exI[of _ adj'] exI[of _ inc']) (auto simp: e l n dget_dset)
qed

section \<open>The children of one node\<close>

lemma kahn_children:
  assumes "distinct cs" and "\<forall>c\<in>set cs. has_key depths c \<and> has_key incoming c"
  shows "\<exists>depths' incoming'.
    foldE (kahn_child d) (depths, incoming, ready) cs
      = Inr (depths', incoming', ready @ filter (\<lambda>c. dget incoming c = Some 1) cs)
    \<and> dkeys depths' = dkeys depths \<and> dkeys incoming' = dkeys incoming
    \<and> (\<forall>v. dget depths' v = map_option (\<lambda>x. if v \<in> set cs then max x (d + 1) else x) (dget depths v))
    \<and> (\<forall>v. dget incoming' v = map_option (\<lambda>x. if v \<in> set cs then x - 1 else x) (dget incoming v))"
  using assms
proof (induction cs arbitrary: depths incoming ready)
  case Nil
  then show ?case by (auto simp: map_option.identity)
next
  case (Cons c cs)
  from Cons.prems obtain x n where x: "dget depths c = Some x" and n: "dget incoming c = Some n"
    by (auto simp: has_key_dget)
  let ?depths = "dset c (max x (d + 1)) depths" and ?incoming = "dset c (n - 1) incoming"
  let ?ready = "if n = 1 then ready @ [c] else ready"
  have step: "kahn_child d (depths, incoming, ready) c = Inr (?depths, ?incoming, ?ready)"
    by (simp add: x n)
  have keys: "dkeys ?depths = dkeys depths" "dkeys ?incoming = dkeys incoming"
    using Cons.prems by (auto simp: dkeys_dset)
  from Cons.prems have "distinct cs" "\<forall>c\<in>set cs. has_key ?depths c \<and> has_key ?incoming c" by simp_all
  from Cons.IH[OF this, of ?ready] obtain depths' incoming' where
    *: "foldE (kahn_child d) (?depths, ?incoming, ?ready) cs
        = Inr (depths', incoming', ?ready @ filter (\<lambda>c. dget ?incoming c = Some 1) cs)"
      "dkeys depths' = dkeys ?depths" "dkeys incoming' = dkeys ?incoming"
      "\<And>v. dget depths' v = map_option (\<lambda>x. if v \<in> set cs then max x (d + 1) else x) (dget ?depths v)"
      "\<And>v. dget incoming' v = map_option (\<lambda>x. if v \<in> set cs then x - 1 else x) (dget ?incoming v)"
    by blast
  have "filter (\<lambda>c. dget ?incoming c = Some 1) cs = filter (\<lambda>c. dget incoming c = Some 1) cs"
    using Cons.prems(1) by (intro filter_cong) (auto simp: dget_dset)
  then have ready: "?ready @ filter (\<lambda>c. dget ?incoming c = Some 1) cs = ready @ filter (\<lambda>c. dget incoming c = Some 1) (c # cs)"
    by (simp add: n)
  have "foldE (kahn_child d) (depths, incoming, ready) (c # cs)
      = Inr (depths', incoming', ready @ filter (\<lambda>c. dget incoming c = Some 1) (c # cs))"
    using *(1) ready by (simp add: step del: kahn_child.simps)
  with * keys Cons.prems(1) show ?case
    by (intro exI[of _ depths'] exI[of _ incoming']) (auto simp: x n dget_dset)
qed

section \<open>The loop invariant\<close>

text \<open>
  \<open>P\<close> are the processed nodes. A node is processed or ready exactly when everything it depends on is processed; its
  counter is the number of dependencies that are not; its depth exceeds that of every processed dependency, and is
  attained by one of them.
\<close>

definition depth_ok :: "(string \<times> string) set \<Rightarrow> string set \<Rightarrow> (string \<Rightarrow> int) \<Rightarrow> string \<Rightarrow> bool" where
  "depth_ok E P dep v \<longleftrightarrow> 0 \<le> dep v \<and> (\<forall>u\<in>P. (u, v) \<in> E \<longrightarrow> dep u + 1 \<le> dep v)
     \<and> (dep v = 0 \<or> (\<exists>u\<in>P. (u, v) \<in> E \<and> dep v = dep u + 1))"

definition kahn_inv ::
  "string set \<Rightarrow> (string \<times> string) set \<Rightarrow> string list \<Rightarrow> (string, int) dict \<Rightarrow> (string, int) dict \<Rightarrow> string list \<Rightarrow> bool" where
  "kahn_inv V E P depths incoming ready \<longleftrightarrow>
     set (dkeys depths) = V \<and> set (dkeys incoming) = V \<and> distinct (P @ ready) \<and> set (P @ ready) \<subseteq> V
     \<and> (\<forall>v\<in>V. dget incoming v = Some (int (card {u. (u, v) \<in> E \<and> u \<notin> set P})))
     \<and> (\<forall>v\<in>V. v \<in> set (P @ ready) \<longleftrightarrow> (\<forall>u. (u, v) \<in> E \<longrightarrow> u \<in> set P))
     \<and> (\<forall>v\<in>V. depth_ok E (set P) (\<lambda>w. the (dget depths w)) v)"

lemma kahn_inv_step:
  assumes inv: "kahn_inv V E P depths incoming (v # ready)"
    and fin: "finite E" and sub: "E \<subseteq> V \<times> V"
    and cs: "set cs = {w. (v, w) \<in> E}" "distinct cs"
    and depth: "dget depths v = Some d"
    and keys: "dkeys depths' = dkeys depths" "dkeys incoming' = dkeys incoming"
    and depths': "\<And>w. dget depths' w = map_option (\<lambda>x. if w \<in> set cs then max x (d + 1) else x) (dget depths w)"
    and incoming': "\<And>w. dget incoming' w = map_option (\<lambda>x. if w \<in> set cs then x - 1 else x) (dget incoming w)"
  shows "kahn_inv V E (P @ [v]) depths' incoming' (ready @ filter (\<lambda>c. dget incoming c = Some 1) cs)"
proof -
  let ?new = "filter (\<lambda>c. dget incoming c = Some 1) cs"
  from inv have keysV: "set (dkeys depths) = V" "set (dkeys incoming) = V"
    and dist: "distinct (P @ v # ready)" and subV: "set (P @ v # ready) \<subseteq> V"
    and inc: "\<And>w. w \<in> V \<Longrightarrow> dget incoming w = Some (int (card {u. (u, w) \<in> E \<and> u \<notin> set P}))"
    and rdy: "\<And>w. w \<in> V \<Longrightarrow> w \<in> set (P @ v # ready) \<longleftrightarrow> (\<forall>u. (u, w) \<in> E \<longrightarrow> u \<in> set P)"
    and dep: "\<And>w. w \<in> V \<Longrightarrow> depth_ok E (set P) (\<lambda>w. the (dget depths w)) w"
    unfolding kahn_inv_def by blast+
  have vV: "v \<in> V" and vP: "v \<notin> set P" using subV dist by auto
  have child: "w \<in> V" "w \<notin> set (P @ v # ready)" if "w \<in> set cs" for w
    using that cs(1) sub vP rdy by auto
  have fin_in: "finite {u. (u, w) \<in> E \<and> u \<notin> set P}" for w
    by (rule finite_subset[OF _ finite_imageI[OF fin, of fst]]) force
  have card_step: "int (card {u. (u, w) \<in> E \<and> u \<notin> set (P @ [v])})
      = int (card {u. (u, w) \<in> E \<and> u \<notin> set P}) - (if w \<in> set cs then 1 else 0)" for w
  proof -
    let ?A = "{u. (u, w) \<in> E \<and> u \<notin> set P}"
    have "{u. (u, w) \<in> E \<and> u \<notin> set (P @ [v])} = ?A - {v}" by auto
    moreover have "v \<in> ?A \<longleftrightarrow> w \<in> set cs" using cs(1) vP by simp
    moreover have "v \<in> ?A \<Longrightarrow> 0 < card ?A" using fin_in card_gt_0_iff by blast
    ultimately show ?thesis using fin_in[of w] by (cases "w \<in> set cs") (auto simp: card_Diff_singleton_if of_nat_diff)
  qed
  have new_iff: "c \<in> set ?new \<longleftrightarrow> (v, c) \<in> E \<and> (\<forall>u. (u, c) \<in> E \<longrightarrow> u \<in> set (P @ [v]))" for c
  proof (cases "(v, c) \<in> E")
    case True
    then have "c \<in> V" using sub by auto
    have "dget incoming c = Some 1 \<longleftrightarrow> card {u. (u, c) \<in> E \<and> u \<notin> set (P @ [v])} = 0"
      using card_step[of c] True cs(1) inc[OF \<open>c \<in> V\<close>] by auto
    also have "\<dots> \<longleftrightarrow> {u. (u, c) \<in> E \<and> u \<notin> set (P @ [v])} = {}"
      by (rule card_0_eq, rule finite_subset[OF _ fin_in[of c]]) auto
    finally show ?thesis using True cs(1) by auto
  qed (use cs(1) in auto)
  have dep_same: "dget depths' u = dget depths u" if "u \<in> set (P @ v # ready)" for u
    using that child(2) by (cases "dget depths u") (auto simp: depths')
  have dep_v: "the (dget depths v) = d" using depth by simp
  have depth_new: "depth_ok E (set (P @ [v])) (\<lambda>w. the (dget depths' w)) w" if "w \<in> V" for w
  proof -
    from that keysV(1) obtain x where x: "dget depths w = Some x"
      by (metis has_key_dget list.set_map not_None_eq)
    have old: "0 \<le> x" "\<forall>u\<in>set P. (u, w) \<in> E \<longrightarrow> the (dget depths u) + 1 \<le> x"
      "x = 0 \<or> (\<exists>u\<in>set P. (u, w) \<in> E \<and> x = the (dget depths u) + 1)"
      using dep[OF that] x by (simp_all add: depth_ok_def)
    have "dep_w = the (dget depths' w) \<Longrightarrow> dep_w = (if (v, w) \<in> E then max x (d + 1) else x)" for dep_w
      using cs(1) x by (simp add: depths')
    then show ?thesis
      using old dep_same dep_v by (auto simp: depth_ok_def max_def)
  qed
  show ?thesis
    unfolding kahn_inv_def
  proof (intro conjI ballI)
    show "set (dkeys depths') = V" "set (dkeys incoming') = V" using keys keysV by simp_all
    show "distinct ((P @ [v]) @ ready @ ?new)" using dist cs(2) child(2) by auto
    show "set ((P @ [v]) @ ready @ ?new) \<subseteq> V" using subV child(1) by auto
  next
    fix w assume w: "w \<in> V"
    show "dget incoming' w = Some (int (card {u. (u, w) \<in> E \<and> u \<notin> set (P @ [v])}))"
      using card_step[of w] inc[OF w] by (simp add: incoming')
    have "w \<in> set ((P @ [v]) @ ready @ ?new) \<longleftrightarrow> w \<in> set (P @ v # ready) \<or> w \<in> set ?new" by auto
    also have "\<dots> \<longleftrightarrow> (\<forall>u. (u, w) \<in> E \<longrightarrow> u \<in> set (P @ [v]))"
      unfolding rdy[OF w] new_iff by auto
    finally show "w \<in> set ((P @ [v]) @ ready @ ?new) \<longleftrightarrow> (\<forall>u. (u, w) \<in> E \<longrightarrow> u \<in> set (P @ [v]))" .
    show "depth_ok E (set (P @ [v])) (\<lambda>w. the (dget depths' w)) w" by (rule depth_new[OF w])
  qed
qed

text \<open>The loop returns, without a failed lookup, and leaves the invariant with nothing ready.\<close>

lemma kahn_result:
  assumes "kahn_inv V E P depths incoming ready" and "length P = p"
    and "finite E" "E \<subseteq> V \<times> V"
    and "\<forall>v\<in>V. \<exists>cs. dget adj v = Some cs \<and> distinct cs \<and> set cs = {w. (v, w) \<in> E}"
  shows "\<exists>depths' incoming' P'. kahn adj (depths, incoming, ready) p = Inr (depths', length P')
    \<and> dkeys depths' = dkeys depths \<and> kahn_inv V E P' depths' incoming' []"
  using assms
proof (induction adj "(depths, incoming, ready)" p arbitrary: depths incoming ready P rule: kahn.induct)
  case (1 adj depths incoming p)
  then show ?case by auto
next
  case (2 adj depths incoming v ready p)
  from "2.prems"(1) have vV: "v \<in> V" and keysV: "set (dkeys depths) = V" "set (dkeys incoming) = V"
    by (auto simp: kahn_inv_def)
  with "2.prems"(5) obtain cs where cs: "dget adj v = Some cs" "distinct cs" "set cs = {w. (v, w) \<in> E}" by blast
  from vV keysV obtain d where d: "dget depths v = Some d"
    by (metis has_key_dget list.set_map not_None_eq)
  have "\<forall>c\<in>set cs. has_key depths c \<and> has_key incoming c"
    using cs(3) "2.prems"(4) keysV by auto
  from kahn_children[OF cs(2) this, of d ready] obtain depths' incoming' where
    step: "foldE (kahn_child d) (depths, incoming, ready) cs
        = Inr (depths', incoming', ready @ filter (\<lambda>c. dget incoming c = Some 1) cs)"
    and keys: "dkeys depths' = dkeys depths" "dkeys incoming' = dkeys incoming"
    and upd: "\<And>v. dget depths' v = map_option (\<lambda>x. if v \<in> set cs then max x (d + 1) else x) (dget depths v)"
      "\<And>v. dget incoming' v = map_option (\<lambda>x. if v \<in> set cs then x - 1 else x) (dget incoming v)"
    by blast
  let ?ready = "ready @ filter (\<lambda>c. dget incoming c = Some 1) cs"
  have inv: "kahn_inv V E (P @ [v]) depths' incoming' ?ready"
    using kahn_inv_step[OF "2.prems"(1,3,4) cs(3,2) d keys upd] .
  have "\<exists>depths'' incoming'' P'. kahn adj (depths', incoming', ?ready) (p + 1) = Inr (depths'', length P')
    \<and> dkeys depths'' = dkeys depths' \<and> kahn_inv V E P' depths'' incoming'' []"
    by (rule "2.hyps"[OF refl cs(1) d step inv _ "2.prems"(3-5)]) (simp add: "2.prems"(2))
  with keys step show ?case by (simp add: cs(1) d)
qed

section \<open>What the loop has established\<close>

lemma depth_path:
  assumes "\<And>u v. (u, v) \<in> E \<Longrightarrow> dep u + 1 \<le> (dep v :: int)" and "(u, v) \<in> E ^^ n"
  shows "dep u + int n \<le> dep v"
  using assms(2)
proof (induction n arbitrary: v)
  case (Suc n)
  then obtain w where "(u, w) \<in> E ^^ n" "(w, v) \<in> E" by auto
  with Suc.IH assms(1) show ?case by fastforce
qed simp

lemma depth_attained:
  assumes "\<And>v. v \<in> V \<Longrightarrow> dep v = (0::int) \<or> (\<exists>u\<in>V. (u, v) \<in> E \<and> dep v = dep u + 1)"
    and "\<And>v. v \<in> V \<Longrightarrow> 0 \<le> dep v" and "v \<in> V"
  shows "\<exists>u. (u, v) \<in> E ^^ nat (dep v)"
  using assms(3)
proof (induction "nat (dep v)" arbitrary: v)
  case 0
  then show ?case by auto
next
  case (Suc n)
  then have "dep v \<noteq> 0" by auto
  with assms(1)[OF Suc.prems] obtain u where u: "u \<in> V" "(u, v) \<in> E" "dep v = dep u + 1" by blast
  with Suc.hyps(2) assms(2)[OF u(1)] have n: "nat (dep u) = n" by simp
  then have "\<exists>x. (x, u) \<in> E ^^ nat (dep u)" by (intro Suc.hyps(1)) (simp_all add: u)
  with u(2) n Suc.hyps(2) show ?case by (metis relpow_Suc_I)
qed

lemma ranked_acyclic: "(\<And>u v. (u, v) \<in> E \<Longrightarrow> dep u + 1 \<le> (dep v :: int)) \<Longrightarrow> acyclic E"
  by (rule acyclicI_order[where f = "\<lambda>v. - dep v"]) fastforce

lemma kahn_done_all:
  assumes inv: "kahn_inv V E P depths incoming []" and sub: "E \<subseteq> V \<times> V" and all: "set P = V"
  shows "acyclic E"
    and "(u, v) \<in> E ^^ n \<Longrightarrow> v \<in> V \<Longrightarrow> int n \<le> the (dget depths v)"
    and "v \<in> V \<Longrightarrow> \<exists>u. (u, v) \<in> E ^^ nat (the (dget depths v))"
    and "v \<in> V \<Longrightarrow> 0 \<le> the (dget depths v)"
proof -
  let ?dep = "\<lambda>w. the (dget depths w)"
  have ok: "depth_ok E V ?dep v" if "v \<in> V" for v
    using inv all that by (simp add: kahn_inv_def)
  have rank: "?dep u + 1 \<le> ?dep v" if "(u, v) \<in> E" for u v
    using ok[of v] that sub by (auto simp: depth_ok_def)
  show "acyclic E" by (rule ranked_acyclic[of E ?dep]) (rule rank)
  show nonneg: "0 \<le> ?dep v" if "v \<in> V" for v
    using ok[OF that] by (simp add: depth_ok_def)
  show "int n \<le> ?dep v" if path: "(u, v) \<in> E ^^ n" and "v \<in> V" for u v n
  proof -
    have "u \<in> V"
    proof (cases n)
      case (Suc m)
      with path show ?thesis using sub by (blast elim: relpow_Suc_E2)
    qed (use path \<open>v \<in> V\<close> in simp)
    from nonneg[OF this] depth_path[of E ?dep, OF rank path] show ?thesis by simp
  qed
  show "\<exists>u. (u, v) \<in> E ^^ nat (?dep v)" if "v \<in> V" for v
    by (rule depth_attained[where V = V]) (use ok nonneg that in \<open>auto simp: depth_ok_def\<close>)
qed

lemma kahn_done_cyclic:
  assumes inv: "kahn_inv V E P depths incoming []" and fin: "finite E" and sub: "E \<subseteq> V \<times> V" and "set P \<noteq> V"
  shows "\<not> acyclic E"
proof
  assume "acyclic E"
  with fin have "wf E" by (rule finite_acyclic_wf)
  moreover from inv assms(4) obtain x where "x \<in> V - set P" by (auto simp: kahn_inv_def)
  ultimately obtain z where z: "z \<in> V - set P" "\<And>y. (y, z) \<in> E \<Longrightarrow> y \<notin> V - set P"
    by (rule wfE_min) blast
  have "z \<in> set (P @ []) \<longleftrightarrow> (\<forall>u. (u, z) \<in> E \<longrightarrow> u \<in> set P)"
    using inv z(1) unfolding kahn_inv_def by blast
  with z(1) obtain u where "(u, z) \<in> E" "u \<notin> set P" by auto
  with z(2) sub show False by blast
qed

section \<open>The graph check\<close>

text \<open>The edges of a plan, its nodes and the chains it holds, without the algorithm.\<close>

definition graph_ok :: "nat \<Rightarrow> string set \<Rightarrow> (string \<times> string) set \<Rightarrow> bool" where
  "graph_ok max_chain V E \<longleftrightarrow> E \<subseteq> V \<times> V \<and> acyclic E \<and> (\<forall>n u v. (u, v) \<in> E ^^ n \<longrightarrow> n \<le> max_chain)"

lemma check_edges_iff:
  "check_edges nodes edges = Inr u \<longleftrightarrow> set edges \<subseteq> (fst ` set nodes) \<times> (fst ` set nodes) \<and> (\<forall>v. (v, v) \<notin> set edges)"
  by (auto simp: check_edges_def checkE_eq_Inr split: prod.splits)

lemma card_preds:
  assumes "distinct edges"
  shows "int (length (filter (\<lambda>e. snd e = v) edges)) = int (card {u. (u, v) \<in> set edges})"
proof -
  have "distinct (map fst (filter (\<lambda>e. snd e = v) edges))"
    using assms by (induction edges) auto
  moreover have "set (map fst (filter (\<lambda>e. snd e = v) edges)) = {u. (u, v) \<in> set edges}"
    by force
  ultimately show ?thesis using distinct_card by (metis length_map)
qed

lemma distinct_succs: "distinct edges \<Longrightarrow> distinct (map snd (filter (\<lambda>e. fst e = v) edges))"
  by (induction edges) auto

lemma foldl_max_le: "foldl max (a::int) xs \<le> b \<longleftrightarrow> a \<le> b \<and> (\<forall>x\<in>set xs. x \<le> b)"
  by (induction xs arbitrary: a) auto

text \<open>Up to the check of the chain: the counters are filled and the loop ends with the invariant.\<close>

lemma graph_loop:
  assumes ok: "dict_ok nodes" "distinct edges"
    and sub: "set edges \<subseteq> (fst ` set nodes) \<times> (fst ` set nodes)"
  obtains adjacency incoming depths P incoming' where
    "foldE count_edge (dmap (\<lambda>_ _. []) nodes, dmap (\<lambda>_ _. 0) nodes) (sort edges) = Inr (adjacency, incoming)"
    "kahn adjacency (dmap (\<lambda>_ _. 0) nodes, incoming, sort (map fst (filter (\<lambda>(k, n). n = 0) incoming))) 0 = Inr (depths, length P)"
    "dkeys depths = dkeys nodes"
    "kahn_inv (fst ` set nodes) (set edges) P depths incoming' []"
proof -
  let ?V = "fst ` set nodes" and ?E = "set edges"
  have "\<forall>e\<in>set (sort edges). has_key (dmap (\<lambda>_ _. [] :: string list) nodes) (fst e) \<and> has_key (dmap (\<lambda>_ _. 0 :: int) nodes) (snd e)"
    using sub by auto
  from count_edges[OF this] obtain adj inc where
    count: "foldE count_edge (dmap (\<lambda>_ _. []) nodes, dmap (\<lambda>_ _. 0) nodes) (sort edges) = Inr (adj, inc)"
    and keys: "dkeys adj = dkeys nodes" "dkeys inc = dkeys nodes"
    and adj: "\<And>v. dget adj v = map_option (\<lambda>l. l @ map snd (filter (\<lambda>e. fst e = v) (sort edges))) (dget (dmap (\<lambda>_ _. []) nodes) v)"
    and inc: "\<And>v. dget inc v = map_option (\<lambda>n. n + int (length (filter (\<lambda>e. snd e = v) (sort edges)))) (dget (dmap (\<lambda>_ _. 0) nodes) v)"
    by auto
  have node: "\<exists>s. dget nodes v = Some s" if "v \<in> ?V" for v
    using that by (metis has_key_dget not_None_eq)
  have incV: "dget inc v = Some (int (card {u. (u, v) \<in> ?E}))" if "v \<in> ?V" for v
    using node[OF that] card_preds[of "sort edges" v] ok(2) by (auto simp: inc)
  have adjV: "\<exists>cs. dget adj v = Some cs \<and> distinct cs \<and> set cs = {w. (v, w) \<in> ?E}" if "v \<in> ?V" for v
    using node[OF that] distinct_succs[of "sort edges" v] ok(2) by (force simp: adj)
  let ?ready = "sort (map fst (filter (\<lambda>(k, n). n = 0) inc))"
  have okinc: "dict_ok inc" using keys(2) ok(1) by simp
  have ready: "v \<in> set ?ready \<longleftrightarrow> v \<in> ?V \<and> (\<forall>u. (u, v) \<notin> ?E)" for v
  proof -
    have fin: "finite {u. (u, v) \<in> ?E}"
      by (rule finite_subset[of _ "fst ` ?E"]) force+
    have "v \<in> set ?ready \<longleftrightarrow> dget inc v = Some 0"
      using dget_mem[OF okinc, of v 0] by force
    also have "\<dots> \<longleftrightarrow> v \<in> ?V \<and> card {u. (u, v) \<in> ?E} = 0"
    proof (cases "v \<in> ?V")
      case False
      have "fst ` set inc = ?V" using keys(2) by (metis list.set_map)
      with False have "\<not> has_key inc v" by simp
      then have "dget inc v = None" by (simp add: map_of_eq_None_iff)
      with False show ?thesis by simp
    qed (simp add: incV)
    finally show ?thesis using fin by simp
  qed
  have "kahn_inv ?V ?E [] (dmap (\<lambda>_ _. 0) nodes) inc ?ready"
    unfolding kahn_inv_def depth_ok_def
  proof (intro conjI ballI)
    show "set (dkeys (dmap (\<lambda>_ _. 0 :: int) nodes)) = ?V" "set (dkeys inc) = ?V" using keys by simp_all
    show "distinct ([] @ ?ready)"
      using okinc by (simp add: distinct_map inj_on_def)
    show "set ([] @ ?ready) \<subseteq> ?V" using ready by auto
    fix v assume v: "v \<in> ?V"
    show "dget inc v = Some (int (card {u. (u, v) \<in> ?E \<and> u \<notin> set []}))" using incV[OF v] by simp
    show "v \<in> set ([] @ ?ready) \<longleftrightarrow> (\<forall>u. (u, v) \<in> ?E \<longrightarrow> u \<in> set [])" using ready v by simp
  qed (use node in force)+
  from kahn_result[OF this _ _ sub, of 0 adj] adjV count keys show ?thesis
    by (auto intro: that)
qed

lemma validate_graph_iff:
  assumes ok: "dict_ok nodes" "distinct edges"
  shows "validate_graph nodes edges policy previous = Inr () \<longleftrightarrow>
    graph_ok (pp_max_chain policy) (fst ` set nodes) (set edges) \<and> validate_nesting nodes policy previous = Inr ()"
proof (cases "check_edges nodes edges")
  case (Inl e)
  then have "\<not> graph_ok (pp_max_chain policy) (fst ` set nodes) (set edges)"
    using check_edges_iff[of nodes edges "()"] by (auto simp: graph_ok_def acyclic_def)
  with Inl show ?thesis by (simp add: validate_graph_def)
next
  case (Inr u)
  let ?V = "fst ` set nodes" and ?E = "set edges"
  from Inr have sub: "?E \<subseteq> ?V \<times> ?V" by (simp add: check_edges_iff)
  from graph_loop[OF ok sub] obtain adjacency incoming depths P incoming' where
    count: "foldE count_edge (dmap (\<lambda>_ _. []) nodes, dmap (\<lambda>_ _. 0) nodes) (sort edges) = Inr (adjacency, incoming)"
    and loop: "kahn adjacency (dmap (\<lambda>_ _. 0) nodes, incoming, sort (map fst (filter (\<lambda>(k, n). n = 0) incoming))) 0 = Inr (depths, length P)"
    and keys: "dkeys depths = dkeys nodes"
    and inv: "kahn_inv ?V ?E P depths incoming' []" .
  have cardV: "card ?V = length nodes" using ok(1) by (metis distinct_card length_map list.set_map)
  have P: "distinct P" "set P \<subseteq> ?V" using inv by (auto simp: kahn_inv_def)
  then have all: "length P = length nodes \<longleftrightarrow> set P = ?V"
    using cardV by (metis card_subset_eq distinct_card finite_imageI finite_set)
  have chain: "foldl max 0 (dvals depths) \<le> int m \<longleftrightarrow> (\<forall>n u v. (u, v) \<in> ?E ^^ n \<longrightarrow> n \<le> m)" if "set P = ?V" for m
  proof -
    note res = kahn_done_all[OF inv sub that]
    have vals: "foldl max 0 (dvals depths) \<le> int m \<longleftrightarrow> (\<forall>v\<in>?V. the (dget depths v) \<le> int m)"
    proof -
      have "dict_ok depths" and "fst ` set depths = ?V" using keys ok(1) by (simp, metis list.set_map)
      then have "set (dvals depths) = (\<lambda>v. the (dget depths v)) ` ?V" by (metis dvals_image)
      then show ?thesis by (simp add: foldl_max_le)
    qed
    have endV: "v \<in> ?V" if "(u, v) \<in> ?E ^^ Suc n" for u v n
      using that sub by (auto elim: relpow_Suc_E)
    show ?thesis
    proof (unfold vals, intro iffI allI impI ballI)
      fix n u v assume le: "\<forall>v\<in>?V. the (dget depths v) \<le> int m" and path: "(u, v) \<in> ?E ^^ n"
      show "n \<le> m"
      proof (cases n)
        case (Suc k)
        with path endV have "v \<in> ?V" by blast
        with le res(2)[OF path] show ?thesis by fastforce
      qed simp
    next
      fix v assume "\<forall>n u v. (u, v) \<in> ?E ^^ n \<longrightarrow> n \<le> m" and "v \<in> ?V"
      then show "the (dget depths v) \<le> int m" using res(3)[of v] by force
    qed
  qed
  show ?thesis
  proof (cases "set P = ?V")
    case True
    with Inr count loop all chain[OF True, of "pp_max_chain policy"] kahn_done_all(1)[OF inv sub True] sub show ?thesis
      by (auto simp: validate_graph_def Let_def graph_ok_def not_less)
  next
    case False
    with kahn_done_cyclic[OF inv _ sub False] Inr count loop all show ?thesis
      by (auto simp: validate_graph_def Let_def graph_ok_def)
  qed
qed

end
