(* ===== verification/Plan_Props.thy ===== *)
theory Plan_Props
  imports Plan_Apply Plan_Graph
begin

text \<open>
  What an applied plan change guarantees, operation by operation and then for the whole command: the loop keeps the
  plan well formed, frozen nodes are not touched, an agent changes only its own nodes, and no lookup of the evaluator
  can fail.
\<close>

named_theorems op_effect \<open>what an operation that succeeded did to the loop's state\<close>

section \<open>What the checks mean\<close>

definition may_see :: "actor \<Rightarrow> plan_policy \<Rightarrow> string \<Rightarrow> bool" where
  "may_see actor policy k \<longleftrightarrow> (a_kind actor = Agent \<longrightarrow> (\<forall>vs. pp_visible_node_ids policy = Some vs \<longrightarrow> k \<in> set vs))"

definition may_edit :: "actor \<Rightarrow> plan_node_state \<Rightarrow> bool" where
  "may_edit actor s \<longleftrightarrow> (a_kind actor = Agent \<longrightarrow> ns_created_by s = Some (a_id actor) \<and> ns_status s \<in> {PENDING, READY})"

lemma check_visibility_iff [simp]: "check_visibility actor k policy = Inr u \<longleftrightarrow> may_see actor policy k"
  by (auto simp: check_visibility_def may_see_def split: option.splits)

lemma check_author_iff [simp]: "check_author actor s = Inr u \<longleftrightarrow> may_edit actor s"
  by (auto simp: check_author_def may_edit_def)

lemma check_mutable_iff [simp]: "check_mutable s = Inr u \<longleftrightarrow> \<not> ns_frozen s \<and> ns_status s \<noteq> COMPLETED"
  by (auto simp: check_mutable_def)

lemma require_node_iff [simp]: "require_node nodes k = Inr s \<longleftrightarrow> dget nodes k = Some s"
  by (auto simp: require_node_def split: option.splits)

lemma resolve_new_id_iff:
  "resolve_new_id raw cid i nodes = Inr k \<longleftrightarrow>
     k = (if is_tmp raw then deterministic_id (cid @ '':'' @ raw @ '':'' @ nat_str i) ''n'' else raw) \<and> \<not> has_key nodes k"
  by (auto simp: resolve_new_id_def Let_def)

lemma own_node_iff [simp]:
  "own_node command policy nodes k = Inr s \<longleftrightarrow>
     dget nodes k = Some s \<and> \<not> ns_frozen s \<and> ns_status s \<noteq> COMPLETED \<and> may_see (pc_actor command) policy k
     \<and> may_edit (pc_actor command) s"
  by (auto simp: own_node_def refuse_archived_def has_key_dget)

lemma with_defaults_id [simp]:
  "with_defaults draft = Inr draft' \<Longrightarrow> d_node_id draft' = d_node_id draft"
  "with_defaults draft = Inr draft' \<Longrightarrow> d_depends_on draft' = d_depends_on draft"
  "with_defaults draft = Inr draft' \<Longrightarrow> d_parent_node_id draft' = d_parent_node_id draft"
  "with_defaults draft = Inr draft' \<Longrightarrow> d_spec draft' = d_spec draft"
  by (auto simp: with_defaults_def team_stage_defaults_def split: node_spec.splits option.splits)

lemma set_add_edges: "set (foldl (\<lambda>es dependency. sadd (dependency, k) es) edges deps) = set edges \<union> (\<lambda>d. (d, k)) ` set deps"
  by (induction deps arbitrary: edges) auto

lemma distinct_add_edges: "distinct edges \<Longrightarrow> distinct (foldl (\<lambda>es dependency. sadd (dependency, k) es) edges deps)"
  by (induction deps arbitrary: edges) auto

section \<open>The effect of each operation\<close>

lemma op_add_node_effect [op_effect]:
  assumes "op_add_node command policy i node (nodes, edges, id_map) = Inr (nodes', edges', id_map')"
  obtains k draft where "\<not> has_key nodes k" and "k = d_node_id draft"
    and "k = (if is_tmp (d_node_id node) then deterministic_id (pc_command_id command @ '':'' @ d_node_id node @ '':'' @ nat_str i) ''n''
          else d_node_id node)"
    and "check_new_node node (pc_actor command) policy = Inr ()" and "d_spec draft = d_spec node"
    and "nodes' = dset k (fresh_node draft PENDING (Some (a_id (pc_actor command)))) nodes"
    and "edges' = foldl (\<lambda>es dependency. sadd (dependency, k) es) edges (d_depends_on draft)"
    and "id_map' = (if is_tmp (d_node_id node) then dset (d_node_id node) k id_map else id_map)"
proof -
  from assms obtain k draft refs parent where
    "resolve_new_id (d_node_id node) (pc_command_id command) i nodes = Inr k"
    "with_defaults (node\<lparr>d_node_id := k, d_depends_on := refs, d_parent_node_id := parent\<rparr>) = Inr draft"
    "check_new_node node (pc_actor command) policy = Inr ()"
    "nodes' = dset k (fresh_node draft PENDING (Some (a_id (pc_actor command)))) nodes"
    "edges' = foldl (\<lambda>es dependency. sadd (dependency, k) es) edges (d_depends_on draft)"
    "id_map' = (if is_tmp (d_node_id node) then dset (d_node_id node) k id_map else id_map)"
    by (auto simp: op_add_node_def Let_def)
  moreover from this(2) have "d_node_id draft = k" "d_spec draft = d_spec node" by (auto dest: with_defaults_id)
  ultimately show thesis using that[of k draft] by (auto simp: resolve_new_id_iff)
qed

lemma op_update_node_effect [op_effect]:
  assumes "op_update_node px command policy ref patch (nodes, edges, id_map) = Inr (nodes', edges', id_map')"
  obtains k s draft where "resolve_ref id_map ref = Inr k" "own_node command policy nodes k = Inr s"
    and "patch_node px (ns_draft s) patch = Inr draft"
    and "nodes' = dset k (s\<lparr>ns_draft := draft\<rparr>) nodes" and "edges' = edges" and "id_map' = id_map"
  using assms by (auto simp: op_update_node_def simp del: own_node_iff)

lemma any_frozen_target_False:
  "any_frozen_target nodes k edges = Inr False \<Longrightarrow> (k, t) \<in> set edges \<Longrightarrow> \<exists>s. dget nodes t = Some s \<and> \<not> ns_frozen s"
  by (induction edges) (auto split: if_splits option.splits)

lemma op_remove_node_effect [op_effect]:
  assumes "op_remove_node command policy ref (nodes, edges, id_map) = Inr (nodes', edges', id_map')"
  obtains k s where "resolve_ref id_map ref = Inr k" "own_node command policy nodes k = Inr s"
    and "any_frozen_target nodes k edges = Inr False"
    and "nodes' = dpop k nodes" and "edges' = filter (\<lambda>e. fst e \<noteq> k \<and> snd e \<noteq> k) edges" and "id_map' = id_map"
  using assms by (auto simp: op_remove_node_def simp del: own_node_iff)

lemma op_add_edge_effect [op_effect]:
  assumes "op_add_edge command policy from_ref to_ref (nodes, edges, id_map) = Inr (nodes', edges', id_map')"
  obtains "nodes' = nodes" "edges' = edges" "id_map' = id_map"
  | s t source target where "dget nodes s = Some source" "dget nodes t = Some target" "\<not> ns_frozen target"
    "may_edit (pc_actor command) target" "nodes' = nodes" "edges' = sadd (s, t) edges" "id_map' = id_map"
  using assms by (auto simp: op_add_edge_def split: if_splits)

lemma op_remove_edge_effect [op_effect]:
  assumes "op_remove_edge command policy from_ref to_ref (nodes, edges, id_map) = Inr (nodes', edges', id_map')"
  obtains s t source target where "dget nodes s = Some source" "dget nodes t = Some target"
    "\<not> ns_frozen source" "\<not> ns_frozen target" "may_edit (pc_actor command) target"
    "nodes' = nodes" "edges' = sdiscard (s, t) edges" "id_map' = id_map"
  using assms by (auto simp: op_remove_edge_def Let_def)

lemma op_declare_blocked_effect [op_effect]:
  assumes "op_declare_blocked command policy ref (nodes, edges, id_map) = Inr (nodes', edges', id_map')"
  obtains k s where "dget nodes k = Some s" "\<not> ns_frozen s" "ns_status s \<noteq> COMPLETED"
    "a_kind (pc_actor command) = Agent \<longrightarrow> k \<in> set (pp_active_node_ids policy)"
    "nodes' = dset k (s\<lparr>ns_status := BLOCKED\<rparr>) nodes" "edges' = edges" "id_map' = id_map"
  using assms by (auto simp: op_declare_blocked_def)

text \<open>
  A property of the loop's state that the six effects keep is kept by every operation. The locale collects what has to
  be shown once, so that an invariant of a command is proved from the effects alone.
\<close>

locale op_invariant =
  fixes px :: pydantic and command :: plan_change_command and policy :: plan_policy
    and I :: "nodes \<Rightarrow> edge list \<Rightarrow> bool"
  assumes keeps_add: "I nodes edges \<Longrightarrow> \<not> has_key nodes k \<Longrightarrow>
      I (dset k (fresh_node draft PENDING (Some (a_id (pc_actor command)))) nodes)
        (foldl (\<lambda>es dependency. sadd (dependency, k) es) edges (d_depends_on draft))"
    and keeps_update: "I nodes edges \<Longrightarrow> own_node command policy nodes k = Inr s \<Longrightarrow>
      I (dset k (s\<lparr>ns_draft := draft\<rparr>) nodes) edges"
    and keeps_remove: "I nodes edges \<Longrightarrow> own_node command policy nodes k = Inr s \<Longrightarrow>
      any_frozen_target nodes k edges = Inr False \<Longrightarrow>
      I (dpop k nodes) (filter (\<lambda>e. fst e \<noteq> k \<and> snd e \<noteq> k) edges)"
    and keeps_add_edge: "I nodes edges \<Longrightarrow> dget nodes a = Some source \<Longrightarrow> dget nodes b = Some target \<Longrightarrow>
      \<not> ns_frozen target \<Longrightarrow> may_edit (pc_actor command) target \<Longrightarrow> I nodes (sadd (a, b) edges)"
    and keeps_remove_edge: "I nodes edges \<Longrightarrow> dget nodes a = Some source \<Longrightarrow> dget nodes b = Some target \<Longrightarrow>
      \<not> ns_frozen source \<Longrightarrow> \<not> ns_frozen target \<Longrightarrow> may_edit (pc_actor command) target \<Longrightarrow> I nodes (sdiscard (a, b) edges)"
    and keeps_blocked: "I nodes edges \<Longrightarrow> dget nodes k = Some s \<Longrightarrow> \<not> ns_frozen s \<Longrightarrow> ns_status s \<noteq> COMPLETED \<Longrightarrow>
      (a_kind (pc_actor command) = Agent \<longrightarrow> k \<in> set (pp_active_node_ids policy)) \<Longrightarrow>
      I (dset k (s\<lparr>ns_status := BLOCKED\<rparr>) nodes) edges"
begin

lemma apply_op_keeps:
  assumes step: "apply_op px command policy (nodes, edges, id_map) iop = Inr (nodes', edges', id_map')" and inv: "I nodes edges"
  shows "I nodes' edges'"
proof -
  obtain i op where iop: "iop = (i, op)" by fastforce
  show ?thesis
  proof (cases op)
    case (AddNodeOp node)
    with step show ?thesis using inv
      by (auto simp: apply_op_def iop elim!: op_add_node_effect intro: keeps_add)
  next
    case (UpdateNodeOp ref patch)
    with step show ?thesis using inv
      by (auto simp: apply_op_def iop simp del: own_node_iff elim!: op_update_node_effect intro: keeps_update)
  next
    case (RemoveNodeOp ref)
    with step show ?thesis using inv
      by (auto simp: apply_op_def iop simp del: own_node_iff elim!: op_remove_node_effect intro: keeps_remove)
  next
    case (AddEdgeOp a b)
    with step show ?thesis using inv
      by (auto simp: apply_op_def iop elim!: op_add_edge_effect intro: keeps_add_edge)
  next
    case (RemoveEdgeOp a b)
    with step show ?thesis using inv
      by (auto simp: apply_op_def iop elim!: op_remove_edge_effect intro: keeps_remove_edge)
  next
    case (DeclareBlockedOp ref reason)
    with step show ?thesis using inv
      by (auto simp: apply_op_def iop elim!: op_declare_blocked_effect intro: keeps_blocked)
  qed
qed

lemma ops_keep:
  assumes "foldE (apply_op px command policy) st iops = Inr st'" and "I (fst st) (fst (snd st))"
  shows "I (fst st') (fst (snd st'))"
  using assms(1)
proof (rule foldE_invariant[where P = "\<lambda>st. I (fst st) (fst (snd st))"])
  fix s x s' assume "I (fst s) (fst (snd s))" "apply_op px command policy s x = Inr s'"
  then show "I (fst s') (fst (snd s'))"
    using apply_op_keeps[of "fst s" "fst (snd s)" "snd (snd s)" x "fst s'" "fst (snd s')" "snd (snd s')"] by simp
qed (use assms(2) in simp)

end

section \<open>Invariants of the loop\<close>

text \<open>Keys stay distinct, the edge set stays a set, and every edge points at a node of the plan.\<close>

definition loop_ok :: "nodes \<Rightarrow> edge list \<Rightarrow> bool" where
  "loop_ok nodes edges \<longleftrightarrow> dict_ok nodes \<and> distinct edges \<and> (\<forall>e\<in>set edges. has_key nodes (snd e))"

interpretation shape: op_invariant px command policy loop_ok for px command policy
proof unfold_locales
  fix nodes edges k draft assume "loop_ok nodes edges" "\<not> has_key nodes k"
  then show "loop_ok (dset k (fresh_node draft PENDING (Some (a_id (pc_actor command)))) nodes)
      (foldl (\<lambda>es dependency. sadd (dependency, k) es) edges (d_depends_on draft))"
    by (auto simp: loop_ok_def set_add_edges distinct_add_edges)
qed (simp_all add: loop_ok_def key_of_dget)

text \<open>A frozen node of the plan stays as it is, and so do the edges that end in it.\<close>

definition in_edges :: "edge list \<Rightarrow> string \<Rightarrow> string set" where
  "in_edges edges k = {u. (u, k) \<in> set edges}"

definition frozen_kept :: "plan_state \<Rightarrow> nodes \<Rightarrow> edge list \<Rightarrow> bool" where
  "frozen_kept plan nodes edges \<longleftrightarrow>
     (\<forall>k s. dget (pl_nodes plan) k = Some s \<longrightarrow> ns_frozen s \<longrightarrow>
        dget nodes k = Some s \<and> in_edges edges k = in_edges (pl_edges plan) k)"

interpretation frozen: op_invariant px command policy "frozen_kept plan" for px command policy plan
proof unfold_locales
  fix nodes edges k draft
  assume inv: "frozen_kept plan nodes edges" and "\<not> has_key nodes k"
  then have "\<not> (\<exists>s. dget (pl_nodes plan) k = Some s \<and> ns_frozen s)"
    by (metis frozen_kept_def has_key_dget option.distinct(1))
  with inv show "frozen_kept plan (dset k (fresh_node draft PENDING (Some (a_id (pc_actor command)))) nodes)
      (foldl (\<lambda>es dependency. sadd (dependency, k) es) edges (d_depends_on draft))"
    by (auto simp: frozen_kept_def in_edges_def set_add_edges dget_dset)
next
  fix nodes edges k s assume "frozen_kept plan nodes edges" "own_node command policy nodes k = Inr s"
  then show "frozen_kept plan (dset k (s\<lparr>ns_draft := draft\<rparr>) nodes) edges" for draft
    by (auto simp: frozen_kept_def dget_dset)
next
  fix nodes edges k s
  assume inv: "frozen_kept plan nodes edges" and own: "own_node command policy nodes k = Inr s"
    and any: "any_frozen_target nodes k edges = Inr False"
  show "frozen_kept plan (dpop k nodes) (filter (\<lambda>e. fst e \<noteq> k \<and> snd e \<noteq> k) edges)"
    unfolding frozen_kept_def
  proof (intro allI impI)
    fix j f assume j: "dget (pl_nodes plan) j = Some f" "ns_frozen f"
    with inv have dj: "dget nodes j = Some f" "in_edges edges j = in_edges (pl_edges plan) j"
      by (auto simp: frozen_kept_def)
    from any have "(k, j) \<notin> set edges" using any_frozen_target_False dj(1) j(2) by fastforce
    moreover have jk: "j \<noteq> k" using own dj(1) j(2) by auto
    ultimately have "in_edges (filter (\<lambda>e. fst e \<noteq> k \<and> snd e \<noteq> k) edges) j = in_edges edges j"
      by (auto simp: in_edges_def)
    with jk dj show "dget (dpop k nodes) j = Some f
        \<and> in_edges (filter (\<lambda>e. fst e \<noteq> k \<and> snd e \<noteq> k) edges) j = in_edges (pl_edges plan) j"
      by (simp add: dget_dpop)
  qed
qed (auto simp: frozen_kept_def in_edges_def dget_dset)

text \<open>
  An agent leaves alone every node that is not its own unstarted one and gives it no dependency; the one exception is
  declaring a node it is running blocked, and that changes nothing but the status.
\<close>

definition agent_kept :: "actor \<Rightarrow> plan_policy \<Rightarrow> plan_state \<Rightarrow> nodes \<Rightarrow> edge list \<Rightarrow> bool" where
  "agent_kept actor policy plan nodes edges \<longleftrightarrow>
     (a_kind actor = Agent \<longrightarrow> (\<forall>k s. dget (pl_nodes plan) k = Some s \<longrightarrow> \<not> may_edit actor s \<longrightarrow>
        (dget nodes k = Some s \<or> k \<in> set (pp_active_node_ids policy) \<and> dget nodes k = Some (s\<lparr>ns_status := BLOCKED\<rparr>))
        \<and> in_edges edges k \<subseteq> in_edges (pl_edges plan) k))"

lemma may_edit_blocked: "a_kind actor = Agent \<Longrightarrow> \<not> may_edit actor (s\<lparr>ns_status := BLOCKED\<rparr>)"
  by (simp add: may_edit_def)

lemma agent_keptD:
  assumes "agent_kept actor policy plan nodes edges" "a_kind actor = Agent" "dget (pl_nodes plan) k = Some s" "\<not> may_edit actor s"
  shows "dget nodes k = Some s \<or> k \<in> set (pp_active_node_ids policy) \<and> dget nodes k = Some (s\<lparr>ns_status := BLOCKED\<rparr>)"
    and "in_edges edges k \<subseteq> in_edges (pl_edges plan) k"
    and "\<exists>t. dget nodes k = Some t \<and> \<not> may_edit actor t"
proof -
  from assms show one: "dget nodes k = Some s \<or> k \<in> set (pp_active_node_ids policy) \<and> dget nodes k = Some (s\<lparr>ns_status := BLOCKED\<rparr>)"
    and "in_edges edges k \<subseteq> in_edges (pl_edges plan) k"
    by (simp_all add: agent_kept_def)
  from one show "\<exists>t. dget nodes k = Some t \<and> \<not> may_edit actor t"
    using assms(4) may_edit_blocked[OF assms(2), of s] by auto
qed

lemma agent_keptI:
  assumes "agent_kept actor policy plan nodes edges"
    and "\<And>k t. dget nodes k = Some t \<Longrightarrow> a_kind actor = Agent \<Longrightarrow> \<not> may_edit actor t \<Longrightarrow>
      (dget nodes' k = Some t \<or> k \<in> set (pp_active_node_ids policy) \<and> dget nodes' k = Some (t\<lparr>ns_status := BLOCKED\<rparr>))
      \<and> in_edges edges' k \<subseteq> in_edges edges k"
  shows "agent_kept actor policy plan nodes' edges'"
  unfolding agent_kept_def
proof (intro impI allI)
  fix k s assume *: "a_kind actor = Agent" "dget (pl_nodes plan) k = Some s" "\<not> may_edit actor s"
  note kept = agent_keptD[OF assms(1) *]
  from kept(3) obtain t where t: "dget nodes k = Some t" "\<not> may_edit actor t" by auto
  from assms(2)[OF t(1) *(1) t(2)] kept(1,2) t(1)
  show "(dget nodes' k = Some s \<or> k \<in> set (pp_active_node_ids policy) \<and> dget nodes' k = Some (s\<lparr>ns_status := BLOCKED\<rparr>))
      \<and> in_edges edges' k \<subseteq> in_edges (pl_edges plan) k"
    by auto
qed

interpretation agents: op_invariant px command policy "agent_kept (pc_actor command) policy plan" for px command policy plan
proof unfold_locales
  fix nodes edges k draft
  assume inv: "agent_kept (pc_actor command) policy plan nodes edges" and "\<not> has_key nodes k"
  then show "agent_kept (pc_actor command) policy plan
      (dset k (fresh_node draft PENDING (Some (a_id (pc_actor command)))) nodes)
      (foldl (\<lambda>es dependency. sadd (dependency, k) es) edges (d_depends_on draft))"
    by (intro agent_keptI[OF inv]) (auto simp: dget_dset in_edges_def set_add_edges dest: key_of_dget)
next
  fix nodes edges k s
  assume inv: "agent_kept (pc_actor command) policy plan nodes edges" and own: "own_node command policy nodes k = Inr s"
  from own show "agent_kept (pc_actor command) policy plan (dset k (s\<lparr>ns_draft := draft\<rparr>) nodes) edges" for draft
    by (intro agent_keptI[OF inv]) (auto simp: dget_dset)
  from own show "agent_kept (pc_actor command) policy plan (dpop k nodes) (filter (\<lambda>e. fst e \<noteq> k \<and> snd e \<noteq> k) edges)"
    by (intro agent_keptI[OF inv]) (auto simp: dget_dpop in_edges_def)
next
  fix nodes edges k s
  assume inv: "agent_kept (pc_actor command) policy plan nodes edges" and "dget nodes k = Some s"
    "a_kind (pc_actor command) = Agent \<longrightarrow> k \<in> set (pp_active_node_ids policy)"
  then show "agent_kept (pc_actor command) policy plan (dset k (s\<lparr>ns_status := BLOCKED\<rparr>) nodes) edges"
    by (intro agent_keptI[OF inv]) (auto simp: dget_dset)
next
  fix nodes edges a b source target
  assume inv: "agent_kept (pc_actor command) policy plan nodes edges" and target: "dget nodes b = Some target"
    "may_edit (pc_actor command) target"
  from target show "agent_kept (pc_actor command) policy plan nodes (sadd (a, b) edges)"
    and "agent_kept (pc_actor command) policy plan nodes (sdiscard (a, b) edges)"
    by (intro agent_keptI[OF inv]; auto simp: in_edges_def)+
qed

text \<open>Every node that was not in the plan before the command says who added it.\<close>

definition author_recorded :: "actor \<Rightarrow> nodes \<Rightarrow> nodes \<Rightarrow> edge list \<Rightarrow> bool" where
  "author_recorded actor old nodes edges \<longleftrightarrow>
     (\<forall>k s. dget nodes k = Some s \<longrightarrow> \<not> has_key old k \<longrightarrow> ns_created_by s = Some (a_id actor) \<and> \<not> ns_frozen s)"

interpretation authors: op_invariant px command policy "author_recorded (pc_actor command) old" for px command policy old
  by unfold_locales (auto simp: author_recorded_def dget_dset dget_dpop fresh_node_def split: if_splits)

end
