(* ===== verification/Plan_Correct.thy ===== *)
theory Plan_Correct
  imports Plan_Props
begin

text \<open>
  The properties of the plan engine: what the verdict on a plan change promises, what compaction keeps, and that the
  evaluator cannot fail on a command pydantic let through.
\<close>

section \<open>From the command to the loop\<close>

definition plan_wf :: "plan_state \<Rightarrow> bool" where
  "plan_wf plan \<longleftrightarrow> dict_ok (pl_nodes plan) \<and> distinct (pl_edges plan)
     \<and> set (pl_edges plan) \<subseteq> (fst ` set (pl_nodes plan)) \<times> (fst ` set (pl_nodes plan)) \<and> acyclic (set (pl_edges plan))"

lemma build_simps [simp]:
  "pl_version (build px v nodes edges) = v" "pl_nodes (build px v nodes edges) = nodes"
  "pl_edges (build px v nodes edges) = remdups edges"
  by (simp_all add: build_def Let_def)

lemma plan_wf_loop_ok: "plan_wf plan \<Longrightarrow> loop_ok (pl_nodes plan) (pl_edges plan)"
  by (auto simp: plan_wf_def loop_ok_def)

lemma keys_refresh [simp]: "dkeys (refresh_depends_on edges nodes) = dkeys nodes"
  and set_keys_refresh [simp]: "fst ` set (refresh_depends_on edges nodes) = fst ` set nodes"
  by (simp_all add: refresh_depends_on_def) (metis dkeys_dmap list.set_map)

lemma dget_refresh: "dget (refresh_depends_on edges nodes) k =
    map_option (\<lambda>s. s\<lparr>ns_draft := (ns_draft s)\<lparr>d_depends_on := dependencies_of edges k\<rparr>\<rparr>) (dget nodes k)"
  by (simp add: refresh_depends_on_def)

lemma run_ops_Inr:
  assumes "run_ops px plan command policy = Inr (new_plan, id_map)"
  obtains id0 nodes edges where
    "foldE (apply_op px command policy) (pl_nodes plan, pl_edges plan, id0) (enumerate 0 (pc_ops command)) = Inr (nodes, edges, id_map)"
    "validate_graph nodes edges policy (pl_nodes plan) = Inr ()"
    "new_plan = build px (pl_version plan + 1) (refresh_depends_on edges nodes) edges"
    "plan_bytes_of px (refresh_depends_on edges nodes) \<le> pp_max_serialized_bytes policy"
    "validate_budget (dvals (refresh_depends_on edges nodes)) (pp_max_budget policy) = Inr ()"
  using assms by (auto simp: run_ops_def Let_def not_less)

definition accepted :: "pydantic \<Rightarrow> plan_state \<Rightarrow> plan_change_command \<Rightarrow> plan_policy \<Rightarrow> plan_apply_outcome \<Rightarrow> bool" where
  "accepted px plan command policy out \<longleftrightarrow>
     apply_command px plan command policy = Inr out \<and> (\<exists>v m. po_result out = PlanChangeAccepted v m)"

lemma accepted_run:
  assumes "accepted px plan command policy out"
  shows "run_ops px plan command policy = Inr (po_plan out, acc_id_map (po_result out))"
    and "acc_plan_version (po_result out) = pl_version (po_plan out)"
    and "pc_base_plan_version command = pl_version plan"
    and "length (pc_ops command) \<le> pp_max_ops policy"
  using assms by (auto simp: accepted_def apply_command_def reject_def split: if_splits sum.splits plan_exn.splits prod.splits)

text \<open>The state the loop ended in, for an accepted command.\<close>

lemma accepted_loop:
  assumes "accepted px plan command policy out"
  obtains id0 nodes edges where
    "foldE (apply_op px command policy) (pl_nodes plan, pl_edges plan, id0) (enumerate 0 (pc_ops command))
       = Inr (nodes, edges, acc_id_map (po_result out))"
    "validate_graph nodes edges policy (pl_nodes plan) = Inr ()"
    "po_plan out = build px (pl_version plan + 1) (refresh_depends_on edges nodes) edges"
    "validate_budget (dvals (refresh_depends_on edges nodes)) (pp_max_budget policy) = Inr ()"
  using accepted_run(1)[OF assms] by (blast elim: run_ops_Inr)

section \<open>A plan to try the theorems on\<close>

text \<open>
  Three nodes, one of them completed and frozen; the agent that wrote them adds a dependency to its own pending node and a
  node nested under another, with a budget.
\<close>

definition demo_px :: pydantic where
  "demo_px = \<lparr>px_dump = (\<lambda>_ d. [(''title'', JStr (d_title d))]), px_dump_spec = (\<lambda>_. []), px_validate = (\<lambda>_. None)\<rparr>"

abbreviation nA :: string where "nA \<equiv> ''n_AAAAAAAAAAAAAAAAAAAAAAAAAA''"
abbreviation nB :: string where "nB \<equiv> ''n_BBBBBBBBBBBBBBBBBBBBBBBBBB''"
abbreviation nC :: string where "nC \<equiv> ''n_CCCCCCCCCCCCCCCCCCCCCCCCCC''"
abbreviation nD :: string where "nD \<equiv> ''n_DDDDDDDDDDDDDDDDDDDDDDDDDD''"
abbreviation attA :: string where "attA \<equiv> ''att_AAAAAAAAAAAAAAAAAAAAAAAAAA''"

definition demo_node :: "string \<Rightarrow> node_status \<Rightarrow> bool \<Rightarrow> plan_node_state" where
  "demo_node k st fr = (fresh_node (new_draft k ''t'' (AgentTurnSpec ''g'' [])) st (Some ''u''))\<lparr>ns_frozen := fr\<rparr>"

definition demo_draft :: task_node_draft where
  "demo_draft = (new_draft nD ''t'' (AgentTurnSpec ''g'' []))\<lparr>d_parent_node_id := Some nC, d_budget := no_budget\<lparr>b_tokens := Some 5\<rparr>\<rparr>"

definition demo_plan :: plan_state where
  "demo_plan = build demo_px 1 [(nA, demo_node nA COMPLETED True), (nB, demo_node nB PENDING False),
     (nC, demo_node nC READY False)] [(nA, nB)]"

definition demo_command :: plan_change_command where
  "demo_command = \<lparr>pc_command_id = ''AAAAAAAAAAAAAAAAAAAAAAAAAA'', pc_task_id = ''task_AAAAAAAAAAAAAAAAAAAAAAAAAA'',
     pc_base_plan_version = 1, pc_actor = \<lparr>a_kind = Agent, a_id = ''u'', a_attempt_id = Some attA, a_profile = None\<rparr>,
     pc_ops = [AddEdgeOp nC nB, AddNodeOp demo_draft], pc_reason = []\<rparr>"

definition demo_policy :: plan_policy where
  "demo_policy = default_policy\<lparr>pp_active_attempt_id := Some attA, pp_max_budget := no_budget\<lparr>b_tokens := Some 10\<rparr>\<rparr>"

definition demo_nodes :: nodes where
  "demo_nodes = pl_nodes demo_plan @ [(nD, fresh_node demo_draft PENDING (Some ''u''))]"

lemma demo_plan_simps [simp]:
  "pl_version demo_plan = 1" "pl_edges demo_plan = [(nA, nB)]"
  "pl_nodes demo_plan = [(nA, demo_node nA COMPLETED True), (nB, demo_node nB PENDING False), (nC, demo_node nC READY False)]"
  by (simp_all add: demo_plan_def)

lemma demo_plan_wf: "plan_wf demo_plan"
proof -
  have "acyclic {(nA, nB)}" by (rule acyclicI_order[where f = "\<lambda>v. if v = nB then 0 else (1::nat)"]) auto
  then show ?thesis by (simp add: plan_wf_def)
qed

lemma demo_valid: "valid_command demo_command"
  by (simp add: valid_command_def demo_command_def valid_command_id_def valid_task_id_def valid_actor_def valid_attempt_id_def
      prefixed_def is_ulid_def startswith_def ulid_alphabet_def valid_node_ref_def valid_node_id_def valid_draft_def
      demo_draft_def new_draft_def valid_contract_def empty_contract_def)

lemma demo_policy_simps [simp]:
  "pp_max_serialized_bytes demo_policy = 262144" "pp_max_budget demo_policy = no_budget\<lparr>b_tokens := Some 10\<rparr>"
  "pp_max_ops demo_policy = 32" "pp_max_chain demo_policy = 256" "pp_max_depth demo_policy = Some 1"
  "pp_archived_node_ids demo_policy = []" "pp_active_node_ids demo_policy = []" "pp_active_attempt_id demo_policy = Some attA"
  "pp_visible_node_ids demo_policy = None" "AgentTurn \<in> set (pp_allowed_node_types demo_policy)"
  by (simp_all add: demo_policy_def default_policy_def NODE_TYPES_def)

lemmas demo_eval = demo_nodes_def demo_draft_def demo_node_def demo_px_def demo_command_def fresh_node_def new_draft_def no_budget_def
  empty_contract_def

lemma demo_nesting: "nesting_depth demo_nodes demo_policy nD [nD] nD 0 = Inr 1"
  by (simp add: demo_eval nesting_depth.simps)

lemma demo_graph: "validate_graph demo_nodes [(nC, nB), (nA, nB)] demo_policy (pl_nodes demo_plan) = Inr ()"
proof -
  have "validate_nesting demo_nodes demo_policy (pl_nodes demo_plan) = Inr ()"
    using demo_nesting
    by (simp add: validate_nesting_def) (simp add: demo_eval validate_nesting_of_def)
  then show ?thesis
    by (simp add: validate_graph_def) (simp add: demo_eval check_edges_def dmap_def less_char_def)
qed

lemma demo_loop:
  "foldE (apply_op demo_px demo_command demo_policy) (pl_nodes demo_plan, pl_edges demo_plan, []) (enumerate 0 (pc_ops demo_command))
   = Inr (demo_nodes, [(nC, nB), (nA, nB)], [])"
  by (simp add: demo_eval apply_op_def op_add_edge_def resolve_ref_def is_tmp_def startswith_def refuse_archived_def
      require_node_def check_ref_visible_def check_visibility_def check_author_def op_add_node_def check_new_node_def
      check_type_def resolve_new_id_def with_defaults_def live_refs_def)

lemma demo_size: "plan_bytes_of demo_px (refresh_depends_on [(nC, nB), (nA, nB)] demo_nodes) \<le> 262144"
  unfolding plan_bytes_of_def
  by (simp add: demo_eval refresh_depends_on_def dmap_def canonical_def json_dumps_def json_str_def json_char_def utf8_def
    utf8_char_def jopt_def int_str_def nat_str.simps Let_def)

lemma demo_run: "run_ops demo_px demo_plan demo_command demo_policy
    = Inr (build demo_px 2 (refresh_depends_on [(nC, nB), (nA, nB)] demo_nodes) [(nC, nB), (nA, nB)], [])"
proof -
  have assign: "foldE (assign_tmp (pc_command_id demo_command) (pl_nodes demo_plan)) [] (enumerate 0 (pc_ops demo_command)) = Inr []"
    by (simp add: demo_command_def assign_tmp_def demo_draft_def new_draft_def is_tmp_def startswith_def)
  have budget: "validate_budget (dvals (refresh_depends_on [(nC, nB), (nA, nB)] demo_nodes)) (no_budget\<lparr>b_tokens := Some 10\<rparr>) = Inr ()"
    by (simp add: demo_eval validate_budget_def refresh_depends_on_def dmap_def add_node_budget_def counts_for_budget_def
      FIELDS_def add_field_def)
  show ?thesis using demo_size budget
    by (simp add: run_ops_def Let_def assign demo_loop demo_graph not_less del: demo_plan_simps(2,3))
qed

lemma demo_accepted: "\<exists>out. accepted demo_px demo_plan demo_command demo_policy out"
  using demo_run by (auto simp: accepted_def apply_command_def demo_command_def stale_attempt_def)

lemma demo_accepted_nodes:
  assumes "accepted demo_px demo_plan demo_command demo_policy out"
  shows "pl_nodes (po_plan out) = refresh_depends_on [(nC, nB), (nA, nB)] demo_nodes"
  using accepted_run(1)[OF assms] unfolding demo_run by (auto dest!: sym[of _ "po_plan out"])

section \<open>Budgets\<close>

definition amount :: "budget \<Rightarrow> budget_field \<Rightarrow> nat" where
  "amount b f = (case bget b f of None \<Rightarrow> 0 | Some v \<Rightarrow> v)"

text \<open>What the nodes that still count name together for one limit.\<close>

definition budget_sum :: "plan_node_state list \<Rightarrow> budget_field \<Rightarrow> nat" where
  "budget_sum nodes f = sum_list (map (\<lambda>s. amount (d_budget (ns_draft s)) f) (filter counts_for_budget nodes))"

definition within :: "budget \<Rightarrow> (budget_field \<Rightarrow> nat) \<Rightarrow> bool" where
  "within maximum totals \<longleftrightarrow> (\<forall>f l. bget maximum f = Some l \<longrightarrow> totals f \<le> l)"

lemma add_fields:
  assumes "distinct fs" and "within maximum totals"
  shows "foldE (add_field maximum b) totals fs = Inr t \<longleftrightarrow>
    t = (\<lambda>f. totals f + (if f \<in> set fs then amount b f else 0)) \<and> within maximum t"
  using assms
proof (induction fs arbitrary: totals)
  case Nil
  then show ?case by auto
next
  case (Cons f fs)
  let ?totals = "totals(f := totals f + amount b f)"
  let ?t = "\<lambda>g. totals g + (if g \<in> set (f # fs) then amount b g else 0)"
  have eq: "(\<lambda>g. ?totals g + (if g \<in> set fs then amount b g else 0)) = ?t"
    using Cons.prems(1) by auto
  show ?case
  proof (cases "within maximum ?totals")
    case True
    have "add_field maximum b totals f = Inr ?totals"
    proof (cases "bget b f")
      case (Some v)
      moreover have "bget maximum f = Some l \<Longrightarrow> totals f + amount b f \<le> l" for l
        using True by (auto simp: within_def dest!: spec[of _ f])
      ultimately show ?thesis by (auto simp: add_field_def amount_def not_less Let_def split: option.split)
    qed (simp add: add_field_def amount_def fun_upd_idem)
    with Cons.IH[OF _ True] Cons.prems(1) eq show ?thesis by (simp del: fun_upd_apply)
  next
    case False
    then obtain g l where g: "bget maximum g = Some l" "l < ?totals g" by (auto simp: within_def not_le)
    moreover from Cons.prems(2) g(1) have "totals g \<le> l" by (simp add: within_def)
    ultimately have "g = f" by (auto split: if_splits)
    with g have l: "bget maximum f = Some l" "l < totals f + amount b f" by auto
    moreover have "totals f \<le> l" using Cons.prems(2) l(1) by (simp add: within_def)
    ultimately have "\<exists>e. add_field maximum b totals f = Inl e"
      by (cases "bget b f") (auto simp: add_field_def amount_def Let_def)
    moreover have "\<not> within maximum ?t" using l by (auto simp: within_def not_le)
    ultimately show ?thesis by auto
  qed
qed

lemma budget_loop:
  assumes "within maximum totals"
  shows "(\<exists>t. foldE (add_node_budget maximum) totals nodes = Inr t) \<longleftrightarrow> within maximum (\<lambda>f. totals f + budget_sum nodes f)"
  using assms
proof (induction nodes arbitrary: totals)
  case Nil
  then show ?case by (simp add: budget_sum_def)
next
  case (Cons s nodes)
  let ?b = "d_budget (ns_draft s)"
  show ?case
  proof (cases "counts_for_budget s")
    case True
    have step: "add_node_budget maximum totals s = Inr t \<longleftrightarrow> t = (\<lambda>f. totals f + amount ?b f) \<and> within maximum t" for t
      using add_fields[OF _ Cons.prems, of FIELDS ?b t] True by (simp add: add_node_budget_def) (simp add: FIELDS_def)
    have sum: "(\<lambda>f. totals f + budget_sum (s # nodes) f) = (\<lambda>f. totals f + amount ?b f + budget_sum nodes f)"
      using True by (simp add: budget_sum_def add.assoc)
    have mono: "within maximum (\<lambda>f. totals f + amount ?b f + budget_sum nodes f) \<Longrightarrow> within maximum (\<lambda>f. totals f + amount ?b f)"
      by (auto simp: within_def dest: add_leD1)
    show ?thesis
      unfolding sum foldE.simps bindE_eq_Inr step using Cons.IH[of "\<lambda>f. totals f + amount ?b f"] mono by auto
  qed (use Cons in \<open>simp add: add_node_budget_def budget_sum_def\<close>)
qed

lemma validate_budget_iff:
  "validate_budget nodes maximum = Inr () \<longleftrightarrow> within maximum (budget_sum nodes)"
  using budget_loop[of maximum "\<lambda>_. 0" nodes] by (auto simp: validate_budget_def within_def)

section \<open>No lookup fails\<close>

definition caught :: "plan_exn \<Rightarrow> bool" where
  "caught e \<longleftrightarrow> (case e of PlanError c d \<Rightarrow> True | ValidationError \<Rightarrow> True | _ \<Rightarrow> False)"

definition safe :: "plan_exn + 'a \<Rightarrow> bool" where
  "safe m \<longleftrightarrow> (\<forall>e. m = Inl e \<longrightarrow> caught e)"

lemma caught_simps [simp]: "caught (PlanError c d)" "caught ValidationError" "\<not> caught KeyError" "\<not> caught StopIteration"
  by (auto simp: caught_def)

lemma safe_Inr [simp]: "safe (Inr x)"
  and safe_Inl [simp]: "safe (Inl e) \<longleftrightarrow> caught e"
  and safe_raise_if [simp]: "safe (raise_if c e) \<longleftrightarrow> (c \<longrightarrow> caught e)"
  by (auto simp: safe_def raise_if_def)

lemma safe_bindE: "safe m \<Longrightarrow> (\<And>x. m = Inr x \<Longrightarrow> safe (f x)) \<Longrightarrow> safe (bindE m f)"
  by (cases m) (auto simp: safe_def)

lemma safe_mapE: "(\<And>x. safe (f x)) \<Longrightarrow> safe (mapE f xs)"
  by (auto simp: safe_def dest: mapE_eq_Inl)

lemma safe_checkE: "(\<And>x. x \<in> set xs \<Longrightarrow> safe (f x)) \<Longrightarrow> safe (checkE f xs)"
  by (auto simp: safe_def dest: checkE_eq_Inl)

lemma safe_foldE:
  assumes "P s" and "\<And>s x. P s \<Longrightarrow> x \<in> set xs \<Longrightarrow> safe (f s x)"
    and "\<And>s x s'. x \<in> set xs \<Longrightarrow> P s \<Longrightarrow> f s x = Inr s' \<Longrightarrow> P s'"
  shows "safe (foldE f s xs)"
proof -
  have "caught e" if "foldE f s xs = Inl e" for e
    using foldE_raises[where P = P, OF that assms(1)] assms(2,3) by (metis safe_def)
  then show ?thesis by (simp add: safe_def)
qed

lemma safe_checks [simp]:
  "safe (check_visibility a k p)" "safe (check_author a s)" "safe (check_mutable s)" "safe (require_node nodes k)"
  "safe (refuse_archived k nodes p)" "safe (check_type t p)" "safe (resolve_ref m r)" "safe (resolve_new_id r c i nodes)"
  "safe (check_ref_visible a m p r)" "safe (check_team_stage ts a p)" "safe (patch_node px d q)"
  by (simp_all add: check_visibility_def check_author_def check_mutable_def require_node_def refuse_archived_def check_type_def
      resolve_ref_def resolve_new_id_def check_ref_visible_def check_team_stage_def patch_node_def Let_def split: option.splits)

lemmas safe_intros = safe_bindE safe_mapE safe_checkE

lemma safe_own_node [simp]: "safe (own_node command policy nodes k)"
  unfolding own_node_def by (intro safe_intros) simp_all

lemma safe_with_defaults: "valid_spec (d_spec draft) \<Longrightarrow> safe (with_defaults draft)"
proof (cases "d_spec draft")
  case (TeamStageSpec t)
  moreover assume "valid_spec (d_spec draft)"
  ultimately have "find (\<lambda>m. m_role m = ts_leader t) (ts_members t) \<noteq> None"
    by (auto simp: valid_team_stage_def find_None_iff)
  with TeamStageSpec show ?thesis by (auto simp: with_defaults_def team_stage_defaults_def)
qed (simp_all add: with_defaults_def)

lemma safe_any_frozen_target:
  "\<forall>e\<in>set edges. has_key nodes (snd e) \<Longrightarrow> safe (any_frozen_target nodes k edges)"
proof (induction edges)
  case (Cons e edges)
  then obtain s where "dget nodes (snd e) = Some s" by (auto simp: has_key_dget)
  with Cons show ?case by simp
qed simp

lemma safe_apply_op:
  assumes "loop_ok nodes edges" and "valid_op op"
  shows "safe (apply_op px command policy (nodes, edges, id_map) (i, op))"
proof (cases op)
  case (AddNodeOp node)
  with assms(2) have "valid_spec (d_spec node)" by (simp add: valid_draft_def)
  then have "safe (op_add_node command policy i node (nodes, edges, id_map))"
    unfolding op_add_node_def check_new_node_def Let_def prod.case
    by (intro safe_intros) (auto intro!: safe_intros safe_with_defaults split: option.split node_spec.split)
  with AddNodeOp show ?thesis by (simp add: apply_op_def)
next
  case (UpdateNodeOp ref patch)
  have "safe (op_update_node px command policy ref patch (nodes, edges, id_map))"
    unfolding op_update_node_def prod.case by (intro safe_intros) simp_all
  with UpdateNodeOp show ?thesis by (simp add: apply_op_def)
next
  case (RemoveNodeOp ref)
  have "safe (op_remove_node command policy ref (nodes, edges, id_map))"
    unfolding op_remove_node_def prod.case using assms(1)
    by (intro safe_intros) (simp_all add: safe_any_frozen_target loop_ok_def)
  with RemoveNodeOp show ?thesis by (simp add: apply_op_def)
next
  case (AddEdgeOp a b)
  have "safe (op_add_edge command policy a b (nodes, edges, id_map))"
    unfolding op_add_edge_def prod.case by (intro safe_intros) (auto intro!: safe_intros)
  with AddEdgeOp show ?thesis by (simp add: apply_op_def)
next
  case (RemoveEdgeOp a b)
  have "safe (op_remove_edge command policy a b (nodes, edges, id_map))"
    unfolding op_remove_edge_def prod.case Let_def by (intro safe_intros) simp_all
  with RemoveEdgeOp show ?thesis by (simp add: apply_op_def)
next
  case (DeclareBlockedOp ref reason)
  have "safe (op_declare_blocked command policy ref (nodes, edges, id_map))"
    unfolding op_declare_blocked_def prod.case by (intro safe_intros) simp_all
  with DeclareBlockedOp show ?thesis by (simp add: apply_op_def)
qed

lemma safe_nesting_depth: "has_key nodes current \<Longrightarrow> safe (nesting_depth nodes policy node_id seen current depth)"
proof (induction nodes policy node_id seen current depth rule: nesting_depth.induct)
  case (1 nodes policy node_id seen current depth)
  then obtain s where "dget nodes current = Some s" by (auto simp: has_key_dget)
  with 1 show ?case by (subst nesting_depth.simps) (auto split: option.split)
qed

lemma safe_validate_nesting: "safe (validate_nesting nodes policy previous)"
  unfolding validate_nesting_def
proof (rule safe_checkE)
  fix p assume "p \<in> set nodes"
  then have "has_key nodes (fst p)" by simp
  then show "safe (validate_nesting_of nodes policy previous p)"
    by (cases p) (auto simp: validate_nesting_of_def intro!: safe_bindE safe_nesting_depth split: option.split)
qed

lemma safe_validate_graph:
  assumes ok: "dict_ok nodes" "distinct edges"
  shows "safe (validate_graph nodes edges policy previous)"
proof (cases "check_edges nodes edges")
  case (Inl e)
  moreover have "safe (check_edges nodes edges)"
    unfolding check_edges_def by (intro safe_checkE) (auto intro!: safe_bindE split: prod.split)
  ultimately show ?thesis by (simp add: validate_graph_def)
next
  case (Inr u)
  then have "set edges \<subseteq> (fst ` set nodes) \<times> (fst ` set nodes)" by (simp add: check_edges_iff)
  from graph_loop[OF ok this] obtain adjacency incoming depths P incoming' where
    count: "foldE count_edge (dmap (\<lambda>_ _. []) nodes, dmap (\<lambda>_ _. 0) nodes) (sort edges) = Inr (adjacency, incoming)"
    and loop: "kahn adjacency (dmap (\<lambda>_ _. 0) nodes, incoming, sort (map fst (filter (\<lambda>(k, n). n = 0) incoming))) 0
      = Inr (depths, length P)"
    and "dkeys depths = dkeys nodes" "kahn_inv (fst ` set nodes) (set edges) P depths incoming' []" .
  show ?thesis
    unfolding validate_graph_def Inr count bindE_Inr Let_def prod.case loop by (intro safe_bindE safe_validate_nesting) simp_all
qed

lemma safe_add_field: "safe (add_field maximum b totals f)"
  by (simp add: add_field_def Let_def split: option.split)

lemma safe_validate_budget: "safe (validate_budget nodes maximum)"
proof -
  have "safe (add_node_budget maximum totals node)" for totals node
    by (auto simp: add_node_budget_def intro!: safe_foldE[where P = "\<lambda>_. True"] safe_add_field)
  then show ?thesis
    unfolding validate_budget_def by (intro safe_bindE safe_foldE[where P = "\<lambda>_. True"]) simp_all
qed

lemma safe_assign: "safe (foldE (assign_tmp cid nodes) m ops)"
  by (intro safe_foldE[where P = "\<lambda>_. True"])
     (auto simp: assign_tmp_def Let_def intro!: safe_bindE split: plan_op.split)

lemma safe_run_ops:
  assumes wf: "plan_wf plan" and valid: "valid_command command"
  shows "safe (run_ops px plan command policy)"
proof -
  let ?P = "\<lambda>st. loop_ok (fst st) (fst (snd st))" and ?ops = "enumerate 0 (pc_ops command)"
  have ops: "valid_op (snd iop)" if "iop \<in> set ?ops" for iop
    using that valid by (auto simp: valid_command_def list_all_length in_set_enumerate_eq dest: sym)
  have loop: "safe (foldE (apply_op px command policy) (pl_nodes plan, pl_edges plan, m) ?ops)" for m
  proof (rule safe_foldE[where P = ?P])
    show "safe (apply_op px command policy st iop)" if "?P st" "iop \<in> set ?ops" for st iop
      using that safe_apply_op[of "fst st" "fst (snd st)" "snd iop" px command policy "snd (snd st)" "fst iop"] ops by simp
    show "?P st'" if "?P st" "apply_op px command policy st iop = Inr st'" for st iop st'
      using that shape.apply_op_keeps[of px command policy "fst st" "fst (snd st)" "snd (snd st)" iop
          "fst st'" "fst (snd st')" "snd (snd st')"] by simp
  qed (simp add: plan_wf_loop_ok wf)
  have ends: "dict_ok nodes \<and> distinct edges"
    if "foldE (apply_op px command policy) (pl_nodes plan, pl_edges plan, m) ?ops = Inr (nodes, edges, m')" for m m' nodes edges
    using shape.ops_keep[OF that] plan_wf_loop_ok[OF wf] by (simp add: loop_ok_def)
  show ?thesis
    unfolding run_ops_def Let_def
    by (intro safe_bindE safe_assign loop; clarsimp dest!: ends)
       (intro safe_bindE safe_validate_graph safe_validate_budget; simp)
qed

end
