(* ===== verification/Plan_Verdict.thy ===== *)
theory Plan_Verdict
  imports Plan_Correct
begin

text \<open>
  What the verdict of the plan engine promises (\<^verbatim>\<open>apply\<close> of \<^verbatim>\<open>orbit_orch/plan_engine.py\<close>): the properties of a plan change,
  each with the demo command as its witness.
\<close>

section \<open>Nesting\<close>

text \<open>\<open>(k, p)\<close> is in the relation when \<open>k\<close> is nested under \<open>p\<close>.\<close>

definition parent_rel :: "nodes \<Rightarrow> (string \<times> string) set" where
  "parent_rel nodes = {(k, p). \<exists>s. dget nodes k = Some s \<and> d_parent_node_id (ns_draft s) = Some p}"

lemma parent_rel_refresh [simp]: "parent_rel (refresh_depends_on edges nodes) = parent_rel nodes"
  by (auto simp: parent_rel_def dget_refresh)

lemma nesting_depth_ge: "nesting_depth nodes policy node_id seen current depth = Inr d \<Longrightarrow> depth \<le> d"
proof (induction nodes policy node_id seen current depth rule: nesting_depth.induct)
  case (1 nodes policy node_id seen current depth)
  from "1.prems" show ?case
    by (subst (asm) nesting_depth.simps) (auto split: option.splits if_splits dest!: "1.IH")
qed

lemma nesting_depth_bounds:
  "nesting_depth nodes policy node_id seen current depth = Inr d \<Longrightarrow> (current, x) \<in> parent_rel nodes ^^ j \<Longrightarrow> depth + j \<le> d"
proof (induction nodes policy node_id seen current depth arbitrary: j x rule: nesting_depth.induct)
  case (1 nodes policy node_id seen current depth)
  show ?case
  proof (cases j)
    case 0
    with nesting_depth_ge[OF "1.prems"(1)] show ?thesis by simp
  next
    case (Suc i)
    with "1.prems"(2) obtain link s where s: "dget nodes current = Some s" "d_parent_node_id (ns_draft s) = Some link"
      and tl: "(link, x) \<in> parent_rel nodes ^^ i"
      by (auto simp: parent_rel_def simp del: relpow.simps dest!: relpow_Suc_D2)
    show ?thesis
    proof (cases "has_key nodes link")
      case True
      with "1.prems"(1) s have "link \<notin> set seen" "nesting_depth nodes policy node_id (link # seen) link (depth + 1) = Inr d"
        by (subst (asm) nesting_depth.simps, simp split: if_splits)+
      from "1.IH"[OF s this(1) _ this(2) tl] True Suc show ?thesis by simp
    next
      case False
      then have "i = 0" using tl by (cases i) (auto simp: parent_rel_def has_key_dget simp del: relpow.simps dest!: relpow_Suc_D2)
      with "1.prems"(1) s False Suc show ?thesis by (subst (asm) nesting_depth.simps) (simp split: if_splits)
    qed
  qed
qed

text \<open>The parent a node got with this command, and the chain above it.\<close>

lemma validate_nesting_Inr:
  assumes "validate_nesting nodes policy previous = Inr ()" and "dict_ok nodes"
    and "dget nodes k = Some s" "d_parent_node_id (ns_draft s) = Some p"
    and new: "(k, p) \<notin> parent_rel previous"
  shows "(k, x) \<in> parent_rel nodes ^^ j \<Longrightarrow> pp_max_depth policy = Some m \<Longrightarrow> j \<le> m"
    and "has_key nodes p \<or> p \<in> set (pp_archived_node_ids policy)"
proof -
  have "(k, s) \<in> set nodes" using assms(3) by (rule map_of_SomeD)
  then have "validate_nesting_of nodes policy previous (k, s) = Inr ()"
    using assms(1) by (auto simp: validate_nesting_def checkE_eq_Inr)
  moreover have "(case dget previous k of None \<Rightarrow> False | Some before \<Rightarrow> d_parent_node_id (ns_draft before) = Some p) = False"
    using new by (auto simp: parent_rel_def split: option.split)
  ultimately obtain d where d: "nesting_depth nodes policy k [k] k 0 = Inr d"
    and m: "pp_max_depth policy = Some m \<Longrightarrow> d \<le> m"
    using assms(4) by (auto simp: validate_nesting_of_def not_less split: option.splits)
  show "j \<le> m" if "(k, x) \<in> parent_rel nodes ^^ j" "pp_max_depth policy = Some m"
    using nesting_depth_bounds[OF d that(1)] m that(2) by simp
  show "has_key nodes p \<or> p \<in> set (pp_archived_node_ids policy)"
    using d assms(3,4) by (subst (asm) nesting_depth.simps) (auto split: if_splits)
qed

section \<open>Identifiers\<close>

lemma id_chars_ulid: "length (id_chars n v) = n" "set (id_chars n v) \<subseteq> set ulid_alphabet"
proof (induction n arbitrary: v)
  case (Suc n)
  { case 1 show ?case using Suc(1) by simp }
  { case 2
    have "v AND 31 = take_bit 5 v" by (simp add: take_bit_eq_mask mask_eq_exp_minus_1)
    moreover have "take_bit 5 v < 32" "0 \<le> take_bit 5 v" using take_bit_int_less_exp[of 5 v] by simp_all
    moreover have "length ulid_alphabet = 32" by (simp add: ulid_alphabet_def)
    ultimately have "nat (v AND 31) < length ulid_alphabet" by linarith
    then show ?case using Suc(2) by (simp del: nth_mem add: nth_mem) }
qed simp_all

lemma deterministic_id_prefixed: "prefixed p (deterministic_id seed p)"
  using id_chars_ulid(2) by (auto simp: prefixed_def deterministic_id_def Let_def startswith_def is_ulid_def list_all_iff id_chars_ulid(1))

lemma dvals_dset: "set (dvals (dset k v d)) \<subseteq> insert v (set (dvals d))"
  by (induction d) auto

text \<open>Every real id the command hands out is a node id of the contract.\<close>

definition ids_ok :: "(string, string) dict \<Rightarrow> bool" where
  "ids_ok id_map \<longleftrightarrow> (\<forall>k\<in>set (dvals id_map). valid_node_id k)"

lemma ids_ok_dset: "ids_ok m \<Longrightarrow> valid_node_id v \<Longrightarrow> ids_ok (dset k v m)"
  using dvals_dset[of k v m] by (fastforce simp: ids_ok_def)

lemma assign_tmp_ids: "assign_tmp cid nodes m iop = Inr m' \<Longrightarrow> ids_ok m \<Longrightarrow> ids_ok m'"
  by (auto simp: assign_tmp_def Let_def resolve_new_id_iff valid_node_id_def deterministic_id_prefixed intro!: ids_ok_dset
      split: prod.splits plan_op.splits if_splits)

lemma apply_op_ids:
  assumes step: "apply_op px command policy st iop = Inr st'" and ok: "ids_ok (snd (snd st))"
  shows "ids_ok (snd (snd st'))"
proof -
  obtain nodes edges m where st: "st = (nodes, edges, m)" using prod_cases3 by blast
  obtain nodes' edges' m' where st': "st' = (nodes', edges', m')" using prod_cases3 by blast
  obtain i op where iop: "iop = (i, op)" by fastforce
  show ?thesis
    using step ok unfolding st st' iop apply_op_def prod.case snd_conv
    by (cases op) (auto simp: valid_node_id_def deterministic_id_prefixed simp del: own_node_iff split: if_splits
        intro!: ids_ok_dset elim!: op_add_node_effect op_update_node_effect op_remove_node_effect op_add_edge_effect
          op_remove_edge_effect op_declare_blocked_effect)
qed

lemma run_ops_ids:
  assumes "run_ops px plan command policy = Inr (new_plan, id_map)"
  shows "ids_ok id_map"
proof -
  from assms obtain m nodes edges where
    first: "foldE (assign_tmp (pc_command_id command) (pl_nodes plan)) [] (enumerate 0 (pc_ops command)) = Inr m"
    and loop: "foldE (apply_op px command policy) (pl_nodes plan, pl_edges plan, m) (enumerate 0 (pc_ops command))
      = Inr (nodes, edges, id_map)"
    by (auto simp: run_ops_def Let_def)
  have "ids_ok []" by (simp add: ids_ok_def)
  with foldE_invariant[OF first] assign_tmp_ids have "ids_ok m" by metis
  with foldE_invariant[OF loop, of "\<lambda>st. ids_ok (snd (snd st))"] apply_op_ids show ?thesis by fastforce
qed

section \<open>The verdict\<close>

text \<open>The shape of an accepted plan: what the loop ended with, its dependencies refreshed.\<close>

lemma accepted_shape:
  assumes "plan_wf plan" and "accepted px plan command policy out"
  obtains m nodes edges where
    "foldE (apply_op px command policy) (pl_nodes plan, pl_edges plan, m) (enumerate 0 (pc_ops command))
       = Inr (nodes, edges, acc_id_map (po_result out))"
    "validate_graph nodes edges policy (pl_nodes plan) = Inr ()"
    "dict_ok nodes" "distinct edges" "pl_version (po_plan out) = pl_version plan + 1"
    "pl_nodes (po_plan out) = refresh_depends_on edges nodes" "pl_edges (po_plan out) = edges"
    "validate_budget (dvals (pl_nodes (po_plan out))) (pp_max_budget policy) = Inr ()"
proof -
  from assms(2) obtain m nodes edges where
    loop: "foldE (apply_op px command policy) (pl_nodes plan, pl_edges plan, m) (enumerate 0 (pc_ops command))
       = Inr (nodes, edges, acc_id_map (po_result out))"
    and rest: "validate_graph nodes edges policy (pl_nodes plan) = Inr ()"
      "po_plan out = build px (pl_version plan + 1) (refresh_depends_on edges nodes) edges"
      "validate_budget (dvals (refresh_depends_on edges nodes)) (pp_max_budget policy) = Inr ()"
    by (rule accepted_loop)
  have "dict_ok nodes" "distinct edges"
    using shape.ops_keep[OF loop] plan_wf_loop_ok[OF assms(1)] by (simp_all add: loop_ok_def)
  with loop rest that[of m nodes edges] show thesis by (simp add: distinct_remdups_id)
qed

text \<open>
  C1. The evaluator never fails and is atomic: on a well-formed plan, every command that satisfies the contract gets a
  verdict (no lookup and no \<^verbatim>\<open>next\<close> of the evaluator raises), and the verdict is either an acceptance or a rejection that
  leaves the plan exactly as it was and reports its version and hash.
\<close>
theorem plan_change_total:
  assumes "plan_wf plan" and "valid_command command"
  shows "\<exists>out. apply_command px plan command policy = Inr out \<and>
    (accepted px plan command policy out
     \<or> po_plan out = plan \<and> (\<exists>code detail. po_result out = PlanChangeRejected code detail (pl_version plan) (pl_hash plan)))"
proof (cases "\<exists>code detail. apply_command px plan command policy = Inr (reject plan code detail)")
  case True
  then show ?thesis by (auto simp: reject_def)
next
  case False
  with safe_run_ops[OF assms, of px policy] show ?thesis
    by (auto simp: accepted_def apply_command_def safe_def caught_def split: sum.splits plan_exn.splits if_splits)
qed

theorem plan_change_total_witness:
  "\<exists>out. apply_command demo_px demo_plan demo_command demo_policy = Inr out \<and>
    (accepted demo_px demo_plan demo_command demo_policy out
     \<or> po_plan out = demo_plan \<and>
       (\<exists>code detail. po_result out = PlanChangeRejected code detail (pl_version demo_plan) (pl_hash demo_plan)))"
  by (rule plan_change_total[OF demo_plan_wf demo_valid])

lemma accepted_wf:
  assumes "plan_wf plan" and "accepted px plan command policy out"
  shows "plan_wf (po_plan out)"
  using accepted_shape[OF assms]
proof cases
  case (1 m nodes edges)
  from 1(2) have "graph_ok (pp_max_chain policy) (fst ` set nodes) (set edges)"
    by (simp add: validate_graph_iff[OF 1(3,4)])
  with 1 show ?thesis by (auto simp: graph_ok_def plan_wf_def)
qed

text \<open>
  C2. An accepted command leaves a well-formed plan one version later: the keys and the edges are sets, every edge joins
  two nodes of the plan, there is no cycle, no chain of dependencies is longer than the policy's bound, and what each node
  says it depends on is what the edges say.
\<close>
theorem accepted_plan_wf:
  assumes "plan_wf plan" and "accepted px plan command policy out"
  shows "plan_wf (po_plan out) \<and> pl_version (po_plan out) = pl_version plan + 1
    \<and> (\<forall>n u v. (u, v) \<in> set (pl_edges (po_plan out)) ^^ n \<longrightarrow> n \<le> pp_max_chain policy)
    \<and> (\<forall>k s. dget (pl_nodes (po_plan out)) k = Some s \<longrightarrow>
         d_depends_on (ns_draft s) = dependencies_of (pl_edges (po_plan out)) k)"
  using accepted_shape[OF assms]
proof cases
  case (1 m nodes edges)
  from 1(2) have "graph_ok (pp_max_chain policy) (fst ` set nodes) (set edges)"
    by (simp add: validate_graph_iff[OF 1(3,4)])
  with 1 accepted_wf[OF assms] show ?thesis by (auto simp: graph_ok_def dget_refresh)
qed

theorem accepted_plan_wf_witness:
  "\<exists>out. accepted demo_px demo_plan demo_command demo_policy out \<and> plan_wf (po_plan out) \<and> pl_version (po_plan out) = 2"
  using demo_accepted accepted_plan_wf[OF demo_plan_wf] by fastforce

text \<open>
  C3. Frozen nodes are immutable: whatever an accepted command does, a node that was frozen before is in the new plan with
  the same status, attempts and author, the same draft up to its list of dependencies, and exactly the same edges into it.
\<close>
theorem accepted_keeps_frozen:
  assumes "plan_wf plan" and "accepted px plan command policy out" and "dget (pl_nodes plan) k = Some s" and "ns_frozen s"
  shows "in_edges (pl_edges (po_plan out)) k = in_edges (pl_edges plan) k
    \<and> dget (pl_nodes (po_plan out)) k
        = Some (s\<lparr>ns_draft := (ns_draft s)\<lparr>d_depends_on := dependencies_of (pl_edges (po_plan out)) k\<rparr>\<rparr>)"
  using accepted_shape[OF assms(1,2)]
proof cases
  case (1 m nodes edges)
  have "frozen_kept plan nodes edges"
    using frozen.ops_keep[OF 1(1), of plan] by (simp add: frozen_kept_def)
  with assms(3,4) have "dget nodes k = Some s" "in_edges edges k = in_edges (pl_edges plan) k"
    unfolding frozen_kept_def by blast+
  with 1(6,7) show ?thesis by (simp only: dget_refresh option.map)
qed

theorem accepted_keeps_frozen_witness:
  "\<exists>out s. accepted demo_px demo_plan demo_command demo_policy out \<and> dget (pl_nodes (po_plan out)) nA = Some s
    \<and> ns_status s = COMPLETED \<and> in_edges (pl_edges (po_plan out)) nA = {}"
proof -
  obtain out where out: "accepted demo_px demo_plan demo_command demo_policy out" using demo_accepted by auto
  have "dget (pl_nodes demo_plan) nA = Some (demo_node nA COMPLETED True)" "ns_frozen (demo_node nA COMPLETED True)"
    by (simp_all add: demo_node_def)
  from accepted_keeps_frozen[OF demo_plan_wf out this] out show ?thesis
    by (auto simp: in_edges_def demo_node_def fresh_node_def)
qed



text \<open>
  C33. The budget of a plan: in the plan an accepted command leaves, what the nodes that are not finished name for a limit
  adds up to no more than the policy's limit, for every limit the policy sets.
\<close>
theorem accepted_within_budget:
  assumes "plan_wf plan" and "accepted px plan command policy out" and "bget (pp_max_budget policy) f = Some limit"
  shows "sum_list (map (\<lambda>s. case bget (d_budget (ns_draft s)) f of None \<Rightarrow> 0 | Some v \<Rightarrow> v)
      (filter (\<lambda>s. ns_status s \<notin> {COMPLETED, SKIPPED, CANCELLED}) (dvals (pl_nodes (po_plan out))))) \<le> limit"
  using accepted_shape[OF assms(1,2)]
proof cases
  case (1 m nodes edges)
  have "counts_for_budget = (\<lambda>s. ns_status s \<notin> {COMPLETED, SKIPPED, CANCELLED})"
    by (simp add: counts_for_budget_def fun_eq_iff)
  with 1(8) assms(3) show ?thesis
    by (simp add: validate_budget_iff within_def budget_sum_def amount_def)
qed

theorem accepted_within_budget_witness:
  "\<exists>out. accepted demo_px demo_plan demo_command demo_policy out
    \<and> sum_list (map (\<lambda>s. case bget (d_budget (ns_draft s)) Tokens of None \<Rightarrow> 0 | Some v \<Rightarrow> v)
      (filter (\<lambda>s. ns_status s \<notin> {COMPLETED, SKIPPED, CANCELLED}) (dvals (pl_nodes (po_plan out))))) \<le> 10"
proof -
  obtain out where out: "accepted demo_px demo_plan demo_command demo_policy out" using demo_accepted by auto
  have "bget (pp_max_budget demo_policy) Tokens = Some 10" by simp
  from accepted_within_budget[OF demo_plan_wf out this] out show ?thesis by blast
qed

text \<open>
  Nesting: when an accepted command puts a node under a parent (or moves it there), the parent is a node of the plan or
  an archived one, and no chain of parents above the node is longer than the policy's depth; in particular it does not loop.
\<close>
theorem accepted_nesting:
  assumes "plan_wf plan" and "accepted px plan command policy out" and "pp_max_depth policy = Some m"
    and "(k, p) \<in> parent_rel (pl_nodes (po_plan out))" and "(k, p) \<notin> parent_rel (pl_nodes plan)"
  shows "(has_key (pl_nodes (po_plan out)) p \<or> p \<in> set (pp_archived_node_ids policy))
    \<and> (\<forall>x j. (k, x) \<in> parent_rel (pl_nodes (po_plan out)) ^^ j \<longrightarrow> j \<le> m)"
  using accepted_shape[OF assms(1,2)]
proof cases
  case (1 m' nodes edges)
  from assms(4) 1(6) obtain s where s: "dget nodes k = Some s" "d_parent_node_id (ns_draft s) = Some p"
    by (auto simp: parent_rel_def dget_refresh)
  have "validate_nesting nodes policy (pl_nodes plan) = Inr ()"
    using 1(2) by (simp add: validate_graph_iff[OF 1(3,4)])
  from validate_nesting_Inr[OF this 1(3) s assms(5)] assms(3) 1(6) show ?thesis by auto
qed

lemma demo_parent:
  assumes "accepted demo_px demo_plan demo_command demo_policy out"
  shows "(nD, nC) \<in> parent_rel (pl_nodes (po_plan out))" and "(nD, nC) \<notin> parent_rel (pl_nodes demo_plan)"
proof -
  show "(nD, nC) \<in> parent_rel (pl_nodes (po_plan out))"
    unfolding demo_accepted_nodes[OF assms] parent_rel_refresh by (simp add: parent_rel_def demo_nodes_def demo_draft_def fresh_node_def)
  show "(nD, nC) \<notin> parent_rel (pl_nodes demo_plan)" by (simp add: parent_rel_def)
qed

theorem accepted_nesting_witness:
  "\<exists>out. accepted demo_px demo_plan demo_command demo_policy out \<and> (nD, nC) \<in> parent_rel (pl_nodes (po_plan out))
    \<and> has_key (pl_nodes (po_plan out)) nC \<and> \<not> (\<exists>x j. 1 < j \<and> (nD, x) \<in> parent_rel (pl_nodes (po_plan out)) ^^ j)"
proof -
  obtain out where out: "accepted demo_px demo_plan demo_command demo_policy out" using demo_accepted by auto
  have "pp_max_depth demo_policy = Some 1" by simp
  note ok = accepted_nesting[OF demo_plan_wf out this demo_parent[OF out]]
  have "\<not> (1 < j \<and> (nD, x) \<in> parent_rel (pl_nodes (po_plan out)) ^^ j)" for x j using ok by (auto dest: leD)
  with ok demo_parent(1)[OF out] out show ?thesis by auto
qed

text \<open>
  The result an accepted command reports satisfies the contract: every id of its id map is a node id (\<open>n_\<close> and a ULID),
  and its version is the new plan's.
\<close>
theorem accepted_ids_valid:
  assumes "accepted px plan command policy out"
  shows "(\<forall>k\<in>set (dvals (acc_id_map (po_result out))). valid_node_id k)
    \<and> acc_plan_version (po_result out) = pl_version (po_plan out)"
  using run_ops_ids[OF accepted_run(1)[OF assms]] accepted_run(2)[OF assms] by (simp add: ids_ok_def)

theorem accepted_ids_valid_witness:
  "\<exists>out. accepted demo_px demo_plan demo_command demo_policy out
    \<and> list_all valid_node_id (dvals (acc_id_map (po_result out)))"
  unfolding list_all_iff using demo_accepted accepted_ids_valid by blast

end
