(* ===== verification/Plan_Compact.thy ===== *)
theory Plan_Compact
  imports Plan_Correct
begin

text \<open>
  The graph check against its specification, and compaction (\<^verbatim>\<open>_validate_graph\<close> and \<^verbatim>\<open>compact\<close> of
  \<^verbatim>\<open>orbit_orch/plan_engine.py\<close>).
\<close>

section \<open>The graph check\<close>

text \<open>
  C25. The topological sort decides exactly what the plan needs: the check passes if and only if every edge joins two nodes of
  the plan, the edges have no cycle, every path of edges is at most as long as the policy's bound, and the nesting check passes.
  The verdict does not depend on the order in which the set of edges is iterated.
\<close>
theorem graph_check_exact:
  assumes "dict_ok nodes" and "distinct edges" and "distinct edges'" and "set edges' = set edges"
  shows "(validate_graph nodes edges policy previous = Inr () \<longleftrightarrow>
      set edges \<subseteq> (fst ` set nodes) \<times> (fst ` set nodes) \<and> acyclic (set edges)
      \<and> (\<forall>n u v. (u, v) \<in> set edges ^^ n \<longrightarrow> n \<le> pp_max_chain policy) \<and> validate_nesting nodes policy previous = Inr ())
    \<and> (validate_graph nodes edges' policy previous = Inr () \<longleftrightarrow> validate_graph nodes edges policy previous = Inr ())"
  using validate_graph_iff[OF assms(1,2)] validate_graph_iff[OF assms(1,3)] assms(4) by (auto simp: graph_ok_def)

theorem graph_check_exact_witness:
  "validate_graph demo_nodes [(nA, nB), (nC, nB)] demo_policy (pl_nodes demo_plan) = Inr ()
   \<and> acyclic {(nA, nB), (nC, nB)}"
proof -
  have ok: "dict_ok demo_nodes" "distinct [(nC, nB), (nA, nB)]" "distinct [(nA, nB), (nC, nB)]"
    "set [(nA, nB), (nC, nB)] = set [(nC, nB), (nA, nB)]"
    by (auto simp: demo_nodes_def)
  have "set [(nC, nB), (nA, nB)] = {(nA, nB), (nC, nB)}" by auto
  with graph_check_exact[OF ok, of demo_policy "pl_nodes demo_plan"] demo_graph demo_policy_simps(4) show ?thesis by metis
qed

section \<open>Compaction\<close>

lemma set_candidates:
  "k \<in> set (compaction_candidates plan held keep_recent) \<Longrightarrow>
    k \<notin> set (needed_nodes plan held) \<and> (\<exists>s. (k, s) \<in> set (pl_nodes plan) \<and> ns_status s = COMPLETED \<and> ns_frozen s)"
  by (fastforce simp: compaction_candidates_def Let_def dest!: in_set_takeD)

lemma unfinished_iff: "k \<in> set (unfinished_nodes plan) \<longleftrightarrow> (\<exists>s. (k, s) \<in> set (pl_nodes plan) \<and> ns_status s \<notin> {COMPLETED, SKIPPED})"
  by (force simp: unfinished_nodes_def)

lemma map_filter_iff: "y \<in> set (List.map_filter f xs) \<longleftrightarrow> (\<exists>x\<in>set xs. f x = Some y)"
  by (force simp: List.map_filter_def)

lemma filter_take_drop: "filter P xs = filter P (take n xs) @ filter P (drop n xs)"
  by (simp flip: filter_append)

lemma needed_iff:
  "k \<in> set (needed_nodes plan held) \<longleftrightarrow> k \<in> set (unfinished_nodes plan) \<or> k \<in> set held
     \<or> (\<exists>t\<in>set (unfinished_nodes plan). (k, t) \<in> set (pl_edges plan))
     \<or> (\<exists>t s. (t, s) \<in> set (pl_nodes plan) \<and> t \<in> set (unfinished_nodes plan) \<and> d_parent_node_id (ns_draft s) = Some k)"
  by (fastforce simp: needed_nodes_def Let_def map_filter_iff image_iff split: if_splits)

text \<open>What is left: the nodes and the edges that name no removed node.\<close>

lemma compact_Some:
  assumes "compact px plan held keep_recent = Some c"
  defines "gone \<equiv> set (compaction_candidates plan held keep_recent)"
  shows "co_removed c = compaction_candidates plan held keep_recent" "pl_version (co_plan c) = pl_version plan + 1"
    "pl_nodes (co_plan c) = filter (\<lambda>(k, s). k \<notin> gone) (pl_nodes plan)"
    "set (pl_edges (co_plan c)) = {e \<in> set (pl_edges plan). fst e \<notin> gone \<and> snd e \<notin> gone}"
    "distinct (pl_edges (co_plan c))"
  using assms(1) by (auto simp: compact_def Let_def gone_def split: if_splits)

lemma compact_needed:
  assumes "compact px plan held keep_recent = Some c"
  shows "set (needed_nodes (co_plan c) held) = set (needed_nodes plan held)"
proof -
  note left = compact_Some[OF assms]
  let ?gone = "set (compaction_candidates plan held keep_recent)"
  have gone: "k \<in> ?gone \<Longrightarrow> k \<notin> set (needed_nodes plan held)" for k using set_candidates by blast
  then have "k \<in> ?gone \<Longrightarrow> k \<notin> set (unfinished_nodes plan)" for k by (simp add: needed_iff)
  then have un: "set (unfinished_nodes (co_plan c)) = set (unfinished_nodes plan)"
    unfolding set_eq_iff unfinished_iff left by auto
  have "k \<in> set (needed_nodes (co_plan c) held) \<longleftrightarrow> k \<in> set (needed_nodes plan held)" for k
    using gone[unfolded needed_iff] unfolding needed_iff un by (auto simp: left)
  then show ?thesis by blast
qed

text \<open>A plan with one node to archive, and what compaction makes of it.\<close>

definition demo_done :: plan_state where
  "demo_done = build demo_px 1 [(nA, demo_node nA COMPLETED True), (nC, demo_node nC READY False)] []"

lemma demo_done_compact: "\<exists>c. compact demo_px demo_done [] 0 = Some c \<and> co_removed c = [nA]" and demo_done_wf: "plan_wf demo_done"
proof -
  have nodes: "pl_nodes demo_done = [(nA, demo_node nA COMPLETED True), (nC, demo_node nC READY False)]" "pl_edges demo_done = []"
    by (simp_all add: demo_done_def)
  show "plan_wf demo_done" by (simp add: plan_wf_def nodes acyclic_def)
  have "compaction_candidates demo_done [] 0 = [nA]"
    by (simp add: compaction_candidates_def nodes needed_nodes_def unfinished_nodes_def demo_node_def fresh_node_def
        new_draft_def List.map_filter_def)
  then show "\<exists>c. compact demo_px demo_done [] 0 = Some c \<and> co_removed c = [nA]" by (simp add: compact_def)
qed

lemma compact_wf:
  assumes "plan_wf plan" and "compact px plan held keep_recent = Some c"
  shows "plan_wf (co_plan c)"
proof -
  note left = compact_Some[OF assms(2)]
  have ok: "dict_ok (pl_nodes plan)" and sub: "set (pl_edges plan) \<subseteq> (fst ` set (pl_nodes plan)) \<times> (fst ` set (pl_nodes plan))"
    and acyc: "acyclic (set (pl_edges plan))" using assms(1) by (auto simp: plan_wf_def)
  have "acyclic (set (pl_edges (co_plan c)))" using acyc by (rule acyclic_subset) (auto simp: left)
  moreover have "set (pl_edges (co_plan c)) \<subseteq> (fst ` set (pl_nodes (co_plan c))) \<times> (fst ` set (pl_nodes (co_plan c)))"
    using sub by (fastforce simp: left)
  ultimately show ?thesis using ok left by (simp add: plan_wf_def)
qed

text \<open>
  C26. Compaction only archives what is done: it takes out nodes that are completed and frozen and nothing else; every other
  node stays as it is; a node that is not finished, one that is held, what an unfinished node depends on and the node it is
  nested under all stay, with every edge into an unfinished node; the plan stays well formed and its version rises by one.
\<close>
theorem compact_archives_finished:
  assumes "plan_wf plan" and "compact px plan held keep_recent = Some c"
  shows "plan_wf (co_plan c) \<and> pl_version (co_plan c) = pl_version plan + 1 \<and> co_removed c \<noteq> []
    \<and> (\<forall>k\<in>set (co_removed c). \<exists>s. dget (pl_nodes plan) k = Some s \<and> ns_status s = COMPLETED \<and> ns_frozen s \<and> k \<notin> set held)
    \<and> (\<forall>k. dget (pl_nodes (co_plan c)) k = (if k \<in> set (co_removed c) then None else dget (pl_nodes plan) k))
    \<and> (\<forall>k s. dget (pl_nodes plan) k = Some s \<longrightarrow> ns_status s \<notin> {COMPLETED, SKIPPED} \<longrightarrow>
         {u. (u, k) \<in> set (pl_edges (co_plan c))} = {u. (u, k) \<in> set (pl_edges plan)}
         \<and> (\<forall>p. d_parent_node_id (ns_draft s) = Some p \<longrightarrow> p \<notin> set (co_removed c)))"
proof -
  note left = compact_Some[OF assms(2)]
  let ?gone = "set (compaction_candidates plan held keep_recent)"
  have ok: "dict_ok (pl_nodes plan)" using assms(1) by (simp add: plan_wf_def)
  have wf: "plan_wf (co_plan c)" by (rule compact_wf[OF assms])
  have some: "co_removed c \<noteq> []" using assms(2) left(1) by (auto simp: compact_def Let_def split: if_splits)
  have removed: "\<exists>s. dget (pl_nodes plan) k = Some s \<and> ns_status s = COMPLETED \<and> ns_frozen s \<and> k \<notin> set held"
    if "k \<in> set (co_removed c)" for k
    using set_candidates[of k plan held keep_recent] that dget_mem[OF ok] by (auto simp: left needed_iff)
  have kept: "dget (pl_nodes (co_plan c)) k = (if k \<in> set (co_removed c) then None else dget (pl_nodes plan) k)" for k
    by (simp add: left dget_dfilter_key)
  have unfinished: "{u. (u, k) \<in> set (pl_edges (co_plan c))} = {u. (u, k) \<in> set (pl_edges plan)}
      \<and> (\<forall>p. d_parent_node_id (ns_draft s) = Some p \<longrightarrow> p \<notin> set (co_removed c))"
    if s: "dget (pl_nodes plan) k = Some s" "ns_status s \<notin> {COMPLETED, SKIPPED}" for k s
  proof -
    have k: "k \<in> set (unfinished_nodes plan)" using s map_of_SomeD by (fastforce simp: unfinished_iff)
    then have "u \<notin> ?gone" if "(u, k) \<in> set (pl_edges plan) \<or> d_parent_node_id (ns_draft s) = Some u \<or> u = k" for u
      using that s map_of_SomeD set_candidates[of u plan held keep_recent] by (fastforce simp: needed_iff)
    then show ?thesis by (auto simp: left)
  qed
  show ?thesis using wf left(2) some removed kept unfinished by blast
qed

theorem compact_archives_finished_witness:
  "\<exists>c. compact demo_px demo_done [] 0 = Some c \<and> co_removed c = [nA] \<and> plan_wf (co_plan c) \<and> dget (pl_nodes (co_plan c)) nA = None"
proof -
  obtain c where c: "compact demo_px demo_done [] 0 = Some c" "co_removed c = [nA]" using demo_done_compact by blast
  from compact_archives_finished[OF demo_done_wf c(1)] c show ?thesis by simp
qed

text \<open>
  Compaction is stable: compacting the plan it leaves, with the same nodes held and as many recent ones kept, finds
  nothing more to archive.
\<close>
theorem compact_stable:
  assumes "compact px plan held keep_recent = Some c"
  shows "compact px (co_plan c) held keep_recent = None"
proof -
  note left = compact_Some[OF assms]
  let ?all = "\<lambda>p. map fst (filter (\<lambda>(k, s). ns_status s = COMPLETED \<and> ns_frozen s \<and> k \<notin> set (needed_nodes p held)) (pl_nodes p))"
  let ?n = "length (?all plan) - keep_recent" and ?gone = "set (compaction_candidates plan held keep_recent)"
  have gone: "?gone = set (take ?n (?all plan))" by (simp add: compaction_candidates_def Let_def)
  have "set (needed_nodes (co_plan c) held) = set (needed_nodes plan held)"
    using compact_needed[OF assms] by blast
  then have "?all (co_plan c) = filter (\<lambda>k. k \<notin> ?gone) (?all plan)"
    by (simp add: left filter_map comp_def case_prod_beta conj_commute conj_left_commute)
  also have "\<dots> = filter (\<lambda>k. k \<notin> ?gone) (take ?n (?all plan)) @ filter (\<lambda>k. k \<notin> ?gone) (drop ?n (?all plan))"
    by (rule filter_take_drop)
  also have "filter (\<lambda>k. k \<notin> ?gone) (take ?n (?all plan)) = []" by (simp add: gone filter_empty_conv)
  finally have "length (?all (co_plan c)) \<le> length (drop ?n (?all plan))" by (simp only: append_Nil length_filter_le)
  then have "compaction_candidates (co_plan c) held keep_recent = []" by (simp add: compaction_candidates_def Let_def)
  then show ?thesis by (simp add: compact_def)
qed

theorem compact_stable_witness:
  "\<exists>c. compact demo_px demo_done [] 0 = Some c \<and> compact demo_px (co_plan c) [] 0 = None"
  using demo_done_compact compact_stable by blast

end
