(* ===== verification/Plan_Refines.thy ===== *)
theory Plan_Refines
  imports Plan_Verdict
begin

text \<open>
  The plan engine as an editor of graphs. The specification is a set of node ids with a set of edges and the six edits a caller
  may ask for; \<open>apply\<close> (\<^verbatim>\<open>orbit_orch/plan_engine.py\<close>), with its temporary ids, archived nodes, dictionaries and edge lists,
  refines it: an accepted command is the run of its edits, in order, on the graph of the plan.
\<close>

section \<open>The specification\<close>

record graph =
  g_nodes :: "string set"
  g_edges :: "(string \<times> string) set"

datatype edit = Insert string "string set" | Keep string | Delete string | Link string string | Unlink string string | Nothing

text \<open>An edit of a graph; \<open>None\<close> when it names a node that is not there, or inserts one that is.\<close>

primrec edit_graph :: "edit \<Rightarrow> graph \<Rightarrow> graph option" where
  "edit_graph (Insert k ds) g = (if k \<in> g_nodes g then None
     else Some \<lparr>g_nodes = insert k (g_nodes g), g_edges = g_edges g \<union> (\<lambda>d. (d, k)) ` ds\<rparr>)"
| "edit_graph (Keep k) g = (if k \<in> g_nodes g then Some g else None)"
| "edit_graph (Delete k) g = (if k \<in> g_nodes g
     then Some \<lparr>g_nodes = g_nodes g - {k}, g_edges = {e \<in> g_edges g. fst e \<noteq> k \<and> snd e \<noteq> k}\<rparr> else None)"
| "edit_graph (Link a b) g = (if a \<in> g_nodes g \<and> b \<in> g_nodes g then Some (g\<lparr>g_edges := insert (a, b) (g_edges g)\<rparr>) else None)"
| "edit_graph (Unlink a b) g = (if a \<in> g_nodes g \<and> b \<in> g_nodes g then Some (g\<lparr>g_edges := g_edges g - {(a, b)}\<rparr>) else None)"
| "edit_graph Nothing g = Some g"

primrec edit_all :: "edit list \<Rightarrow> graph \<Rightarrow> graph option" where
  "edit_all [] g = Some g"
| "edit_all (x # xs) g = (case edit_graph x g of None \<Rightarrow> None | Some h \<Rightarrow> edit_all xs h)"

definition graph_of :: "plan_state \<Rightarrow> graph" where
  "graph_of plan = \<lparr>g_nodes = fst ` set (pl_nodes plan), g_edges = set (pl_edges plan)\<rparr>"

text \<open>
  The edit an operation asks for, with the ids its references stand for. A dependency on a node that is archived is no edge: it is
  done.
\<close>

definition names :: "(string, string) dict \<Rightarrow> string list \<Rightarrow> string set" where
  "names id_map refs = {k. \<exists>r\<in>set refs. resolve_ref id_map r = Inr k}"

definition asks :: "(string, string) dict \<Rightarrow> plan_policy \<Rightarrow> plan_op \<Rightarrow> edit \<Rightarrow> bool" where
  "asks id_map policy op edit = (case op of
     AddNodeOp d \<Rightarrow> (\<exists>k ds. edit = Insert k ds \<and> resolve_ref id_map (d_node_id d) = Inr k
        \<and> ds \<subseteq> names id_map (d_depends_on d) \<and> names id_map (d_depends_on d) - ds \<subseteq> set (pp_archived_node_ids policy))
   | UpdateNodeOp r p \<Rightarrow> (\<exists>k. edit = Keep k \<and> resolve_ref id_map r = Inr k)
   | RemoveNodeOp r \<Rightarrow> (\<exists>k. edit = Delete k \<and> resolve_ref id_map r = Inr k)
   | AddEdgeOp a b \<Rightarrow> (\<exists>s t. resolve_ref id_map a = Inr s \<and> resolve_ref id_map b = Inr t
        \<and> (edit = Link s t \<or> edit = Nothing \<and> s \<in> set (pp_archived_node_ids policy)))
   | RemoveEdgeOp a b \<Rightarrow> (\<exists>s t. edit = Unlink s t \<and> resolve_ref id_map a = Inr s \<and> resolve_ref id_map b = Inr t)
   | DeclareBlockedOp r reason \<Rightarrow> (\<exists>k. edit = Keep k \<and> resolve_ref id_map r = Inr k))"

section \<open>Temporary ids\<close>

text \<open>The first loop gives every temporary id its real one; the second gives it the same one.\<close>

definition new_id :: "plan_change_command \<Rightarrow> nat \<Rightarrow> task_node_draft \<Rightarrow> string" where
  "new_id command i d = deterministic_id (pc_command_id command @ '':'' @ d_node_id d @ '':'' @ nat_str i) ''n''"

definition assigned :: "plan_change_command \<Rightarrow> (string, string) dict \<Rightarrow> nat \<times> plan_op \<Rightarrow> bool" where
  "assigned command id_map p = (case snd p of AddNodeOp d \<Rightarrow> is_tmp (d_node_id d) \<longrightarrow> dget id_map (d_node_id d) = Some (new_id command (fst p) d) | _ \<Rightarrow> True)"

lemma assign_step:
  assumes "assign_tmp (pc_command_id command) nodes m p = Inr m1"
  shows "assigned command m1 p \<and> (\<forall>r v. dget m r = Some v \<longrightarrow> dget m1 r = Some v)"
  using assms
  by (cases p; cases "snd p")
    (auto simp: assign_tmp_def assigned_def new_id_def Let_def resolve_new_id_iff bindE_eq_Inr dget_dset has_key_dget split: if_splits)

lemma assign_all:
  assumes "foldE (assign_tmp (pc_command_id command) nodes) m ps = Inr m1"
  shows "list_all (assigned command m1) ps \<and> (\<forall>r v. dget m r = Some v \<longrightarrow> dget m1 r = Some v)"
  using assms
proof (induction ps arbitrary: m)
  case (Cons p ps)
  then obtain m2 where m2: "assign_tmp (pc_command_id command) nodes m p = Inr m2" "foldE (assign_tmp (pc_command_id command) nodes) m2 ps = Inr m1"
    by (auto simp: bindE_eq_Inr)
  have s: "assigned command m2 p" "\<forall>r v. dget m r = Some v \<longrightarrow> dget m2 r = Some v" using assign_step[OF m2(1)] by auto
  have r: "list_all (assigned command m1) ps" "\<forall>r v. dget m2 r = Some v \<longrightarrow> dget m1 r = Some v" using Cons.IH[OF m2(2)] by auto
  have "assigned command m1 p" using s(1) r(2) by (auto simp: assigned_def split: plan_op.splits)
  then show ?case using s(2) r by simp
qed simp

section \<open>The operations\<close>

lemma dget_None: "dget d k = None \<longleftrightarrow> k \<notin> fst ` set d"
  by (rule map_of_eq_None_iff)

lemma dget_in: "dget d k = Some v \<Longrightarrow> k \<in> fst ` set d"
  using dget_None[of d k] by simp

lemma resolve_cong: "dget m' = dget m \<Longrightarrow> resolve_ref m' = resolve_ref m"
  by (rule ext) (simp add: resolve_ref_def)

lemma mapE_names: "mapE (resolve_ref m) refs = Inr ks \<Longrightarrow> set ks = names m refs"
  by (induction refs arbitrary: ks) (auto simp: names_def bindE_eq_Inr)

lemma add_refines:
  assumes "op_add_node command policy i d (nodes, edges, m) = Inr (nodes', edges', m')" "assigned command m (i, AddNodeOp d)"
  shows "dget m' = dget m \<and> (\<exists>x. asks m policy (AddNodeOp d) x
    \<and> edit_graph x \<lparr>g_nodes = fst ` set nodes, g_edges = set edges\<rparr> = Some \<lparr>g_nodes = fst ` set nodes', g_edges = set edges'\<rparr>)"
proof -
  from assms(1) obtain k refs parent draft where *: "resolve_new_id (d_node_id d) (pc_command_id command) i nodes = Inr k"
      "m' = (if is_tmp (d_node_id d) then dset (d_node_id d) k m else m)" "mapE (resolve_ref m') (d_depends_on d) = Inr refs"
      "with_defaults (d\<lparr>d_node_id := k, d_depends_on := live_refs nodes m' policy refs, d_parent_node_id := parent\<rparr>) = Inr draft"
      "nodes' = dset k (fresh_node draft PENDING (Some (a_id (pc_actor command)))) nodes"
      "edges' = foldl (\<lambda>es dependency. sadd (dependency, k) es) edges (d_depends_on draft)"
    by (auto simp: op_add_node_def Let_def bindE_eq_Inr)
  have k: "k \<notin> fst ` set nodes" "k = (if is_tmp (d_node_id d) then new_id command i d else d_node_id d)"
    using *(1) dget_None[of nodes k] unfolding resolve_new_id_iff new_id_def has_key_dget by auto
  have m: "dget m' = dget m" using assms(2) *(2) k(2) by (auto simp: assigned_def dget_dset fun_eq_iff)
  have own: "resolve_ref m (d_node_id d) = Inr k" using assms(2) k(2) by (auto simp: assigned_def resolve_ref_def)
  have deps: "set (d_depends_on draft) = set (live_refs nodes m' policy refs)" using with_defaults_id(2)[OF *(4)] by simp
  have refs: "set refs = names m (d_depends_on d)" using mapE_names *(3) resolve_cong[OF m] by simp
  have "asks m policy (AddNodeOp d) (Insert k (set (d_depends_on draft)))"
    using own refs deps by (auto simp: asks_def live_refs_def)
  then show ?thesis using m k(1) *(5,6) by (intro conjI exI[of _ "Insert k (set (d_depends_on draft))"]) (auto simp: keys_dset_set set_add_edges)
qed

text \<open>An operation that succeeded is the edit it asks for, and the ids stand for what they stood for.\<close>

lemma op_refines:
  assumes "apply_op px command policy (nodes, edges, m) p = Inr (nodes', edges', m')" "assigned command m p"
  shows "dget m' = dget m \<and> (\<exists>x. asks m policy (snd p) x
    \<and> edit_graph x \<lparr>g_nodes = fst ` set nodes, g_edges = set edges\<rparr> = Some \<lparr>g_nodes = fst ` set nodes', g_edges = set edges'\<rparr>)"
proof -
  obtain i op where p: "p = (i, op)" by force
  let ?g = "\<lparr>g_nodes = fst ` set nodes, g_edges = set edges\<rparr>" and ?h = "\<lparr>g_nodes = fst ` set nodes', g_edges = set edges'\<rparr>"
  have keep: "edit_graph (Keep k) ?g = Some \<lparr>g_nodes = fst ` set (dset k st nodes), g_edges = set edges\<rparr>" if "dget nodes k = Some v" for k v st
    using dget_in[OF that] by (auto simp only: edit_graph.simps keys_dset_set graph.select_convs insert_absorb if_True)
  show ?thesis
  proof (cases op)
    case (AddNodeOp d)
    then show ?thesis using add_refines[of command policy i d nodes edges m nodes' edges' m'] assms p by (simp add: apply_op_def)
  next
    case (UpdateNodeOp r patch)
    then obtain k s draft where k: "resolve_ref m r = Inr k" "dget nodes k = Some s" "nodes' = dset k (s\<lparr>ns_draft := draft\<rparr>) nodes" "edges' = edges" "m' = m"
      using assms(1) p by (auto simp: apply_op_def elim: op_update_node_effect)
    then show ?thesis using keep[OF k(2)] UpdateNodeOp p by (intro conjI exI[of _ "Keep k"]) (simp_all add: asks_def del: edit_graph.simps)
  next
    case (RemoveNodeOp r)
    then obtain k s where k: "resolve_ref m r = Inr k" "dget nodes k = Some s" "nodes' = dpop k nodes"
        "edges' = filter (\<lambda>e. fst e \<noteq> k \<and> snd e \<noteq> k) edges" "m' = m"
      using assms(1) p by (auto simp: apply_op_def elim: op_remove_node_effect)
    have "edit_graph (Delete k) ?g = Some ?h" unfolding k(3,4) keys_dpop_set using dget_in[OF k(2)] by (simp only: edit_graph.simps graph.select_convs if_True set_filter)
    then show ?thesis using k RemoveNodeOp p by (intro conjI exI[of _ "Delete k"]) (simp_all add: asks_def del: edit_graph.simps)
  next
    case (AddEdgeOp a b)
    then obtain s t where st: "resolve_ref m a = Inr s" "resolve_ref m b = Inr t" "nodes' = nodes" "m' = m"
        "s \<in> set (pp_archived_node_ids policy) \<and> edges' = edges \<or> (\<exists>v w. dget nodes s = Some v \<and> dget nodes t = Some w) \<and> edges' = sadd (s, t) edges"
      using assms(1) p by (auto simp: apply_op_def op_add_edge_def bindE_eq_Inr split: if_splits)
    from st(5) show ?thesis
    proof (elim disjE conjE exE)
      assume "s \<in> set (pp_archived_node_ids policy)" "edges' = edges"
      then show ?thesis using st AddEdgeOp p by (intro conjI exI[of _ Nothing]) (simp_all add: asks_def)
    next
      fix v w
      assume "dget nodes s = Some v" "dget nodes t = Some w" "edges' = sadd (s, t) edges"
      moreover from this have "edit_graph (Link s t) ?g = Some ?h" unfolding st(3) using dget_in[of nodes s v] dget_in[of nodes t w] by simp
      ultimately show ?thesis using st AddEdgeOp p by (intro conjI exI[of _ "Link s t"]) (simp_all add: asks_def del: edit_graph.simps)
    qed
  next
    case (RemoveEdgeOp a b)
    then obtain s t v w where st: "resolve_ref m a = Inr s" "resolve_ref m b = Inr t" "nodes' = nodes" "m' = m"
        "dget nodes s = Some v" "dget nodes t = Some w" "edges' = sdiscard (s, t) edges"
      using assms(1) p by (auto simp: apply_op_def op_remove_edge_def bindE_eq_Inr Let_def)
    then have "edit_graph (Unlink s t) ?g = Some ?h" using dget_in[of nodes s v] dget_in[of nodes t w] by auto
    then show ?thesis using st RemoveEdgeOp p by (intro conjI exI[of _ "Unlink s t"]) (simp_all add: asks_def del: edit_graph.simps)
  next
    case (DeclareBlockedOp r reason)
    then obtain k s where k: "resolve_ref m r = Inr k" "dget nodes k = Some s" "nodes' = dset k (s\<lparr>ns_status := BLOCKED\<rparr>) nodes" "edges' = edges" "m' = m"
      using assms(1) p by (auto simp: apply_op_def op_declare_blocked_def bindE_eq_Inr)
    then show ?thesis using keep[OF k(2)] DeclareBlockedOp p by (intro conjI exI[of _ "Keep k"]) (simp_all add: asks_def del: edit_graph.simps)
  qed
qed

lemma ops_refine:
  assumes "foldE (apply_op px command policy) (nodes, edges, m) ps = Inr (nodes', edges', m')" "list_all (assigned command m) ps"
  shows "dget m' = dget m \<and> (\<exists>xs. list_all2 (asks m policy) (map snd ps) xs
    \<and> edit_all xs \<lparr>g_nodes = fst ` set nodes, g_edges = set edges\<rparr> = Some \<lparr>g_nodes = fst ` set nodes', g_edges = set edges'\<rparr>)"
  using assms
proof (induction ps arbitrary: nodes edges m)
  case (Cons p ps)
  from Cons.prems(1) obtain n1 e1 m1 where st: "apply_op px command policy (nodes, edges, m) p = Inr (n1, e1, m1)"
      "foldE (apply_op px command policy) (n1, e1, m1) ps = Inr (nodes', edges', m')" by (auto simp: bindE_eq_Inr)
  obtain x where x: "dget m1 = dget m" "asks m policy (snd p) x"
      "edit_graph x \<lparr>g_nodes = fst ` set nodes, g_edges = set edges\<rparr> = Some \<lparr>g_nodes = fst ` set n1, g_edges = set e1\<rparr>"
    using op_refines[OF st(1)] Cons.prems(2) by auto
  have same: "assigned command m1 = assigned command m" "asks m1 policy = asks m policy"
    using x(1) resolve_cong[OF x(1)] by (auto simp: assigned_def asks_def names_def fun_eq_iff split: plan_op.split)
  obtain xs where "dget m' = dget m1" "list_all2 (asks m policy) (map snd ps) xs"
      "edit_all xs \<lparr>g_nodes = fst ` set n1, g_edges = set e1\<rparr> = Some \<lparr>g_nodes = fst ` set nodes', g_edges = set edges'\<rparr>"
    using Cons.IH[OF st(2)] Cons.prems(2) same by auto
  then show ?case using x by (intro conjI exI[of _ "x # xs"]) auto
qed auto

text \<open>C5. The plan engine refines the editor of graphs: an accepted command is exactly the run of the edits its operations ask for, one
  by one and in order, on the graph of the plan before it, with every temporary id standing for the id the answer reports; the graph of
  the new plan is the result, and it has no cycle. Nothing else of the graph changes.\<close>

theorem apply_refines_edits:
  assumes "plan_wf plan" "accepted px plan command policy out"
  shows "\<exists>edits. list_all2 (asks (acc_id_map (po_result out)) policy) (pc_ops command) edits
    \<and> edit_all edits (graph_of plan) = Some (graph_of (po_plan out)) \<and> acyclic (g_edges (graph_of (po_plan out)))"
proof -
  let ?m = "acc_id_map (po_result out)" and ?ps = "enumerate 0 (pc_ops command)"
  obtain id0 nodes edges where a: "foldE (assign_tmp (pc_command_id command) (pl_nodes plan)) [] ?ps = Inr id0"
      "foldE (apply_op px command policy) (pl_nodes plan, pl_edges plan, id0) ?ps = Inr (nodes, edges, ?m)"
      "po_plan out = build px (pl_version plan + 1) (refresh_depends_on edges nodes) edges"
    using accepted_run(1)[OF assms(2)] by (auto simp: run_ops_def Let_def bindE_eq_Inr)
  obtain xs where xs: "dget ?m = dget id0" "list_all2 (asks id0 policy) (map snd ?ps) xs"
      "edit_all xs \<lparr>g_nodes = fst ` set (pl_nodes plan), g_edges = set (pl_edges plan)\<rparr> = Some \<lparr>g_nodes = fst ` set nodes, g_edges = set edges\<rparr>"
    using ops_refine[OF a(2)] assign_all[OF a(1)] by blast
  have "asks ?m policy = asks id0 policy" using resolve_cong[OF xs(1)] by (auto simp: asks_def names_def fun_eq_iff split: plan_op.split)
  moreover have "acyclic (g_edges (graph_of (po_plan out)))" using accepted_wf[OF assms] by (simp add: plan_wf_def graph_of_def)
  ultimately show ?thesis using xs(2,3) a(3) by (intro exI[of _ xs]) (simp add: graph_of_def)
qed

theorem apply_refines_edits_witness:
  "\<exists>out edits. accepted demo_px demo_plan demo_command demo_policy out \<and> length edits = 2
     \<and> edit_all edits (graph_of demo_plan) = Some (graph_of (po_plan out))"
proof -
  obtain out where out: "accepted demo_px demo_plan demo_command demo_policy out" using demo_accepted by auto
  have "length (pc_ops demo_command) = 2" by (simp add: demo_command_def)
  with apply_refines_edits[OF demo_plan_wf out] show ?thesis using out by (metis list_all2_lengthD)
qed

end
