(* ===== verification/Budgets.thy ===== *)
theory Budgets
  imports Contracts
begin

text \<open>
  \<^verbatim>\<open>orbit_orch/budgets.py\<close> and \<open>budget_add\<close> of \<^verbatim>\<open>workflow_common.py\<close>: what is left of a task's budget, what an attempt
  reserves and what it spent. A dict over \<open>FIELDS\<close> is a function of the field. The keyword arguments of \<open>Budget(**values)\<close>
  are \<open>budget_of\<close>.
\<close>

definition budget_of :: "(budget_field \<Rightarrow> nat option) \<Rightarrow> budget" where
  "budget_of values = \<lparr>b_tokens = values Tokens, b_tool_calls = values ToolCalls, b_wall_s = values WallS,
     b_cost_usd_micros = values CostUsdMicros\<rparr>"

lemma bget_budget_of [simp]: "bget (budget_of values) f = values f"
  by (cases f) (simp_all add: budget_of_def)

primrec usage_field :: "usage \<Rightarrow> budget_field \<Rightarrow> nat option" where
  "usage_field u Tokens = Some (u_tokens_in u + u_tokens_out u)"
| "usage_field u ToolCalls = Some (u_tool_calls u)"
| "usage_field u WallS = Some (u_wall_s u)"
| "usage_field u CostUsdMicros = u_cost_usd_micros u"

definition spent :: "usage \<Rightarrow> budget_field \<Rightarrow> nat" where
  "spent usage field = (case usage_field usage field of None \<Rightarrow> 0 | Some v \<Rightarrow> v)"

definition or_zero :: "nat option \<Rightarrow> nat" where
  "or_zero v = (case v of None \<Rightarrow> 0 | Some n \<Rightarrow> n)"

lemma or_zero_simps [simp]: "or_zero None = 0" "or_zero (Some n) = n"
  by (simp_all add: or_zero_def)

definition usage_add :: "usage \<Rightarrow> usage \<Rightarrow> usage" where
  "usage_add left right =
     (let cost = (if u_cost_usd_micros left = None \<and> u_cost_usd_micros right = None then None
                  else Some (or_zero (u_cost_usd_micros left) + or_zero (u_cost_usd_micros right)))
      in \<lparr>u_tokens_in = u_tokens_in left + u_tokens_in right, u_tokens_out = u_tokens_out left + u_tokens_out right,
          u_tool_calls = u_tool_calls left + u_tool_calls right, u_wall_s = u_wall_s left + u_wall_s right,
          u_cost_usd_micros = cost\<rparr>)"

definition is_empty :: "usage \<Rightarrow> bool" where
  "is_empty usage \<longleftrightarrow> \<not> list_ex (\<lambda>f. spent usage f \<noteq> 0) FIELDS"

definition add_reservation :: "(budget_field \<Rightarrow> nat) \<Rightarrow> budget \<Rightarrow> budget_field \<Rightarrow> nat" where
  "add_reservation totals reservation =
     foldl (\<lambda>t f. case bget reservation f of None \<Rightarrow> t | Some v \<Rightarrow> t(f := t f + v)) totals FIELDS"

definition reserved_total :: "budget list \<Rightarrow> budget_field \<Rightarrow> nat" where
  "reserved_total reservations = foldl add_reservation (\<lambda>_. 0) reservations"

text \<open>\<open>max(0, a - b - c)\<close> of the source is the subtraction of natural numbers.\<close>

definition remaining :: "budget \<Rightarrow> usage \<Rightarrow> budget list \<Rightarrow> budget_field \<Rightarrow> nat option" where
  "remaining limits usage reservations =
     (let held = reserved_total reservations
      in (\<lambda>f. case bget limits f of None \<Rightarrow> None | Some limit \<Rightarrow> Some (limit - spent usage f - held f)))"

text \<open>One round of the loop of \<open>reserve\<close>: what one field takes, or why it cannot.\<close>

definition reserve_field ::
  "budget \<Rightarrow> (budget_field \<Rightarrow> nat option) \<Rightarrow> nat \<Rightarrow> (budget_field \<Rightarrow> nat option) \<Rightarrow> budget_field \<Rightarrow> string + nat option" where
  "reserve_field node_budget left share pool f =
     (case (bget node_budget f, left f) of
        (Some wanted, Some room) \<Rightarrow>
          if room < wanted then Inl (field_str f @ '': the node needs '' @ nat_str wanted @ '' and '' @ nat_str room @ '' is left'')
          else Inr (Some wanted)
      | (Some wanted, None) \<Rightarrow> Inr (Some wanted)
      | (None, None) \<Rightarrow> Inr None
      | (None, Some room) \<Rightarrow>
          if room = 0 then Inl (field_str f @ '': nothing is left'')
          else (let part = or_zero (pool f) div max 1 share in Inr (Some (min room (if part = 0 then room else part)))))"

definition reserve ::
  "budget \<Rightarrow> (budget_field \<Rightarrow> nat option) \<Rightarrow> nat \<Rightarrow> (budget_field \<Rightarrow> nat option) option \<Rightarrow> string + budget" where
  "reserve node_budget left share pool0 =
     (let pool = (case pool0 of None \<Rightarrow> left | Some p \<Rightarrow> p) in
      bindE (foldE (\<lambda>values f. bindE (reserve_field node_budget left share pool f) (\<lambda>v. Inr (values(f := v)))) (\<lambda>_. None) FIELDS)
        (\<lambda>values. Inr (budget_of values)))"

definition after :: "budget \<Rightarrow> usage \<Rightarrow> budget" where
  "after budget usage = budget_of (\<lambda>f. case bget budget f of None \<Rightarrow> None | Some v \<Rightarrow> Some (v - spent usage f))"

definition budget_add :: "budget \<Rightarrow> budget \<Rightarrow> budget" where
  "budget_add a b = budget_of (\<lambda>f. if bget a f = None \<and> bget b f = None then None
     else Some (or_zero (bget a f) + or_zero (bget b f)))"

section \<open>What the functions compute\<close>

lemma distinct_FIELDS [simp]: "distinct FIELDS"
  by (simp add: FIELDS_def)

lemma spent_usage_add [simp]: "spent (usage_add u v) f = spent u f + spent v f"
  by (cases f) (auto simp: spent_def usage_add_def Let_def split: option.split)

lemma is_empty_iff: "is_empty u \<longleftrightarrow> (\<forall>f. spent u f = 0)"
  by (auto simp: is_empty_def list_ex_iff)

lemma add_reservation_eq [simp]: "add_reservation totals r f = totals f + or_zero (bget r f)"
proof -
  have "foldl (\<lambda>t f. case bget r f of None \<Rightarrow> t | Some v \<Rightarrow> t(f := t f + v)) totals fs f
      = totals f + (if f \<in> set fs then or_zero (bget r f) else 0)" if "distinct fs" for fs totals
    using that by (induction fs arbitrary: totals) (auto split: option.split)
  from this[OF distinct_FIELDS] show ?thesis by (simp add: add_reservation_def)
qed

lemma reserved_total_eq: "reserved_total rs f = sum_list (map (\<lambda>r. or_zero (bget r f)) rs)"
proof -
  have "foldl add_reservation totals rs f = totals f + sum_list (map (\<lambda>r. or_zero (bget r f)) rs)" for totals
    by (induction rs arbitrary: totals) simp_all
  then show ?thesis by (simp add: reserved_total_def)
qed

lemma reserve_loop:
  assumes "foldE (\<lambda>vs f. bindE (g f) (\<lambda>v. Inr (vs(f := v)))) vs fs = Inr out" and "distinct fs"
  shows "(\<forall>f\<in>set fs. g f = Inr (out f)) \<and> (\<forall>f. f \<notin> set fs \<longrightarrow> out f = vs f)"
  using assms
proof (induction fs arbitrary: vs)
  case (Cons x fs)
  from Cons.prems(1) obtain v where v: "g x = Inr v"
    and rest: "foldE (\<lambda>vs f. bindE (g f) (\<lambda>v. Inr (vs(f := v)))) (vs(x := v)) fs = Inr out"
    by (auto simp del: fun_upd_apply)
  from Cons.IH[OF rest] Cons.prems(2) v show ?case by auto
qed simp

lemma reserve_Inr:
  assumes "reserve nb left share pool = Inr b"
  shows "reserve_field nb left share (case pool of None \<Rightarrow> left | Some p \<Rightarrow> p) f = Inr (bget b f)"
proof -
  from assms obtain vals where
    vals: "foldE (\<lambda>values f. bindE (reserve_field nb left share (case pool of None \<Rightarrow> left | Some p \<Rightarrow> p) f) (\<lambda>v. Inr (values(f := v))))
      (\<lambda>_. None) FIELDS = Inr vals" and b: "b = budget_of vals"
    by (auto simp: reserve_def Let_def)
  from reserve_loop[OF vals] show ?thesis by (simp add: b)
qed

lemma reserve_field_le:
  "reserve_field nb left share pool f = Inr v \<Longrightarrow> left f = Some room \<Longrightarrow> \<exists>n. v = Some n \<and> n \<le> room \<and> (bget nb f = None \<longrightarrow> 0 < n)"
proof (cases "bget nb f")
  case None
  let ?part = "or_zero (pool f) div max 1 share"
  assume "left f = Some room" "reserve_field nb left share pool f = Inr v"
  with None have "room \<noteq> 0" "v = Some (min room (if ?part = 0 then room else ?part))"
    by (simp_all add: reserve_field_def Let_def split: if_splits)
  then show ?thesis by simp
next
  case (Some w)
  assume "left f = Some room" "reserve_field nb left share pool f = Inr v"
  with Some have "v = Some w" "w \<le> room" by (simp_all add: reserve_field_def split: if_splits)
  with Some show ?thesis by simp
qed

lemma reserve_le:
  assumes "reserve nb left share pool = Inr b" and "left f = Some room"
  shows "or_zero (bget b f) \<le> room" and "bget nb f = None \<Longrightarrow> 0 < or_zero (bget b f)"
  using reserve_field_le[OF reserve_Inr[OF assms(1)] assms(2)] by auto

lemma reserve_named: "reserve nb left share pool = Inr b \<Longrightarrow> bget nb f = Some w \<Longrightarrow> bget b f = Some w"
  using reserve_Inr[of nb left share pool b f] by (auto simp: reserve_field_def split: option.splits if_splits)

section \<open>Properties\<close>

text \<open>
  C39. A task never hands out what it does not have: when a reservation is granted from what is left, then for every limit of
  the task, what was spent, what the running attempts hold and the new reservation together stay within the limit, unless the
  task was over it already and the node asked for nothing of that kind; what the node names is reserved as named, and what it
  leaves open is more than nothing.
\<close>
theorem reserve_never_overcommits:
  assumes "reserve node_budget (remaining limits usage held) share pool = Inr b" and "bget limits f = Some limit"
  shows "(spent usage f + reserved_total (b # held) f \<le> limit \<or> bget b f = Some 0 \<and> bget node_budget f = Some 0)
    \<and> (\<forall>w. bget node_budget f = Some w \<longrightarrow> bget b f = Some w)
    \<and> (bget node_budget f = None \<longrightarrow> (\<exists>n>0. bget b f = Some n))"
proof -
  let ?room = "limit - spent usage f - reserved_total held f"
  have room: "remaining limits usage held f = Some ?room" using assms(2) by (simp add: remaining_def Let_def)
  from reserve_field_le[OF reserve_Inr[OF assms(1)] room] obtain n where
    n: "bget b f = Some n" "n \<le> ?room" "bget node_budget f = None \<longrightarrow> 0 < n" by auto
  have named: "bget node_budget f = Some w \<Longrightarrow> bget b f = Some w" for w using reserve_named[OF assms(1)] .
  have total: "reserved_total (b # held) f = n + reserved_total held f" using n(1) by (simp add: reserved_total_eq)
  have "spent usage f + reserved_total (b # held) f \<le> limit" if "n \<noteq> 0" using that n(2) total by linarith
  moreover have "bget node_budget f = Some 0" if "n = 0" using that n named by (cases "bget node_budget f") auto
  ultimately show ?thesis using n named by (cases "n = 0") auto
qed

theorem reserve_never_overcommits_witness:
  "\<exists>b. reserve no_budget (remaining (no_budget\<lparr>b_tokens := Some 10\<rparr>) no_usage [no_budget\<lparr>b_tokens := Some 3\<rparr>]) 1 None = Inr b
    \<and> spent no_usage Tokens + reserved_total [b, no_budget\<lparr>b_tokens := Some 3\<rparr>] Tokens \<le> 10"
proof -
  have eval: "reserve no_budget (remaining (no_budget\<lparr>b_tokens := Some 10\<rparr>) no_usage [no_budget\<lparr>b_tokens := Some 3\<rparr>]) 1 None
      = Inr (no_budget\<lparr>b_tokens := Some 7\<rparr>)"
    by (simp add: reserve_def remaining_def reserve_field_def FIELDS_def reserved_total_eq spent_def no_usage_def no_budget_def
        budget_of_def Let_def max_def)
  have "bget (no_budget\<lparr>b_tokens := Some 10\<rparr>) Tokens = Some 10" by simp
  from reserve_never_overcommits[OF eval this] eval show ?thesis by simp
qed

text \<open>
  Attempts that start together share fairly: in a batch of \<open>k\<close> attempts of nodes that leave a limit open, reserved one
  after another with the pool and the size of the batch, every one is granted the same \<open>k\<close>-th part of what the task had left
  when the batch was chosen, whatever the ones before it hold by then (as long as there is at least one unit for each).
\<close>
theorem batch_shares_equally:
  assumes "remaining limits usage held f = Some p" and "k \<le> p" and "length granted < k"
    and "\<forall>b\<in>set granted. bget b f = Some (p div k)" and "bget node_budget f = None"
  shows "reserve_field node_budget (remaining limits usage (granted @ held)) k (remaining limits usage held) f = Inr (Some (p div k))"
proof -
  have k: "0 < k" and part: "0 < p div k" using assms(2,3) by (auto simp: div_greater_zero_iff)
  have "sum_list (map (\<lambda>b. or_zero (bget b f)) granted) = length granted * (p div k)"
    using assms(4) by (induction granted) auto
  then have held: "reserved_total (granted @ held) f = length granted * (p div k) + reserved_total held f"
    by (simp add: reserved_total_eq)
  from assms(1) obtain limit where limit: "bget limits f = Some limit" "p = limit - spent usage f - reserved_total held f"
    by (auto simp: remaining_def Let_def split: option.splits)
  have "Suc (length granted) * (p div k) \<le> k * (p div k)" using assms(3) by (intro mult_right_mono) auto
  also have "\<dots> \<le> p" by simp
  finally have "p div k \<le> limit - spent usage f - reserved_total (granted @ held) f" using held limit(2) by simp
  with part k limit(1) assms(1,5) show ?thesis
    by (auto simp: reserve_field_def Let_def remaining_def[of limits usage "granted @ held"] max_def)
qed

theorem batch_shares_equally_witness:
  "reserve_field no_budget (remaining (no_budget\<lparr>b_tokens := Some 10\<rparr>) no_usage ([no_budget\<lparr>b_tokens := Some 5\<rparr>] @ [])) 2
     (remaining (no_budget\<lparr>b_tokens := Some 10\<rparr>) no_usage []) Tokens = Inr (Some (10 div 2))"
  by (rule batch_shares_equally) (simp_all add: remaining_def reserved_total_eq spent_def no_usage_def no_budget_def)

end
