(* ===== verification/Messages.thy ===== *)
theory Messages
  imports Contracts
begin

text \<open>
  The commands, signals and answers of a task (\<^verbatim>\<open>orbit_contracts/v3/messages.py\<close>): what a person, the API and an attempt
  send to a TaskWorkflow and what it answers. One record per model, one datatype per \<open>Literal\<close>; a fixed \<open>status\<close> or
  \<open>schema_version\<close> that has a single value is not a field.
\<close>

section \<open>Literals\<close>

datatype delivery = Queue | Interrupt
datatype decision = Approve | Reject
datatype control_action = Pause | Resume | Stop | Cancel | Takeover | Handback
datatype attempt_outcome = OCompleted | OFailed | OCancelled
datatype park_reason = ParkApproval | ParkInput
datatype approval_subject_kind = SubjToolCall | SubjPlanChange | SubjBudgetExtension | SubjProfileSwitch | SubjCompletion
  | SubjNonIdempotentRetry | SubjSopStep | SubjNodeApproval

section \<open>Messages of a person and the API\<close>

record attachment =
  at_uri :: string
  at_name :: string
  at_media_type :: string

record inbox_message =
  im_message_seq :: nat
  im_client_message_id :: string
  im_text :: string
  im_attachments :: "attachment list"
  im_delivery :: delivery
  im_mentions :: "string list"

record send_message_input =
  sm_command_id :: string
  sm_client_message_id :: string
  sm_text :: string
  sm_attachments :: "attachment list"
  sm_delivery :: delivery
  sm_mentions :: "string list"

record decide_approval_input =
  da_command_id :: string
  da_approval_id :: string
  da_decision :: decision
  da_comment :: string
  da_always :: bool

record task_control_input =
  tc_command_id :: string
  tc_action :: control_action
  tc_reason :: string

record grant_budget_input =
  gb_command_id :: string
  gb_delta :: budget

record request_profile_switch_input =
  rp_command_id :: string
  rp_node_id :: string
  rp_to_profile :: string
  rp_reason :: string

record complete_node_input =
  cn_command_id :: string
  cn_node_id :: string
  cn_reason :: string

record update_task_config_input =
  uc_command_id :: string
  uc_base_config_version :: nat
  uc_expert :: "string option"
  uc_skills :: "string list option"
  uc_connectors :: "connector_snapshot list option"
  uc_mode :: config_mode
  uc_model :: "string option"
  uc_team :: "team option"
  uc_permissions :: "permission_spec option"

record completion_proposal =
  cp_command_id :: string
  cp_node_id :: string
  cp_attempt_id :: string
  cp_output :: "(string, json) dict"
  cp_artifact_manifest_id :: "string option"
  cp_checkpoint_ref :: string

section \<open>Answers\<close>

text \<open>What an update answers and the dedup table remembers (the types \<open>_load\<close> knows how to read back).\<close>

datatype answer =
    SendMessageResult nat
  | PlanChange plan_change_result
  | CompletionAccepted
  | DecideApprovalResult string bool  \<comment> \<open>whether it was approved\<close>
  | TaskControlResult task_status
  | GrantBudgetResult budget
  | RequestProfileSwitchResult nat bool "string option"
  | CompleteNodeResult string
  | UpdateTaskConfigResult nat

section \<open>Approvals and what an attempt reports\<close>

record approval_subject =
  sb_kind :: approval_subject_kind
  sb_digest :: string
  sb_summary :: string
  sb_risk :: risk
  sb_detail :: string
  sb_allow_rule :: "permission_rule option"
  sb_role :: "string option"
  sb_role_label :: "string option"

record ask_user_option =
  ao_label :: string
  ao_description :: "string option"

record ask_user_question =
  aq_header :: string
  aq_question :: string
  aq_options :: "ask_user_option list"
  aq_multi_select :: bool

record parked_tool_call =
  pk_tool_call_id :: string
  pk_subject :: approval_subject

record attempt_result =
  ar_handover_summary :: string
  ar_manifest_id :: "string option"
  ar_manifest_entries :: "(string, json) dict list"
  ar_manifest_hash :: "string option"
  ar_checkpoint_ref :: string
  ar_usage :: usage
  ar_budget_exhausted :: bool
  ar_output :: "(string, json) dict"

record attempt_finished_signal =
  af_node_id :: string
  af_attempt_no :: nat
  af_attempt_id :: string
  af_outcome :: attempt_outcome
  af_result :: "attempt_result option"
  af_failure :: "failure option"
  af_unconsumed_messages :: "inbox_message list"
  af_heard_message_seqs :: "nat list option"
  af_usage :: "usage option"

record attempt_parked_signal =
  pa_node_id :: string
  pa_attempt_no :: nat
  pa_attempt_id :: string
  pa_reason :: park_reason
  pa_approvals :: "parked_tool_call list"
  pa_question :: "string option"
  pa_questions :: "ask_user_question list option"

record approval_decided_signal =
  ad_approval_id :: string
  ad_tool_call_id :: "string option"
  ad_decision :: decision
  ad_comment :: string
  ad_rule :: "permission_rule option"

record external_event_signal =
  ee_wait_key :: string
  ee_payload :: "(string, json) dict"

text \<open>What the parent hands a new attempt.\<close>

record attempt_workflow_input =
  ai_node_id :: string
  ai_attempt_id :: string
  ai_attempt_no :: nat
  ai_node_type :: node_type
  ai_profile :: string
  ai_goal :: string
  ai_policy :: policy
  ai_workspace_access :: workspace_access
  ai_messages :: "inbox_message list"
  ai_config :: task_config
  ai_allow_rules :: "permission_rule list"
  ai_continue_from :: "string option"
  ai_retry_reason :: string
  ai_budget :: "budget option"
  ai_switched_from :: "string option"
  ai_handover :: string
  ai_output_schema_ref :: "string option"
  ai_team :: "team_stage_spec option"

end
