(* ===== verification/Workflow_Common.thy ===== *)
theory Workflow_Common
  imports Budgets Messages Plan_Apply
begin

text \<open>
  \<^verbatim>\<open>orbit_orch/workflow_common.py\<close>: the limits and the ids of the guarded behaviour changes, and the helpers the
  workflow modules share. A time is an \<open>int\<close> of microseconds; \<open>timedelta(seconds=n)\<close> is \<open>n * SECOND\<close>.
\<close>

section \<open>Guarded behaviour changes\<close>

definition VERIFY_FINISHED_ATTEMPTS :: string where "VERIFY_FINISHED_ATTEMPTS = ''task-attempt-completion-verification''"
definition SESSION_STAYS_OPEN :: string where "SESSION_STAYS_OPEN = ''task-session-stays-open''"
definition RETRY_POLICY :: string where "RETRY_POLICY = ''task-retry-policy''"
definition INTERRUPT_CONTINUES_SESSION :: string where "INTERRUPT_CONTINUES_SESSION = ''task-interrupt-continues-session''"
definition NODE_KEEPS_AUTHOR :: string where "NODE_KEEPS_AUTHOR = ''task-node-keeps-created-by''"
definition WAIT_TIMER_CARRY :: string where "WAIT_TIMER_CARRY = ''task-wait-timer-carry''"
definition CANCEL_WAITS_FOR_CHILD :: string where "CANCEL_WAITS_FOR_CHILD = ''task-cancel-waits-for-child''"
definition APPROVALS_CANCELLED :: string where "APPROVALS_CANCELLED = ''task-approvals-cancelled-with-attempt''"
definition INBOX_CONSUME :: string where "INBOX_CONSUME = ''task-inbox-consume''"
definition STATE_BOUNDS :: string where "STATE_BOUNDS = ''task-state-bounds''"
definition FOLLOW_UP_BOUNDED :: string where "FOLLOW_UP_BOUNDED = ''task-follow-up-bounded-goal''"
definition PLAN_COMPACTION :: string where "PLAN_COMPACTION = ''task-plan-compaction''"
definition FOLLOW_UP_REJECTION_VISIBLE :: string where "FOLLOW_UP_REJECTION_VISIBLE = ''task-follow-up-rejection-visible''"
definition DRAIN_BEFORE_CONTINUE_AS_NEW :: string where "DRAIN_BEFORE_CONTINUE_AS_NEW = ''task-drain-before-continue-as-new''"
definition BUDGET_ENFORCEMENT :: string where "BUDGET_ENFORCEMENT = ''task-budget-enforcement''"
definition SCHEDULE_CONCURRENCY :: string where "SCHEDULE_CONCURRENCY = ''task-schedule-concurrency''"
definition PLAN_VISIBILITY :: string where "PLAN_VISIBILITY = ''task-plan-visibility''"
definition PLAN_NESTING :: string where "PLAN_NESTING = ''task-plan-nesting-depth''"
definition PROFILE_SWITCH :: string where "PROFILE_SWITCH = ''task-profile-switch''"
definition TAKEOVER_INTERRUPTS :: string where "TAKEOVER_INTERRUPTS = ''task-takeover-interrupts''"
definition SOP_EXPANSION :: string where "SOP_EXPANSION = ''task-sop-expansion''"
definition SOP_VERIFIER :: string where "SOP_VERIFIER = ''task-sop-verifier''"
definition NODE_APPROVALS :: string where "NODE_APPROVALS = ''task-node-approvals''"
definition ATTEMPT_OUTPUT_EVENT :: string where "ATTEMPT_OUTPUT_EVENT = ''attempt-finished-carries-output''"
definition EVENT_PAYLOADS :: string where "EVENT_PAYLOADS = ''task-event-payloads-v2''"
definition SIGNAL_CLOSED_CHILD :: string where "SIGNAL_CLOSED_CHILD = ''task-signal-closed-child-tolerated''"
definition HELD_STAYS_HELD :: string where "HELD_STAYS_HELD = ''task-held-status-kept''"
definition NODE_ENTITY_VERSIONS :: string where "NODE_ENTITY_VERSIONS = ''task-node-entity-versions''"
definition LEADER_REVIEW :: string where "LEADER_REVIEW = ''task-leader-review''"
definition TEAM_STAGE :: string where "TEAM_STAGE = ''task-team-stage''"
definition NODE_ROUND_FACTS :: string where "NODE_ROUND_FACTS = ''task-node-round-facts''"
definition MENTION_FOLLOW_UPS :: string where "MENTION_FOLLOW_UPS = ''task-mention-follow-ups''"
definition MENTION_READ_ONLY :: string where "MENTION_READ_ONLY = ''task-mention-follow-ups-read-only''"
definition MENTION_RELAY :: string where "MENTION_RELAY = ''task-mention-relay''"
definition NODE_OWNER_FACTS :: string where "NODE_OWNER_FACTS = ''task-node-owner-facts''"
definition TEAM_MESSAGES :: string where "TEAM_MESSAGES = ''task-team-messages''"
definition HANDED_MESSAGES :: string where "HANDED_MESSAGES = ''task-handed-messages''"
definition BOUNDED_CANCEL :: string where "BOUNDED_CANCEL = ''task-bounded-cancel''"
definition EARLY_UPDATE_WAITS :: string where "EARLY_UPDATE_WAITS = ''task-early-update-waits''"

section \<open>Limits\<close>

definition OPERATOR_HELD :: "task_status list" where "OPERATOR_HELD = [TS_PAUSED, TS_PAUSED_NEEDS_REVIEW, TS_TAKEN_OVER]"
definition MAX_UPDATES_BEFORE_CAN :: nat where "MAX_UPDATES_BEFORE_CAN = 1000"
definition MAX_COMPLETIONS_BEFORE_CAN :: nat where "MAX_COMPLETIONS_BEFORE_CAN = 50"
definition ATTEMPT_OUTPUT_EVENT_BYTES :: nat where "ATTEMPT_OUTPUT_EVENT_BYTES = 16 * 1024"
definition MAX_HANDED :: nat where "MAX_HANDED = 16"
definition DEFAULT_MAX_CONCURRENCY :: nat where "DEFAULT_MAX_CONCURRENCY = 4"
definition DEFAULT_MAX_DEPTH :: nat where "DEFAULT_MAX_DEPTH = 1"
definition MAX_PLAN_CHAIN :: nat where "MAX_PLAN_CHAIN = 256"
definition HANDOVER_CHARS :: nat where "HANDOVER_CHARS = 2000"
definition DEFAULT_MAX_REVIEW_ROUNDS :: nat where "DEFAULT_MAX_REVIEW_ROUNDS = 5"
definition MAX_REVIEW_CHILDREN :: nat where "MAX_REVIEW_CHILDREN = 40"
definition RETRY_BACKOFF_S :: "int list" where "RETRY_BACKOFF_S = [5, 30, 120]"
definition DEFAULT_MAX_ATTEMPTS :: nat where "DEFAULT_MAX_ATTEMPTS = 3"
definition CANCEL_FALLBACK_S :: int where "CANCEL_FALLBACK_S = 120"
definition MAX_DEDUP :: nat where "MAX_DEDUP = 512"
definition MAX_DECIDED_APPROVALS :: nat where "MAX_DECIDED_APPROVALS = 64"
definition FOLLOW_UP_GOAL_CHARS :: nat where "FOLLOW_UP_GOAL_CHARS = 500"
definition PLAN_COMPACT_BYTES :: nat where "PLAN_COMPACT_BYTES = 128 * 1024"
definition KEEP_RECENT_COMPLETED :: nat where "KEEP_RECENT_COMPLETED = 16"
definition ARCHIVE_RECENT_TITLES :: nat where "ARCHIVE_RECENT_TITLES = 10"
definition MAX_ARCHIVED_IDS :: nat where "MAX_ARCHIVED_IDS = 2000"

definition SECOND :: int where "SECOND = 1000000"

section \<open>Helpers\<close>

definition sha :: "string \<Rightarrow> string" where
  "sha value = ''sha256:'' @ hexdigest (utf8 value)"

text \<open>\<open>hashlib.sha256(s.encode()).hexdigest()\<close>, the command ids the workflow makes for itself.\<close>

definition command_hash :: "string \<Rightarrow> string" where
  "command_hash s = hexdigest (utf8 s)"

definition closed :: "task_status \<Rightarrow> bool" where
  "closed status \<longleftrightarrow> status = TS_CANCELLED"

text \<open>A reason a check gives: what checked, a code, a message (the free-form \<open>detail\<close> is only logged).\<close>

record failure_reason =
  fr_check :: string
  fr_code :: string
  fr_message :: string

text \<open>The answer of a verification activity: \<open>ok\<close> and \<open>failures\<close>, each of which may be missing.\<close>

record verification_answer =
  va_ok :: "bool option"
  va_failures :: "failure_reason list"
  va_snapshot :: "string option"

definition reasons :: "verification_answer \<Rightarrow> string \<Rightarrow> failure_reason list" where
  "reasons result activity_name =
     (if va_failures result = [] \<and> va_ok result = Some False
      then [\<lparr>fr_check = ''verification'', fr_code = ''verification_failed'', fr_message = activity_name @ '' refused the completion''\<rparr>]
      else va_failures result)"

text \<open>The last \<open>n\<close> items of a list: \<open>xs[-n:]\<close>.\<close>

definition last_n :: "nat \<Rightarrow> 'a list \<Rightarrow> 'a list" where
  "last_n n xs = drop (length xs - n) xs"

lemma length_last_n [simp]: "length (last_n n xs) = min n (length xs)"
  by (simp add: last_n_def)

end
