(* ===== verification/Task_Base.thy ===== *)
theory Task_Base
  imports Workflow_Common
begin

text \<open>
  The state of a TaskWorkflow (\<^verbatim>\<open>orbit_orch/task_base.py\<close>): the fields \<open>__init__\<close> sets, the dictionaries they hold as
  records, what a Continue-As-New carries and how it is read back. The methods of the workflow are functions on this state; one
  that may raise is a \<open>'a wf\<close>: it returns an error or a value, and in both cases the state as it was left, because Python does
  not undo what a method did before it raised.
\<close>

section \<open>What the dictionaries hold\<close>

datatype attempt_state = ARunning | AParked park_reason | AEnded attempt_outcome

datatype verdict = Verifying | Accepted | Rejected

text \<open>
  An item of \<open>_attempts\<close>. \<open>x_object\<close> is the identity of the dict (what \<^verbatim>\<open>is\<close> compares); a key that may be missing is an
  \<open>option\<close>, or \<open>False\<close> for a flag.
\<close>

record attempt =
  x_object :: nat
  x_attempt_id :: string
  x_attempt_no :: nat
  x_workflow_id :: string
  x_workspace_access :: workspace_access
  x_status :: attempt_state
  x_profile :: string
  x_config_version :: nat
  x_reserved :: "budget option"
  x_cancelling :: bool
  x_closed :: bool
  x_counted :: bool
  x_finishing :: bool
  x_verdict :: "verdict option"
  x_rejections :: "failure_reason list"
  x_handed :: "inbox_message list"
  x_result :: "attempt_result option"

datatype approval_status = AP_PENDING | AP_APPROVED | AP_REJECTED | AP_CANCELLED

datatype approval_kind = KToolCall | KProfileSwitch | KNodeApproval

record approval =
  ap_approval_id :: string
  ap_status :: approval_status
  ap_kind :: approval_kind
  ap_attempt_id :: "string option"
  ap_tool_call_id :: "string option"
  ap_node_id :: string
  ap_to_profile :: string
  ap_reason :: string
  ap_subject :: approval_subject
  ap_comment :: string

record retry_entry =
  re_failed :: nat
  re_blocked :: bool
  re_blocked_for :: string
  re_retry_at :: "int option"
  re_continue_from :: string
  re_reason :: string
  re_asked :: nat

record follow_up =
  fu_from :: string
  fu_seq :: nat
  fu_mention :: "string option"
  fu_relay :: bool

record profile_switch =
  sw_to :: string
  sw_from :: string
  sw_pending :: bool

record step_output =
  so_summary :: string
  so_artifacts :: "string list"

datatype sop_role = RStep | RApprovalBefore | RApprovalAfter

record sop_part =
  sp_role :: sop_role
  sp_step_id :: string
  sp_index :: nat
  sp_subject :: string

record sop_entry =
  se_ref :: string
  se_name :: string
  se_title :: string
  se_total :: nat
  se_nodes :: "(string, sop_part) dict"
  se_open :: "string list"
  se_agent :: "(string, string) dict"
  se_deps :: "(string, string list) dict"
  se_outputs :: "(string, step_output) dict"

record review_entry =
  rv_attempt_id :: string
  rv_profile :: string
  rv_round :: nat
  rv_children :: "string list"
  rv_more :: nat
  rv_titles :: "(string, string) dict"
  rv_results :: "(string, step_output) dict"
  rv_relay :: "(string \<times> nat) option"

record review_node =
  rn_from :: string
  rn_round :: nat

record plan_archive =
  ac_count :: nat
  ac_ids :: "string list"
  ac_hash :: string
  ac_recent :: "string list"

text \<open>
  The value of a key of an event's payload. A contract model stands for its \<open>model_dump\<close>; a sub-dict is a \<open>VDict\<close>.
\<close>

datatype pval =
    VNone | VStr string | VInt int | VBool bool | VStrs "string list" | VJson json
  | VTask task_status | VNode node_status | VType node_type | VAccess workspace_access
  | VActor actor | VBudget budget | VUsage usage | VFailure "failure option" | VOutcome attempt_outcome
  | VPlanResult plan_change_result | VSubject approval_subject | VMessage inbox_message | VApproval approval_status
  | VEntries "(string, json) dict list" | VPermissions "permission_spec option" | VMode config_mode | VAttachments "attachment list"
  | VDelivery delivery | VQuestions "ask_user_question list" | VCode plan_reject_code | VDict "(string, pval) dict"

type_synonym payload = "(string, pval) dict"

record event =
  ev_event_id :: string
  ev_type :: string
  ev_entity_kind :: string
  ev_entity_id :: string
  ev_version :: nat
  ev_occurred_at :: int
  ev_payload :: payload

datatype queued = QMessage inbox_message | QCompletion completion_proposal

text \<open>The tasks of \<open>_timers\<close>: the timer of a wait node, the fallback of an attempt that is being cancelled.\<close>

datatype timer = WaitTimer string int | CancelTimer string string int

section \<open>The workflow\<close>

record task =
  w_task_id :: string
  w_tenant_id :: string
  w_created_by :: "actor option"
  w_title :: string
  w_goal :: string
  w_profile :: string
  w_status :: task_status
  w_plan :: "plan_state option"
  w_budgets :: budget
  w_policy :: policy
  w_config :: task_config
  w_usage :: usage
  w_inbox :: "inbox_message list"
  w_next_message_seq :: nat
  w_dedup :: "(string, answer) dict"
  w_commands :: "queued list"
  w_attempts :: "(string, attempt) dict"
  w_approvals :: "(string, approval) dict"
  w_wait_events :: "(string, (string, json) dict) dict"
  w_events :: "event list"
  w_entity_versions :: "(string, nat) dict"
  w_updates :: nat
  w_completed_nodes :: nat
  w_stop :: bool
  w_wake :: nat
  w_last_attempt_id :: string
  w_follow_ups :: "(string, follow_up) dict"
  w_allow_rules :: "permission_rule list"
  w_node_retry :: "(string, retry_entry) dict"
  w_wait_deadlines :: "(string, int) dict"
  w_timers :: "(string, timer) dict"
  w_archive :: plan_archive
  w_budget_hold :: bool
  w_unsent :: bool
  w_node_profile :: "(string, profile_switch) dict"
  w_handovers :: "(string, string) dict"
  w_sops :: "(string, sop_entry) dict"
  w_reviews :: "(string, review_entry) dict"
  w_review_nodes :: "(string, review_node) dict"
  w_node_rounds :: "(string, nat) dict"
  w_member_sessions :: "(string, string) dict"
  w_detached :: "attempt list"  \<comment> \<open>items taken out of \<open>_attempts\<close> that a handler may still hold\<close>
  w_objects :: nat  \<comment> \<open>identities handed out to \<open>_attempts\<close> items\<close>
  w_uuids :: nat  \<comment> \<open>calls of \<open>workflow.uuid4\<close> so far\<close>

definition no_policy :: policy where
  "no_policy = \<lparr>p_denied_tools = [], p_exploration_max_tool_calls = None, p_max_concurrency = None, p_max_review_rounds = None\<rparr>"

definition default_config :: task_config where
  "default_config = \<lparr>c_config_version = 1, c_expert = None, c_skills = None, c_connectors = None, c_mode = ModeDefault,
     c_model = None, c_team = None, c_permissions = None\<rparr>"

definition empty_archive :: plan_archive where
  "empty_archive = \<lparr>ac_count = 0, ac_ids = [], ac_hash = [], ac_recent = []\<rparr>"

text \<open>\<open>__init__\<close>.\<close>

definition init_task :: task where
  "init_task = \<lparr>w_task_id = [], w_tenant_id = [], w_created_by = None, w_title = [], w_goal = [], w_profile = [],
     w_status = TS_CREATED, w_plan = None, w_budgets = no_budget, w_policy = no_policy, w_config = default_config,
     w_usage = no_usage, w_inbox = [], w_next_message_seq = 1, w_dedup = [], w_commands = [], w_attempts = [], w_approvals = [],
     w_wait_events = [], w_events = [], w_entity_versions = [], w_updates = 0, w_completed_nodes = 0, w_stop = False, w_wake = 0,
     w_last_attempt_id = [], w_follow_ups = [], w_allow_rules = [], w_node_retry = [], w_wait_deadlines = [], w_timers = [],
     w_archive = empty_archive, w_budget_hold = False, w_unsent = False, w_node_profile = [], w_handovers = [], w_sops = [],
     w_reviews = [], w_review_nodes = [], w_node_rounds = [], w_member_sessions = [], w_detached = [], w_objects = 0, w_uuids = 0\<rparr>"

section \<open>The environment and the methods\<close>

text \<open>
  What Temporal gives a workflow while it runs: whether a guarded change is taken (\<open>patched\<close>), the time, random ids, the
  workflow's id, whether a Continue-As-New is suggested; and how deep Python's stack may still go.
\<close>

record env =
  e_patched :: "string \<Rightarrow> bool"
  e_px :: pydantic
  e_now :: int
  e_uuid :: "nat \<Rightarrow> string"
  e_workflow_id :: string
  e_continue_suggested :: bool
  e_depth :: nat

datatype wf_error = ApplicationError string string | AssertionError | KeyErr | StopIter | RecursionError | PlanExn plan_exn

type_synonym 'a wf = "task \<Rightarrow> (wf_error + 'a) \<times> task"

definition ret :: "'a \<Rightarrow> 'a wf" where "ret x = (\<lambda>s. (Inr x, s))"
definition raiseW :: "wf_error \<Rightarrow> 'a wf" where "raiseW e = (\<lambda>s. (Inl e, s))"
definition getW :: "(task \<Rightarrow> 'a) \<Rightarrow> 'a wf" where "getW f = (\<lambda>s. (Inr (f s), s))"
definition modW :: "(task \<Rightarrow> task) \<Rightarrow> unit wf" where "modW f = (\<lambda>s. (Inr (), f s))"

definition bindW :: "'a wf \<Rightarrow> ('a \<Rightarrow> 'b wf) \<Rightarrow> 'b wf" where
  "bindW m f = (\<lambda>s. case m s of (Inl e, t) \<Rightarrow> (Inl e, t) | (Inr x, t) \<Rightarrow> f x t)"

definition thenW :: "'a wf \<Rightarrow> 'b wf \<Rightarrow> 'b wf" where "thenW m n = bindW m (\<lambda>_. n)"

definition whenW :: "bool \<Rightarrow> unit wf \<Rightarrow> unit wf" where "whenW c m = (if c then m else ret ())"

text \<open>A look at the state that decides what is done next.\<close>

definition withW :: "(task \<Rightarrow> 'a wf) \<Rightarrow> 'a wf" where "withW f = (\<lambda>s. f s s)"

primrec forW :: "'a list \<Rightarrow> ('a \<Rightarrow> unit wf) \<Rightarrow> unit wf" where
  "forW [] f = ret ()"
| "forW (x # xs) f = thenW (f x) (forW xs f)"

definition optW :: "wf_error \<Rightarrow> 'a option \<Rightarrow> 'a wf" where
  "optW e x = (case x of None \<Rightarrow> raiseW e | Some v \<Rightarrow> ret v)"

text \<open>The state a method leaves, whether it returned or raised.\<close>

definition final :: "'a wf \<Rightarrow> task \<Rightarrow> task" where "final m s = snd (m s)"

named_theorems wf_simps \<open>running a method\<close>

lemma ret_run [wf_simps]: "ret x s = (Inr x, s)"
  and raiseW_run [wf_simps]: "raiseW e s = (Inl e, s)"
  and getW_run [wf_simps]: "getW f s = (Inr (f s), s)"
  and modW_run [wf_simps]: "modW g s = (Inr (), g s)"
  and withW_run [wf_simps]: "withW h s = h s s"
  by (simp_all add: ret_def raiseW_def getW_def modW_def withW_def)

lemma bindW_run [wf_simps]: "bindW m f s = (case m s of (Inl e, t) \<Rightarrow> (Inl e, t) | (Inr x, t) \<Rightarrow> f x t)"
  by (simp add: bindW_def)

lemma thenW_run [wf_simps]: "thenW m n s = (case m s of (Inl e, t) \<Rightarrow> (Inl e, t) | (Inr x, t) \<Rightarrow> n t)"
  by (simp add: thenW_def bindW_def)

lemma whenW_run [wf_simps]: "whenW c m s = (if c then m s else (Inr (), s))"
  by (simp add: whenW_def ret_def)

text \<open>
  A relation that every step of a method keeps is kept by the method, whether it returns or raises. \<open>keeps R m\<close> says so;
  the rules take a method apart.
\<close>

definition keeps :: "(task \<Rightarrow> task \<Rightarrow> bool) \<Rightarrow> 'a wf \<Rightarrow> bool" where
  "keeps R m \<longleftrightarrow> (\<forall>s. R s (snd (m s)))"

locale wf_relation =
  fixes R :: "task \<Rightarrow> task \<Rightarrow> bool"
  assumes R_refl: "R s s" and R_trans: "R s t \<Longrightarrow> R t u \<Longrightarrow> R s u"
begin

lemma keeps_ret: "keeps R (ret x)"
  and keeps_raise: "keeps R (raiseW e)"
  and keeps_get: "keeps R (getW f)"
  by (simp_all add: keeps_def wf_simps R_refl)

lemma keeps_bind: "keeps R m \<Longrightarrow> (\<And>x. keeps R (f x)) \<Longrightarrow> keeps R (bindW m f)"
  unfolding keeps_def bindW_def by (auto split: prod.split sum.split) (metis R_trans snd_conv)+

lemma keeps_then: "keeps R m \<Longrightarrow> keeps R n \<Longrightarrow> keeps R (thenW m n)"
  unfolding thenW_def by (rule keeps_bind)

lemma keeps_when: "(c \<Longrightarrow> keeps R m) \<Longrightarrow> keeps R (whenW c m)"
  by (simp add: whenW_def keeps_ret)

lemma keeps_with: "(\<And>s. keeps R (h s)) \<Longrightarrow> keeps R (withW h)"
  by (simp add: keeps_def wf_simps)

lemma keeps_for: "(\<And>x. x \<in> set xs \<Longrightarrow> keeps R (f x)) \<Longrightarrow> keeps R (forW xs f)"
  by (induction xs) (auto intro: keeps_ret keeps_then)

lemma keeps_opt: "keeps R (optW e x)"
  by (auto simp: optW_def keeps_ret keeps_raise split: option.split)

lemmas keeps_intros = keeps_ret keeps_raise keeps_get keeps_bind keeps_then keeps_when keeps_with keeps_for keeps_opt

end

section \<open>Attempt objects\<close>

text \<open>
  A handler holds an item of \<open>_attempts\<close> by reference: a change reaches it wherever it is, and it outlives its removal from the
  dictionary.
\<close>

definition attempt_at :: "nat \<Rightarrow> task \<Rightarrow> attempt option" where
  "attempt_at obj self = find (\<lambda>a. x_object a = obj) (dvals (w_attempts self) @ w_detached self)"

definition mut_attempt :: "nat \<Rightarrow> (attempt \<Rightarrow> attempt) \<Rightarrow> task \<Rightarrow> task" where
  "mut_attempt obj f self = self\<lparr>w_attempts := dmap (\<lambda>_ a. if x_object a = obj then f a else a) (w_attempts self),
     w_detached := map (\<lambda>a. if x_object a = obj then f a else a) (w_detached self)\<rparr>"

definition pop_attempt :: "string \<Rightarrow> task \<Rightarrow> task" where
  "pop_attempt node_id self =
     (case dget (w_attempts self) node_id of None \<Rightarrow> self
      | Some a \<Rightarrow> self\<lparr>w_attempts := dpop node_id (w_attempts self), w_detached := w_detached self @ [a]\<rparr>)"

text \<open>\<open>self._attempts.get(node_id) is attempt\<close>.\<close>

definition holds_attempt :: "string \<Rightarrow> nat \<Rightarrow> task \<Rightarrow> bool" where
  "holds_attempt node_id obj self = (case dget (w_attempts self) node_id of None \<Rightarrow> False | Some a \<Rightarrow> x_object a = obj)"

section \<open>SOP lookups\<close>

primrec step_in :: "(string, sop_entry) dict \<Rightarrow> string \<Rightarrow> (string \<times> sop_part) option" where
  "step_in [] node_id = None"
| "step_in (e # es) node_id = (case dget (se_nodes (snd e)) node_id of Some part \<Rightarrow> Some (fst e, part) | None \<Rightarrow> step_in es node_id)"

definition step_of :: "task \<Rightarrow> string \<Rightarrow> (string \<times> sop_part) option" where
  "step_of self node_id = step_in (w_sops self) node_id"

primrec sop_role_str :: "sop_role \<Rightarrow> string" where
  "sop_role_str RStep = ''step''"
| "sop_role_str RApprovalBefore = ''approval_before''"
| "sop_role_str RApprovalAfter = ''approval_after''"

definition sop_facts :: "task \<Rightarrow> string \<Rightarrow> payload" where
  "sop_facts self node_id =
     (case dget (w_sops self) node_id of
        Some entry \<Rightarrow> [(''sop_step'', VDict [(''sop'', VStr (se_ref entry)), (''role'', VStr ''sop''), (''total'', VInt (int (se_total entry)))])]
      | None \<Rightarrow> (case step_of self node_id of None \<Rightarrow> []
          | Some (sop_node, part) \<Rightarrow> (case dget (w_sops self) sop_node of None \<Rightarrow> []
              | Some entry \<Rightarrow> [(''sop_step'', VDict [(''sop'', VStr (se_ref entry)), (''role'', VStr (sop_role_str (sp_role part))),
                  (''total'', VInt (int (se_total entry))), (''step_id'', VStr (sp_step_id part)), (''index'', VInt (int (sp_index part))),
                  (''subject'', VStr (sp_subject part))])])))"

section \<open>The dedup window\<close>

definition remember :: "env \<Rightarrow> string \<Rightarrow> answer \<Rightarrow> task \<Rightarrow> task" where
  "remember env command_id result self =
     (let dedup = dset command_id result (w_dedup self)
      in self\<lparr>w_dedup := if e_patched env STATE_BOUNDS then last_n MAX_DEDUP dedup else dedup\<rparr>)"

section \<open>Continue-As-New\<close>

text \<open>What \<open>split(":", 1)\<close> leaves before and after the first colon.\<close>

definition before_colon :: "string \<Rightarrow> string" where
  "before_colon key = takeWhile (\<lambda>c. c \<noteq> CHR '':'') key"

definition after_colon :: "string \<Rightarrow> string" where
  "after_colon key = (if CHR '':'' \<in> set key then tl (dropWhile (\<lambda>c. c \<noteq> CHR '':'') key) else key)"

definition node_open :: "plan_state \<Rightarrow> node_status list \<Rightarrow> string \<Rightarrow> bool" where
  "node_open plan finished node_id =
     (case dget (pl_nodes plan) node_id of None \<Rightarrow> False | Some state \<Rightarrow> ns_status state \<notin> set finished)"

definition bound_approvals :: "(string, approval) dict \<Rightarrow> (string, approval) dict" where
  "bound_approvals approvals =
     (let decided = map fst (filter (\<lambda>(k, a). ap_status a \<noteq> AP_PENDING) approvals)
      in foldl (\<lambda>d k. dpop k d) approvals (take (length decided - MAX_DECIDED_APPROVALS) decided))"

definition bound_sop :: "sop_entry \<Rightarrow> sop_entry" where
  "bound_sop entry =
     (let needed = concat (map (\<lambda>step. case dget (se_deps entry) step of None \<Rightarrow> [] | Some deps \<Rightarrow> deps) (se_open entry))
      in entry\<lparr>se_outputs := dfilter (\<lambda>k _. k \<in> set needed) (se_outputs entry)\<rparr>)"

definition keeps_version :: "string list \<Rightarrow> plan_state \<Rightarrow> string \<Rightarrow> bool" where
  "keeps_version live plan key \<longleftrightarrow> before_colon key \<in> {''task'', ''plan''} \<or> after_colon key \<in> set live
     \<or> startswith key ''node:'' \<and> has_key (pl_nodes plan) (after_colon key)"

definition bound_state :: "env \<Rightarrow> task \<Rightarrow> task" where
  "bound_state env self =
     (case w_plan self of None \<Rightarrow> self
      | Some plan \<Rightarrow> if \<not> e_patched env STATE_BOUNDS then self else
          (let approvals = bound_approvals (w_approvals self);
               live = map x_attempt_id (dvals (w_attempts self)) @ map ap_approval_id (dvals approvals);
               in_plan = (\<lambda>k. has_key (pl_nodes plan) k) in
           self\<lparr>w_approvals := approvals,
             w_follow_ups := dfilter (\<lambda>k _. node_open plan [COMPLETED, SKIPPED] k) (w_follow_ups self),
             w_node_retry := dfilter (\<lambda>k _. node_open plan [COMPLETED] k) (w_node_retry self),
             w_wait_deadlines := dfilter (\<lambda>k _. in_plan k) (w_wait_deadlines self),
             w_handovers := dfilter (\<lambda>k _. in_plan k) (w_handovers self),
             w_node_profile := dfilter (\<lambda>k _. in_plan k) (w_node_profile self),
             w_sops := dmap (\<lambda>_. bound_sop) (dfilter (\<lambda>k _. node_open plan [COMPLETED] k) (w_sops self)),
             w_review_nodes := dfilter (\<lambda>k _. in_plan k) (w_review_nodes self),
             w_node_rounds := dfilter (\<lambda>k _. in_plan k \<or> has_key (w_reviews self) k) (w_node_rounds self),
             w_entity_versions := dfilter (\<lambda>k _. keeps_version live plan k) (w_entity_versions self)\<rparr>))"

text \<open>
  An item of \<open>carry["nodes"]\<close>: the draft as \<open>canonical\<close> dumps it, the other fields as they are. The other models the carry
  dumps (messages, rules, usage, answers) are read back by their own \<open>model_validate\<close> and are carried as themselves.
\<close>

record carried_node =
  cd_node_id :: string
  cd_draft :: "(string, json) dict"
  cd_status :: node_status
  cd_frozen :: bool
  cd_current_attempt_id :: "string option"
  cd_attempt_count :: nat
  cd_created_by :: "string option"

record carry =
  ca_status :: task_status
  ca_plan_version :: int
  ca_nodes :: "carried_node list"
  ca_edges :: "edge list"
  ca_next_message_seq :: nat
  ca_completed_nodes :: nat
  ca_inbox :: "inbox_message list"
  ca_wait_events :: "(string, (string, json) dict) dict"
  ca_entity_versions :: "(string, nat) dict"
  ca_attempts :: "(string, attempt) dict"
  ca_approvals :: "(string, approval) dict"
  ca_last_attempt_id :: string
  ca_follow_ups :: "(string, follow_up) dict"
  ca_node_retry :: "(string, retry_entry) dict"
  ca_wait_deadlines :: "(string, int) dict"
  ca_archive :: plan_archive
  ca_usage :: usage
  ca_budget_hold :: bool
  ca_unsent :: bool
  ca_node_profile :: "(string, profile_switch) dict"
  ca_handovers :: "(string, string) dict"
  ca_sops :: "(string, sop_entry) dict"
  ca_reviews :: "(string, review_entry) dict"
  ca_review_nodes :: "(string, review_node) dict"
  ca_node_rounds :: "(string, nat) dict"
  ca_member_sessions :: "(string, string) dict"
  ca_allow_rules :: "permission_rule list"
  ca_dedup :: "(string, answer) dict"

record task_input =
  ti_task_id :: string
  ti_tenant_id :: string
  ti_created_by :: "actor option"
  ti_title :: string
  ti_goal :: string
  ti_profile :: string
  ti_budgets :: budget
  ti_policy :: policy
  ti_config :: task_config
  ti_carry :: "carry option"

definition carry_node :: "pydantic \<Rightarrow> string \<times> plan_node_state \<Rightarrow> carried_node" where
  "carry_node px = (\<lambda>(node_id, state). \<lparr>cd_node_id = node_id, cd_draft = px_dump px True (ns_draft state), cd_status = ns_status state,
     cd_frozen = ns_frozen state, cd_current_attempt_id = ns_current_attempt_id state, cd_attempt_count = ns_attempt_count state,
     cd_created_by = ns_created_by state\<rparr>)"

definition carry_input :: "env \<Rightarrow> task_input wf" where
  "carry_input env =
     thenW (withW (\<lambda>self. case w_plan self of None \<Rightarrow> raiseW AssertionError | Some plan \<Rightarrow> ret ()))
     (thenW (modW (bound_state env))
     (withW (\<lambda>self. bindW (optW AssertionError (w_plan self)) (\<lambda>plan. ret \<lparr>
       ti_task_id = w_task_id self, ti_tenant_id = w_tenant_id self, ti_created_by = w_created_by self, ti_title = w_title self,
       ti_goal = w_goal self, ti_profile = w_profile self, ti_budgets = w_budgets self, ti_policy = w_policy self,
       ti_config = w_config self,
       ti_carry = Some \<lparr>ca_status = w_status self, ca_plan_version = pl_version plan, ca_nodes = map (carry_node (e_px env)) (pl_nodes plan),
         ca_edges = pl_edges plan, ca_next_message_seq = w_next_message_seq self, ca_completed_nodes = w_completed_nodes self,
         ca_inbox = w_inbox self, ca_wait_events = w_wait_events self, ca_entity_versions = w_entity_versions self,
         ca_attempts = w_attempts self, ca_approvals = w_approvals self, ca_last_attempt_id = w_last_attempt_id self,
         ca_follow_ups = w_follow_ups self, ca_node_retry = w_node_retry self, ca_wait_deadlines = w_wait_deadlines self,
         ca_archive = w_archive self, ca_usage = w_usage self, ca_budget_hold = w_budget_hold self, ca_unsent = w_unsent self,
         ca_node_profile = w_node_profile self, ca_handovers = w_handovers self, ca_sops = w_sops self, ca_reviews = w_reviews self,
         ca_review_nodes = w_review_nodes self, ca_node_rounds = w_node_rounds self, ca_member_sessions = w_member_sessions self,
         ca_allow_rules = w_allow_rules self, ca_dedup = w_dedup self\<rparr>\<rparr>))))"

definition load_node :: "pydantic \<Rightarrow> (string, plan_node_state) dict \<Rightarrow> carried_node \<Rightarrow> wf_error + (string, plan_node_state) dict" where
  "load_node px nodes item =
     (case px_validate px (dmap (\<lambda>_. DJson) (cd_draft item)) of
        None \<Rightarrow> Inl (PlanExn ValidationError)
      | Some draft \<Rightarrow> Inr (dset (cd_node_id item) \<lparr>ns_draft = draft, ns_status = cd_status item, ns_frozen = cd_frozen item,
          ns_current_attempt_id = cd_current_attempt_id item, ns_attempt_count = cd_attempt_count item,
          ns_created_by = cd_created_by item\<rparr> nodes))"

text \<open>\<open>dict(value)\<close> for each item of \<open>carry["attempts"]\<close>: the items are new objects.\<close>

definition fresh_objects :: "(string, attempt) dict \<Rightarrow> (string, attempt) dict" where
  "fresh_objects attempts = map (\<lambda>(i, k, a). (k, a\<lparr>x_object := i\<rparr>)) (enumerate 0 attempts)"

text \<open>\<open>self._dedup[command_id] = ...\<close> for each carried answer: a key that is there keeps its place.\<close>

definition with_answers :: "(string, answer) dict \<Rightarrow> (string, answer) dict \<Rightarrow> (string, answer) dict" where
  "with_answers carried kept =
     map (\<lambda>(k, v). (k, case dget carried k of None \<Rightarrow> v | Some w \<Rightarrow> w)) kept @ filter (\<lambda>(k, v). \<not> has_key kept k) carried"

text \<open>
  \<open>_load\<close>, on the state \<open>__init__\<close> and the handlers that ran before \<open>run\<close> made: what is not assigned stays, and the carried
  answers are added to those given already. The \<open>wf_error\<close> is pydantic's, for a draft it does not take back; the other models and
  dicts the carry holds (inbox, answers, usage, approvals, rules) are read back as they were dumped.
\<close>

definition load :: "env \<Rightarrow> task_input \<Rightarrow> unit wf" where
  "load env inp =
     thenW (modW (\<lambda>self. self\<lparr>w_task_id := ti_task_id inp, w_tenant_id := ti_tenant_id inp, w_created_by := ti_created_by inp,
       w_title := ti_title inp, w_goal := ti_goal inp, w_profile := ti_profile inp, w_budgets := ti_budgets inp,
       w_policy := ti_policy inp, w_config := ti_config inp\<rparr>))
     (case ti_carry inp of None \<Rightarrow> ret ()
      | Some c \<Rightarrow>
          thenW (modW (\<lambda>self. self\<lparr>w_status := ca_status c, w_last_attempt_id := ca_last_attempt_id c, w_follow_ups := ca_follow_ups c,
            w_allow_rules := ca_allow_rules c, w_next_message_seq := ca_next_message_seq c,
            w_completed_nodes := (if e_patched env STATE_BOUNDS then 0 else ca_completed_nodes c),
            w_entity_versions := ca_entity_versions c, w_usage := ca_usage c, w_budget_hold := ca_budget_hold c,
            w_unsent := ca_unsent c, w_node_profile := ca_node_profile c, w_handovers := ca_handovers c, w_sops := ca_sops c,
            w_reviews := ca_reviews c, w_review_nodes := ca_review_nodes c, w_node_rounds := ca_node_rounds c,
            w_member_sessions := ca_member_sessions c, w_attempts := fresh_objects (ca_attempts c),
            w_objects := length (ca_attempts c), w_approvals := ca_approvals c, w_dedup := with_answers (ca_dedup c) (w_dedup self), w_inbox := ca_inbox c, w_node_retry := ca_node_retry c, w_wait_deadlines := ca_wait_deadlines c,
            w_archive := ca_archive c, w_wait_events := ca_wait_events c, w_updates := 0\<rparr>))
          (case foldE (load_node (e_px env)) [] (ca_nodes c) of
             Inl e \<Rightarrow> raiseW e
           | Inr nodes \<Rightarrow> modW (\<lambda>self. self\<lparr>w_plan := Some (build (e_px env) (ca_plan_version c) nodes (ca_edges c))\<rparr>)))"

definition should_continue_as_new :: "env \<Rightarrow> task \<Rightarrow> bool" where
  "should_continue_as_new env self \<longleftrightarrow> MAX_UPDATES_BEFORE_CAN \<le> w_updates self \<or> MAX_COMPLETIONS_BEFORE_CAN \<le> w_completed_nodes self
     \<or> e_continue_suggested env"

end
