(* ===== verification/Task_Events.thy ===== *)
theory Task_Events
  imports Task_Base
begin

text \<open>
  \<^verbatim>\<open>orbit_orch/task_events.py\<close>: the task's status, the events and their entity versions, and the view of the task. An event
  of the model has the fields that vary; the schema, the tenant, the source and the visibility are the same for all.
\<close>

section \<open>Events\<close>

text \<open>\<open>payload.get(key)\<close> as \<^verbatim>\<open>or\<close> takes it: a missing, empty or zero value is \<open>None\<close>, another one its text.\<close>

definition truthy :: "payload \<Rightarrow> string \<Rightarrow> string option" where
  "truthy payload key =
     (case dget payload key of
        Some (VStr s) \<Rightarrow> if s = [] then None else Some s
      | Some (VInt i) \<Rightarrow> if i = 0 then None else Some (int_str i)
      | _ \<Rightarrow> None)"

primrec first_some :: "'a option list \<Rightarrow> 'a option" where
  "first_some [] = None"
| "first_some (x # xs) = (case x of Some v \<Rightarrow> Some v | None \<Rightarrow> first_some xs)"

definition entity_kind :: "env \<Rightarrow> string \<Rightarrow> string" where
  "entity_kind env event_type =
     (if startswith event_type ''plan.'' then ''plan''
      else if startswith event_type ''attempt.'' then ''attempt''
      else if startswith event_type ''approval.'' then ''approval''
      else if startswith event_type ''message.'' then ''message''
      else if startswith event_type ''team.'' \<and> e_patched env TEAM_MESSAGES then ''team''
      else ''task'')"

definition is_node_event :: "env \<Rightarrow> string \<Rightarrow> payload \<Rightarrow> bool" where
  "is_node_event env event_type payload \<longleftrightarrow>
     startswith event_type ''node.'' \<and> has_key payload ''node_id'' \<and> e_patched env NODE_ENTITY_VERSIONS"

definition entity_of :: "env \<Rightarrow> task \<Rightarrow> string \<Rightarrow> payload \<Rightarrow> string \<times> string" where
  "entity_of env self event_type payload =
     (let kind = entity_kind env event_type;
          ident = (if kind \<in> {''task'', ''plan''} then w_task_id self
            else case first_some [truthy payload ''attempt_id'', truthy payload ''approval_id'', truthy payload ''message_seq'',
                   if kind = ''team'' then truthy payload ''node_id'' else None] of
                 Some i \<Rightarrow> i | None \<Rightarrow> w_task_id self)
      in if is_node_event env event_type payload
         then (''node'', case dget payload ''node_id'' of Some (VStr n) \<Rightarrow> n | _ \<Rightarrow> [])
         else (kind, ident))"

definition get_version :: "(string, nat) dict \<Rightarrow> string \<Rightarrow> nat" where
  "get_version versions key = (case dget versions key of None \<Rightarrow> 0 | Some v \<Rightarrow> v)"

definition next_versions :: "env \<Rightarrow> task \<Rightarrow> string \<Rightarrow> payload \<Rightarrow> string \<Rightarrow> (string, nat) dict" where
  "next_versions env self event_type payload key =
     (let versions = w_entity_versions self;
          seeded = (if is_node_event env event_type payload \<and> \<not> has_key versions key
                    then dset key (get_version versions (''task:'' @ w_task_id self)) versions else versions)
      in dset key (get_version seeded key + 1) seeded)"

definition emit :: "env \<Rightarrow> string \<Rightarrow> payload \<Rightarrow> task \<Rightarrow> task" where
  "emit env event_type payload self =
     (let (kind, ident) = entity_of env self event_type payload;
          key = kind @ '':'' @ ident;
          versions = next_versions env self event_type payload key;
          event = \<lparr>ev_event_id = deterministic_id (e_uuid env (w_uuids self)) ''evt'', ev_type = event_type, ev_entity_kind = kind,
            ev_entity_id = ident, ev_version = get_version versions key, ev_occurred_at = e_now env, ev_payload = payload\<rparr>
      in self\<lparr>w_entity_versions := versions, w_events := w_events self @ [event], w_uuids := w_uuids self + 1\<rparr>)"

text \<open>\<open>"ephemeral" if event_type.endswith(".delta") else "durable"\<close>.\<close>

definition retention :: "event \<Rightarrow> string" where
  "retention ev = (if rev (take 6 (rev (ev_type ev))) = ''.delta'' then ''ephemeral'' else ''durable'')"

section \<open>Status\<close>

definition set_status :: "env \<Rightarrow> task_status \<Rightarrow> string \<Rightarrow> task \<Rightarrow> task" where
  "set_status env target reason self =
     (if target = w_status self then self
      else (let moved = self\<lparr>w_status := target, w_budget_hold := (if target \<noteq> TS_PAUSED_NEEDS_REVIEW then False else w_budget_hold self)\<rparr>
            in if e_patched env ''task-status-events''
               then emit env ''task.status_changed'' [(''from_status'', VTask (w_status self)), (''to_status'', VTask target), (''reason'', VStr reason)] moved
               else moved))"

text \<open>\<open>_flush_events\<close> up to its \<^verbatim>\<open>await\<close>: the events are taken out of the state and handed to \<open>publish_events\<close>.\<close>

definition flush_events :: "task \<Rightarrow> event list \<times> task" where
  "flush_events self = (w_events self, self\<lparr>w_events := []\<rparr>)"

section \<open>Views\<close>

definition reservations :: "task \<Rightarrow> budget list" where
  "reservations self = List.map_filter x_reserved (dvals (w_attempts self))"

definition reserved_budget :: "task \<Rightarrow> budget" where
  "reserved_budget self =
     (let held = reserved_total (reservations self) in budget_of (\<lambda>f. if held f = 0 then None else Some (held f)))"

record task_view =
  tv_task_id :: string
  tv_status :: task_status
  tv_plan_version :: int
  tv_pending_approvals :: "string list"
  tv_budgets :: budget
  tv_usage :: usage
  tv_budget_reserved :: budget
  tv_config :: task_config

definition get_task_view :: "task \<Rightarrow> task_view" where
  "get_task_view self = \<lparr>tv_task_id = w_task_id self, tv_status = w_status self,
     tv_plan_version = (case w_plan self of None \<Rightarrow> 1 | Some plan \<Rightarrow> pl_version plan),
     tv_pending_approvals = map fst (filter (\<lambda>(k, a). ap_status a = AP_PENDING) (w_approvals self)),
     tv_budgets = w_budgets self, tv_usage = w_usage self, tv_budget_reserved = reserved_budget self, tv_config = w_config self\<rparr>"

section \<open>The end of an attempt\<close>

definition attempt_facts :: "env \<Rightarrow> attempt option \<Rightarrow> payload" where
  "attempt_facts env attempt =
     (case attempt of None \<Rightarrow> []
      | Some a \<Rightarrow> if e_patched env EVENT_PAYLOADS
          then [(''attempt_no'', VInt (int (x_attempt_no a))), (''profile'', VStr (x_profile a)), (''config_version'', VInt (int (x_config_version a)))]
          else [])"

definition emit_attempt_finished ::
  "env \<Rightarrow> attempt_finished_signal \<Rightarrow> attempt_outcome \<Rightarrow> failure option \<Rightarrow> usage option \<Rightarrow> attempt option \<Rightarrow> task \<Rightarrow> task" where
  "emit_attempt_finished env signal outcome failure usage attempt =
     emit env ''attempt.finished'' (
       [(''node_id'', VStr (af_node_id signal)), (''attempt_id'', VStr (af_attempt_id signal)), (''outcome'', VOutcome outcome),
        (''failure'', VFailure failure)]
       @ attempt_facts env attempt
       @ (case af_result signal of Some result \<Rightarrow>
            if ar_output result \<noteq> [] \<and> e_patched env ATTEMPT_OUTPUT_EVENT then
              (if length (utf8 (json_dumps (JObj (ar_output result)))) \<le> ATTEMPT_OUTPUT_EVENT_BYTES
               then [(''output'', VJson (JObj (ar_output result)))] else [(''output_truncated'', VBool True)])
            else []
          | None \<Rightarrow> [])
       @ (case usage of Some u \<Rightarrow> if e_patched env BUDGET_ENFORCEMENT then [(''usage'', VUsage u)] else [] | None \<Rightarrow> []))"

definition emit_manifest_created :: "env \<Rightarrow> attempt_finished_signal \<Rightarrow> task \<Rightarrow> task" where
  "emit_manifest_created env signal =
     (case af_result signal of None \<Rightarrow> id
      | Some result \<Rightarrow> (case ar_manifest_id result of None \<Rightarrow> id
          | Some mid \<Rightarrow> if mid = [] then id else
              emit env ''artifact.manifest_created'' [(''manifest_id'', VStr mid), (''attempt_id'', VStr (af_attempt_id signal)),
                (''entries'', VEntries (ar_manifest_entries result)),
                (''manifest_hash'', VStr (case ar_manifest_hash result of Some h \<Rightarrow> if h = [] then sha mid else h | None \<Rightarrow> sha mid))]))"

section \<open>Payloads made of a model\<close>

definition message_payload :: "inbox_message \<Rightarrow> payload" where
  "message_payload m = [(''message_seq'', VInt (int (im_message_seq m))), (''client_message_id'', VStr (im_client_message_id m)),
     (''text'', VStr (im_text m)), (''attachments'', VAttachments (im_attachments m)), (''delivery'', VDelivery (im_delivery m)),
     (''mentions'', VStrs (im_mentions m))]"

definition rejected_payload :: "plan_change_result \<Rightarrow> payload" where
  "rejected_payload result =
     (case result of PlanChangeRejected code detail version hash \<Rightarrow>
        [(''status'', VStr ''rejected''), (''code'', VCode code), (''detail'', VStr detail), (''latest_plan_version'', VInt version),
         (''latest_hash'', VStr hash)]
      | PlanChangeAccepted version id_map \<Rightarrow> [(''status'', VStr ''accepted''), (''plan_version'', VInt version),
         (''id_map'', VDict (dmap (\<lambda>_. VStr) id_map))])"

end
