(* ===== verification/Task_Plan.thy ===== *)
theory Task_Plan
  imports Task_Events
begin

text \<open>
  \<^verbatim>\<open>orbit_orch/task_plan.py\<close>: the plan a TaskWorkflow holds, the status of its nodes, which of them are ready, what an
  actor may see, plan changes, follow-ups and compaction. \<open>_sop_child_changed\<close> (\<^verbatim>\<open>task_sop.py\<close>) and \<open>_update_node\<close> call each
  other, so it stands here; the recursion goes as deep as Python's stack allows (\<open>e_depth\<close>), and a method that needs more raises
  \<open>RecursionError\<close>.
\<close>

definition liftE :: "wf_error + 'a \<Rightarrow> 'a wf" where
  "liftE m = (case m of Inl e \<Rightarrow> raiseW e | Inr x \<Rightarrow> ret x)"

section \<open>Nodes\<close>

definition require_node_wf :: "string \<Rightarrow> plan_node_state wf" where
  "require_node_wf node_id = withW (\<lambda>self. case w_plan self of
     None \<Rightarrow> raiseW (ApplicationError ''unknown node'' ''SCHEMA_INVALID'')
   | Some plan \<Rightarrow> (case dget (pl_nodes plan) node_id of None \<Rightarrow> raiseW (ApplicationError ''unknown node'' ''SCHEMA_INVALID'') | Some state \<Rightarrow> ret state))"

text \<open>The keyword arguments of \<open>_update_node\<close>.\<close>

record node_update =
  nu_status :: "node_status option"
  nu_frozen :: "bool option"
  nu_current_attempt_id :: "string option option"
  nu_attempt_count :: "nat option"

definition no_update :: node_update where
  "no_update = \<lparr>nu_status = None, nu_frozen = None, nu_current_attempt_id = None, nu_attempt_count = None\<rparr>"

definition upd :: "'a option \<Rightarrow> 'a \<Rightarrow> 'a" where
  "upd new old = (case new of None \<Rightarrow> old | Some v \<Rightarrow> v)"

definition owner_of :: "task \<Rightarrow> task_node_draft \<Rightarrow> (string \<times> string) option" where
  "owner_of self draft =
     (case c_team (w_config self) of None \<Rightarrow> None
      | Some team \<Rightarrow>
          (let expert = (case d_owner_profile draft of None \<Rightarrow> None | Some p \<Rightarrow> if p \<noteq> [] \<and> p \<noteq> w_profile self then Some p else None);
               member = (case expert of None \<Rightarrow> None | Some e \<Rightarrow> find (\<lambda>m. tm_expert m = e) (team_members team));
               member = (case member of None \<Rightarrow> find (\<lambda>m. tm_role m = team_leader team) (team_members team) | Some m \<Rightarrow> Some m)
           in map_option (\<lambda>m. (tm_role m, tm_label m)) member))"

definition owner_facts :: "task \<Rightarrow> task_node_draft \<Rightarrow> payload" where
  "owner_facts self draft = (case owner_of self draft of None \<Rightarrow> []
     | Some (role, label) \<Rightarrow> (''owner_role'', VStr role) # (if label = [] then [] else [(''owner_label'', VStr label)]))"

definition round_facts :: "task \<Rightarrow> string \<Rightarrow> task_node_draft \<Rightarrow> payload" where
  "round_facts self node_id draft =
     (case dget (w_review_nodes self) node_id of None \<Rightarrow> []
      | Some r \<Rightarrow> if 0 < rn_round r then [(''review_round'', VInt (int (rn_round r)))] else [])
     @ (case d_spec draft of TeamStageSpec t \<Rightarrow>
          (let limits = ts_limits t in
           [(''team'', VDict [(''max_members'', VInt (int (l_max_members limits))), (''max_rounds'', VInt (int (l_max_rounds limits))),
              (''max_messages'', VInt (int (l_max_messages limits))), (''max_hops'', VInt (int (l_max_hops limits)))])])
        | _ \<Rightarrow> [])"

definition node_facts :: "env \<Rightarrow> task \<Rightarrow> string \<Rightarrow> plan_node_state \<Rightarrow> node_update \<Rightarrow> payload" where
  "node_facts env self node_id state updates =
     (let draft = ns_draft state; current = upd (nu_current_attempt_id updates) (ns_current_attempt_id state) in
      [(''node_type'', VType (d_type draft)), (''title'', VStr (d_title draft)),
       (''workspace_access'', VAccess (upd (d_workspace_access draft) NoAccess)),
       (''owner_profile'', VStr (case d_owner_profile draft of None \<Rightarrow> w_profile self | Some p \<Rightarrow> if p = [] then w_profile self else p)),
       (''depends_on'', VStrs (d_depends_on draft)),
       (''frozen'', VBool (upd (nu_frozen updates) (ns_frozen state))),
       (''attempt_count'', VInt (int (upd (nu_attempt_count updates) (ns_attempt_count state))))]
      @ (case current of None \<Rightarrow> [] | Some c \<Rightarrow> if c = [] then [] else [(''current_attempt_id'', VStr c)])
      @ (case d_parent_node_id draft of None \<Rightarrow> [] | Some p \<Rightarrow> if p = [] then [] else [(''parent_node_id'', VStr p)])
      @ sop_facts self node_id
      @ (if e_patched env NODE_ROUND_FACTS then round_facts self node_id draft else [])
      @ (if e_patched env NODE_OWNER_FACTS then owner_facts self draft else []))"

text \<open>\<open>all(nodes[source].status == "COMPLETED" for source, target in edges if target == node_id)\<close>; a missing source raises.\<close>

primrec sources_done :: "nodes \<Rightarrow> string \<Rightarrow> edge list \<Rightarrow> wf_error + bool" where
  "sources_done nodes node_id [] = Inr True"
| "sources_done nodes node_id (e # es) =
     (if snd e \<noteq> node_id then sources_done nodes node_id es
      else case dget nodes (fst e) of None \<Rightarrow> Inl KeyErr
        | Some s \<Rightarrow> if ns_status s = COMPLETED then sources_done nodes node_id es else Inr False)"

definition dependencies_done :: "task \<Rightarrow> string \<Rightarrow> wf_error + bool" where
  "dependencies_done self node_id =
     (case w_plan self of None \<Rightarrow> Inl AssertionError | Some plan \<Rightarrow> sources_done (pl_nodes plan) node_id (pl_edges plan))"

section \<open>Changing a node\<close>

text \<open>
  The methods below take the call of \<open>_update_node\<close> they make as their first argument; \<open>update_node\<close> ties the knot.
\<close>

type_synonym update_call = "string \<Rightarrow> string \<Rightarrow> node_update \<Rightarrow> unit wf"

definition set_node_status_with :: "update_call \<Rightarrow> string \<Rightarrow> node_status \<Rightarrow> bool option \<Rightarrow> string \<Rightarrow> unit wf" where
  "set_node_status_with call node_id status frozen reason =
     bindW (require_node_wf node_id) (\<lambda>state.
       call node_id reason (no_update\<lparr>nu_status := Some status, nu_frozen := Some (upd frozen (ns_frozen state))\<rparr>))"

definition refresh_readiness_with :: "update_call \<Rightarrow> unit wf" where
  "refresh_readiness_with call = withW (\<lambda>self. bindW (optW AssertionError (w_plan self)) (\<lambda>plan.
     forW (pl_nodes plan) (\<lambda>(node_id, state). whenW (ns_status state = PENDING)
       (withW (\<lambda>now. bindW (liftE (dependencies_done now node_id)) (\<lambda>ready.
         whenW ready (set_node_status_with call node_id READY None [])))))))"

definition any_open_blocked :: "plan_state \<Rightarrow> sop_entry \<Rightarrow> bool" where
  "any_open_blocked plan entry = list_ex (\<lambda>k. case dget (pl_nodes plan) k of None \<Rightarrow> False | Some s \<Rightarrow> ns_status s = BLOCKED) (se_open entry)"

definition sop_child_changed_with :: "update_call \<Rightarrow> string \<Rightarrow> node_status \<Rightarrow> unit wf" where
  "sop_child_changed_with call node_id status = withW (\<lambda>self.
     case (w_plan self, step_of self node_id) of
       (Some plan, Some (sop_node, part)) \<Rightarrow>
         (case (dget (pl_nodes plan) sop_node, dget (w_sops self) sop_node) of
            (Some sop, Some entry) \<Rightarrow>
              if status \<in> {COMPLETED, SKIPPED} then
                (let entry' = entry\<lparr>se_open := remove1 node_id (se_open entry)\<rparr> in
                 thenW (modW (\<lambda>s. s\<lparr>w_sops := dset sop_node entry' (w_sops s)\<rparr>))
                 (whenW (se_open entry' = [] \<and> ns_status sop \<noteq> COMPLETED)
                   (thenW (set_node_status_with call sop_node COMPLETED (Some True) ''every step completed'')
                     (modW (\<lambda>s. s\<lparr>w_completed_nodes := w_completed_nodes s + 1\<rparr>)))))
              else if status = BLOCKED then
                whenW (ns_status sop \<noteq> BLOCKED)
                  (set_node_status_with call sop_node BLOCKED None
                    (''step '' @ nat_str (sp_index part) @ '' ('' @ sp_subject part @ '') is blocked''))
              else whenW (ns_status sop = BLOCKED \<and> \<not> any_open_blocked plan entry)
                (set_node_status_with call sop_node RUNNING None ''a blocked step is back in play'')
          | _ \<Rightarrow> ret ())
     | _ \<Rightarrow> ret ())"

definition changed_node :: "env \<Rightarrow> plan_node_state \<Rightarrow> node_update \<Rightarrow> plan_node_state" where
  "changed_node env state updates = state\<lparr>ns_status := upd (nu_status updates) (ns_status state),
     ns_frozen := upd (nu_frozen updates) (ns_frozen state),
     ns_current_attempt_id := upd (nu_current_attempt_id updates) (ns_current_attempt_id state),
     ns_attempt_count := upd (nu_attempt_count updates) (ns_attempt_count state),
     ns_created_by := (if e_patched env NODE_KEEPS_AUTHOR then ns_created_by state else None)\<rparr>"

definition put_node :: "env \<Rightarrow> string \<Rightarrow> plan_node_state \<Rightarrow> task \<Rightarrow> task" where
  "put_node env node_id changed self =
     (case w_plan self of None \<Rightarrow> self
      | Some plan \<Rightarrow> self\<lparr>w_plan := Some (with_updates (e_px env) plan None (Some (dset node_id changed (pl_nodes plan))) None)\<rparr>)"

definition status_event :: "env \<Rightarrow> string \<Rightarrow> string \<Rightarrow> plan_node_state \<Rightarrow> node_update \<Rightarrow> task \<Rightarrow> task" where
  "status_event env node_id reason state updates self =
     emit env ''node.status_changed''
       ([(''node_id'', VStr node_id), (''from_status'', VNode (ns_status state)), (''to_status'', VNode (upd (nu_status updates) (ns_status state)))]
        @ (if reason = [] then [] else [(''reason'', VStr reason)])
        @ (if e_patched env EVENT_PAYLOADS then node_facts env self node_id state updates else [])) self"

definition update_body :: "env \<Rightarrow> update_call \<Rightarrow> update_call" where
  "update_body env call node_id reason updates =
     bindW (require_node_wf node_id) (\<lambda>state.
     let new_status = upd (nu_status updates) (ns_status state) in
     thenW (whenW (new_status \<noteq> ns_status state \<and> e_patched env ''task-event-vocabulary'') (modW (status_event env node_id reason state updates)))
     (thenW (modW (put_node env node_id (changed_node env state updates)))
     (thenW (whenW (nu_status updates \<in> {Some COMPLETED, Some RETRY_PENDING}) (refresh_readiness_with call))
     (whenW (new_status \<noteq> ns_status state) (sop_child_changed_with call node_id new_status)))))"

primrec update_deep :: "nat \<Rightarrow> env \<Rightarrow> update_call" where
  "update_deep 0 env node_id reason updates = raiseW RecursionError"
| "update_deep (Suc n) env node_id reason updates = update_body env (update_deep n env) node_id reason updates"

definition update_node :: "env \<Rightarrow> update_call" where
  "update_node env = update_deep (e_depth env) env"

definition set_node_status :: "env \<Rightarrow> string \<Rightarrow> node_status \<Rightarrow> bool option \<Rightarrow> string \<Rightarrow> unit wf" where
  "set_node_status env = set_node_status_with (update_node env)"

definition refresh_readiness :: "env \<Rightarrow> unit wf" where
  "refresh_readiness env = refresh_readiness_with (update_node env)"

section \<open>Readiness and scheduling order\<close>

definition all_nodes_completed :: "task \<Rightarrow> bool" where
  "all_nodes_completed self =
     (case w_plan self of None \<Rightarrow> False | Some plan \<Rightarrow> list_all (\<lambda>s. ns_status s \<in> {COMPLETED, SKIPPED}) (dvals (pl_nodes plan)))"

text \<open>In microseconds.\<close>

definition backoff_remaining :: "env \<Rightarrow> task \<Rightarrow> string \<Rightarrow> int" where
  "backoff_remaining env self node_id =
     (case dget (w_node_retry self) node_id of None \<Rightarrow> 0
      | Some entry \<Rightarrow> (case re_retry_at entry of None \<Rightarrow> 0 | Some due \<Rightarrow> max 0 (due - e_now env)))"

definition max_concurrency :: "task \<Rightarrow> nat" where
  "max_concurrency self = (case p_max_concurrency (w_policy self) of None \<Rightarrow> DEFAULT_MAX_CONCURRENCY
     | Some n \<Rightarrow> if n = 0 then DEFAULT_MAX_CONCURRENCY else n)"

definition running_count :: "task \<Rightarrow> nat" where
  "running_count self = length (filter (\<lambda>a. x_status a = ARunning) (dvals (w_attempts self)))"

definition write_busy :: "task \<Rightarrow> bool" where
  "write_busy self = list_ex (\<lambda>a. x_workspace_access a = WriteAccess) (dvals (w_attempts self))"

definition SCHEDULED_TYPES :: "node_type list" where
  "SCHEDULED_TYPES = [AgentTurn, SopStage, TeamStage, Approval, Wait, Checkpoint]"

definition agent_types :: "node_type list" where
  "agent_types = [AgentTurn, SopStage, TeamStage]"

text \<open>One node of the loop of \<open>_ready_order\<close>, on the slots left, whether the workspace has a writer, and the order so far.\<close>

definition ready_step ::
  "env \<Rightarrow> task \<Rightarrow> int \<times> bool \<times> string list \<Rightarrow> string \<times> plan_node_state \<Rightarrow> wf_error + int \<times> bool \<times> string list" where
  "ready_step env self = (\<lambda>(slots, busy, order) (node_id, state).
     if ns_status state \<notin> {READY, RETRY_PENDING} \<or> has_key (w_attempts self) node_id
        \<or> d_type (ns_draft state) \<notin> set SCHEDULED_TYPES \<or> 0 < backoff_remaining env self node_id
     then Inr (slots, busy, order)
     else bindE (dependencies_done self node_id) (\<lambda>ok.
       if \<not> ok then Inr (slots, busy, order)
       else if d_type (ns_draft state) = SopStage \<and> e_patched env SOP_EXPANSION then Inr (slots, busy, order @ [node_id])
       else if d_type (ns_draft state) \<in> set agent_types then
         (if slots \<le> 0 \<or> d_workspace_access (ns_draft state) = Some WriteAccess \<and> busy then Inr (slots, busy, order)
          else Inr (slots - 1, busy \<or> d_workspace_access (ns_draft state) = Some WriteAccess, order @ [node_id]))
       else Inr (slots, busy, order @ [node_id])))"

definition ready_order :: "env \<Rightarrow> task \<Rightarrow> wf_error + string list" where
  "ready_order env self =
     (case w_plan self of None \<Rightarrow> Inr []
      | Some plan \<Rightarrow>
          bindE (foldE (ready_step env self) (int (max_concurrency self) - int (running_count self), write_busy self, []) (pl_nodes plan))
            (\<lambda>(slots, busy, order). Inr order))"

definition has_ready_node :: "env \<Rightarrow> task \<Rightarrow> wf_error + bool" where
  "has_ready_node env self =
     (if w_status self \<in> set OPERATOR_HELD \<or> w_status self = TS_CANCELLED then Inr False
      else if e_patched env SCHEDULE_CONCURRENCY then bindE (ready_order env self) (\<lambda>order. Inr (order \<noteq> []))
      else Inr (case w_plan self of None \<Rightarrow> False
        | Some plan \<Rightarrow> list_ex (\<lambda>(k, s). ns_status s \<in> {READY, RETRY_PENDING} \<and> \<not> has_key (w_attempts self) k
            \<and> backoff_remaining env self k \<le> 0) (pl_nodes plan)))"

end
