(* ===== verification/Task_Changes.thy ===== *)
theory Task_Changes
  imports Task_Plan
begin

text \<open>
  The second half of \<^verbatim>\<open>orbit_orch/task_plan.py\<close>: what an actor may see, the policy a plan change is judged by, plan changes,
  follow-up messages and compaction; with the helpers of \<^verbatim>\<open>task_attempts.py\<close> and \<^verbatim>\<open>task_review.py\<close> they call.
\<close>

section \<open>Text\<close>

text \<open>
  \<open>next((line.strip() for line in text.splitlines() if line.strip()), "Follow-up")\<close>: a line break is white space, so the first
  line that is not blank starts at the first character that is not.
\<close>

definition first_line :: "string \<Rightarrow> string" where
  "first_line text = (let rest = dropWhile is_space text in
     if rest = [] then ''Follow-up'' else rstrip (takeWhile (\<lambda>c. \<not> is_line_break c) rest))"

section \<open>Who a node belongs to\<close>

definition exploration_node :: "task \<Rightarrow> string" where
  "exploration_node self = deterministic_id (w_task_id self @ '':exploration'') ''n''"

definition attempt_id_of :: "task \<Rightarrow> string \<Rightarrow> nat \<Rightarrow> string" where
  "attempt_id_of self node_id number = deterministic_id (w_task_id self @ '':'' @ node_id @ '':'' @ nat_str number) ''att''"

definition leader_expert :: "team \<Rightarrow> string option" where
  "leader_expert team = map_option tm_expert (find (\<lambda>m. tm_role m = team_leader team) (team_members team))"

definition attempt_profile :: "task \<Rightarrow> string option \<Rightarrow> wf_error + string" where
  "attempt_profile self owner_profile =
     (if owner_profile \<noteq> None \<and> owner_profile \<noteq> Some [] \<and> owner_profile \<noteq> Some (w_profile self) then Inr (the owner_profile)
      else case c_team (w_config self) of
        Some team \<Rightarrow> (case leader_expert team of None \<Rightarrow> Inl StopIter | Some e \<Rightarrow> Inr e)
      | None \<Rightarrow> Inr (case c_expert (w_config self) of None \<Rightarrow> w_profile self | Some e \<Rightarrow> if e = [] then w_profile self else e))"

definition is_leader_node :: "task \<Rightarrow> string \<Rightarrow> wf_error + bool" where
  "is_leader_node self node_id =
     (case w_plan self of None \<Rightarrow> Inl AssertionError
      | Some plan \<Rightarrow>
          if (case dget (w_follow_ups self) node_id of None \<Rightarrow> False | Some f \<Rightarrow> fu_mention f \<notin> {None, Some []}) then Inr False
          else if node_id = exploration_node self \<or> has_key (w_follow_ups self) node_id \<or> has_key (w_review_nodes self) node_id then Inr True
          else case c_team (w_config self) of None \<Rightarrow> Inr False
            | Some team \<Rightarrow> (case dget (pl_nodes plan) node_id of None \<Rightarrow> Inl KeyErr
                | Some state \<Rightarrow> bindE (attempt_profile self (d_owner_profile (ns_draft state))) (\<lambda>p. Inr (Some p = leader_expert team))))"

definition own_node_of :: "task \<Rightarrow> string option \<Rightarrow> string option" where
  "own_node_of self attempt_id = map_option fst (find (\<lambda>(k, a). Some (x_attempt_id a) = attempt_id) (w_attempts self))"

definition visible_to :: "task \<Rightarrow> actor option \<Rightarrow> wf_error + string list option" where
  "visible_to self actor =
     (case (actor, w_plan self) of
        (Some a, Some plan) \<Rightarrow>
          if a_kind a \<noteq> Agent then Inr None
          else (case own_node_of self (a_attempt_id a) of None \<Rightarrow> Inr (Some [])
            | Some own \<Rightarrow> (case dget (pl_nodes plan) own of None \<Rightarrow> Inr (Some [])
                | Some state \<Rightarrow> bindE (is_leader_node self own) (\<lambda>leader.
                    if leader then Inr None
                    else (let attempts = map (attempt_id_of self own) [1..<ns_attempt_count state + 1];
                              seen = own # map fst (filter (\<lambda>(k, s). case ns_created_by s of None \<Rightarrow> False | Some c \<Rightarrow> c \<in> set attempts) (pl_nodes plan))
                          in Inr (Some (seen @ map fst (filter (\<lambda>e. snd e \<in> set seen) (pl_edges plan))))))))
      | _ \<Rightarrow> Inr None)"

definition active_attempt_id :: "task \<Rightarrow> string option" where
  "active_attempt_id self = map_option x_attempt_id (find (\<lambda>a. x_status a = ARunning) (dvals (w_attempts self)))"

section \<open>The policy of a plan change\<close>

definition team_experts_for :: "env \<Rightarrow> task \<Rightarrow> plan_change_command option \<Rightarrow> wf_error + string list option" where
  "team_experts_for env self command =
     (case (command, c_team (w_config self), w_plan self) of
        (Some c, Some team, Some plan) \<Rightarrow>
          if a_kind (pc_actor c) = Agent \<and> e_patched env TEAM_STAGE then
            (case own_node_of self (a_attempt_id (pc_actor c)) of None \<Rightarrow> Inr None
             | Some own \<Rightarrow> if \<not> has_key (pl_nodes plan) own then Inr None
                 else bindE (is_leader_node self own) (\<lambda>leader. Inr (if leader then Some (map tm_expert (team_members team)) else None)))
          else Inr None
      | _ \<Rightarrow> Inr None)"

definition plan_policy_wf :: "env \<Rightarrow> task \<Rightarrow> plan_change_command option \<Rightarrow> wf_error + plan_policy" where
  "plan_policy_wf env self command =
     (case w_plan self of None \<Rightarrow> Inl AssertionError
      | Some plan \<Rightarrow>
          (let nesting = e_patched env PLAN_NESTING in
           bindE (case command of
               Some c \<Rightarrow> if a_kind (pc_actor c) = Agent \<and> e_patched env PLAN_VISIBILITY then visible_to self (Some (pc_actor c)) else Inr None
             | None \<Rightarrow> Inr None) (\<lambda>visible.
           bindE (team_experts_for env self command) (\<lambda>experts.
           Inr (default_policy\<lparr>
             pp_max_depth := (if nesting then Some (case c_team (w_config self) of None \<Rightarrow> DEFAULT_MAX_DEPTH | Some t \<Rightarrow> team_max_depth t) else None),
             pp_max_chain := (if nesting then MAX_PLAN_CHAIN else 8), pp_legacy_depth := \<not> nesting,
             pp_visible_node_ids := visible,
             pp_allowed_node_types := (if e_patched env TEAM_STAGE then NODE_TYPES_WITH_TEAM else NODE_TYPES),
             pp_agent_team_experts := experts,
             pp_active_attempt_id := active_attempt_id self,
             pp_active_attempt_ids := map x_attempt_id (filter (\<lambda>a. x_status a = ARunning) (dvals (w_attempts self))),
             pp_active_node_ids := map fst (filter (\<lambda>(k, s). ns_status s = RUNNING) (pl_nodes plan)),
             pp_max_budget := w_budgets self,
             pp_archived_node_ids := ac_ids (w_archive self)\<rparr>)))))"

definition commit_facts :: "env \<Rightarrow> plan_change_command \<Rightarrow> plan_state \<Rightarrow> payload" where
  "commit_facts env command plan =
     (if e_patched env EVENT_PAYLOADS
      then [(''change_command_id'', VStr (pc_command_id command)), (''parent_version'', VInt (pl_version plan - 1)), (''actor'', VActor (pc_actor command))]
      else [])"

definition committed :: "env \<Rightarrow> plan_change_command \<Rightarrow> payload \<Rightarrow> task \<Rightarrow> task" where
  "committed env command extra self =
     (case w_plan self of None \<Rightarrow> self
      | Some plan \<Rightarrow> emit env ''plan.version_committed''
          ([(''plan_version'', VInt (pl_version plan)), (''hash'', VStr (pl_hash plan)), (''command_id'', VStr (pc_command_id command))]
           @ commit_facts env command plan @ extra) self)"

text \<open>\<open>apply\<close> of the plan engine on the workflow's plan. What it does not catch goes through the workflow.\<close>

definition judge :: "env \<Rightarrow> plan_change_command \<Rightarrow> plan_policy \<Rightarrow> plan_apply_outcome wf" where
  "judge env command policy = withW (\<lambda>self. bindW (optW AssertionError (w_plan self)) (\<lambda>plan.
     case apply_command (e_px env) plan command policy of Inl e \<Rightarrow> raiseW (PlanExn e) | Inr outcome \<Rightarrow> ret outcome))"

definition system_command :: "task \<Rightarrow> string \<Rightarrow> int \<Rightarrow> plan_op list \<Rightarrow> string \<Rightarrow> plan_change_command" where
  "system_command self seed version ops reason = \<lparr>pc_command_id = command_hash seed, pc_task_id = w_task_id self,
     pc_base_plan_version = version, pc_actor = \<lparr>a_kind = System, a_id = ''task-workflow'', a_attempt_id = None, a_profile = None\<rparr>,
     pc_ops = ops, pc_reason = reason\<rparr>"

section \<open>Compaction\<close>

definition archive_add :: "compaction \<Rightarrow> plan_archive \<Rightarrow> plan_archive" where
  "archive_add outcome archive = \<lparr>
     ac_count = ac_count archive + length (co_removed outcome),
     ac_ids = last_n MAX_ARCHIVED_IDS (ac_ids archive @ co_removed outcome),
     ac_hash = sha (json_dumps (JArr [JStr (ac_hash archive), JArr (map JStr (co_removed outcome)), JArr (map JStr (co_titles outcome))])),
     ac_recent = last_n ARCHIVE_RECENT_TITLES (ac_recent archive @ map (take 80) (co_titles outcome))\<rparr>"

definition dpop_all :: "'k list \<Rightarrow> ('k, 'v) dict \<Rightarrow> ('k, 'v) dict" where
  "dpop_all ks d = foldl (\<lambda>e k. dpop k e) d ks"

definition compact_plan :: "env \<Rightarrow> bool \<Rightarrow> nat \<Rightarrow> bool wf" where
  "compact_plan env force keep_recent = withW (\<lambda>self.
     case w_plan self of None \<Rightarrow> ret False
     | Some plan \<Rightarrow>
         if \<not> e_patched env PLAN_COMPACTION \<or> (\<not> force \<and> plan_bytes (e_px env) plan \<le> PLAN_COMPACT_BYTES) then ret False
         else (case compact (e_px env) plan (dkeys (w_attempts self)) keep_recent of None \<Rightarrow> ret False
           | Some outcome \<Rightarrow>
               (let archive = archive_add outcome (w_archive self); new = co_plan outcome;
                    cid = command_hash (''compact:'' @ w_task_id self @ '':'' @ int_str (pl_version new)) in
                thenW (modW (\<lambda>s. emit env ''plan.version_committed''
                   ([(''plan_version'', VInt (pl_version new)), (''parent_version'', VInt (pl_version plan)), (''hash'', VStr (pl_hash new)),
                     (''command_id'', VStr cid), (''actor'', VActor \<lparr>a_kind = System, a_id = ''task-workflow'', a_attempt_id = None, a_profile = None\<rparr>),
                     (''reason'', VStr ''compaction'')]
                    @ (if e_patched env EVENT_PAYLOADS then [(''change_command_id'', VStr cid)] else [])
                    @ [(''archived'', VDict [(''count'', VInt (int (ac_count archive))), (''hash'', VStr (ac_hash archive)),
                        (''added'', VInt (int (length (co_removed outcome))))])])
                   (s\<lparr>w_plan := Some new, w_archive := archive,
                      w_follow_ups := dpop_all (co_removed outcome) (w_follow_ups s),
                      w_node_retry := dpop_all (co_removed outcome) (w_node_retry s),
                      w_wait_deadlines := dpop_all (co_removed outcome) (w_wait_deadlines s)\<rparr>)))
                (ret True))))"

section \<open>Blocked nodes that come back\<close>

definition unblock_node :: "env \<Rightarrow> string \<Rightarrow> string \<Rightarrow> unit wf" where
  "unblock_node env reason node_id = withW (\<lambda>self.
     case (dget (w_node_retry self) node_id, w_plan self) of
       (Some entry, Some plan) \<Rightarrow>
         if \<not> re_blocked entry \<or> \<not> has_key (pl_nodes plan) node_id then ret ()
         else thenW (modW (\<lambda>s. s\<lparr>w_node_retry := dset node_id
                (entry\<lparr>re_failed := 0, re_blocked := False, re_blocked_for := [], re_retry_at := None\<rparr>) (w_node_retry s)\<rparr>))
              (bindW (require_node_wf node_id) (\<lambda>state.
                whenW (ns_status state = BLOCKED) (set_node_status env node_id READY None reason)))
     | _ \<Rightarrow> ret ())"

definition unblock_nodes :: "env \<Rightarrow> string list \<Rightarrow> string \<Rightarrow> unit wf" where
  "unblock_nodes env node_ids reason = forW node_ids (unblock_node env reason)"

definition unblock_changed :: "env \<Rightarrow> plan_change_command \<Rightarrow> unit wf" where
  "unblock_changed env command =
     (if a_kind (pc_actor command) = Agent \<or> \<not> e_patched env RETRY_POLICY then ret ()
      else unblock_nodes env (List.map_filter (\<lambda>op. case op of UpdateNodeOp node_id patch \<Rightarrow> Some node_id | _ \<Rightarrow> None) (pc_ops command))
        ''the plan change on this node'')"

section \<open>The team's conversation\<close>

definition team_message ::
  "env \<Rightarrow> string \<Rightarrow> string option \<Rightarrow> string \<Rightarrow> string \<Rightarrow> string list \<Rightarrow> string \<Rightarrow> nat \<Rightarrow> task \<Rightarrow> task" where
  "team_message env node_id attempt_id kind from_role to_roles text round_no self =
     (let members = (case c_team (w_config self) of None \<Rightarrow> [] | Some team \<Rightarrow> team_members team);
          label = (case find (\<lambda>m. tm_role m = from_role \<and> tm_label m \<noteq> []) members of None \<Rightarrow> [] | Some m \<Rightarrow> tm_label m) in
      emit env ''team.message''
        ([(''node_id'', VStr node_id)] @ (case attempt_id of None \<Rightarrow> [] | Some a \<Rightarrow> if a = [] then [] else [(''attempt_id'', VStr a)])
         @ [(''role'', VStr from_role), (''from_role'', VStr from_role), (''to_roles'', VStrs to_roles), (''text'', VStr (take 2000 text)),
            (''kind'', VStr kind), (''round'', VInt (int round_no)), (''hop'', VInt 0)]
         @ (if label = [] then [] else [(''label'', VStr label), (''from_label'', VStr label)])) self)"

definition team_assign :: "env \<Rightarrow> plan_change_command \<Rightarrow> (string, string) dict \<Rightarrow> team \<Rightarrow> plan_op \<Rightarrow> task \<Rightarrow> task" where
  "team_assign env command id_map team op self =
     (case op of
        AddNodeOp node \<Rightarrow>
          (let node_id = upd (dget id_map (d_node_id node)) (d_node_id node);
               state = (case w_plan self of None \<Rightarrow> None | Some plan \<Rightarrow> dget (pl_nodes plan) node_id);
               owner = (case state of None \<Rightarrow> None | Some s \<Rightarrow> owner_of self (ns_draft s)) in
           case owner of None \<Rightarrow> self
           | Some (role, label) \<Rightarrow> if role = team_leader team then self
               else (let goal = (case d_spec node of AgentTurnSpec g i \<Rightarrow> if g = [] then d_title node else g
                       | TeamStageSpec t \<Rightarrow> if ts_goal t = [] then d_title node else ts_goal t | _ \<Rightarrow> d_title node) in
                     team_message env node_id (a_attempt_id (pc_actor command)) ''assign'' (team_leader team) [role]
                       (if goal \<noteq> d_title node then d_title node @ [CHR 0x0A] @ goal else goal) 0 self))
      | _ \<Rightarrow> self)"

definition emit_team_assigns :: "env \<Rightarrow> plan_change_command \<Rightarrow> (string, string) dict \<Rightarrow> task \<Rightarrow> task" where
  "emit_team_assigns env command id_map self =
     (case c_team (w_config self) of None \<Rightarrow> self
      | Some team \<Rightarrow> if a_kind (pc_actor command) \<noteq> Agent \<or> \<not> e_patched env TEAM_MESSAGES \<or> w_plan self = None then self
          else foldl (\<lambda>s op. team_assign env command id_map team op s) self (pc_ops command))"

section \<open>Plan changes\<close>

definition is_accepted :: "plan_change_result \<Rightarrow> bool" where
  "is_accepted r = (case r of PlanChangeAccepted v m \<Rightarrow> True | _ \<Rightarrow> False)"

definition submit_judged :: "env \<Rightarrow> plan_change_command \<Rightarrow> answer wf" where
  "submit_judged env command =
     bindW (withW (\<lambda>self. liftE (plan_policy_wf env self (Some command)))) (\<lambda>policy.
     bindW (judge env command policy) (\<lambda>outcome.
     thenW (modW (\<lambda>s. (remember env (pc_command_id command) (PlanChange (po_result outcome)) s)\<lparr>w_updates := w_updates s + 1\<rparr>))
     (thenW (if is_accepted (po_result outcome) then
        thenW (modW (\<lambda>s. s\<lparr>w_plan := Some (po_plan outcome)\<rparr>))
        (thenW (refresh_readiness env)
        (thenW (modW (committed env command []))
        (thenW (modW (emit_team_assigns env command (acc_id_map (po_result outcome))))
        (thenW (unblock_changed env command)
        (bindW (compact_plan env False KEEP_RECENT_COMPLETED) (\<lambda>_. ret ()))))))
      else modW (emit env ''plan.change_rejected'' (rejected_payload (po_result outcome))))
     (ret (PlanChange (po_result outcome))))))"

text \<open>\<open>None\<close>: the update waits until \<open>run\<close> has made the plan, and is then judged (\<open>submit_judged\<close>).\<close>

definition submit_plan_change :: "env \<Rightarrow> plan_change_command \<Rightarrow> answer option wf" where
  "submit_plan_change env command = withW (\<lambda>self.
     case dget (w_dedup self) (pc_command_id command) of Some previous \<Rightarrow> ret (Some previous)
     | None \<Rightarrow>
         if w_plan self = None \<and> e_patched env EARLY_UPDATE_WAITS then ret None
         else thenW (whenW (w_plan self = None) (modW (\<lambda>s.
                let task_id = (if w_task_id s = [] then pc_task_id command else w_task_id s);
                    profile = (if w_profile s = [] then ''default@1'' else w_profile s) in
                s\<lparr>w_task_id := task_id, w_profile := profile, w_plan := Some (initial_plan (e_px env) task_id (w_goal s) profile)\<rparr>)))
              (bindW (submit_judged env command) (\<lambda>a. ret (Some a))))"

section \<open>Follow-ups\<close>

definition without_message :: "nat \<Rightarrow> inbox_message list \<Rightarrow> inbox_message list" where
  "without_message seq inbox = filter (\<lambda>m. im_message_seq m \<noteq> seq) inbox"

definition too_many :: "plan_change_result \<Rightarrow> bool" where
  "too_many r = (case r of PlanChangeRejected c d v h \<Rightarrow> c = TOO_MANY_OPS | _ \<Rightarrow> False)"

text \<open>\<open>f"{code}: {detail}"\<close> of a rejection.\<close>

primrec code_str :: "plan_reject_code \<Rightarrow> string" where
  "code_str VERSION_CONFLICT = ''VERSION_CONFLICT''"
| "code_str FROZEN_NODE = ''FROZEN_NODE''"
| "code_str TYPE_NOT_ALLOWED = ''TYPE_NOT_ALLOWED''"
| "code_str POLICY_DENIED = ''POLICY_DENIED''"
| "code_str BUDGET_EXCEEDED = ''BUDGET_EXCEEDED''"
| "code_str CYCLE = ''CYCLE''"
| "code_str DEPTH_EXCEEDED = ''DEPTH_EXCEEDED''"
| "code_str TOO_MANY_OPS = ''TOO_MANY_OPS''"
| "code_str VISIBILITY = ''VISIBILITY''"
| "code_str SCHEMA_INVALID = ''SCHEMA_INVALID''"
| "code_str STALE_ATTEMPT = ''STALE_ATTEMPT''"

definition reject_text :: "plan_change_result \<Rightarrow> string" where
  "reject_text r = (case r of PlanChangeRejected c d v h \<Rightarrow> code_str c @ '': '' @ d | _ \<Rightarrow> [])"

definition plan_version_of :: "task \<Rightarrow> int" where
  "plan_version_of self = (case w_plan self of None \<Rightarrow> 0 | Some plan \<Rightarrow> pl_version plan)"

text \<open>A command of the workflow itself, judged by the policy of the moment.\<close>

definition judge_system :: "env \<Rightarrow> plan_change_command \<Rightarrow> plan_apply_outcome wf" where
  "judge_system env command = bindW (withW (\<lambda>self. liftE (plan_policy_wf env self None))) (judge env command)"

definition drop_message :: "nat \<Rightarrow> task \<Rightarrow> task" where
  "drop_message seq self = self\<lparr>w_inbox := without_message seq (w_inbox self)\<rparr>"

definition follow_up_rejected :: "env \<Rightarrow> nat \<Rightarrow> plan_change_result \<Rightarrow> unit wf" where
  "follow_up_rejected env seq result =
     thenW (modW (emit env ''plan.change_rejected'' (rejected_payload result)))
     (thenW (whenW (e_patched env SIGNAL_CLOSED_CHILD) (modW (drop_message seq)))
     (whenW (e_patched env FOLLOW_UP_REJECTION_VISIBLE) (modW (set_status env TS_PAUSED_NEEDS_REVIEW
       (''message '' @ nat_str seq @ '' could not be added to the plan: '' @ reject_text result)))))"

definition follow_up_accepted :: "env \<Rightarrow> nat \<Rightarrow> bool \<Rightarrow> plan_change_command \<Rightarrow> plan_apply_outcome \<Rightarrow> unit wf" where
  "follow_up_accepted env seq consumed command outcome =
     thenW (whenW consumed (modW (drop_message seq)))
     (thenW (modW (\<lambda>s. s\<lparr>w_plan := Some (po_plan outcome)\<rparr>))
     (thenW (refresh_readiness env)
     (thenW (modW (committed env command []))
     (bindW (optW KeyErr (dget (acc_id_map (po_result outcome)) ''tmp:1'')) (\<lambda>node_id.
        modW (\<lambda>s. s\<lparr>w_follow_ups := dset node_id \<lparr>fu_from = w_last_attempt_id s, fu_seq = seq, fu_mention = None, fu_relay = False\<rparr>
          (w_follow_ups s)\<rparr>))))))"

text \<open>The command with the version the plan has now, when a compaction has moved it.\<close>

definition rebase :: "bool \<Rightarrow> plan_change_command \<Rightarrow> plan_change_command wf" where
  "rebase moved command = getW (\<lambda>self. if moved then command\<lparr>pc_base_plan_version := plan_version_of self\<rparr> else command)"

definition start_follow_up :: "env \<Rightarrow> inbox_message \<Rightarrow> unit wf" where
  "start_follow_up env message = withW (\<lambda>self.
     let seq = im_message_seq message;
         bounded = (e_patched env FOLLOW_UP_BOUNDED \<and> e_patched env INBOX_CONSUME);
         goal = (if bounded then take FOLLOW_UP_GOAL_CHARS (im_text message) else im_text message);
         ops = [AddNodeOp (new_draft ''tmp:1'' (take 200 (first_line (im_text message))) (AgentTurnSpec goal []))];
         command0 = system_command self (''follow-up:'' @ w_task_id self @ '':'' @ nat_str seq) (plan_version_of self) ops ''follow-up message'' in
     bindW (optW AssertionError (w_plan self)) (\<lambda>_.
     bindW (if bounded then compact_plan env False KEEP_RECENT_COMPLETED else ret False) (\<lambda>compacted.
     bindW (rebase compacted command0) (\<lambda>command1.
     bindW (judge_system env command1) (\<lambda>outcome1.
     bindW (if bounded \<and> too_many (po_result outcome1) then compact_plan env True 0 else ret False) (\<lambda>again.
     bindW (rebase again command1) (\<lambda>command.
     bindW (if again then judge_system env command else ret outcome1) (\<lambda>outcome.
       if is_accepted (po_result outcome)
       then follow_up_accepted env seq (bounded \<and> length (im_text message) \<le> FOLLOW_UP_GOAL_CHARS) command outcome
       else follow_up_rejected env seq (po_result outcome)))))))))"

section \<open>Exploration and checkpoints\<close>

definition exploration_spent_without_plan :: "env \<Rightarrow> task \<Rightarrow> attempt_finished_signal \<Rightarrow> bool" where
  "exploration_spent_without_plan env self signal \<longleftrightarrow> af_node_id signal = exploration_node self
     \<and> (case af_result signal of None \<Rightarrow> False | Some r \<Rightarrow> ar_budget_exhausted r) \<and> plan_version_of self = 1
     \<and> e_patched env ''task-exploration-budget''"

definition checkpoint_payload :: "env \<Rightarrow> task \<Rightarrow> string \<Rightarrow> payload" where
  "checkpoint_payload env self node_id =
     [(''tenant_id'', VStr (w_tenant_id self)), (''task_id'', VStr (w_task_id self)), (''node_id'', VStr node_id)]
     @ (if e_patched env ''checkpoint-node-explicit-identity''
        then [(''attempt_id'', VStr (deterministic_id (w_task_id self @ '':'' @ node_id @ '':checkpoint'') ''att'')), (''seq'', VInt 0), (''kind'', VStr ''plan'')]
        else [])"

section \<open>The plan an actor is shown\<close>

record node_view =
  nv_node_id :: string
  nv_type :: node_type
  nv_title :: string
  nv_status :: node_status
  nv_depends_on :: "string list"
  nv_workspace_access :: workspace_access
  nv_owner_profile :: string
  nv_frozen :: bool
  nv_current_attempt_id :: "string option"
  nv_attempt_count :: nat
  nv_parent_node_id :: "string option"
  nv_facts :: payload

record plan_view =
  pv_plan_version :: int
  pv_hash :: string
  pv_nodes :: "node_view list"
  pv_edges :: "edge list"
  pv_archived :: "plan_archive option"

definition node_view_of :: "task \<Rightarrow> string \<times> plan_node_state \<Rightarrow> node_view" where
  "node_view_of self = (\<lambda>(node_id, state). let draft = ns_draft state in
     \<lparr>nv_node_id = node_id, nv_type = d_type draft, nv_title = d_title draft, nv_status = ns_status state,
      nv_depends_on = d_depends_on draft, nv_workspace_access = upd (d_workspace_access draft) NoAccess,
      nv_owner_profile = (case d_owner_profile draft of None \<Rightarrow> w_profile self | Some p \<Rightarrow> if p = [] then w_profile self else p),
      nv_frozen = ns_frozen state, nv_current_attempt_id = ns_current_attempt_id state, nv_attempt_count = ns_attempt_count state,
      nv_parent_node_id = d_parent_node_id draft,
      nv_facts = sop_facts self node_id @ round_facts self node_id draft @ owner_facts self draft\<rparr>)"

definition get_plan :: "actor option \<Rightarrow> task \<Rightarrow> wf_error + plan_view" where
  "get_plan actor self =
     (case w_plan self of None \<Rightarrow> Inl (ApplicationError ''plan is not initialized'' [])
      | Some plan \<Rightarrow> bindE (visible_to self actor) (\<lambda>visible.
          let shown = (\<lambda>k. case visible of None \<Rightarrow> True | Some vs \<Rightarrow> k \<in> set vs);
              nodes = dfilter (\<lambda>k _. shown k) (pl_nodes plan) in
          Inr \<lparr>pv_plan_version = pl_version plan, pv_hash = pl_hash plan, pv_nodes = map (node_view_of self) nodes,
            pv_edges = filter (\<lambda>e. has_key nodes (fst e) \<and> has_key nodes (snd e)) (pl_edges plan),
            pv_archived = (if ac_count (w_archive self) = 0 then None else Some (w_archive self))\<rparr>))"

end
