(* ===== verification/Task_Retry.thy ===== *)
theory Task_Retry
  imports Task_Changes
begin

text \<open>
  \<^verbatim>\<open>orbit_orch/task_budget.py\<close> and \<^verbatim>\<open>orbit_orch/task_retry.py\<close>: reserving budget for an attempt and settling it, and what
  happens to a node whose attempt did not complete it.
\<close>

section \<open>The budget of the task\<close>

definition remaining_wf :: "task \<Rightarrow> budget_field \<Rightarrow> nat option" where
  "remaining_wf self = remaining (w_budgets self) (w_usage self) (reservations self)"

definition reserve_for :: "string \<Rightarrow> nat \<Rightarrow> (budget_field \<Rightarrow> nat option) option \<Rightarrow> (string + budget) wf" where
  "reserve_for node_id share pool =
     bindW (require_node_wf node_id) (\<lambda>state. getW (\<lambda>self. reserve (d_budget (ns_draft state)) (remaining_wf self) share pool))"

definition ask_review :: "env \<Rightarrow> string \<Rightarrow> task \<Rightarrow> task" where
  "ask_review env reason self = set_status env TS_PAUSED_NEEDS_REVIEW reason self"

text \<open>\<open>self._status not in OPERATOR_HELD and not closed(self._status)\<close>.\<close>

definition at_work :: "task \<Rightarrow> bool" where
  "at_work self \<longleftrightarrow> w_status self \<notin> set OPERATOR_HELD \<and> \<not> closed (w_status self)"

definition hold_for_budget :: "env \<Rightarrow> string \<Rightarrow> string \<Rightarrow> task \<Rightarrow> task" where
  "hold_for_budget env node_id detail self =
     (let told = emit env ''budget.exhausted'' [(''scope'', VStr ''task''), (''node_id'', VStr node_id), (''detail'', VStr detail)] self in
      if at_work told
      then (ask_review env (''budget exhausted: node '' @ node_id @ '' cannot start ('' @ detail @ '')'') told)\<lparr>w_budget_hold := True\<rparr>
      else told)"

definition settle_attempt :: "env \<Rightarrow> nat \<Rightarrow> usage option \<Rightarrow> task \<Rightarrow> task" where
  "settle_attempt env obj usage self =
     (if \<not> e_patched env BUDGET_ENFORCEMENT then self
      else (let released = mut_attempt obj (\<lambda>a. a\<lparr>x_reserved := None\<rparr>) self in
            case usage of None \<Rightarrow> released
            | Some u \<Rightarrow> if is_empty u then released
                else emit env ''usage.recorded''
                  [(''attempt_id'', VStr (case attempt_at obj released of None \<Rightarrow> [] | Some a \<Rightarrow> x_attempt_id a)), (''usage'', VUsage u)]
                  (released\<lparr>w_usage := usage_add (w_usage released) u\<rparr>)))"

section \<open>Retries\<close>

definition new_entry :: retry_entry where
  "new_entry = \<lparr>re_failed = 0, re_blocked = False, re_blocked_for = [], re_retry_at = None, re_continue_from = [], re_reason = [], re_asked = 0\<rparr>"

definition entry :: "task \<Rightarrow> string \<Rightarrow> retry_entry" where
  "entry self node_id = upd (dget (w_node_retry self) node_id) new_entry"

definition set_entry :: "string \<Rightarrow> (retry_entry \<Rightarrow> retry_entry) \<Rightarrow> task \<Rightarrow> task" where
  "set_entry node_id f self = self\<lparr>w_node_retry := dset node_id (f (entry self node_id)) (w_node_retry self)\<rparr>"

definition max_attempts :: "string \<Rightarrow> nat wf" where
  "max_attempts node_id = bindW (require_node_wf node_id) (\<lambda>state.
     ret (case d_retry (ns_draft state) of None \<Rightarrow> DEFAULT_MAX_ATTEMPTS | Some r \<Rightarrow> r_max_attempts r))"

definition next_backoff :: "env \<Rightarrow> task \<Rightarrow> int option" where
  "next_backoff env self =
     (case w_plan self of None \<Rightarrow> None
      | Some plan \<Rightarrow> if \<not> at_work self then None
          else (let waits = filter (\<lambda>t. 0 < t) (map (\<lambda>(k, s). backoff_remaining env self k)
                  (filter (\<lambda>(k, s). ns_status s = RETRY_PENDING \<and> \<not> has_key (w_attempts self) k) (pl_nodes plan)))
                in if waits = [] then None else Some (Min (set waits))))"

primrec failure_class_str :: "failure_class \<Rightarrow> string" where
  "failure_class_str Transient = ''transient''"
| "failure_class_str Model = ''model''"
| "failure_class_str Tool = ''tool''"
| "failure_class_str PolicyF = ''policy''"
| "failure_class_str BudgetF = ''budget''"
| "failure_class_str VerificationF = ''verification''"
| "failure_class_str Lost = ''lost''"

text \<open>The failure is counted against the node: its entry, once the attempt was not counted before.\<close>

definition count_failure :: "string \<Rightarrow> attempt option \<Rightarrow> string \<Rightarrow> task \<Rightarrow> task" where
  "count_failure node_id attempt message self =
     set_entry node_id (\<lambda>e. e\<lparr>re_failed := re_failed e + 1,
       re_continue_from := (case attempt of None \<Rightarrow> re_continue_from e | Some a \<Rightarrow> if x_attempt_id a = [] then re_continue_from e else x_attempt_id a),
       re_reason := take 2000 message\<rparr>) self"

definition block_node :: "env \<Rightarrow> string \<Rightarrow> failure_class \<Rightarrow> string \<Rightarrow> unit wf" where
  "block_node env node_id cls why =
     thenW (modW (set_entry node_id (\<lambda>e. e\<lparr>re_blocked := True, re_retry_at := None, re_blocked_for := failure_class_str cls\<rparr>)))
     (thenW (set_node_status env node_id BLOCKED None why)
     (withW (\<lambda>self. whenW (at_work self) (modW (\<lambda>s.
       (ask_review env (''node '' @ node_id @ '' is blocked: '' @ why) s)\<lparr>w_budget_hold := (cls = BudgetF)\<rparr>)))))"

definition backoff_delay :: "nat \<Rightarrow> int" where
  "backoff_delay failed = RETRY_BACKOFF_S ! (min failed (length RETRY_BACKOFF_S) - 1) * SECOND"

definition retry_or_block :: "env \<Rightarrow> string \<Rightarrow> nat option \<Rightarrow> failure_class \<Rightarrow> bool \<Rightarrow> string \<Rightarrow> unit wf" where
  "retry_or_block env node_id obj cls retryable message = withW (\<lambda>self.
     let attempt = (case obj of None \<Rightarrow> None | Some i \<Rightarrow> attempt_at i self) in
     if \<not> e_patched env RETRY_POLICY then set_node_status env node_id RETRY_PENDING None message
     else if (case attempt of None \<Rightarrow> False | Some a \<Rightarrow> x_counted a) then ret ()
     else
       thenW (modW (\<lambda>s. case obj of None \<Rightarrow> s | Some i \<Rightarrow> mut_attempt i (\<lambda>a. a\<lparr>x_counted := True\<rparr>) s))
       (thenW (modW (count_failure node_id attempt message))
       (bindW (max_attempts node_id) (\<lambda>tries.
       bindW (getW (\<lambda>s. re_failed (entry s node_id))) (\<lambda>failed.
       if \<not> retryable \<or> tries \<le> failed then
         block_node env node_id cls
           (if \<not> retryable then failure_class_str cls @ '' failure that cannot be retried: '' @ message
            else nat_str failed @ '' of '' @ nat_str tries @ '' attempts failed, retries are used up: '' @ message)
       else
         thenW (modW (set_entry node_id (\<lambda>e. e\<lparr>re_retry_at := Some (e_now env + backoff_delay failed)\<rparr>)))
         (set_node_status env node_id RETRY_PENDING None message))))))"

definition attempt_cancelled :: "env \<Rightarrow> string \<Rightarrow> nat option \<Rightarrow> unit wf" where
  "attempt_cancelled env node_id obj = withW (\<lambda>self.
     let attempt = (case obj of None \<Rightarrow> None | Some i \<Rightarrow> attempt_at i self) in
     if \<not> e_patched env INTERRUPT_CONTINUES_SESSION then set_node_status env node_id RETRY_PENDING None []
     else case attempt of
       Some a \<Rightarrow> if x_counted a then ret ()
         else thenW (modW (set_entry node_id (\<lambda>e. e\<lparr>re_continue_from := x_attempt_id a, re_reason := [], re_retry_at := None\<rparr>)))
              (bindW (require_node_wf node_id) (\<lambda>state.
                whenW (ns_status state \<notin> {BLOCKED, COMPLETED}) (set_node_status env node_id RETRY_PENDING None [])))
     | None \<Rightarrow> bindW (require_node_wf node_id) (\<lambda>state.
         whenW (ns_status state \<notin> {BLOCKED, COMPLETED}) (set_node_status env node_id RETRY_PENDING None [])))"

definition take_retry_input :: "string \<Rightarrow> (string \<times> string) wf" where
  "take_retry_input node_id = withW (\<lambda>self.
     case dget (w_node_retry self) node_id of None \<Rightarrow> ret ([], [])
     | Some e \<Rightarrow> thenW (modW (\<lambda>s. s\<lparr>w_node_retry := dset node_id (e\<lparr>re_reason := []\<rparr>) (w_node_retry s)\<rparr>))
         (ret (re_continue_from e, re_reason e)))"

end
