(* ===== verification/Sop.thy ===== *)
theory Sop
  imports Contracts
begin

text \<open>
  \<^verbatim>\<open>orbit_contracts/v3/sop.py\<close>: an SOP definition and \<open>resolve_steps\<close>, which applies the defaults and puts the steps in an
  order in which each comes after the ones it depends on. A \<open>ValueError\<close> is its text.
\<close>

definition MAX_SOP_STEPS :: nat where "MAX_SOP_STEPS = 50"
definition MAX_STEP_ATTEMPTS :: nat where "MAX_STEP_ATTEMPTS = 20"

datatype human_approval = Before | After

record sop_verifier =
  vf_instructions :: string
  vf_expert :: "string option"

record sop_step =
  ss_id :: "string option"
  ss_subject :: string
  ss_description :: string
  ss_max_attempts :: nat
  ss_executor :: "string option"
  ss_verifier :: "sop_verifier option"
  ss_depends_on :: "string list option"
  ss_output_schema_ref :: "string option"
  ss_required_artifacts :: "artifact_requirement list"
  ss_human_approval :: "human_approval option"

record resolved_step =
  rs_id :: string
  rs_index :: nat
  rs_subject :: string
  rs_description :: string
  rs_max_attempts :: nat
  rs_executor :: "string option"
  rs_verifier_instructions :: string
  rs_verifier_expert :: "string option"
  rs_depends_on :: "string list"
  rs_output_schema_ref :: "string option"
  rs_required_artifacts :: "artifact_requirement list"
  rs_human_approval :: "human_approval option"

definition step_id :: "nat \<Rightarrow> sop_step \<Rightarrow> string" where
  "step_id position step = (case ss_id step of None \<Rightarrow> ''s'' @ nat_str position | Some i \<Rightarrow> if i = [] then ''s'' @ nat_str position else i)"

definition has_id :: "sop_step \<Rightarrow> bool" where
  "has_id step \<longleftrightarrow> ss_id step \<noteq> None \<and> ss_id step \<noteq> Some []"

text \<open>One step of the loop that names the steps, on the ids so far and the ids that are taken.\<close>

definition name_step :: "string list \<times> string list \<Rightarrow> nat \<times> sop_step \<Rightarrow> string + string list \<times> string list" where
  "name_step = (\<lambda>(ids, taken) (position, step).
     let i = step_id position step in
     if \<not> has_id step \<and> i \<in> set taken
     then Inl (''step '' @ nat_str position @ '' has no id and its default id '' @ i @ '' is taken'')
     else Inr (ids @ [i], i # taken))"

definition depends_of :: "string list \<Rightarrow> nat \<Rightarrow> sop_step \<Rightarrow> string list" where
  "depends_of ids position step =
     (case ss_depends_on step of None \<Rightarrow> if 1 < position then [ids ! (position - 2)] else []
      | Some ds \<Rightarrow> rev (remdups (rev ds)))"

definition check_dependency :: "string list \<Rightarrow> string \<Rightarrow> string \<Rightarrow> string + unit" where
  "check_dependency known i dependency =
     bindE (raise_if (dependency \<notin> set known) (''step '' @ i @ '' depends on unknown step '' @ dependency))
       (\<lambda>_. raise_if (dependency = i) (''step '' @ i @ '' depends on itself''))"

text \<open>A step with every default applied.\<close>

definition resolved_of :: "string list \<Rightarrow> nat \<Rightarrow> string \<Rightarrow> sop_step \<Rightarrow> resolved_step" where
  "resolved_of ids position i step = \<lparr>rs_id = i, rs_index = position, rs_subject = strip (ss_subject step),
     rs_description = strip (if ss_description step = [] then ss_subject step else ss_description step),
     rs_max_attempts = ss_max_attempts step, rs_executor = ss_executor step,
     rs_verifier_instructions = strip (case ss_verifier step of None \<Rightarrow> [] | Some v \<Rightarrow> vf_instructions v),
     rs_verifier_expert = (case ss_verifier step of None \<Rightarrow> None | Some v \<Rightarrow> vf_expert v),
     rs_depends_on = depends_of ids position step, rs_output_schema_ref = ss_output_schema_ref step,
     rs_required_artifacts = ss_required_artifacts step, rs_human_approval = ss_human_approval step\<rparr>"

definition resolve_step ::
  "string list \<Rightarrow> (string, resolved_step) dict \<Rightarrow> nat \<times> string \<times> sop_step \<Rightarrow> string + (string, resolved_step) dict" where
  "resolve_step ids resolved = (\<lambda>(position, i, step).
     let r = resolved_of ids position i step in
     bindE (checkE (check_dependency ids i) (rs_depends_on r)) (\<lambda>_.
     bindE (raise_if (rs_subject r = []) (''step '' @ i @ '' needs a subject'')) (\<lambda>_.
     Inr (dset i r resolved))))"

definition is_ready :: "(string, resolved_step) dict \<Rightarrow> string list \<Rightarrow> string \<Rightarrow> bool" where
  "is_ready resolved finished i \<longleftrightarrow> i \<notin> set finished
     \<and> (case dget resolved i of None \<Rightarrow> False | Some r \<Rightarrow> set (rs_depends_on r) \<subseteq> set finished)"

definition cycle_error :: string where "cycle_error = ''the steps' dependencies contain a cycle''"

text \<open>The \<^verbatim>\<open>while\<close> loop: the first step of the definition that is ready goes next.\<close>

function order_steps ::
  "(string, resolved_step) dict \<Rightarrow> string list \<Rightarrow> resolved_step list \<Rightarrow> string list \<Rightarrow> string + resolved_step list" where
  "order_steps resolved ids ordered finished =
     (if length ids \<le> length ordered then Inr ordered
      else case find (is_ready resolved finished) ids of None \<Rightarrow> Inl cycle_error
        | Some i \<Rightarrow> order_steps resolved ids (ordered @ [the (dget resolved i)]) (i # finished))"
  by pat_completeness auto
termination
  by (relation "measure (\<lambda>(resolved, ids, ordered, finished). length ids - length ordered)") auto

declare order_steps.simps [simp del]

definition resolve_steps :: "sop_step list \<Rightarrow> string + resolved_step list" where
  "resolve_steps steps =
     (let explicit = List.map_filter (\<lambda>s. if has_id s then ss_id s else None) steps in
      bindE (raise_if (steps = []) ''an SOP needs at least one step'') (\<lambda>_.
      bindE (raise_if (MAX_SOP_STEPS < length steps) (''an SOP has at most '' @ nat_str MAX_SOP_STEPS @ '' steps'')) (\<lambda>_.
      bindE (raise_if (\<not> distinct explicit) ''step ids must be unique'') (\<lambda>_.
      bindE (foldE name_step ([], explicit) (enumerate 1 steps)) (\<lambda>(ids, taken).
      bindE (foldE (resolve_step ids) [] (enumerate 1 (zip ids steps))) (\<lambda>resolved.
      order_steps resolved ids [] []))))))"

section \<open>Names\<close>

lemma set_enumerate: "set (enumerate n xs) = (\<lambda>k. (n + k, xs ! k)) ` {..<length xs}"
proof (intro set_eqI iffI)
  fix p assume "p \<in> set (enumerate n xs)"
  then show "p \<in> (\<lambda>k. (n + k, xs ! k)) ` {..<length xs}"
    by (intro image_eqI[of _ _ "fst p - n"]) (auto simp: in_set_enumerate_eq prod_eq_iff)
qed (auto simp: in_set_enumerate_eq)

definition ids_of :: "sop_step list \<Rightarrow> string list" where
  "ids_of steps = map (\<lambda>(p, s). step_id p s) (enumerate 1 steps)"

definition explicit_ids :: "sop_step list \<Rightarrow> string list" where
  "explicit_ids steps = List.map_filter (\<lambda>s. if has_id s then ss_id s else None) steps"

lemma explicit_ids_Cons: "explicit_ids (s # steps) = (if has_id s then [step_id p s] else []) @ explicit_ids steps"
  by (auto simp: explicit_ids_def has_id_def step_id_def)

lemma name_steps:
  assumes "foldE name_step (ids0, taken0) (enumerate n steps) = Inr (ids, taken)"
    and "distinct ids0" "set ids0 \<subseteq> set taken0" "set (explicit_ids steps) \<subseteq> set taken0"
    and "distinct (explicit_ids steps)" "set ids0 \<inter> set (explicit_ids steps) = {}"
  shows "ids = ids0 @ map (\<lambda>(p, s). step_id p s) (enumerate n steps) \<and> distinct ids"
  using assms
proof (induction steps arbitrary: ids0 taken0 n)
  case (Cons s steps)
  let ?i = "step_id n s"
  from Cons.prems(1) have ok: "has_id s \<or> ?i \<notin> set taken0"
    and rest: "foldE name_step (ids0 @ [?i], ?i # taken0) (enumerate (Suc n) steps) = Inr (ids, taken)"
    by (auto simp: name_step_def Let_def split: if_splits)
  have new: "?i \<notin> set ids0" "?i \<notin> set (explicit_ids steps)"
    using ok Cons.prems(3-6) by (auto simp: explicit_ids_Cons[of s steps n] split: if_splits)
  from Cons.IH[OF rest] Cons.prems(2-6) new show ?case
    by (auto simp: explicit_ids_Cons[of s steps n] split: if_splits)
qed simp

section \<open>The dependencies\<close>

definition step_rel :: "(string, resolved_step) dict \<Rightarrow> (string \<times> string) set" where
  "step_rel resolved = {(d, i). \<exists>r. dget resolved i = Some r \<and> d \<in> set (rs_depends_on r)}"

text \<open>What the resolved steps look like when no check failed.\<close>

definition resolved_ok :: "string list \<Rightarrow> (string, resolved_step) dict \<Rightarrow> bool" where
  "resolved_ok ids resolved \<longleftrightarrow> (\<forall>i r. dget resolved i = Some r \<longrightarrow> rs_id r = i \<and> set (rs_depends_on r) \<subseteq> set ids)"

lemma resolve_loop:
  assumes "foldE (resolve_step ids) resolved0 ps = Inr resolved" and "resolved_ok ids resolved0"
  shows "resolved_ok ids resolved" and "\<And>i. has_key resolved i \<longleftrightarrow> has_key resolved0 i \<or> i \<in> (\<lambda>q. fst (snd q)) ` set ps"
proof -
  have "resolved_ok ids resolved \<and> (\<forall>i. has_key resolved i \<longleftrightarrow> has_key resolved0 i \<or> i \<in> (\<lambda>q. fst (snd q)) ` set ps)"
    using assms
  proof (induction ps arbitrary: resolved0)
    case (Cons p ps)
    obtain position i step where p: "p = (position, i, step)" using prod_cases3 by blast
    let ?r = "resolved_of ids position i step"
    have step: "resolve_step ids resolved0 p = Inr out \<Longrightarrow>
        checkE (check_dependency ids i) (rs_depends_on ?r) = Inr () \<and> out = dset i ?r resolved0" for out
      by (auto simp: resolve_step_def p Let_def)
    from Cons.prems(1) have known: "checkE (check_dependency ids i) (rs_depends_on ?r) = Inr ()"
      and rest: "foldE (resolve_step ids) (dset i ?r resolved0) ps = Inr resolved"
      by (auto dest: step)
    from known have "set (rs_depends_on ?r) \<subseteq> set ids"
      by (auto simp: checkE_eq_Inr check_dependency_def)
    moreover have "rs_id ?r = i" by (simp add: resolved_of_def)
    ultimately have "resolved_ok ids (dset i ?r resolved0)" using Cons.prems(2)
      by (auto simp: resolved_ok_def dget_dset)
    from Cons.IH[OF rest this] show ?case by (auto simp: p)
  qed simp
  then show "resolved_ok ids resolved" "\<And>i. has_key resolved i \<longleftrightarrow> has_key resolved0 i \<or> i \<in> (\<lambda>q. fst (snd q)) ` set ps" by blast+
qed

section \<open>The order\<close>

definition order_ok :: "(string, resolved_step) dict \<Rightarrow> string list \<Rightarrow> resolved_step list \<Rightarrow> string list \<Rightarrow> bool" where
  "order_ok resolved ids ordered finished \<longleftrightarrow> finished = rev (map rs_id ordered) \<and> distinct finished \<and> set finished \<subseteq> set ids
     \<and> (\<forall>k<length ordered. set (rs_depends_on (ordered ! k)) \<subseteq> rs_id ` set (take k ordered))
     \<and> (\<forall>r\<in>set ordered. dget resolved (rs_id r) = Some r)"

lemma order_ok_step:
  assumes ok: "order_ok resolved ids ordered finished" and res: "resolved_ok ids resolved"
    and pick: "find (is_ready resolved finished) ids = Some i"
  shows "order_ok resolved ids (ordered @ [the (dget resolved i)]) (i # finished)"
proof -
  from pick have i: "i \<in> set ids" "is_ready resolved finished i" by (auto simp: find_Some_iff)
  then obtain r where r: "dget resolved i = Some r" "set (rs_depends_on r) \<subseteq> set finished" "i \<notin> set finished"
    by (auto simp: is_ready_def split: option.splits)
  from r(1) res have "rs_id r = i" by (auto simp: resolved_ok_def)
  with ok r i(1) show ?thesis by (auto simp: order_ok_def nth_append less_Suc_eq)
qed

text \<open>When no step is ready and some are left, each of them waits for another one that is left: there is a cycle.\<close>

lemma stuck_cyclic:
  assumes ok: "order_ok resolved ids ordered finished" and res: "resolved_ok ids resolved" and all: "\<forall>i\<in>set ids. has_key resolved i"
    and "distinct ids" and left: "\<not> length ids \<le> length ordered" and stuck: "find (is_ready resolved finished) ids = None"
  shows "\<not> acyclic (step_rel resolved)"
proof
  assume "acyclic (step_rel resolved)"
  moreover have "finite (step_rel resolved)"
  proof (rule finite_subset)
    show "step_rel resolved \<subseteq> set ids \<times> fst ` set resolved"
      using res by (auto simp: step_rel_def resolved_ok_def dest: key_of_dget)
  qed simp
  ultimately have wf: "wf (step_rel resolved)" by (rule finite_acyclic_wf[rotated])
  have "card (set finished) = length ordered"
    using ok distinct_card[of finished] by (auto simp: order_ok_def)
  then have "card (set finished) < card (set ids)" using left assms(4) by (simp add: distinct_card)
  then obtain x where "x \<in> set ids - set finished" by (metis DiffI card_mono finite_set not_le subsetI)
  from wfE_min[OF wf this] obtain z where z: "z \<in> set ids - set finished"
    and min: "\<And>y. (y, z) \<in> step_rel resolved \<Longrightarrow> y \<notin> set ids - set finished" by blast
  from z all obtain r where r: "dget resolved z = Some r" by (auto simp: has_key_dget)
  from z stuck have "\<not> is_ready resolved finished z" by (auto simp: find_None_iff)
  with z r obtain d where d: "d \<in> set (rs_depends_on r)" "d \<notin> set finished" by (auto simp: is_ready_def)
  with r res have "d \<in> set ids" "(d, z) \<in> step_rel resolved" by (auto simp: resolved_ok_def step_rel_def)
  with min d(2) show False by blast
qed

lemma order_steps_result:
  assumes "order_ok resolved ids ordered finished" and "resolved_ok ids resolved" and "\<forall>i\<in>set ids. has_key resolved i"
    and "length ordered \<le> length ids" and "distinct ids"
  shows "(\<exists>out fin. order_steps resolved ids ordered finished = Inr out \<and> order_ok resolved ids out fin \<and> length out = length ids)
    \<or> order_steps resolved ids ordered finished = Inl cycle_error \<and> \<not> acyclic (step_rel resolved)"
  using assms
proof (induction resolved ids ordered finished rule: order_steps.induct)
  case (1 resolved ids ordered finished)
  show ?case
  proof (cases "length ids \<le> length ordered")
    case True
    with "1.prems" show ?thesis by (subst (1 2) order_steps.simps) (auto intro: le_antisym)
  next
    case False
    show ?thesis
    proof (cases "find (is_ready resolved finished) ids")
      case None
      have "\<not> acyclic (step_rel resolved)"
        by (rule stuck_cyclic[OF "1.prems"(1,2,3,5) False None])
      with False None show ?thesis by (subst (1 2) order_steps.simps) simp
    next
      case (Some i)
      from "1.IH"[OF False Some order_ok_step[OF "1.prems"(1,2) Some] "1.prems"(2,3)] "1.prems"(5) False Some
      show ?thesis by (subst (1 2) order_steps.simps) simp
    qed
  qed
qed

section \<open>Properties\<close>

lemma resolve_steps_parts:
  assumes "distinct (explicit_ids steps)" "foldE name_step ([], explicit_ids steps) (enumerate 1 steps) = Inr (ids, taken)"
    and "foldE (resolve_step ids) [] (enumerate 1 (zip ids steps)) = Inr resolved"
  shows "ids = ids_of steps" "distinct ids" "resolved_ok ids resolved" "\<And>i. has_key resolved i \<longleftrightarrow> i \<in> set ids"
proof -
  have n: "ids = [] @ map (\<lambda>(p, s). step_id p s) (enumerate 1 steps) \<and> distinct ids"
    by (rule name_steps[OF assms(2)]) (use assms(1) in simp_all)
  from n[THEN conjunct1] show ids: "ids = ids_of steps" by (simp add: ids_of_def)
  from n[THEN conjunct2] show "distinct ids" .
  have "resolved_ok ids []" by (simp add: resolved_ok_def)
  note loop = resolve_loop[OF assms(3) this]
  show "resolved_ok ids resolved" by (rule loop(1))
  have "length ids = length steps" by (simp add: ids ids_of_def)
  then have "(\<lambda>q. fst (snd q)) ` set (enumerate 1 (zip ids steps)) = set ids"
    unfolding set_enumerate image_image by (auto simp: in_set_conv_nth)
  with loop(2) show "has_key resolved i \<longleftrightarrow> i \<in> set ids" for i by simp
qed

lemma order_ok_all:
  assumes "order_ok resolved ids out fin" and "length out = length ids" and "distinct ids"
  shows "set (map rs_id out) = set ids"
proof (rule card_subset_eq)
  show "set (map rs_id out) \<subseteq> set ids" using assms(1) by (auto simp: order_ok_def)
  have "distinct (map rs_id out)" using assms(1) unfolding order_ok_def by (metis distinct_rev)
  then show "card (set (map rs_id out)) = card (set ids)" using assms(2,3) by (metis distinct_card length_map)
qed simp

lemma early_errors:
  "foldE name_step st (enumerate n steps) \<noteq> Inl cycle_error"
  "foldE (resolve_step ids) resolved ps \<noteq> Inl cycle_error"
proof -
  have "name_step st iop \<noteq> Inl cycle_error" for st iop
    by (auto simp: name_step_def Let_def cycle_error_def split: prod.splits)
  then show "foldE name_step st (enumerate n steps) \<noteq> Inl cycle_error"
    using foldE_raises[where P = "\<lambda>_. True"] by metis
  have dep: "check_dependency known i d \<noteq> Inl cycle_error" for known i d
    by (auto simp: check_dependency_def bindE_eq_Inl raise_if_def cycle_error_def)
  have "resolve_step ids resolved q \<noteq> Inl cycle_error" for resolved q
    using dep by (auto simp: resolve_step_def Let_def bindE_eq_Inl raise_if_def split: prod.splits if_splits dest!: checkE_eq_Inl)
      (simp add: cycle_error_def)
  then show "foldE (resolve_step ids) resolved ps \<noteq> Inl cycle_error"
    using foldE_raises[where P = "\<lambda>_. True"] by metis
qed

text \<open>
  The order of a resolved SOP is a topological one: when the definition is accepted, the result has every step of it
  exactly once, and each step comes after all the steps it depends on.
\<close>
theorem resolve_steps_topological:
  assumes "resolve_steps steps = Inr out"
  shows "distinct (map rs_id out) \<and> set (map rs_id out) = set (ids_of steps) \<and> length out = length steps
    \<and> (\<forall>k<length out. set (rs_depends_on (out ! k)) \<subseteq> rs_id ` set (take k out))"
proof -
  from assms obtain ids taken resolved where
    parts: "distinct (explicit_ids steps)" "foldE name_step ([], explicit_ids steps) (enumerate 1 steps) = Inr (ids, taken)"
      "foldE (resolve_step ids) [] (enumerate 1 (zip ids steps)) = Inr resolved"
    and order: "order_steps resolved ids [] [] = Inr out"
    by (auto simp: resolve_steps_def Let_def explicit_ids_def)
  note p = resolve_steps_parts[OF parts]
  have "order_ok resolved ids [] []" by (simp add: order_ok_def)
  from order_steps_result[OF this p(3) _ _ p(2)] p(4) order obtain fin where
    out: "order_ok resolved ids out fin" "length out = length ids" by auto
  have "set (map rs_id out) = set ids" by (rule order_ok_all[OF out p(2)])
  moreover have "distinct (map rs_id out)" using out(1) unfolding order_ok_def by (metis distinct_rev)
  moreover have "length ids = length steps" by (simp add: p(1) ids_of_def)
  ultimately show ?thesis using out p(1) by (simp add: order_ok_def)
qed

text \<open>Two steps, the first of which waits for the second.\<close>

definition demo_step :: "string \<Rightarrow> string list \<Rightarrow> sop_step" where
  "demo_step i ds = \<lparr>ss_id = Some i, ss_subject = ''s'', ss_description = [], ss_max_attempts = 3, ss_executor = None,
     ss_verifier = None, ss_depends_on = Some ds, ss_output_schema_ref = None, ss_required_artifacts = [], ss_human_approval = None\<rparr>"

theorem resolve_steps_topological_witness:
  "\<exists>out. resolve_steps [demo_step ''a'' [''b''], demo_step ''b'' []] = Inr out
    \<and> set (map rs_id out) = set (ids_of [demo_step ''a'' [''b''], demo_step ''b'' []])"
proof -
  have "case resolve_steps [demo_step ''a'' [''b''], demo_step ''b'' []] of Inl e \<Rightarrow> False | Inr out \<Rightarrow> True" by code_simp
  then obtain out where "resolve_steps [demo_step ''a'' [''b''], demo_step ''b'' []] = Inr out" by (auto split: sum.splits)
  with resolve_steps_topological[OF this] show ?thesis by blast
qed

text \<open>The edges of a definition, from the names its steps get.\<close>

definition sop_rel :: "sop_step list \<Rightarrow> (string \<times> string) set" where
  "sop_rel steps = {(d, i). \<exists>p s. (p, s) \<in> set (enumerate 1 steps) \<and> i = step_id p s \<and> d \<in> set (depends_of (ids_of steps) p s)}"

lemma resolve_loop_get:
  assumes "foldE (resolve_step ids) resolved0 ps = Inr resolved" and "distinct (map (\<lambda>q. fst (snd q)) ps)"
  shows "(\<forall>p i s. (p, i, s) \<in> set ps \<longrightarrow> dget resolved i = Some (resolved_of ids p i s))
    \<and> (\<forall>i. i \<notin> (\<lambda>q. fst (snd q)) ` set ps \<longrightarrow> dget resolved i = dget resolved0 i)"
  using assms
proof (induction ps arbitrary: resolved0)
  case (Cons q ps)
  obtain position j step where q: "q = (position, j, step)" using prod_cases3 by blast
  have "resolve_step ids resolved0 q = Inr out \<Longrightarrow> out = dset j (resolved_of ids position j step) resolved0" for out
    by (auto simp: resolve_step_def q Let_def)
  with Cons.prems have rest: "foldE (resolve_step ids) (dset j (resolved_of ids position j step) resolved0) ps = Inr resolved"
    "distinct (map (\<lambda>q. fst (snd q)) ps)" "j \<notin> (\<lambda>q. fst (snd q)) ` set ps" by (auto simp: q)
  from Cons.IH[OF rest(1,2)] rest(3) show ?case by (auto simp: q dget_dset)
qed simp

lemma step_rel_sop_rel:
  assumes "foldE (resolve_step ids) [] (enumerate 1 (zip ids steps)) = Inr resolved" and ids: "ids = ids_of steps" "distinct ids"
    and keys: "\<And>i. has_key resolved i \<longleftrightarrow> i \<in> set ids"
  shows "step_rel resolved = sop_rel steps"
proof -
  have len: "length ids = length steps" by (simp add: ids(1) ids_of_def)
  have "map (\<lambda>q. fst (snd q)) (enumerate 1 (zip ids steps)) = ids"
    by (rule nth_equalityI) (simp_all add: len nth_enumerate_eq)
  then have get: "(p, i, s) \<in> set (enumerate 1 (zip ids steps)) \<Longrightarrow> dget resolved i = Some (resolved_of ids p i s)" for p i s
    using resolve_loop_get[OF assms(1)] ids(2) by simp
  have nth: "dget resolved (ids ! k) = Some (resolved_of ids (Suc k) (ids ! k) (steps ! k))" if "k < length steps" for k
    using that len by (intro get) (simp add: in_set_enumerate_eq)
  have name: "ids ! k = step_id (Suc k) (steps ! k)" if "k < length steps" for k
    using that by (simp add: ids(1) ids_of_def nth_enumerate_eq)
  have deps: "rs_depends_on (resolved_of ids p i s) = depends_of (ids_of steps) p s" for p i s
    by (simp add: resolved_of_def ids(1))
  have left: "(d, i) \<in> step_rel resolved \<longleftrightarrow> (\<exists>k<length steps. i = ids ! k \<and> d \<in> set (depends_of (ids_of steps) (Suc k) (steps ! k)))" for d i
  proof
    assume "(d, i) \<in> step_rel resolved"
    then obtain r where r: "dget resolved i = Some r" "d \<in> set (rs_depends_on r)" by (auto simp: step_rel_def)
    then have "i \<in> set ids" using keys by (blast dest: key_of_dget)
    then obtain k where "k < length steps" "i = ids ! k" using len by (metis in_set_conv_nth)
    with nth[of k] r deps show "\<exists>k<length steps. i = ids ! k \<and> d \<in> set (depends_of (ids_of steps) (Suc k) (steps ! k))" by auto
  qed (use nth deps in \<open>auto simp: step_rel_def\<close>)
  have right: "(d, i) \<in> sop_rel steps \<longleftrightarrow> (\<exists>k<length steps. i = ids ! k \<and> d \<in> set (depends_of (ids_of steps) (Suc k) (steps ! k)))" for d i
  proof -
    have "(\<exists>p s. (p, s) \<in> set (enumerate 1 steps) \<and> Q p s) \<longleftrightarrow> (\<exists>k<length steps. Q (Suc k) (steps ! k))" for Q
      unfolding set_enumerate by auto
    then show ?thesis using name by (auto simp: sop_rel_def)
  qed
  show ?thesis using left right by auto
qed

lemma takeWhile_stops: "j < length xs \<Longrightarrow> \<not> P (xs ! j) \<Longrightarrow> length (takeWhile P xs) \<le> j"
  by (metis not_less nth_mem set_takeWhileD takeWhile_nth)

lemma order_acyclic:
  assumes "order_ok resolved ids out fin" and all: "\<And>i. has_key resolved i \<Longrightarrow> i \<in> set (map rs_id out)"
  shows "acyclic (step_rel resolved)"
proof -
  let ?f = "\<lambda>i. length (takeWhile (\<lambda>r. rs_id r \<noteq> i) out)"
  have dist: "distinct (map rs_id out)" using assms(1) unfolding order_ok_def by (metis distinct_rev)
  have "?f d < ?f i" if "(d, i) \<in> step_rel resolved" for d i
  proof -
    from that obtain r where r: "dget resolved i = Some r" "d \<in> set (rs_depends_on r)" by (auto simp: step_rel_def)
    from all[OF key_of_dget[OF r(1)]] obtain k where k: "k < length out" "rs_id (out ! k) = i" by (auto simp: in_set_conv_nth)
    with assms(1) r have "d \<in> rs_id ` set (take k out)" unfolding order_ok_def by (metis nth_mem option.inject subsetD)
    then obtain j where j: "j < k" "rs_id (out ! j) = d" using k(1) by (auto simp: in_set_conv_nth)
    with k(1) takeWhile_stops[of j out "\<lambda>r. rs_id r \<noteq> d"] have "?f d < k" by simp
    moreover have "k \<le> ?f i"
    proof (rule ccontr)
      assume "\<not> k \<le> ?f i"
      then have j: "?f i < k" by simp
      then have "rs_id (out ! ?f i) = i" using nth_length_takeWhile[of "\<lambda>r. rs_id r \<noteq> i" out] k(1) by auto
      with dist j k show False by (metis (no_types, lifting) distinct_conv_nth length_map less_trans nat_neq_iff nth_map)
    qed
    ultimately show ?thesis by simp
  qed
  then have "step_rel resolved \<subseteq> measure ?f" by auto
  then show ?thesis by (meson wf_acyclic wf_measure wf_subset)
qed

text \<open>
  A cycle is reported exactly when there is one: an accepted definition has no cycle among its dependencies, and one whose
  dependencies have no cycle is never refused for one.
\<close>
theorem resolve_steps_cycle:
  shows "(resolve_steps steps = Inr out \<longrightarrow> acyclic (sop_rel steps))
    \<and> (acyclic (sop_rel steps) \<longrightarrow> resolve_steps steps \<noteq> Inl cycle_error)"
proof (cases "\<exists>ids taken resolved. distinct (explicit_ids steps)
    \<and> foldE name_step ([], explicit_ids steps) (enumerate 1 steps) = Inr (ids, taken)
    \<and> foldE (resolve_step ids) [] (enumerate 1 (zip ids steps)) = Inr resolved")
  case True
  then obtain ids taken resolved where
    parts: "distinct (explicit_ids steps)" "foldE name_step ([], explicit_ids steps) (enumerate 1 steps) = Inr (ids, taken)"
      "foldE (resolve_step ids) [] (enumerate 1 (zip ids steps)) = Inr resolved" by blast
  note p = resolve_steps_parts[OF parts]
  have rel: "step_rel resolved = sop_rel steps" by (rule step_rel_sop_rel[OF parts(3) p(1,2,4)])
  have "order_ok resolved ids [] []" by (simp add: order_ok_def)
  from order_steps_result[OF this p(3) _ _ p(2)] p(4)
  consider (ordered) out' fin where "order_steps resolved ids [] [] = Inr out'" "order_ok resolved ids out' fin" "length out' = length ids"
    | (cycle) "order_steps resolved ids [] [] = Inl cycle_error" "\<not> acyclic (sop_rel steps)"
    using rel by auto
  then show ?thesis
  proof cases
    case ordered
    have "set (map rs_id out') = set ids" by (rule order_ok_all[OF ordered(2,3) p(2)])
    then have "acyclic (sop_rel steps)" using order_acyclic[OF ordered(2)] p(4) rel by simp
    moreover have "resolve_steps steps \<noteq> Inl cycle_error"
      using parts ordered(1) by (auto simp: resolve_steps_def Let_def explicit_ids_def bindE_raise_if) (simp_all add: cycle_error_def)
    ultimately show ?thesis by simp
  next
    case cycle
    then show ?thesis using parts by (auto simp: resolve_steps_def Let_def explicit_ids_def)
  qed
next
  case False
  then have "resolve_steps steps \<noteq> Inr out" by (auto simp: resolve_steps_def Let_def explicit_ids_def)
  moreover have "resolve_steps steps \<noteq> Inl cycle_error"
    using False early_errors
    by (auto simp: resolve_steps_def Let_def explicit_ids_def bindE_eq_Inl raise_if_def split: if_splits) (simp_all add: cycle_error_def)
  ultimately show ?thesis by simp
qed

theorem resolve_steps_cycle_witness: "acyclic (sop_rel [demo_step ''a'' [''b''], demo_step ''b'' []])"
proof -
  have "case resolve_steps [demo_step ''a'' [''b''], demo_step ''b'' []] of Inl e \<Rightarrow> False | Inr out \<Rightarrow> True" by code_simp
  then obtain out where "resolve_steps [demo_step ''a'' [''b''], demo_step ''b'' []] = Inr out" by (auto split: sum.splits)
  with resolve_steps_cycle show ?thesis by blast
qed

end
