(* ===== verification/Task_Sop.thy ===== *)
theory Task_Sop
  imports Task_Retry Sop
begin

text \<open>
  \<^verbatim>\<open>orbit_orch/task_sop.py\<close>: compiling a \<open>sop_stage\<close> node into the plan, approval nodes, what steps hand to each other, and the
  verifier. \<open>_expand_sop\<close> awaits the \<open>load_sop\<close> activity; what it does with the answer is \<open>expand_sop_loaded\<close>.
\<close>

definition MAX_HANDOVER_FILES :: nat where "MAX_HANDOVER_FILES = 20"
definition MAX_HANDOVER_CHARS :: nat where "MAX_HANDOVER_CHARS = 12000"

definition nl :: string where "nl = [CHR 0x0A]"

section \<open>Compiling an SOP\<close>

text \<open>The answer of \<open>load_sop\<close>: \<open>ls_steps\<close> is \<open>None\<close> when an item of it is no \<open>SopStep\<close> (pydantic refuses it).\<close>

record loaded_sop =
  ls_found :: bool
  ls_name :: "string option"
  ls_steps :: "sop_step list option"

definition approval_op :: "string \<Rightarrow> string \<Rightarrow> string \<Rightarrow> string list \<Rightarrow> string \<Rightarrow> plan_op" where
  "approval_op ref parent title waits summary = AddNodeOp ((new_draft ref (take 200 title) (ApprovalSpec (take 2000 summary) Medium))
     \<lparr>d_parent_node_id := Some parent, d_depends_on := waits\<rparr>)"

definition step_node :: "string \<Rightarrow> string \<Rightarrow> string \<Rightarrow> string \<Rightarrow> resolved_step \<Rightarrow> string \<Rightarrow> nat \<Rightarrow> string list \<Rightarrow> task_node_draft" where
  "step_node ref parent sop name step label n_steps waits =
     (let goal = ''You are running step '' @ nat_str (rs_index step) @ '' of '' @ nat_str n_steps @ '' of the procedure \"'' @ name @ ''\": ''
            @ rs_subject step @ ''.'' @ nl @ nl @ ''What this step must achieve:'' @ nl @ rs_description step;
          verification = [(''sop'', JStr sop), (''sop_name'', JStr name), (''step_id'', JStr (rs_id step)), (''subject'', JStr (rs_subject step)),
            (''description'', JStr (rs_description step)), (''instructions'', JStr (rs_verifier_instructions step))]
            @ (case rs_verifier_expert step of None \<Rightarrow> [] | Some e \<Rightarrow> if e = [] then [] else [(''expert'', JStr e)]) in
      (new_draft ref (take 200 label) (AgentTurnSpec goal []))\<lparr>
        d_parent_node_id := Some parent, d_depends_on := waits, d_workspace_access := Some WriteAccess, d_owner_profile := rs_executor step,
        d_retry := Some \<lparr>r_max_attempts = rs_max_attempts step, r_backoff_s = 30, r_repair_profile = None\<rparr>,
        d_completion_contract := \<lparr>cc_output_schema_ref = rs_output_schema_ref step, cc_required_artifacts = rs_required_artifacts step,
          cc_verifications = [\<lparr>v_kind = SopVerifierV, v_spec = verification\<rparr>], cc_allowed_side_effects = []\<rparr>\<rparr>)"

record sop_build =
  bd_ops :: "plan_op list"
  bd_parts :: "(string, sop_part) dict"
  bd_agents :: "(string, string) dict"
  bd_tails :: "(string, string) dict"
  bd_counter :: nat

definition tmp_ref :: "nat \<Rightarrow> string" where
  "tmp_ref n = ''tmp:'' @ nat_str n"

definition part_of :: "sop_role \<Rightarrow> resolved_step \<Rightarrow> sop_part" where
  "part_of role step = \<lparr>sp_role = role, sp_step_id = rs_id step, sp_index = rs_index step, sp_subject = rs_subject step\<rparr>"

text \<open>The approval node of a step, before or after it: its temporary id and the build with it.\<close>

definition add_gate :: "sop_role \<Rightarrow> resolved_step \<Rightarrow> string \<Rightarrow> string \<Rightarrow> string list \<Rightarrow> string \<Rightarrow> sop_build \<Rightarrow> string \<times> sop_build" where
  "add_gate role step parent title waits summary b =
     (let gate = tmp_ref (bd_counter b + 1) in
      (gate, b\<lparr>bd_counter := bd_counter b + 1, bd_ops := bd_ops b @ [approval_op gate parent title waits summary],
         bd_parts := dset gate (part_of role step) (bd_parts b)\<rparr>))"

definition add_agent :: "string \<Rightarrow> string \<Rightarrow> string \<Rightarrow> nat \<Rightarrow> resolved_step \<Rightarrow> string \<Rightarrow> string list \<Rightarrow> sop_build \<Rightarrow> string \<times> sop_build" where
  "add_agent node_id ref name n_steps step label waits b =
     (let agent = tmp_ref (bd_counter b + 1) in
      (agent, b\<lparr>bd_counter := bd_counter b + 1, bd_agents := dset (rs_id step) agent (bd_agents b),
         bd_ops := bd_ops b @ [AddNodeOp (step_node agent node_id ref name step label n_steps waits)],
         bd_parts := dset agent (part_of RStep step) (bd_parts b), bd_tails := dset (rs_id step) agent (bd_tails b)\<rparr>))"

definition lookup :: "('k, 'v) dict \<Rightarrow> 'k \<Rightarrow> wf_error + 'v" where
  "lookup d k = (case dget d k of None \<Rightarrow> Inl KeyErr | Some v \<Rightarrow> Inr v)"

definition compile_step :: "string \<Rightarrow> string \<Rightarrow> string \<Rightarrow> string \<Rightarrow> nat \<Rightarrow> sop_build \<Rightarrow> resolved_step \<Rightarrow> wf_error + sop_build" where
  "compile_step node_id ref name title n_steps b step =
     (let nth_text = nat_str (rs_index step) @ ''/'' @ nat_str n_steps;
          label = title @ '' '' @ nth_text @ '': '' @ rs_subject step;
          asked = nth_text @ '' ('' @ rs_subject step @ '') of '' @ name @ ''?'' in
      bindE (mapE (lookup (bd_tails b)) (rs_depends_on step)) (\<lambda>waits0.
      let (waits, b1) = (if rs_human_approval step = Some Before
            then (let (gate, b') = add_gate RApprovalBefore step node_id (''Approve the start of '' @ label) waits0 (''Start step '' @ asked) b in ([gate], b'))
            else (waits0, b));
          (agent, b2) = add_agent node_id ref name n_steps step label waits b1 in
      Inr (if rs_human_approval step = Some After
           then (let (gate, b3) = add_gate RApprovalAfter step node_id (''Approve the result of '' @ label) [agent] (''Accept the result of step '' @ asked) b2
                 in b3\<lparr>bd_tails := dset (rs_id step) gate (bd_tails b3)\<rparr>)
           else b2)))"

text \<open>The depth of the SOP node itself: the \<^verbatim>\<open>while\<close> loop up its parents, cut off after as many rounds as the plan has nodes.\<close>

primrec parent_depth :: "nodes \<Rightarrow> nat \<Rightarrow> string option \<Rightarrow> nat" where
  "parent_depth nodes 0 cursor = 0"
| "parent_depth nodes (Suc n) cursor =
     (case cursor of None \<Rightarrow> 0
      | Some c \<Rightarrow> (case dget nodes c of None \<Rightarrow> 0 | Some s \<Rightarrow> Suc (parent_depth nodes n (d_parent_node_id (ns_draft s)))))"

record sop_command =
  sc_command :: plan_change_command
  sc_policy :: plan_policy
  sc_parts :: "(string, sop_part) dict"
  sc_agents :: "(string, string) dict"

definition rewire :: "string \<Rightarrow> string list \<Rightarrow> edge list \<Rightarrow> plan_op list" where
  "rewire node_id sinks edges = concat (map (\<lambda>e. RemoveEdgeOp node_id (snd e) # map (\<lambda>sink. AddEdgeOp sink (snd e)) sinks)
     (filter (\<lambda>e. fst e = node_id) (sort edges)))"

definition sop_command_of :: "env \<Rightarrow> task \<Rightarrow> string \<Rightarrow> string \<Rightarrow> string \<Rightarrow> resolved_step list \<Rightarrow> wf_error + sop_command" where
  "sop_command_of env self node_id ref name steps =
     (case w_plan self of None \<Rightarrow> Inl AssertionError
      | Some plan \<Rightarrow> bindE (lookup (pl_nodes plan) node_id) (\<lambda>node.
          bindE (foldE (compile_step node_id ref name (d_title (ns_draft node)) (length steps))
             \<lparr>bd_ops = [], bd_parts = [], bd_agents = [], bd_tails = [], bd_counter = 0\<rparr> steps) (\<lambda>b.
          let depended_on = concat (map rs_depends_on steps) in
          bindE (mapE (\<lambda>step. lookup (bd_tails b) (rs_id step)) (filter (\<lambda>s. rs_id s \<notin> set depended_on) steps)) (\<lambda>sinks.
          let ops = bd_ops b @ rewire node_id sinks (pl_edges plan);
              depth = parent_depth (pl_nodes plan) (length (pl_nodes plan) + 1) (d_parent_node_id (ns_draft node)) in
          bindE (plan_policy_wf env self None) (\<lambda>policy.
          Inr \<lparr>sc_command = system_command self (''sop:'' @ w_task_id self @ '':'' @ node_id) (pl_version plan) ops (''expand SOP '' @ ref),
            sc_policy = policy\<lparr>pp_max_ops := max (pp_max_ops policy) (length ops),
              pp_max_depth := Some (max (case pp_max_depth policy of None \<Rightarrow> 1 | Some d \<Rightarrow> if d = 0 then 1 else d) (depth + 1)),
              pp_max_chain := MAX_PLAN_CHAIN, pp_legacy_depth := False\<rparr>,
            sc_parts = bd_parts b, sc_agents = bd_agents b\<rparr>)))))"

definition sop_unusable :: "env \<Rightarrow> string \<Rightarrow> string \<Rightarrow> bool \<Rightarrow> unit wf" where
  "sop_unusable env node_id message retryable =
     retry_or_block env node_id None (if retryable then Transient else PolicyF) retryable message"

text \<open>The expansion's record, from the ids the plan change gave its nodes.\<close>

definition sop_entry_of ::
  "string \<Rightarrow> string \<Rightarrow> string \<Rightarrow> resolved_step list \<Rightarrow> sop_command \<Rightarrow> (string, string) dict \<Rightarrow> wf_error + sop_entry" where
  "sop_entry_of ref name title steps built id_map =
     bindE (mapE (\<lambda>(tmp, part). bindE (lookup id_map tmp) (\<lambda>i. Inr (i, part))) (sc_parts built)) (\<lambda>parts.
     bindE (mapE (\<lambda>step. bindE (lookup (sc_agents built) (rs_id step)) (\<lambda>a. bindE (lookup id_map a) (\<lambda>i. Inr (rs_id step, i)))) steps) (\<lambda>agents.
     bindE (mapE (\<lambda>step. bindE (lookup agents (rs_id step)) (\<lambda>i.
        bindE (mapE (lookup agents) (rs_depends_on step)) (\<lambda>ds. Inr (i, ds)))) steps) (\<lambda>deps.
     Inr \<lparr>se_ref = ref, se_name = name, se_title = title, se_total = length steps, se_nodes = dmerge [] parts, se_open = map fst parts,
       se_agent = dmerge [] agents, se_deps = dmerge [] deps, se_outputs = []\<rparr>)))"

definition sop_accepted :: "env \<Rightarrow> string \<Rightarrow> string \<Rightarrow> string \<Rightarrow> resolved_step list \<Rightarrow> sop_command \<Rightarrow> plan_apply_outcome \<Rightarrow> unit wf" where
  "sop_accepted env node_id ref name steps built outcome = withW (\<lambda>self.
     bindW (optW AssertionError (w_plan self)) (\<lambda>plan.
     bindW (liftE (lookup (pl_nodes plan) node_id)) (\<lambda>node.
     bindW (liftE (sop_entry_of ref name (d_title (ns_draft node)) steps built (acc_id_map (po_result outcome)))) (\<lambda>entry.
     thenW (modW (\<lambda>s. s\<lparr>w_sops := dset node_id entry (w_sops s), w_plan := Some (po_plan outcome)\<rparr>))
     (thenW (modW (committed env (sc_command built) [(''reason'', VStr ''sop expansion''), (''sop_node_id'', VStr node_id)]))
     (thenW (refresh_readiness env)
     (set_node_status env node_id RUNNING None (''expanded into '' @ nat_str (length steps) @ '' steps''))))))))"

definition sop_name_of :: "string \<Rightarrow> loaded_sop \<Rightarrow> string" where
  "sop_name_of ref loaded = (case ls_name loaded of
     Some n \<Rightarrow> if n = [] then rev (tl (dropWhile (\<lambda>c. c \<noteq> CHR ''@'') (rev ref))) else n
   | None \<Rightarrow> rev (tl (dropWhile (\<lambda>c. c \<noteq> CHR ''@'') (rev ref))))"

definition add_sop :: "env \<Rightarrow> string \<Rightarrow> string \<Rightarrow> string \<Rightarrow> resolved_step list \<Rightarrow> unit wf" where
  "add_sop env node_id ref name steps =
     bindW (compact_plan env False KEEP_RECENT_COMPLETED) (\<lambda>_.
     bindW (withW (\<lambda>self. liftE (sop_command_of env self node_id ref name steps))) (\<lambda>built1.
     bindW (judge env (sc_command built1) (sc_policy built1)) (\<lambda>outcome1.
     bindW (if too_many (po_result outcome1) then compact_plan env True 0 else ret False) (\<lambda>again.
     bindW (if again then withW (\<lambda>self. liftE (sop_command_of env self node_id ref name steps)) else ret built1) (\<lambda>built.
     bindW (if again then judge env (sc_command built) (sc_policy built) else ret outcome1) (\<lambda>outcome.
     if is_accepted (po_result outcome) then sop_accepted env node_id ref name steps built outcome
     else thenW (modW (emit env ''plan.change_rejected'' (rejected_payload (po_result outcome))))
       (sop_unusable env node_id (''SOP '' @ ref @ '' cannot be added to the plan: '' @ reject_text (po_result outcome)) False)))))))"

text \<open>\<open>_expand_sop\<close> after the \<^verbatim>\<open>await\<close>: \<open>Inl\<close> is the text of the activity's failure.\<close>

definition expand_sop_loaded :: "env \<Rightarrow> string \<Rightarrow> string \<Rightarrow> string + loaded_sop \<Rightarrow> unit wf" where
  "expand_sop_loaded env node_id ref answer =
     (case answer of
        Inl exc \<Rightarrow> sop_unusable env node_id (''SOP '' @ ref @ '' could not be read: '' @ exc) True
      | Inr loaded \<Rightarrow> withW (\<lambda>self.
          let state = (case w_plan self of None \<Rightarrow> None | Some plan \<Rightarrow> dget (pl_nodes plan) node_id) in
          if (case state of None \<Rightarrow> True | Some s \<Rightarrow> ns_status s \<notin> {READY, RETRY_PENDING}) \<or> has_key (w_sops self) node_id \<or> \<not> at_work self
          then ret ()
          else if \<not> ls_found loaded then sop_unusable env node_id (''unknown SOP '' @ ref) False
          else (case ls_steps loaded of None \<Rightarrow> sop_unusable env node_id (''SOP '' @ ref @ '' is not a valid definition: '') False
            | Some raw \<Rightarrow> (case resolve_steps raw of
                Inl exc \<Rightarrow> sop_unusable env node_id (''SOP '' @ ref @ '' is not a valid definition: '' @ exc) False
              | Inr steps \<Rightarrow> add_sop env node_id ref (sop_name_of ref loaded) steps))))"

definition sop_ref_of :: "task \<Rightarrow> string \<Rightarrow> wf_error + string" where
  "sop_ref_of self node_id = (case w_plan self of None \<Rightarrow> Inl AssertionError
     | Some plan \<Rightarrow> bindE (lookup (pl_nodes plan) node_id) (\<lambda>s. case d_spec (ns_draft s) of SopStageSpec r i \<Rightarrow> Inr r | _ \<Rightarrow> Inl KeyErr))"

section \<open>What a step is told\<close>

definition handover_line :: "task \<Rightarrow> sop_entry \<Rightarrow> nat \<Rightarrow> string \<Rightarrow> string list" where
  "handover_line self e share dependency =
     (case dget (se_nodes e) dependency of None \<Rightarrow> []
      | Some part \<Rightarrow>
          (let output = dget (se_outputs e) dependency;
               said = (case output of Some out \<Rightarrow> if so_summary out \<noteq> [] then so_summary out else upd (dget (w_handovers self) dependency) []
                       | None \<Rightarrow> upd (dget (w_handovers self) dependency) []);
               summary = take share (strip said);
               files = take MAX_HANDOVER_FILES (case output of None \<Rightarrow> [] | Some out \<Rightarrow> so_artifacts out) in
           (''- Step '' @ nat_str (sp_index part) @ '' \"'' @ sp_subject part @ ''\": '' @ (if summary = [] then ''(it reported nothing)'' else summary))
           # (if files = [] then [] else [''  Files it left in the workspace: '' @ join '', '' files])))"

definition handover_to :: "task \<Rightarrow> string \<Rightarrow> string" where
  "handover_to self node_id =
     (case step_of self node_id of None \<Rightarrow> []
      | Some (sop_node, part) \<Rightarrow> if sp_role part \<noteq> RStep then []
          else (case dget (w_sops self) sop_node of None \<Rightarrow> []
            | Some e \<Rightarrow>
                (let dependencies = upd (dget (se_deps e) node_id) [];
                     share = min HANDOVER_CHARS (max 300 (MAX_HANDOVER_CHARS div max 1 (length dependencies)));
                     lines = concat (map (handover_line self e share) dependencies) in
                 if lines = [] then [] else nl @ nl @ ''What the steps before this one handed over:'' @ nl @ join nl lines)))"

text \<open>\<open>str(item.get("name", "")) for item in manifest_entries if item.get("name")\<close>, for names that are strings.\<close>

definition entry_names :: "(string, json) dict list \<Rightarrow> string list" where
  "entry_names entries = List.map_filter (\<lambda>item. case dget item ''name'' of Some (JStr n) \<Rightarrow> if n = [] then None else Some n | _ \<Rightarrow> None) entries"

definition record_step_output :: "attempt_finished_signal \<Rightarrow> task \<Rightarrow> task" where
  "record_step_output signal self =
     (case (step_of self (af_node_id signal), af_result signal) of
        (Some (sop_node, part), Some result) \<Rightarrow>
          if sp_role part \<noteq> RStep then self
          else (case dget (w_sops self) sop_node of None \<Rightarrow> self
            | Some e \<Rightarrow> self\<lparr>w_sops := dset sop_node (e\<lparr>se_outputs := dset (af_node_id signal)
                \<lparr>so_summary = take HANDOVER_CHARS (ar_handover_summary result),
                 so_artifacts = take MAX_HANDOVER_FILES (entry_names (ar_manifest_entries result))\<rparr> (se_outputs e)\<rparr>) (w_sops self)\<rparr>)
      | _ \<Rightarrow> self)"

section \<open>Approval nodes\<close>

definition ask_node_approval :: "env \<Rightarrow> string \<Rightarrow> unit wf" where
  "ask_node_approval env node_id = withW (\<lambda>self.
     let found = step_of self node_id in
     if w_plan self = None \<or> (found = None \<and> \<not> e_patched env NODE_APPROVALS) then ret ()
     else bindW (optW AssertionError (w_plan self)) (\<lambda>plan. bindW (liftE (lookup (pl_nodes plan) node_id)) (\<lambda>state.
       let node = ns_draft state; asked = re_asked (entry self node_id) + 1;
           approval_id = deterministic_id (w_task_id self @ '':'' @ node_id @ '':node_approval:'' @ nat_str asked) ''apr'';
           subject = \<lparr>sb_kind = (if found \<noteq> None then SubjSopStep else SubjNodeApproval), sb_digest = sha (node_id @ '':'' @ nat_str asked),
             sb_summary = take 500 (case d_spec node of ApprovalSpec s r \<Rightarrow> s | _ \<Rightarrow> d_title node),
             sb_risk = (case d_spec node of ApprovalSpec s r \<Rightarrow> r | _ \<Rightarrow> Medium),
             sb_detail = (case found of Some (sop, part) \<Rightarrow> sop_role_str (sp_role part) | None \<Rightarrow> ''approval''),
             sb_allow_rule = None, sb_role = None, sb_role_label = None\<rparr> in
       modW (\<lambda>s. emit env ''approval.requested'' [(''approval_id'', VStr approval_id), (''node_id'', VStr node_id), (''subject'', VSubject subject)]
         ((set_entry node_id (\<lambda>e. e\<lparr>re_asked := asked\<rparr>) s)\<lparr>w_approvals := dset approval_id \<lparr>ap_approval_id = approval_id,
            ap_status = AP_PENDING, ap_kind = KNodeApproval, ap_attempt_id = None, ap_tool_call_id = None, ap_node_id = node_id,
            ap_to_profile = [], ap_reason = [], ap_subject = subject, ap_comment = []\<rparr> (w_approvals s)\<rparr>)))))"

definition settle_node_approval :: "env \<Rightarrow> approval \<Rightarrow> decision \<Rightarrow> unit wf" where
  "settle_node_approval env approval decision = withW (\<lambda>self.
     let node_id = ap_node_id approval in
     case (case w_plan self of None \<Rightarrow> None | Some plan \<Rightarrow> dget (pl_nodes plan) node_id) of None \<Rightarrow> ret ()
     | Some state \<Rightarrow>
         if ns_status state \<noteq> AWAITING_APPROVAL then ret ()
         else if decision = Approve then
           thenW (set_node_status env node_id COMPLETED (Some True) ''approved'')
             (modW (\<lambda>s. s\<lparr>w_completed_nodes := w_completed_nodes s + 1\<rparr>))
         else (let why = ''approval of '' @ d_title (ns_draft state) @ '' was refused'' in
           thenW (modW (set_entry node_id (\<lambda>e. e\<lparr>re_blocked := True, re_blocked_for := ''approval'', re_retry_at := None\<rparr>)))
           (thenW (set_node_status env node_id BLOCKED None why)
           (withW (\<lambda>now. whenW (at_work now) (modW (set_status env TS_PAUSED_NEEDS_REVIEW (''node '' @ node_id @ '' is blocked: '' @ why))))))))"

text \<open>The pending approvals a predicate picks are cancelled, with an event each.\<close>

definition cancel_approvals :: "env \<Rightarrow> (approval \<Rightarrow> bool) \<Rightarrow> string \<Rightarrow> task \<Rightarrow> task" where
  "cancel_approvals env p comment self =
     foldl (\<lambda>s (approval_id, approval).
       if p approval \<and> ap_status approval = AP_PENDING
       then emit env ''approval.decided'' [(''approval_id'', VStr approval_id), (''status'', VApproval AP_CANCELLED), (''comment'', VStr comment), (''always'', VBool False)]
         (s\<lparr>w_approvals := dset approval_id (approval\<lparr>ap_status := AP_CANCELLED\<rparr>) (w_approvals s)\<rparr>)
       else s) self (w_approvals self)"

definition cancel_node_approvals :: "env \<Rightarrow> string \<Rightarrow> task \<Rightarrow> task" where
  "cancel_node_approvals env node_id =
     cancel_approvals env (\<lambda>a. ap_kind a = KNodeApproval \<and> ap_node_id a = node_id) ''the node was completed by a person''"

section \<open>The verifier\<close>

text \<open>
  The verification activities of a completion, in the order of the contract: each is asked only when all before it found
  nothing, the first that finds something decides, and one that cannot run (\<open>Inl\<close>) ends the check.
\<close>

primrec verify_each :: "string \<Rightarrow> (verification \<Rightarrow> string + verification_answer) \<Rightarrow> verification list \<Rightarrow> string + failure_reason list" where
  "verify_each activity act [] = Inr []"
| "verify_each activity act (v # vs) = bindE (act v) (\<lambda>result.
     let failures = reasons result activity in if failures \<noteq> [] then Inr failures else verify_each activity act vs)"

definition verify_sop_steps :: "env \<Rightarrow> (verification \<Rightarrow> string + verification_answer) \<Rightarrow> completion_contract \<Rightarrow> string + failure_reason list" where
  "verify_sop_steps env act contract =
     (if \<not> e_patched env SOP_VERIFIER then Inr []
      else verify_each ''verify_sop_step'' act (filter (\<lambda>v. v_kind v = SopVerifierV) (cc_verifications contract)))"

end
