(* ===== verification/Handover.thy ===== *)
theory Handover
  imports Pylib
begin

text \<open>
  \<^verbatim>\<open>orbit_orch/handover.py\<close>: the handover block a team member ends its reply with, and how a reply is cut to a limit
  without losing it. The two regular expressions are anchored to lines (\<^verbatim>\<open>re.MULTILINE\<close>) and take no newline, so each is a
  predicate on a line. A character of a text stands for one code point; \<open>ELLIPSIS\<close>, which is outside the 256 of \<open>char\<close>, is the
  unused code 0x80.
\<close>

section \<open>Lines\<close>

text \<open>The lines between the newlines of a text: what \<open>^\<close> and \<open>$\<close> delimit.\<close>

fun text_lines :: "string \<Rightarrow> string list" where
  "text_lines [] = [[]]"
| "text_lines (c # s) = (if c = CHR 0x0A then [] # text_lines s else (case text_lines s of [] \<Rightarrow> [[c]] | l # ls \<Rightarrow> (c # l) # ls))"

abbreviation NL :: char where "NL \<equiv> CHR 0x0A"

definition HANDOVER_MARKER :: string where "HANDOVER_MARKER = ''## Handover''"
definition ELLIPSIS :: string where "ELLIPSIS = [CHR 0x80]"
definition HEAD_SHARE :: nat where "HEAD_SHARE = 4"

definition blank :: "char \<Rightarrow> bool" where
  "blank c \<longleftrightarrow> c = CHR '' '' \<or> c = CHR 0x09"

definition lower :: "char \<Rightarrow> char" where
  "lower c = (let n = (of_char c :: nat) in if 65 \<le> n \<and> n \<le> 90 then char_of (n + 32) else c)"

text \<open>\<open>_HEADING\<close>: one to six \<^verbatim>\<open>#\<close>, the word in any case, an optional colon, blanks between.\<close>

definition is_heading :: "string \<Rightarrow> bool" where
  "is_heading line =
     (let l1 = dropWhile blank line;
          marks = takeWhile (\<lambda>c. c = CHR ''#'') l1;
          l2 = dropWhile blank (dropWhile (\<lambda>c. c = CHR ''#'') l1);
          l3 = dropWhile blank (drop 8 l2) in
      1 \<le> length marks \<and> length marks \<le> 6 \<and> map lower (take 8 l2) = ''handover''
      \<and> (case l3 of [] \<Rightarrow> True | c # rest \<Rightarrow> c = CHR '':'' \<and> (\<forall>x\<in>set rest. blank x)))"

text \<open>\<open>_SECTION_START\<close>: at least two \<^verbatim>\<open>#\<close> and something after them on the line (a third \<^verbatim>\<open>#\<close> is something).\<close>

definition is_section :: "string \<Rightarrow> bool" where
  "is_section line =
     (let l1 = dropWhile blank line in
      take 2 l1 = ''##'' \<and> (case dropWhile blank (drop 2 l1) of [] \<Rightarrow> False | c # _ \<Rightarrow> \<not> is_space c))"

definition has_handover_marker :: "string \<Rightarrow> bool" where
  "has_handover_marker text \<longleftrightarrow> (\<exists>line\<in>set (text_lines text). is_heading line)"

section \<open>The block\<close>

text \<open>The lines above the last heading, and those under it.\<close>

primrec last_heading :: "string list \<Rightarrow> (string list \<times> string list) option" where
  "last_heading [] = None"
| "last_heading (l # ls) =
     (case last_heading ls of Some (upper, below) \<Rightarrow> Some (l # upper, below)
      | None \<Rightarrow> if is_heading l then Some ([], ls) else None)"

text \<open>\<open>_split\<close>. \<open>text[:start]\<close> ends with the newline of the line upper, \<open>text[end:]\<close> starts with the heading's own.\<close>

definition split_block :: "string \<Rightarrow> (string \<times> string) option" where
  "split_block text =
     (case last_heading (text_lines text) of None \<Rightarrow> None
      | Some (upper, below) \<Rightarrow>
          (let body = strip (concat (map (\<lambda>l. NL # l) below)) in
           if body = [] then None else Some (rstrip (concat (map (\<lambda>l. l @ [NL]) upper)), body)))"

text \<open>\<open>_SECTION_START.split\<close>: the text before the first section, then a part for each section.\<close>

primrec section_lines :: "string list \<Rightarrow> string list list" where
  "section_lines [] = [[]]"
| "section_lines (l # ls) =
     (let rest = section_lines ls in
      if is_section l then [] # (l # hd rest) # tl rest else (l # hd rest) # tl rest)"

definition section_parts :: "string \<Rightarrow> string list" where
  "section_parts body = map rstrip (filter (\<lambda>p. strip p \<noteq> []) (map (join [NL]) (section_lines (text_lines body))))"

text \<open>The largest share that fits, by bisection.\<close>

definition cut_size :: "string list \<Rightarrow> nat \<Rightarrow> nat" where
  "cut_size parts share = sum_list (map (\<lambda>p. min (length p) share) parts)"

function best_share :: "string list \<Rightarrow> nat \<Rightarrow> nat \<Rightarrow> nat \<Rightarrow> nat" where
  "best_share parts room low high =
     (if low < high then
        (let share = (low + high + 1) div 2 in
         if cut_size parts share \<le> room then best_share parts room share high else best_share parts room low (share - 1))
      else low)"
  by pat_completeness auto
termination
  by (relation "measure (\<lambda>(parts, room, low, high). high - low)") auto

declare best_share.simps [simp del]

text \<open>\<open>_fit_sections\<close>. The room is what the caller has left and may be negative.\<close>

definition fit_sections :: "string \<Rightarrow> int \<Rightarrow> string" where
  "fit_sections body room =
     (let parts = section_parts body;
          room1 = nat (max 0 (room - (int (length parts) - 1)));
          low = best_share parts room1 0 room1 in
      join [NL] (map (\<lambda>p. rstrip (take low p)) parts))"

definition block_room :: "string \<Rightarrow> nat \<Rightarrow> int" where
  "block_room head limit =
     int limit - (if head \<noteq> [] then int (min (length head) (limit div HEAD_SHARE) + length ELLIPSIS + 2) else 0)"

definition fit_block :: "string \<Rightarrow> string \<Rightarrow> nat \<Rightarrow> string" where
  "fit_block head body limit =
     (let block = HANDOVER_MARKER @ [NL] @ body in
      if int (length block) > block_room head limit
      then HANDOVER_MARKER @ [NL] @ fit_sections body (block_room head limit - int (length HANDOVER_MARKER) - 1)
      else block)"

definition fit_handover :: "string \<Rightarrow> nat \<Rightarrow> string" where
  "fit_handover text limit =
     (if length text \<le> limit then text
      else (case split_block text of
          None \<Rightarrow> take limit text
        | Some (head, body) \<Rightarrow>
            (let block = fit_block head body limit;
                 room = int limit - int (length block) - int (length ELLIPSIS) - 2 in
             if head = [] \<or> room \<le> 0 then block
             else if int (length head) \<le> room then head @ [NL, NL] @ block
             else take limit (rstrip (take (nat room) head) @ ELLIPSIS @ [NL, NL] @ block))))"

definition without_handover_block :: "string \<Rightarrow> string" where
  "without_handover_block text =
     (case split_block text of None \<Rightarrow> text | Some (head, body) \<Rightarrow> if head \<noteq> [] then head else body)"

section \<open>The cut\<close>

lemma length_rstrip: "length (rstrip s) \<le> length s"
  by (simp add: rstrip_def) (metis length_dropWhile_le length_rev)

lemma cut_size_mono: "a \<le> b \<Longrightarrow> cut_size parts a \<le> cut_size parts b"
  unfolding cut_size_def by (rule sum_list_mono) auto

text \<open>The bisection finds the largest share up to \<open>high\<close> that fits.\<close>

lemma best_share_spec:
  assumes "low \<le> high" "cut_size parts low \<le> room"
  shows "low \<le> best_share parts room low high \<and> best_share parts room low high \<le> high
    \<and> cut_size parts (best_share parts room low high) \<le> room
    \<and> (\<forall>k. best_share parts room low high < k \<longrightarrow> k \<le> high \<longrightarrow> room < cut_size parts k)"
  using assms
proof (induction parts room low high rule: best_share.induct)
  case (1 parts room low high)
  define share where "share = (low + high + 1) div 2"
  show ?case
  proof (cases "low < high")
    case False
    then show ?thesis using 1(3,4) by (subst (1 2 3 4) best_share.simps) auto
  next
    case True
    then have bounds: "low < share" "share \<le> high" by (auto simp: share_def)
    show ?thesis
    proof (cases "cut_size parts share \<le> room")
      case fits: True
      then have eq: "best_share parts room low high = best_share parts room share high"
        using True by (subst best_share.simps) (simp add: Let_def share_def)
      show ?thesis using 1(1)[OF True share_def fits] bounds fits unfolding eq by auto
    next
      case no: False
      then have eq: "best_share parts room low high = best_share parts room low (share - 1)"
        using True by (subst best_share.simps) (simp add: Let_def share_def)
      have IH: "low \<le> best_share parts room low (share - 1) \<and> best_share parts room low (share - 1) \<le> share - 1
        \<and> cut_size parts (best_share parts room low (share - 1)) \<le> room
        \<and> (\<forall>k. best_share parts room low (share - 1) < k \<longrightarrow> k \<le> share - 1 \<longrightarrow> room < cut_size parts k)"
        using 1(2)[OF True share_def no] bounds 1(4) by simp
      have above: "room < cut_size parts k" if "share \<le> k" for k
        using no cut_size_mono[OF that, of parts] by linarith
      have "room < cut_size parts k" if "best_share parts room low (share - 1) < k" for k
      proof (cases "share \<le> k")
        case False
        then have "k \<le> share - 1" by linarith
        then show ?thesis using IH that by blast
      qed (rule above)
      then show ?thesis unfolding eq using IH bounds by (metis diff_le_self le_trans)
    qed
  qed
qed

lemma cut_size_0 [simp]: "cut_size parts 0 = 0"
  by (simp add: cut_size_def)

lemma length_join: "parts \<noteq> [] \<Longrightarrow> length (join [NL] parts) + 1 = sum_list (map length parts) + length parts"
  by (induction parts) (auto simp: neq_Nil_conv)

lemma length_cut: "sum_list (map (\<lambda>p. length (rstrip (take k p))) parts) \<le> cut_size parts k"
  unfolding cut_size_def
proof (rule sum_list_mono)
  fix p
  show "length (rstrip (take k p)) \<le> min (length p) k"
    using length_rstrip[of "take k p"] by (simp add: min.commute)
qed

lemma length_fit_sections:
  assumes "int (length (section_parts body)) \<le> room + 1" "0 \<le> room"
  shows "int (length (fit_sections body room)) \<le> room"
proof (cases "section_parts body = []")
  case True
  then show ?thesis using assms by (simp add: fit_sections_def)
next
  case False
  define parts where "parts = section_parts body"
  define room1 where "room1 = nat (max 0 (room - (int (length parts) - 1)))"
  define low where "low = best_share parts room1 0 room1"
  have "cut_size parts low \<le> room1" using best_share_spec[of 0 room1 parts room1] by (simp add: low_def)
  then have "sum_list (map length (map (\<lambda>p. rstrip (take low p)) parts)) \<le> room1"
    using length_cut[of low parts] by (simp add: comp_def)
  moreover have "length (join [NL] (map (\<lambda>p. rstrip (take low p)) parts)) + 1
      = sum_list (map length (map (\<lambda>p. rstrip (take low p)) parts)) + length parts"
    using length_join[of "map (\<lambda>p. rstrip (take low p)) parts"] False by (simp add: parts_def)
  ultimately have "length (fit_sections body room) + 1 \<le> room1 + length parts"
    by (simp add: fit_sections_def Let_def parts_def[symmetric] room1_def[symmetric] low_def[symmetric])
  then show ?thesis using assms by (simp add: room1_def parts_def)
qed

text \<open>How many characters a text of this block may take, and that the block keeps within them.\<close>

definition room_for_block :: "string \<Rightarrow> nat \<Rightarrow> bool" where
  "room_for_block text limit =
     (case split_block text of None \<Rightarrow> True
      | Some (head, body) \<Rightarrow> int (length (section_parts body)) + 12 \<le> block_room head limit)"

lemma length_marker [simp]: "length HANDOVER_MARKER = 11"
  and length_ellipsis [simp]: "length ELLIPSIS = 1"
  by (simp_all add: HANDOVER_MARKER_def ELLIPSIS_def)

lemma length_fit_block:
  assumes "int (length (section_parts body)) + 12 \<le> block_room head limit"
  shows "int (length (fit_block head body limit)) \<le> block_room head limit"
proof -
  have "int (length (fit_sections body (block_room head limit - 11 - 1))) \<le> block_room head limit - 11 - 1"
    by (rule length_fit_sections) (use assms in linarith)+
  then show ?thesis by (auto simp: fit_block_def Let_def)
qed

lemma block_room_le: "block_room head limit \<le> int limit"
  by (simp add: block_room_def)

text \<open>What \<open>fit_handover\<close> returns for a reply that does not fit and has a block: what is kept of the head, then the block.\<close>

lemma fit_handover_block:
  assumes "limit < length text" "split_block text = Some (head, body)" "room_for_block text limit"
  obtains kept where "fit_handover text limit = kept @ fit_block head body limit" "kept = [] \<or> last kept = NL"
    "length (kept @ fit_block head body limit) \<le> limit"
proof -
  let ?b = "fit_block head body limit"
  define room where "room = int limit - int (length ?b) - 1 - 2"
  have len: "int (length ?b) \<le> int limit"
    using length_fit_block[of body head limit] block_room_le[of head limit] assms(2,3) by (auto simp: room_for_block_def)
  consider (only) "head = [] \<or> room \<le> 0" | (whole) "head \<noteq> []" "0 < room" "int (length head) \<le> room"
    | (cut) "head \<noteq> []" "0 < room" "room < int (length head)" by linarith
  then show thesis
  proof cases
    case only
    then have "fit_handover text limit = [] @ ?b" using assms by (auto simp: fit_handover_def room_def Let_def)
    then show thesis using len that[of "[]"] by simp
  next
    case whole
    then have "fit_handover text limit = (head @ [NL, NL]) @ ?b" using assms by (auto simp: fit_handover_def room_def Let_def)
    then show thesis using whole that[of "head @ [NL, NL]"] by (simp add: room_def)
  next
    case cut
    define kept where "kept = rstrip (take (nat room) head) @ ELLIPSIS @ [NL, NL]"
    have "length kept \<le> nat room + 3" using length_rstrip[of "take (nat room) head"] by (simp add: kept_def)
    then have "length (kept @ ?b) \<le> limit" using cut by (simp add: room_def)
    moreover have "fit_handover text limit = take limit (kept @ ?b)"
      using cut assms by (auto simp: fit_handover_def room_def Let_def kept_def)
    ultimately show thesis using that[of kept] by (simp add: kept_def)
  qed
qed

lemma text_lines_nonempty [simp]: "text_lines s \<noteq> []"
  by (cases s) (auto split: list.split)

lemma text_lines_append: "text_lines (a @ NL # b) = text_lines a @ text_lines b"
  by (induction a) (auto split: list.split)

lemma text_lines_single: "NL \<notin> set a \<Longrightarrow> text_lines a = [a]"
  by (induction a) auto

lemma heading_marker: "text_lines HANDOVER_MARKER = [HANDOVER_MARKER]" "is_heading HANDOVER_MARKER"
  by code_simp+

lemma marker_of_block: "has_handover_marker (HANDOVER_MARKER @ NL # rest)"
  by (simp add: has_handover_marker_def text_lines_append heading_marker)

lemma marker_after: "kept = [] \<or> last kept = NL \<Longrightarrow> has_handover_marker b \<Longrightarrow> has_handover_marker (kept @ b)"
proof (cases "kept = []")
  case False
  assume "kept = [] \<or> last kept = NL" and b: "has_handover_marker b"
  then obtain k where "kept = k @ [NL]" using False by (metis append_butlast_last_id)
  then show ?thesis using b by (auto simp: has_handover_marker_def text_lines_append)
qed simp

lemma marker_of_fit_block: "has_handover_marker (fit_block head body limit)"
  using marker_of_block by (auto simp: fit_block_def Let_def)

section \<open>What the cut promises\<close>

definition many_sections :: string where
  "many_sections = HANDOVER_MARKER @ concat (replicate 12 [NL, CHR ''#'', CHR ''#'', CHR ''a''])"

definition long_reply :: string where
  "long_reply = replicate 40 (CHR ''x'') @ [NL] @ HANDOVER_MARKER @ [NL] @ replicate 30 (CHR ''y'')"

text \<open>
  A reply is cut to the limit it is given: the result of \<open>fit_handover\<close> never has more than \<open>limit\<close> characters, provided
  the room of the block holds the marker and a character for every section of the block.
\<close>

theorem fit_handover_within:
  assumes "room_for_block text limit"
  shows "length (fit_handover text limit) \<le> limit"
proof (cases "limit < length text")
  case True
  show ?thesis
  proof (cases "split_block text")
    case None
    then show ?thesis using True by (simp add: fit_handover_def)
  next
    case (Some hb)
    then obtain head body where "split_block text = Some (head, body)" by (cases hb) auto
    then show ?thesis using fit_handover_block[OF True _ assms] by metis
  qed
qed (simp add: fit_handover_def)

theorem fit_handover_within_witness:
  "room_for_block long_reply 60 \<and> 60 < length long_reply \<and> length (fit_handover long_reply 60) \<le> 60"
proof -
  have r: "room_for_block long_reply 60" "60 < length long_reply" by code_simp+
  show ?thesis using r fit_handover_within[OF r(1)] by simp
qed

text \<open>
  Without that proviso the promise fails: a block with more sections than there is room for is cut to the newlines between
  them, and they are more than the limit.
\<close>

theorem fit_handover_can_exceed: "length many_sections = 59 \<and> length (fit_handover many_sections 20) = 23"
  by code_simp

text \<open>
  The cut does not lose the handover: when a reply with a block does not fit, what is left still has a handover heading, and
  ends in the block, whole or with its sections cut.
\<close>

theorem fit_handover_keeps_block:
  assumes "limit < length text" "split_block text = Some (head, body)" "room_for_block text limit"
  shows "has_handover_marker (fit_handover text limit)
    \<and> (\<exists>kept. fit_handover text limit = kept @ fit_block head body limit)"
proof -
  obtain kept where "fit_handover text limit = kept @ fit_block head body limit" "kept = [] \<or> last kept = NL"
    using fit_handover_block[OF assms] by metis
  then show ?thesis using marker_after marker_of_fit_block by metis
qed

theorem fit_handover_keeps_block_witness:
  "split_block long_reply = Some (replicate 40 (CHR ''x''), replicate 30 (CHR ''y'')) \<and> has_handover_marker (fit_handover long_reply 60)"
proof -
  have s: "split_block long_reply = Some (replicate 40 (CHR ''x''), replicate 30 (CHR ''y''))" by code_simp
  have r: "room_for_block long_reply 60" "60 < length long_reply" by code_simp+
  show ?thesis using s fit_handover_keeps_block[OF r(2) s r(1)] by blast
qed

text \<open>
  A block that is cut gives every section the same share, the largest for which they fit together: the share fits, and one
  more character for each section would not.
\<close>

theorem sections_share_largest:
  "cut_size parts (best_share parts room 0 room) \<le> room
   \<and> (best_share parts room 0 room < room \<longrightarrow> room < cut_size parts (best_share parts room 0 room + 1))"
  using best_share_spec[of 0 room parts room] by simp

theorem sections_share_largest_witness:
  "best_share [replicate 10 CHR ''a'', ''bc''] 8 0 8 = 6 \<and> 8 < cut_size [replicate 10 CHR ''a'', ''bc''] 7"
proof -
  have e: "best_share [replicate 10 CHR ''a'', ''bc''] 8 0 8 = 6" by code_simp
  have n: "(6::nat) + 1 = 7" by simp
  show ?thesis using sections_share_largest[of "[replicate 10 CHR ''a'', ''bc'']" 8] unfolding e n by simp
qed

end
