(* ===== verification/Task_Review.thy ===== *)
theory Task_Review
  imports Task_Sop Handover
begin

text \<open>
  \<^verbatim>\<open>orbit_orch/task_review.py\<close>: the leader's review of the tasks it created, the relay of what mentioned members answered, and
  the team's conversation. The title of a review is Chinese in the source; its UTF-8 bytes stand for it here.
\<close>

section \<open>Prompts\<close>

definition REVIEW_TITLE :: string where
  "REVIEW_TITLE = [CHR 0xE9, CHR 0xA2, CHR 0x86, CHR 0xE9, CHR 0x98, CHR 0x9F, CHR 0xE5, CHR 0xA4, CHR 0x8D, CHR 0xE7, CHR 0x9B, CHR 0x98]"

definition DONE :: "node_status list" where "DONE = [COMPLETED, SKIPPED, CANCELLED]"
definition MIN_REPORT_CHARS :: nat where "MIN_REPORT_CHARS = 40"
definition REVIEW_PROMPT_CHARS :: nat where "REVIEW_PROMPT_CHARS = 12000"

definition handover_missing :: "string \<Rightarrow> bool" where
  "handover_missing summary = (let text = strip summary in \<not> has_handover_marker text \<and> length text < MIN_REPORT_CHARS)"

text \<open>What the prompt says of a task: \<open>title\<close>, \<open>status\<close>, \<open>summary\<close>, \<open>artifacts\<close> and \<open>missing\<close> (empty unless the report is).\<close>

record review_child =
  rc_title :: string
  rc_status :: string
  rc_summary :: string
  rc_artifacts :: "string list"
  rc_missing :: string

definition prompt_share :: "review_child list \<Rightarrow> nat" where
  "prompt_share children = max 300 (min HANDOVER_CHARS (REVIEW_PROMPT_CHARS div max 1 (length children)))"

text \<open>The lines of one task: its title, what it said within the share, its files and, in a review, that its report is missing.\<close>

definition child_lines :: "nat \<Rightarrow> string \<Rightarrow> nat \<times> review_child \<Rightarrow> string list" where
  "child_lines share nothing = (\<lambda>(index, child).
     let said = fit_handover (strip (rc_summary child)) share;
         files = take MAX_HANDOVER_FILES (rc_artifacts child) in
     [nl @ nat_str index @ ''. '' @ rc_title child @ '' ['' @ rc_status child @ '']'', ''   '' @ (if said = [] then nothing else said)]
     @ (if files = [] then [] else [''   Files: '' @ join '', '' files]))"

definition missing_line :: "review_child \<Rightarrow> string list" where
  "missing_line child = (if rc_missing child = [] then []
     else [''   HANDOVER MISSING (owner id: '' @ rc_missing child @ ''): no handover block, and the reply says too little to go by.''])"

definition review_instructions :: "nat \<Rightarrow> string" where
  "review_instructions max_rounds = nl @
     ''What a member says it did is a claim. Count a result or side effect as done only when its evidence supports it '' @
     ''(tool output, test results, files that exist in the workspace), check the files when the claim matters, and do '' @
     ''not report a member's work as done or verified on its word alone: say plainly what is unverified. Weigh these '' @
     ''results against the goal of the task. If something is missing or wrong, create the next tasks with TaskCreate '' @
     ''(they will be reviewed in turn, up to '' @ nat_str max_rounds @
     '' rounds in all); if the work is done, answer with the final result for the user. Go through every \"Needs from '' @
     ''the leader\" item in the reports (and the open issues that call for action); none is dropped silently. What you '' @
     ''can settle from the task's goal and what you know, settle yourself: create the follow-up task with TaskCreate, '' @
     ''or decide and say so. What only the user can decide (a preference, taste, scope, an approval) goes at the end '' @
     ''of your final answer as a short, concrete question to the user; do not guess it. Keep this message short: no '' @
     ''recap of the reports above, no tables, no internal ids; a final result is the result, how to use it and the '' @
     ''key files.''"

definition missing_instructions :: string where
  "missing_instructions =
     ''A task marked HANDOVER MISSING gave you nothing to judge by: do not guess what it did. Unless the files it '' @
     ''left answer the question, create a new task with TaskCreate for the same owner (its owner id, as shown) asking '' @
     ''it to report again: the result, evidence, files, verification and open issues. That task is reviewed like any '' @
     ''other and counts toward the same rounds.''"

definition review_goal :: "nat \<Rightarrow> nat \<Rightarrow> review_child list \<Rightarrow> nat \<Rightarrow> string" where
  "review_goal round_no max_rounds children left_out =
     (let share = prompt_share children in
      join nl (
        [REVIEW_TITLE @ [CHR 0xEF, CHR 0xBC, CHR 0x88, CHR 0xE7, CHR 0xAC, CHR 0xAC] @ '' '' @ nat_str round_no @ '' ''
           @ [CHR 0xE8, CHR 0xBD, CHR 0xAE, CHR 0xEF, CHR 0xBC, CHR 0x89] @ '': the '' @ nat_str (length children + left_out)
           @ '' task(s) you created have finished. What each one reported:'']
        @ concat (map (\<lambda>ic. child_lines share ''(it reported nothing)'' ic @ missing_line (snd ic)) (enumerate 1 children))
        @ (if left_out = 0 then [] else [nl @ ''(and '' @ nat_str left_out @ '' more not listed)''])
        @ [review_instructions max_rounds]
        @ (if list_ex (\<lambda>c. rc_missing c \<noteq> []) children then [missing_instructions] else [])))"

definition relay_instructions :: string where
  "relay_instructions = nl @
     ''Check what they said against the user's message and what you know of the task, then answer the user yourself: '' @
     ''the answer, corrected or completed where it needs to be, not a forward of theirs. What a member says it did is '' @
     ''only a claim: do not state it to the user as fact unless its evidence (tool output, test results, files) '' @
     ''supports it, and say what is unverified. Keep it short: no recap of who said what unless it matters, no '' @
     ''internal ids. If the message asks for work that is not done yet, create it with TaskCreate. Handle every '' @
     ''\"Needs from the leader\" item: settle what you can yourself, and put what only the user can decide to them as a '' @
     ''short, concrete question instead of guessing.''"

definition relay_goal :: "string \<Rightarrow> review_child list \<Rightarrow> string" where
  "relay_goal question answers =
     (let share = prompt_share answers;
          names = join [CHR 0xE3, CHR 0x80, CHR 0x81] (map rc_title answers) in
      join nl (
        [REVIEW_TITLE @ '': the user asked '' @ names @ '' directly and they have answered you. The user's message:'',
         take FOLLOW_UP_GOAL_CHARS (strip question), nl @ ''What each one answered:'']
        @ concat (map (child_lines share ''(it answered nothing)'') (enumerate 1 answers))
        @ [relay_instructions]))"

section \<open>Reviews\<close>

definition max_review_rounds :: "task \<Rightarrow> nat" where
  "max_review_rounds self = upd (p_max_review_rounds (w_policy self)) DEFAULT_MAX_REVIEW_ROUNDS"

definition note_leader_done :: "env \<Rightarrow> string \<Rightarrow> attempt \<Rightarrow> unit wf" where
  "note_leader_done env node_id attempt = withW (\<lambda>self.
     if \<not> e_patched env LEADER_REVIEW \<or> max_review_rounds self = 0 then ret ()
     else case w_plan self of None \<Rightarrow> ret ()
     | Some plan \<Rightarrow> (case dget (pl_nodes plan) node_id of None \<Rightarrow> ret ()
       | Some state \<Rightarrow>
           if ns_status state \<noteq> COMPLETED \<or> has_key (w_reviews self) node_id then ret ()
           else bindW (liftE (is_leader_node self node_id)) (\<lambda>leader.
             if \<not> leader then ret ()
             else (let made = map (attempt_id_of self node_id) [1..<ns_attempt_count state + 1];
                       children = map fst (filter (\<lambda>(k, s). k \<noteq> node_id \<and> (case ns_created_by s of None \<Rightarrow> False | Some c \<Rightarrow> c \<in> set made)) (pl_nodes plan));
                       round_no = upd (dget (w_node_rounds self) node_id) 0 + 1;
                       kept = take MAX_REVIEW_CHILDREN children in
                   if children = [] then ret ()
                   else modW (\<lambda>s. s\<lparr>w_reviews := dset node_id
                       \<lparr>rv_attempt_id = x_attempt_id attempt, rv_profile = (if x_profile attempt = [] then w_profile s else x_profile attempt),
                        rv_round = round_no, rv_children = kept, rv_more = length children - length kept,
                        rv_titles = map (\<lambda>c. (c, take 80 (case dget (pl_nodes plan) c of None \<Rightarrow> [] | Some n \<Rightarrow> d_title (ns_draft n)))) kept,
                        rv_results = [], rv_relay = None\<rparr> (w_reviews s),
                      w_node_rounds := foldl (\<lambda>d c. dset c round_no d) (w_node_rounds s) kept\<rparr>)))))"

definition record_review_output :: "attempt_finished_signal \<Rightarrow> task \<Rightarrow> task" where
  "record_review_output signal self =
     (case af_result signal of None \<Rightarrow> self
      | Some result \<Rightarrow> self\<lparr>w_reviews := dmap (\<lambda>_ e.
          if af_node_id signal \<in> set (rv_children e)
          then e\<lparr>rv_results := dset (af_node_id signal)
            \<lparr>so_summary = fit_handover (ar_handover_summary result) HANDOVER_CHARS,
             so_artifacts = take MAX_HANDOVER_FILES (entry_names (ar_manifest_entries result))\<rparr> (rv_results e)\<rparr>
          else e) (w_reviews self)\<rparr>)"

definition report_review_limit :: "env \<Rightarrow> string \<Rightarrow> review_entry \<Rightarrow> nat \<Rightarrow> task \<Rightarrow> task" where
  "report_review_limit env leader_node e max_rounds self =
     set_status env TS_PAUSED_NEEDS_REVIEW
       (''the leader's reviews reached the limit of '' @ nat_str max_rounds
        @ '' rounds: the tasks created in the last round are done and were not reviewed'')
       (emit env ''plan.review_limit_reached'' [(''node_id'', VStr leader_node), (''round'', VInt (int (rv_round e))),
          (''max_rounds'', VInt (int max_rounds)), (''children'', VInt (int (length (rv_children e) + rv_more e)))] self)"

definition review_child_of :: "task \<Rightarrow> plan_state \<Rightarrow> review_entry \<Rightarrow> string \<Rightarrow> review_child" where
  "review_child_of self plan e child =
     (let state = dget (pl_nodes plan) child;
          result = dget (rv_results e) child;
          summary = (case result of None \<Rightarrow> [] | Some out \<Rightarrow> so_summary out);
          status = (case state of None \<Rightarrow> ''completed'' | Some s \<Rightarrow> if ns_status s = SKIPPED then ''skipped'' else ''completed'');
          owner = (case state of None \<Rightarrow> None | Some s \<Rightarrow> owner_of self (ns_draft s)) in
      \<lparr>rc_title = (case dget (rv_titles e) child of None \<Rightarrow> child | Some t \<Rightarrow> if t = [] then child else t), rc_status = status,
       rc_summary = summary, rc_artifacts = (case result of None \<Rightarrow> [] | Some out \<Rightarrow> so_artifacts out),
       rc_missing = (case owner of None \<Rightarrow> [] | Some (role, label) \<Rightarrow> if status = ''completed'' \<and> handover_missing summary then role else [])\<rparr>)"

definition review_draft :: "review_entry \<Rightarrow> string list \<Rightarrow> string \<Rightarrow> task_node_draft" where
  "review_draft e live goal = (new_draft ''tmp:1'' REVIEW_TITLE (AgentTurnSpec goal []))
     \<lparr>d_depends_on := live, d_owner_profile := Some (rv_profile e)\<rparr>"

definition review_command :: "task \<Rightarrow> plan_state \<Rightarrow> review_entry \<Rightarrow> string list \<Rightarrow> nat \<Rightarrow> plan_change_command" where
  "review_command self plan e live max_rounds =
     (let children = map (review_child_of self plan e) (rv_children e) in
      case rv_relay e of
        Some (question, seq) \<Rightarrow> system_command self (''relay:'' @ w_task_id self @ '':'' @ nat_str seq) (pl_version plan)
          [AddNodeOp (review_draft e live (relay_goal question children))] ''leader relays the members' answers''
      | None \<Rightarrow> system_command self (''review:'' @ w_task_id self @ '':'' @ rv_attempt_id e) (pl_version plan)
          [AddNodeOp (review_draft e live (review_goal (rv_round e) max_rounds children (rv_more e)))]
          (''leader review, round '' @ nat_str (rv_round e)))"

text \<open>After a compaction the review depends on what is left of the tasks it follows.\<close>

definition rebase_review :: "plan_change_command \<Rightarrow> string list \<Rightarrow> plan_state \<Rightarrow> plan_change_command" where
  "rebase_review command live plan = command\<lparr>pc_base_plan_version := pl_version plan,
     pc_ops := map (\<lambda>op. case op of AddNodeOp d \<Rightarrow> AddNodeOp (d\<lparr>d_depends_on := filter (\<lambda>c. has_key (pl_nodes plan) c) live\<rparr>) | _ \<Rightarrow> op) (pc_ops command)\<rparr>"

definition review_accepted :: "env \<Rightarrow> review_entry \<Rightarrow> plan_change_command \<Rightarrow> plan_apply_outcome \<Rightarrow> unit wf" where
  "review_accepted env e command outcome =
     thenW (modW (\<lambda>s. s\<lparr>w_plan := Some (po_plan outcome)\<rparr>))
     (bindW (optW KeyErr (dget (acc_id_map (po_result outcome)) ''tmp:1'')) (\<lambda>review_node.
      thenW (modW (\<lambda>s.
        let session = (case c_team (w_config s) of Some team \<Rightarrow> if rv_relay e \<noteq> None then upd (dget (w_member_sessions s) (team_leader team)) [] else []
              | None \<Rightarrow> []);
            since = (if session = [] then rv_attempt_id e else session) in
        s\<lparr>w_review_nodes := dset review_node \<lparr>rn_from = since, rn_round = rv_round e\<rparr> (w_review_nodes s),
          w_node_rounds := dset review_node (rv_round e) (w_node_rounds s)\<rparr>))
      (thenW (refresh_readiness env)
      (modW (committed env command [(''reason'', VStr ''leader review'')])))))"

definition add_review :: "env \<Rightarrow> string \<Rightarrow> review_entry \<Rightarrow> string list \<Rightarrow> nat \<Rightarrow> unit wf" where
  "add_review env leader_node e live max_rounds = withW (\<lambda>self.
     bindW (optW AssertionError (w_plan self)) (\<lambda>plan.
     let command0 = review_command self plan e live max_rounds in
     bindW (judge_system env command0) (\<lambda>outcome0.
     bindW (if too_many (po_result outcome0) then compact_plan env True 0 else ret False) (\<lambda>again.
     bindW (getW (\<lambda>s. case w_plan s of Some now \<Rightarrow> if again then rebase_review command0 live now else command0 | None \<Rightarrow> command0)) (\<lambda>command.
     bindW (if again then judge_system env command else ret outcome0) (\<lambda>outcome.
       if is_accepted (po_result outcome) then review_accepted env e command outcome
       else thenW (modW (emit env ''plan.change_rejected'' (rejected_payload (po_result outcome))))
         (modW (set_status env TS_PAUSED_NEEDS_REVIEW (''the review of the tasks of '' @ leader_node @ '' could not be added to the plan: ''
            @ reject_text (po_result outcome))))))))))"

definition review_waits :: "plan_state \<Rightarrow> review_entry \<Rightarrow> bool" where
  "review_waits plan e = list_ex (\<lambda>child. case dget (pl_nodes plan) child of None \<Rightarrow> False | Some s \<Rightarrow> ns_status s \<notin> set DONE) (rv_children e)"

text \<open>One entry of the loop of \<open>_open_reviews\<close>.\<close>

definition open_review :: "env \<Rightarrow> string \<times> review_entry \<Rightarrow> unit wf" where
  "open_review env = (\<lambda>(leader_node, e). withW (\<lambda>self.
     case w_plan self of None \<Rightarrow> ret ()
     | Some plan \<Rightarrow>
         if review_waits plan e then ret ()
         else thenW (modW (\<lambda>s. s\<lparr>w_reviews := dpop leader_node (w_reviews s)\<rparr>))
           (let live = filter (\<lambda>c. has_key (pl_nodes plan) c) (rv_children e); max_rounds = max_review_rounds self in
            if live = [] \<and> rv_results e = [] then ret ()
            else if max_rounds < rv_round e then modW (report_review_limit env leader_node e max_rounds)
            else add_review env leader_node e live max_rounds)))"

definition open_reviews :: "env \<Rightarrow> unit wf" where
  "open_reviews env = withW (\<lambda>self.
     if w_reviews self = [] \<or> w_plan self = None \<or> \<not> at_work self then ret () else forW (w_reviews self) (open_review env))"

section \<open>The team's conversation\<close>

definition emit_team_reply :: "env \<Rightarrow> attempt_finished_signal \<Rightarrow> task \<Rightarrow> task" where
  "emit_team_reply env signal self =
     (case (c_team (w_config self), af_result signal, w_plan self) of
        (Some team, Some result, Some plan) \<Rightarrow>
          if \<not> e_patched env TEAM_MESSAGES then self
          else (case dget (pl_nodes plan) (af_node_id signal) of None \<Rightarrow> self
            | Some state \<Rightarrow> (case dget (w_review_nodes self) (af_node_id signal) of
                Some r \<Rightarrow> team_message env (af_node_id signal) (Some (af_attempt_id signal)) ''review'' (team_leader team) []
                  (ar_handover_summary result) (rn_round r) self
              | None \<Rightarrow> (case owner_of self (ns_draft state) of None \<Rightarrow> self
                  | Some (role, label) \<Rightarrow>
                      if role = team_leader team then self
                      else (let to_user = (case dget (w_follow_ups self) (af_node_id signal) of None \<Rightarrow> False
                                  | Some f \<Rightarrow> fu_mention f \<notin> {None, Some []} \<and> \<not> fu_relay f);
                                text = (if to_user \<or> team_leader team = ''user'' then without_handover_block (ar_handover_summary result)
                                  else ar_handover_summary result) in
                            team_message env (af_node_id signal) (Some (af_attempt_id signal)) ''reply'' role
                              [if to_user then ''user'' else team_leader team] text 0 self))))
      | _ \<Rightarrow> self)"

definition remember_member_session :: "env \<Rightarrow> string \<Rightarrow> string \<Rightarrow> task \<Rightarrow> task" where
  "remember_member_session env node_id attempt_id self =
     (case (c_team (w_config self), w_plan self) of
        (Some team, Some plan) \<Rightarrow> (case dget (pl_nodes plan) node_id of None \<Rightarrow> self
          | Some state \<Rightarrow> (case owner_of self (ns_draft state) of None \<Rightarrow> self
              | Some (role, label) \<Rightarrow> if role \<noteq> team_leader team \<or> e_patched env MENTION_RELAY
                  then self\<lparr>w_member_sessions := dset role attempt_id (w_member_sessions self)\<rparr> else self))
      | _ \<Rightarrow> self)"

section \<open>Mentions\<close>

definition member_name :: "team_member \<Rightarrow> string" where
  "member_name m = (if tm_label m = [] then tm_role m else tm_label m)"

definition mention_draft :: "env \<Rightarrow> inbox_message \<Rightarrow> nat \<times> team_member \<Rightarrow> plan_op" where
  "mention_draft env message = (\<lambda>(index, member).
     AddNodeOp ((new_draft (''tmp:'' @ nat_str index) (take 200 (''@'' @ member_name member @ '': '' @ first_line (im_text message)))
         (AgentTurnSpec (take (4 * FOLLOW_UP_GOAL_CHARS) (im_text message)) []))
       \<lparr>d_owner_profile := Some (tm_expert member),
        d_workspace_access := (if e_patched env MENTION_READ_ONLY then Some ReadAccess else None)\<rparr>))"

definition mentioned :: "team \<Rightarrow> inbox_message \<Rightarrow> team_member list" where
  "mentioned team message = filter (\<lambda>m. tm_role m \<in> set (im_mentions message) \<and> tm_role m \<noteq> team_leader team) (team_members team)"

text \<open>The nodes of an accepted mention: who each is for, the follow-up entries and, with a relay, the review the leader owes.\<close>

definition mention_entries :: "env \<Rightarrow> inbox_message \<Rightarrow> team \<Rightarrow> (string \<times> team_member) list \<Rightarrow> task \<Rightarrow> task" where
  "mention_entries env message team given self =
     (let relay = (e_patched env MENTION_RELAY \<and> 0 < max_review_rounds self);
          follow_ups = foldl (\<lambda>d (node_id, m). dset node_id \<lparr>fu_from = upd (dget (w_member_sessions self) (tm_role m)) [],
            fu_seq = im_message_seq message, fu_mention = Some (tm_role m), fu_relay = relay\<rparr> d) (w_follow_ups self) given;
          titles = dmerge [] (map (\<lambda>(node_id, m). (node_id, member_name m)) given) in
      self\<lparr>w_follow_ups := follow_ups,
        w_reviews := (if relay then dset (''mention:'' @ nat_str (im_message_seq message))
            \<lparr>rv_attempt_id = upd (dget (w_member_sessions self) (team_leader team)) [],
             rv_profile = (case leader_expert team of None \<Rightarrow> w_profile self | Some e \<Rightarrow> if e = [] then w_profile self else e),
             rv_round = 0, rv_children = map fst titles, rv_more = 0, rv_titles = titles, rv_results = [],
             rv_relay = Some (take FOLLOW_UP_GOAL_CHARS (im_text message), im_message_seq message)\<rparr> (w_reviews self)
          else w_reviews self)\<rparr>)"

definition mention_accepted :: "env \<Rightarrow> inbox_message \<Rightarrow> team \<Rightarrow> team_member list \<Rightarrow> plan_change_command \<Rightarrow> plan_apply_outcome \<Rightarrow> unit wf" where
  "mention_accepted env message team members command outcome =
     thenW (modW (\<lambda>s. s\<lparr>w_plan := Some (po_plan outcome)\<rparr>))
     (thenW (refresh_readiness env)
     (thenW (modW (committed env command [(''reason'', VStr ''message to a member'')]))
     (bindW (liftE (mapE (\<lambda>(index, m). bindE (lookup (acc_id_map (po_result outcome)) (''tmp:'' @ nat_str index)) (\<lambda>i. Inr (i, m))) (enumerate 1 members))) (\<lambda>given.
      thenW (modW (mention_entries env message team given))
      (whenW (e_patched env TEAM_MESSAGES) (modW (team_message env (case given of [] \<Rightarrow> [] | g # _ \<Rightarrow> fst g) None ''user'' ''user''
        (map tm_role members) (im_text message) 0)))))))"

definition mention_follow_ups :: "env \<Rightarrow> inbox_message \<Rightarrow> bool wf" where
  "mention_follow_ups env message = withW (\<lambda>self.
     case (c_team (w_config self), w_plan self) of
       (Some team, Some plan) \<Rightarrow>
         (let members = mentioned team message in
          if im_mentions message = [] \<or> \<not> e_patched env MENTION_FOLLOW_UPS \<or> members = [] then ret False
          else (let command = system_command self (''mention:'' @ w_task_id self @ '':'' @ nat_str (im_message_seq message)) (pl_version plan)
                      (map (mention_draft env message) (enumerate 1 members)) ''message to a member'' in
                bindW (judge_system env command) (\<lambda>outcome.
                thenW (modW (drop_message (im_message_seq message)))
                (thenW (if is_accepted (po_result outcome) then mention_accepted env message team members command outcome
                  else thenW (modW (emit env ''plan.change_rejected'' (rejected_payload (po_result outcome))))
                    (modW (set_status env TS_PAUSED_NEEDS_REVIEW (''message '' @ nat_str (im_message_seq message) @ '' could not be given to ''
                       @ join '', '' (map tm_role members) @ '': '' @ reject_text (po_result outcome)))))
                (ret True)))))
     | _ \<Rightarrow> ret False)"

end
