(* ===== verification/Completion_Check.thy ===== *)
theory Completion_Check
  imports Workflow_Common
begin

text \<open>
  \<^verbatim>\<open>orbit_orch/completion_check.py\<close>: the proposal an attempt's own report stands for, and the reasons of a check cut down to
  what fits in the state and an event.
\<close>

definition MAX_REASONS :: nat where "MAX_REASONS = 10"
definition MAX_REASON_CHARS :: nat where "MAX_REASON_CHARS = 300"
definition MAX_MESSAGE_CHARS :: nat where "MAX_MESSAGE_CHARS = 2000"

definition finished_proposal :: "attempt_finished_signal \<Rightarrow> completion_proposal option" where
  "finished_proposal signal =
     (case af_result signal of None \<Rightarrow> None
      | Some result \<Rightarrow> Some \<lparr>cp_command_id = command_hash (af_attempt_id signal @ ''|attemptFinished''), cp_node_id = af_node_id signal,
          cp_attempt_id = af_attempt_id signal, cp_output = ar_output result, cp_artifact_manifest_id = ar_manifest_id result,
          cp_checkpoint_ref = ar_checkpoint_ref result\<rparr>)"

definition missing_result :: "failure_reason list" where
  "missing_result = [\<lparr>fr_check = ''completion'', fr_code = ''attempt_result_missing'',
     fr_message = ''the attempt reported completed without a result''\<rparr>]"

definition summarize :: "failure_reason list \<Rightarrow> failure_reason list" where
  "summarize failures = map (\<lambda>item. item\<lparr>fr_message := take MAX_REASON_CHARS (fr_message item)\<rparr>) (take MAX_REASONS failures)"

definition reason_text :: "failure_reason \<Rightarrow> string" where
  "reason_text item = ''['' @ fr_check item @ ''/'' @ fr_code item @ ''] '' @ fr_message item"

definition failure_message :: "failure_reason list \<Rightarrow> string" where
  "failure_message items = take MAX_MESSAGE_CHARS (''completion verification failed: '' @ join ''; '' (map reason_text items))"

section \<open>What the cut keeps\<close>

lemma summarize_Nil [simp]: "summarize failures = [] \<longleftrightarrow> failures = []"
  by (cases failures) (simp_all add: summarize_def MAX_REASONS_def)

lemma summarize_fix:
  assumes "length failures \<le> MAX_REASONS" "\<forall>f\<in>set failures. length (fr_message f) \<le> MAX_REASON_CHARS"
  shows "summarize failures = failures"
proof -
  have "take MAX_REASONS failures = failures" using assms(1) by simp
  then show ?thesis unfolding summarize_def using assms(2) by (auto intro: map_idI)
qed

lemma summarize_bounds: "length (summarize fs) \<le> MAX_REASONS" "\<forall>f\<in>set (summarize fs). length (fr_message f) \<le> MAX_REASON_CHARS"
  by (auto simp: summarize_def)

text \<open>
  The reasons of a refused completion are bounded and nothing is refused without a reason: at most ten, each with at most 300
  characters of message and its check and code as they were, in a text of at most 2000; none are left exactly when there were
  none; and cutting again changes nothing.
\<close>

theorem summarize_bounded:
  "length (summarize fs) \<le> 10 \<and> length (failure_message (summarize fs)) \<le> 2000 \<and> (summarize fs = [] \<longleftrightarrow> fs = [])
   \<and> list_all (\<lambda>f. length (fr_message f) \<le> 300) (summarize fs)
   \<and> map (\<lambda>f. (fr_check f, fr_code f)) (summarize fs) = take 10 (map (\<lambda>f. (fr_check f, fr_code f)) fs)
   \<and> summarize (summarize fs) = summarize fs"
proof (intro conjI)
  show "summarize (summarize fs) = summarize fs" by (rule summarize_fix) (rule summarize_bounds)+
qed (auto simp: summarize_def failure_message_def MAX_REASONS_def MAX_REASON_CHARS_def MAX_MESSAGE_CHARS_def take_map comp_def list_all_iff)

end
