(* ===== verification/Task_Completion.thy ===== *)
theory Task_Completion
  imports Task_Review Completion_Check
begin

text \<open>
  \<^verbatim>\<open>orbit_orch/task_completion.py\<close>: what a proposal or an attempt's own report needs before its node freezes, and the end of an
  attempt. A handler runs without interruption up to an \<^verbatim>\<open>await\<close> that really waits, so it is cut there: a definition per part,
  the later ones taking what was awaited. \<open>mark_attempt_cancelled\<close> (\<^verbatim>\<open>task_attempts.py\<close>) is called from here and stands here.
\<close>

section \<open>proposeCompletion\<close>

definition propose_completion :: "env \<Rightarrow> completion_proposal \<Rightarrow> answer wf" where
  "propose_completion env req = withW (\<lambda>self.
     if closed (w_status self) then raiseW (ApplicationError ''task is closed'' ''TASK_CLOSED'')
     else case dget (w_dedup self) (cp_command_id req) of Some previous \<Rightarrow> ret previous
     | None \<Rightarrow> (case dget (w_attempts self) (cp_node_id req) of
         None \<Rightarrow> raiseW (ApplicationError ''attempt is stale'' ''STALE_ATTEMPT'')
       | Some attempt \<Rightarrow>
           if x_attempt_id attempt \<noteq> cp_attempt_id req \<or> x_verdict attempt \<noteq> None \<and> e_patched env VERIFY_FINISHED_ATTEMPTS
           then raiseW (ApplicationError ''attempt is stale'' ''STALE_ATTEMPT'')
           else thenW (modW (\<lambda>s. (remember env (cp_command_id req) CompletionAccepted s)
               \<lparr>w_commands := w_commands s @ [QCompletion req], w_wake := w_wake s + 1, w_updates := w_updates s + 1\<rparr>))
             (ret CompletionAccepted)))"

section \<open>The checks of a completion\<close>

text \<open>
  \<open>_verify_proposal\<close> on the answers of the activities: \<open>verify_completion\<close>, then \<open>verify_command\<close> for each command of the
  contract, then \<open>verify_sop_step\<close>; an activity that cannot run (\<open>Inl\<close>, its message) refuses the completion.
\<close>

record checks =
  ck_completion :: "string + verification_answer"
  ck_command :: "verification \<Rightarrow> string + verification_answer"
  ck_sop :: "verification \<Rightarrow> string + verification_answer"

definition verify_commands :: "(verification \<Rightarrow> string + verification_answer) \<Rightarrow> completion_contract \<Rightarrow> string + failure_reason list" where
  "verify_commands act contract = verify_each ''verify_command'' act (filter (\<lambda>v. v_kind v = CommandV) (cc_verifications contract))"

definition verify_proposal :: "env \<Rightarrow> checks \<Rightarrow> completion_contract \<Rightarrow> failure_reason list" where
  "verify_proposal env ck contract =
     (case bindE (ck_completion ck) (\<lambda>result.
         let failures = reasons result ''verify_completion'' in
         if failures \<noteq> [] then Inr failures
         else bindE (verify_commands (ck_command ck) contract) (\<lambda>failures1.
           if failures1 \<noteq> [] then Inr failures1 else verify_sop_steps env (ck_sop ck) contract)) of
        Inl exc \<Rightarrow> [\<lparr>fr_check = ''verification'', fr_code = ''verification_unavailable'', fr_message = exc\<rparr>]
      | Inr failures \<Rightarrow> failures)"

definition set_verdict :: "nat \<Rightarrow> failure_reason list \<Rightarrow> task \<Rightarrow> task" where
  "set_verdict obj rejections = mut_attempt obj (\<lambda>a. a\<lparr>x_verdict := Some (if rejections \<noteq> [] then Rejected else Accepted), x_rejections := rejections\<rparr>)"

text \<open>The verdict on a proposal: \<open>obj\<close> is the attempt the main loop took from \<open>_attempts\<close> before it was verified.\<close>

definition settle_proposal :: "env \<Rightarrow> string \<Rightarrow> nat option \<Rightarrow> failure_reason list \<Rightarrow> unit wf" where
  "settle_proposal env node_id obj failures = withW (\<lambda>self.
     case obj of None \<Rightarrow> ret ()
     | Some i \<Rightarrow>
         if \<not> holds_attempt node_id i self then ret ()
         else (let rejections = summarize failures in
           thenW (modW (set_verdict i rejections))
           (if rejections \<noteq> [] then retry_or_block env node_id (Some i) VerificationF True (failure_message rejections)
            else thenW (set_node_status env node_id COMPLETED (Some True) [])
              (modW (\<lambda>s. s\<lparr>w_completed_nodes := w_completed_nodes s + 1\<rparr>)))))"

section \<open>What an attempt leaves behind\<close>

definition merge_inbox :: "inbox_message list \<Rightarrow> inbox_message list \<Rightarrow> inbox_message list" where
  "merge_inbox inbox back = sort_key im_message_seq (inbox @ filter (\<lambda>m. im_message_seq m \<notin> im_message_seq ` set inbox) back)"

definition return_unheard :: "env \<Rightarrow> nat \<Rightarrow> nat list option \<Rightarrow> task \<Rightarrow> task" where
  "return_unheard env obj heard self =
     (case (heard, attempt_at obj self) of
        (Some known, Some attempt) \<Rightarrow>
          if \<not> e_patched env HANDED_MESSAGES \<or> x_handed attempt = [] then self
          else (let lost = filter (\<lambda>m. im_message_seq m \<notin> set known) (x_handed attempt);
                    back = filter (\<lambda>m. im_message_seq m \<notin> im_message_seq ` set (w_inbox self)) lost in
                if back = [] then self
                else self\<lparr>w_inbox := sort_key im_message_seq (w_inbox self @ back), w_unsent := True\<rparr>)
      | _ \<Rightarrow> self)"

definition attempt_ended :: "env \<Rightarrow> nat \<Rightarrow> inbox_message list \<Rightarrow> task \<Rightarrow> task" where
  "attempt_ended env obj unconsumed self =
     (case attempt_at obj self of None \<Rightarrow> self
      | Some attempt \<Rightarrow>
          (let s1 = self\<lparr>w_timers := dpop (''cancel:'' @ x_attempt_id attempt) (w_timers self)\<rparr>;
               s2 = (if unconsumed \<noteq> [] \<and> e_patched env INBOX_CONSUME then s1\<lparr>w_inbox := merge_inbox (w_inbox s1) unconsumed\<rparr> else s1) in
           if e_patched env APPROVALS_CANCELLED
           then cancel_approvals env (\<lambda>a. ap_attempt_id a = Some (x_attempt_id attempt)) ''the attempt ended before the approval was decided'' s2
           else s2))"

text \<open>\<open>_mark_attempt_cancelled\<close>: a child that never reported its end is not waited for any longer.\<close>

definition mark_attempt_cancelled :: "env \<Rightarrow> string \<Rightarrow> unit wf" where
  "mark_attempt_cancelled env node_id = withW (\<lambda>self.
     case dget (w_attempts self) node_id of None \<Rightarrow> ret ()
     | Some attempt \<Rightarrow>
         (let obj = x_object attempt in
          thenW (modW (pop_attempt node_id))
          (if w_plan self = None then ret ()
           else thenW (modW (settle_attempt env obj None))
             (thenW (modW (return_unheard env obj (Some [])))
             (thenW (modW (attempt_ended env obj []))
             (thenW (whenW (e_patched env ''task-event-vocabulary'') (modW (emit env ''attempt.finished''
                ([(''node_id'', VStr node_id), (''attempt_id'', VStr (x_attempt_id attempt)), (''outcome'', VOutcome OCancelled), (''failure'', VFailure None)]
                 @ attempt_facts env (Some attempt)))))
             (bindW (require_node_wf node_id) (\<lambda>state.
                whenW (ns_current_attempt_id state = Some (x_attempt_id attempt))
                  (thenW (attempt_cancelled env node_id (Some obj))
                    (update_node env node_id [] (no_update\<lparr>nu_current_attempt_id := Some None\<rparr>)))))))))))"

section \<open>The end of an attempt\<close>

text \<open>
  What follows the part of \<open>_finish_attempt\<close> that ran: nothing, the settlement with these rejections, or a wait, for the verdict
  on a proposal of the attempt or for the checks of the contract.
\<close>

datatype report_next = RSettle "failure_reason list" | RWaitVerdict | RVerify completion_proposal completion_contract

definition contract_of :: "task \<Rightarrow> string \<Rightarrow> wf_error + completion_contract" where
  "contract_of self node_id = (case w_plan self of None \<Rightarrow> Inl AssertionError
     | Some plan \<Rightarrow> bindE (lookup (pl_nodes plan) node_id) (\<lambda>s. Inr (d_completion_contract (ns_draft s))))"

definition completion_rejections :: "env \<Rightarrow> attempt_finished_signal \<Rightarrow> nat \<Rightarrow> report_next wf" where
  "completion_rejections env signal obj = withW (\<lambda>self.
     case attempt_at obj self of None \<Rightarrow> ret (RSettle [])
     | Some attempt \<Rightarrow> (case x_verdict attempt of
         Some Verifying \<Rightarrow> ret RWaitVerdict
       | Some Accepted \<Rightarrow> ret (RSettle [])
       | Some Rejected \<Rightarrow> ret (RSettle (x_rejections attempt))
       | None \<Rightarrow> bindW (require_node_wf (af_node_id signal)) (\<lambda>state.
           if ns_status state = BLOCKED \<or> exploration_spent_without_plan env self signal then ret (RSettle [])
           else thenW (modW (mut_attempt obj (\<lambda>a. a\<lparr>x_verdict := Some Verifying\<rparr>)))
             (thenW (set_node_status env (af_node_id signal) VERIFYING None [])
             (case finished_proposal signal of
                None \<Rightarrow> (let rejections = summarize missing_result in thenW (modW (set_verdict obj rejections)) (ret (RSettle rejections)))
              | Some proposal \<Rightarrow> bindW (withW (\<lambda>now. liftE (contract_of now (cp_node_id proposal)))) (\<lambda>contract.
                  ret (RVerify proposal contract)))))))"

definition settle_node :: "env \<Rightarrow> attempt_finished_signal \<Rightarrow> attempt_outcome \<Rightarrow> failure_reason list \<Rightarrow> nat \<Rightarrow> failure option \<Rightarrow> unit wf" where
  "settle_node env signal outcome rejections obj failure =
     (let node_id = af_node_id signal in
      if rejections \<noteq> [] then retry_or_block env node_id (Some obj) VerificationF True (failure_message rejections)
      else if outcome = OCancelled then attempt_cancelled env node_id (Some obj)
      else if outcome \<noteq> OCompleted then
        (case failure of
           Some f \<Rightarrow> retry_or_block env node_id (Some obj) (f_class f) (f_retryable f) (f_message f)
         | None \<Rightarrow> retry_or_block env node_id (Some obj) Transient True ''the attempt failed'')
      else withW (\<lambda>self. bindW (optW AssertionError (w_plan self)) (\<lambda>plan. bindW (liftE (lookup (pl_nodes plan) node_id)) (\<lambda>state.
        if ns_status state = BLOCKED then modW (set_status env TS_PAUSED_NEEDS_REVIEW ''the agent declared the task unplannable'')
        else if exploration_spent_without_plan env self signal then
          thenW (modW (emit env ''budget.exhausted'' [(''scope'', VStr ''exploration''), (''node_id'', VStr node_id)]))
          (thenW (set_node_status env node_id BLOCKED None [])
          (modW (set_status env TS_PAUSED_NEEDS_REVIEW ''exploration budget spent without a plan'')))
        else whenW (ns_status state \<noteq> COMPLETED)
          (thenW (set_node_status env node_id COMPLETED (Some True) [])
            (modW (\<lambda>s. s\<lparr>w_completed_nodes := w_completed_nodes s + 1\<rparr>)))))))"

definition reported_usage :: "attempt_finished_signal \<Rightarrow> usage option" where
  "reported_usage signal = (case af_usage signal of Some u \<Rightarrow> Some u | None \<Rightarrow> map_option ar_usage (af_result signal))"

definition said_at_end :: "attempt_finished_signal \<Rightarrow> string" where
  "said_at_end signal = (case af_result signal of Some r \<Rightarrow> ar_handover_summary r
     | None \<Rightarrow> (case af_failure signal of Some f \<Rightarrow> f_message f | None \<Rightarrow> []))"

text \<open>The last part of \<open>_finish_attempt\<close>: the events, the node, the messages, and the attempt leaves the books.\<close>

definition finish_settle :: "env \<Rightarrow> attempt_finished_signal \<Rightarrow> nat \<Rightarrow> failure_reason list \<Rightarrow> unit wf" where
  "finish_settle env signal obj rejections =
     (let node_id = af_node_id signal;
          outcome = (if rejections \<noteq> [] then OFailed else af_outcome signal);
          failure = (if rejections \<noteq> [] then Some \<lparr>f_class = VerificationF, f_retryable = True, f_message = failure_message rejections\<rparr>
            else af_failure signal) in
      thenW (modW (\<lambda>s. emit_attempt_finished env signal outcome failure (reported_usage signal) (attempt_at obj s) s))
      (thenW (whenW (outcome = OCompleted) (modW (\<lambda>s. remember_member_session env node_id (af_attempt_id signal) (emit_team_reply env signal s))))
      (thenW (settle_node env signal outcome rejections obj failure)
      (thenW (whenW (outcome = OCompleted) (withW (\<lambda>s. case attempt_at obj s of None \<Rightarrow> ret () | Some a \<Rightarrow> note_leader_done env node_id a)))
      (bindW (require_node_wf node_id) (\<lambda>state.
       thenW (whenW (ns_current_attempt_id state = Some (af_attempt_id signal))
         (update_node env node_id [] (no_update\<lparr>nu_current_attempt_id := Some None\<rparr>)))
       (thenW (modW (return_unheard env obj (af_heard_message_seqs signal)))
       (modW (\<lambda>s. (pop_attempt node_id s)\<lparr>w_wake := w_wake s + 1\<rparr>)))))))))"

text \<open>The verdict on a completed attempt is in: unless the task was cancelled meanwhile, it is settled with it.\<close>

definition finish_judged :: "env \<Rightarrow> attempt_finished_signal \<Rightarrow> nat \<Rightarrow> failure_reason list \<Rightarrow> unit wf" where
  "finish_judged env signal obj rejections = withW (\<lambda>self.
     let held = holds_attempt (af_node_id signal) obj self in
     if \<not> held \<or> w_status self = TS_CANCELLED
     then whenW (held \<and> e_patched env CANCEL_WAITS_FOR_CHILD) (mark_attempt_cancelled env (af_node_id signal))
     else finish_settle env signal obj rejections)"

text \<open>What a part of the handler of a completed attempt leads to: settled, or waiting.\<close>

definition finish_report :: "env \<Rightarrow> attempt_finished_signal \<Rightarrow> nat \<Rightarrow> report_next option wf" where
  "finish_report env signal obj =
     bindW (completion_rejections env signal obj) (\<lambda>next_part. case next_part of
       RSettle rejections \<Rightarrow> thenW (finish_judged env signal obj rejections) (ret None)
     | _ \<Rightarrow> ret (Some next_part))"

text \<open>\<open>_finish_attempt\<close> up to its first wait: \<open>None\<close> when the report was dropped or settled.\<close>

definition finish_attempt :: "env \<Rightarrow> attempt_finished_signal \<Rightarrow> nat \<Rightarrow> report_next option wf" where
  "finish_attempt env signal obj = withW (\<lambda>self.
     case attempt_at obj self of None \<Rightarrow> ret None
     | Some attempt \<Rightarrow>
         if x_attempt_id attempt \<noteq> af_attempt_id signal \<or> x_finishing attempt then ret None
         else thenW (modW (mut_attempt obj (\<lambda>a. a\<lparr>x_finishing := True, x_status := AEnded (af_outcome signal), x_result := af_result signal\<rparr>)))
           (thenW (modW (settle_attempt env obj (reported_usage signal)))
           (thenW (whenW (e_patched env PROFILE_SWITCH)
              (modW (\<lambda>s. s\<lparr>w_handovers := dset (af_node_id signal) (take HANDOVER_CHARS (said_at_end signal)) (w_handovers s)\<rparr>)))
           (thenW (modW (attempt_ended env obj (af_unconsumed_messages signal)))
           (if af_outcome signal = OCompleted
            then thenW (modW (\<lambda>s. emit_manifest_created env signal (record_review_output signal (record_step_output signal s))))
              (finish_report env signal obj)
            else thenW (finish_settle env signal obj []) (ret None))))))"

text \<open>The checks of a reported completion answered.\<close>

definition finish_verified :: "env \<Rightarrow> attempt_finished_signal \<Rightarrow> nat \<Rightarrow> failure_reason list \<Rightarrow> unit wf" where
  "finish_verified env signal obj failures =
     (let rejections = summarize failures in
      thenW (modW (set_verdict obj rejections)) (finish_judged env signal obj rejections))"

end
