(* ===== verification/Task_Attempts.thy ===== *)
theory Task_Attempts
  imports Task_Completion
begin

text \<open>
  \<^verbatim>\<open>orbit_orch/task_attempts.py\<close>: scheduling ready nodes, starting and cancelling attempts, and what an attempt tells its parent.
  A method that waits (for the child workflow to start, for an activity, for the answer to a cancel request) is cut at the wait.
\<close>

section \<open>Starting an attempt\<close>

definition profile_for_attempt :: "env \<Rightarrow> task \<Rightarrow> string \<Rightarrow> string option \<Rightarrow> wf_error + string" where
  "profile_for_attempt env self node_id owner_profile =
     (case dget (w_node_profile self) node_id of
        Some switched \<Rightarrow> if e_patched env PROFILE_SWITCH then Inr (sw_to switched) else attempt_profile self owner_profile
      | None \<Rightarrow> attempt_profile self owner_profile)"

text \<open>What \<open>_start_attempt\<close> has made when it waits for the child: the child's input and what the books will say.\<close>

record child_start =
  cs_input :: attempt_workflow_input
  cs_workflow_id :: string
  cs_reserved :: "budget option"
  cs_switched_from :: string

definition first_nonempty :: "string list \<Rightarrow> string" where
  "first_nonempty xs = (case filter (\<lambda>s. s \<noteq> []) xs of [] \<Rightarrow> [] | x # _ \<Rightarrow> x)"

definition goal_of :: "task_node_draft \<Rightarrow> string" where
  "goal_of draft = first_nonempty [case d_spec draft of AgentTurnSpec g i \<Rightarrow> g | TeamStageSpec t \<Rightarrow> ts_goal t | _ \<Rightarrow> [],
     case d_spec draft of SopStageSpec r i \<Rightarrow> r | _ \<Rightarrow> [], d_title draft]"

definition take_messages :: "env \<Rightarrow> string \<Rightarrow> inbox_message list wf" where
  "take_messages env node_id = withW (\<lambda>self.
     if e_patched env INBOX_CONSUME then thenW (modW (\<lambda>s. s\<lparr>w_inbox := []\<rparr>)) (ret (w_inbox self))
     else ret (case dget (w_follow_ups self) node_id of None \<Rightarrow> w_inbox self
       | Some f \<Rightarrow> filter (\<lambda>m. fu_seq f < im_message_seq m) (w_inbox self)))"

definition continue_from_of :: "task \<Rightarrow> string \<Rightarrow> string \<Rightarrow> string" where
  "continue_from_of self node_id retry_from = first_nonempty [retry_from,
     case dget (w_follow_ups self) node_id of None \<Rightarrow> [] | Some f \<Rightarrow> fu_from f,
     case dget (w_review_nodes self) node_id of None \<Rightarrow> [] | Some r \<Rightarrow> rn_from r]"

definition stage_of :: "env \<Rightarrow> task_node_draft \<Rightarrow> team_stage_spec option" where
  "stage_of env draft = (case d_spec draft of TeamStageSpec t \<Rightarrow> if e_patched env TEAM_STAGE then Some t else None | _ \<Rightarrow> None)"

definition start_profile :: "env \<Rightarrow> task \<Rightarrow> string \<Rightarrow> task_node_draft \<Rightarrow> wf_error + string" where
  "start_profile env self node_id draft =
     (case stage_of env draft of
        Some t \<Rightarrow> (case find (\<lambda>m. m_role m = ts_leader t) (ts_members t) of None \<Rightarrow> Inl StopIter | Some m \<Rightarrow> Inr (m_executor m))
      | None \<Rightarrow> profile_for_attempt env self node_id (d_owner_profile draft))"

text \<open>The pending switch of a node: what its first attempt is told, and the switch is not pending any more.\<close>

definition take_switch :: "env \<Rightarrow> string \<Rightarrow> (string \<times> string) option wf" where
  "take_switch env node_id = withW (\<lambda>self.
     case dget (w_node_profile self) node_id of
       Some switch \<Rightarrow>
         if sw_pending switch \<and> e_patched env PROFILE_SWITCH
         then thenW (modW (\<lambda>s. s\<lparr>w_node_profile := dset node_id (switch\<lparr>sw_pending := False\<rparr>) (w_node_profile s)\<rparr>))
           (ret (Some (sw_from switch, upd (dget (w_handovers self) node_id) [])))
         else ret None
     | None \<Rightarrow> ret None)"

definition opt_str :: "string \<Rightarrow> string option" where
  "opt_str s = (if s = [] then None else Some s)"

definition prepare_child :: "env \<Rightarrow> string \<Rightarrow> plan_node_state \<Rightarrow> budget option \<Rightarrow> child_start wf" where
  "prepare_child env node_id state reserved = withW (\<lambda>self.
     let draft = ns_draft state; attempt_no = ns_attempt_count state + 1;
         attempt_id = attempt_id_of self node_id attempt_no; goal = goal_of draft @ handover_to self node_id in
     bindW (take_messages env node_id) (\<lambda>messages.
     bindW (if e_patched env RETRY_POLICY then take_retry_input node_id else ret ([], [])) (\<lambda>(retry_from, retry_reason).
     bindW (withW (\<lambda>now. liftE (start_profile env now node_id draft))) (\<lambda>profile.
     bindW (take_switch env node_id) (\<lambda>switch.
     withW (\<lambda>now.
       let continue_from = (if switch = None then opt_str (continue_from_of now node_id retry_from) else None);
           switched_from = (case switch of None \<Rightarrow> [] | Some (f, h) \<Rightarrow> f) in
       thenW (modW (\<lambda>s. s\<lparr>w_last_attempt_id := attempt_id\<rparr>))
       (ret \<lparr>cs_input = \<lparr>ai_node_id = node_id, ai_attempt_id = attempt_id, ai_attempt_no = attempt_no, ai_node_type = d_type draft,
            ai_profile = profile, ai_goal = goal, ai_policy = w_policy now,
            ai_workspace_access = upd (d_workspace_access draft) NoAccess, ai_messages = messages, ai_config = w_config now,
            ai_allow_rules = w_allow_rules now, ai_continue_from = continue_from, ai_retry_reason = retry_reason, ai_budget = reserved,
            ai_switched_from = opt_str switched_from, ai_handover = (case switch of None \<Rightarrow> [] | Some (f, h) \<Rightarrow> h),
            ai_output_schema_ref = cc_output_schema_ref (d_completion_contract draft), ai_team = stage_of env draft\<rparr>,
          cs_workflow_id = attempt_workflow_id (w_task_id now) node_id attempt_no, cs_reserved = reserved,
          cs_switched_from = switched_from\<rparr>)))))))"

text \<open>\<open>_start_attempt\<close> up to the start of the child: \<open>None\<close> when the task cannot pay for the attempt.\<close>

definition start_attempt :: "env \<Rightarrow> string \<Rightarrow> nat \<Rightarrow> (budget_field \<Rightarrow> nat option) option \<Rightarrow> child_start option wf" where
  "start_attempt env node_id share pool =
     bindW (require_node_wf node_id) (\<lambda>state.
     if \<not> e_patched env BUDGET_ENFORCEMENT then bindW (prepare_child env node_id state None) (\<lambda>c. ret (Some c))
     else bindW (reserve_for node_id share pool) (\<lambda>answer. case answer of
         Inl why \<Rightarrow> thenW (modW (hold_for_budget env node_id why)) (ret None)
       | Inr reserved \<Rightarrow> bindW (prepare_child env node_id state (if reserved = no_budget then None else Some reserved)) (\<lambda>c. ret (Some c))))"

definition new_attempt :: "task \<Rightarrow> child_start \<Rightarrow> attempt" where
  "new_attempt self c = (let inp = cs_input c in
     \<lparr>x_object = w_objects self, x_attempt_id = ai_attempt_id inp, x_attempt_no = ai_attempt_no inp, x_workflow_id = cs_workflow_id c,
      x_workspace_access = ai_workspace_access inp, x_status = ARunning, x_profile = ai_profile inp,
      x_config_version = c_config_version (w_config self), x_reserved = cs_reserved c, x_cancelling = False, x_closed = False,
      x_counted = False, x_finishing = False, x_verdict = None, x_rejections = [], x_handed = [], x_result = None\<rparr>)"

text \<open>The child has started: it is in the books, its node runs, and the event says so.\<close>

definition attempt_started :: "env \<Rightarrow> child_start \<Rightarrow> unit wf" where
  "attempt_started env c =
     (let inp = cs_input c; node_id = ai_node_id inp in
      thenW (modW (\<lambda>s. s\<lparr>w_attempts := dset node_id (new_attempt s c) (w_attempts s), w_objects := w_objects s + 1\<rparr>))
      (thenW (update_node env node_id [] \<lparr>nu_status = Some RUNNING, nu_frozen = None,
         nu_current_attempt_id = Some (Some (ai_attempt_id inp)), nu_attempt_count = Some (ai_attempt_no inp)\<rparr>)
      (modW (\<lambda>s. emit env ''attempt.started''
         ([(''node_id'', VStr node_id), (''attempt_id'', VStr (ai_attempt_id inp)), (''attempt_no'', VInt (int (ai_attempt_no inp))),
           (''profile'', VStr (ai_profile inp)), (''config_version'', VInt (int (c_config_version (w_config s))))]
          @ (if cs_switched_from c = [] then [] else [(''switched_from'', VStr (cs_switched_from c))])
          @ (case cs_reserved c of None \<Rightarrow> [] | Some b \<Rightarrow> [(''budget_reserved'', VBudget b)])) s))))"

section \<open>Nodes no agent runs\<close>

definition arm_wait_timer :: "env \<Rightarrow> string \<Rightarrow> unit wf" where
  "arm_wait_timer env node_id = withW (\<lambda>self.
     bindW (optW KeyErr (dget (w_wait_deadlines self) node_id)) (\<lambda>due.
       modW (\<lambda>s. s\<lparr>w_timers := dset (''wait:'' @ node_id) (WaitTimer node_id (due - e_now env)) (w_timers s)\<rparr>)))"

definition complete_wait :: "env \<Rightarrow> string \<Rightarrow> unit wf" where
  "complete_wait env node_id =
     thenW (modW (\<lambda>s. s\<lparr>w_wait_deadlines := dpop node_id (w_wait_deadlines s), w_timers := dpop (''wait:'' @ node_id) (w_timers s)\<rparr>))
     (withW (\<lambda>self. case (case w_plan self of None \<Rightarrow> None | Some plan \<Rightarrow> dget (pl_nodes plan) node_id) of None \<Rightarrow> ret ()
       | Some state \<Rightarrow> if ns_status state \<noteq> AWAITING_INPUT then ret ()
           else thenW (set_node_status env node_id COMPLETED (Some True) [])
             (modW (\<lambda>s. s\<lparr>w_completed_nodes := w_completed_nodes s + 1, w_wake := w_wake s + 1\<rparr>))))"

text \<open>A wait node's timer ran out (\<open>_wait_timer\<close> after its sleep), and the timer of an old history (\<open>_complete_after\<close>).\<close>

definition wait_timer_fired :: "env \<Rightarrow> string \<Rightarrow> unit wf" where
  "wait_timer_fired env node_id = withW (\<lambda>self. whenW (has_key (w_wait_deadlines self) node_id) (complete_wait env node_id))"

definition complete_after :: "env \<Rightarrow> string \<Rightarrow> unit wf" where
  "complete_after env node_id = withW (\<lambda>self.
     case (case w_plan self of None \<Rightarrow> None | Some plan \<Rightarrow> dget (pl_nodes plan) node_id) of None \<Rightarrow> ret ()
     | Some state \<Rightarrow> whenW (ns_status state = AWAITING_INPUT)
         (thenW (set_node_status env node_id COMPLETED None []) (modW (\<lambda>s. s\<lparr>w_completed_nodes := w_completed_nodes s + 1\<rparr>))))"

definition start_wait :: "env \<Rightarrow> string \<Rightarrow> string option \<Rightarrow> nat option \<Rightarrow> unit wf" where
  "start_wait env node_id wait_key timer_s =
     thenW (set_node_status env node_id AWAITING_INPUT None [])
     (withW (\<lambda>self.
       if timer_s \<notin> {None, Some 0} then
         whenW (e_patched env WAIT_TIMER_CARRY)
           (thenW (modW (\<lambda>s. s\<lparr>w_wait_deadlines := dset node_id (e_now env + int (the timer_s) * SECOND) (w_wait_deadlines s)\<rparr>))
             (arm_wait_timer env node_id))
       else case wait_key of None \<Rightarrow> ret ()
         | Some key \<Rightarrow> if key = [] \<or> \<not> has_key (w_wait_events self) key then ret ()
             else if e_patched env WAIT_TIMER_CARRY then complete_wait env node_id
             else set_node_status env node_id COMPLETED None []))"

text \<open>
  What the schedule waits for: the definition of an SOP, a child workflow, the commit of a checkpoint. \<open>start_waiting_node\<close> is
  the whole of \<open>_start_waiting_node\<close> but for a checkpoint, which completes when the activity has answered.
\<close>

datatype awaited = AwaitSop string string | AwaitChild child_start | AwaitCheckpoint string payload

definition start_waiting_node :: "env \<Rightarrow> string \<Rightarrow> awaited option wf" where
  "start_waiting_node env node_id =
     bindW (require_node_wf node_id) (\<lambda>state. case d_spec (ns_draft state) of
       ApprovalSpec summary r \<Rightarrow> thenW (set_node_status env node_id AWAITING_APPROVAL None []) (thenW (ask_node_approval env node_id) (ret None))
     | WaitSpec wait_key timer_s \<Rightarrow> thenW (start_wait env node_id wait_key timer_s) (ret None)
     | CheckpointSpec label \<Rightarrow> thenW (set_node_status env node_id VERIFYING None [])
         (getW (\<lambda>self. Some (AwaitCheckpoint node_id (checkpoint_payload env self node_id))))
     | _ \<Rightarrow> ret None)"

definition checkpoint_committed :: "env \<Rightarrow> string \<Rightarrow> unit wf" where
  "checkpoint_committed env node_id =
     thenW (set_node_status env node_id COMPLETED None []) (modW (\<lambda>s. s\<lparr>w_completed_nodes := w_completed_nodes s + 1\<rparr>))"

section \<open>The schedule\<close>

record batch =
  bt_share :: nat
  bt_pool :: "(budget_field \<Rightarrow> nat option) option"

datatype schedule_step = Go | Break | Wait_for awaited

definition holds_schedule :: "task \<Rightarrow> bool" where
  "holds_schedule self \<longleftrightarrow> w_status self \<in> {TS_PAUSED, TS_PAUSED_NEEDS_REVIEW, TS_TAKEN_OVER, TS_CANCELLED}"

text \<open>One node of the loop of \<open>_schedule_ready\<close>.\<close>

definition schedule_node :: "env \<Rightarrow> batch \<Rightarrow> string \<Rightarrow> schedule_step wf" where
  "schedule_node env batch node_id = withW (\<lambda>self.
     if holds_schedule self then ret Break
     else case (case w_plan self of None \<Rightarrow> None | Some plan \<Rightarrow> dget (pl_nodes plan) node_id) of None \<Rightarrow> ret Go
     | Some state \<Rightarrow>
         if ns_status state \<notin> {READY, RETRY_PENDING} \<or> has_key (w_attempts self) node_id then ret Go
         else if d_type (ns_draft state) = SopStage \<and> e_patched env SOP_EXPANSION
         then bindW (liftE (sop_ref_of self node_id)) (\<lambda>ref. ret (Wait_for (AwaitSop node_id ref)))
         else if d_type (ns_draft state) \<in> set agent_types then
           (if max_concurrency self \<le> running_count self \<or> d_workspace_access (ns_draft state) = Some WriteAccess \<and> write_busy self then ret Go
            else bindW (start_attempt env node_id (bt_share batch) (bt_pool batch)) (\<lambda>c. case c of None \<Rightarrow> ret Break
              | Some child \<Rightarrow> ret (Wait_for (AwaitChild child))))
         else bindW (start_waiting_node env node_id) (\<lambda>w. ret (case w of None \<Rightarrow> Go | Some a \<Rightarrow> Wait_for a)))"

text \<open>The loop up to a wait: what it waits for and the nodes still to be looked at, or \<open>None\<close> at its end.\<close>

primrec schedule_nodes :: "env \<Rightarrow> batch \<Rightarrow> string list \<Rightarrow> (awaited \<times> string list) option wf" where
  "schedule_nodes env batch [] = ret None"
| "schedule_nodes env batch (node_id # rest) = bindW (schedule_node env batch node_id) (\<lambda>next_step. case next_step of
     Go \<Rightarrow> schedule_nodes env batch rest
   | Break \<Rightarrow> ret None
   | Wait_for a \<Rightarrow> ret (Some (a, rest)))"

definition batch_of :: "env \<Rightarrow> task \<Rightarrow> string list \<Rightarrow> batch" where
  "batch_of env self order = \<lparr>
     bt_share = length (filter (\<lambda>node_id. case (case w_plan self of None \<Rightarrow> None | Some plan \<Rightarrow> dget (pl_nodes plan) node_id) of None \<Rightarrow> False
       | Some state \<Rightarrow> d_type (ns_draft state) \<in> set agent_types \<and> \<not> (e_patched env SOP_EXPANSION \<and> d_type (ns_draft state) = SopStage)) order),
     bt_pool = Some (remaining_wf self)\<rparr>"

definition schedule_ready :: "env \<Rightarrow> (batch \<times> string list) option wf" where
  "schedule_ready env = withW (\<lambda>self.
     if holds_schedule self \<or> w_plan self = None then ret None
     else bindW (liftE (ready_order env self)) (\<lambda>order. ret (Some (batch_of env self order, order))))"

text \<open>The loop of old histories (\<open>_schedule_ready_by_id\<close>): by node id, with no limit; one node of it.\<close>

definition schedule_by_id_node :: "env \<Rightarrow> string \<times> plan_node_state \<Rightarrow> schedule_step wf" where
  "schedule_by_id_node env = (\<lambda>(node_id, state). withW (\<lambda>self.
     if ns_status state \<notin> {READY, RETRY_PENDING} \<or> has_key (w_attempts self) node_id \<or> 0 < backoff_remaining env self node_id then ret Go
     else bindW (liftE (dependencies_done self node_id)) (\<lambda>ok.
       if \<not> ok then ret Go
       else if d_type (ns_draft state) \<in> {AgentTurn, SopStage} then
         (if d_workspace_access (ns_draft state) = Some WriteAccess \<and> write_busy self then ret Go
          else bindW (start_attempt env node_id 1 None) (\<lambda>c. ret (case c of None \<Rightarrow> Go | Some child \<Rightarrow> Wait_for (AwaitChild child))))
       else bindW (start_waiting_node env node_id) (\<lambda>w. ret (case w of None \<Rightarrow> Go | Some a \<Rightarrow> Wait_for a)))))"

definition schedule_ready_by_id :: "task \<Rightarrow> (string \<times> plan_node_state) list" where
  "schedule_ready_by_id self = (case w_plan self of None \<Rightarrow> [] | Some plan \<Rightarrow> sort_key fst (pl_nodes plan))"

end
