(* ===== verification/Task_Signals.thy ===== *)
theory Task_Signals
  imports Task_Attempts
begin

text \<open>
  \<^verbatim>\<open>orbit_orch/task_attempts.py\<close>, continued: the signals of an attempt, its cancellation and the timers, and signalling an attempt.
\<close>

section \<open>What an attempt tells its parent\<close>

text \<open>The report of an attempt before \<open>task-attempt-completion-verification\<close>: taken at its word.\<close>

definition legacy_finished :: "env \<Rightarrow> attempt_finished_signal \<Rightarrow> nat \<Rightarrow> unit wf" where
  "legacy_finished env signal obj =
     (let node_id = af_node_id signal in
      thenW (modW (mut_attempt obj (\<lambda>a. a\<lparr>x_status := AEnded (af_outcome signal), x_result := af_result signal\<rparr>)))
      (bindW (require_node_wf node_id) (\<lambda>node.
       thenW (whenW (e_patched env ''task-event-vocabulary'')
         (modW (emit_attempt_finished env signal (af_outcome signal) (af_failure signal) None None)))
       (thenW (if af_outcome signal = OCompleted then
           thenW (modW (emit_manifest_created env signal))
           (withW (\<lambda>self. bindW (optW AssertionError (w_plan self)) (\<lambda>plan. bindW (liftE (lookup (pl_nodes plan) node_id)) (\<lambda>state.
             if ns_status state = BLOCKED then modW (set_status env TS_PAUSED_NEEDS_REVIEW ''the agent declared the task unplannable'')
             else if exploration_spent_without_plan env self signal then
               thenW (modW (emit env ''budget.exhausted'' [(''scope'', VStr ''exploration''), (''node_id'', VStr node_id)]))
               (thenW (set_node_status env node_id BLOCKED None [])
               (modW (set_status env TS_PAUSED_NEEDS_REVIEW ''exploration budget spent without a plan'')))
             else thenW (set_node_status env node_id COMPLETED None [])
               (modW (\<lambda>s. s\<lparr>w_completed_nodes := w_completed_nodes s + 1\<rparr>))))))
         else set_node_status env node_id RETRY_PENDING None [])
       (whenW (ns_current_attempt_id node \<notin> {None, Some []})
         (thenW (update_node env node_id [] (no_update\<lparr>nu_current_attempt_id := Some None\<rparr>)) (modW (pop_attempt node_id))))))))"

text \<open>The signal \<open>attemptFinished\<close> up to its first wait.\<close>

definition attempt_finished :: "env \<Rightarrow> attempt_finished_signal \<Rightarrow> (nat \<times> report_next) option wf" where
  "attempt_finished env signal =
     thenW (modW (\<lambda>s. s\<lparr>w_wake := w_wake s + 1\<rparr>))
     (withW (\<lambda>self. case dget (w_attempts self) (af_node_id signal) of None \<Rightarrow> ret None
       | Some attempt \<Rightarrow>
           if x_attempt_no attempt \<noteq> af_attempt_no signal then ret None
           else if e_patched env VERIFY_FINISHED_ATTEMPTS
           then bindW (finish_attempt env signal (x_object attempt)) (\<lambda>r. ret (map_option (Pair (x_object attempt)) r))
           else thenW (legacy_finished env signal (x_object attempt)) (ret None)))"

primrec park_str :: "park_reason \<Rightarrow> string" where
  "park_str ParkApproval = ''approval''"
| "park_str ParkInput = ''input''"

definition park_approval :: "env \<Rightarrow> attempt_parked_signal \<Rightarrow> parked_tool_call \<Rightarrow> task \<Rightarrow> task" where
  "park_approval env signal parked self =
     (let approval_id = deterministic_id (pa_attempt_id signal @ '':'' @ pk_tool_call_id parked) ''apr'' in
      emit env ''approval.requested'' [(''approval_id'', VStr approval_id), (''attempt_id'', VStr (pa_attempt_id signal)),
          (''node_id'', VStr (pa_node_id signal)), (''tool_call_id'', VStr (pk_tool_call_id parked)), (''subject'', VSubject (pk_subject parked))]
        (self\<lparr>w_approvals := dset approval_id \<lparr>ap_approval_id = approval_id, ap_status = AP_PENDING, ap_kind = KToolCall,
           ap_attempt_id = Some (pa_attempt_id signal), ap_tool_call_id = Some (pk_tool_call_id parked), ap_node_id = [], ap_to_profile = [],
           ap_reason = [], ap_subject = pk_subject parked, ap_comment = []\<rparr> (w_approvals self)\<rparr>))"

definition attempt_parked :: "env \<Rightarrow> attempt_parked_signal \<Rightarrow> unit wf" where
  "attempt_parked env signal =
     thenW (modW (\<lambda>s. s\<lparr>w_wake := w_wake s + 1\<rparr>))
     (withW (\<lambda>self. case dget (w_attempts self) (pa_node_id signal) of None \<Rightarrow> ret ()
       | Some attempt \<Rightarrow>
           if x_attempt_no attempt \<noteq> pa_attempt_no signal then ret ()
           else thenW (modW (mut_attempt (x_object attempt) (\<lambda>a. a\<lparr>x_status := AParked (pa_reason signal)\<rparr>)))
             (thenW (set_node_status env (pa_node_id signal) (if pa_reason signal = ParkApproval then AWAITING_APPROVAL else AWAITING_INPUT) None [])
             (thenW (modW (\<lambda>s. foldl (\<lambda>t parked. park_approval env signal parked t) s (pa_approvals signal)))
             (whenW (e_patched env ''task-event-vocabulary'') (modW (emit env ''attempt.parked''
               ([(''node_id'', VStr (pa_node_id signal)), (''attempt_id'', VStr (pa_attempt_id signal)), (''reason'', VStr (park_str (pa_reason signal))),
                 (''question'', case pa_question signal of None \<Rightarrow> VNone | Some q \<Rightarrow> VStr q)]
                @ (case pa_questions signal of None \<Rightarrow> [] | Some qs \<Rightarrow> if qs = [] then [] else [(''questions'', VQuestions qs)])))))))))"

definition approval_decided :: "approval_decided_signal \<Rightarrow> task \<Rightarrow> task" where
  "approval_decided signal self = self\<lparr>w_approvals := dmap (\<lambda>_ a.
     if ap_approval_id a = ad_approval_id signal then a\<lparr>ap_status := (if ad_decision signal = Approve then AP_APPROVED else AP_REJECTED)\<rparr> else a)
     (w_approvals self)\<rparr>"

definition deliver_messages :: "inbox_message list \<Rightarrow> task \<Rightarrow> task" where
  "deliver_messages messages self = self\<lparr>w_wake := w_wake self + 1, w_inbox := foldl (\<lambda>inbox m. remove1 m inbox) (w_inbox self) messages\<rparr>"

text \<open>The loop of \<open>externalEvent\<close> goes over the nodes as they were when the event came.\<close>

definition event_reaches :: "env \<Rightarrow> external_event_signal \<Rightarrow> string \<times> plan_node_state \<Rightarrow> unit wf" where
  "event_reaches env signal = (\<lambda>(node_id, state).
     case d_spec (ns_draft state) of
       WaitSpec wait_key timer_s \<Rightarrow>
         whenW (ns_status state = AWAITING_INPUT \<and> wait_key = Some (ee_wait_key signal))
           (thenW (modW (\<lambda>s. s\<lparr>w_wait_deadlines := dpop node_id (w_wait_deadlines s)\<rparr>))
           (thenW (set_node_status env node_id COMPLETED (Some True) [])
           (modW (\<lambda>s. s\<lparr>w_completed_nodes := w_completed_nodes s + 1\<rparr>))))
     | _ \<Rightarrow> ret ())"

definition external_event :: "env \<Rightarrow> external_event_signal \<Rightarrow> unit wf" where
  "external_event env signal =
     thenW (modW (\<lambda>s. s\<lparr>w_wait_events := dset (ee_wait_key signal) (ee_payload signal) (w_wait_events s)\<rparr>))
     (thenW (withW (\<lambda>self. case w_plan self of None \<Rightarrow> ret () | Some plan \<Rightarrow> forW (pl_nodes plan) (event_reaches env signal)))
     (modW (\<lambda>s. s\<lparr>w_wake := w_wake s + 1\<rparr>)))"

definition is_parked :: "attempt \<Rightarrow> bool" where
  "is_parked a = (case x_status a of AParked r \<Rightarrow> True | _ \<Rightarrow> False)"

definition resume_parked :: "env \<Rightarrow> string \<Rightarrow> unit wf" where
  "resume_parked env attempt_id = withW (\<lambda>self.
     case find (\<lambda>(k, a). x_attempt_id a = attempt_id \<and> is_parked a) (w_attempts self) of None \<Rightarrow> ret ()
     | Some (node_id, a) \<Rightarrow> thenW (modW (mut_attempt (x_object a) (\<lambda>b. b\<lparr>x_status := ARunning\<rparr>)))
         (thenW (set_node_status env node_id RUNNING None []) (modW (\<lambda>s. s\<lparr>w_wake := w_wake s + 1\<rparr>))))"

section \<open>Cancelling attempts\<close>

definition is_live :: "attempt \<Rightarrow> bool" where
  "is_live a \<longleftrightarrow> x_status a = ARunning \<or> is_parked a"

definition arm_cancel_fallback :: "string \<Rightarrow> nat \<Rightarrow> task \<Rightarrow> task" where
  "arm_cancel_fallback node_id obj self =
     (case attempt_at obj self of None \<Rightarrow> self
      | Some a \<Rightarrow> if x_cancelling a
          then self\<lparr>w_timers := dset (''cancel:'' @ x_attempt_id a) (CancelTimer node_id (x_attempt_id a) (CANCEL_FALLBACK_S * SECOND)) (w_timers self)\<rparr>
          else self)"

text \<open>\<open>_cancel_attempt\<close> up to the answer of the child: the request is out.\<close>

definition cancel_attempt :: "env \<Rightarrow> nat \<Rightarrow> task \<Rightarrow> task" where
  "cancel_attempt env obj self =
     (if e_patched env CANCEL_WAITS_FOR_CHILD then mut_attempt obj (\<lambda>a. a\<lparr>x_cancelling := True\<rparr>) self else self)"

text \<open>
  The loops of \<open>_interrupt_active_attempt\<close> (the live attempts) and \<open>_cancel_active_attempts\<close> (all), over the items of
  \<open>_attempts\<close> when they start: the next item that is cancelled and those after it. The request is answered, or its time is up,
  before the loop goes on (\<open>arm_cancel_fallback\<close>).
\<close>

type_synonym cancel_queue = "(string \<times> nat) list"

definition cancel_items :: "task \<Rightarrow> cancel_queue" where
  "cancel_items self = map (\<lambda>(k, a). (k, x_object a)) (w_attempts self)"

fun cancel_next :: "env \<Rightarrow> bool \<Rightarrow> cancel_queue \<Rightarrow> ((string \<times> nat) \<times> cancel_queue) option wf" where
  "cancel_next env only_live [] = ret None"
| "cancel_next env only_live ((node_id, obj) # rest) = withW (\<lambda>self.
     if only_live \<and> \<not> (case attempt_at obj self of None \<Rightarrow> False | Some a \<Rightarrow> is_live a) then cancel_next env only_live rest
     else thenW (modW (cancel_attempt env obj)) (ret (Some ((node_id, obj), rest))))"

text \<open>The fallback's time is up (\<open>_await_cancelled\<close> after its sleep; \<open>None\<close> in old histories).\<close>

definition await_cancelled :: "env \<Rightarrow> string \<Rightarrow> string option \<Rightarrow> unit wf" where
  "await_cancelled env node_id attempt_id = withW (\<lambda>self.
     case dget (w_attempts self) node_id of None \<Rightarrow> ret ()
     | Some current \<Rightarrow> whenW (attempt_id = None \<or> attempt_id = Some (x_attempt_id current)) (mark_attempt_cancelled env node_id))"

definition rearm_deadline :: "env \<Rightarrow> string \<Rightarrow> unit wf" where
  "rearm_deadline env node_id = withW (\<lambda>self.
     case (case w_plan self of None \<Rightarrow> None | Some plan \<Rightarrow> dget (pl_nodes plan) node_id) of
       Some state \<Rightarrow> if ns_status state = AWAITING_INPUT then whenW (e_patched env WAIT_TIMER_CARRY) (arm_wait_timer env node_id)
         else modW (\<lambda>s. s\<lparr>w_wait_deadlines := dpop node_id (w_wait_deadlines s)\<rparr>)
     | None \<Rightarrow> modW (\<lambda>s. s\<lparr>w_wait_deadlines := dpop node_id (w_wait_deadlines s)\<rparr>))"

definition rearm_after_load :: "env \<Rightarrow> unit wf" where
  "rearm_after_load env = withW (\<lambda>self.
     if w_plan self = None then ret ()
     else thenW (forW (dkeys (w_wait_deadlines self)) (rearm_deadline env))
       (forW (w_attempts self) (\<lambda>(node_id, a). whenW (x_cancelling a \<and> e_patched env CANCEL_WAITS_FOR_CHILD)
          (modW (arm_cancel_fallback node_id (x_object a))))))"

section \<open>Signalling an attempt\<close>

text \<open>The attempt a signal is sent to; \<open>None\<close> when there is none or it is known to have closed.\<close>

definition signal_target :: "env \<Rightarrow> string \<Rightarrow> task \<Rightarrow> nat option" where
  "signal_target env attempt_id self =
     (case find (\<lambda>a. x_attempt_id a = attempt_id) (dvals (w_attempts self)) of None \<Rightarrow> None
      | Some a \<Rightarrow> if x_closed a \<and> e_patched env SIGNAL_CLOSED_CHILD then None else Some (x_object a))"

text \<open>The server's answer. Before \<open>task-signal-closed-child-tolerated\<close> a refused signal raises.\<close>

definition signal_answered :: "env \<Rightarrow> nat \<Rightarrow> bool \<Rightarrow> bool wf" where
  "signal_answered env obj ok =
     (if ok then ret True
      else if \<not> e_patched env SIGNAL_CLOSED_CHILD then raiseW (ApplicationError ''the signal was refused'' [])
      else thenW (modW (mut_attempt obj (\<lambda>a. a\<lparr>x_closed := True\<rparr>))) (ret False))"

end
