(* ===== verification/Task_Commands.thy ===== *)
theory Task_Commands
  imports Task_Signals
begin

text \<open>
  \<^verbatim>\<open>orbit_orch/task_commands.py\<close>: the updates a person or the API sends, their validators, and the queue the main loop drains.
\<close>

definition answered :: "env \<Rightarrow> string \<Rightarrow> answer \<Rightarrow> answer wf" where
  "answered env command_id result =
     thenW (modW (\<lambda>s. (remember env command_id result s)\<lparr>w_updates := w_updates s + 1\<rparr>)) (ret result)"

text \<open>An update whose command id is known is answered again and does nothing.\<close>

definition deduped :: "string \<Rightarrow> 'a wf \<Rightarrow> (answer \<Rightarrow> 'a) \<Rightarrow> 'a wf" where
  "deduped command_id body again = withW (\<lambda>self. case dget (w_dedup self) command_id of Some previous \<Rightarrow> ret (again previous) | None \<Rightarrow> body)"

section \<open>sendMessage\<close>

definition validate_send_message :: "send_message_input \<Rightarrow> task \<Rightarrow> wf_error + unit" where
  "validate_send_message req self =
     (if closed (w_status self) then Inl (ApplicationError ''task is closed'' ''TASK_CLOSED'')
      else (let roles = (case c_team (w_config self) of None \<Rightarrow> [] | Some team \<Rightarrow> map tm_role (team_members team));
                unknown = filter (\<lambda>r. r \<notin> set roles) (sm_mentions req) in
            if unknown = [] then Inr () else Inl (ApplicationError (''unknown mention: '' @ join '', '' unknown) ''UNKNOWN_MENTION'')))"

definition message_of :: "send_message_input \<Rightarrow> nat \<Rightarrow> inbox_message" where
  "message_of req seq = \<lparr>im_message_seq = seq, im_client_message_id = sm_client_message_id req, im_text = sm_text req,
     im_attachments = sm_attachments req, im_delivery = sm_delivery req, im_mentions = rev (remdups (rev (sm_mentions req)))\<rparr>"

text \<open>The answer, and the attempts that are interrupted before it is given.\<close>

definition send_message :: "env \<Rightarrow> send_message_input \<Rightarrow> (answer \<times> cancel_queue) wf" where
  "send_message env req = withW (\<lambda>self.
     if closed (w_status self) then raiseW (ApplicationError ''task is closed'' ''TASK_CLOSED'')
     else deduped (sm_command_id req)
       (let message = message_of req (w_next_message_seq self); result = SendMessageResult (im_message_seq message) in
        thenW (modW (\<lambda>s. s\<lparr>w_next_message_seq := w_next_message_seq s + 1, w_inbox := w_inbox s @ [message], w_wake := w_wake s + 1\<rparr>))
        (bindW (answered env (sm_command_id req) result) (\<lambda>_.
         thenW (modW (\<lambda>s. s\<lparr>w_commands := w_commands s @ [QMessage message]\<rparr>))
         (thenW (modW (emit env ''message.user'' (message_payload message)))
         (getW (\<lambda>s. (result, if sm_delivery req = Interrupt then cancel_items s else [])))))))
       (\<lambda>previous. (previous, [])))"

definition mention_goes_to_members :: "task \<Rightarrow> bool" where
  "mention_goes_to_members self =
     (case w_plan self of None \<Rightarrow> False
      | Some plan \<Rightarrow> w_status self \<in> {TS_RUNNING, TS_WAITING, TS_COMPLETED, TS_PLANNING}
          \<and> \<not> list_ex (\<lambda>(node_id, a). (case dget (pl_nodes plan) node_id of None \<Rightarrow> False | Some s \<Rightarrow> d_type (ns_draft s) = TeamStage) \<and> is_live a)
              (w_attempts self))"

section \<open>decideApproval\<close>

definition decided :: "decision \<Rightarrow> approval_status" where
  "decided d = (if d = Approve then AP_APPROVED else AP_REJECTED)"

definition rule_to_allow :: "approval \<Rightarrow> decide_approval_input \<Rightarrow> permission_rule option" where
  "rule_to_allow approval req =
     (if \<not> da_always req \<or> da_decision req \<noteq> Approve then None else sb_allow_rule (ap_subject approval))"

definition allow_rule :: "permission_rule option \<Rightarrow> task \<Rightarrow> task" where
  "allow_rule rule self = (case rule of None \<Rightarrow> self
     | Some r \<Rightarrow> if r \<in> set (w_allow_rules self) then self else self\<lparr>w_allow_rules := w_allow_rules self @ [r]\<rparr>)"

definition apply_profile_switch :: "env \<Rightarrow> string \<Rightarrow> string \<Rightarrow> string \<Rightarrow> string \<Rightarrow> unit wf" where
  "apply_profile_switch env node_id to_profile reason approval_id = withW (\<lambda>self.
     case (case w_plan self of None \<Rightarrow> None | Some plan \<Rightarrow> dget (pl_nodes plan) node_id) of None \<Rightarrow> ret ()
     | Some state \<Rightarrow>
         if ns_frozen state then ret ()
         else bindW (liftE (profile_for_attempt env self node_id (d_owner_profile (ns_draft state)))) (\<lambda>current.
           if to_profile = current then ret ()
           else (let origin = (case dget (w_node_profile self) node_id of None \<Rightarrow> current | Some p \<Rightarrow> if sw_pending p then sw_from p else current) in
             thenW (modW (\<lambda>s. s\<lparr>w_node_profile := (if to_profile = origin then dpop node_id (w_node_profile s)
                else dset node_id \<lparr>sw_to = to_profile, sw_from = origin, sw_pending = True\<rparr> (w_node_profile s))\<rparr>))
             (modW (emit env ''profile.switched''
               ([(''node_id'', VStr node_id), (''from_profile'', VStr current), (''to_profile'', VStr to_profile), (''reason'', VStr reason)]
                @ (if approval_id = [] then [] else [(''approval_id'', VStr approval_id)])))))))"

text \<open>The attempt's approvals are all decided: it runs again.\<close>

definition resume_if_decided :: "env \<Rightarrow> string \<Rightarrow> unit wf" where
  "resume_if_decided env attempt_id = withW (\<lambda>self.
     whenW (\<not> list_ex (\<lambda>a. ap_status a = AP_PENDING \<and> ap_attempt_id a = Some attempt_id) (dvals (w_approvals self))) (resume_parked env attempt_id))"

text \<open>
  The update up to the signal to the attempt: its answer, and the attempt that is signalled, if one is. An attempt that cannot
  be reached is passed over (\<open>resume_if_decided\<close> at once); a reached one goes on with \<open>decision_signalled\<close>.
\<close>

definition decide_approval :: "env \<Rightarrow> decide_approval_input \<Rightarrow> (answer \<times> (string \<times> nat) option) wf" where
  "decide_approval env req = deduped (da_command_id req)
     (withW (\<lambda>self. case dget (w_approvals self) (da_approval_id req) of
        None \<Rightarrow> raiseW (ApplicationError ''approval is not pending'' ''UNKNOWN_APPROVAL'')
      | Some pending \<Rightarrow>
          if ap_status pending \<noteq> AP_PENDING then raiseW (ApplicationError ''approval is not pending'' ''UNKNOWN_APPROVAL'')
          else (let approval = pending\<lparr>ap_status := decided (da_decision req), ap_comment := da_comment req\<rparr>;
                    rule = rule_to_allow approval req in
            thenW (modW (\<lambda>s. allow_rule rule (s\<lparr>w_approvals := dset (da_approval_id req) approval (w_approvals s)\<rparr>)))
            (bindW (answered env (da_command_id req) (DecideApprovalResult (da_approval_id req) (da_decision req = Approve))) (\<lambda>result.
            thenW (whenW (e_patched env ''task-event-vocabulary'') (modW (emit env ''approval.decided''
              [(''approval_id'', VStr (da_approval_id req)), (''status'', VApproval (ap_status approval)), (''comment'', VStr (da_comment req)),
               (''always'', VBool (rule \<noteq> None))])))
            (thenW (whenW (ap_kind approval = KProfileSwitch \<and> da_decision req = Approve \<and> e_patched env PROFILE_SWITCH)
              (apply_profile_switch env (ap_node_id approval) (ap_to_profile approval) (ap_reason approval) (da_approval_id req)))
            (thenW (whenW (ap_kind approval = KNodeApproval) (settle_node_approval env approval (da_decision req)))
            (case ap_attempt_id approval of
               None \<Rightarrow> ret (result, None)
             | Some attempt_id \<Rightarrow> if attempt_id = [] then ret (result, None)
                 else withW (\<lambda>now. case signal_target env attempt_id now of
                   Some obj \<Rightarrow> ret (result, Some (attempt_id, obj))
                 | None \<Rightarrow> thenW (resume_if_decided env attempt_id) (ret (result, None)))))))))))
     (\<lambda>previous. (previous, None))"

definition decision_signalled :: "env \<Rightarrow> string \<Rightarrow> nat \<Rightarrow> bool \<Rightarrow> unit wf" where
  "decision_signalled env attempt_id obj ok = bindW (signal_answered env obj ok) (\<lambda>_. resume_if_decided env attempt_id)"

section \<open>control\<close>

primrec control_target :: "control_action \<Rightarrow> task_status" where
  "control_target Pause = TS_PAUSED"
| "control_target Stop = TS_PAUSED"
| "control_target Resume = TS_RUNNING"
| "control_target Cancel = TS_CANCELLED"
| "control_target Takeover = TS_TAKEN_OVER"
| "control_target Handback = TS_RUNNING"

primrec action_str :: "control_action \<Rightarrow> string" where
  "action_str Pause = ''pause''"
| "action_str Stop = ''stop''"
| "action_str Resume = ''resume''"
| "action_str Cancel = ''cancel''"
| "action_str Takeover = ''takeover''"
| "action_str Handback = ''handback''"

text \<open>What the update refuses.\<close>

definition control_refused :: "env \<Rightarrow> control_action \<Rightarrow> task_status \<Rightarrow> wf_error option" where
  "control_refused env action status =
     (if action = Resume \<and> status \<notin> {TS_PAUSED, TS_PAUSED_NEEDS_REVIEW} then Some (ApplicationError ''task cannot be resumed'' ''INVALID_TRANSITION'')
      else if action = Handback \<and> e_patched env TAKEOVER_INTERRUPTS \<and> status \<noteq> TS_TAKEN_OVER
      then Some (ApplicationError ''task is not taken over'' ''INVALID_TRANSITION'')
      else if action = Takeover \<and> e_patched env TAKEOVER_INTERRUPTS \<and> closed status then Some (ApplicationError ''task is closed'' ''TASK_CLOSED'')
      else if action = Stop \<and> (status \<in> set OPERATOR_HELD \<or> closed status) then Some (ApplicationError ''task is not running'' ''INVALID_TRANSITION'')
      else None)"

definition blocked_nodes :: "task \<Rightarrow> string list" where
  "blocked_nodes self = map fst (filter (\<lambda>(k, e). re_blocked e) (w_node_retry self))"

text \<open>The update after the attempts were cancelled, or at once when none are.\<close>

definition control_apply :: "env \<Rightarrow> task_control_input \<Rightarrow> answer wf" where
  "control_apply env req =
     (let action = tc_action req; target = control_target action in
      thenW (whenW (action = Cancel) (modW (\<lambda>s. s\<lparr>w_stop := True\<rparr>)))
      (thenW (modW (set_status env target (if tc_reason req = [] then action_str action else tc_reason req)))
      (thenW (whenW (action = Resume \<and> e_patched env RETRY_POLICY) (withW (\<lambda>s. unblock_nodes env (blocked_nodes s) ''resumed by a person'')))
      (thenW (modW (\<lambda>s. s\<lparr>w_wake := w_wake s + 1\<rparr>))
      (thenW (whenW (action = Cancel \<and> e_patched env ''task-event-vocabulary'')
        (modW (emit env ''task.cancelled'' [(''reason'', VStr (if tc_reason req = [] then ''cancelled'' else tc_reason req))])))
      (answered env (tc_command_id req) (TaskControlResult target)))))))"

text \<open>The answer, or the request that is out and the items after it.\<close>

type_synonym control_next = "answer + (string \<times> nat) \<times> cancel_queue"

definition only_live :: "control_action \<Rightarrow> bool" where
  "only_live action \<longleftrightarrow> action \<noteq> Cancel"

definition control_cancelling :: "env \<Rightarrow> task_control_input \<Rightarrow> cancel_queue \<Rightarrow> control_next wf" where
  "control_cancelling env req queue = bindW (cancel_next env (only_live (tc_action req)) queue) (\<lambda>r. case r of
     None \<Rightarrow> bindW (control_apply env req) (\<lambda>a. ret (Inl a))
   | Some w \<Rightarrow> ret (Inr w))"

definition control_cancels :: "env \<Rightarrow> control_action \<Rightarrow> bool" where
  "control_cancels env action \<longleftrightarrow> action = Stop \<or> action = Cancel \<or> action = Takeover \<and> e_patched env TAKEOVER_INTERRUPTS"

definition control :: "env \<Rightarrow> task_control_input \<Rightarrow> control_next wf" where
  "control env req = deduped (tc_command_id req)
     (withW (\<lambda>self. case control_refused env (tc_action req) (w_status self) of
        Some e \<Rightarrow> raiseW e
      | None \<Rightarrow> control_cancelling env req (if control_cancels env (tc_action req) then cancel_items self else [])))
     Inl"

section \<open>grantBudget\<close>

definition blocked_for_budget :: "task \<Rightarrow> string list" where
  "blocked_for_budget self = map fst (filter (\<lambda>(k, e). re_blocked_for e = ''budget'') (w_node_retry self))"

definition grant_budget :: "env \<Rightarrow> grant_budget_input \<Rightarrow> answer wf" where
  "grant_budget env req = deduped (gb_command_id req)
     (thenW (modW (\<lambda>s. s\<lparr>w_budgets := budget_add (w_budgets s) (gb_delta req)\<rparr>))
      (withW (\<lambda>self. bindW (answered env (gb_command_id req) (GrantBudgetResult (w_budgets self))) (\<lambda>result.
        if \<not> e_patched env BUDGET_ENFORCEMENT then thenW (modW (set_status env TS_RUNNING ''budget_granted'')) (ret result)
        else thenW (modW (emit env ''budget.granted'' [(''command_id'', VStr (gb_command_id req)), (''delta'', VBudget (gb_delta req))]))
          (thenW (withW (\<lambda>s. whenW (w_status s = TS_PAUSED_NEEDS_REVIEW \<and> w_budget_hold s) (modW (set_status env TS_RUNNING ''budget_granted''))))
          (thenW (withW (\<lambda>s. unblock_nodes env (blocked_for_budget s) ''budget granted''))
          (thenW (modW (\<lambda>s. s\<lparr>w_wake := w_wake s + 1\<rparr>)) (ret result))))))))
     id"

section \<open>requestProfileSwitch\<close>

definition switch_allowed :: "task \<Rightarrow> task_node_draft \<Rightarrow> string \<Rightarrow> bool" where
  "switch_allowed self draft to_profile \<longleftrightarrow>
     to_profile = w_profile self \<or> (c_expert (w_config self) \<notin> {None, Some []} \<and> c_expert (w_config self) = Some to_profile)
     \<or> (case c_team (w_config self) of None \<Rightarrow> False | Some team \<Rightarrow> to_profile \<in> tm_expert ` set (team_members team))
     \<or> (case d_retry draft of None \<Rightarrow> False | Some r \<Rightarrow> r_repair_profile r \<notin> {None, Some []} \<and> r_repair_profile r = Some to_profile)
     \<or> (d_owner_profile draft \<notin> {None, Some []} \<and> d_owner_profile draft = Some to_profile)"

definition ask_switch :: "env \<Rightarrow> request_profile_switch_input \<Rightarrow> string \<Rightarrow> task \<Rightarrow> task" where
  "ask_switch env req approval_id self =
     (let subject = \<lparr>sb_kind = SubjProfileSwitch, sb_digest = sha (rp_node_id req @ '':'' @ rp_to_profile req),
        sb_summary = take 500 (''Switch node '' @ rp_node_id req @ '' to '' @ rp_to_profile req @ '': '' @ rp_reason req), sb_risk = Medium,
        sb_detail = rp_to_profile req, sb_allow_rule = None, sb_role = None, sb_role_label = None\<rparr> in
      emit env ''approval.requested'' [(''approval_id'', VStr approval_id), (''node_id'', VStr (rp_node_id req)), (''subject'', VSubject subject)]
        (self\<lparr>w_approvals := dset approval_id \<lparr>ap_approval_id = approval_id, ap_status = AP_PENDING, ap_kind = KProfileSwitch, ap_attempt_id = None,
           ap_tool_call_id = None, ap_node_id = rp_node_id req, ap_to_profile = rp_to_profile req, ap_reason = rp_reason req,
           ap_subject = subject, ap_comment = []\<rparr> (w_approvals self)\<rparr>))"

definition request_profile_switch :: "env \<Rightarrow> request_profile_switch_input \<Rightarrow> answer wf" where
  "request_profile_switch env req = deduped (rp_command_id req)
     (bindW (require_node_wf (rp_node_id req)) (\<lambda>node.
      if ns_frozen node then raiseW (ApplicationError ''node is frozen'' ''FROZEN_NODE'')
      else if \<not> e_patched env PROFILE_SWITCH
      then answered env (rp_command_id req) (RequestProfileSwitchResult (ns_attempt_count node + 1) True None)
      else withW (\<lambda>self.
        if closed (w_status self) then raiseW (ApplicationError ''task is closed'' ''TASK_CLOSED'')
        else if d_type (ns_draft node) \<notin> {AgentTurn, SopStage} then raiseW (ApplicationError ''only a node an agent runs has a profile'' ''NOT_ALLOWED'')
        else if switch_allowed self (ns_draft node) (rp_to_profile req)
        then thenW (apply_profile_switch env (rp_node_id req) (rp_to_profile req) (rp_reason req) [])
          (answered env (rp_command_id req) (RequestProfileSwitchResult (ns_attempt_count node + 1) False None))
        else (let approval_id = deterministic_id (w_task_id self @ '':profile_switch:'' @ rp_command_id req) ''apr'' in
          thenW (modW (ask_switch env req approval_id))
          (answered env (rp_command_id req) (RequestProfileSwitchResult (ns_attempt_count node + 1) True (Some approval_id)))))))
     id"

section \<open>completeNode\<close>

definition validate_complete_node :: "complete_node_input \<Rightarrow> unit wf" where
  "validate_complete_node req = withW (\<lambda>self.
     if has_key (w_dedup self) (cn_command_id req) then ret ()
     else if w_status self \<notin> {TS_TAKEN_OVER, TS_PAUSED, TS_PAUSED_NEEDS_REVIEW}
     then raiseW (ApplicationError ''pause or take over the task first'' ''INVALID_TRANSITION'')
     else bindW (require_node_wf (cn_node_id req)) (\<lambda>node.
       if ns_frozen node \<or> ns_status node \<in> {COMPLETED, SKIPPED} then raiseW (ApplicationError ''node is already complete'' ''FROZEN_NODE'')
       else if has_key (w_attempts self) (cn_node_id req) \<or> ns_status node \<in> {RUNNING, VERIFYING}
       then raiseW (ApplicationError ''node is running'' ''INVALID_TRANSITION'') else ret ()))"

definition complete_node :: "env \<Rightarrow> complete_node_input \<Rightarrow> answer wf" where
  "complete_node env req = deduped (cn_command_id req)
     (let node_id = cn_node_id req in
      thenW (set_node_status env node_id COMPLETED (Some True) (if cn_reason req = [] then ''completed by a person'' else cn_reason req))
      (thenW (modW (\<lambda>s. s\<lparr>w_completed_nodes := w_completed_nodes s + 1, w_node_retry := dpop node_id (w_node_retry s)\<rparr>))
      (thenW (modW (cancel_node_approvals env node_id))
      (thenW (modW (\<lambda>s. s\<lparr>w_wait_deadlines := dpop node_id (w_wait_deadlines s), w_timers := dpop (''wait:'' @ node_id) (w_timers s)\<rparr>))
      (bindW (answered env (cn_command_id req) (CompleteNodeResult node_id)) (\<lambda>result.
       thenW (modW (\<lambda>s. s\<lparr>w_wake := w_wake s + 1\<rparr>)) (ret result)))))))
     id"

section \<open>updateTaskConfig\<close>

definition validate_update_task_config :: "update_task_config_input \<Rightarrow> task \<Rightarrow> wf_error + unit" where
  "validate_update_task_config req self =
     (if has_key (w_dedup self) (uc_command_id req) then Inr ()
      else if closed (w_status self) then Inl (ApplicationError ''task is closed'' ''TASK_CLOSED'')
      else if uc_base_config_version req \<noteq> c_config_version (w_config self)
      then Inl (ApplicationError ''the task's configuration changed since it was read'' ''CONFIG_VERSION_CONFLICT'')
      else Inr ())"

definition opt_val :: "('a \<Rightarrow> pval) \<Rightarrow> 'a option \<Rightarrow> pval" where
  "opt_val f x = (case x of None \<Rightarrow> VNone | Some v \<Rightarrow> f v)"

definition update_task_config :: "env \<Rightarrow> update_task_config_input \<Rightarrow> answer wf" where
  "update_task_config env req = deduped (uc_command_id req)
     (withW (\<lambda>self.
        let config = \<lparr>c_config_version = c_config_version (w_config self) + 1, c_expert = uc_expert req, c_skills = uc_skills req,
              c_connectors = uc_connectors req, c_mode = uc_mode req, c_model = uc_model req, c_team = uc_team req, c_permissions = uc_permissions req\<rparr> in
        thenW (modW (\<lambda>s. s\<lparr>w_config := config\<rparr>))
        (bindW (answered env (uc_command_id req) (UpdateTaskConfigResult (c_config_version config))) (\<lambda>result.
         thenW (modW (emit env ''task.config_changed''
           [(''config_version'', VInt (int (c_config_version config))), (''expert'', opt_val VStr (c_expert config)),
            (''skills'', opt_val VStrs (c_skills config)), (''connector_ids'', opt_val (\<lambda>cs. VStrs (map cs_id cs)) (uc_connectors req)),
            (''mode'', VMode (c_mode config)), (''model'', opt_val VStr (c_model config)), (''permissions'', VPermissions (c_permissions config))]))
         (ret result)))))
     id"

section \<open>The queue of the main loop\<close>

text \<open>
  What a command taken from the queue leads to: done with it, a signal to an attempt, or the checks of a proposal (with the
  attempt it is for and the contract of its node).
\<close>

datatype drain_next = DrainDone | DrainSignal inbox_message nat | DrainVerify completion_proposal "nat option" completion_contract

definition takes_message :: "env \<Rightarrow> attempt \<Rightarrow> bool" where
  "takes_message env a \<longleftrightarrow> is_live a \<and> \<not> (e_patched env INBOX_CONSUME \<and> x_cancelling a)"

definition drain_message_rest :: "env \<Rightarrow> inbox_message \<Rightarrow> drain_next wf" where
  "drain_message_rest env message = withW (\<lambda>self.
     case find (takes_message env) (dvals (w_attempts self)) of
       Some attempt \<Rightarrow> (case signal_target env (x_attempt_id attempt) self of
           None \<Rightarrow> thenW (modW (\<lambda>s. s\<lparr>w_unsent := True\<rparr>)) (ret DrainDone)
         | Some obj \<Rightarrow> ret (DrainSignal message obj))
     | None \<Rightarrow> thenW (whenW (w_status self = TS_COMPLETED \<and> all_nodes_completed self \<and> e_patched env SESSION_STAYS_OPEN) (start_follow_up env message))
         (ret DrainDone))"

definition drain_message :: "env \<Rightarrow> inbox_message \<Rightarrow> drain_next wf" where
  "drain_message env message = withW (\<lambda>self.
     if e_patched env INBOX_CONSUME \<and> im_message_seq message \<notin> im_message_seq ` set (w_inbox self) then ret DrainDone
     else if im_mentions message \<noteq> [] \<and> mention_goes_to_members self
     then bindW (mention_follow_ups env message) (\<lambda>taken. if taken then ret DrainDone else drain_message_rest env message)
     else drain_message_rest env message)"

text \<open>The attempt's answer to a message that was signalled to it.\<close>

definition message_signalled :: "env \<Rightarrow> inbox_message \<Rightarrow> nat \<Rightarrow> bool \<Rightarrow> unit wf" where
  "message_signalled env message obj ok = bindW (signal_answered env obj ok) (\<lambda>delivered.
     if \<not> delivered then modW (\<lambda>s. s\<lparr>w_unsent := True\<rparr>)
     else thenW (whenW (e_patched env INBOX_CONSUME) (modW (drop_message (im_message_seq message))))
       (thenW (whenW (e_patched env HANDED_MESSAGES) (modW (mut_attempt obj (\<lambda>a. a\<lparr>x_handed := last_n MAX_HANDED (x_handed a @ [message])\<rparr>))))
       (withW (\<lambda>self. case attempt_at obj self of None \<Rightarrow> ret ()
          | Some a \<Rightarrow> whenW (x_status a = AParked ParkInput) (resume_parked env (x_attempt_id a))))))"

definition drain_completion :: "env \<Rightarrow> completion_proposal \<Rightarrow> drain_next wf" where
  "drain_completion env proposal = withW (\<lambda>self.
     let node_id = cp_node_id proposal; attempt = dget (w_attempts self) node_id; strict = e_patched env VERIFY_FINISHED_ATTEMPTS in
     if \<not> (case w_plan self of None \<Rightarrow> False | Some plan \<Rightarrow> has_key (pl_nodes plan) node_id) then ret DrainDone
     else if strict \<and> (case attempt of None \<Rightarrow> True | Some a \<Rightarrow> x_attempt_id a \<noteq> cp_attempt_id proposal \<or> x_verdict a \<noteq> None) then ret DrainDone
     else thenW (whenW strict (modW (\<lambda>s. case attempt of None \<Rightarrow> s | Some a \<Rightarrow> mut_attempt (x_object a) (\<lambda>b. b\<lparr>x_verdict := Some Verifying\<rparr>) s)))
       (thenW (set_node_status env node_id VERIFYING None [])
       (bindW (withW (\<lambda>now. liftE (contract_of now node_id))) (\<lambda>contract.
         ret (DrainVerify proposal (map_option x_object attempt) contract)))))"

text \<open>The checks of a proposal answered: \<open>verify_proposal\<close> of the contract, or in old histories \<open>ok\<close> of one activity.\<close>

definition proposal_verified :: "env \<Rightarrow> completion_proposal \<Rightarrow> nat option \<Rightarrow> failure_reason list \<Rightarrow> bool \<Rightarrow> unit wf" where
  "proposal_verified env proposal obj failures accepted =
     (if e_patched env VERIFY_FINISHED_ATTEMPTS then settle_proposal env (cp_node_id proposal) obj failures
      else if accepted then thenW (set_node_status env (cp_node_id proposal) COMPLETED (Some True) [])
        (modW (\<lambda>s. s\<lparr>w_completed_nodes := w_completed_nodes s + 1\<rparr>))
      else set_node_status env (cp_node_id proposal) RETRY_PENDING None [])"

text \<open>The next command of the queue; \<open>None\<close> when it is empty.\<close>

definition drain_next_command :: "env \<Rightarrow> drain_next option wf" where
  "drain_next_command env = withW (\<lambda>self. case w_commands self of [] \<Rightarrow> ret None
     | c # rest \<Rightarrow> thenW (modW (\<lambda>s. s\<lparr>w_commands := rest\<rparr>))
         (bindW (case c of QMessage m \<Rightarrow> drain_message env m | QCompletion p \<Rightarrow> drain_completion env p) (\<lambda>d. ret (Some d))))"

end
