(* ===== verification/Task_Workflow.thy ===== *)
theory Task_Workflow
  imports Task_Commands
begin

text \<open>
  \<^verbatim>\<open>orbit_orch/task_workflow.py\<close>: the run of a task. The main loop is a machine over the places where it waits; the updates, signals
  and timers run beside it, one part at a time. \<open>sys_step\<close> is one such part: it may take any input and any answer of an activity
  or a child, and a part may be cut more finely than Python's scheduler would. Temporal delivers updates and signals that came with
  the start before it calls \<open>run\<close>: \<open>early\<close> are the states those handlers leave, and a run starts from any of them.
\<close>

section \<open>The start of a run\<close>

definition make_plan :: "env \<Rightarrow> task_input \<Rightarrow> task \<Rightarrow> task" where
  "make_plan env inp self =
     (if w_plan self = None
      then emit env ''task.created'' [(''title'', VStr (ti_title inp)), (''goal'', VStr (ti_goal inp))]
        (self\<lparr>w_plan := Some (initial_plan (e_px env) (ti_task_id inp) (ti_goal inp) (ti_profile inp))\<rparr>)
      else self)"

definition run_start :: "env \<Rightarrow> task_input \<Rightarrow> unit wf" where
  "run_start env inp =
     thenW (load env inp)
     (thenW (whenW (ti_carry inp \<noteq> None) (rearm_after_load env))
     (thenW (whenW (ti_carry inp = None) (modW (\<lambda>s. s\<lparr>w_status := TS_PLANNING\<rparr>)))
     (thenW (modW (make_plan env inp))
     (withW (\<lambda>self. whenW (ti_carry inp = None \<or> w_status self \<in> {TS_CREATED, TS_PLANNING, TS_RUNNING})
       (modW (set_status env TS_RUNNING ''started'')))))))"

section \<open>The main loop\<close>

text \<open>The status the loop sets after it has scheduled.\<close>

definition loop_status :: "env \<Rightarrow> task \<Rightarrow> task" where
  "loop_status env self =
     (if w_status self \<in> set OPERATOR_HELD then self
      else if list_ex (\<lambda>a. x_status a = ARunning) (dvals (w_attempts self)) then set_status env TS_RUNNING ''attempt_running'' self
      else if (case w_plan self of None \<Rightarrow> False
         | Some plan \<Rightarrow> list_ex (\<lambda>s. ns_status s \<in> {AWAITING_APPROVAL, AWAITING_INPUT}) (dvals (pl_nodes plan)))
      then set_status env TS_WAITING ''awaiting_user'' self
      else self)"

definition is_held :: "env \<Rightarrow> task \<Rightarrow> bool" where
  "is_held env self \<longleftrightarrow> e_patched env HELD_STAYS_HELD \<and> (w_status self \<in> set OPERATOR_HELD \<or> w_status self = TS_CANCELLED)"

definition round_done :: "env \<Rightarrow> task \<Rightarrow> bool" where
  "round_done env self \<longleftrightarrow> all_nodes_completed self \<and> \<not> is_held env self"

definition declare_done :: "env \<Rightarrow> task \<Rightarrow> task" where
  "declare_done env self = emit env ''task.completed'' [] (self\<lparr>w_status := TS_COMPLETED\<rparr>)"

text \<open>After the events of the completion are out: a message that reached no attempt is answered as a follow-up.\<close>

definition requeue_unsent :: "env \<Rightarrow> task \<Rightarrow> task" where
  "requeue_unsent env self =
     (case w_inbox self of
        m # ms \<Rightarrow> if w_unsent self \<and> e_patched env SIGNAL_CLOSED_CHILD
          then self\<lparr>w_commands := w_commands self @ [QMessage m], w_unsent := False\<rparr> else self\<lparr>w_unsent := False\<rparr>
      | [] \<Rightarrow> self\<lparr>w_unsent := False\<rparr>)"

definition wakes :: "env \<Rightarrow> nat \<Rightarrow> task \<Rightarrow> wf_error + bool" where
  "wakes env observed self =
     (if w_commands self \<noteq> [] then Inr True
      else bindE (has_ready_node env self) (\<lambda>ready.
        Inr (ready \<or> w_wake self \<noteq> observed \<or> w_stop self \<or> e_patched env VERIFY_FINISHED_ATTEMPTS \<and> w_events self \<noteq> [])))"

text \<open>
  Where the loop is: not called yet, at one of its waits, over. \<open>last\<close> tells a queue that is drained before a Continue-As-New from the one of an ordinary round.
\<close>

datatype place =
    LBefore
  | LHead
  | LDrain bool | LSignal bool inbox_message nat | LVerify bool completion_proposal "nat option" completion_contract
  | LOpen | LSched batch "string list" | LAwait awaited batch "string list"
  | LSchedById "(string \<times> plan_node_state) list" | LAwaitById awaited "(string \<times> plan_node_state) list"
  | LStatus | LFlushed | LCompleted | LTail bool | LSleep nat
  | LHandlers | LLast | LContinued task_input
  | LEnd | LDone task_view | LFailed wf_error

text \<open>A handler that waits: for a verdict, for checks, for the answer to a cancel request, for a signal, for the plan.\<close>

datatype pending =
    PVerdict attempt_finished_signal nat
  | PChecks attempt_finished_signal nat completion_contract
  | PInterrupt cancel_queue | PInterruptWait "string \<times> nat" cancel_queue
  | PControl task_control_input cancel_queue | PControlWait task_control_input "string \<times> nat" cancel_queue
  | PDecision string nat
  | PSubmit plan_change_command

record sys =
  s_place :: place
  s_task :: task
  s_pending :: "pending list"
  s_published :: "event list"  \<comment> \<open>what \<open>publish_events\<close> was given, in order\<close>

definition pended :: "attempt_finished_signal \<Rightarrow> (nat \<times> report_next) option \<Rightarrow> pending list" where
  "pended signal r = (case r of
     Some (obj, RWaitVerdict) \<Rightarrow> [PVerdict signal obj]
   | Some (obj, RVerify proposal contract) \<Rightarrow> [PChecks signal obj contract]
   | _ \<Rightarrow> [])"

definition answer_of :: "wf_error + 'a \<Rightarrow> 'a option" where
  "answer_of r = (case r of Inl e \<Rightarrow> None | Inr x \<Rightarrow> Some x)"

definition next_place :: "wf_error + 'a \<Rightarrow> ('a \<Rightarrow> place) \<Rightarrow> place" where
  "next_place r f = (case r of Inl e \<Rightarrow> LFailed e | Inr x \<Rightarrow> f x)"

definition drained :: "bool \<Rightarrow> drain_next option \<Rightarrow> place" where
  "drained last_round d = (case d of
     None \<Rightarrow> if last_round then LLast else LOpen
   | Some DrainDone \<Rightarrow> LDrain last_round
   | Some (DrainSignal m obj) \<Rightarrow> LSignal last_round m obj
   | Some (DrainVerify p obj c) \<Rightarrow> LVerify last_round p obj c)"

definition scheduled :: "batch \<Rightarrow> (awaited \<times> string list) option \<Rightarrow> place" where
  "scheduled batch r = (case r of None \<Rightarrow> LStatus | Some (a, rest) \<Rightarrow> LAwait a batch rest)"

text \<open>What was awaited is there: the definition of an SOP, the child, the checkpoint.\<close>

definition awaited_done :: "env \<Rightarrow> awaited \<Rightarrow> string + loaded_sop \<Rightarrow> unit wf" where
  "awaited_done env a loaded = (case a of
     AwaitSop node_id ref \<Rightarrow> expand_sop_loaded env node_id ref loaded
   | AwaitChild c \<Rightarrow> attempt_started env c
   | AwaitCheckpoint node_id payload \<Rightarrow> checkpoint_committed env node_id)"

definition begin_schedule :: "env \<Rightarrow> place wf" where
  "begin_schedule env = withW (\<lambda>self.
     if holds_schedule self \<or> w_plan self = None then ret LStatus
     else if e_patched env SCHEDULE_CONCURRENCY
     then bindW (schedule_ready env) (\<lambda>r. ret (case r of None \<Rightarrow> LStatus | Some (b, order) \<Rightarrow> LSched b order))
     else ret (LSchedById (schedule_ready_by_id self)))"

text \<open>The end of the round before it sleeps, or ends, or continues as new.\<close>

definition tail_place :: "env \<Rightarrow> bool \<Rightarrow> task \<Rightarrow> wf_error + place" where
  "tail_place env done_now self =
     (if done_now \<and> \<not> e_patched env SESSION_STAYS_OPEN then Inr LEnd
      else if should_continue_as_new env self then Inr LHandlers
      else if w_commands self \<noteq> [] then Inr LHead
      else bindE (has_ready_node env self) (\<lambda>ready. Inr (if ready then LHead else LSleep (w_wake self))))"

section \<open>Steps\<close>

text \<open>One part of the main loop: the place it starts from, the place it ends in, and the task.\<close>

inductive loop_step :: "env \<Rightarrow> place \<Rightarrow> task \<Rightarrow> place \<Rightarrow> task \<Rightarrow> bool" for env where
  head: "loop_step env LHead s (if w_stop s then LEnd else LDrain False) s"
| drain: "drain_next_command env s = (r, t) \<Longrightarrow> loop_step env (LDrain b) s (next_place r (drained b)) t"
| signalled: "message_signalled env m obj ok s = (r, t) \<Longrightarrow> loop_step env (LSignal b m obj) s (next_place r (\<lambda>_. LDrain b)) t"
| verified: "proposal_verified env p obj (verify_proposal env ck c) accepted s = (r, t)
    \<Longrightarrow> loop_step env (LVerify b p obj c) s (next_place r (\<lambda>_. LDrain b)) t"
| opened: "thenW (open_reviews env) (begin_schedule env) s = (r, t) \<Longrightarrow> loop_step env LOpen s (next_place r id) t"
| sched: "schedule_nodes env b ns s = (r, t) \<Longrightarrow> loop_step env (LSched b ns) s (next_place r (scheduled b)) t"
| awaited: "awaited_done env a loaded s = (r, t) \<Longrightarrow> loop_step env (LAwait a b ns) s (next_place r (\<lambda>_. LSched b ns)) t"
| by_id_end: "loop_step env (LSchedById []) s LStatus s"
| by_id: "schedule_by_id_node env n s = (r, t)
    \<Longrightarrow> loop_step env (LSchedById (n # ns)) s (next_place r (\<lambda>x. case x of Wait_for a \<Rightarrow> LAwaitById a ns | _ \<Rightarrow> LSchedById ns)) t"
| by_id_awaited: "awaited_done env a loaded s = (r, t) \<Longrightarrow> loop_step env (LAwaitById a ns) s (next_place r (\<lambda>_. LSchedById ns)) t"
| flushed: "open_reviews env s = (Inr u, t) \<Longrightarrow> round_done env t \<Longrightarrow> w_status t \<noteq> TS_COMPLETED
    \<Longrightarrow> loop_step env LFlushed s LCompleted (declare_done env t)"
| flushed_again: "open_reviews env s = (Inr u, t) \<Longrightarrow> round_done env t \<Longrightarrow> w_status t = TS_COMPLETED \<Longrightarrow> loop_step env LFlushed s (LTail True) t"
| flushed_open: "open_reviews env s = (Inr u, t) \<Longrightarrow> \<not> round_done env t \<Longrightarrow> loop_step env LFlushed s (LTail False) t"
| flushed_error: "open_reviews env s = (Inl e, t) \<Longrightarrow> loop_step env LFlushed s (LFailed e) t"
| tail: "loop_step env (LTail d) s (next_place (tail_place env d s) id) s"
| wake: "wakes env w s = Inr True \<Longrightarrow> loop_step env (LSleep w) s LHead s"
| backoff: "next_backoff env s \<noteq> None \<Longrightarrow> loop_step env (LSleep w) s LHead s"
| wake_error: "wakes env w s = Inl e \<Longrightarrow> loop_step env (LSleep w) s (LFailed e) s"

text \<open>The steps of the loop that wait for the handlers, or hand events to \<open>publish_events\<close>, and those of the handlers.\<close>

inductive sys_step :: "env \<Rightarrow> sys \<Rightarrow> sys \<Rightarrow> bool" for env where
  loop: "loop_step env (s_place y) (s_task y) p t \<Longrightarrow> sys_step env y (y\<lparr>s_place := p, s_task := t\<rparr>)"
| status: "s_place y = LStatus \<Longrightarrow> loop_status env (s_task y) = s \<Longrightarrow> flush_events s = (evs, t)
    \<Longrightarrow> sys_step env y (y\<lparr>s_place := LFlushed, s_task := t, s_published := s_published y @ evs\<rparr>)"
| completed: "s_place y = LCompleted \<Longrightarrow> flush_events (s_task y) = (evs, t)
    \<Longrightarrow> sys_step env y (y\<lparr>s_place := LTail True, s_task := requeue_unsent env t, s_published := s_published y @ evs\<rparr>)"
| handlers_old: "s_place y = LHandlers \<Longrightarrow> s_pending y = [] \<Longrightarrow> \<not> e_patched env DRAIN_BEFORE_CONTINUE_AS_NEW
    \<Longrightarrow> carry_input env (s_task y) = (r, t) \<Longrightarrow> sys_step env y (y\<lparr>s_place := next_place r LContinued, s_task := t\<rparr>)"
| handlers: "s_place y = LHandlers \<Longrightarrow> s_pending y = [] \<Longrightarrow> e_patched env DRAIN_BEFORE_CONTINUE_AS_NEW
    \<Longrightarrow> sys_step env y (y\<lparr>s_place := LLast\<rparr>)"
| last_drain: "s_place y = LLast \<Longrightarrow> s_pending y = [] \<Longrightarrow> w_commands (s_task y) \<noteq> [] \<Longrightarrow> sys_step env y (y\<lparr>s_place := LDrain True\<rparr>)"
| last_flush: "s_place y = LLast \<Longrightarrow> s_pending y = [] \<Longrightarrow> w_commands (s_task y) = []
    \<Longrightarrow> compact_plan env True KEEP_RECENT_COMPLETED (s_task y) = (r, s) \<Longrightarrow> w_events s \<noteq> [] \<Longrightarrow> flush_events s = (evs, t)
    \<Longrightarrow> sys_step env y (y\<lparr>s_place := next_place r (\<lambda>_. LLast), s_task := t, s_published := s_published y @ evs\<rparr>)"
| last_out: "s_place y = LLast \<Longrightarrow> s_pending y = [] \<Longrightarrow> w_commands (s_task y) = []
    \<Longrightarrow> compact_plan env True KEEP_RECENT_COMPLETED (s_task y) = (Inr b, s) \<Longrightarrow> w_events s = [] \<Longrightarrow> carry_input env s = (r, t)
    \<Longrightarrow> sys_step env y (y\<lparr>s_place := next_place r LContinued, s_task := t\<rparr>)"
| finish: "s_place y = LEnd \<Longrightarrow> w_status (s_task y) = TS_CANCELLED \<Longrightarrow> w_attempts (s_task y) = [] \<Longrightarrow> flush_events (s_task y) = (evs, t)
    \<Longrightarrow> sys_step env y (y\<lparr>s_place := LDone (get_task_view t), s_task := t, s_published := s_published y @ evs\<rparr>)"
| finish_open: "s_place y = LEnd \<Longrightarrow> w_status (s_task y) \<noteq> TS_CANCELLED \<Longrightarrow> flush_events (s_task y) = (evs, t)
    \<Longrightarrow> sys_step env y (y\<lparr>s_place := LDone (get_task_view t), s_task := t, s_published := s_published y @ evs\<rparr>)"
| send: "validate_send_message req (s_task y) = Inr () \<Longrightarrow> send_message env req (s_task y) = (r, t)
    \<Longrightarrow> sys_step env y (y\<lparr>s_task := t, s_pending := s_pending y @ (case r of Inr (a, q) \<Rightarrow> [PInterrupt q] | Inl e \<Rightarrow> [])\<rparr>)"
| propose: "propose_completion env pr (s_task y) = (r, t) \<Longrightarrow> sys_step env y (y\<lparr>s_task := t\<rparr>)"
| submit: "submit_plan_change env c (s_task y) = (r, t)
    \<Longrightarrow> sys_step env y (y\<lparr>s_task := t, s_pending := s_pending y @ (case r of Inr None \<Rightarrow> [PSubmit c] | _ \<Rightarrow> [])\<rparr>)"
| decide: "decide_approval env da (s_task y) = (r, t)
    \<Longrightarrow> sys_step env y (y\<lparr>s_task := t, s_pending := s_pending y @ (case r of Inr (a, Some (i, obj)) \<Rightarrow> [PDecision i obj] | _ \<Rightarrow> [])\<rparr>)"
| control: "control env tc (s_task y) = (r, t)
    \<Longrightarrow> sys_step env y (y\<lparr>s_task := t, s_pending := s_pending y @ (case r of Inr (Inr (w, q)) \<Rightarrow> [PControlWait tc w q] | _ \<Rightarrow> [])\<rparr>)"
| grant: "grant_budget env gb (s_task y) = (r, t) \<Longrightarrow> sys_step env y (y\<lparr>s_task := t\<rparr>)"
| switch: "request_profile_switch env rp (s_task y) = (r, t) \<Longrightarrow> sys_step env y (y\<lparr>s_task := t\<rparr>)"
| complete: "validate_complete_node cn (s_task y) = (Inr (), s) \<Longrightarrow> complete_node env cn (s_task y) = (r, t) \<Longrightarrow> sys_step env y (y\<lparr>s_task := t\<rparr>)"
| config: "validate_update_task_config uc (s_task y) = Inr () \<Longrightarrow> update_task_config env uc (s_task y) = (r, t) \<Longrightarrow> sys_step env y (y\<lparr>s_task := t\<rparr>)"
| finished: "attempt_finished env sig (s_task y) = (r, t)
    \<Longrightarrow> sys_step env y (y\<lparr>s_task := t, s_pending := s_pending y @ (case r of Inr w \<Rightarrow> pended sig w | Inl e \<Rightarrow> [])\<rparr>)"
| parked: "attempt_parked env pk (s_task y) = (r, t) \<Longrightarrow> sys_step env y (y\<lparr>s_task := t\<rparr>)"
| decided: "sys_step env y (y\<lparr>s_task := approval_decided ad (s_task y)\<rparr>)"
| delivered: "sys_step env y (y\<lparr>s_task := deliver_messages ms (s_task y)\<rparr>)"
| event: "external_event env ee (s_task y) = (r, t) \<Longrightarrow> sys_step env y (y\<lparr>s_task := t\<rparr>)"
| wait_timer: "WaitTimer n d \<in> set (dvals (w_timers (s_task y))) \<Longrightarrow> wait_timer_fired env n (s_task y) = (r, t) \<Longrightarrow> sys_step env y (y\<lparr>s_task := t\<rparr>)"
| cancel_timer: "CancelTimer n a d \<in> set (dvals (w_timers (s_task y))) \<Longrightarrow> await_cancelled env n (Some a) (s_task y) = (r, t)
    \<Longrightarrow> sys_step env y (y\<lparr>s_task := t\<rparr>)"
| old_wait: "complete_after env n (s_task y) = (r, t) \<Longrightarrow> sys_step env y (y\<lparr>s_task := t\<rparr>)"
| old_cancel: "\<not> e_patched env CANCEL_WAITS_FOR_CHILD \<Longrightarrow> await_cancelled env n None (s_task y) = (r, t) \<Longrightarrow> sys_step env y (y\<lparr>s_task := t\<rparr>)"
| verdict: "s_pending y = ps @ PVerdict sig obj # qs \<Longrightarrow> (case attempt_at obj (s_task y) of None \<Rightarrow> True | Some a \<Rightarrow> x_verdict a \<noteq> Some Verifying)
    \<Longrightarrow> finish_report env sig obj (s_task y) = (r, t)
    \<Longrightarrow> sys_step env y (y\<lparr>s_task := t, s_pending := ps @ qs @ (case r of Inr w \<Rightarrow> pended sig (map_option (Pair obj) w) | Inl e \<Rightarrow> [])\<rparr>)"
| checks: "s_pending y = ps @ PChecks sig obj c # qs \<Longrightarrow> finish_verified env sig obj (verify_proposal env ck c) (s_task y) = (r, t)
    \<Longrightarrow> sys_step env y (y\<lparr>s_task := t, s_pending := ps @ qs\<rparr>)"
| interrupt: "s_pending y = ps @ PInterrupt q # qs \<Longrightarrow> cancel_next env True q (s_task y) = (r, t)
    \<Longrightarrow> sys_step env y (y\<lparr>s_task := t, s_pending := ps @ qs @ (case r of Inr (Some (w, rest)) \<Rightarrow> [PInterruptWait w rest] | _ \<Rightarrow> [])\<rparr>)"
| interrupt_wait: "s_pending y = ps @ PInterruptWait (n, obj) q # qs
    \<Longrightarrow> sys_step env y (y\<lparr>s_task := arm_cancel_fallback n obj (s_task y), s_pending := ps @ qs @ [PInterrupt q]\<rparr>)"
| control_wait: "s_pending y = ps @ PControlWait tc (n, obj) q # qs
    \<Longrightarrow> sys_step env y (y\<lparr>s_task := arm_cancel_fallback n obj (s_task y), s_pending := ps @ qs @ [PControl tc q]\<rparr>)"
| control_next: "s_pending y = ps @ PControl tc q # qs \<Longrightarrow> control_cancelling env tc q (s_task y) = (r, t)
    \<Longrightarrow> sys_step env y (y\<lparr>s_task := t, s_pending := ps @ qs @ (case r of Inr (Inr (w, rest)) \<Rightarrow> [PControlWait tc w rest] | _ \<Rightarrow> [])\<rparr>)"
| decision: "s_pending y = ps @ PDecision i obj # qs \<Longrightarrow> decision_signalled env i obj ok (s_task y) = (r, t)
    \<Longrightarrow> sys_step env y (y\<lparr>s_task := t, s_pending := ps @ qs\<rparr>)"
| submitted: "s_pending y = ps @ PSubmit c # qs \<Longrightarrow> w_plan (s_task y) \<noteq> None \<Longrightarrow> submit_judged env c (s_task y) = (r, t)
    \<Longrightarrow> sys_step env y (y\<lparr>s_task := t, s_pending := ps @ qs\<rparr>)"

text \<open>
  Time and Temporal's suggestion to continue as new differ from step to step; the rest of the environment (the recorded patches,
  pydantic, the random ids, the depth of the stack) is the same for the run.
\<close>

definition same_run :: "env \<Rightarrow> env \<Rightarrow> bool" where
  "same_run e0 e \<longleftrightarrow> e_patched e = e_patched e0 \<and> e_px e = e_px e0 \<and> e_uuid e = e_uuid e0 \<and> e_workflow_id e = e_workflow_id e0
     \<and> e_depth e = e_depth e0"

definition is_over :: "place \<Rightarrow> bool" where
  "is_over p = (case p of LContinued inp \<Rightarrow> True | LDone v \<Rightarrow> True | LFailed e \<Rightarrow> True | _ \<Rightarrow> False)"

text \<open>What the handlers do that run before \<open>run\<close>, on the state of \<open>__init__\<close>: without an input, a plan and an attempt.\<close>

definition new_sys :: sys where
  "new_sys = \<lparr>s_place = LBefore, s_task = init_task, s_pending = [], s_published = []\<rparr>"

inductive early :: "env \<Rightarrow> sys \<Rightarrow> bool" for e0 where
  new: "early e0 new_sys"
| step: "early e0 y \<Longrightarrow> same_run e0 env \<Longrightarrow> sys_step env y z \<Longrightarrow> early e0 z"

text \<open>\<open>run\<close> begins: the handlers that wait go on waiting beside it.\<close>

definition started_from :: "env \<Rightarrow> sys \<Rightarrow> task_input \<Rightarrow> sys \<Rightarrow> bool" where
  "started_from env y0 inp y \<longleftrightarrow> (\<exists>t. run_start env inp (s_task y0) = (Inr (), t) \<and> y = y0\<lparr>s_place := LHead, s_task := t\<rparr>)"

text \<open>The states of a run that starts from an input and from what the handlers before it left.\<close>

inductive reachable_from :: "env \<Rightarrow> sys \<Rightarrow> task_input \<Rightarrow> sys \<Rightarrow> bool" for e0 y0 inp where
  start: "same_run e0 env \<Longrightarrow> started_from env y0 inp y \<Longrightarrow> reachable_from e0 y0 inp y"
| step: "reachable_from e0 y0 inp y \<Longrightarrow> \<not> is_over (s_place y) \<Longrightarrow> same_run e0 env \<Longrightarrow> sys_step env y z \<Longrightarrow> reachable_from e0 y0 inp z"

definition reachable :: "env \<Rightarrow> task_input \<Rightarrow> sys \<Rightarrow> bool" where
  "reachable e0 inp y \<longleftrightarrow> (\<exists>y0. early e0 y0 \<and> reachable_from e0 y0 inp y)"

lemma reachable_start: "early e0 y0 \<Longrightarrow> same_run e0 env \<Longrightarrow> started_from env y0 inp y \<Longrightarrow> reachable e0 inp y"
  unfolding reachable_def by (auto intro: reachable_from.start)

lemma reachable_step: "reachable e0 inp y \<Longrightarrow> \<not> is_over (s_place y) \<Longrightarrow> same_run e0 env \<Longrightarrow> sys_step env y z \<Longrightarrow> reachable e0 inp z"
  unfolding reachable_def by (auto intro: reachable_from.step)

lemma reachable_induct [consumes 1, case_names start step]:
  assumes "reachable e0 inp y"
    and "\<And>env y0 y. early e0 y0 \<Longrightarrow> same_run e0 env \<Longrightarrow> started_from env y0 inp y \<Longrightarrow> P y"
    and "\<And>y env z. reachable e0 inp y \<Longrightarrow> \<not> is_over (s_place y) \<Longrightarrow> same_run e0 env \<Longrightarrow> sys_step env y z \<Longrightarrow> P y \<Longrightarrow> P z"
  shows "P y"
proof -
  obtain y0 where y0: "early e0 y0" "reachable_from e0 y0 inp y" using assms(1) by (auto simp: reachable_def)
  have "reachable e0 inp y \<and> P y" using y0(2)
    by (induction rule: reachable_from.induct) (auto intro: assms(2,3) y0(1) reachable_start reachable_step)
  then show ?thesis ..
qed

lemma early_place: "early e0 y \<Longrightarrow> s_place y = LBefore \<and> s_published y = []"
proof (induction rule: early.induct)
  case (step y env z)
  then show ?case by (auto elim!: sys_step.cases elim: loop_step.cases)
qed (simp add: new_sys_def)

lemma early_invariant:
  assumes "early e0 y" "I init_task" "\<And>env y z. same_run e0 env \<Longrightarrow> sys_step env y z \<Longrightarrow> I (s_task y) \<Longrightarrow> I (s_task z)"
  shows "I (s_task y)"
  using assms(1) by induction (auto simp: new_sys_def intro: assms(2,3))

section \<open>Queries\<close>

definition get_inbox :: "nat \<Rightarrow> task \<Rightarrow> inbox_message list" where
  "get_inbox after_seq self = filter (\<lambda>m. after_seq < im_message_seq m) (w_inbox self)"

end
