(* ===== verification/Task_Evolves.thy ===== *)
theory Task_Evolves
  imports Task_Workflow
begin

text \<open>
  What every part of the workflow keeps, whatever it does: an attempt is not put into the books except by a start and keeps its
  identity there, the events are numbered upwards per entity and take one fresh id each, the dedup window is bounded, the plan is
  not lost, and the counters only grow. \<open>evolves\<close> is this relation between the state before a part and the state after it; each
  method is shown to keep it once.
\<close>

section \<open>The relation\<close>

definition identity :: "attempt \<Rightarrow> nat \<times> string \<times> nat \<times> string \<times> workspace_access" where
  "identity a = (x_object a, x_attempt_id a, x_attempt_no a, x_workflow_id a, x_workspace_access a)"

text \<open>A change of an attempt that leaves it what it is; an end that is being settled stays so.\<close>

definition mild :: "(attempt \<Rightarrow> attempt) \<Rightarrow> bool" where
  "mild f \<longleftrightarrow> (\<forall>a. identity (f a) = identity a \<and> (x_finishing a \<longrightarrow> x_finishing (f a)))"

definition attempts_kept :: "task \<Rightarrow> task \<Rightarrow> bool" where
  "attempts_kept s t \<longleftrightarrow> (\<forall>k b. dget (w_attempts t) k = Some b \<longrightarrow>
     (\<exists>a. dget (w_attempts s) k = Some a \<and> identity a = identity b \<and> (x_finishing a \<longrightarrow> x_finishing b)))"

definition event_key :: "event \<Rightarrow> string" where
  "event_key ev = ev_entity_kind ev @ '':'' @ ev_entity_id ev"

text \<open>Events numbered upwards from what the versions of their entities were, and the versions after them.\<close>

primrec fresh :: "(string \<Rightarrow> nat) \<Rightarrow> event list \<Rightarrow> bool" where
  "fresh v [] = True"
| "fresh v (e # es) = (v (event_key e) < ev_version e \<and> fresh (v(event_key e := ev_version e)) es)"

primrec replay :: "(string \<Rightarrow> nat) \<Rightarrow> event list \<Rightarrow> string \<Rightarrow> nat" where
  "replay v [] = v"
| "replay v (e # es) = replay (v(event_key e := ev_version e)) es"

definition versions_of :: "task \<Rightarrow> string \<Rightarrow> nat" where
  "versions_of s = get_version (w_entity_versions s)"

definition event_id_of :: "env \<Rightarrow> nat \<Rightarrow> string" where
  "event_id_of env i = deterministic_id (e_uuid env i) ''evt''"

definition emitted :: "env \<Rightarrow> task \<Rightarrow> task \<Rightarrow> bool" where
  "emitted env s t \<longleftrightarrow> (\<exists>new. w_events t = w_events s @ new \<and> fresh (versions_of s) new \<and> versions_of t = replay (versions_of s) new
     \<and> w_uuids t = w_uuids s + length new \<and> map ev_event_id new = map (event_id_of env) [w_uuids s..<w_uuids t])"

definition window_kept :: "env \<Rightarrow> task \<Rightarrow> task \<Rightarrow> bool" where
  "window_kept env s t \<longleftrightarrow> e_patched env STATE_BOUNDS \<longrightarrow> length (w_dedup t) \<le> max (length (w_dedup s)) MAX_DEDUP"

definition counters_kept :: "task \<Rightarrow> task \<Rightarrow> bool" where
  "counters_kept s t \<longleftrightarrow> (w_plan s \<noteq> None \<longrightarrow> w_plan t \<noteq> None) \<and> w_next_message_seq s \<le> w_next_message_seq t
     \<and> w_objects s \<le> w_objects t \<and> c_config_version (w_config s) \<le> c_config_version (w_config t) \<and> (w_stop s \<longrightarrow> w_stop t)"

definition evolves :: "env \<Rightarrow> task \<Rightarrow> task \<Rightarrow> bool" where
  "evolves env s t \<longleftrightarrow> attempts_kept s t \<and> emitted env s t \<and> window_kept env s t \<and> counters_kept s t"

lemma fresh_append: "fresh v (xs @ ys) \<longleftrightarrow> fresh v xs \<and> fresh (replay v xs) ys"
  by (induction xs arbitrary: v) auto

lemma replay_append: "replay v (xs @ ys) = replay (replay v xs) ys"
  by (induction xs arbitrary: v) auto

lemma emitted_refl: "emitted env s s"
  by (auto simp: emitted_def)

lemma emitted_trans:
  assumes "emitted env s t" "emitted env t u"
  shows "emitted env s u"
proof -
  obtain xs ys where *: "w_events t = w_events s @ xs" "fresh (versions_of s) xs" "versions_of t = replay (versions_of s) xs"
      "w_uuids t = w_uuids s + length xs" "map ev_event_id xs = map (event_id_of env) [w_uuids s..<w_uuids t]"
      "w_events u = w_events t @ ys" "fresh (versions_of t) ys" "versions_of u = replay (versions_of t) ys"
      "w_uuids u = w_uuids t + length ys" "map ev_event_id ys = map (event_id_of env) [w_uuids t..<w_uuids u]"
    using assms unfolding emitted_def by blast
  have "[w_uuids s..<w_uuids u] = [w_uuids s..<w_uuids t] @ [w_uuids t..<w_uuids u]"
    using *(4,9) by (metis le_add1 upt_add_eq_append)
  then show ?thesis unfolding emitted_def using *
    by (intro exI[of _ "xs @ ys"]) (simp add: fresh_append replay_append)
qed

lemma evolves_refl: "evolves env s s"
  by (simp add: evolves_def attempts_kept_def emitted_refl window_kept_def counters_kept_def)

lemma evolves_trans: "evolves env s t \<Longrightarrow> evolves env t u \<Longrightarrow> evolves env s u"
  unfolding evolves_def
proof (intro conjI; (elim conjE)?)
  show "attempts_kept s t \<Longrightarrow> attempts_kept t u \<Longrightarrow> attempts_kept s u" unfolding attempts_kept_def by metis
  show "emitted env s t \<Longrightarrow> emitted env t u \<Longrightarrow> emitted env s u" by (rule emitted_trans)
  show "window_kept env s t \<Longrightarrow> window_kept env t u \<Longrightarrow> window_kept env s u" unfolding window_kept_def by auto
  show "counters_kept s t \<Longrightarrow> counters_kept t u \<Longrightarrow> counters_kept s u" unfolding counters_kept_def by auto
qed

section \<open>Relations the methods keep\<close>

text \<open>
  A change of fields no such relation speaks of: the books, the events, the dedup window, the plan and the queue stay, the
  counters do not fall.
\<close>

definition quiet :: "task \<Rightarrow> task \<Rightarrow> bool" where
  "quiet x y \<longleftrightarrow> w_attempts y = w_attempts x \<and> w_detached y = w_detached x \<and> w_objects y = w_objects x
     \<and> w_events y = w_events x \<and> w_entity_versions y = w_entity_versions x \<and> w_uuids y = w_uuids x
     \<and> w_dedup y = w_dedup x \<and> w_plan y = w_plan x \<and> w_commands y = w_commands x \<and> counters_kept x y"

named_theorems evolves_rules \<open>changes of the state that keep a relation\<close>
named_theorems keeps_rules \<open>methods that keep a relation\<close>

lemma keeps_cases [keeps_rules]:
  "(c \<Longrightarrow> keeps R a) \<Longrightarrow> (\<not> c \<Longrightarrow> keeps R b) \<Longrightarrow> keeps R (if c then a else b)"
  "keeps R a \<Longrightarrow> (\<And>x. keeps R (g x)) \<Longrightarrow> keeps R (case m of None \<Rightarrow> a | Some x \<Rightarrow> g x)"
  "(\<And>y. keeps R (l y)) \<Longrightarrow> (\<And>x. keeps R (g x)) \<Longrightarrow> keeps R (case e of Inl y \<Rightarrow> l y | Inr x \<Rightarrow> g x)"
  "(\<And>y z. keeps R (h y z)) \<Longrightarrow> keeps R (case pr of (y, z) \<Rightarrow> h y z)"
  "keeps R a \<Longrightarrow> (\<And>x xs. keeps R (q x xs)) \<Longrightarrow> keeps R (case ls of [] \<Rightarrow> a | x # xs \<Rightarrow> q x xs)"
  by (auto split: option.split prod.split sum.split list.split)

lemma keeps_report_next [keeps_rules]:
  "(\<And>r. keeps R (a r)) \<Longrightarrow> keeps R b \<Longrightarrow> (\<And>p c. keeps R (d p c)) \<Longrightarrow> keeps R (case n of RSettle r \<Rightarrow> a r | RWaitVerdict \<Rightarrow> b | RVerify p c \<Rightarrow> d p c)"
  by (cases n) auto

lemma keeps_spec [keeps_rules]:
  "(\<And>a b. keeps R (f1 a b)) \<Longrightarrow> (\<And>a b. keeps R (f2 a b)) \<Longrightarrow> (\<And>a. keeps R (f3 a)) \<Longrightarrow> (\<And>a b. keeps R (f4 a b))
   \<Longrightarrow> (\<And>a b. keeps R (f5 a b)) \<Longrightarrow> (\<And>a. keeps R (f6 a))
   \<Longrightarrow> keeps R (case sp of AgentTurnSpec a b \<Rightarrow> f1 a b | SopStageSpec a b \<Rightarrow> f2 a b | TeamStageSpec a \<Rightarrow> f3 a | ApprovalSpec a b \<Rightarrow> f4 a b
       | WaitSpec a b \<Rightarrow> f5 a b | CheckpointSpec a \<Rightarrow> f6 a)"
  by (cases sp) auto

text \<open>
  \<open>gives R m V\<close>: the method keeps the relation, and what it returns satisfies \<open>V\<close>, unless the relation says nothing about the
  state it started from.
\<close>

definition gives :: "(task \<Rightarrow> task \<Rightarrow> bool) \<Rightarrow> 'a wf \<Rightarrow> ('a \<Rightarrow> bool) \<Rightarrow> bool" where
  "gives R m V \<longleftrightarrow> (\<forall>s. R s (snd (m s)) \<and> (\<forall>x. fst (m s) = Inr x \<longrightarrow> V x \<or> (\<forall>t. R s t)))"

context wf_relation
begin

lemma keeps_gives:
  assumes "gives R m V" "\<And>x. V x \<Longrightarrow> keeps R (f x)"
  shows "keeps R (bindW m f)"
  unfolding keeps_def
proof
  fix s
  obtain r t where m: "m s = (r, t)" by force
  have r: "R s t" "\<And>x. r = Inr x \<Longrightarrow> V x \<or> (\<forall>u. R s u)" using spec[OF assms(1)[unfolded gives_def], of s] m by auto
  show "R s (snd (bindW m f s))"
  proof (cases r)
    case (Inr x)
    then show ?thesis using r m assms(2)[of x] R_trans[OF r(1)] by (auto simp: bindW_run keeps_def)
  qed (simp add: bindW_run m r(1))
qed

lemma gives_bind:
  assumes "keeps R m" "\<And>x. gives R (f x) V"
  shows "gives R (bindW m f) V"
  unfolding gives_def
proof
  fix s
  obtain r t where m: "m s = (r, t)" by force
  have st: "R s t" using assms(1) m unfolding keeps_def by (metis snd_conv)
  show "R s (snd (bindW m f s)) \<and> (\<forall>x. fst (bindW m f s) = Inr x \<longrightarrow> V x \<or> (\<forall>u. R s u))"
  proof (cases r)
    case (Inr x)
    have "R t (snd (f x t))" "\<forall>y. fst (f x t) = Inr y \<longrightarrow> V y \<or> (\<forall>u. R t u)" using assms(2)[of x] by (auto simp: gives_def)
    then show ?thesis using m Inr R_trans[OF st] by (auto simp: bindW_run)
  qed (simp add: bindW_run m st)
qed

lemma gives_with: "(\<And>s. gives R (h s) V) \<Longrightarrow> gives R (withW h) V"
  by (simp add: gives_def wf_simps)

lemma keeps_again:
  assumes "gives R m V" "V x" "\<And>y. V y \<Longrightarrow> keeps R (f y)"
  shows "keeps R (bindW (if c then m else ret x) f)"
proof -
  have "gives R (if c then m else ret x) V" using assms(1,2) by (auto simp: gives_def wf_simps R_refl)
  then show ?thesis by (rule keeps_gives) (rule assms(3))
qed

text \<open>A read, and a change that depends on what was read.\<close>

lemma keeps_read:
  assumes "\<And>s x t. m s = (Inr x, t) \<Longrightarrow> R s (g x t)" "keeps R m" "\<And>x. keeps R (f x)"
  shows "keeps R (bindW m (\<lambda>x. thenW (modW (g x)) (f x)))"
  unfolding keeps_def
proof
  fix s
  obtain r t where m: "m s = (r, t)" by force
  show "R s (snd (bindW m (\<lambda>x. thenW (modW (g x)) (f x)) s))"
  proof (cases r)
    case (Inl e)
    then show ?thesis using m spec[OF assms(2)[unfolded keeps_def], of s] by (simp add: bindW_run)
  next
    case (Inr x)
    then have "R s (g x t)" using m assms(1) by blast
    then show ?thesis using m Inr assms(3)[of x] R_trans by (auto simp: bindW_run thenW_run modW_run keeps_def)
  qed
qed

end

lemma keeps_schedule_step [keeps_rules]:
  "keeps R a \<Longrightarrow> keeps R b \<Longrightarrow> (\<And>w. keeps R (c w)) \<Longrightarrow> keeps R (case st of Go \<Rightarrow> a | Break \<Rightarrow> b | Wait_for w \<Rightarrow> c w)"
  by (cases st) auto

end
