(* ===== verification/Task_Keeps.thy ===== *)
theory Task_Keeps
  imports Task_Evolves
begin

text \<open>
  The methods of the workflow keep every relation of the kind of \<open>task_relation\<close>, except the one that puts a started attempt
  into the books. The proofs only take the methods apart (\<open>keeps_rules\<close>, \<open>evolves_rules\<close>). The relation \<open>evolves\<close> is one, and
  that the answers of the dedup window stay is another.
\<close>

section \<open>The interface\<close>

lemma emit_other:
  "w_attempts (emit env et p s) = w_attempts s" "w_dedup (emit env et p s) = w_dedup s" "w_plan (emit env et p s) = w_plan s"
  "w_next_message_seq (emit env et p s) = w_next_message_seq s" "w_objects (emit env et p s) = w_objects s"
  "w_config (emit env et p s) = w_config s" "w_stop (emit env et p s) = w_stop s" "w_status (emit env et p s) = w_status s"
  "w_detached (emit env et p s) = w_detached s" "w_commands (emit env et p s) = w_commands s"
  by (simp_all add: emit_def Let_def split: prod.split)

lemmas emit_plan = emit_other(3)

text \<open>
  A relation that is kept by an event, by a change of other fields, by a mild change of an attempt, by taking an attempt out of
  the books and by the ways the plan moves (a node's state, an accepted change, a compaction), is kept by every method; those
  that answer a command also need it kept by \<open>_remember\<close> and by the queue. \<open>okp\<close> is what the relation asks of a plan.
\<close>

locale task_relation = wf_relation R for R :: "task \<Rightarrow> task \<Rightarrow> bool" +
  fixes env :: env and okp :: "plan_state \<Rightarrow> bool"
  assumes R_emit: "R s x \<Longrightarrow> R s (emit env et p x)"
    and R_quiet: "R s x \<Longrightarrow> quiet x y \<Longrightarrow> R s y"
    and R_mut: "R s x \<Longrightarrow> mild f \<Longrightarrow> R s (mut_attempt obj f x)"
    and R_pop: "R s x \<Longrightarrow> R s (pop_attempt n x)"
    and R_plan: "R s x \<Longrightarrow> okp plan \<Longrightarrow> R s (w_plan_update (\<lambda>_. Some plan) x)"
    and R_initial: "okp (initial_plan (e_px env) i g pr)"
    and R_node: "w_plan s = Some plan \<Longrightarrow> dget (pl_nodes plan) n = Some st \<Longrightarrow> R s (put_node env n (changed_node env st u) s)"
    and R_apply: "w_plan s = Some plan \<Longrightarrow> apply_command (e_px env) plan c pol = Inr out \<Longrightarrow> okp (po_plan out) \<or> (\<forall>t. R s t)"
    and R_compact: "w_plan s = Some plan \<Longrightarrow> compact (e_px env) plan held k = Some co \<Longrightarrow> okp (co_plan co) \<or> (\<forall>t. R s t)"
begin

lemmas [evolves_rules] = R_emit R_mut R_pop

lemmas [keeps_rules] = keeps_intros

lemma evolves_field [evolves_rules]:
  assumes "R s x"
  shows "R s (w_tenant_id_update f1 x)"
    and "R s (w_created_by_update f2 x)"
    and "R s (w_title_update f3 x)"
    and "R s (w_goal_update f4 x)"
    and "R s (w_profile_update f5 x)"
    and "R s (w_task_id_update f6 x)"
    and "R s (w_status_update f7 x)"
    and "R s (w_budgets_update f8 x)"
    and "R s (w_policy_update f9 x)"
    and "R s (w_usage_update f10 x)"
    and "R s (w_inbox_update f11 x)"
    and "R s (w_approvals_update f13 x)"
    and "R s (w_wait_events_update f14 x)"
    and "R s (w_updates_update f15 x)"
    and "R s (w_completed_nodes_update f16 x)"
    and "R s (w_wake_update f17 x)"
    and "R s (w_last_attempt_id_update f18 x)"
    and "R s (w_follow_ups_update f19 x)"
    and "R s (w_allow_rules_update f20 x)"
    and "R s (w_node_retry_update f21 x)"
    and "R s (w_wait_deadlines_update f22 x)"
    and "R s (w_timers_update f23 x)"
    and "R s (w_archive_update f24 x)"
    and "R s (w_budget_hold_update f25 x)"
    and "R s (w_unsent_update f26 x)"
    and "R s (w_node_profile_update f27 x)"
    and "R s (w_handovers_update f28 x)"
    and "R s (w_sops_update f29 x)"
    and "R s (w_reviews_update f30 x)"
    and "R s (w_review_nodes_update f31 x)"
    and "R s (w_node_rounds_update f32 x)"
    and "R s (w_member_sessions_update f33 x)"
  by (rule R_quiet[OF assms]; simp add: quiet_def counters_kept_def)+

lemma evolves_counter [evolves_rules]:
  assumes "R s x"
  shows "R s (w_stop_update (\<lambda>_. True) x)"
    and "w_next_message_seq x \<le> n \<Longrightarrow> R s (w_next_message_seq_update (\<lambda>_. n) x)"
    and "c_config_version (w_config x) \<le> c_config_version c \<Longrightarrow> R s (w_config_update (\<lambda>_. c) x)"
  by (rule R_quiet[OF assms]; simp add: quiet_def counters_kept_def)+

lemma evolves_cases [evolves_rules]:
  "(c \<Longrightarrow> R s a) \<Longrightarrow> (\<not> c \<Longrightarrow> R s b) \<Longrightarrow> R s (if c then a else b)"
  "R s a \<Longrightarrow> (\<And>x. R s (g x)) \<Longrightarrow> R s (case m of None \<Rightarrow> a | Some x \<Rightarrow> g x)"
  "(\<And>y z. R s (h y z)) \<Longrightarrow> R s (case pr of (y, z) \<Rightarrow> h y z)"
  by (auto split: option.split prod.split)

lemma evolves_foldl [evolves_rules]: "R s x \<Longrightarrow> (\<And>y e. R s y \<Longrightarrow> R s (g y e)) \<Longrightarrow> R s (foldl g x xs)"
  by (induction xs arbitrary: x) auto

lemma keeps_mod [keeps_rules]: "(\<And>s. R s (f s)) \<Longrightarrow> keeps R (modW f)"
  by (simp add: keeps_def wf_simps)

lemma keeps_lift [keeps_rules]: "keeps R (liftE m)"
  by (cases m) (auto simp: liftE_def intro: keeps_intros)

section \<open>Changes of the state\<close>

lemma evolves_status [evolves_rules]: "R s x \<Longrightarrow> R s (set_status env st r x)"
  unfolding set_status_def Let_def by (intro evolves_rules)

lemma evolves_review [evolves_rules]: "R s x \<Longrightarrow> R s (ask_review env r x)"
  unfolding ask_review_def by (intro evolves_rules)

lemma evolves_hold [evolves_rules]: "R s x \<Longrightarrow> R s (hold_for_budget env n d x)"
  unfolding hold_for_budget_def Let_def by (intro evolves_rules)

lemma evolves_settle [evolves_rules]: "R s x \<Longrightarrow> R s (settle_attempt env obj u x)"
  unfolding settle_attempt_def Let_def by (intro evolves_rules) (simp_all add: mild_def identity_def)

lemma evolves_entry [evolves_rules]: "R s x \<Longrightarrow> R s (set_entry n f x)"
  unfolding set_entry_def by (intro evolves_rules)

lemma evolves_count [evolves_rules]: "R s x \<Longrightarrow> R s (count_failure n a m x)"
  unfolding count_failure_def by (intro evolves_rules)

lemma evolves_status_event [evolves_rules]: "R s x \<Longrightarrow> R s (status_event env n r st u x)"
  unfolding status_event_def by (intro evolves_rules)

lemma evolves_committed [evolves_rules]: "R s x \<Longrightarrow> R s (committed env c e x)"
  unfolding committed_def by (intro evolves_rules)

lemma evolves_team_message [evolves_rules]: "R s x \<Longrightarrow> R s (team_message env n a k f t tx r x)"
  unfolding team_message_def Let_def by (intro evolves_rules)

lemma evolves_team_assign [evolves_rules]: "R s x \<Longrightarrow> R s (team_assign env c m t op x)"
  by (cases op; simp only: team_assign_def Let_def plan_op.case; intro evolves_rules)

lemma evolves_team_assigns [evolves_rules]: "R s x \<Longrightarrow> R s (emit_team_assigns env c m x)"
  unfolding emit_team_assigns_def by (intro evolves_rules) assumption

lemma evolves_attempt_finished [evolves_rules]: "R s x \<Longrightarrow> R s (emit_attempt_finished env sg oc f u a x)"
  unfolding emit_attempt_finished_def by (intro evolves_rules)

lemma evolves_manifest [evolves_rules]: "R s x \<Longrightarrow> R s (emit_manifest_created env sg x)"
  unfolding emit_manifest_created_def by (auto split: option.split intro!: evolves_rules)

lemma evolves_drop [evolves_rules]: "R s x \<Longrightarrow> R s (drop_message n x)"
  unfolding drop_message_def by (intro evolves_rules)

lemma evolves_step_output [evolves_rules]: "R s x \<Longrightarrow> R s (record_step_output sg x)"
  unfolding record_step_output_def by (intro evolves_rules)

lemma evolves_cancel_approvals [evolves_rules]: "R s x \<Longrightarrow> R s (cancel_approvals env p c x)"
  unfolding cancel_approvals_def by (intro evolves_rules)

lemma evolves_cancel_node_approvals [evolves_rules]: "R s x \<Longrightarrow> R s (cancel_node_approvals env n x)"
  unfolding cancel_node_approvals_def by (intro evolves_rules)

lemma evolves_review_output [evolves_rules]: "R s x \<Longrightarrow> R s (record_review_output sg x)"
  unfolding record_review_output_def by (intro evolves_rules)

lemma evolves_limit [evolves_rules]: "R s x \<Longrightarrow> R s (report_review_limit env n e m x)"
  unfolding report_review_limit_def by (intro evolves_rules)

lemma evolves_team_reply [evolves_rules]: "R s x \<Longrightarrow> R s (emit_team_reply env sg x)"
  unfolding emit_team_reply_def Let_def by (intro evolves_rules)

lemma evolves_member_session [evolves_rules]: "R s x \<Longrightarrow> R s (remember_member_session env n a x)"
  unfolding remember_member_session_def by (intro evolves_rules)

lemma evolves_mention_entries [evolves_rules]: "R s x \<Longrightarrow> R s (mention_entries env m t g x)"
  unfolding mention_entries_def Let_def by (intro evolves_rules)

lemma evolves_verdict [evolves_rules]: "R s x \<Longrightarrow> R s (set_verdict obj r x)"
  unfolding set_verdict_def by (intro evolves_rules) (simp_all add: mild_def identity_def)

lemma evolves_unheard [evolves_rules]: "R s x \<Longrightarrow> R s (return_unheard env obj h x)"
  unfolding return_unheard_def Let_def by (intro evolves_rules)

lemma evolves_ended [evolves_rules]: "R s x \<Longrightarrow> R s (attempt_ended env obj u x)"
  unfolding attempt_ended_def Let_def by (intro evolves_rules)

lemma evolves_park [evolves_rules]: "R s x \<Longrightarrow> R s (park_approval env sg p x)"
  unfolding park_approval_def Let_def by (intro evolves_rules)

lemma evolves_decided [evolves_rules]: "R s x \<Longrightarrow> R s (approval_decided sg x)"
  unfolding approval_decided_def by (intro evolves_rules)

lemma evolves_deliver [evolves_rules]: "R s x \<Longrightarrow> R s (deliver_messages ms x)"
  unfolding deliver_messages_def by (intro evolves_rules)

lemma evolves_fallback [evolves_rules]: "R s x \<Longrightarrow> R s (arm_cancel_fallback n obj x)"
  unfolding arm_cancel_fallback_def by (intro evolves_rules)

lemma evolves_cancel [evolves_rules]: "R s x \<Longrightarrow> R s (cancel_attempt env obj x)"
  unfolding cancel_attempt_def by (intro evolves_rules) (simp_all add: mild_def identity_def)

lemma evolves_allow [evolves_rules]: "R s x \<Longrightarrow> R s (allow_rule r x)"
  unfolding allow_rule_def by (intro evolves_rules)

lemma evolves_ask_switch [evolves_rules]: "R s x \<Longrightarrow> R s (ask_switch env rq i x)"
  unfolding ask_switch_def Let_def by (intro evolves_rules)

lemma evolves_loop_status [evolves_rules]: "R s x \<Longrightarrow> R s (loop_status env x)"
  unfolding loop_status_def by (intro evolves_rules)

lemma evolves_done [evolves_rules]: "R s x \<Longrightarrow> R s (declare_done env x)"
  unfolding declare_done_def by (intro evolves_rules)

section \<open>Methods\<close>

lemma keeps_require [keeps_rules]: "keeps R (require_node_wf n)"
  unfolding require_node_wf_def by (intro keeps_rules)

lemma keeps_set_with:
  assumes "\<And>n r u. keeps R (call n r u)"
  shows "keeps R (set_node_status_with call n st fr r)"
  unfolding set_node_status_with_def by (intro keeps_rules assms)

lemma keeps_refresh_with:
  assumes "\<And>n r u. keeps R (call n r u)"
  shows "keeps R (refresh_readiness_with call)"
  unfolding refresh_readiness_with_def by (intro keeps_rules keeps_set_with assms)

lemma keeps_sop_child:
  assumes "\<And>n r u. keeps R (call n r u)"
  shows "keeps R (sop_child_changed_with call n st)"
  unfolding sop_child_changed_with_def Let_def by (intro keeps_rules evolves_rules R_refl keeps_set_with assms)

lemma then_when_mod: "thenW (whenW c (modW f)) (thenW (modW g) m) = thenW (modW (\<lambda>x. g (if c then f x else x))) m"
  by (rule ext) (simp add: thenW_run whenW_run modW_run)

lemma keeps_body:
  assumes "\<And>n r u. keeps R (call n r u)"
  shows "keeps R (update_body env call n r u)"
proof -
  define ev where "ev st x = (if upd (nu_status u) (ns_status st) \<noteq> ns_status st \<and> e_patched env ''task-event-vocabulary''
    then status_event env n r st u x else x)" for st :: plan_node_state and x
  define rest where "rest st = thenW (whenW (nu_status u \<in> {Some COMPLETED, Some RETRY_PENDING}) (refresh_readiness_with call))
    (whenW (upd (nu_status u) (ns_status st) \<noteq> ns_status st) (sop_child_changed_with call n (upd (nu_status u) (ns_status st))))" for st :: plan_node_state
  have eq: "update_body env call n r u = bindW (require_node_wf n) (\<lambda>st. thenW (modW (\<lambda>x. put_node env n (changed_node env st u) (ev st x))) (rest st))"
    unfolding update_body_def Let_def then_when_mod ev_def rest_def ..
  have ev: "R x (ev st x) \<and> w_plan (ev st x) = w_plan x" for st x
    unfolding ev_def status_event_def by (auto simp: emit_plan intro: R_emit R_refl)
  have "R s (put_node env n (changed_node env st u) (ev st t))" if req: "require_node_wf n s = (Inr st, t)" for s st t
  proof -
    obtain plan where "t = s" "w_plan s = Some plan" "dget (pl_nodes plan) n = Some st"
      using req by (auto simp: require_node_wf_def wf_simps split: option.splits)
    then show ?thesis using ev[of s st] R_node R_trans by metis
  qed
  moreover have "keeps R (rest st)" for st
    unfolding rest_def by (intro keeps_rules keeps_refresh_with keeps_sop_child assms)
  ultimately show ?thesis unfolding eq by (intro keeps_read keeps_require)
qed

lemma keeps_deep: "keeps R (update_deep k env n r u)"
  by (induction k arbitrary: n r u) (auto intro: keeps_rules keeps_body)

lemma keeps_update [keeps_rules]: "keeps R (update_node env n r u)"
  unfolding update_node_def by (rule keeps_deep)

lemma keeps_node_status [keeps_rules]: "keeps R (set_node_status env n st fr r)"
  unfolding set_node_status_def by (intro keeps_set_with keeps_rules)

lemma keeps_refresh [keeps_rules]: "keeps R (refresh_readiness env)"
  unfolding refresh_readiness_def by (intro keeps_refresh_with keeps_rules)

lemma gives_judge: "gives R (judge env c p) (\<lambda>out. okp (po_plan out))"
  using R_apply R_refl by (auto simp: gives_def judge_def wf_simps optW_def split: option.split sum.split)

lemma keeps_compact [keeps_rules]: "keeps R (compact_plan env f k)"
proof -
  have "R s (snd (compact_plan env f k s))" for s
  proof (cases "w_plan s")
    case (Some plan)
    have "R s (snd (compact_plan env f k s))" if "\<And>co. compact (e_px env) plan (dkeys (w_attempts s)) k = Some co \<Longrightarrow> okp (co_plan co)"
      using that Some by (auto simp: compact_plan_def wf_simps Let_def split: option.split intro!: R_refl R_emit evolves_field R_plan)
    then show ?thesis using R_compact[OF Some, of "dkeys (w_attempts s)" k] by blast
  qed (simp add: compact_plan_def wf_simps R_refl)
  then show ?thesis by (simp add: keeps_def)
qed

lemma keeps_unblock_node [keeps_rules]: "keeps R (unblock_node env r n)"
  unfolding unblock_node_def by (intro keeps_rules evolves_rules R_refl)

lemma keeps_unblock [keeps_rules]: "keeps R (unblock_nodes env ns r)"
  unfolding unblock_nodes_def by (intro keeps_rules)

lemma keeps_unblock_changed [keeps_rules]: "keeps R (unblock_changed env c)"
  unfolding unblock_changed_def by (intro keeps_rules)

lemma gives_judge_system: "gives R (judge_system env c) (\<lambda>out. okp (po_plan out))"
  unfolding judge_system_def by (intro gives_bind gives_judge keeps_rules)

lemmas judged = keeps_gives[OF gives_judge] keeps_gives[OF gives_judge_system] keeps_again[OF gives_judge] keeps_again[OF gives_judge_system]

lemma keeps_rebase [keeps_rules]: "keeps R (rebase m c)"
  unfolding rebase_def by (intro keeps_rules)

lemma keeps_follow_up_parts [keeps_rules]:
  "keeps R (follow_up_rejected env n r)" "okp (po_plan o1) \<Longrightarrow> keeps R (follow_up_accepted env n b c o1)"
  unfolding follow_up_rejected_def follow_up_accepted_def by (intro keeps_rules evolves_rules R_plan R_refl; assumption?)+

lemma keeps_follow_up [keeps_rules]: "keeps R (start_follow_up env m)"
  unfolding start_follow_up_def Let_def by (intro judged keeps_rules; assumption)

lemma keeps_retry_parts [keeps_rules]:
  "keeps R (max_attempts n)" "keeps R (block_node env n c w)" "keeps R (take_retry_input n)"
  "keeps R (reserve_for n sh p)"
  unfolding max_attempts_def block_node_def take_retry_input_def reserve_for_def by (intro keeps_rules evolves_rules R_refl)+

lemma keeps_retry [keeps_rules]: "keeps R (retry_or_block env n obj c r m)"
  unfolding retry_or_block_def Let_def by (intro keeps_rules evolves_rules R_refl) (simp add: mild_def identity_def)

lemma keeps_cancelled [keeps_rules]: "keeps R (attempt_cancelled env n obj)"
  unfolding attempt_cancelled_def Let_def by (intro keeps_rules evolves_rules R_refl)

lemma keeps_sop_parts [keeps_rules]:
  "keeps R (sop_unusable env n m r)" "okp (po_plan o1) \<Longrightarrow> keeps R (sop_accepted env n rf nm st b o1)"
  unfolding sop_unusable_def sop_accepted_def by (intro keeps_rules evolves_rules R_plan R_refl; assumption?)+

lemma keeps_add_sop [keeps_rules]: "keeps R (add_sop env n rf nm st)"
  unfolding add_sop_def by (intro judged keeps_rules evolves_rules R_refl; assumption)

lemma keeps_expand [keeps_rules]: "keeps R (expand_sop_loaded env n rf a)"
  unfolding expand_sop_loaded_def Let_def by (intro keeps_rules)

lemma keeps_node_approval [keeps_rules]:
  "keeps R (ask_node_approval env n)" "keeps R (settle_node_approval env a d)"
  unfolding ask_node_approval_def settle_node_approval_def Let_def by (intro keeps_rules evolves_rules R_refl)+

lemma keeps_leader_done [keeps_rules]: "keeps R (note_leader_done env n a)"
  unfolding note_leader_done_def Let_def by (intro keeps_rules evolves_rules R_refl)

lemma keeps_review_parts [keeps_rules]:
  "okp (po_plan o1) \<Longrightarrow> keeps R (review_accepted env e c o1)" "okp (po_plan o1) \<Longrightarrow> keeps R (mention_accepted env m tm ms c o1)"
  unfolding review_accepted_def mention_accepted_def Let_def by (intro keeps_rules evolves_rules R_plan R_refl; assumption?)+

lemma keeps_add_review [keeps_rules]: "keeps R (add_review env n e l mx)"
  unfolding add_review_def Let_def by (intro judged keeps_rules evolves_rules R_refl; assumption)

lemma keeps_open_review [keeps_rules]: "keeps R (open_review env p)"
  unfolding open_review_def Let_def by (intro keeps_rules evolves_rules R_refl)

lemma keeps_open_reviews [keeps_rules]: "keeps R (open_reviews env)"
  unfolding open_reviews_def by (intro keeps_rules)

lemma keeps_mention [keeps_rules]: "keeps R (mention_follow_ups env m)"
  unfolding mention_follow_ups_def Let_def by (intro judged keeps_rules evolves_rules R_refl; assumption)

section \<open>Completions\<close>

lemma keeps_settle_proposal [keeps_rules]: "keeps R (settle_proposal env n obj fs)"
  unfolding settle_proposal_def Let_def by (intro keeps_rules evolves_rules R_refl)

lemma keeps_mark_cancelled [keeps_rules]: "keeps R (mark_attempt_cancelled env n)"
  unfolding mark_attempt_cancelled_def Let_def by (intro keeps_rules evolves_rules R_refl)

lemma keeps_rejections [keeps_rules]: "keeps R (completion_rejections env sg obj)"
proof -
  have verdicts: "keeps R n0 \<Longrightarrow> keeps R a \<Longrightarrow> keeps R b \<Longrightarrow> keeps R c
      \<Longrightarrow> keeps R (case v of None \<Rightarrow> n0 | Some Verifying \<Rightarrow> a | Some Accepted \<Rightarrow> b | Some Rejected \<Rightarrow> c)" for R v and n0 a b c :: "report_next wf"
    by (auto split: option.split verdict.split)
  show ?thesis unfolding completion_rejections_def Let_def
    by (intro keeps_rules verdicts evolves_rules R_refl) (simp_all add: mild_def identity_def)
qed

lemma keeps_settle_node [keeps_rules]: "keeps R (settle_node env sg oc rj obj f)"
  unfolding settle_node_def Let_def by (intro keeps_rules evolves_rules R_refl)

lemma keeps_finish_settle [keeps_rules]: "keeps R (finish_settle env sg obj rj)"
  unfolding finish_settle_def Let_def by (intro keeps_rules evolves_rules R_refl)

lemma keeps_finish_judged [keeps_rules]: "keeps R (finish_judged env sg obj rj)"
  unfolding finish_judged_def Let_def by (intro keeps_rules)

lemma keeps_finish_report [keeps_rules]: "keeps R (finish_report env sg obj)"
  unfolding finish_report_def by (intro keeps_rules)

lemma keeps_finish [keeps_rules]: "keeps R (finish_attempt env sg obj)"
  unfolding finish_attempt_def by (intro keeps_rules evolves_rules R_refl) (simp_all add: mild_def identity_def)

lemma keeps_finish_verified [keeps_rules]: "keeps R (finish_verified env sg obj fs)"
  unfolding finish_verified_def Let_def by (intro keeps_rules evolves_rules R_refl)

section \<open>Attempts\<close>

lemma keeps_start_parts [keeps_rules]:
  "keeps R (take_messages env n)" "keeps R (take_switch env n)"
  unfolding take_messages_def take_switch_def by (intro keeps_rules evolves_rules R_refl)+

lemma keeps_prepare [keeps_rules]: "keeps R (prepare_child env n st rv)"
  unfolding prepare_child_def Let_def by (intro keeps_rules evolves_rules R_refl)

lemma keeps_start [keeps_rules]: "keeps R (start_attempt env n sh p)"
  unfolding start_attempt_def by (intro keeps_rules evolves_rules R_refl)

lemma keeps_waits [keeps_rules]: "keeps R (arm_wait_timer env n)" "keeps R (complete_wait env n)"
  unfolding arm_wait_timer_def complete_wait_def by (intro keeps_rules evolves_rules R_refl)+

lemma keeps_wait_timers [keeps_rules]:
  "keeps R (wait_timer_fired env n)" "keeps R (complete_after env n)" "keeps R (start_wait env n k tm)"
  unfolding wait_timer_fired_def complete_after_def start_wait_def by (intro keeps_rules evolves_rules R_refl)+

lemma keeps_waiting [keeps_rules]: "keeps R (start_waiting_node env n)"
  unfolding start_waiting_node_def by (intro keeps_rules)

lemma keeps_checkpoint [keeps_rules]: "keeps R (checkpoint_committed env n)"
  unfolding checkpoint_committed_def by (intro keeps_rules evolves_rules R_refl)

lemma keeps_schedule_node [keeps_rules]: "keeps R (schedule_node env b n)" "keeps R (schedule_by_id_node env p)"
  unfolding schedule_node_def schedule_by_id_node_def by (intro keeps_rules)+

lemma keeps_schedule [keeps_rules]: "keeps R (schedule_nodes env b ns)"
  by (induction ns) (auto intro!: keeps_rules)

lemma keeps_schedule_ready [keeps_rules]: "keeps R (schedule_ready env)" "keeps R (begin_schedule env)"
proof -
  show r: "keeps R (schedule_ready env)" unfolding schedule_ready_def by (intro keeps_rules)
  show "keeps R (begin_schedule env)" unfolding begin_schedule_def by (intro keeps_rules r)
qed

section \<open>Signals\<close>

lemma keeps_legacy [keeps_rules]: "keeps R (legacy_finished env sg obj)"
  unfolding legacy_finished_def Let_def by (intro keeps_rules evolves_rules R_refl) (simp_all add: mild_def identity_def)

lemma keeps_finished [keeps_rules]: "keeps R (attempt_finished env sg)"
  unfolding attempt_finished_def by (intro keeps_rules evolves_rules R_refl)

lemma keeps_parked [keeps_rules]: "keeps R (attempt_parked env pk)"
  unfolding attempt_parked_def by (intro keeps_rules evolves_rules R_refl) (simp_all add: mild_def identity_def)

lemma keeps_event [keeps_rules]: "keeps R (event_reaches env ee p)" "keeps R (external_event env ee)"
proof -
  show r: "keeps R (event_reaches env ee p)" for p
    unfolding event_reaches_def by (intro keeps_rules evolves_rules R_refl)
  show "keeps R (external_event env ee)" unfolding external_event_def by (intro keeps_rules evolves_rules R_refl r)
qed

lemma keeps_resume [keeps_rules]: "keeps R (resume_parked env a)"
  unfolding resume_parked_def by (intro keeps_rules evolves_rules R_refl) (simp_all add: mild_def identity_def)

lemma keeps_cancel_next [keeps_rules]: "keeps R (cancel_next env l q)"
proof (induction q)
  case (Cons p q)
  then show ?case by (cases p) (auto intro!: keeps_rules evolves_rules R_refl)
qed (auto intro: keeps_rules)

lemma keeps_await_cancelled [keeps_rules]: "keeps R (await_cancelled env n a)"
  unfolding await_cancelled_def by (intro keeps_rules)

lemma keeps_signal_answered [keeps_rules]: "keeps R (signal_answered env obj ok)"
  unfolding signal_answered_def by (intro keeps_rules evolves_rules R_refl) (simp_all add: mild_def identity_def)


lemma keeps_switch [keeps_rules]: "keeps R (apply_profile_switch env n t r i)"
  unfolding apply_profile_switch_def Let_def by (intro keeps_rules evolves_rules R_refl)


lemma keeps_resume_if [keeps_rules]: "keeps R (resume_if_decided env a)"
  unfolding resume_if_decided_def by (intro keeps_rules)


lemma keeps_drain [keeps_rules]:
  "keeps R (drain_message_rest env m)" "keeps R (drain_completion env p)"
  "keeps R (message_signalled env m obj ok)" "keeps R (proposal_verified env p o1 fs acc)"
  unfolding drain_message_rest_def drain_completion_def message_signalled_def proposal_verified_def Let_def
  by (intro keeps_rules evolves_rules R_refl; simp add: mild_def identity_def)+


lemma keeps_drain_message [keeps_rules]: "keeps R (drain_message env m)"
  unfolding drain_message_def by (intro keeps_rules)

end

text \<open>A relation that says nothing about the plan.\<close>

locale plan_free = wf_relation R for R :: "task \<Rightarrow> task \<Rightarrow> bool" +
  fixes env :: env
  assumes emit: "R s x \<Longrightarrow> R s (emit env et p x)"
    and quiet: "R s x \<Longrightarrow> quiet x y \<Longrightarrow> R s y"
    and mut: "R s x \<Longrightarrow> mild f \<Longrightarrow> R s (mut_attempt obj f x)"
    and pop: "R s x \<Longrightarrow> R s (pop_attempt n x)"
    and any_plan: "R s x \<Longrightarrow> R s (w_plan_update (\<lambda>_. Some plan) x)"

sublocale plan_free \<subseteq> task_relation R env "\<lambda>_. True"
  by unfold_locales (auto simp: put_node_def intro: emit quiet mut pop any_plan R_refl)

section \<open>Methods that answer a command\<close>

locale answer_relation = task_relation R env okp for R env okp +
  assumes R_remember: "R s x \<Longrightarrow> R s (remember env c r x)"
    and R_commands: "R s x \<Longrightarrow> R s (w_commands_update g x)"
begin

lemmas [evolves_rules] = R_remember R_commands

lemma evolves_requeue [evolves_rules]: "R s x \<Longrightarrow> R s (requeue_unsent env x)"
  unfolding requeue_unsent_def by (auto split: list.split intro!: evolves_rules)

lemma keeps_drain_next [keeps_rules]: "keeps R (drain_next_command env)"
proof -
  have "keeps R (case c of QMessage m \<Rightarrow> drain_message env m | QCompletion p \<Rightarrow> drain_completion env p)" for c
    by (cases c) (auto intro: keeps_rules)
  then show ?thesis unfolding drain_next_command_def by (intro keeps_rules evolves_rules R_refl)
qed

lemma keeps_submit_judged [keeps_rules]: "keeps R (submit_judged env c)"
  unfolding submit_judged_def by (intro judged keeps_rules evolves_rules R_plan R_refl; assumption)

lemma keeps_submit [keeps_rules]: "keeps R (submit_plan_change env c)"
  unfolding submit_plan_change_def Let_def by (intro keeps_rules evolves_rules R_plan R_initial R_refl)

lemma keeps_propose [keeps_rules]: "keeps R (propose_completion env rq)"
  unfolding propose_completion_def by (intro keeps_rules evolves_rules R_refl)



lemma keeps_answered [keeps_rules]: "keeps R (answered env c r)"
  unfolding answered_def by (intro keeps_rules evolves_rules R_refl)

lemma keeps_deduped [keeps_rules]: "keeps R b \<Longrightarrow> keeps R (deduped c b f)"
  unfolding deduped_def by (intro keeps_rules)

lemma keeps_send [keeps_rules]: "keeps R (send_message env rq)"
  unfolding send_message_def Let_def by (intro keeps_rules evolves_rules R_refl) simp

lemma keeps_decide [keeps_rules]: "keeps R (decide_approval env rq)" "keeps R (decision_signalled env a obj ok)"
  unfolding decide_approval_def decision_signalled_def Let_def by (intro keeps_rules evolves_rules R_refl)+

lemma keeps_control_apply [keeps_rules]: "keeps R (control_apply env rq)"
  unfolding control_apply_def Let_def by (intro keeps_rules evolves_rules R_refl)

lemma keeps_control_cancelling [keeps_rules]: "keeps R (control_cancelling env rq q)"
  unfolding control_cancelling_def by (intro keeps_rules)

lemma keeps_control [keeps_rules]: "keeps R (control env rq)"
  unfolding control_def by (intro keeps_rules)

lemma keeps_grant [keeps_rules]: "keeps R (grant_budget env rq)"
  unfolding grant_budget_def by (intro keeps_rules evolves_rules R_refl)

lemma keeps_request_switch [keeps_rules]: "keeps R (request_profile_switch env rq)"
  unfolding request_profile_switch_def Let_def by (intro keeps_rules evolves_rules R_refl)

lemma keeps_complete_node [keeps_rules]: "keeps R (complete_node env rq)"
  unfolding complete_node_def Let_def by (intro keeps_rules evolves_rules R_refl)

lemma keeps_config [keeps_rules]: "keeps R (update_task_config env rq)"
  unfolding update_task_config_def deduped_def Let_def keeps_def withW_def
  by (auto simp: bindW_def thenW_def modW_def answered_def ret_def intro!: evolves_rules R_refl split: option.split)


end

section \<open>Instances\<close>

lemma get_version_dset: "get_version (dset k v d) = (get_version d)(k := v)"
  by (rule ext) (simp add: get_version_def dict_simps)

lemma next_versions_replay:
  "get_version (next_versions env s et p key) = (get_version (w_entity_versions s))(key := get_version (next_versions env s et p key) key)"
  "get_version (w_entity_versions s) key < get_version (next_versions env s et p key) key"
  by (auto simp: next_versions_def get_version_dset Let_def fun_upd_def)
    (auto simp: get_version_def has_key_dget split: option.split)

lemma emitted_emit: "emitted env s (emit env et payload s)"
proof -
  obtain kind ident where e: "entity_of env s et payload = (kind, ident)" by force
  define vs where "vs = next_versions env s et payload (kind @ '':'' @ ident)"
  define ev where "ev = \<lparr>ev_event_id = event_id_of env (w_uuids s), ev_type = et, ev_entity_kind = kind, ev_entity_id = ident,
    ev_version = get_version vs (kind @ '':'' @ ident), ev_occurred_at = e_now env, ev_payload = payload\<rparr>"
  have eq: "emit env et payload s = s\<lparr>w_entity_versions := vs, w_events := w_events s @ [ev], w_uuids := w_uuids s + 1\<rparr>"
    by (simp add: emit_def e Let_def vs_def ev_def event_id_of_def)
  have "fresh (versions_of s) [ev] \<and> get_version vs = replay (versions_of s) [ev]"
    using next_versions_replay[where env = env and s = s and et = et and p = payload and key = "kind @ '':'' @ ident"]
    by (simp add: versions_of_def ev_def event_key_def vs_def)
  then show ?thesis unfolding emitted_def eq by (intro exI[of _ "[ev]"]) (simp add: versions_of_def ev_def)
qed

lemma evolves_emit: "evolves env s x \<Longrightarrow> evolves env s (emit env et p x)"
  by (erule evolves_trans) (simp add: evolves_def emitted_emit attempts_kept_def window_kept_def counters_kept_def emit_other)

lemma evolves_remember: "evolves env s x \<Longrightarrow> evolves env s (remember env c r x)"
  by (erule evolves_trans)
    (auto simp: evolves_def emitted_def attempts_kept_def window_kept_def counters_kept_def remember_def Let_def versions_of_def)

lemma evolves_mut:
  assumes "evolves env s x" "mild f"
  shows "evolves env s (mut_attempt obj f x)"
proof -
  have "attempts_kept x (mut_attempt obj f x)"
    using assms(2) by (auto simp: attempts_kept_def mut_attempt_def mild_def)
  then have "evolves env x (mut_attempt obj f x)"
    by (simp add: evolves_def emitted_def window_kept_def counters_kept_def mut_attempt_def versions_of_def)
  then show ?thesis by (rule evolves_trans[OF assms(1)])
qed

lemma evolves_pop: "evolves env s x \<Longrightarrow> evolves env s (pop_attempt node_id x)"
proof (erule evolves_trans)
  have "attempts_kept x (pop_attempt node_id x)"
    by (auto simp: attempts_kept_def pop_attempt_def dict_simps split: option.split if_splits)
  moreover have "w_events (pop_attempt node_id x) = w_events x" "w_entity_versions (pop_attempt node_id x) = w_entity_versions x"
      "w_uuids (pop_attempt node_id x) = w_uuids x" "w_dedup (pop_attempt node_id x) = w_dedup x" "w_plan (pop_attempt node_id x) = w_plan x"
      "w_next_message_seq (pop_attempt node_id x) = w_next_message_seq x" "w_objects (pop_attempt node_id x) = w_objects x"
      "w_config (pop_attempt node_id x) = w_config x" "w_stop (pop_attempt node_id x) = w_stop x"
    by (auto simp: pop_attempt_def split: option.split)
  ultimately show "evolves env x (pop_attempt node_id x)"
    by (simp add: evolves_def emitted_def window_kept_def counters_kept_def versions_of_def)
qed

lemma evolves_quiet: "evolves env s x \<Longrightarrow> quiet x y \<Longrightarrow> evolves env s y"
  by (erule evolves_trans)
    (auto simp: evolves_def quiet_def attempts_kept_def emitted_def window_kept_def versions_of_def)

lemma evolves_any_plan: "evolves env s x \<Longrightarrow> evolves env s (w_plan_update (\<lambda>_. Some plan) x)"
  and evolves_commands: "evolves env s x \<Longrightarrow> evolves env s (w_commands_update g x)"
  by (erule evolves_trans, simp add: evolves_def attempts_kept_def emitted_def window_kept_def versions_of_def counters_kept_def)+

interpretation ev: plan_free "evolves env" env for env
  by unfold_locales (rule evolves_refl evolves_trans evolves_emit evolves_quiet evolves_mut evolves_pop evolves_any_plan; assumption)+

interpretation ev: answer_relation "evolves env" env "\<lambda>_. True" for env
  by unfold_locales (rule evolves_remember evolves_commands; assumption)+

text \<open>The answers that are remembered stay as they are; the queue of commands stays as it is.\<close>

definition same_answers :: "task \<Rightarrow> task \<Rightarrow> bool" where
  "same_answers s t \<longleftrightarrow> w_dedup t = w_dedup s"

definition same_queue :: "task \<Rightarrow> task \<Rightarrow> bool" where
  "same_queue s t \<longleftrightarrow> w_commands t = w_commands s"

interpretation sa: plan_free same_answers env for env
  by unfold_locales (simp_all add: same_answers_def emit_other quiet_def mut_attempt_def pop_attempt_def split: option.split)

interpretation sq: plan_free same_queue env for env
  by unfold_locales (simp_all add: same_queue_def emit_other quiet_def mut_attempt_def pop_attempt_def split: option.split)

text \<open>Every item of the books, and every one taken out of them, is an object of its own.\<close>

definition objects_ok :: "task \<Rightarrow> bool" where
  "objects_ok s \<longleftrightarrow> distinct (map x_object (dvals (w_attempts s) @ w_detached s)) \<and> (\<forall>a\<in>set (dvals (w_attempts s) @ w_detached s). x_object a < w_objects s)"

definition objects_kept :: "task \<Rightarrow> task \<Rightarrow> bool" where
  "objects_kept s t \<longleftrightarrow> (objects_ok s \<longrightarrow> objects_ok t)"

lemma objects_mut: "mild f \<Longrightarrow> objects_ok x \<Longrightarrow> objects_ok (mut_attempt obj f x)"
proof -
  assume f: "mild f" and ok: "objects_ok x"
  let ?g = "\<lambda>a. if x_object a = obj then f a else a"
  have fo: "x_object (f a) = x_object a" for a using f by (auto simp: mild_def identity_def)
  then have g: "x_object (?g a) = x_object a" for a by simp
  have v: "dvals (w_attempts (mut_attempt obj f x)) @ w_detached (mut_attempt obj f x) = map ?g (dvals (w_attempts x) @ w_detached x)"
    by (simp add: mut_attempt_def dmap_def case_prod_beta)
  have o1: "map x_object (map ?g l) = map x_object l" for l using g by simp
  show ?thesis using ok unfolding objects_ok_def v o1 by (force simp: fo mut_attempt_def)
qed

lemma objects_pop:
  assumes "objects_ok x"
  shows "objects_ok (pop_attempt n x)"
proof (cases "dget (w_attempts x) n")
  case (Some a)
  have a: "(n, a) \<in> set (w_attempts x)" using Some by (rule map_of_SomeD)
  have inj: "inj_on (\<lambda>p. x_object (snd p)) (set (w_attempts x))" "distinct (map (\<lambda>p. x_object (snd p)) (w_attempts x))"
    using assms by (simp_all add: objects_ok_def distinct_map comp_def)
  have rest: "(k, b) \<in> set (dpop n (w_attempts x)) \<Longrightarrow> x_object b \<noteq> x_object a \<and> (k, b) \<in> set (w_attempts x)" for k b
    using inj_onD[OF inj(1) _ _ a, of "(k, b)"] by (auto simp: AList.delete_eq)
  have d: "distinct (map (\<lambda>p. x_object (snd p)) (dpop n (w_attempts x)))" using inj(2) by (simp add: AList.delete_eq distinct_map_filter)
  have det: "distinct (map x_object (w_detached x))" "(k, b) \<in> set (w_attempts x) \<Longrightarrow> c \<in> set (w_detached x) \<Longrightarrow> x_object b \<noteq> x_object c" for k b c
    using assms by (force simp: objects_ok_def)+
  have small: "(k, b) \<in> set (w_attempts x) \<Longrightarrow> x_object b < w_objects x" "c \<in> set (w_detached x) \<Longrightarrow> x_object c < w_objects x" for k b c
    using assms by (force simp: objects_ok_def)+
  have pop: "pop_attempt n x = x\<lparr>w_attempts := dpop n (w_attempts x), w_detached := w_detached x @ [a]\<rparr>"
    by (simp add: pop_attempt_def Some)
  have disj: "x_object b \<noteq> x_object c" if "(k, b) \<in> set (dpop n (w_attempts x))" "c \<in> set (w_detached x @ [a])" for k b c
    using that rest[OF that(1)] det(2) by auto
  have "distinct (map x_object (dvals (dpop n (w_attempts x)) @ w_detached x @ [a]))"
    using d det disj a by (auto simp: comp_def dest: rest)
  moreover have "x_object b < w_objects x" if "b \<in> set (dvals (dpop n (w_attempts x)) @ w_detached x @ [a])" for b
    using that small a by (auto dest: rest)
  ultimately show ?thesis unfolding objects_ok_def pop by simp
qed (simp add: pop_attempt_def assms)

lemma objects_same: "objects_ok s \<Longrightarrow> w_attempts t = w_attempts s \<Longrightarrow> w_detached t = w_detached s \<Longrightarrow> w_objects t = w_objects s \<Longrightarrow> objects_ok t"
  unfolding objects_ok_def by simp

lemma objects_keptI: "objects_kept s x \<Longrightarrow> (objects_ok x \<Longrightarrow> objects_ok y) \<Longrightarrow> objects_kept s y"
  by (simp add: objects_kept_def)

interpretation ob: plan_free objects_kept env for env
proof unfold_locales
  show "objects_kept s s" for s by (simp add: objects_kept_def)
  show "objects_kept s t \<Longrightarrow> objects_kept t u \<Longrightarrow> objects_kept s u" for s t u by (simp add: objects_kept_def)
  show "objects_kept s x \<Longrightarrow> objects_kept s (emit env et p x)" for s x et p
    by (erule objects_keptI, erule objects_same) (simp_all add: emit_other)
  show "objects_kept s x \<Longrightarrow> quiet x y \<Longrightarrow> objects_kept s y" for s x y
    by (erule objects_keptI, erule objects_same) (simp_all add: quiet_def)
  show "objects_kept s x \<Longrightarrow> mild f \<Longrightarrow> objects_kept s (mut_attempt obj f x)" for s x f obj
    by (erule objects_keptI) (rule objects_mut)
  show "objects_kept s x \<Longrightarrow> objects_kept s (pop_attempt n x)" for s x n
    by (erule objects_keptI) (rule objects_pop)
  show "objects_kept s x \<Longrightarrow> objects_kept s (w_plan_update (\<lambda>_. Some plan) x)" for s x plan
    by (erule objects_keptI, erule objects_same) simp_all
qed

interpretation ob: answer_relation objects_kept env "\<lambda>_. True" for env
proof unfold_locales
  show "objects_kept s x \<Longrightarrow> objects_kept s (remember env c r x)" for s x c r
    by (erule objects_keptI, erule objects_same) (simp_all add: remember_def Let_def)
  show "objects_kept s x \<Longrightarrow> objects_kept s (w_commands_update g x)" for s x g
    by (erule objects_keptI, erule objects_same) simp_all
qed

text \<open>No method but the start of a child puts an attempt into the books: they stay empty while \<open>run\<close> has not begun.\<close>

definition idle :: "task \<Rightarrow> bool" where
  "idle s \<longleftrightarrow> w_attempts s = [] \<and> w_detached s = []"

definition idle_kept :: "task \<Rightarrow> task \<Rightarrow> bool" where
  "idle_kept s t \<longleftrightarrow> (idle s \<longrightarrow> idle t)"

interpretation il: plan_free idle_kept env for env
  by unfold_locales (simp_all add: idle_kept_def idle_def emit_other quiet_def mut_attempt_def pop_attempt_def dmap_def split: option.split)

interpretation il: answer_relation idle_kept env "\<lambda>_. True" for env
  by unfold_locales (simp_all add: idle_kept_def idle_def remember_def Let_def)

end
