(* ===== verification/Task_Run.thy ===== *)
theory Task_Run
  imports Task_Keeps
begin

text \<open>
  What holds in every state of a run: the events given to \<open>publish_events\<close> are numbered upwards per entity, the dedup window is
  bounded, and the workspace has one writer. The invariants are shown by rule induction over \<open>reachable\<close>; a step either keeps
  \<open>evolves\<close>, or starts a child, or hands events out, or carries the state into the next run.
\<close>

section \<open>The start of a child\<close>

lemma keepsD: "keeps R m \<Longrightarrow> m s = (r, t) \<Longrightarrow> R s t"
  by (metis keeps_def snd_conv)

definition inserted :: "child_start \<Rightarrow> task \<Rightarrow> task" where
  "inserted c s = s\<lparr>w_attempts := dset (ai_node_id (cs_input c)) (new_attempt s c) (w_attempts s), w_objects := w_objects s + 1\<rparr>"

text \<open>The child a place waits for.\<close>

definition starting :: "place \<Rightarrow> child_start option" where
  "starting p = (case p of LAwait (AwaitChild c) b ns \<Rightarrow> Some c | LAwaitById (AwaitChild c) ms \<Rightarrow> Some c | _ \<Rightarrow> None)"

section \<open>What a step does\<close>

text \<open>What a step does to the task and to what is published: it moves, hands the events out, or ends the run.\<close>

definition loops :: "env \<Rightarrow> sys \<Rightarrow> sys \<Rightarrow> bool" where
  "loops env y z \<longleftrightarrow> loop_step env (s_place y) (s_task y) (s_place z) (s_task z) \<and> s_published z = s_published y"

definition moved :: "(task \<Rightarrow> task \<Rightarrow> bool) \<Rightarrow> sys \<Rightarrow> task \<Rightarrow> bool" where
  "moved R y t \<longleftrightarrow> R (s_task y) t \<or> (\<exists>c. starting (s_place y) = Some c \<and> R (inserted c (s_task y)) t)"

definition stays :: "(task \<Rightarrow> task \<Rightarrow> bool) \<Rightarrow> sys \<Rightarrow> sys \<Rightarrow> bool" where
  "stays R y z \<longleftrightarrow> R (s_task y) (s_task z) \<and> s_published z = s_published y"

definition hands_out :: "(task \<Rightarrow> task \<Rightarrow> bool) \<Rightarrow> sys \<Rightarrow> sys \<Rightarrow> bool" where
  "hands_out R y z \<longleftrightarrow> (\<exists>s. R (s_task y) s \<and> s_published z = s_published y @ w_events s
     \<and> R (s\<lparr>w_events := []\<rparr>) (s_task z) \<and> starting (s_place z) = None)"

definition carried_on :: "task \<Rightarrow> task \<Rightarrow> bool" where
  "carried_on s t \<longleftrightarrow> w_events t = w_events s \<and> w_attempts t = w_attempts s \<and> w_dedup t = w_dedup s \<and> w_plan t = w_plan s
     \<and> w_detached t = w_detached s \<and> w_objects t = w_objects s"

definition ends_run :: "(task \<Rightarrow> task \<Rightarrow> bool) \<Rightarrow> sys \<Rightarrow> sys \<Rightarrow> bool" where
  "ends_run R y z \<longleftrightarrow> (\<exists>s. R (s_task y) s \<and> is_over (s_place z) \<and> s_published z = s_published y \<and> carried_on s (s_task z))"

lemma carry_input_keeps:
  assumes "carry_input env s = (r, t)"
  shows "carried_on s t \<and> is_over (next_place r LContinued)"
proof -
  have b: "w_events (bound_state env s) = w_events s" "w_attempts (bound_state env s) = w_attempts s"
      "w_dedup (bound_state env s) = w_dedup s" "w_plan (bound_state env s) = w_plan s"
      "w_detached (bound_state env s) = w_detached s" "w_objects (bound_state env s) = w_objects s" for s
    by (auto simp: bound_state_def Let_def split: option.split)
  have over: "is_over (next_place r LContinued)" by (auto simp: next_place_def is_over_def split: sum.split)
  show ?thesis using assms over
    by (auto simp: carried_on_def carry_input_def wf_simps b optW_def ret_def raiseW_def split: option.splits)
qed

lemma starting_simps [simp]:
  "starting LHead = None" "starting LFlushed = None" "starting (LTail d) = None" "starting LLast = None" "starting (LDone v) = None"
  "starting (LFailed e) = None" "starting LStatus = None" "starting (LDrain b) = None"
  by (simp_all add: starting_def)

context answer_relation
begin

lemma attempt_started_evolves:
  assumes "attempt_started env c s = (r, t)"
  shows "R (inserted c s) t"
proof -
  define rest where "rest = thenW (update_node env (ai_node_id (cs_input c)) [] \<lparr>nu_status = Some RUNNING, nu_frozen = None,
       nu_current_attempt_id = Some (Some (ai_attempt_id (cs_input c))), nu_attempt_count = Some (ai_attempt_no (cs_input c))\<rparr>)
    (modW (\<lambda>s. emit env ''attempt.started''
       ([(''node_id'', VStr (ai_node_id (cs_input c))), (''attempt_id'', VStr (ai_attempt_id (cs_input c))), (''attempt_no'', VInt (int (ai_attempt_no (cs_input c)))),
         (''profile'', VStr (ai_profile (cs_input c))), (''config_version'', VInt (int (c_config_version (w_config s))))]
        @ (if cs_switched_from c = [] then [] else [(''switched_from'', VStr (cs_switched_from c))])
        @ (case cs_reserved c of None \<Rightarrow> [] | Some b \<Rightarrow> [(''budget_reserved'', VBudget b)])) s))"
  have "attempt_started env c s = rest (inserted c s)"
    by (simp add: attempt_started_def rest_def inserted_def thenW_run modW_run Let_def)
  moreover have "keeps R rest"
    unfolding rest_def by (intro keeps_then keeps_update keeps_mod R_emit R_refl)
  ultimately show ?thesis using assms keepsD by metis
qed

lemma awaited_done_cases:
  assumes "awaited_done env a loaded s = (r, t)"
  shows "(\<exists>c. a = AwaitChild c \<and> R (inserted c s) t) \<or> (\<forall>c. a \<noteq> AwaitChild c) \<and> R s t"
proof (cases a)
  case (AwaitSop n rf)
  then show ?thesis using assms keepsD[OF keeps_expand] by (simp add: awaited_done_def)
next
  case (AwaitChild c)
  then show ?thesis using assms attempt_started_evolves by (simp add: awaited_done_def)
next
  case (AwaitCheckpoint n pl)
  then show ?thesis using assms keepsD[OF keeps_checkpoint] by (simp add: awaited_done_def)
qed

lemma keeps_opening: "keeps R (thenW (open_reviews env) (begin_schedule env))"
  by (intro keeps_then keeps_open_reviews keeps_schedule_ready)

lemma loop_step_evolves:
  assumes "loop_step env p s q t"
  shows "R s t \<or> (\<exists>c. starting p = Some c \<and> R (inserted c s) t)"
  using assms
proof (cases rule: loop_step.cases)
  case (drain r b)
  then show ?thesis using keepsD[OF keeps_drain_next] by blast
next
  case (signalled m obj ok r b)
  then show ?thesis using keepsD[OF keeps_drain(3)] by blast
next
  case (verified p obj ck c accepted r b)
  then show ?thesis using keepsD[OF keeps_drain(4)] by blast
next
  case (opened r)
  then show ?thesis using keepsD[OF keeps_opening] by blast
next
  case (sched b ns r)
  then show ?thesis using keepsD[OF keeps_schedule] by blast
next
  case (awaited a loaded r b ns)
  then show ?thesis using awaited_done_cases[of a loaded s r t] by (auto simp: starting_def)
next
  case (by_id n r ns)
  then show ?thesis using keepsD[OF keeps_schedule_node(2)] by blast
next
  case (by_id_awaited a loaded r ns)
  then show ?thesis using awaited_done_cases[of a loaded s r t] by (auto simp: starting_def)
next
  case (flushed u t')
  then show ?thesis using keepsD[OF keeps_open_reviews] evolves_done by simp
next
  case (flushed_again u)
  then show ?thesis using keepsD[OF keeps_open_reviews] by simp
next
  case (flushed_open u)
  then show ?thesis using keepsD[OF keeps_open_reviews] by simp
next
  case (flushed_error e)
  then show ?thesis using keepsD[OF keeps_open_reviews] by simp
qed (simp_all add: R_refl)

lemma stays_same_place:
  assumes "keeps R m" "m (s_task y) = (r, t)"
  shows "stays R y (y\<lparr>s_task := t\<rparr>)" "stays R y (y\<lparr>s_task := t, s_pending := ps\<rparr>)"
  using keepsD[OF assms] by (auto simp: stays_def)

lemma stays_evolves: "R (s_task y) t \<Longrightarrow> stays R y (y\<lparr>s_task := t\<rparr>)"
  "R (s_task y) t \<Longrightarrow> stays R y (y\<lparr>s_task := t, s_pending := ps\<rparr>)"
  by (auto simp: stays_def)

lemma flush_hands_out:
  assumes "flush_events s = (evs, t)" "R (s_task y) s" "R t u" "starting p = None"
  shows "hands_out R y (y\<lparr>s_place := p, s_task := u, s_published := s_published y @ evs\<rparr>)"
  using assms by (auto simp: hands_out_def flush_events_def)

lemma loops_moved: "loops env y z \<Longrightarrow> moved R y (s_task z)"
  using loop_step_evolves[of "s_place y" "s_task y" "s_place z" "s_task z"] by (simp add: loops_def moved_def)

lemma handler_step:
  assumes "sys_step env y z"
  shows "loops env y z \<or> stays R y z \<or> hands_out R y z \<or> ends_run R y z"
  using assms
proof (cases rule: sys_step.cases)
  case (status s evs t)
  then show ?thesis using flush_hands_out[of s evs t y t LFlushed] evolves_loop_status R_refl by auto
next
  case (completed evs t)
  then show ?thesis using flush_hands_out[of _ evs t y "requeue_unsent env t" "LTail True"] evolves_requeue R_refl by auto
next
  case (handlers_old r t)
  then show ?thesis using carry_input_keeps[of env "s_task y" r t] by (auto simp: ends_run_def intro: R_refl)
next
  case (last_flush r s evs t)
  have "starting (next_place r (\<lambda>_. LLast)) = None" by (auto simp: next_place_def split: sum.split)
  then show ?thesis using last_flush flush_hands_out[of s evs t y t] keepsD[OF keeps_compact] R_refl by blast
next
  case (last_out b s r t)
  then have "R (s_task y) s" using keepsD[OF keeps_compact] by blast
  then have "ends_run R y z" using last_out carry_input_keeps[of env s r t] unfolding ends_run_def by (intro exI[of _ s]) simp
  then show ?thesis by blast
next
  case (finish evs t)
  then show ?thesis using flush_hands_out[of _ evs t y t] R_refl starting_simps by blast
next
  case (finish_open evs t)
  then show ?thesis using flush_hands_out[of _ evs t y t] R_refl starting_simps by blast
next
  case (loop p t)
  show ?thesis unfolding loop(1) using loop(2) by (simp add: loops_def)
next
  case (send req r t)
  show ?thesis unfolding send(1) by (rule disjI2[OF disjI1[OF stays_same_place(2)[OF keeps_send send(3)]]])
next
  case (propose pr r t)
  show ?thesis unfolding propose(1) by (rule disjI2[OF disjI1[OF stays_same_place(1)[OF keeps_propose propose(2)]]])
next
  case (submit c r t)
  show ?thesis unfolding submit(1) by (rule disjI2[OF disjI1[OF stays_same_place(2)[OF keeps_submit submit(2)]]])
next
  case (decide da r t)
  show ?thesis unfolding decide(1) by (rule disjI2[OF disjI1[OF stays_same_place(2)[OF keeps_decide(1) decide(2)]]])
next
  case (control tc r t)
  show ?thesis unfolding control(1) by (rule disjI2[OF disjI1[OF stays_same_place(2)[OF keeps_control control(2)]]])
next
  case (grant gb r t)
  show ?thesis unfolding grant(1) by (rule disjI2[OF disjI1[OF stays_same_place(1)[OF keeps_grant grant(2)]]])
next
  case (switch rp r t)
  show ?thesis unfolding switch(1) by (rule disjI2[OF disjI1[OF stays_same_place(1)[OF keeps_request_switch switch(2)]]])
next
  case (complete cn s r t)
  show ?thesis unfolding complete(1) by (rule disjI2[OF disjI1[OF stays_same_place(1)[OF keeps_complete_node complete(3)]]])
next
  case (config uc r t)
  show ?thesis unfolding config(1) by (rule disjI2[OF disjI1[OF stays_same_place(1)[OF keeps_config config(3)]]])
next
  case (finished sig r t)
  show ?thesis unfolding finished(1) by (rule disjI2[OF disjI1[OF stays_same_place(2)[OF keeps_finished finished(2)]]])
next
  case (parked pk r t)
  show ?thesis unfolding parked(1) by (rule disjI2[OF disjI1[OF stays_same_place(1)[OF keeps_parked parked(2)]]])
next
  case (event ee r t)
  show ?thesis unfolding event(1) by (rule disjI2[OF disjI1[OF stays_same_place(1)[OF keeps_event(2) event(2)]]])
next
  case (wait_timer n d r t)
  show ?thesis unfolding wait_timer(1) by (rule disjI2[OF disjI1[OF stays_same_place(1)[OF keeps_wait_timers(1) wait_timer(3)]]])
next
  case (cancel_timer n a d r t)
  show ?thesis unfolding cancel_timer(1) by (rule disjI2[OF disjI1[OF stays_same_place(1)[OF keeps_await_cancelled cancel_timer(3)]]])
next
  case (old_wait n r t)
  show ?thesis unfolding old_wait(1) by (rule disjI2[OF disjI1[OF stays_same_place(1)[OF keeps_wait_timers(2) old_wait(2)]]])
next
  case (old_cancel n r t)
  show ?thesis unfolding old_cancel(1) by (rule disjI2[OF disjI1[OF stays_same_place(1)[OF keeps_await_cancelled old_cancel(3)]]])
next
  case (verdict ps sig obj qs r t)
  show ?thesis unfolding verdict(1) by (rule disjI2[OF disjI1[OF stays_same_place(2)[OF keeps_finish_report verdict(4)]]])
next
  case (checks ps sig obj c qs ck r t)
  show ?thesis unfolding checks(1) by (rule disjI2[OF disjI1[OF stays_same_place(2)[OF keeps_finish_verified checks(3)]]])
next
  case (interrupt ps q qs r t)
  show ?thesis unfolding interrupt(1) by (rule disjI2[OF disjI1[OF stays_same_place(2)[OF keeps_cancel_next interrupt(3)]]])
next
  case (control_next ps tc q qs r t)
  show ?thesis unfolding control_next(1) by (rule disjI2[OF disjI1[OF stays_same_place(2)[OF keeps_control_cancelling control_next(3)]]])
next
  case (decision ps i obj qs ok r t)
  show ?thesis unfolding decision(1) by (rule disjI2[OF disjI1[OF stays_same_place(2)[OF keeps_decide(2) decision(3)]]])
next
  case (submitted ps c qs r t)
  show ?thesis unfolding submitted(1) by (rule disjI2[OF disjI1[OF stays_same_place(2)[OF keeps_submit_judged submitted(4)]]])
next
  case (decided ad)
  show ?thesis unfolding decided(1) by (rule disjI2[OF disjI1[OF stays_evolves(1)[OF evolves_decided[OF R_refl]]]])
next
  case (delivered ms)
  show ?thesis unfolding delivered(1) by (rule disjI2[OF disjI1[OF stays_evolves(1)[OF evolves_deliver[OF R_refl]]]])
next
  case (interrupt_wait ps n obj q qs)
  show ?thesis unfolding interrupt_wait(1) by (rule disjI2[OF disjI1[OF stays_evolves(2)[OF evolves_fallback[OF R_refl]]]])
next
  case (control_wait ps tc n obj q qs)
  show ?thesis unfolding control_wait(1) by (rule disjI2[OF disjI1[OF stays_evolves(2)[OF evolves_fallback[OF R_refl]]]])
qed (auto simp: stays_def intro: R_refl)

end

section \<open>What holds of every part, the start of a child too\<close>

definition progresses :: "env \<Rightarrow> task \<Rightarrow> task \<Rightarrow> bool" where
  "progresses env s t \<longleftrightarrow> emitted env s t \<and> window_kept env s t \<and> counters_kept s t"

lemma evolves_progresses: "evolves env s t \<Longrightarrow> progresses env s t"
  by (simp add: evolves_def progresses_def)

lemma inserted_progresses: "progresses env s (inserted c s)"
  by (auto simp: progresses_def inserted_def emitted_def window_kept_def counters_kept_def versions_of_def)

lemma progresses_trans: "progresses env s t \<Longrightarrow> progresses env t u \<Longrightarrow> progresses env s u"
  unfolding progresses_def using emitted_trans[of env s t u] by (auto simp: window_kept_def counters_kept_def)

section \<open>The event log of a run\<close>

definition carried_versions :: "task_input \<Rightarrow> string \<Rightarrow> nat" where
  "carried_versions inp = (case ti_carry inp of None \<Rightarrow> (\<lambda>_. 0) | Some c \<Rightarrow> get_version (ca_entity_versions c))"

text \<open>The events \<open>old\<close> were made before the versions were read from the carry; those after them are numbered from \<open>v0\<close> on.\<close>

definition numbered :: "env \<Rightarrow> event list \<Rightarrow> (string \<Rightarrow> nat) \<Rightarrow> event list \<Rightarrow> bool" where
  "numbered e0 old v0 evs \<longleftrightarrow> (\<exists>new. evs = old @ new \<and> fresh v0 new) \<and> map ev_event_id evs = map (event_id_of e0) [0..<length evs]"

definition log_inv :: "env \<Rightarrow> event list \<Rightarrow> (string \<Rightarrow> nat) \<Rightarrow> event list \<Rightarrow> task \<Rightarrow> bool" where
  "log_inv e0 old v0 pub s \<longleftrightarrow> (\<exists>new. pub @ w_events s = old @ new \<and> fresh v0 new \<and> versions_of s = replay v0 new)
     \<and> map ev_event_id (pub @ w_events s) = map (event_id_of e0) [0..<length (pub @ w_events s)] \<and> w_uuids s = length (pub @ w_events s)"

lemma log_numbered: "log_inv e0 old v0 pub s \<Longrightarrow> numbered e0 old v0 (pub @ w_events s)"
  unfolding log_inv_def numbered_def by blast

lemma same_run_ids: "same_run e0 env \<Longrightarrow> event_id_of env = event_id_of e0"
  by (rule ext) (simp add: same_run_def event_id_of_def)

lemma upt_split: "a \<le> b \<Longrightarrow> [0..<b] = [0..<a] @ [a..<b]" for a b :: nat
  by (metis le_add_diff_inverse upt_add_eq_append zero_le)

lemma log_emitted:
  assumes "log_inv e0 old v0 pub s" "emitted env s t" "same_run e0 env"
  shows "log_inv e0 old v0 pub t"
proof -
  obtain new where n: "w_events t = w_events s @ new" "fresh (versions_of s) new" "versions_of t = replay (versions_of s) new"
      "w_uuids t = w_uuids s + length new" "map ev_event_id new = map (event_id_of e0) [w_uuids s..<w_uuids t]"
    using assms(2) same_run_ids[OF assms(3)] unfolding emitted_def by auto
  have l: "w_uuids s = length (pub @ w_events s)" using assms(1) by (simp add: log_inv_def)
  have "[0..<length (pub @ w_events t)] = [0..<w_uuids s] @ [w_uuids s..<w_uuids t]"
    using upt_split[of "w_uuids s" "w_uuids t"] n(1,4) l by (simp add: add.assoc)
  then have ids: "map ev_event_id (pub @ w_events t) = map (event_id_of e0) [0..<length (pub @ w_events t)] \<and> w_uuids t = length (pub @ w_events t)"
    using assms(1) n(1,4,5) l unfolding log_inv_def by (simp flip: append_assoc)
  obtain made where "pub @ w_events s = old @ made" "fresh v0 made" "versions_of s = replay v0 made" using assms(1) by (auto simp: log_inv_def)
  then have "pub @ w_events t = old @ (made @ new) \<and> fresh v0 (made @ new) \<and> versions_of t = replay v0 (made @ new)"
    using n(1-3) by (simp add: fresh_append replay_append flip: append_assoc)
  then show ?thesis using ids unfolding log_inv_def by blast
qed

lemma log_cong:
  "log_inv e0 old v0 pub s \<Longrightarrow> w_events t = w_events s \<Longrightarrow> w_entity_versions t = w_entity_versions s \<Longrightarrow> w_uuids t = w_uuids s \<Longrightarrow> log_inv e0 old v0 pub t"
  by (simp add: log_inv_def versions_of_def)

lemma log_moved:
  assumes "log_inv e0 old v0 (s_published y) (s_task y)" "moved (evolves env) y t" "same_run e0 env"
  shows "log_inv e0 old v0 (s_published y) t"
proof -
  have ins: "log_inv e0 old v0 (s_published y) (inserted c (s_task y))" for c
    by (rule log_cong[OF assms(1)]) (simp_all add: inserted_def)
  show ?thesis using assms ins unfolding moved_def evolves_def by (auto intro: log_emitted)
qed

lemma log_hands_out:
  assumes "log_inv e0 old v0 (s_published y) (s_task y)" "hands_out (evolves env) y z" "same_run e0 env"
  shows "log_inv e0 old v0 (s_published z) (s_task z)"
proof -
  obtain s where s: "evolves env (s_task y) s" "s_published z = s_published y @ w_events s" "evolves env (s\<lparr>w_events := []\<rparr>) (s_task z)"
    using assms(2) unfolding hands_out_def by blast
  have "log_inv e0 old v0 (s_published y) s" using log_emitted[OF assms(1) _ assms(3)] s(1) by (simp add: evolves_def)
  then have "log_inv e0 old v0 (s_published z) (s\<lparr>w_events := []\<rparr>)" by (simp add: log_inv_def s(2) versions_of_def)
  then show ?thesis using log_emitted[OF _ _ assms(3)] s(3) by (auto simp: evolves_def)
qed

lemma load_start:
  assumes "load env inp s = (Inr (), t)"
  shows "w_events t = w_events s \<and> w_uuids t = w_uuids s
    \<and> versions_of t = (case ti_carry inp of None \<Rightarrow> versions_of s | Some c \<Rightarrow> carried_versions inp)
    \<and> w_attempts t = (case ti_carry inp of None \<Rightarrow> w_attempts s | Some c \<Rightarrow> fresh_objects (ca_attempts c))
    \<and> (ti_carry inp \<noteq> None \<longrightarrow> w_objects t = length (w_attempts t)) \<and> w_detached t = w_detached s
    \<and> w_dedup t = (case ti_carry inp of None \<Rightarrow> w_dedup s | Some c \<Rightarrow> with_answers (ca_dedup c) (w_dedup s))"
  using assms by (cases "ti_carry inp")
    (auto simp: load_def wf_simps carried_versions_def versions_of_def fresh_objects_def split: sum.splits)

context answer_relation
begin

lemma keeps_rearm: "keeps R (rearm_after_load env)"
  unfolding rearm_after_load_def rearm_deadline_def by (intro keeps_intros keeps_cases keeps_waits keeps_mod R_refl evolves_field evolves_fallback)

lemma evolves_make_plan: "R s (make_plan env inp s)"
  by (auto simp: make_plan_def intro!: R_refl R_emit R_plan R_initial)

text \<open>\<open>run\<close> after \<open>_load\<close>.\<close>

lemma run_start_evolves:
  assumes "run_start env inp s0 = (Inr (), t)"
  obtains s where "load env inp s0 = (Inr (), s)" "R s t"
proof -
  define rest where "rest = thenW (whenW (ti_carry inp \<noteq> None) (rearm_after_load env))
     (thenW (whenW (ti_carry inp = None) (modW (\<lambda>s. s\<lparr>w_status := TS_PLANNING\<rparr>)))
     (thenW (modW (make_plan env inp))
     (withW (\<lambda>self. whenW (ti_carry inp = None \<or> w_status self \<in> {TS_CREATED, TS_PLANNING, TS_RUNNING})
       (modW (set_status env TS_RUNNING ''started''))))))"
  have eq: "run_start env inp = thenW (load env inp) rest" by (simp add: run_start_def rest_def)
  have k: "keeps R rest"
    unfolding rest_def by (intro keeps_intros keeps_rearm keeps_mod evolves_make_plan R_refl evolves_field evolves_status)
  obtain r s where l: "load env inp s0 = (r, s)" by force
  then show thesis using assms that[of s] keepsD[OF k, of s] unfolding eq by (cases r) (auto simp: wf_simps)
qed

lemma step_keeps:
  assumes "sys_step env y z" "\<And>s c. R s (inserted c s)" "\<And>s. R s (s\<lparr>w_events := []\<rparr>)" "\<And>s t. carried_on s t \<Longrightarrow> R s t"
  shows "R (s_task y) (s_task z)"
  using handler_step[OF assms(1)]
proof (elim disjE)
  assume "loops env y z"
  then show ?thesis using loops_moved[of y z] R_trans[OF assms(2)] unfolding moved_def by blast
next
  assume "hands_out R y z"
  then show ?thesis using R_trans assms(3) unfolding hands_out_def by meson
next
  assume "ends_run R y z"
  then show ?thesis using R_trans assms(4) unfolding ends_run_def by meson
qed (simp add: stays_def)

end

lemma run_invariant:
  assumes "reachable e0 inp y"
    and "\<And>env y0 t. early e0 y0 \<Longrightarrow> same_run e0 env \<Longrightarrow> run_start env inp (s_task y0) = (Inr (), t) \<Longrightarrow> I t"
    and "\<And>env y z. sys_step env y z \<Longrightarrow> I (s_task y) \<Longrightarrow> I (s_task z)"
  shows "I (s_task y)"
  using assms(1) by (induction rule: reachable_induct) (auto simp: started_from_def intro: assms(2,3))

lemma log_step:
  assumes "log_inv e0 old v0 (s_published y) (s_task y)" "same_run e0 env" "sys_step env y z"
  shows "numbered e0 old v0 (s_published z @ w_events (s_task z))
    \<and> (\<not> is_over (s_place z) \<longrightarrow> log_inv e0 old v0 (s_published z) (s_task z))"
proof -
  have moves: "loops env y z \<or> stays (evolves env) y z \<Longrightarrow> moved (evolves env) y (s_task z) \<and> s_published z = s_published y"
    using ev.loops_moved by (auto simp: loops_def stays_def moved_def)
  consider "loops env y z \<or> stays (evolves env) y z" | "hands_out (evolves env) y z" | "ends_run (evolves env) y z" using ev.handler_step[OF assms(3)] by blast
  then show ?thesis
  proof cases
    case 1
    then have "log_inv e0 old v0 (s_published z) (s_task z)" using log_moved[OF assms(1) _ assms(2)] moves by simp
    then show ?thesis by (simp add: log_numbered)
  next
    case 2
    then have "log_inv e0 old v0 (s_published z) (s_task z)" using log_hands_out[OF assms(1) _ assms(2)] by simp
    then show ?thesis by (simp add: log_numbered)
  next
    case 3
    then obtain s where s: "evolves env (s_task y) s" "is_over (s_place z)" "s_published z = s_published y" "w_events (s_task z) = w_events s"
      unfolding ends_run_def carried_on_def by blast
    then have "log_inv e0 old v0 (s_published y) s" using log_emitted[OF assms(1) _ assms(2)] by (simp add: evolves_def)
    then show ?thesis using s log_numbered[of e0 old v0 "s_published y" s] by simp
  qed
qed

lemma early_log: "early e0 y \<Longrightarrow> log_inv e0 [] (\<lambda>_. 0) [] (s_task y)"
proof (induction rule: early.induct)
  case new
  show ?case by (simp add: log_inv_def new_sys_def init_task_def versions_of_def get_version_def fun_eq_iff)
next
  case (step y env z)
  have z: "s_place z = LBefore" "s_published z = []" "s_published y = []" using early_place step early.step by blast+
  then show ?case using log_step[OF _ step(2,3), of "[]" "\<lambda>_. 0"] step.IH by (simp add: is_over_def)
qed

text \<open>The events of the handlers before \<open>run\<close> whose versions the carry replaces.\<close>

definition early_events :: "task_input \<Rightarrow> sys \<Rightarrow> event list" where
  "early_events inp y0 = (case ti_carry inp of None \<Rightarrow> [] | Some c \<Rightarrow> w_events (s_task y0))"

lemma start_log:
  assumes "early e0 y0" "started_from env y0 inp y" "same_run e0 env"
  shows "log_inv e0 (early_events inp y0) (carried_versions inp) (s_published y) (s_task y)"
proof -
  obtain t where t: "run_start env inp (s_task y0) = (Inr (), t)" "s_task y = t" "s_published y = []"
    using assms(1,2) early_place by (auto simp: started_from_def)
  obtain s where s: "load env inp (s_task y0) = (Inr (), s)" "evolves env s t" using ev.run_start_evolves[OF t(1)] by blast
  have "log_inv e0 (early_events inp y0) (carried_versions inp) [] s"
    using load_start[OF s(1)] early_log[OF assms(1)] by (cases "ti_carry inp") (auto simp: log_inv_def early_events_def carried_versions_def)
  then show ?thesis using log_emitted[OF _ _ assms(3)] s(2) t by (simp add: evolves_def)
qed

lemma reachable_log:
  assumes "early e0 y0" "reachable_from e0 y0 inp y"
  shows "numbered e0 (early_events inp y0) (carried_versions inp) (s_published y @ w_events (s_task y))
    \<and> (\<not> is_over (s_place y) \<longrightarrow> log_inv e0 (early_events inp y0) (carried_versions inp) (s_published y) (s_task y))"
  using assms(2)
proof induction
  case (start env y)
  then show ?case using start_log[OF assms(1)] log_numbered by blast
next
  case (step y env z)
  then show ?case using log_step[OF _ step.hyps(3,4)] by blast
qed

section \<open>One writer\<close>

definition writes :: "attempt \<Rightarrow> bool" where
  "writes a \<longleftrightarrow> x_workspace_access a = WriteAccess"

definition one_writer :: "task \<Rightarrow> bool" where
  "one_writer s \<longleftrightarrow> (\<forall>j k a b. dget (w_attempts s) j = Some a \<longrightarrow> dget (w_attempts s) k = Some b \<longrightarrow> writes a \<longrightarrow> writes b \<longrightarrow> j = k)"

definition no_writer :: "task \<Rightarrow> bool" where
  "no_writer s \<longleftrightarrow> (\<forall>k a. dget (w_attempts s) k = Some a \<longrightarrow> \<not> writes a)"

definition child_writes :: "child_start \<Rightarrow> bool" where
  "child_writes c \<longleftrightarrow> ai_workspace_access (cs_input c) = WriteAccess"

definition writer_inv :: "place \<Rightarrow> task \<Rightarrow> bool" where
  "writer_inv p s \<longleftrightarrow> one_writer s \<and> (\<forall>c. starting p = Some c \<longrightarrow> child_writes c \<longrightarrow> no_writer s)"

lemma kept_access: "attempts_kept s t \<Longrightarrow> dget (w_attempts t) k = Some b \<Longrightarrow> \<exists>a. dget (w_attempts s) k = Some a \<and> writes a = writes b"
  unfolding attempts_kept_def identity_def writes_def by (metis prod.inject)

lemma one_writer_kept: "one_writer s \<Longrightarrow> evolves env s t \<Longrightarrow> one_writer t"
  unfolding one_writer_def evolves_def using kept_access by metis

lemma no_writer_kept: "no_writer s \<Longrightarrow> evolves env s t \<Longrightarrow> no_writer t"
  unfolding no_writer_def evolves_def using kept_access by metis

lemma one_writer_inserted:
  assumes "one_writer s" "child_writes c \<Longrightarrow> no_writer s"
  shows "one_writer (inserted c s)"
  using assms by (cases "child_writes c")
    (auto simp: one_writer_def no_writer_def inserted_def dict_simps writes_def child_writes_def new_attempt_def Let_def split: if_splits)

lemma not_busy: "\<not> write_busy s \<Longrightarrow> no_writer s"
  by (auto simp: write_busy_def no_writer_def writes_def list_ex_iff dest!: map_of_SomeD)

lemma bindW_Inr: "bindW m f s = (Inr x, t) \<longleftrightarrow> (\<exists>y u. m s = (Inr y, u) \<and> f y u = (Inr x, t))"
  by (auto simp: bindW_def split: prod.splits sum.splits)

lemma thenW_Inr: "thenW m n s = (Inr x, t) \<longleftrightarrow> (\<exists>y u. m s = (Inr y, u) \<and> n u = (Inr x, t))"
  by (simp add: thenW_def bindW_Inr)

lemma prepare_child_access:
  assumes "prepare_child env n st rv s = (Inr c, t)"
  shows "ai_workspace_access (cs_input c) = upd (d_workspace_access (ns_draft st)) NoAccess" "ai_node_id (cs_input c) = n"
  using assms by (auto simp: prepare_child_def Let_def bindW_Inr thenW_Inr withW_run ret_run modW_run split: prod.splits)

lemma require_node_run: "require_node_wf n s = (Inr st, t) \<Longrightarrow> t = s \<and> (\<exists>plan. w_plan s = Some plan \<and> dget (pl_nodes plan) n = Some st)"
  by (auto simp: require_node_wf_def wf_simps split: option.splits)

lemma start_attempt_access:
  assumes "start_attempt env n sh p s = (Inr (Some c), t)"
  shows "\<exists>plan st. w_plan s = Some plan \<and> dget (pl_nodes plan) n = Some st
    \<and> ai_workspace_access (cs_input c) = upd (d_workspace_access (ns_draft st)) NoAccess \<and> ai_node_id (cs_input c) = n"
proof -
  define go where "go st = (if \<not> e_patched env BUDGET_ENFORCEMENT
       then bindW (prepare_child env n st None) (\<lambda>c. ret (Some c))
       else bindW (reserve_for n sh p) (\<lambda>answer. case answer of
           Inl why \<Rightarrow> thenW (modW (hold_for_budget env n why)) (ret None)
         | Inr reserved \<Rightarrow> bindW (prepare_child env n st (if reserved = no_budget then None else Some reserved)) (\<lambda>c. ret (Some c))))" for st
  have "bindW (require_node_wf n) go s = (Inr (Some c), t)" using assms unfolding start_attempt_def go_def .
  then obtain st u where "require_node_wf n s = (Inr st, u)" "go st u = (Inr (Some c), t)" unfolding bindW_Inr by blast
  then have st: "require_node_wf n s = (Inr st, s)" and run: "go st s = (Inr (Some c), t)" using require_node_run by blast+
  have "\<exists>rv u. prepare_child env n st rv u = (Inr c, t)"
  proof (cases "e_patched env BUDGET_ENFORCEMENT")
    case True
    then obtain answer u where a: "(case answer of
           Inl why \<Rightarrow> thenW (modW (hold_for_budget env n why)) (ret None)
         | Inr reserved \<Rightarrow> bindW (prepare_child env n st (if reserved = no_budget then None else Some reserved)) (\<lambda>c. ret (Some c))) u
      = (Inr (Some c), t)" using run by (auto simp: go_def bindW_Inr)
    then show ?thesis by (cases answer) (auto simp: bindW_Inr thenW_Inr ret_run)
  qed (use run in \<open>auto simp: go_def bindW_Inr ret_run\<close>)
  then show ?thesis using prepare_child_access require_node_run[OF st] by metis
qed

lemma schedule_node_writer:
  assumes "schedule_node env b n s = (Inr (Wait_for (AwaitChild c)), t)" "child_writes c"
  shows "no_writer t"
proof -
  have ev: "evolves env s t" using keepsD[OF ev.keeps_schedule_node(1) assms(1)] .
  obtain plan st where st: "w_plan s = Some plan" "dget (pl_nodes plan) n = Some st"
    using assms(1) by (auto simp: schedule_node_def wf_simps split: if_splits option.splits)
  have waiting: "start_waiting_node env n s \<noteq> (Inr (Some (AwaitChild c)), t)"
    by (auto simp: start_waiting_node_def bindW_Inr thenW_Inr ret_run getW_run split: node_spec.splits)
  have run: "\<not> (d_workspace_access (ns_draft st) = Some WriteAccess \<and> write_busy s)
      \<and> start_attempt env n (bt_share b) (bt_pool b) s = (Inr (Some c), t)"
  proof (cases "d_type (ns_draft st) = SopStage \<and> e_patched env SOP_EXPANSION \<or> d_type (ns_draft st) \<notin> set agent_types")
    case True
    then show ?thesis using assms(1) st waiting
      by (auto simp: schedule_node_def wf_simps(5) bindW_Inr ret_run split: if_splits option.splits)
  next
    case False
    then show ?thesis using assms(1) st
      by (auto simp: schedule_node_def wf_simps(5) bindW_Inr ret_run split: if_splits option.splits)
  qed
  then have "d_workspace_access (ns_draft st) = Some WriteAccess"
    using start_attempt_access[of env n "bt_share b" "bt_pool b" s c t] assms(2) st by (auto simp: child_writes_def upd_def split: option.splits)
  then show ?thesis using run not_busy no_writer_kept[OF _ ev] by blast
qed

lemma schedule_nodes_writer:
  "schedule_nodes env b ns s = (Inr (Some (AwaitChild c, rest)), t) \<Longrightarrow> child_writes c \<Longrightarrow> no_writer t"
proof (induction ns arbitrary: s)
  case (Cons n ns)
  obtain y u where y: "schedule_node env b n s = (Inr y, u)"
      "(case y of Go \<Rightarrow> schedule_nodes env b ns | Break \<Rightarrow> ret None | Wait_for a \<Rightarrow> ret (Some (a, ns))) u = (Inr (Some (AwaitChild c, rest)), t)"
    using Cons.prems(1) by (auto simp: bindW_Inr)
  then show ?case using Cons.IH[OF _ Cons.prems(2)] schedule_node_writer[OF _ Cons.prems(2)] by (cases y) (auto simp: ret_run)
qed (simp add: ret_run)

text \<open>Places where no child is awaited, in the loop of the current scheduler.\<close>

definition by_id_loop :: "place \<Rightarrow> bool" where
  "by_id_loop p = (case p of LSchedById ns \<Rightarrow> True | LAwaitById a ns \<Rightarrow> True | _ \<Rightarrow> False)"

definition calm :: "place \<Rightarrow> bool" where
  "calm p \<longleftrightarrow> starting p = None \<and> \<not> by_id_loop p"

lemma calm_simps [simp]:
  "calm LHead" "calm (LDrain b)" "calm (LSignal b m i)" "calm (LVerify b q o1 c)" "calm LOpen" "calm (LSched bt ns)" "calm LStatus"
  "calm LFlushed" "calm LCompleted" "calm (LTail d)" "calm (LSleep w)" "calm LHandlers" "calm LLast" "calm (LContinued inp)" "calm LEnd"
  "calm (LDone v)" "calm (LFailed e)"
  by (simp_all add: calm_def starting_def by_id_loop_def)

lemma calm_next: "(\<And>x. r = Inr x \<Longrightarrow> calm (f x)) \<Longrightarrow> calm (next_place r f)"
  by (cases r) (auto simp: next_place_def)

lemma calm_drained: "calm (drained b d)"
  by (auto simp: drained_def split: option.split drain_next.split)

lemma calm_tail: "tail_place env d s = Inr q \<Longrightarrow> calm q"
  by (auto simp: tail_place_def split: if_splits)

lemma calm_begin: "e_patched env SCHEDULE_CONCURRENCY \<Longrightarrow> begin_schedule env s = (Inr q, t) \<Longrightarrow> calm q"
  by (auto simp: begin_schedule_def bindW_Inr wf_simps(1,5) split: if_splits option.splits)

lemma loop_step_calm:
  assumes "loop_step env p s q t" "e_patched env SCHEDULE_CONCURRENCY" "\<not> by_id_loop p"
  shows "calm q \<or> (\<exists>a b ns. q = LAwait a b ns \<and> (\<forall>c. a = AwaitChild c \<longrightarrow> child_writes c \<longrightarrow> no_writer t))"
  using assms
proof (cases rule: loop_step.cases)
  case (opened r)
  then show ?thesis using calm_begin[OF assms(2)] by (auto intro!: calm_next simp: thenW_Inr)
next
  case (sched b ns r)
  show ?thesis
  proof (cases r)
    case (Inr w)
    then show ?thesis using sched schedule_nodes_writer
      by (cases w) (auto simp: next_place_def scheduled_def)
  qed (use sched in \<open>simp add: next_place_def\<close>)
qed (auto intro!: calm_next calm_drained dest: calm_tail simp: by_id_loop_def)

lemma loop_step_writer:
  assumes "loop_step env p s q t" "e_patched env SCHEDULE_CONCURRENCY" "\<not> by_id_loop p" "writer_inv p s"
  shows "writer_inv q t \<and> \<not> by_id_loop q"
proof -
  have "one_writer t" using ev.loop_step_evolves[OF assms(1)] assms(4) one_writer_kept one_writer_inserted
    unfolding writer_inv_def by metis
  then show ?thesis using loop_step_calm[OF assms(1-3)]
    by (auto simp: writer_inv_def calm_def starting_def by_id_loop_def split: awaited.splits)
qed

text \<open>The steps beside the loop do not move it, or leave it at a calm place.\<close>

lemma handler_place:
  assumes "sys_step env y z"
  shows "loops env y z \<or> s_place z = s_place y \<or> calm (s_place z)"
  using assms by (cases rule: sys_step.cases) (auto intro!: calm_next simp: loops_def)

lemma writer_cong: "w_attempts t = w_attempts s \<Longrightarrow> one_writer t = one_writer s" "w_attempts t = w_attempts s \<Longrightarrow> no_writer t = no_writer s"
  by (simp_all add: one_writer_def no_writer_def)

lemma handler_writer:
  assumes "stays (evolves env) y z \<or> hands_out (evolves env) y z \<or> ends_run (evolves env) y z"
  shows "one_writer (s_task y) \<Longrightarrow> one_writer (s_task z)" "no_writer (s_task y) \<Longrightarrow> no_writer (s_task z)"
proof -
  obtain s t where st: "evolves env (s_task y) s" "w_attempts t = w_attempts s" "evolves env t (s_task z) \<or> w_attempts (s_task z) = w_attempts s"
  proof -
    have cut: "w_attempts (s\<lparr>w_events := []\<rparr>) = w_attempts s" for s :: task by simp
    show thesis using assms that cut unfolding stays_def hands_out_def ends_run_def carried_on_def by (elim disjE exE conjE) metis+
  qed
  show "one_writer (s_task y) \<Longrightarrow> one_writer (s_task z)" using st one_writer_kept writer_cong(1) by metis
  show "no_writer (s_task y) \<Longrightarrow> no_writer (s_task z)" using st no_writer_kept writer_cong(2) by metis
qed

lemma step_writer:
  assumes "sys_step env y z" "e_patched env SCHEDULE_CONCURRENCY" "\<not> by_id_loop (s_place y)" "writer_inv (s_place y) (s_task y)"
  shows "writer_inv (s_place z) (s_task z) \<and> \<not> by_id_loop (s_place z)"
proof (cases "loops env y z")
  case True
  then show ?thesis using loop_step_writer[OF _ assms(2-4), of "s_place z" "s_task z"] by (simp add: loops_def)
next
  case False
  then have h: "stays (evolves env) y z \<or> hands_out (evolves env) y z \<or> ends_run (evolves env) y z" "s_place z = s_place y \<or> calm (s_place z)"
    using ev.handler_step[OF assms(1)] handler_place[OF assms(1)] by blast+
  then show ?thesis using handler_writer[OF h(1)] assms(3,4) by (auto simp: writer_inv_def calm_def)
qed

definition carried_writers_ok :: "task_input \<Rightarrow> bool" where
  "carried_writers_ok inp = (case ti_carry inp of None \<Rightarrow> True | Some c \<Rightarrow> one_writer (init_task\<lparr>w_attempts := ca_attempts c\<rparr>))"

lemma dget_enumerated:
  "dget (map (\<lambda>(i, k, a). (k, a\<lparr>x_object := i\<rparr>)) (enumerate n xs)) k = Some b \<Longrightarrow> \<exists>a i. dget xs k = Some a \<and> b = a\<lparr>x_object := i\<rparr>"
  by (induction xs arbitrary: n) (auto split: if_splits)

lemma dget_fresh: "dget (fresh_objects d) k = Some b \<Longrightarrow> \<exists>a i. dget d k = Some a \<and> b = a\<lparr>x_object := i\<rparr>"
  unfolding fresh_objects_def by (rule dget_enumerated)

lemma one_writer_fresh:
  assumes "one_writer (init_task\<lparr>w_attempts := d\<rparr>)" "w_attempts s = fresh_objects d"
  shows "one_writer s"
  unfolding one_writer_def
proof (intro allI impI)
  fix j k a b
  assume "dget (w_attempts s) j = Some a" "dget (w_attempts s) k = Some b" "writes a" "writes b"
  with assms(2) dget_fresh[of d] obtain a' b' where "dget d j = Some a'" "dget d k = Some b'" "writes a'" "writes b'"
    by (metis (no_types, lifting) attempt.select_convs(5) attempt.surjective attempt.update_convs(1) writes_def)
  then show "j = k" using assms(1) by (auto simp: one_writer_def)
qed

lemma early_idle: "early e0 y \<Longrightarrow> idle (s_task y)"
proof (induction rule: early.induct)
  case (step y env z)
  have "s_place y = LBefore" using early_place[OF step.hyps(1)] by simp
  then have "stays idle_kept y z \<or> hands_out idle_kept y z \<or> ends_run idle_kept y z"
    using il.handler_step[OF step.hyps(3)] by (auto simp: loops_def elim: loop_step.cases)
  then show ?case using step.IH unfolding stays_def hands_out_def ends_run_def carried_on_def idle_kept_def idle_def
    by (elim disjE exE conjE) simp_all
qed (simp add: new_sys_def idle_def init_task_def)

lemma reachable_writer:
  assumes "reachable e0 inp y" "e_patched e0 SCHEDULE_CONCURRENCY" "carried_writers_ok inp"
  shows "writer_inv (s_place y) (s_task y) \<and> \<not> by_id_loop (s_place y)"
  using assms(1)
proof (induction rule: reachable_induct)
  case (start env y0 y)
  then obtain t where t: "run_start env inp (s_task y0) = (Inr (), t)" "s_task y = t" "s_place y = LHead"
    by (auto simp: started_from_def)
  obtain s where s: "load env inp (s_task y0) = (Inr (), s)" "evolves env s t" using ev.run_start_evolves[OF t(1)] by blast
  have "one_writer s"
  proof (cases "ti_carry inp")
    case None
    then show ?thesis using load_start[OF s(1)] early_idle[OF start(1)] by (simp add: one_writer_def idle_def)
  next
    case (Some c)
    then show ?thesis using load_start[OF s(1)] assms(3) one_writer_fresh[of "ca_attempts c" s] by (simp add: carried_writers_ok_def)
  qed
  then show ?case using s(2) t(2,3) one_writer_kept by (simp add: writer_inv_def by_id_loop_def)
next
  case (step y env z)
  then show ?case using step_writer[OF step.hyps(4)] assms(2) by (simp add: same_run_def)
qed

section \<open>The dedup window\<close>

lemma window_trans: "evolves env s t \<Longrightarrow> e_patched env STATE_BOUNDS \<Longrightarrow> length (w_dedup s) \<le> MAX_DEDUP \<Longrightarrow> length (w_dedup t) \<le> MAX_DEDUP"
  by (auto simp: evolves_def window_kept_def)

lemma step_window:
  assumes "sys_step env y z" "e_patched env STATE_BOUNDS" "length (w_dedup (s_task y)) \<le> MAX_DEDUP"
  shows "length (w_dedup (s_task z)) \<le> MAX_DEDUP"
proof -
  have flush: "length (w_dedup (s\<lparr>w_events := []\<rparr>)) = length (w_dedup s)" "length (w_dedup (inserted c s)) = length (w_dedup s)" for s c
    by (simp_all add: inserted_def)
  consider "moved (evolves env) y (s_task z)" | "hands_out (evolves env) y z" | "ends_run (evolves env) y z"
    using ev.handler_step[OF assms(1)] ev.loops_moved by (auto simp: stays_def moved_def)
  then show ?thesis
  proof cases
    case 1
    then show ?thesis using window_trans[OF _ assms(2)] assms(3) flush(2) unfolding moved_def by metis
  next
    case 2
    then show ?thesis using window_trans[OF _ assms(2)] assms(3) flush(1) unfolding hands_out_def by metis
  next
    case 3
    then show ?thesis using window_trans[OF _ assms(2)] assms(3) unfolding ends_run_def carried_on_def by metis
  qed
qed

lemma early_window: "early e0 y \<Longrightarrow> e_patched e0 STATE_BOUNDS \<Longrightarrow> length (w_dedup (s_task y)) \<le> MAX_DEDUP"
  by (erule early_invariant[where I = "\<lambda>s. length (w_dedup s) \<le> MAX_DEDUP"]) (auto simp: init_task_def same_run_def intro: step_window)

text \<open>A run that continues another is given its answers on top of those the handlers before it gave.\<close>

definition answers_fit :: "task_input \<Rightarrow> sys \<Rightarrow> bool" where
  "answers_fit inp y0 = (case ti_carry inp of None \<Rightarrow> True | Some c \<Rightarrow> length (with_answers (ca_dedup c) (w_dedup (s_task y0))) \<le> MAX_DEDUP)"

lemma with_no_answers [simp]: "with_answers carried [] = carried" "w_dedup init_task = []"
  by (simp_all add: with_answers_def init_task_def)

lemma reachable_window:
  assumes "early e0 y0" "reachable_from e0 y0 inp y" "e_patched e0 STATE_BOUNDS" "answers_fit inp y0"
  shows "length (w_dedup (s_task y)) \<le> MAX_DEDUP"
  using assms(2)
proof induction
  case (start env y)
  then obtain t where t: "run_start env inp (s_task y0) = (Inr (), t)" "s_task y = t" by (auto simp: started_from_def)
  obtain s where s: "load env inp (s_task y0) = (Inr (), s)" "evolves env s t" using ev.run_start_evolves[OF t(1)] by blast
  have "length (w_dedup s) \<le> MAX_DEDUP"
    using load_start[OF s(1)] assms(4) early_window[OF assms(1,3)] by (cases "ti_carry inp") (auto simp: answers_fit_def)
  then show ?case using window_trans[OF s(2)] start(1) assms(3) t(2) by (simp add: same_run_def)
next
  case (step y env z)
  then show ?case using step_window assms(3) by (simp add: same_run_def)
qed

end
