(* ===== verification/Task_Life.thy ===== *)
theory Task_Life
  imports Task_Run Plan_Verdict Plan_Compact
begin

text \<open>
  The whole life of a task: the runs a Continue-As-New chains together. What a run leaves to the next one satisfies what the
  next one starts from, so what holds in every state of a run holds in every state of the task: the plan is well formed, the
  workspace has one writer, the dedup window is bounded.
\<close>

section \<open>The plan of a run\<close>

definition plan_ok :: "task \<Rightarrow> bool" where
  "plan_ok s \<longleftrightarrow> (\<forall>plan. w_plan s = Some plan \<longrightarrow> plan_wf plan)"

definition plan_kept :: "task \<Rightarrow> task \<Rightarrow> bool" where
  "plan_kept s t \<longleftrightarrow> (plan_ok s \<longrightarrow> plan_ok t)"

lemma judged_wf:
  assumes "plan_wf plan" "apply_command px plan c pol = Inr out"
  shows "plan_wf (po_plan out)"
proof (cases "accepted px plan c pol out")
  case True
  then show ?thesis using accepted_wf[OF assms(1)] by blast
next
  case False
  then show ?thesis using assms
    by (auto simp: accepted_def apply_command_def reject_def split: if_splits sum.splits plan_exn.splits)
qed

lemma initial_plan_wf: "plan_wf (initial_plan px i g pr)"
  by (simp add: initial_plan_def Let_def plan_wf_def acyclic_def)

lemma changed_node_wf:
  assumes "plan_wf plan" "dget (pl_nodes plan) n = Some st"
  shows "plan_wf (with_updates px plan None (Some (dset n c (pl_nodes plan))) None)"
proof -
  have "n \<in> fst ` set (pl_nodes plan)" using assms(2) map_of_SomeD by force
  then have keys: "dkeys (dset n c (pl_nodes plan)) = dkeys (pl_nodes plan)" by (simp add: dict_simps)
  then have "fst ` set (dset n c (pl_nodes plan)) = fst ` set (pl_nodes plan)" by (metis list.set_map)
  then show ?thesis using assms(1) keys by (simp add: plan_wf_def with_updates_def)
qed

lemma plan_keptI: "plan_kept s x \<Longrightarrow> (plan_ok x \<Longrightarrow> plan_ok y) \<Longrightarrow> plan_kept s y"
  by (simp add: plan_kept_def)

lemma plan_same: "w_plan t = w_plan s \<Longrightarrow> plan_ok s \<Longrightarrow> plan_ok t"
  by (simp add: plan_ok_def)

interpretation pk: answer_relation plan_kept env plan_wf for env
proof unfold_locales
  show "plan_kept s s" for s by (simp add: plan_kept_def)
  show "plan_kept s t \<Longrightarrow> plan_kept t u \<Longrightarrow> plan_kept s u" for s t u by (simp add: plan_kept_def)
  show "plan_kept s x \<Longrightarrow> plan_kept s (emit env et p x)" for s x et p
    by (erule plan_keptI, rule plan_same) (simp_all add: emit_other)
  show "plan_kept s x \<Longrightarrow> quiet x y \<Longrightarrow> plan_kept s y" for s x y
    by (erule plan_keptI, rule plan_same) (simp_all add: quiet_def)
  show "plan_kept s x \<Longrightarrow> mild f \<Longrightarrow> plan_kept s (mut_attempt obj f x)" for s x f obj
    by (erule plan_keptI, rule plan_same) (simp_all add: mut_attempt_def)
  show "plan_kept s x \<Longrightarrow> plan_kept s (pop_attempt n x)" for s x n
    by (erule plan_keptI, rule plan_same) (simp_all add: pop_attempt_def split: option.split)
  show "plan_kept s x \<Longrightarrow> plan_wf plan \<Longrightarrow> plan_kept s (w_plan_update (\<lambda>_. Some plan) x)" for s x plan
    by (erule plan_keptI) (simp add: plan_ok_def)
  show "plan_wf (initial_plan (e_px env) i g pr)" for i g pr by (rule initial_plan_wf)
  show "w_plan s = Some plan \<Longrightarrow> dget (pl_nodes plan) n = Some st \<Longrightarrow> plan_kept s (put_node env n (changed_node env st u) s)" for s plan n st u
    using changed_node_wf[of plan n st] by (simp add: plan_kept_def plan_ok_def put_node_def)
  show "w_plan s = Some plan \<Longrightarrow> apply_command (e_px env) plan c pol = Inr out \<Longrightarrow> plan_wf (po_plan out) \<or> (\<forall>t. plan_kept s t)"
    for s plan c pol out using judged_wf[of plan "e_px env" c pol out] by (auto simp: plan_kept_def plan_ok_def)
  show "w_plan s = Some plan \<Longrightarrow> compact (e_px env) plan held k = Some co \<Longrightarrow> plan_wf (co_plan co) \<or> (\<forall>t. plan_kept s t)"
    for s plan held k co using compact_wf[of plan "e_px env" held k co] by (auto simp: plan_kept_def plan_ok_def)
  show "plan_kept s x \<Longrightarrow> plan_kept s (remember env c r x)" for s x c r
    by (erule plan_keptI, rule plan_same) (simp_all add: remember_def Let_def)
  show "plan_kept s x \<Longrightarrow> plan_kept s (w_commands_update g x)" for s x g
    by (erule plan_keptI, rule plan_same) simp_all
qed

text \<open>The edges an input carries join nodes it carries, and form no cycle.\<close>

definition carried_plan_ok :: "task_input \<Rightarrow> bool" where
  "carried_plan_ok inp = (case ti_carry inp of None \<Rightarrow> True
     | Some c \<Rightarrow> (let ids = cd_node_id ` set (ca_nodes c) in set (ca_edges c) \<subseteq> ids \<times> ids \<and> acyclic (set (ca_edges c))))"

lemma load_nodes:
  assumes "foldE (load_node px) acc items = Inr nodes" "dict_ok acc"
  shows "dict_ok nodes \<and> fst ` set nodes = fst ` set acc \<union> cd_node_id ` set items"
  using assms
proof (induction items arbitrary: acc)
  case (Cons item items)
  from Cons.prems(1) obtain acc1 where acc1: "load_node px acc item = Inr acc1" "foldE (load_node px) acc1 items = Inr nodes"
    by (auto simp: bindE_eq_Inr)
  then obtain st where "acc1 = dset (cd_node_id item) st acc" by (auto simp: load_node_def split: option.splits)
  then have rest: "foldE (load_node px) (dset (cd_node_id item) st acc) items = Inr nodes" using acc1 by simp
  have "dict_ok (dset (cd_node_id item) st acc)" using Cons.prems(2) by (simp add: distinct_update)
  from Cons.IH[OF rest this] show ?case by (auto simp: keys_dset_set)
qed simp

lemma load_plan_ok:
  assumes "load env inp s0 = (Inr (), s)" "carried_plan_ok inp" "plan_ok s0"
  shows "plan_ok s"
proof (cases "ti_carry inp")
  case None
  then show ?thesis using assms(1,3) by (auto simp: load_def wf_simps plan_ok_def)
next
  case (Some c)
  then obtain nodes where n: "foldE (load_node (e_px env)) [] (ca_nodes c) = Inr nodes"
      "w_plan s = Some (build (e_px env) (ca_plan_version c) nodes (ca_edges c))"
    using assms(1) by (auto simp: load_def wf_simps split: sum.splits)
  then show ?thesis using load_nodes[OF n(1)] assms(2) Some by (simp add: plan_ok_def plan_wf_def carried_plan_ok_def Let_def)
qed

lemma step_plan_ok:
  assumes "sys_step env y z" "plan_ok (s_task y)"
  shows "plan_ok (s_task z)"
proof -
  have "plan_kept (s_task y) (s_task z)"
    using assms(1) by (rule pk.step_keeps) (auto simp: plan_kept_def plan_ok_def inserted_def carried_on_def)
  then show ?thesis using assms(2) by (simp add: plan_kept_def)
qed

lemma early_plan_ok: "early e0 y \<Longrightarrow> plan_ok (s_task y)"
  by (erule early_invariant, simp add: plan_ok_def init_task_def, rule step_plan_ok)

lemma reachable_plan_ok:
  assumes "reachable e0 inp y" "carried_plan_ok inp"
  shows "plan_ok (s_task y)"
proof (rule run_invariant[OF assms(1)])
  fix env y0 t
  assume y0: "early e0 y0" and "run_start env inp (s_task y0) = (Inr (), t)"
  then obtain s where "load env inp (s_task y0) = (Inr (), s)" "plan_kept s t" by (auto elim: pk.run_start_evolves)
  then show "plan_ok t" using load_plan_ok assms(2) early_plan_ok[OF y0] by (auto simp: plan_kept_def)
qed (rule step_plan_ok)

section \<open>The objects of a run\<close>

lemma objects_inserted:
  assumes "objects_ok s"
  shows "objects_ok (inserted c s)"
proof -
  let ?n = "ai_node_id (cs_input c)" and ?a = "new_attempt s c"
  have o1: "x_object ?a = w_objects s" by (simp add: new_attempt_def Let_def)
  have vals: "set (dset n a d) \<subseteq> insert (n, a) (set d)" for n :: string and a :: attempt and d by (induction d) auto
  have d: "distinct (map (\<lambda>p. x_object (snd p)) (dset ?n ?a d))"
    if "distinct (map (\<lambda>p. x_object (snd p)) d)" "\<forall>p\<in>set d. x_object (snd p) < w_objects s" for d
    using that
  proof (induction d)
    case (Cons p d)
    then show ?case using vals[of ?n ?a d] o1 by (cases p) (auto split: if_splits)
  qed (simp add: o1)
  have ok: "distinct (map (\<lambda>p. x_object (snd p)) (w_attempts s))" "\<forall>p\<in>set (w_attempts s). x_object (snd p) < w_objects s"
      "distinct (map x_object (w_detached s))" "\<forall>b\<in>set (w_detached s). x_object b < w_objects s"
      "\<forall>p\<in>set (w_attempts s). \<forall>b\<in>set (w_detached s). x_object (snd p) \<noteq> x_object b"
    using assms by (force simp: objects_ok_def comp_def)+
  show ?thesis using d[OF ok(1,2)] ok(2-5) vals[of ?n ?a "w_attempts s"] o1
    unfolding objects_ok_def inserted_def by (fastforce simp: comp_def)
qed

lemma objects_fresh: "w_attempts s = fresh_objects d \<Longrightarrow> w_objects s = length d \<Longrightarrow> w_detached s = [] \<Longrightarrow> objects_ok s"
proof -
  assume s: "w_attempts s = fresh_objects d" "w_objects s = length d" "w_detached s = []"
  have fo: "map x_object (dvals (fresh_objects d)) = [0..<length d]"
    by (rule nth_equalityI) (auto simp: fresh_objects_def nth_enumerate_eq split: prod.split)
  have "x_object a < length d" if "a \<in> set (dvals (fresh_objects d))" for a
  proof -
    have "x_object a \<in> set (map x_object (dvals (fresh_objects d)))" using that by (simp only: set_map image_eqI)
    then show ?thesis unfolding fo by simp
  qed
  then show "objects_ok s" using s unfolding objects_ok_def by (simp only: append_Nil2 fo distinct_upt simp_thms) blast
qed

lemma reachable_objects:
  assumes "reachable e0 inp y"
  shows "objects_ok (s_task y)"
proof (rule run_invariant[OF assms])
  fix env y0 t
  assume y0: "early e0 y0" and "run_start env inp (s_task y0) = (Inr (), t)"
  then obtain s where s: "load env inp (s_task y0) = (Inr (), s)" "objects_kept s t" by (auto elim: ob.run_start_evolves)
  have "objects_ok s"
  proof (cases "ti_carry inp")
    case None
    then show ?thesis using load_start[OF s(1)] early_idle[OF y0] by (simp add: objects_ok_def idle_def)
  next
    case (Some c)
    then show ?thesis using load_start[OF s(1)] early_idle[OF y0] objects_fresh[of s "ca_attempts c"] by (simp add: idle_def fresh_objects_def)
  qed
  then show "objects_ok t" using s(2) by (simp add: objects_kept_def)
next
  fix env y z
  assume "sys_step env y z" "objects_ok (s_task y)"
  moreover have "objects_kept (s_task y) (s_task z)" if "sys_step env y z"
    using that by (rule ob.step_keeps) (auto simp: objects_kept_def objects_inserted carried_on_def elim: objects_same)
  ultimately show "objects_ok (s_task z)" by (simp add: objects_kept_def)
qed

section \<open>From one run to the next\<close>

text \<open>What the input of the next run has of the task that continues as new.\<close>

definition hands_over :: "task \<Rightarrow> task_input \<Rightarrow> bool" where
  "hands_over t inp \<longleftrightarrow> (\<exists>c plan. ti_carry inp = Some c \<and> w_plan t = Some plan \<and> ca_attempts c = w_attempts t \<and> ca_dedup c = w_dedup t
     \<and> cd_node_id ` set (ca_nodes c) = fst ` set (pl_nodes plan) \<and> ca_edges c = pl_edges plan)"

lemma carry_hands_over: "carry_input env s = (Inr inp, t) \<Longrightarrow> hands_over t inp"
  by (auto simp: carry_input_def hands_over_def wf_simps optW_def carry_node_def image_image case_prod_beta split: option.splits)

lemma loop_not_continued:
  assumes "loop_step env p s q t"
  shows "q \<noteq> LContinued inp"
proof -
  have np: "next_place r f = LContinued inp \<Longrightarrow> \<exists>x. r = Inr x \<and> f x = LContinued inp" for r :: "wf_error + 'a" and f
    by (auto simp: next_place_def split: sum.splits)
  have tail: "tail_place env d s \<noteq> Inr (LContinued inp)" for d s by (auto simp: tail_place_def split: if_splits)
  have sched: "begin_schedule env s \<noteq> (Inr (LContinued inp), t)" for s t
    by (auto simp: begin_schedule_def bindW_Inr wf_simps(1,5) split: if_splits option.splits)
  have dr: "drained b d \<noteq> LContinued inp" for b d by (auto simp: drained_def split: option.split drain_next.split)
  have sc: "scheduled b w \<noteq> LContinued inp" for b w by (auto simp: scheduled_def split: option.split)
  show ?thesis using assms by (cases rule: loop_step.cases)
    (auto dest!: np simp: dr sc tail sched thenW_Inr split: schedule_step.splits)
qed

lemma reachable_hands_over:
  assumes "reachable_from e0 y0 inp y" "s_place y = LContinued inp'"
  shows "hands_over (s_task y) inp'"
  using assms
proof (cases rule: reachable_from.cases)
  case (start env)
  then show ?thesis using assms(2) by (auto simp: started_from_def)
next
  case (step x env)
  have here: "s_place x \<noteq> LContinued inp'" using step(2) by (auto simp: is_over_def)
  have np: "next_place r LContinued = LContinued inp' \<Longrightarrow> r = Inr inp'" for r
    by (auto simp: next_place_def split: sum.splits)
  show ?thesis using step(4) assms(2) here
    by (cases rule: sys_step.cases) (auto dest!: np carry_hands_over loop_not_continued simp: next_place_def split: sum.splits)
qed

text \<open>
  The states of a task: of the run its input starts, and of the runs that continue it. Each run starts in an environment, from an
  input and from the state the handlers before it left, that satisfy \<open>ok\<close>.
\<close>

inductive lifetime :: "(env \<Rightarrow> task_input \<Rightarrow> sys \<Rightarrow> bool) \<Rightarrow> task_input \<Rightarrow> sys \<Rightarrow> bool" for ok inp where
  first: "ok e inp y0 \<Longrightarrow> early e y0 \<Longrightarrow> reachable_from e y0 inp y \<Longrightarrow> lifetime ok inp y"
| continued: "lifetime ok inp y \<Longrightarrow> s_place y = LContinued inp' \<Longrightarrow> ok e inp' y0 \<Longrightarrow> early e y0 \<Longrightarrow> reachable_from e y0 inp' z
    \<Longrightarrow> lifetime ok inp z"

lemma lifetime_mono: "lifetime ok inp y \<Longrightarrow> (\<And>e inp y0. ok e inp y0 \<Longrightarrow> ok' e inp y0) \<Longrightarrow> lifetime ok' inp y"
  by (induction rule: lifetime.induct) (auto intro: lifetime.intros)

lemma lifetime_first: "reachable e inp y \<Longrightarrow> (\<And>y0. ok e inp y0) \<Longrightarrow> lifetime ok inp y"
  by (auto simp: reachable_def intro: lifetime.first)

text \<open>A property of runs that the input of the next run inherits.\<close>

locale lifelong =
  fixes ok :: "env \<Rightarrow> task_input \<Rightarrow> sys \<Rightarrow> bool" and P :: "task_input \<Rightarrow> bool" and Q :: "task \<Rightarrow> bool"
  assumes run: "ok e inp y0 \<Longrightarrow> P inp \<Longrightarrow> early e y0 \<Longrightarrow> reachable_from e y0 inp y \<Longrightarrow> Q (s_task y)"
    and handed: "Q t \<Longrightarrow> hands_over t inp \<Longrightarrow> P inp"
begin

lemma life:
  assumes "lifetime ok inp y" "P inp"
  shows "Q (s_task y) \<and> (\<forall>inp'. s_place y = LContinued inp' \<longrightarrow> P inp')"
  using assms(1)
proof induction
  case (first e y0 y)
  then show ?case using run[OF _ assms(2)] handed reachable_hands_over by blast
next
  case (continued y inp' e y0 z)
  then have "P inp'" by blast
  then show ?case using run continued(3,4,5) handed reachable_hands_over by blast
qed

end

interpretation plans: lifelong "\<lambda>_ _ _. True" carried_plan_ok plan_ok
proof unfold_locales
  show "plan_ok (s_task y)" if "carried_plan_ok inp" "early e y0" "reachable_from e y0 inp y" for e inp y0 y
    using that reachable_plan_ok[of e inp y] by (auto simp: reachable_def)
  show "plan_ok t \<Longrightarrow> hands_over t inp \<Longrightarrow> carried_plan_ok inp" for t inp
    by (auto simp: plan_ok_def hands_over_def carried_plan_ok_def plan_wf_def Let_def)
qed

interpretation writers: lifelong "\<lambda>e _ _. e_patched e SCHEDULE_CONCURRENCY" carried_writers_ok one_writer
proof unfold_locales
  show "one_writer (s_task y)" if "e_patched e SCHEDULE_CONCURRENCY" "carried_writers_ok inp" "early e y0" "reachable_from e y0 inp y" for e inp y0 y
    using reachable_writer[of e inp y] that by (auto simp: writer_inv_def reachable_def)
  show "one_writer t \<Longrightarrow> hands_over t inp \<Longrightarrow> carried_writers_ok inp" for t inp
    by (auto simp: one_writer_def hands_over_def carried_writers_ok_def)
qed

text \<open>A run that continues another has its updates answered after \<open>run\<close> has begun.\<close>

definition answers_late :: "task_input \<Rightarrow> sys \<Rightarrow> bool" where
  "answers_late inp y0 \<longleftrightarrow> ti_carry inp = None \<or> w_dedup (s_task y0) = []"

definition carried_window_ok :: "task_input \<Rightarrow> bool" where
  "carried_window_ok inp = (case ti_carry inp of None \<Rightarrow> True | Some c \<Rightarrow> length (ca_dedup c) \<le> MAX_DEDUP)"

interpretation windows: lifelong "\<lambda>e inp y0. e_patched e STATE_BOUNDS \<and> answers_late inp y0" carried_window_ok "\<lambda>s. length (w_dedup s) \<le> MAX_DEDUP"
proof unfold_locales
  show "length (w_dedup (s_task y)) \<le> MAX_DEDUP"
    if "e_patched e STATE_BOUNDS \<and> answers_late inp y0" "carried_window_ok inp" "early e y0" "reachable_from e y0 inp y" for e inp y0 y
  proof -
    have "answers_fit inp y0" using that(1,2) by (auto simp: answers_fit_def answers_late_def carried_window_ok_def split: option.split)
    then show ?thesis using reachable_window[OF that(3,4)] that(1) by blast
  qed
  show "length (w_dedup t) \<le> MAX_DEDUP \<Longrightarrow> hands_over t inp \<Longrightarrow> carried_window_ok inp" for t inp
    by (auto simp: hands_over_def carried_window_ok_def)
qed

end
