(* ===== verification/Task_Safety.thy ===== *)
theory Task_Safety
  imports Task_Life
begin

text \<open>
  What holds in every state of a task, over all its runs and every interleaving of its handlers: the plan is well formed, the
  workspace has one writer, the answers kept for repeated commands are bounded, and the events are numbered. What handlers did before
  \<open>run\<close> is part of each run; the last two properties say where it limits them. Each property is an instance of an interpretation of
  \<open>lifelong\<close>, or of the invariant of the log.
\<close>

section \<open>A task that was continued\<close>

text \<open>An attempt that writes is in the books, an answer is remembered.\<close>

definition demo_env :: env where
  "demo_env = \<lparr>e_patched = (\<lambda>_. True), e_px = demo_px, e_now = 0, e_uuid = nat_str, e_workflow_id = ''wf'', e_continue_suggested = False,
     e_depth = 8\<rparr>"

definition demo_attempt :: attempt where
  "demo_attempt = \<lparr>x_object = 7, x_attempt_id = ''att_1'', x_attempt_no = 1, x_workflow_id = ''w1'', x_workspace_access = WriteAccess,
     x_status = ARunning, x_profile = ''p@1'', x_config_version = 1, x_reserved = None, x_cancelling = False, x_closed = False,
     x_counted = False, x_finishing = False, x_verdict = None, x_rejections = [], x_handed = [], x_result = None\<rparr>"

definition demo_carry :: carry where
  "demo_carry = \<lparr>ca_status = TS_RUNNING, ca_plan_version = 3, ca_nodes = [], ca_edges = [], ca_next_message_seq = 2, ca_completed_nodes = 0,
     ca_inbox = [], ca_wait_events = [], ca_entity_versions = [(''task:t'', 4)], ca_attempts = [(''n1'', demo_attempt)], ca_approvals = [],
     ca_last_attempt_id = [], ca_follow_ups = [], ca_node_retry = [], ca_wait_deadlines = [], ca_archive = empty_archive, ca_usage = no_usage,
     ca_budget_hold = False, ca_unsent = False, ca_node_profile = [], ca_handovers = [], ca_sops = [], ca_reviews = [], ca_review_nodes = [],
     ca_node_rounds = [], ca_member_sessions = [], ca_allow_rules = [], ca_dedup = [(''c1'', SendMessageResult 1)]\<rparr>"

definition demo_input :: "carry option \<Rightarrow> task_input" where
  "demo_input c = \<lparr>ti_task_id = ''t'', ti_tenant_id = ''a'', ti_created_by = None, ti_title = ''T'', ti_goal = ''G'', ti_profile = ''p@1'',
     ti_budgets = no_budget, ti_policy = no_policy, ti_config = default_config, ti_carry = c\<rparr>"

lemma demo_patched [simp]: "e_patched demo_env = (\<lambda>_. True)" "e_px demo_env = demo_px" "e_depth demo_env = 8" "e_now demo_env = 0"
  by (simp_all add: demo_env_def)

lemma demo_input_simps [simp]: "ti_carry (demo_input c) = c" "ti_task_id (demo_input c) = ''t''" "ti_title (demo_input c) = ''T''"
  "ti_goal (demo_input c) = ''G''" "ti_profile (demo_input c) = ''p@1''"
  by (simp_all add: demo_input_def)

lemma starts_run:
  "run_start env inp init_task = (Inr (), t) \<Longrightarrow> reachable_from env new_sys inp \<lparr>s_place = LHead, s_task = t, s_pending = [], s_published = []\<rparr>"
  by (rule reachable_from.start[of _ env]) (simp_all add: same_run_def started_from_def new_sys_def)

lemma from_new: "reachable_from env new_sys inp y \<Longrightarrow> reachable env inp y"
  by (auto simp: reachable_def intro: early.new)

text \<open>The run of this input starts with the attempt and the answer in place.\<close>

lemma demo_continued:
  obtains y where "reachable_from demo_env new_sys (demo_input (Some demo_carry)) y" "w_attempts (s_task y) = [(''n1'', demo_attempt\<lparr>x_object := 0\<rparr>)]"
    "w_dedup (s_task y) = [(''c1'', SendMessageResult 1)]"
proof -
  define t where "t = snd (run_start demo_env (demo_input (Some demo_carry)) init_task)"
  have t: "run_start demo_env (demo_input (Some demo_carry)) init_task = (Inr (), t)"
      "w_attempts t = [(''n1'', demo_attempt\<lparr>x_object := 0\<rparr>)]" "w_dedup t = [(''c1'', SendMessageResult 1)]"
    by (simp_all add: t_def run_start_def load_def wf_simps demo_carry_def fresh_objects_def enumerate_eq_zip rearm_after_load_def
        make_plan_def set_status_def demo_attempt_def)
  show thesis by (rule that[OF starts_run[OF t(1)]]) (simp_all add: t(2,3))
qed

lemma initial_nodes: "length (pl_nodes (initial_plan px i g p)) = 1"
  by (simp only: initial_plan_def Let_def build_simps list.size)

lemma demo_fresh:
  obtains y plan where "reachable_from demo_env new_sys (demo_input None) y" "w_plan (s_task y) = Some plan" "length (pl_nodes plan) = 1"
    "s_place y = LHead" "map ev_type (w_events (s_task y)) = [''task.created'', ''task.status_changed'']" "s_published y = []"
proof -
  define t where "t = snd (run_start demo_env (demo_input None) init_task)"
  have t: "run_start demo_env (demo_input None) init_task = (Inr (), t)"
      "w_plan t = Some (initial_plan demo_px ''t'' ''G'' ''p@1'')" "map ev_type (w_events t) = [''task.created'', ''task.status_changed'']"
    by (simp_all add: t_def run_start_def load_def wf_simps make_plan_def set_status_def init_task_def emit_def case_prod_beta Let_def)
  show thesis by (rule that[OF starts_run[OF t(1)], of "initial_plan demo_px ''t'' ''G'' ''p@1''"]) (simp_all add: t(2,3) initial_nodes[unfolded One_nat_def])
qed

section \<open>The plan\<close>

text \<open>C6. Over the whole life of a task, through every run, update, signal, timer and compaction, the plan it holds is well formed: its
  nodes have distinct ids, its edges join nodes of it, and it has no cycle. Only the input of the first run is assumed to be so; the
  input each later run gets by Continue-As-New satisfies it.\<close>

theorem life_plan_wf:
  assumes "lifetime ok inp y" "carried_plan_ok inp" "w_plan (s_task y) = Some plan"
  shows "dict_ok (pl_nodes plan) \<and> set (pl_edges plan) \<subseteq> fst ` set (pl_nodes plan) \<times> fst ` set (pl_nodes plan) \<and> acyclic (set (pl_edges plan))"
proof -
  have "lifetime (\<lambda>_ _ _. True) inp y" using assms(1) by (rule lifetime_mono) simp
  then have "plan_ok (s_task y)" using plans.life assms(2) by blast
  then show ?thesis using assms(3) by (simp add: plan_ok_def plan_wf_def)
qed

theorem life_plan_wf_witness:
  "\<exists>y plan. lifetime (\<lambda>_ _ _. True) (demo_input None) y \<and> w_plan (s_task y) = Some plan \<and> length (pl_nodes plan) = 1 \<and> acyclic (set (pl_edges plan))"
proof -
  obtain y plan where y: "reachable_from demo_env new_sys (demo_input None) y" "w_plan (s_task y) = Some plan" "length (pl_nodes plan) = 1" by (rule demo_fresh)
  then have "lifetime (\<lambda>_ _ _. True) (demo_input None) y" by (intro lifetime_first[OF from_new]) auto
  then show ?thesis using life_plan_wf[OF _ _ y(2)] y(2,3) by (auto simp: carried_plan_ok_def)
qed

section \<open>The workspace\<close>

text \<open>C7. At most one attempt of a task has write access to the workspace, over the whole life of the task and whatever the plan, the
  updates and the timing of the children are: two items of the books with write access are the same item. In particular an attempt that
  was asked to cancel keeps the workspace until its end is known.\<close>

theorem life_single_writer:
  assumes "lifetime (\<lambda>e _ _. e_patched e SCHEDULE_CONCURRENCY) inp y" "carried_writers_ok inp"
    and "dget (w_attempts (s_task y)) j = Some a" "x_workspace_access a = WriteAccess"
    and "dget (w_attempts (s_task y)) k = Some b" "x_workspace_access b = WriteAccess"
  shows "j = k"
  using writers.life[OF assms(1,2)] assms(3-6) by (auto simp: one_writer_def writes_def)

theorem life_single_writer_witness:
  "\<exists>y. lifetime (\<lambda>e _ _. e_patched e SCHEDULE_CONCURRENCY) (demo_input (Some demo_carry)) y
     \<and> map (\<lambda>(k, a). (k, x_workspace_access a)) (w_attempts (s_task y)) = [(''n1'', WriteAccess)]
     \<and> \<not> (\<exists>k b. dget (w_attempts (s_task y)) k = Some b \<and> x_workspace_access b = WriteAccess \<and> k \<noteq> ''n1'')"
proof -
  obtain y where y: "reachable_from demo_env new_sys (demo_input (Some demo_carry)) y" "w_attempts (s_task y) = [(''n1'', demo_attempt\<lparr>x_object := 0\<rparr>)]"
    by (rule demo_continued)
  then have l: "lifetime (\<lambda>e _ _. e_patched e SCHEDULE_CONCURRENCY) (demo_input (Some demo_carry)) y" by (intro lifetime_first[OF from_new]) auto
  have ok: "carried_writers_ok (demo_input (Some demo_carry))" by (simp add: carried_writers_ok_def one_writer_def demo_carry_def)
  have n1: "dget (w_attempts (s_task y)) ''n1'' = Some (demo_attempt\<lparr>x_object := 0\<rparr>)" using y(2) by simp
  have w: "x_workspace_access (demo_attempt\<lparr>x_object := 0\<rparr>) = WriteAccess" by (simp add: demo_attempt_def)
  have "map (\<lambda>(k, a). (k, x_workspace_access a)) (w_attempts (s_task y)) = [(''n1'', WriteAccess)]" using y(2) w by simp
  moreover have "\<not> (\<exists>k b. dget (w_attempts (s_task y)) k = Some b \<and> x_workspace_access b = WriteAccess \<and> k \<noteq> ''n1'')"
    using life_single_writer[OF l ok n1 w] by blast
  ultimately show ?thesis using l by (intro exI[of _ y]) simp
qed

section \<open>The answers that are kept\<close>

text \<open>C19. The window of answered commands never holds more than 512 answers, in any state of any run of the task, as long as no update
  is answered before \<open>run\<close> begins in a run that continues another. (Temporal may deliver an update with the start of such a run;
  \<open>_load\<close> then adds the carried answers to the one given already without trimming, see \<open>early_answer_beyond_window\<close>.)\<close>

theorem life_dedup_bounded:
  assumes "lifetime (\<lambda>e inp y0. e_patched e STATE_BOUNDS \<and> answers_late inp y0) inp y" "carried_window_ok inp"
  shows "length (w_dedup (s_task y)) \<le> 512"
  using windows.life[OF assms] by (simp add: MAX_DEDUP_def)

theorem life_dedup_bounded_witness:
  "\<exists>y. lifetime (\<lambda>e inp y0. e_patched e STATE_BOUNDS \<and> answers_late inp y0) (demo_input (Some demo_carry)) y
     \<and> w_dedup (s_task y) \<noteq> [] \<and> length (w_dedup (s_task y)) \<le> 512"
proof -
  obtain y where y: "reachable_from demo_env new_sys (demo_input (Some demo_carry)) y" "w_dedup (s_task y) = [(''c1'', SendMessageResult 1)]"
    by (rule demo_continued)
  have "answers_late (demo_input (Some demo_carry)) new_sys" by (simp add: answers_late_def new_sys_def init_task_def)
  then have l: "lifetime (\<lambda>e inp y0. e_patched e STATE_BOUNDS \<and> answers_late inp y0) (demo_input (Some demo_carry)) y"
    by (intro lifetime.first[OF _ early.new y(1)]) simp
  have "carried_window_ok (demo_input (Some demo_carry))" by (simp add: carried_window_ok_def demo_carry_def MAX_DEDUP_def)
  then show ?thesis using life_dedup_bounded[OF l] l y(2) by auto
qed

section \<open>The events\<close>

lemma fresh_above:
  assumes "fresh v evs" "j < length evs"
  shows "v (event_key (evs ! j)) < ev_version (evs ! j)"
  using assms
proof (induction evs arbitrary: v j)
  case (Cons e es)
  show ?case
  proof (cases j)
    case (Suc i)
    have "fresh (v(event_key e := ev_version e)) es" "v (event_key e) < ev_version e" using Cons.prems by simp_all
    then show ?thesis using Cons.IH[OF _, of _ i] Cons.prems(2) Suc by (fastforce split: if_splits)
  qed (use Cons.prems in simp)
qed simp

lemma fresh_ordered:
  assumes "fresh v evs" "i < j" "j < length evs" "event_key (evs ! i) = event_key (evs ! j)"
  shows "ev_version (evs ! i) < ev_version (evs ! j)"
  using assms
proof (induction evs arbitrary: v i j)
  case (Cons e es)
  then obtain j' where j: "j = Suc j'" by (cases j) auto
  have f: "fresh (v(event_key e := ev_version e)) es" using Cons.prems by simp
  show ?case
  proof (cases i)
    case 0
    then show ?thesis using Cons.prems fresh_above[OF f, of j'] j by auto
  next
    case (Suc i')
    then show ?thesis using Cons.prems Cons.IH[OF f, of i' j'] j by auto
  qed
qed simp

text \<open>C10. The events of a run, those handed to \<open>publish_events\<close> followed by those still to be handed over, are in order and numbered:
  each event has its own draw of the random ids, in the order the events were made, and the versions of an entity only go up, above
  what the run before it reached. The events that handlers made before \<open>run\<close> stand first; in a run that continues another \<open>_load\<close>
  then replaces their versions by the carried ones, so the numbers go up among them and among the later ones, and the later ones are
  above the carried versions, but not across. So no event is lost between the state and the publisher, and none is handed over
  twice.\<close>

theorem run_events_numbered:
  assumes "early e y0" "reachable_from e y0 inp y" "evs = s_published y @ w_events (s_task y)" "j < length evs"
    and "n = (if ti_carry inp = None then 0 else length (w_events (s_task y0)))"
  shows "ev_event_id (evs ! j) = deterministic_id (e_uuid e j) ''evt''
    \<and> take n evs = take n (w_events (s_task y0))
    \<and> (n \<le> j \<longrightarrow> carried_versions inp (event_key (evs ! j)) < ev_version (evs ! j))
    \<and> (\<forall>i<j. (n \<le> i \<longleftrightarrow> n \<le> j) \<and> event_key (evs ! i) = event_key (evs ! j) \<longrightarrow> ev_version (evs ! i) < ev_version (evs ! j))"
proof -
  let ?old = "early_events inp y0"
  have n: "length ?old = n" "take n (w_events (s_task y0)) = ?old" using assms(5) by (auto simp: early_events_def split: option.split)
  have "numbered e ?old (carried_versions inp) evs" using reachable_log[OF assms(1,2)] assms(3) by simp
  then obtain new where new: "evs = ?old @ new" "fresh (carried_versions inp) new" "map ev_event_id evs = map (event_id_of e) [0..<length evs]"
    unfolding numbered_def by blast
  have old: "fresh (\<lambda>_. 0) ?old" using early_log[OF assms(1)] by (cases "ti_carry inp") (auto simp: log_inv_def early_events_def)
  have "ev_event_id (evs ! j) = deterministic_id (e_uuid e j) ''evt''"
    using arg_cong[OF new(3), of "\<lambda>xs. xs ! j"] assms(4) by (simp add: event_id_of_def)
  moreover have "take n evs = ?old" using new(1) n(1) by simp
  moreover have "carried_versions inp (event_key (evs ! j)) < ev_version (evs ! j)" if "n \<le> j"
    using fresh_above[OF new(2), of "j - n"] assms(4) that n(1) unfolding new(1) by (simp add: nth_append)
  moreover have "ev_version (evs ! i) < ev_version (evs ! j)"
    if "i < j" "n \<le> i \<longleftrightarrow> n \<le> j" "event_key (evs ! i) = event_key (evs ! j)" for i
  proof (cases "n \<le> i")
    case True
    then show ?thesis using fresh_ordered[OF new(2), of "i - n" "j - n"] that assms(4) n(1) unfolding new(1) by (simp add: nth_append diff_less_mono)
  next
    case False
    then show ?thesis using fresh_ordered[OF old, of i j] that n(1) unfolding new(1) by (simp add: nth_append)
  qed
  ultimately show ?thesis using n(2) by auto
qed

theorem run_events_numbered_witness:
  "\<exists>y. reachable_from demo_env new_sys (demo_input None) y \<and> map ev_type (w_events (s_task y)) = [''task.created'', ''task.status_changed'']
     \<and> ev_event_id (w_events (s_task y) ! 1) = deterministic_id ''1'' ''evt'' \<and> 0 < ev_version (w_events (s_task y) ! 1)"
proof -
  obtain y where y: "reachable_from demo_env new_sys (demo_input None) y" "s_published y = []"
      "map ev_type (w_events (s_task y)) = [''task.created'', ''task.status_changed'']" by (rule demo_fresh)
  have l: "1 < length (w_events (s_task y))" using arg_cong[OF y(3), of length] by simp
  have "e_uuid demo_env (Suc 0) = ''1''" unfolding demo_env_def by code_simp
  then show ?thesis using run_events_numbered[OF early.new y(1) refl, of 1 0] l y by (intro exI[of _ y]) (simp add: carried_versions_def)
qed

end
