(* ===== verification/Task_Answers.thy ===== *)
theory Task_Answers
  imports Task_Safety
begin

text \<open>
  The updates of a task are answered once: a command that is sent again, because its caller did not see the answer, gets the
  answer it had and changes nothing.
\<close>

section \<open>What an update leaves in the window\<close>

text \<open>\<open>leaves c m V\<close>: when \<open>m\<close> returns an answer (\<open>V\<close> picks it), it is the one kept for the command \<open>c\<close>.\<close>

definition leaves :: "string \<Rightarrow> 'a wf \<Rightarrow> ('a \<Rightarrow> answer option) \<Rightarrow> bool" where
  "leaves c m V \<longleftrightarrow> (\<forall>s x t a. dget (w_dedup s) c = None \<longrightarrow> m s = (Inr x, t) \<longrightarrow> V x = Some a \<longrightarrow> dget (w_dedup t) c = Some a)"

lemma dset_new: "k \<notin> fst ` set d \<Longrightarrow> dset k v d = d @ [(k, v)]"
  by (induction d) auto

lemma remember_get:
  assumes "dget (w_dedup s) c = None"
  shows "dget (w_dedup (remember env c r s)) c = Some r"
proof -
  have new: "dset c r (w_dedup s) = w_dedup s @ [(c, r)]" using assms by (intro dset_new) (simp add: map_of_eq_None_iff)
  have "last_n MAX_DEDUP (w_dedup s @ [(c, r)]) = last_n (MAX_DEDUP - 1) (w_dedup s) @ [(c, r)]"
    by (simp add: last_n_def MAX_DEDUP_def Suc_diff_le)
  moreover have "dget (last_n n (w_dedup s)) c = None" for n
    using assms by (auto simp: last_n_def map_of_eq_None_iff dest: in_set_dropD)
  ultimately show ?thesis using assms by (simp add: remember_def new Let_def map_add_def)
qed

lemma leaves_before:
  assumes "keeps same_answers m" "\<And>x. leaves c (f x) V"
  shows "leaves c (bindW m f) V"
  unfolding leaves_def
proof (intro allI impI)
  fix s x t a
  assume *: "dget (w_dedup s) c = None" "bindW m f s = (Inr x, t)" "V x = Some a"
  then obtain y u where u: "m s = (Inr y, u)" "f y u = (Inr x, t)" by (auto simp: bindW_Inr)
  then have "w_dedup u = w_dedup s" using keepsD[OF assms(1)] by (simp add: same_answers_def)
  then show "dget (w_dedup t) c = Some a" using assms(2)[of y] u(2) * unfolding leaves_def by metis
qed

lemma leaves_then: "keeps same_answers m \<Longrightarrow> leaves c n V \<Longrightarrow> leaves c (thenW m n) V"
  unfolding thenW_def by (rule leaves_before)

lemma leaves_after:
  assumes "leaves c m Some" "\<And>x. keeps same_answers (f x)" "\<And>r s y t. f r s = (Inr y, t) \<Longrightarrow> V y \<in> {None, Some r}"
  shows "leaves c (bindW m f) V"
  unfolding leaves_def
proof (intro allI impI)
  fix s x t a
  assume *: "dget (w_dedup s) c = None" "bindW m f s = (Inr x, t)" "V x = Some a"
  then obtain r u where u: "m s = (Inr r, u)" "f r u = (Inr x, t)" by (auto simp: bindW_Inr)
  then have "w_dedup t = w_dedup u" "a = r" using keepsD[OF assms(2)] assms(3)[OF u(2)] * by (auto simp: same_answers_def)
  then show "dget (w_dedup t) c = Some a" using assms(1) u(1) * unfolding leaves_def by metis
qed

lemma leaves_answered: "leaves c (answered env c r) Some"
  by (auto simp: leaves_def answered_def wf_simps remember_get)

lemma leaves_raise: "leaves c (raiseW e) V"
  by (simp add: leaves_def wf_simps)

lemma leaves_with: "(\<And>s. leaves c (h s) V) \<Longrightarrow> leaves c (withW h) V"
  by (simp add: leaves_def wf_simps)

lemma leaves_if: "(b \<Longrightarrow> leaves c m V) \<Longrightarrow> (\<not> b \<Longrightarrow> leaves c n V) \<Longrightarrow> leaves c (if b then m else n) V"
  by simp

lemma leaves_option: "leaves c m V \<Longrightarrow> (\<And>x. leaves c (f x) V) \<Longrightarrow> leaves c (case p of None \<Rightarrow> m | Some x \<Rightarrow> f x) V"
  by (cases p) auto

lemma leaves_let: "leaves c (f x) V \<Longrightarrow> leaves c (let y = x in f y) V"
  by simp

lemmas leaves_intros = leaves_answered leaves_raise leaves_with leaves_if leaves_option leaves_let leaves_then leaves_before

text \<open>An answered update is in the window, whether it was answered now or before.\<close>

lemma deduped_kept:
  assumes "deduped c body again s = (Inr x, t)" "leaves c body V" "\<And>p. V (again p) = Some p" "V x = Some a"
  shows "dget (w_dedup t) c = Some a"
proof (cases "dget (w_dedup s) c")
  case None
  then have "body s = (Inr x, t)" using assms(1) by (simp add: deduped_def wf_simps)
  then show ?thesis using assms(2,4) None unfolding leaves_def by blast
next
  case (Some p)
  then show ?thesis using assms(3)[of p] assms(1,4) by (auto simp: deduped_def wf_simps)
qed

lemma deduped_id: "deduped c body id s = (Inr a, t) \<Longrightarrow> leaves c body Some \<Longrightarrow> dget (w_dedup t) c = Some a"
  using deduped_kept[of c body id s a t Some a] by simp

lemma deduped_pair: "deduped c body (\<lambda>p. (p, z)) s = (Inr (a, w), t) \<Longrightarrow> leaves c body (\<lambda>(a, w). Some a) \<Longrightarrow> dget (w_dedup t) c = Some a"
  using deduped_kept[of c body "\<lambda>p. (p, z)" s "(a, w)" t "\<lambda>(a, w). Some a" a] by simp

section \<open>The updates\<close>

text \<open>
  The updates of the workflow under one name: the validator Temporal asks first, where the update has one, and the handler. \<open>None\<close>: the update is not answered yet (a plan change that waits for the plan, a
  control that waits for the attempts it cancels).
\<close>

datatype update = USend send_message_input | UPropose completion_proposal | USubmit plan_change_command | UDecide decide_approval_input
  | UControl task_control_input | UGrant grant_budget_input | USwitch request_profile_switch_input | UComplete complete_node_input
  | UConfig update_task_config_input

definition some_answer :: "answer wf \<Rightarrow> answer option wf" where
  "some_answer m = bindW m (\<lambda>a. ret (Some a))"

primrec answer_update :: "env \<Rightarrow> update \<Rightarrow> answer option wf" where
  "answer_update env (USend r) = bindW (send_message env r) (\<lambda>(a, q). ret (Some a))"
| "answer_update env (UPropose r) = some_answer (propose_completion env r)"
| "answer_update env (USubmit r) = submit_plan_change env r"
| "answer_update env (UDecide r) = bindW (decide_approval env r) (\<lambda>(a, w). ret (Some a))"
| "answer_update env (UControl r) = bindW (control env r) (\<lambda>n. ret (case n of Inl a \<Rightarrow> Some a | Inr w \<Rightarrow> None))"
| "answer_update env (UGrant r) = some_answer (grant_budget env r)"
| "answer_update env (USwitch r) = some_answer (request_profile_switch env r)"
| "answer_update env (UComplete r) = some_answer (complete_node env r)"
| "answer_update env (UConfig r) = some_answer (update_task_config env r)"

primrec validate_update :: "update \<Rightarrow> unit wf" where
  "validate_update (USend r) = (\<lambda>self. (validate_send_message r self, self))"
| "validate_update (UPropose r) = ret ()"
| "validate_update (USubmit r) = ret ()"
| "validate_update (UDecide r) = ret ()"
| "validate_update (UControl r) = ret ()"
| "validate_update (UGrant r) = ret ()"
| "validate_update (USwitch r) = ret ()"
| "validate_update (UComplete r) = validate_complete_node r"
| "validate_update (UConfig r) = (\<lambda>self. (validate_update_task_config r self, self))"

definition run_update :: "env \<Rightarrow> update \<Rightarrow> answer option wf" where
  "run_update env u = thenW (validate_update u) (answer_update env u)"

lemma sa_config: "keeps same_answers (modW (\<lambda>s. s\<lparr>w_config := c\<rparr>))"
  by (simp add: keeps_def wf_simps same_answers_def)

lemma grant_kept: "grant_budget env req s = (Inr a, t) \<Longrightarrow> dget (w_dedup t) (gb_command_id req) = Some a"
  unfolding grant_budget_def
  by (erule deduped_id)
    (intro leaves_after[OF leaves_answered] leaves_intros sa_config keeps_rules evolves_rules sa.R_refl; auto simp: wf_simps split: if_splits sum.splits prod.splits option.splits)

lemma switch_kept: "request_profile_switch env req s = (Inr a, t) \<Longrightarrow> dget (w_dedup t) (rp_command_id req) = Some a"
  unfolding request_profile_switch_def Let_def
  by (erule deduped_id)
    (intro leaves_after[OF leaves_answered] leaves_intros sa_config keeps_rules evolves_rules sa.R_refl; auto simp: wf_simps split: if_splits sum.splits prod.splits option.splits)

lemma complete_kept: "complete_node env req s = (Inr a, t) \<Longrightarrow> dget (w_dedup t) (cn_command_id req) = Some a"
  unfolding complete_node_def Let_def
  by (erule deduped_id)
    (intro leaves_after[OF leaves_answered] leaves_intros sa_config keeps_rules evolves_rules sa.R_refl; auto simp: wf_simps split: if_splits sum.splits prod.splits option.splits)

lemma config_kept: "update_task_config env req s = (Inr a, t) \<Longrightarrow> dget (w_dedup t) (uc_command_id req) = Some a"
  unfolding update_task_config_def Let_def
  by (erule deduped_id)
    (intro leaves_after[OF leaves_answered] leaves_intros sa_config keeps_rules evolves_rules sa.R_refl; auto simp: wf_simps split: if_splits sum.splits prod.splits option.splits)

lemma decide_kept: "decide_approval env req s = (Inr (a, w), t) \<Longrightarrow> dget (w_dedup t) (da_command_id req) = Some a"
  unfolding decide_approval_def Let_def
  by (erule deduped_pair)
    (intro leaves_after[OF leaves_answered] leaves_intros sa_config keeps_rules evolves_rules sa.R_refl; auto simp: wf_simps split: if_splits sum.splits prod.splits option.splits)

lemma send_kept: "send_message env req s = (Inr (a, q), t) \<Longrightarrow> dget (w_dedup t) (sm_command_id req) = Some a"
  by (cases "dget (w_dedup s) (sm_command_id req)")
    (auto simp: send_message_def deduped_def answered_def wf_simps emit_other remember_get Let_def split: if_splits)

lemma propose_kept: "propose_completion env req s = (Inr a, t) \<Longrightarrow> dget (w_dedup t) (cp_command_id req) = Some a"
  by (cases "dget (w_dedup s) (cp_command_id req)")
    (auto simp: propose_completion_def wf_simps remember_get split: if_splits option.splits)

lemma leaves_ret: "V x = None \<Longrightarrow> leaves c (ret x) V"
  by (simp add: leaves_def wf_simps)

lemma leaves_control_apply: "leaves (tc_command_id req) (control_apply env req) Some"
  unfolding control_apply_def Let_def by (intro leaves_intros keeps_rules evolves_rules sa.R_refl)

lemma control_kept:
  assumes "control env req s = (Inr (Inl a), t)"
  shows "dget (w_dedup t) (tc_command_id req) = Some a"
proof -
  let ?V = "\<lambda>n :: control_next. case n of Inl a \<Rightarrow> Some a | Inr w \<Rightarrow> None"
  have apply_leaves: "leaves (tc_command_id req) (bindW (control_apply env req) (\<lambda>a. ret (Inl a))) ?V"
    by (rule leaves_after[OF leaves_control_apply]) (auto simp: wf_simps intro: sa.keeps_ret)
  have "leaves (tc_command_id req) (withW (\<lambda>self. case control_refused env (tc_action req) (w_status self) of
        Some e \<Rightarrow> raiseW e
      | None \<Rightarrow> control_cancelling env req (if control_cancels env (tc_action req) then cancel_items self else []))) ?V"
    unfolding control_cancelling_def by (intro leaves_with leaves_option leaves_raise leaves_before sa.keeps_cancel_next apply_leaves leaves_ret) simp
  from deduped_kept[OF assms[unfolded control_def] this] show ?thesis by simp
qed

lemma leaves_remember:
  assumes "keeps same_answers n" "\<And>s y t. n s = (Inr y, t) \<Longrightarrow> V y \<in> {None, Some r}"
  shows "leaves c (thenW (modW (\<lambda>s. (remember env c r s)\<lparr>w_updates := w_updates s + 1\<rparr>)) n) V"
  unfolding leaves_def
proof (intro allI impI)
  fix s x t a
  assume *: "dget (w_dedup s) c = None" "thenW (modW (\<lambda>s. (remember env c r s)\<lparr>w_updates := w_updates s + 1\<rparr>)) n s = (Inr x, t)" "V x = Some a"
  let ?u = "(remember env c r s)\<lparr>w_updates := w_updates s + 1\<rparr>"
  have n: "n ?u = (Inr x, t)" using *(2) by (simp add: wf_simps)
  then have "w_dedup t = w_dedup ?u" "a = r" using keepsD[OF assms(1)] assms(2)[OF n] *(3) by (auto simp: same_answers_def)
  then show "dget (w_dedup t) c = Some a" using remember_get[OF *(1)] by simp
qed

lemma sa_judge: "keeps same_answers (judge env c pol)"
  unfolding judge_def by (intro sa.keeps_intros keeps_cases)

lemma leaves_submit: "leaves (pc_command_id c) (submit_judged env c) Some"
  unfolding submit_judged_def
  by (intro leaves_before leaves_remember sa_judge keeps_rules evolves_rules sa.R_plan sa.R_refl) (auto simp: wf_simps split: sum.splits prod.splits)

lemma submit_kept:
  assumes "submit_plan_change env c s = (Inr (Some a), t)"
  shows "dget (w_dedup t) (pc_command_id c) = Some a"
proof (cases "dget (w_dedup s) (pc_command_id c)")
  case None
  let ?m = "thenW (whenW (w_plan s = None) (modW (\<lambda>s.
      let task_id = (if w_task_id s = [] then pc_task_id c else w_task_id s);
          profile = (if w_profile s = [] then ''default@1'' else w_profile s) in
      s\<lparr>w_task_id := task_id, w_profile := profile, w_plan := Some (initial_plan (e_px env) task_id (w_goal s) profile)\<rparr>)))
    (bindW (submit_judged env c) (\<lambda>a. ret (Some a)))"
  have m: "?m s = (Inr (Some a), t)" using assms None by (auto simp: submit_plan_change_def withW_run ret_run split: if_splits)
  have "leaves (pc_command_id c) ?m id"
    unfolding Let_def by (intro leaves_then leaves_after[OF leaves_submit] keeps_rules evolves_rules sa.R_plan sa.R_refl) (auto simp: wf_simps)
  then show ?thesis using m None by (auto simp: leaves_def)
qed (use assms in \<open>auto simp: submit_plan_change_def wf_simps\<close>)

primrec command_of :: "update \<Rightarrow> string" where
  "command_of (USend r) = sm_command_id r"
| "command_of (UPropose r) = cp_command_id r"
| "command_of (USubmit r) = pc_command_id r"
| "command_of (UDecide r) = da_command_id r"
| "command_of (UControl r) = tc_command_id r"
| "command_of (UGrant r) = gb_command_id r"
| "command_of (USwitch r) = rp_command_id r"
| "command_of (UComplete r) = cn_command_id r"
| "command_of (UConfig r) = uc_command_id r"

text \<open>
  A closed task takes no message and no proposal, not even a repeated one, and the validator refuses a message that mentions a role
  the team no longer has.
\<close>

definition team_roles :: "task \<Rightarrow> string list" where
  "team_roles self = (case c_team (w_config self) of None \<Rightarrow> [] | Some team \<Rightarrow> map tm_role (team_members team))"

definition still_taken :: "update \<Rightarrow> task \<Rightarrow> bool" where
  "still_taken u self = (case u of
     USend r \<Rightarrow> \<not> closed (w_status self) \<and> set (sm_mentions r) \<subseteq> set (team_roles self)
   | UPropose r \<Rightarrow> \<not> closed (w_status self)
   | _ \<Rightarrow> True)"

lemma validate_runs: "validate_update u s = (Inr (), t) \<Longrightarrow> t = s"
  by (cases u) (auto simp: validate_complete_node_def wf_simps dest!: require_node_run split: if_splits prod.splits sum.splits)

lemma some_answer_iff: "some_answer m s = (Inr (Some a), t) \<longleftrightarrow> m s = (Inr a, t)"
  by (auto simp: some_answer_def wf_simps split: sum.splits prod.splits)

lemma answer_kept:
  assumes "answer_update env u s = (Inr (Some a), t)"
  shows "dget (w_dedup t) (command_of u) = Some a"
  using assms
proof (cases u)
  case (USend r)
  then show ?thesis using assms send_kept[of env r s a] by (auto simp: bindW_Inr ret_run)
next
  case (UDecide r)
  then show ?thesis using assms decide_kept[of env r s a] by (auto simp: bindW_Inr ret_run)
next
  case (UControl r)
  then have "control env r s = (Inr (Inl a), t)" using assms by (auto simp: wf_simps split: sum.splits prod.splits)
  then show ?thesis using UControl control_kept by simp
qed (auto simp: some_answer_iff intro: propose_kept submit_kept grant_kept switch_kept complete_kept config_kept)

lemma answered_kept:
  assumes "run_update env u s = (Inr (Some a), t)"
  shows "dget (w_dedup t) (command_of u) = Some a"
  using assms answer_kept[of env u s a t] by (auto simp: run_update_def thenW_Inr dest: validate_runs)

lemma validate_again:
  assumes "dget (w_dedup t) (command_of u) = Some a" "still_taken u t"
  shows "validate_update u t = (Inr (), t)"
proof (cases u)
  case (USend r)
  then have "filter (\<lambda>m. m \<notin> set (team_roles t)) (sm_mentions r) = []" using assms(2) by (auto simp: still_taken_def filter_empty_conv)
  then show ?thesis using USend assms(2) by (simp add: still_taken_def validate_send_message_def team_roles_def Let_def)
qed (use assms key_of_dget[OF assms(1)] in \<open>simp_all add: validate_complete_node_def validate_update_task_config_def wf_simps\<close>)

lemma kept_again:
  assumes "dget (w_dedup t) (command_of u) = Some a" "still_taken u t"
  shows "run_update env u t = (Inr (Some a), t)"
  unfolding run_update_def thenW_run validate_again[OF assms]
  using assms by (cases u) (simp_all add: still_taken_def some_answer_def send_message_def propose_completion_def submit_plan_change_def decide_approval_def
    control_def grant_budget_def request_profile_switch_def complete_node_def update_task_config_def deduped_def wf_simps)

text \<open>C8. Every update is idempotent under its command id, for all nine updates of the workflow with their validators: the answer it was
  given is kept, and in any later state that still keeps it (the window holds the most recent 512) the same command is given the same
  answer and leaves the task exactly as it is, with no second message, grant, decision, plan change or event. The exceptions are part
  of the statement: a task that was closed meanwhile refuses a repeated message or proposal, and a repeated message is refused when a
  role it mentions is no longer in the team.\<close>

theorem updates_idempotent:
  assumes "run_update env u s = (Inr (Some a), t)"
  shows "dget (w_dedup t) (command_of u) = Some a
    \<and> (\<forall>env' t'. dget (w_dedup t') (command_of u) = Some a \<and> still_taken u t' \<longrightarrow> run_update env' u t' = (Inr (Some a), t'))"
  using answered_kept[OF assms] kept_again[of _ u a] by blast

definition demo_message :: send_message_input where
  "demo_message = \<lparr>sm_command_id = ''c'', sm_client_message_id = ''m'', sm_text = ''hi'', sm_attachments = [], sm_delivery = Queue, sm_mentions = []\<rparr>"

lemma demo_message_simps [simp]: "sm_command_id demo_message = ''c''" "sm_mentions demo_message = []" "sm_delivery demo_message = Queue"
  by (simp_all add: demo_message_def)

lemma demo_message_taken: "\<not> closed (w_status s) \<Longrightarrow> validate_send_message demo_message s = Inr ()"
  by (simp add: validate_send_message_def Let_def)

theorem updates_idempotent_witness:
  "\<exists>t. run_update demo_env (USend demo_message) init_task = (Inr (Some (SendMessageResult 1)), t) \<and> length (w_inbox init_task) = 0
     \<and> run_update demo_env (USend demo_message) t = (Inr (Some (SendMessageResult 1)), t)"
proof -
  define t where "t = snd (run_update demo_env (USend demo_message) init_task)"
  have run: "run_update demo_env (USend demo_message) init_task = (Inr (Some (SendMessageResult 1)), t)"
    by (simp add: t_def run_update_def demo_message_taken send_message_def deduped_def answered_def wf_simps Let_def init_task_def closed_def message_of_def)
  have "w_status t = TS_CREATED"
    by (simp add: t_def run_update_def demo_message_taken send_message_def deduped_def answered_def wf_simps Let_def init_task_def closed_def emit_other remember_def)
  then show ?thesis using updates_idempotent[OF run] run by (intro exI[of _ t]) (simp add: still_taken_def init_task_def closed_def)
qed

section \<open>An update that comes with the start of a run\<close>

text \<open>A message answered before \<open>run\<close> is called.\<close>

definition early_sys :: sys where
  "early_sys = new_sys\<lparr>s_task := snd (send_message demo_env demo_message init_task), s_pending := [PInterrupt []]\<rparr>"

lemma early_sent:
  "send_message demo_env demo_message init_task = (Inr (SendMessageResult 1, []), s_task early_sys)"
  "w_dedup (s_task early_sys) = [(''c'', SendMessageResult 1)]"
  by (simp_all add: early_sys_def send_message_def deduped_def answered_def wf_simps Let_def init_task_def closed_def message_of_def emit_other
      remember_def MAX_DEDUP_def last_n_def)

lemma early_reached: "early demo_env early_sys"
proof -
  have "validate_send_message demo_message (s_task new_sys) = Inr ()" "send_message demo_env demo_message (s_task new_sys) = (Inr (SendMessageResult 1, []), s_task early_sys)"
    using early_sent(1) by (auto simp: new_sys_def init_task_def closed_def intro: demo_message_taken)
  then have "sys_step demo_env new_sys (new_sys\<lparr>s_task := s_task early_sys, s_pending := s_pending new_sys @ [PInterrupt []]\<rparr>)"
    using sys_step.send[of demo_message new_sys demo_env] by fastforce
  moreover have "new_sys\<lparr>s_task := s_task early_sys, s_pending := s_pending new_sys @ [PInterrupt []]\<rparr> = early_sys"
    by (simp add: early_sys_def new_sys_def)
  ultimately show ?thesis using early.step[OF early.new, of demo_env demo_env] by (simp add: same_run_def)
qed

text \<open>
  \<open>_load\<close> does not expect it: the run starts with the answer beside all the carried ones, so with one more than the window holds when
  that was full, and the message has left the inbox, which is the carried one.
\<close>

theorem early_answer_beyond_window:
  assumes "''c'' \<notin> fst ` set d"
  shows "\<exists>y. reachable_from demo_env early_sys (demo_input (Some (demo_carry\<lparr>ca_dedup := d\<rparr>))) y
    \<and> length (w_dedup (s_task y)) = Suc (length d) \<and> w_inbox (s_task y) = []"
proof -
  let ?inp = "demo_input (Some (demo_carry\<lparr>ca_dedup := d\<rparr>))"
  define t where "t = snd (run_start demo_env ?inp (s_task early_sys))"
  have d: "filter (\<lambda>(k, v). k \<noteq> ''c'') d = d" using assms by (force simp: filter_id_conv)
  have t: "run_start demo_env ?inp (s_task early_sys) = (Inr (), t)" "length (w_dedup t) = Suc (length d)" "w_inbox t = []"
    by (simp_all add: t_def run_start_def load_def wf_simps demo_carry_def fresh_objects_def enumerate_eq_zip rearm_after_load_def
        make_plan_def set_status_def demo_attempt_def with_answers_def early_sent(2) d)
  then have "started_from demo_env early_sys ?inp (early_sys\<lparr>s_place := LHead, s_task := t\<rparr>)" by (simp add: started_from_def)
  from reachable_from.start[OF _ this, of demo_env] t(2,3) show ?thesis
    by (intro exI[of _ "early_sys\<lparr>s_place := LHead, s_task := t\<rparr>"]) (simp add: same_run_def)
qed

text \<open>
  And the versions start again from the carried ones: a message sent once the run has begun gets the number and the version the early
  one had.
\<close>

definition again_input :: task_input where
  "again_input = demo_input (Some (demo_carry\<lparr>ca_next_message_seq := 1\<rparr>))"

definition again_message :: send_message_input where
  "again_message = demo_message\<lparr>sm_command_id := ''d''\<rparr>"

text \<open>The entities and versions of the events.\<close>

definition stamps :: "task \<Rightarrow> (string \<times> nat) list" where
  "stamps s = map (\<lambda>e. (event_key e, ev_version e)) (w_events s)"

lemma message_entity: "im_message_seq m \<noteq> 0 \<Longrightarrow> entity_of env s ''message.user'' (message_payload m) = (''message'', nat_str (im_message_seq m))"
  by (simp add: entity_of_def entity_kind_def is_node_event_def message_payload_def truthy_def int_str_def startswith_def)

lemma message_stamp:
  assumes "im_message_seq m \<noteq> 0"
  shows "stamps (emit env ''message.user'' (message_payload m) s)
    = stamps s @ [(''message:'' @ nat_str (im_message_seq m), Suc (get_version (w_entity_versions s) (''message:'' @ nat_str (im_message_seq m))))]"
proof -
  have "\<not> is_node_event env ''message.user'' (message_payload m)" by (simp add: is_node_event_def startswith_def)
  then show ?thesis by (simp add: stamps_def emit_def message_entity[OF assms] next_versions_def get_version_dset event_key_def Let_def)
qed

lemma sent_stamp:
  assumes "\<not> closed (w_status s)" "dget (w_dedup s) (sm_command_id r) = None" "w_next_message_seq s = Suc n" "sm_delivery r = Queue"
  shows "fst (send_message env r s) = Inr (SendMessageResult (Suc n), [])"
    "stamps (snd (send_message env r s))
      = stamps s @ [(''message:'' @ nat_str (Suc n), Suc (get_version (w_entity_versions s) (''message:'' @ nat_str (Suc n))))]"
proof -
  have st: "stamps (x\<lparr>w_commands := q\<rparr>) = stamps x" for x q by (simp add: stamps_def)
  show "fst (send_message env r s) = Inr (SendMessageResult (Suc n), [])"
    using assms by (simp add: send_message_def deduped_def answered_def wf_simps message_of_def Let_def)
  show "stamps (snd (send_message env r s))
      = stamps s @ [(''message:'' @ nat_str (Suc n), Suc (get_version (w_entity_versions s) (''message:'' @ nat_str (Suc n))))]"
    using assms message_stamp[of "message_of r (Suc n)"]
    by (simp add: send_message_def deduped_def answered_def wf_simps Let_def message_of_def remember_def stamps_def)
qed

definition again_task :: task where
  "again_task = snd (run_start demo_env again_input (s_task early_sys))"

lemma again_runs:
  "run_start demo_env again_input (s_task early_sys) = (Inr (), again_task)" "w_status again_task = TS_RUNNING" "w_next_message_seq again_task = Suc 0"
  "dget (w_dedup again_task) ''d'' = None" "stamps again_task = stamps (s_task early_sys)" "get_version (w_entity_versions again_task) ''message:1'' = 0"
  by (simp_all add: again_task_def again_input_def stamps_def get_version_def run_start_def load_def wf_simps demo_carry_def fresh_objects_def enumerate_eq_zip
      rearm_after_load_def make_plan_def set_status_def demo_attempt_def with_answers_def early_sent(2))

lemma nat_str_one [simp]: "nat_str (Suc 0) = ''1''"
  by code_simp

lemma early_stamp: "stamps (s_task early_sys) = [(''message:1'', 1)]"
  using sent_stamp(2)[of init_task demo_message 0 demo_env]
  by (simp add: early_sys_def init_task_def closed_def stamps_def get_version_def)

theorem early_version_again:
  "\<exists>y. reachable_from demo_env early_sys again_input y \<and> stamps (s_task y) = [(''message:1'', 1), (''message:1'', 1)]"
proof -
  define y where "y = early_sys\<lparr>s_place := LHead, s_task := again_task\<rparr>"
  have "started_from demo_env early_sys again_input y" using again_runs(1) by (simp add: started_from_def y_def)
  then have y: "reachable_from demo_env early_sys again_input y" by (intro reachable_from.start[of _ demo_env]) (simp_all add: same_run_def)
  have open_task: "\<not> closed (w_status again_task)" using again_runs(2) by (simp add: closed_def)
  have r: "sm_command_id again_message = ''d''" "sm_delivery again_message = Queue" "sm_mentions again_message = []" by (simp_all add: again_message_def)
  obtain t where t: "send_message demo_env again_message again_task = (Inr (SendMessageResult 1, []), t)"
    "stamps t = [(''message:1'', 1), (''message:1'', 1)]"
    using sent_stamp[OF open_task _ again_runs(3), of again_message demo_env] r again_runs(4-6) early_stamp by (cases "send_message demo_env again_message again_task") simp
  have "validate_send_message again_message again_task = Inr ()" using open_task r by (simp add: validate_send_message_def)
  then have "sys_step demo_env y (y\<lparr>s_task := t, s_pending := s_pending y @ [PInterrupt []]\<rparr>)"
    using sys_step.send[of again_message y demo_env] t(1) by (fastforce simp: y_def)
  from reachable_from.step[OF y _ _ this] show ?thesis using t(2)
    by (intro exI[of _ "y\<lparr>s_task := t, s_pending := s_pending y @ [PInterrupt []]\<rparr>"]) (simp add: same_run_def is_over_def y_def)
qed

end
