(* ===== verification/Task_Reports.thy ===== *)
theory Task_Reports
  imports Task_Safety
begin

text \<open>
  What an attempt reports is taken once: the end of an attempt that is being settled is not settled again, and a report of an
  attempt the books no longer hold is passed over.
\<close>

section \<open>Objects in the books\<close>

lemma find_distinct: "distinct (map f xs) \<Longrightarrow> a \<in> set xs \<Longrightarrow> find (\<lambda>b. f b = f a) xs = Some a"
  by (induction xs) (auto simp: image_iff)

lemma attempt_at_books: "objects_ok s \<Longrightarrow> dget (w_attempts s) n = Some a \<Longrightarrow> attempt_at (x_object a) s = Some a"
  unfolding attempt_at_def objects_ok_def by (rule find_distinct) (auto dest!: map_of_SomeD intro: rev_image_eqI)

lemma finishing_again:
  assumes "objects_ok t" "dget (w_attempts t) (af_node_id sg) = Some b" "x_finishing b" "e_patched env VERIFY_FINISHED_ATTEMPTS"
  shows "attempt_finished env sg t = (Inr None, t\<lparr>w_wake := w_wake t + 1\<rparr>)"
proof -
  have "attempt_at (x_object b) (t\<lparr>w_wake := w_wake t + 1\<rparr>) = Some b" using attempt_at_books[OF assms(1,2)] by (simp add: attempt_at_def)
  then show ?thesis using assms(2-4) by (simp add: attempt_finished_def finish_attempt_def wf_simps)
qed

text \<open>The handler after the attempt was marked as ending.\<close>

lemma keeps_ending:
  "keeps (evolves env) (thenW (modW (settle_attempt env obj (reported_usage signal)))
           (thenW (whenW (e_patched env PROFILE_SWITCH)
              (modW (\<lambda>s. s\<lparr>w_handovers := dset (af_node_id signal) (take HANDOVER_CHARS (said_at_end signal)) (w_handovers s)\<rparr>)))
           (thenW (modW (attempt_ended env obj (af_unconsumed_messages signal)))
           (if af_outcome signal = OCompleted
            then thenW (modW (\<lambda>s. emit_manifest_created env signal (record_review_output signal (record_step_output signal s))))
              (finish_report env signal obj)
            else thenW (finish_settle env signal obj []) (ret None)))))"
  by (intro keeps_rules evolves_rules ev.R_refl)

lemma finish_marks:
  assumes "attempt_at obj s = Some a" "x_attempt_id a = af_attempt_id sg" "\<not> x_finishing a" "finish_attempt env sg obj s = (r, t)"
  shows "evolves env (mut_attempt obj (\<lambda>a. a\<lparr>x_finishing := True, x_status := AEnded (af_outcome sg), x_result := af_result sg\<rparr>) s) t"
  using keepsD[OF keeps_ending] assms unfolding finish_attempt_def by (simp add: withW_run thenW_run[of "modW _"] modW_run)

text \<open>C9. The report of an attempt's end is counted once, whatever was done with it: delivered a second time, in the state the first
  delivery left, it only wakes the loop. It settles no node, charges no usage, counts no failure against the node and makes no event,
  and this holds also when the first delivery raised or is still waiting for the checks of the completion.\<close>

theorem report_counts_once:
  assumes "reachable e0 inp y" "same_run e0 env" "e_patched e0 VERIFY_FINISHED_ATTEMPTS" "attempt_finished env sg (s_task y) = (r, t)"
  shows "attempt_finished env sg t = (Inr None, t\<lparr>w_wake := w_wake t + 1\<rparr>)"
proof -
  let ?s = "(s_task y)\<lparr>w_wake := w_wake (s_task y) + 1\<rparr>"
  have v: "e_patched env VERIFY_FINISHED_ATTEMPTS" using assms(2,3) by (simp add: same_run_def)
  have oks: "objects_ok (s_task y)" using reachable_objects[OF assms(1)] .
  have okt: "objects_ok t" using keepsD[OF ob.keeps_finished assms(4)] oks by (simp add: objects_kept_def)
  show ?thesis
  proof (cases "dget (w_attempts (s_task y)) (af_node_id sg)")
    case None
    then show ?thesis using assms(4) by (auto simp: attempt_finished_def wf_simps)
  next
    case (Some a)
    have at: "attempt_at (x_object a) ?s = Some a" using attempt_at_books[OF oks Some] by (simp add: attempt_at_def)
    show ?thesis
    proof (cases "x_attempt_no a = af_attempt_no sg \<and> x_attempt_id a = af_attempt_id sg \<and> \<not> x_finishing a")
      case False
      have "attempt_at (x_object a) (?s\<lparr>w_wake := w_wake ?s + 1\<rparr>) = Some a" using at by (simp add: attempt_at_def)
      moreover have "t = ?s" using assms(4) Some at v False by (auto simp: attempt_finished_def finish_attempt_def wf_simps split: if_splits)
      ultimately show ?thesis using Some v False by (auto simp: attempt_finished_def finish_attempt_def wf_simps)
    next
      case True
      then have 4: "x_attempt_no a = af_attempt_no sg" "x_attempt_id a = af_attempt_id sg" "\<not> x_finishing a" by auto
      obtain r' where "finish_attempt env sg (x_object a) ?s = (r', t)"
        using assms(4) Some 4 v by (auto simp: attempt_finished_def wf_simps split: prod.splits sum.splits)
      from finish_marks[OF at 4(2,3) this]
      have k: "attempts_kept (mut_attempt (x_object a) (\<lambda>a. a\<lparr>x_finishing := True, x_status := AEnded (af_outcome sg), x_result := af_result sg\<rparr>) ?s) t"
        by (simp add: evolves_def)
      show ?thesis
      proof (cases "dget (w_attempts t) (af_node_id sg)")
        case (Some b)
        have "x_finishing b" using k[unfolded attempts_kept_def, rule_format, OF Some] \<open>dget (w_attempts (s_task y)) (af_node_id sg) = Some a\<close>
          by (auto simp: mut_attempt_def dict_simps)
        then show ?thesis using finishing_again[OF okt Some _ v] by simp
      qed (simp add: attempt_finished_def wf_simps)
    qed
  qed
qed

definition demo_report :: attempt_finished_signal where
  "demo_report = \<lparr>af_node_id = ''n1'', af_attempt_no = 1, af_attempt_id = ''att_1'', af_outcome = OCancelled, af_result = None, af_failure = None,
     af_unconsumed_messages = [], af_heard_message_seqs = None, af_usage = None\<rparr>"

theorem report_counts_once_witness:
  "\<exists>y r t. reachable demo_env (demo_input (Some demo_carry)) y \<and> attempt_finished demo_env demo_report (s_task y) = (r, t)
     \<and> map (x_finishing \<circ> snd) (w_attempts (s_task y)) = [False]
     \<and> attempt_finished demo_env demo_report t = (Inr None, t\<lparr>w_wake := w_wake t + 1\<rparr>)"
proof -
  obtain y where y: "reachable demo_env (demo_input (Some demo_carry)) y" "w_attempts (s_task y) = [(''n1'', demo_attempt\<lparr>x_object := 0\<rparr>)]"
    by (rule demo_continued) (blast intro: from_new)
  obtain r t where t: "attempt_finished demo_env demo_report (s_task y) = (r, t)" by force
  have "map (x_finishing \<circ> snd) (w_attempts (s_task y)) = [False]" by (simp add: y(2) demo_attempt_def)
  then show ?thesis using report_counts_once[OF y(1) _ _ t] t y(1) by (auto simp: same_run_def)
qed

end
