(* ===== verification/Task_Schedule.thy ===== *)
theory Task_Schedule
  imports Task_Safety "HOL-Library.Sublist"
begin

text \<open>
  What the schedule of a round is: the nodes that can start now, in the order of the plan, within the limits of concurrency and
  with one writer; and that nothing that could start is left out.
\<close>

section \<open>Nodes that can start\<close>

definition deps_completed :: "plan_state \<Rightarrow> string \<Rightarrow> bool" where
  "deps_completed plan n \<longleftrightarrow> (\<forall>m. (m, n) \<in> set (pl_edges plan) \<longrightarrow> (\<exists>s. dget (pl_nodes plan) m = Some s \<and> ns_status s = COMPLETED))"

text \<open>A node that may start: it waits to be started, no attempt of it is in the books, its backoff is over and all it depends on is done.\<close>

definition can_start :: "env \<Rightarrow> task \<Rightarrow> plan_state \<Rightarrow> string \<Rightarrow> plan_node_state \<Rightarrow> bool" where
  "can_start env self plan n st \<longleftrightarrow> ns_status st \<in> {READY, RETRY_PENDING} \<and> \<not> has_key (w_attempts self) n
     \<and> backoff_remaining env self n \<le> 0 \<and> deps_completed plan n"

text \<open>A node that takes a slot when it starts (an SOP that is expanded into the plan takes none), and one that writes the workspace.\<close>

definition takes_slot :: "env \<Rightarrow> plan_state \<Rightarrow> string \<Rightarrow> bool" where
  "takes_slot env plan n = (case dget (pl_nodes plan) n of None \<Rightarrow> False
     | Some st \<Rightarrow> d_type (ns_draft st) \<in> set agent_types \<and> \<not> (d_type (ns_draft st) = SopStage \<and> e_patched env SOP_EXPANSION))"

definition takes_workspace :: "env \<Rightarrow> plan_state \<Rightarrow> string \<Rightarrow> bool" where
  "takes_workspace env plan n \<longleftrightarrow> takes_slot env plan n
     \<and> (case dget (pl_nodes plan) n of None \<Rightarrow> False | Some st \<Rightarrow> d_workspace_access (ns_draft st) = Some WriteAccess)"

definition free_slots :: "task \<Rightarrow> int" where
  "free_slots self = int (max_concurrency self) - int (running_count self)"

lemma all_scheduled: "d_type d \<in> set SCHEDULED_TYPES"
  by (cases "d_type d") (simp_all add: SCHEDULED_TYPES_def)

lemma sources_done_spec:
  assumes "fst ` set es \<subseteq> fst ` set nodes"
  shows "sources_done nodes n es
    = Inr (\<forall>m. (m, n) \<in> set es \<longrightarrow> (\<exists>s. dget nodes m = Some s \<and> ns_status s = COMPLETED))"
  using assms
proof (induction es)
  case (Cons e es)
  obtain s where "dget nodes (fst e) = Some s" using Cons.prems by (cases "dget nodes (fst e)") (auto simp: map_of_eq_None_iff)
  then show ?case using Cons by (cases e) auto
qed simp

lemma dependencies_done_spec:
  assumes "plan_wf plan" "w_plan self = Some plan"
  shows "dependencies_done self n = Inr (deps_completed plan n)"
proof -
  have "fst ` set (pl_edges plan) \<subseteq> fst ` set (pl_nodes plan)" using assms(1) by (auto simp: plan_wf_def)
  then show ?thesis using assms(2) by (simp add: dependencies_done_def deps_completed_def sources_done_spec)
qed

section \<open>The loop\<close>

text \<open>
  The state of the loop: what it has chosen fits what it has left (\<open>chose\<close>), what it passed over it passed over for a reason
  (\<open>passed\<close>).
\<close>

definition chose :: "env \<Rightarrow> task \<Rightarrow> plan_state \<Rightarrow> int \<Rightarrow> bool \<Rightarrow> string list \<Rightarrow> bool" where
  "chose env self plan slots busy order \<longleftrightarrow>
     (\<forall>n\<in>set order. \<exists>st. dget (pl_nodes plan) n = Some st \<and> can_start env self plan n st)
     \<and> slots = free_slots self - int (length (filter (takes_slot env plan) order))
     \<and> (0 \<le> slots \<or> length (filter (takes_slot env plan) order) = 0)
     \<and> (busy \<longleftrightarrow> write_busy self \<or> 0 < length (filter (takes_workspace env plan) order))
     \<and> length (filter (takes_workspace env plan) order) \<le> (if write_busy self then 0 else 1)"

definition passed :: "env \<Rightarrow> task \<Rightarrow> plan_state \<Rightarrow> int \<Rightarrow> bool \<Rightarrow> string list \<Rightarrow> string \<times> plan_node_state \<Rightarrow> bool" where
  "passed env self plan slots busy order p \<longleftrightarrow> \<not> can_start env self plan (fst p) (snd p) \<or> fst p \<in> set order
     \<or> takes_slot env plan (fst p) \<and> (slots \<le> 0 \<or> takes_workspace env plan (fst p) \<and> busy)"

definition ready_inv :: "env \<Rightarrow> task \<Rightarrow> plan_state \<Rightarrow> (string \<times> plan_node_state) list \<Rightarrow> int \<times> bool \<times> string list \<Rightarrow> bool" where
  "ready_inv env self plan ps = (\<lambda>(slots, busy, order). subseq order (map fst ps) \<and> chose env self plan slots busy order
     \<and> list_all (passed env self plan slots busy order) ps)"

lemma chose_more:
  assumes "chose env self plan slots busy order" "dget (pl_nodes plan) n = Some st" "can_start env self plan n st"
    and "\<not> (takes_slot env plan n \<and> (slots \<le> 0 \<or> takes_workspace env plan n \<and> busy))"
  shows "chose env self plan (if takes_slot env plan n then slots - 1 else slots) (busy \<or> takes_workspace env plan n) (order @ [n])"
proof -
  have sub: "takes_workspace env plan n \<Longrightarrow> takes_slot env plan n" by (simp add: takes_workspace_def)
  let ?k = "length (filter (takes_slot env plan) order)" and ?w = "length (filter (takes_workspace env plan) order)"
  have old: "\<forall>m\<in>set order. \<exists>st. dget (pl_nodes plan) m = Some st \<and> can_start env self plan m st" "slots = free_slots self - int ?k"
      "0 \<le> slots \<or> ?k = 0" "busy \<longleftrightarrow> write_busy self \<or> 0 < ?w" "?w \<le> (if write_busy self then 0 else 1)"
    using assms(1) unfolding chose_def by blast+
  have k: "length (filter (takes_slot env plan) (order @ [n])) = (if takes_slot env plan n then ?k + 1 else ?k)"
    and w: "length (filter (takes_workspace env plan) (order @ [n])) = (if takes_workspace env plan n then ?w + 1 else ?w)" by simp_all
  show ?thesis unfolding chose_def k w
  proof (intro conjI)
    show "\<forall>m\<in>set (order @ [n]). \<exists>st. dget (pl_nodes plan) m = Some st \<and> can_start env self plan m st" using old(1) assms(2,3) by auto
  qed (use old(2-5) assms(4) sub in \<open>auto split: if_splits\<close>)
qed

lemma passed_more: "passed env self plan slots busy order p \<Longrightarrow>
    passed env self plan (if takes_slot env plan n then slots - 1 else slots) (busy \<or> takes_workspace env plan n) (order @ [n]) p"
  by (auto simp: passed_def)

lemma ready_step_inv:
  assumes wf: "plan_wf plan" "w_plan self = Some plan" and p: "(n, st) \<in> set (pl_nodes plan)"
    and inv: "ready_inv env self plan ps acc"
  obtains acc' where "ready_step env self acc (n, st) = Inr acc'" "ready_inv env self plan (ps @ [(n, st)]) acc'"
proof -
  obtain slots busy order where acc: "acc = (slots, busy, order)" by (cases acc) auto
  have st: "dget (pl_nodes plan) n = Some st" using p wf(1) by (simp add: plan_wf_def)
  have slot: "takes_slot env plan n \<longleftrightarrow> d_type (ns_draft st) \<in> set agent_types \<and> \<not> (d_type (ns_draft st) = SopStage \<and> e_patched env SOP_EXPANSION)"
    and space: "takes_workspace env plan n \<longleftrightarrow> takes_slot env plan n \<and> d_workspace_access (ns_draft st) = Some WriteAccess"
    using st by (simp_all add: takes_slot_def takes_workspace_def)
  have old: "subseq order (map fst ps)" "chose env self plan slots busy order" "list_all (passed env self plan slots busy order) ps"
    using inv by (simp_all add: acc ready_inv_def)
  have skip: "subseq order (map fst (ps @ [(n, st)]))" and take_it: "subseq (order @ [n]) (map fst (ps @ [(n, st)]))"
    using old(1) by (auto intro: list_emb_append_mono subseq_order.trans[OF _ subseq_rev_drop_many[of "[n]"]])
  let ?c = "takes_slot env plan n" and ?w = "takes_workspace env plan n"
  consider "\<not> can_start env self plan n st" | "can_start env self plan n st" "?c \<and> (slots \<le> 0 \<or> ?w \<and> busy)"
    | "can_start env self plan n st" "\<not> (?c \<and> (slots \<le> 0 \<or> ?w \<and> busy))" by blast
  then show thesis
  proof cases
    case 1
    then have "ready_step env self acc (n, st) = Inr acc"
      by (auto simp: acc ready_step_def can_start_def dependencies_done_spec[OF wf] all_scheduled)
    then show thesis using that skip old(2,3) 1 by (simp add: acc ready_inv_def passed_def)
  next
    case 2
    then have "ready_step env self acc (n, st) = Inr acc"
      using slot space by (auto simp: acc ready_step_def can_start_def dependencies_done_spec[OF wf] all_scheduled)
    then show thesis using that skip old(2,3) 2 by (simp add: acc ready_inv_def passed_def)
  next
    case 3
    let ?acc = "(if ?c then slots - 1 else slots, busy \<or> ?w, order @ [n])"
    have "ready_step env self acc (n, st) = Inr ?acc"
      using 3 slot space by (auto simp: acc ready_step_def can_start_def dependencies_done_spec[OF wf] all_scheduled)
    moreover have "list_all (passed env self plan (fst ?acc) (fst (snd ?acc)) (snd (snd ?acc))) (ps @ [(n, st)])"
      using old(3) passed_more[of env self plan slots busy order _ n] by (auto simp: list_all_iff passed_def[of _ _ _ _ _ _ "(n, st)"])
    ultimately show thesis using that[of ?acc] take_it chose_more[OF old(2) st 3] by (simp add: ready_inv_def)
  qed
qed

lemma ready_loop:
  assumes wf: "plan_wf plan" "w_plan self = Some plan" and "set qs \<subseteq> set (pl_nodes plan)" "ready_inv env self plan ps acc"
  shows "\<exists>acc'. foldE (ready_step env self) acc qs = Inr acc' \<and> ready_inv env self plan (ps @ qs) acc'"
  using assms(3,4)
proof (induction qs arbitrary: ps acc)
  case (Cons q qs)
  obtain n st where q: "q = (n, st)" by force
  obtain acc1 where a: "ready_step env self acc q = Inr acc1" "ready_inv env self plan (ps @ [q]) acc1"
    using ready_step_inv[OF wf _ Cons.prems(2), of n st] Cons.prems(1) q by auto
  then show ?case using Cons.IH[OF _ a(2)] Cons.prems(1) by simp
qed simp

lemma ready_order_inv:
  assumes "plan_wf plan" "w_plan self = Some plan"
  obtains slots busy order where "ready_order env self = Inr order" "subseq order (dkeys (pl_nodes plan))"
    "chose env self plan slots busy order" "list_all (passed env self plan slots busy order) (pl_nodes plan)"
proof -
  have "ready_inv env self plan [] (free_slots self, write_busy self, [])" by (simp add: ready_inv_def chose_def)
  from ready_loop[OF assms order.refl this] obtain slots busy order where
      "foldE (ready_step env self) (free_slots self, write_busy self, []) (pl_nodes plan) = Inr (slots, busy, order)"
      "ready_inv env self plan (pl_nodes plan) (slots, busy, order)" by auto
  then show thesis using that[of order slots busy] assms(2) by (simp add: ready_order_def free_slots_def ready_inv_def)
qed

text \<open>C37. On a well-formed plan the order the scheduler computes at the beginning of a round exists (no lookup fails) and is exactly
  right for the state it is computed in: it lists nodes of the plan in the
  plan's order, each waiting to start with nothing running for it, its backoff over and everything it depends on completed; the nodes
  that need an agent are at most the free slots, and at most one of them writes the workspace, none while an attempt already does. What the round
  then starts is another matter: it waits between two starts and looks again at the status, the slots and the writer of a node, not at
  its dependencies.\<close>

theorem ready_order_sound:
  assumes "plan_wf plan" "w_plan self = Some plan"
  shows "\<exists>order. ready_order env self = Inr order \<and> subseq order (dkeys (pl_nodes plan))
    \<and> list_all (\<lambda>n. \<exists>st. dget (pl_nodes plan) n = Some st \<and> can_start env self plan n st) order
    \<and> int (length (filter (takes_slot env plan) order)) \<le> max 0 (free_slots self)
    \<and> length (filter (takes_workspace env plan) order) \<le> (if write_busy self then 0 else 1)"
proof -
  obtain slots busy order where o: "ready_order env self = Inr order" "subseq order (dkeys (pl_nodes plan))" "chose env self plan slots busy order"
    by (rule ready_order_inv[OF assms])
  have "slots = free_slots self - int (length (filter (takes_slot env plan) order))" "0 \<le> slots \<or> length (filter (takes_slot env plan) order) = 0"
    using o(3) unfolding chose_def by blast+
  then have "int (length (filter (takes_slot env plan) order)) \<le> max 0 (free_slots self)" by linarith
  then show ?thesis using o by (intro exI[of _ order]) (simp add: chose_def list_all_iff)
qed

definition demo_task :: task where
  "demo_task = init_task\<lparr>w_plan := Some demo_plan\<rparr>"

definition demo_full_task :: task where
  "demo_full_task = demo_task\<lparr>w_policy := no_policy\<lparr>p_max_concurrency := Some 1\<rparr>, w_attempts := [(nB, demo_attempt)]\<rparr>"

lemma demo_task_simps [simp]: "w_plan demo_task = Some demo_plan" "w_plan demo_full_task = Some demo_plan"
    "w_attempts demo_task = []" "w_node_retry demo_task = []" "w_node_retry demo_full_task = []"
    "w_attempts demo_full_task = [(nB, demo_attempt)]"
  by (simp_all add: demo_task_def demo_full_task_def init_task_def)

lemma demo_order: "ready_order demo_env demo_task = Inr [nC]" "ready_order demo_env demo_full_task = Inr []"
  by (simp_all add: ready_order_def ready_step_def backoff_remaining_def dependencies_done_def demo_node_def fresh_node_def new_draft_def
      SCHEDULED_TYPES_def agent_types_def max_concurrency_def running_count_def write_busy_def demo_task_def demo_full_task_def init_task_def
      no_policy_def DEFAULT_MAX_CONCURRENCY_def demo_attempt_def)

theorem ready_order_sound_witness:
  "ready_order demo_env demo_task = Inr [nC] \<and> subseq [nC] (dkeys (pl_nodes demo_plan))
   \<and> int (length (filter (takes_slot demo_env demo_plan) [nC])) \<le> max 0 (free_slots demo_task)"
  using ready_order_sound[OF demo_plan_wf, of demo_task demo_env] demo_order(1) by auto

text \<open>C38. Nothing is left to wait without a reason: a node that can start and is not in the order needs an agent, and either every free
  slot is taken by the order, or it writes the workspace while an attempt, or a node of the order, already does. In particular, when
  a slot is free and nobody writes, an empty order means that no node of the plan can start.\<close>

theorem ready_order_complete:
  assumes "plan_wf plan" "w_plan self = Some plan" "ready_order env self = Inr order"
    and "dget (pl_nodes plan) n = Some st" "can_start env self plan n st" "n \<notin> set order"
  shows "takes_slot env plan n \<and> (free_slots self \<le> int (length (filter (takes_slot env plan) order))
    \<or> takes_workspace env plan n \<and> (write_busy self \<or> 0 < length (filter (takes_workspace env plan) order)))"
proof -
  obtain slots busy order' where o: "ready_order env self = Inr order'" "chose env self plan slots busy order'"
      "list_all (passed env self plan slots busy order') (pl_nodes plan)"
    by (rule ready_order_inv[OF assms(1,2)])
  have eq: "order' = order" using o(1) assms(3) by simp
  have "passed env self plan slots busy order (n, st)" using o(3) eq assms(4) map_of_SomeD by (fastforce simp: list_all_iff)
  then have "takes_slot env plan n" "slots \<le> 0 \<or> takes_workspace env plan n \<and> busy" using assms(5,6) by (auto simp: passed_def)
  moreover have "slots = free_slots self - int (length (filter (takes_slot env plan) order))"
      "busy \<longleftrightarrow> write_busy self \<or> 0 < length (filter (takes_workspace env plan) order)"
    using o(2) unfolding chose_def eq by blast+
  ultimately show ?thesis by linarith
qed

theorem ready_order_complete_witness:
  "ready_order demo_env demo_full_task = Inr [] \<and> can_start demo_env demo_full_task demo_plan nC (demo_node nC READY False)
   \<and> free_slots demo_full_task \<le> 0"
proof -
  have c: "can_start demo_env demo_full_task demo_plan nC (demo_node nC READY False)"
    by (simp add: can_start_def backoff_remaining_def deps_completed_def demo_node_def fresh_node_def)
  have n: "dget (pl_nodes demo_plan) nC = Some (demo_node nC READY False)" by simp
  have "\<not> takes_workspace demo_env demo_plan nC" by (simp add: takes_workspace_def demo_node_def fresh_node_def new_draft_def)
  then show ?thesis using ready_order_complete[OF demo_plan_wf _ demo_order(2) n c] demo_order(2) c by simp
qed

end
