(* ===== verification/Task_Carry.thy ===== *)
theory Task_Carry
  imports Task_Safety
begin

text \<open>
  A Continue-As-New hands the task over whole: what \<open>_load\<close> reads back is the state \<open>_carry_input\<close> bounded, but for what belongs
  to the run that ended (its queue, its events, its timers, its counters) and for the request to stop.
\<close>

section \<open>The nodes\<close>

text \<open>
  pydantic takes back what it dumped without the fields that are \<^verbatim>\<open>None\<close>: the documented round trip of a model, for the drafts of
  the plan.
\<close>

definition dumps_back :: "pydantic \<Rightarrow> plan_state \<Rightarrow> bool" where
  "dumps_back px plan \<longleftrightarrow> list_all (\<lambda>(k, st). px_validate px (dmap (\<lambda>_. DJson) (px_dump px True (ns_draft st))) = Some (ns_draft st)) (pl_nodes plan)"

lemma load_node_carry:
  "px_validate px (dmap (\<lambda>_. DJson) (px_dump px True (ns_draft st))) = Some (ns_draft st)
   \<Longrightarrow> load_node px nodes (carry_node px (k, st)) = Inr (dset k st nodes)"
  by (cases st) (simp add: load_node_def carry_node_def)

lemma load_nodes_back:
  assumes "distinct (map fst (acc @ ns))" "list_all (\<lambda>(k, st). px_validate px (dmap (\<lambda>_. DJson) (px_dump px True (ns_draft st))) = Some (ns_draft st)) ns"
  shows "foldE (load_node px) acc (map (carry_node px) ns) = Inr (acc @ ns)"
  using assms
proof (induction ns arbitrary: acc)
  case (Cons p ns)
  obtain k st where p: "p = (k, st)" by force
  have "dset k st acc = acc @ [p]" using Cons.prems(1) p by (induction acc) auto
  then show ?case using Cons.IH[of "acc @ [p]"] Cons.prems p by (simp add: load_node_carry)
qed simp

section \<open>The state\<close>

text \<open>What a run starts with of the task the run before it left.\<close>

definition handed_on :: "env \<Rightarrow> task \<Rightarrow> task" where
  "handed_on env t = t\<lparr>w_attempts := fresh_objects (w_attempts t), w_objects := length (w_attempts t), w_detached := [],
     w_plan := map_option (\<lambda>plan. build (e_px env) (pl_version plan) (pl_nodes plan) (pl_edges plan)) (w_plan t),
     w_commands := [], w_events := [], w_timers := [], w_uuids := 0, w_wake := 0, w_updates := 0, w_stop := False,
     w_completed_nodes := (if e_patched env STATE_BOUNDS then 0 else w_completed_nodes t)\<rparr>"

lemma bound_fields: "w_plan (bound_state env s) = w_plan s" "w_status (bound_state env s) = w_status s" "w_stop (bound_state env s) = w_stop s"
  by (simp_all add: bound_state_def Let_def split: option.split)

lemma carry_runs:
  assumes "carry_input env s = (Inr inp, t)"
  obtains c where "t = bound_state env s" "ti_carry inp = Some c" "ca_status c = w_status s" "w_plan t = w_plan s"
  using assms bound_fields[of env s] by (auto simp: carry_input_def wf_simps optW_def split: option.splits)

lemma load_carried:
  assumes "carry_input env s = (Inr inp, t)" "w_plan s = Some plan" "plan_wf plan" "dumps_back (e_px env) plan"
    and "e_px env' = e_px env" "e_patched env' = e_patched env"
  shows "load env' inp init_task = (Inr (), handed_on env t)"
proof -
  let ?t = "bound_state env s"
  have plan: "w_plan ?t = Some plan" using assms(2) bound_fields by simp
  have t: "t = ?t" using carry_runs[OF assms(1)] by blast
  have nodes: "foldE (load_node (e_px env)) [] (map (carry_node (e_px env)) (pl_nodes plan)) = Inr (pl_nodes plan)"
    using load_nodes_back[of "[]"] assms(3,4) by (simp add: plan_wf_def dumps_back_def)
  show ?thesis using assms(1,2,5,6) plan nodes unfolding t
    by (auto simp: carry_input_def wf_simps optW_def load_def handed_on_def init_task_def)
qed

text \<open>C21. Continue-As-New is a round trip. When the plan was built by the engine and pydantic reads back the drafts it dumped, the
  state the next run loads is the state the ended run left after it was bounded, field for field: status, plan (with its version and
  hash), books, approvals, inbox, answers, budgets, usage, retries, deadlines, SOPs, reviews, archive and versions. Different are only
  what belongs to a run: the queue, the events and the timers are empty, the counters start again, the attempts are new objects, and
  a request to stop is not carried.\<close>

theorem continue_as_new_roundtrip:
  assumes "carry_input env s = (Inr inp, t)" "w_plan s = Some plan" "plan_wf plan" "dumps_back (e_px env) plan"
    and "plan = build (e_px env) (pl_version plan) (pl_nodes plan) (pl_edges plan)"
    and "e_px env' = e_px env" "e_patched env' = e_patched env"
  shows "load env' inp init_task = (Inr (), t\<lparr>w_attempts := fresh_objects (w_attempts t), w_objects := length (w_attempts t), w_detached := [],
     w_commands := [], w_events := [], w_timers := [], w_uuids := 0, w_wake := 0, w_updates := 0, w_stop := False,
     w_completed_nodes := (if e_patched env STATE_BOUNDS then 0 else w_completed_nodes t)\<rparr>)"
proof -
  have plan: "w_plan t = Some plan" using carry_runs[OF assms(1)] assms(2) by metis
  have "handed_on env t = t\<lparr>w_attempts := fresh_objects (w_attempts t), w_objects := length (w_attempts t), w_detached := [],
     w_commands := [], w_events := [], w_timers := [], w_uuids := 0, w_wake := 0, w_updates := 0, w_stop := False,
     w_completed_nodes := (if e_patched env STATE_BOUNDS then 0 else w_completed_nodes t)\<rparr>"
    using assms(5) plan by (simp add: handed_on_def)
  then show ?thesis using load_carried[OF assms(1-4,6,7)] by simp
qed

text \<open>A pydantic that keeps the title of a draft, and a plan whose one draft has nothing else to keep.\<close>

definition back_px :: pydantic where
  "back_px = demo_px\<lparr>px_validate := (\<lambda>d. case dget d ''title'' of Some (DJson (JStr t)) \<Rightarrow> Some (new_draft nA t (AgentTurnSpec ''g'' [])) | _ \<Rightarrow> None)\<rparr>"

definition back_env :: env where
  "back_env = demo_env\<lparr>e_px := back_px\<rparr>"

definition back_plan :: plan_state where
  "back_plan = build back_px 4 [(nA, demo_node nA READY False)] []"

definition back_task :: task where
  "back_task = init_task\<lparr>w_plan := Some back_plan, w_status := TS_CANCELLED, w_stop := True\<rparr>"

lemma back_plan_simps [simp]: "pl_nodes back_plan = [(nA, demo_node nA READY False)]" "pl_edges back_plan = []" "pl_version back_plan = 4"
  by (simp_all add: back_plan_def)

lemma back_ok: "plan_wf back_plan" "dumps_back back_px back_plan" "e_px back_env = back_px" "e_patched back_env = (\<lambda>_. True)"
    "w_plan back_task = Some back_plan"
  by (simp_all add: plan_wf_def acyclic_def dumps_back_def back_px_def demo_px_def demo_node_def fresh_node_def new_draft_def back_env_def back_task_def
      dmap_def)

lemma back_carries: "\<exists>inp t. carry_input back_env back_task = (Inr inp, t) \<and> w_plan t = Some back_plan"
  using back_ok(5) by (simp add: carry_input_def wf_simps optW_def bound_fields)

theorem continue_as_new_roundtrip_witness:
  "\<exists>inp t u. carry_input back_env back_task = (Inr inp, t) \<and> load back_env inp init_task = (Inr (), u) \<and> w_plan u = Some back_plan"
proof -
  obtain inp t where c: "carry_input back_env back_task = (Inr inp, t)" "w_plan t = Some back_plan" using back_carries by blast
  have "back_plan = build (e_px back_env) (pl_version back_plan) (pl_nodes back_plan) (pl_edges back_plan)"
    by (simp add: back_ok(3)) (simp add: back_plan_def)
  from continue_as_new_roundtrip[OF c(1) back_ok(5,1) _ this refl refl] back_ok(2,3) c show ?thesis by auto
qed

text \<open>Arming the timers again leaves the status and the request to stop.\<close>

definition same_course :: "task \<Rightarrow> task \<Rightarrow> bool" where
  "same_course s t \<longleftrightarrow> w_status t = w_status s \<and> w_stop t = w_stop s"

interpretation sc: wf_relation same_course
  by unfold_locales (simp_all add: same_course_def)

lemma rearm_course: "keeps same_course (rearm_after_load env)"
  unfolding rearm_after_load_def rearm_deadline_def arm_wait_timer_def
  by (intro sc.keeps_intros keeps_cases) (simp_all add: keeps_def wf_simps same_course_def arm_cancel_fallback_def split: option.split)

text \<open>C40. A cancel that is accepted while the run waits to continue as new is not carried out: the state it leaves is CANCELLED and
  asked to stop, but the run that follows starts CANCELLED and not asked to stop. Its loop does not end and holds every node, so the
  task stays open until it is cancelled again.\<close>

theorem cancel_lost_by_continue:
  assumes "carry_input env s = (Inr inp, t)" "w_status s = TS_CANCELLED" "w_stop s" "run_start env' inp init_task = (Inr (), u)"
  shows "w_status u = TS_CANCELLED \<and> \<not> w_stop u \<and> (\<exists>c. ti_carry inp = Some c \<and> ca_status c = TS_CANCELLED)"
proof -
  obtain c where c: "ti_carry inp = Some c" "ca_status c = TS_CANCELLED" using carry_runs[OF assms(1)] assms(2) by metis
  obtain v where l: "load env' inp init_task = (Inr (), v)"
    using assms(4) by (auto simp: run_start_def thenW_Inr)
  then have v: "w_status v = TS_CANCELLED" "\<not> w_stop v" using c by (auto simp: load_def wf_simps init_task_def split: sum.splits)
  obtain w where w: "rearm_after_load env' v = (Inr (), w)" using assms(4) c(1) l by (auto simp: run_start_def thenW_Inr whenW_run)
  then have cw: "w_status w = TS_CANCELLED" "\<not> w_stop w" using keepsD[OF rearm_course w] v by (simp_all add: same_course_def)
  then have "u = make_plan env' inp w" using assms(4) c(1) l w by (auto simp: run_start_def wf_simps make_plan_def emit_other split: if_splits)
  then show ?thesis using cw c by (simp add: make_plan_def emit_other)
qed

theorem cancel_lost_by_continue_witness:
  "\<exists>inp t u. carry_input back_env back_task = (Inr inp, t) \<and> w_stop back_task \<and> run_start back_env inp init_task = (Inr (), u)
     \<and> w_status u = TS_CANCELLED \<and> \<not> w_stop u"
proof -
  obtain inp t where c: "carry_input back_env back_task = (Inr inp, t)" "w_plan t = Some back_plan" using back_carries by blast
  obtain ca where ca: "ti_carry inp = Some ca" using carry_runs[OF c(1)] by metis
  have tb: "t = bound_state back_env back_task" using carry_runs[OF c(1)] by blast
  have t: "w_wait_deadlines t = []" "w_attempts t = []" "w_status t = TS_CANCELLED"
    unfolding tb by (simp_all add: bound_state_def back_task_def init_task_def Let_def)
  have "load back_env inp init_task = (Inr (), handed_on back_env t)"
    using load_carried[OF c(1) back_ok(5,1) _ refl refl] back_ok(2,3) by simp
  then obtain u where u: "run_start back_env inp init_task = (Inr (), u)"
    using ca t by (auto simp: run_start_def wf_simps handed_on_def rearm_after_load_def fresh_objects_def make_plan_def c(2))
  have "w_status back_task = TS_CANCELLED" "w_stop back_task" by (simp_all add: back_task_def)
  then show ?thesis using cancel_lost_by_continue[OF c(1) _ _ u] c(1) u by blast
qed

end
