(* ===== verification/Task_Rounds.thy ===== *)
theory Task_Rounds
  imports Task_Safety
begin

text \<open>
  The rounds of the main loop. Between two looks at the head of the loop it is never stuck, and its own steps run out: every
  round comes to its end, where the loop starts again, sleeps, ends or continues as new.
\<close>

section \<open>A round\<close>

text \<open>The places between the head of the loop and the end of its body.\<close>

definition in_round :: "place \<Rightarrow> bool" where
  "in_round p = (case p of LDrain b \<Rightarrow> \<not> b | LSignal b m i \<Rightarrow> \<not> b | LVerify b c i k \<Rightarrow> \<not> b | LOpen \<Rightarrow> True | LSched b ns \<Rightarrow> True
     | LAwait a b ns \<Rightarrow> True | LSchedById ns \<Rightarrow> True | LAwaitById a ns \<Rightarrow> True | LStatus \<Rightarrow> True | LFlushed \<Rightarrow> True | LCompleted \<Rightarrow> True
     | LTail d \<Rightarrow> True | _ \<Rightarrow> False)"

text \<open>A step of the loop itself inside a round (not of a handler that runs beside it).\<close>

inductive own_step :: "env \<Rightarrow> sys \<Rightarrow> sys \<Rightarrow> bool" for env where
  loop: "in_round (s_place y) \<Longrightarrow> loop_step env (s_place y) (s_task y) p t \<Longrightarrow> own_step env y (y\<lparr>s_place := p, s_task := t\<rparr>)"
| status: "s_place y = LStatus \<Longrightarrow> loop_status env (s_task y) = s \<Longrightarrow> flush_events s = (evs, t)
    \<Longrightarrow> own_step env y (y\<lparr>s_place := LFlushed, s_task := t, s_published := s_published y @ evs\<rparr>)"
| completed: "s_place y = LCompleted \<Longrightarrow> flush_events (s_task y) = (evs, t)
    \<Longrightarrow> own_step env y (y\<lparr>s_place := LTail True, s_task := requeue_unsent env t, s_published := s_published y @ evs\<rparr>)"

lemma own_is_step: "own_step env y z \<Longrightarrow> sys_step env y z"
  by (induction rule: own_step.induct) (auto intro: sys_step.intros)

lemmas ran = prod.collapse[symmetric]

lemma flushed_steps: "\<exists>q t. loop_step env LFlushed s q t"
proof -
  obtain u t where o: "open_reviews env s = (u, t)" by force
  show ?thesis
  proof (cases u)
    case (Inl e)
    then show ?thesis using o loop_step.flushed_error by blast
  next
    case (Inr x)
    then show ?thesis using o loop_step.flushed loop_step.flushed_again loop_step.flushed_open by blast
  qed
qed

lemma loop_can_step: "in_round p \<Longrightarrow> p \<noteq> LStatus \<Longrightarrow> p \<noteq> LCompleted \<Longrightarrow> \<exists>q t. loop_step env p s q t"
proof (cases p)
  case (LSchedById ns)
  then show ?thesis using loop_step.by_id_end loop_step.by_id[OF ran] by (cases ns) blast+
qed (auto simp: in_round_def flushed_steps intro: loop_step.drain[OF ran] loop_step.signalled[OF ran] loop_step.verified[OF ran] loop_step.opened[OF ran]
    loop_step.sched[OF ran] loop_step.awaited[OF ran] loop_step.by_id_awaited[OF ran] loop_step.tail)

lemma round_not_stuck:
  assumes "in_round (s_place y)"
  shows "\<exists>z. own_step env y z"
proof -
  consider "s_place y = LStatus" | "s_place y = LCompleted" | "s_place y \<noteq> LStatus" "s_place y \<noteq> LCompleted" by blast
  then show ?thesis
  proof cases
    case 3
    then show ?thesis using loop_can_step[OF assms] own_step.loop[OF assms] by blast
  qed (auto intro: own_step.status[OF _ refl ran] own_step.completed[OF _ ran])
qed

section \<open>Its end\<close>

definition phase :: "place \<Rightarrow> nat" where
  "phase p = (case p of LDrain b \<Rightarrow> 7 | LSignal b m i \<Rightarrow> 7 | LVerify b c i k \<Rightarrow> 7 | LOpen \<Rightarrow> 6 | LSched b ns \<Rightarrow> 5
     | LAwait a b ns \<Rightarrow> 5 | LSchedById ns \<Rightarrow> 5 | LAwaitById a ns \<Rightarrow> 5 | LStatus \<Rightarrow> 4 | LFlushed \<Rightarrow> 3 | LCompleted \<Rightarrow> 2 | LTail d \<Rightarrow> 1 | _ \<Rightarrow> 0)"

text \<open>What is left in a phase: commands to drain, nodes to look at.\<close>

definition left_over :: "place \<Rightarrow> task \<Rightarrow> nat" where
  "left_over p s = (case p of LDrain b \<Rightarrow> 2 * length (w_commands s) | LSignal b m i \<Rightarrow> 2 * length (w_commands s) + 1
     | LVerify b c i k \<Rightarrow> 2 * length (w_commands s) + 1 | LSched b ns \<Rightarrow> 2 * length ns | LAwait a b ns \<Rightarrow> 2 * length ns + 1
     | LSchedById ns \<Rightarrow> 2 * length ns | LAwaitById a ns \<Rightarrow> 2 * length ns + 1 | _ \<Rightarrow> 0)"

definition near :: "place \<Rightarrow> task \<Rightarrow> place \<Rightarrow> task \<Rightarrow> bool" where
  "near p s q t \<longleftrightarrow> phase q < phase p \<or> phase q = phase p \<and> left_over q t < left_over p s"

definition nearer :: "(sys \<times> sys) set" where
  "nearer = {(z, y). near (s_place y) (s_task y) (s_place z) (s_task z)}"

lemma wf_nearer: "wf nearer"
proof -
  have "nearer = inv_image (less_than <*lex*> less_than) (\<lambda>y. (phase (s_place y), left_over (s_place y) (s_task y)))"
    by (auto simp: nearer_def near_def)
  then show ?thesis by (metis wf_inv_image wf_lex_prod wf_less_than)
qed

lemma phase_simps [simp]:
  "phase LHead = 0" "phase (LDrain b) = 7" "phase (LSignal b m i) = 7" "phase (LVerify b c i' k) = 7" "phase LOpen = 6" "phase (LSched bt ns) = 5"
  "phase (LAwait a bt ns) = 5" "phase (LSchedById ps) = 5" "phase (LAwaitById a ps) = 5" "phase LStatus = 4" "phase LFlushed = 3"
  "phase LCompleted = 2" "phase (LTail d) = 1" "phase (LSleep w) = 0" "phase LHandlers = 0" "phase LEnd = 0" "phase (LFailed e) = 0"
  "left_over (LDrain b) s = 2 * length (w_commands s)" "left_over (LSignal b m i) s = 2 * length (w_commands s) + 1"
  "left_over (LVerify b c i' k) s = 2 * length (w_commands s) + 1" "left_over (LSched bt ns) s = 2 * length ns"
  "left_over (LAwait a bt ns) s = 2 * length ns + 1" "left_over (LSchedById ps) s = 2 * length ps" "left_over (LAwaitById a ps) s = 2 * length ps + 1"
  by (simp_all add: phase_def left_over_def)

lemma near_next: "0 < phase p \<Longrightarrow> (\<And>x. r = Inr x \<Longrightarrow> near p s (f x) t) \<Longrightarrow> near p s (next_place r f) t"
  by (cases r) (auto simp: next_place_def near_def)

lemma sq_same: "keeps same_queue m \<Longrightarrow> m s = (r, t) \<Longrightarrow> w_commands t = w_commands s"
  using keepsD[of same_queue m s r t] by (simp add: same_queue_def)

lemma drain_shrinks:
  assumes "drain_next_command env s = (Inr (Some d), t)"
  shows "length (w_commands t) < length (w_commands s)"
proof -
  obtain c rest where c: "w_commands s = c # rest" using assms by (cases "w_commands s") (auto simp: drain_next_command_def wf_simps)
  have k: "keeps same_queue (case c of QMessage m \<Rightarrow> drain_message env m | QCompletion p \<Rightarrow> drain_completion env p)"
    by (cases c) (auto intro: sq.keeps_drain_message sq.keeps_drain)
  have "w_commands t = rest" using assms c sq_same[OF k]
    by (fastforce simp: drain_next_command_def bindW_Inr thenW_Inr withW_run modW_run ret_run)
  then show ?thesis using c by simp
qed

lemma schedule_rest: "schedule_nodes env b ns s = (Inr (Some (a, rest)), t) \<Longrightarrow> length rest < length ns"
proof (induction ns arbitrary: s)
  case (Cons n ns)
  from Cons.prems obtain st u where u: "schedule_node env b n s = (Inr st, u)"
      "(case st of Go \<Rightarrow> schedule_nodes env b ns | Break \<Rightarrow> ret None | Wait_for a \<Rightarrow> ret (Some (a, ns))) u = (Inr (Some (a, rest)), t)"
    by (auto simp: bindW_Inr)
  then show ?case using Cons.IH[of u] by (cases st) (auto simp: ret_run)
qed (simp add: ret_run)

lemma begun_phase: "begin_schedule env s = (Inr q, t) \<Longrightarrow> phase q \<in> {4, 5}"
  by (auto simp: begin_schedule_def bindW_Inr wf_simps(1,5) split: if_splits option.splits)

lemma tail_phase: "tail_place env d s = Inr q \<Longrightarrow> phase q = 0"
  by (auto simp: tail_place_def split: if_splits simp: bindE_eq_Inr)

lemma loop_step_near:
  assumes "loop_step env p s q t" "in_round p"
  shows "near p s q t"
  using assms(1)
proof cases
  case (drain r b)
  have "near p s (drained b d) t" if "r = Inr d" for d
    using drain_shrinks[of env s _ t] drain that assms(2) by (auto simp: drained_def near_def in_round_def split: option.split drain_next.split)
  then show ?thesis using drain(1,2) near_next[of p r s "drained b" t] by simp
next
  case (signalled m obj ok r b)
  then show ?thesis using sq_same[OF sq.keeps_drain(3)] near_next[of p r s "\<lambda>_. LDrain b" t] by (simp add: near_def[of _ _ "LDrain b"])
next
  case (verified p' obj ck c accepted r b)
  then show ?thesis using sq_same[OF sq.keeps_drain(4)] near_next[of p r s "\<lambda>_. LDrain b" t] by (simp add: near_def[of _ _ "LDrain b"])
next
  case (opened r)
  have "near p s x t" if "r = Inr x" for x using opened that by (auto simp: near_def thenW_Inr dest!: begun_phase)
  then show ?thesis using opened(1,2) near_next[of p r s id t] by simp
next
  case (sched b ns r)
  have "near p s (scheduled b d) t" if "r = Inr d" for d
    using schedule_rest[of env b ns s _ _ t] sched that by (auto simp: scheduled_def near_def split: option.split)
  then show ?thesis using sched(1,2) near_next[of p r s "scheduled b" t] by simp
next
  case (by_id n r ns)
  have "near p s (case x of Wait_for a \<Rightarrow> LAwaitById a ns | _ \<Rightarrow> LSchedById ns) t" for x
    by (cases x) (simp_all add: near_def by_id(1))
  then show ?thesis unfolding by_id(2) by (intro near_next) (simp add: by_id(1))
next
  case (tail d)
  have "near p s x t" if "tail_place env d s = Inr x" for x using tail that tail_phase[of env d s x] by (simp add: near_def)
  then show ?thesis using tail(1,2) near_next[of p "tail_place env d s" s id t] by simp
next
  case (awaited a loaded r b ns)
  then show ?thesis using near_next[of p r s "\<lambda>_. LSched b ns" t] by (simp add: near_def[of _ _ "LSched b ns"])
next
  case (by_id_awaited a loaded r ns)
  then show ?thesis using near_next[of p r s "\<lambda>_. LSchedById ns" t] by (simp add: near_def[of _ _ "LSchedById ns"])
qed (use assms(2) in \<open>auto simp: near_def in_round_def\<close>)

lemma own_step_nearer: "own_step env y z \<Longrightarrow> (z, y) \<in> nearer"
  by (induction rule: own_step.induct) (auto simp: nearer_def loop_step_near near_def[of LStatus] near_def[of LCompleted])

text \<open>C20. A round of the main loop always comes to its end. From any state in the middle of a round, whatever the activities, the children
  and the clock answer, the loop has a next step of its own (it is never stuck), and it cannot take infinitely many: it drains a finite
  queue, looks at finitely many nodes, and reaches a state where it is at the head of the loop again, sleeps, ends, continues as new
  or has failed.\<close>

theorem round_ends:
  assumes "in_round (s_place y)"
  shows "(\<exists>z. own_step env y z \<and> sys_step env y z)
    \<and> \<not> (\<exists>f. f 0 = y \<and> (\<forall>i. \<exists>env. own_step env (f i) (f (Suc i))))
    \<and> (\<exists>z. (own_step env)\<^sup>*\<^sup>* y z \<and> \<not> in_round (s_place z))"
proof (intro conjI)
  show "\<exists>z. own_step env y z \<and> sys_step env y z" using round_not_stuck[OF assms] own_is_step by blast
  show "\<not> (\<exists>f. f 0 = y \<and> (\<forall>i. \<exists>env. own_step env (f i) (f (Suc i))))"
    using wf_nearer own_step_nearer unfolding wf_iff_no_infinite_down_chain by blast
  show "\<exists>z. (own_step env)\<^sup>*\<^sup>* y z \<and> \<not> in_round (s_place z)"
    using wf_nearer
  proof (induction y rule: wf_induct_rule)
    case (less y)
    show ?case
    proof (cases "in_round (s_place y)")
      case True
      then obtain x where x: "own_step env y x" using round_not_stuck by blast
      then show ?thesis using less[OF own_step_nearer[OF x]] converse_rtranclp_into_rtranclp by metis
    qed blast
  qed
qed

theorem round_ends_witness:
  "\<exists>z. (own_step demo_env)\<^sup>*\<^sup>* \<lparr>s_place = LOpen, s_task = init_task, s_pending = [], s_published = []\<rparr> z \<and> \<not> in_round (s_place z)"
  using round_ends[of "\<lparr>s_place = LOpen, s_task = init_task, s_pending = [], s_published = []\<rparr>" demo_env] by (simp add: in_round_def)

end
