(* ===== verification/Attempt_Workflow.thy ===== *)
theory Attempt_Workflow
  imports Task_Base
begin

text \<open>
  \<^verbatim>\<open>orbit_orch/attempt_workflow.py\<close>: one attempt at a node. The attempt runs turns of an agent as activities, waits for the
  decisions and the answers a turn asks for, and reports its end to the task. The run is cut at its waits: \<open>att_step\<close> is a part of
  it, or a signal, or the cancellation that reaches it while it waits. \<open>_run_team\<close> is in \<^verbatim>\<open>attempt_team.py\<close> and has a machine
  of its own, \<open>stage_step\<close>; here it is the place \<open>TTeam\<close>, where the stage may do anything to the attempt's own state and ends in
  each of the ways it can end for \<open>run\<close>.
\<close>

section \<open>Guarded behaviour changes and limits\<close>

definition ATTEMPT_FAILURE_CLASS :: string where "ATTEMPT_FAILURE_CLASS = ''attempt-failure-class''"
definition ATTEMPT_RETURNS_MESSAGES :: string where "ATTEMPT_RETURNS_MESSAGES = ''attempt-returns-unconsumed-messages''"
definition ATTEMPT_CONTINUE_AS_NEW :: string where "ATTEMPT_CONTINUE_AS_NEW = ''attempt-continue-as-new''"
definition ATTEMPT_BUDGET :: string where "ATTEMPT_BUDGET = ''attempt-budget-enforcement''"
definition ATTEMPT_TEAM_STAGE :: string where "ATTEMPT_TEAM_STAGE = ''attempt-team-stage''"
definition COMMIT_CHECKPOINTS :: string where "COMMIT_CHECKPOINTS = ''commit-attempt-checkpoints''"
definition ATTEMPT_HEARD_MESSAGES :: string where "ATTEMPT_HEARD_MESSAGES = ''attempt-heard-messages''"
definition MAX_HEARD :: nat where "MAX_HEARD = 64"

definition FAILURE_CLASSES :: "string list" where
  "FAILURE_CLASSES = [''transient'', ''model'', ''tool'', ''policy'', ''budget'', ''verification'', ''lost'']"

section \<open>What a turn is given and what it returns\<close>

text \<open>
  The result of \<open>agent_turn\<close> and \<open>sop_step\<close>, a dict. A key that is read with \<open>get\<close> is an \<open>option\<close>, or its default where an empty
  value and a missing one are read alike.
\<close>

record turn_result =
  tr_status :: "string option"
  tr_session_id :: string
  tr_state_version :: "nat option"
  tr_retry_calls :: "json option"
  tr_approval_request_id :: string
  tr_approvals :: "parked_tool_call list"
  tr_external :: "json option"
  tr_question :: "string option"
  tr_questions :: "ask_user_question list"
  tr_usage :: "usage option"
  tr_checkpoint_ref :: "string option"
  tr_manifest_id :: "string option"
  tr_manifest_entries :: "(string, json) dict list"
  tr_manifest_hash :: "string option"
  tr_handover_summary :: string
  tr_budget_exhausted :: bool
  tr_output :: "(string, json) dict"
  tr_error :: "string option"
  tr_failure_class :: "string option"
  tr_retryable :: "bool option"
  tr_run_state :: string

definition no_result :: turn_result where
  "no_result = \<lparr>tr_status = None, tr_session_id = [], tr_state_version = None, tr_retry_calls = None, tr_approval_request_id = [], tr_approvals = [],
     tr_external = None, tr_question = None, tr_questions = [], tr_usage = None, tr_checkpoint_ref = None, tr_manifest_id = None,
     tr_manifest_entries = [], tr_manifest_hash = None, tr_handover_summary = [], tr_budget_exhausted = False, tr_output = [], tr_error = None,
     tr_failure_class = None, tr_retryable = None, tr_run_state = []\<rparr>"

text \<open>What the activity is told about the decisions taken.\<close>

record approval_payload =
  pl_approval_id :: string
  pl_approval_request_id :: string
  pl_approve :: bool
  pl_decisions :: "(string, decision) dict"
  pl_rules :: "(string, permission_rule) dict"

text \<open>What changes from one turn of an attempt to the next in the payload of \<open>agent_turn\<close>; the rest is the attempt's input.\<close>

record turn_call =
  tc_messages :: "inbox_message list"
  tc_external :: "json option"
  tc_retry_calls :: "json option"
  tc_approval :: "approval_payload option"
  tc_session_id :: string
  tc_state_version :: nat
  tc_budget :: "budget option"

section \<open>The state\<close>

record att =
  t_decisions :: "(string, approval_decided_signal) dict"
  t_awaiting :: "string list"
  t_messages :: "inbox_message list"
  t_session_id :: string
  t_state_version :: nat
  t_approval_request_id :: string
  t_external :: "json option"
  t_retry_calls :: "json option"
  t_cancelled :: bool
  t_ran_activity :: bool
  t_in_flight :: nat
  t_heard :: "nat set"
  t_usage :: usage

text \<open>\<open>__init__\<close>.\<close>

definition init_att :: att where
  "init_att = \<lparr>t_decisions = [], t_awaiting = [], t_messages = [], t_session_id = [], t_state_version = 0, t_approval_request_id = [],
     t_external = None, t_retry_calls = None, t_cancelled = False, t_ran_activity = False, t_in_flight = 0, t_heard = {}, t_usage = no_usage\<rparr>"

text \<open>What a Continue-As-New carries.\<close>

record att_carry =
  tk_session_id :: string
  tk_state_version :: nat
  tk_approval_request_id :: string
  tk_external :: "json option"
  tk_retry_calls :: "json option"
  tk_messages :: "inbox_message list"
  tk_decisions :: "(string, approval_decided_signal) dict"
  tk_usage :: usage
  tk_heard :: "nat list"

record att_input = attempt_workflow_input +
  ai_carry :: "att_carry option"

text \<open>\<open>sorted(self._heard)[-MAX_HEARD:]\<close>.\<close>

definition heard_seqs :: "att \<Rightarrow> nat list" where
  "heard_seqs self = last_n MAX_HEARD (sorted_list_of_set (t_heard self))"

definition carry_att :: "att \<Rightarrow> att_carry" where
  "carry_att self = \<lparr>tk_session_id = t_session_id self, tk_state_version = t_state_version self,
     tk_approval_request_id = t_approval_request_id self, tk_external = t_external self, tk_retry_calls = t_retry_calls self,
     tk_messages = t_messages self, tk_decisions = t_decisions self, tk_usage = t_usage self, tk_heard = heard_seqs self\<rparr>"

definition restore :: "att_carry \<Rightarrow> att \<Rightarrow> att" where
  "restore carry self = self\<lparr>t_session_id := tk_session_id carry, t_state_version := tk_state_version carry,
     t_approval_request_id := tk_approval_request_id carry, t_external := tk_external carry, t_retry_calls := tk_retry_calls carry,
     t_messages := tk_messages carry, t_decisions := tk_decisions carry, t_usage := tk_usage carry, t_heard := set (tk_heard carry)\<rparr>"

text \<open>The head of \<open>run\<close>. A signal that came with the start is handled before it.\<close>

definition start_att :: "att_input \<Rightarrow> att \<Rightarrow> att" where
  "start_att inp self = (let now = self\<lparr>t_messages := ai_messages inp\<rparr> in
     case ai_carry inp of None \<Rightarrow> now | Some carry \<Rightarrow> restore carry now)"

section \<open>The payload of a turn\<close>

definition budget_payload :: "env \<Rightarrow> att_input \<Rightarrow> att \<Rightarrow> budget option" where
  "budget_payload env inp self =
     (case ai_budget inp of None \<Rightarrow> None | Some b \<Rightarrow> if e_patched env ATTEMPT_BUDGET then Some (after b (t_usage self)) else None)"

definition count_usage :: "env \<Rightarrow> turn_result \<Rightarrow> att \<Rightarrow> att" where
  "count_usage env result self =
     (case tr_usage result of None \<Rightarrow> self
      | Some u \<Rightarrow> if e_patched env ATTEMPT_BUDGET then self\<lparr>t_usage := usage_add (t_usage self) u\<rparr> else self)"

definition approval_payload_of :: "att \<Rightarrow> approval_payload option" where
  "approval_payload_of self =
     (if t_decisions self = [] then None
      else Some \<lparr>pl_approval_id = ad_approval_id (last (dvals (t_decisions self))), pl_approval_request_id = t_approval_request_id self,
        pl_approve = list_all (\<lambda>d. ad_decision d = Approve) (dvals (t_decisions self)),
        pl_decisions = dmap (\<lambda>_. ad_decision) (t_decisions self),
        pl_rules = concat (map (\<lambda>(k, d). case ad_rule d of Some r \<Rightarrow> if ad_decision d = Approve then [(k, r)] else [] | None \<Rightarrow> []) (t_decisions self))\<rparr>)"

text \<open>The messages the turn is given are in flight, and count as heard unless it fails.\<close>

definition begin_turn :: "env \<Rightarrow> att_input \<Rightarrow> att \<Rightarrow> turn_call \<times> att" where
  "begin_turn env inp self =
     (let now = self\<lparr>t_in_flight := length (t_messages self), t_heard := t_heard self \<union> im_message_seq ` set (t_messages self)\<rparr> in
      (\<lparr>tc_messages = t_messages self, tc_external = t_external now, tc_retry_calls = t_retry_calls now, tc_approval = approval_payload_of now,
        tc_session_id = t_session_id now, tc_state_version = t_state_version now, tc_budget = budget_payload env inp now\<rparr>, now))"

section \<open>After a turn\<close>

definition turn_state :: "turn_result \<Rightarrow> string" where
  "turn_state result = (case tr_status result of None \<Rightarrow> ''completed'' | Some s \<Rightarrow> s)"

text \<open>What the turn was given is consumed, unless it failed: \<open>delivered\<close> are the messages it was given.\<close>

definition consume :: "env \<Rightarrow> string \<Rightarrow> inbox_message list \<Rightarrow> att \<Rightarrow> att" where
  "consume env state delivered self =
     (if state \<noteq> ''failed'' \<or> \<not> e_patched env ATTEMPT_RETURNS_MESSAGES then self\<lparr>t_messages := drop (length delivered) (t_messages self)\<rparr>
      else self\<lparr>t_heard := t_heard self - im_message_seq ` set delivered\<rparr>)"

definition turn_returned :: "env \<Rightarrow> turn_result \<Rightarrow> att \<Rightarrow> att" where
  "turn_returned env result self = count_usage env result (self\<lparr>t_ran_activity := True, t_in_flight := 0\<rparr>)"

definition turn_read :: "env \<Rightarrow> inbox_message list \<Rightarrow> turn_result \<Rightarrow> att \<Rightarrow> att" where
  "turn_read env delivered result self =
     (let s1 = (if tr_session_id result = [] then self else self\<lparr>t_session_id := tr_session_id result\<rparr>);
          s2 = (case tr_state_version result of None \<Rightarrow> s1 | Some v \<Rightarrow> s1\<lparr>t_state_version := v\<rparr>);
          s3 = consume env (turn_state result) delivered (s2\<lparr>t_decisions := [], t_external := None, t_retry_calls := tr_retry_calls result\<rparr>) in
      if turn_state result = ''parked_approval''
      then s3\<lparr>t_approval_request_id := tr_approval_request_id result, t_awaiting := map pk_tool_call_id (tr_approvals result)\<rparr>
      else if turn_state result = ''parked_input'' then s3\<lparr>t_external := tr_external result\<rparr> else s3)"

section \<open>What the parent is told\<close>

definition parked_signal :: "att_input \<Rightarrow> park_reason \<Rightarrow> turn_result \<Rightarrow> attempt_parked_signal" where
  "parked_signal inp reason result = \<lparr>pa_node_id = ai_node_id inp, pa_attempt_no = ai_attempt_no inp, pa_attempt_id = ai_attempt_id inp,
     pa_reason = reason, pa_approvals = tr_approvals result, pa_question = tr_question result,
     pa_questions = (if tr_questions result = [] then None else Some (tr_questions result))\<rparr>"

primrec class_of :: "failure_class \<Rightarrow> string" where
  "class_of Transient = ''transient''"
| "class_of Model = ''model''"
| "class_of Tool = ''tool''"
| "class_of PolicyF = ''policy''"
| "class_of BudgetF = ''budget''"
| "class_of VerificationF = ''verification''"
| "class_of Lost = ''lost''"

definition failure_class_of :: "string \<Rightarrow> failure_class" where
  "failure_class_of s = (if s = ''model'' then Model else if s = ''tool'' then Tool else if s = ''policy'' then PolicyF else if s = ''budget'' then BudgetF
     else if s = ''verification'' then VerificationF else if s = ''lost'' then Lost else Transient)"

definition failure_of :: "env \<Rightarrow> turn_result \<Rightarrow> failure" where
  "failure_of env result = (let message = (case tr_error result of None \<Rightarrow> ''attempt failed'' | Some e \<Rightarrow> e) in
     if e_patched env ATTEMPT_FAILURE_CLASS
     then \<lparr>f_class = failure_class_of (case tr_failure_class result of None \<Rightarrow> ''transient'' | Some c \<Rightarrow> if c \<in> set FAILURE_CLASSES then c else ''transient''),
       f_retryable = (case tr_retryable result of None \<Rightarrow> True | Some b \<Rightarrow> b), f_message = message\<rparr>
     else \<lparr>f_class = Transient, f_retryable = True, f_message = message\<rparr>)"

definition result_of :: "env \<Rightarrow> att_input \<Rightarrow> turn_result \<Rightarrow> att \<Rightarrow> attempt_result" where
  "result_of env inp result self = \<lparr>ar_handover_summary = tr_handover_summary result, ar_manifest_id = tr_manifest_id result,
     ar_manifest_entries = tr_manifest_entries result, ar_manifest_hash = tr_manifest_hash result,
     ar_checkpoint_ref = (case tr_checkpoint_ref result of None \<Rightarrow> sha (ai_attempt_id inp) | Some c \<Rightarrow> c),
     ar_usage = (if e_patched env ATTEMPT_BUDGET then t_usage self else case tr_usage result of None \<Rightarrow> no_usage | Some u \<Rightarrow> u),
     ar_budget_exhausted = tr_budget_exhausted result, ar_output = tr_output result\<rparr>"

definition finished_signal :: "env \<Rightarrow> att_input \<Rightarrow> attempt_outcome \<Rightarrow> turn_result \<Rightarrow> att \<Rightarrow> attempt_finished_signal" where
  "finished_signal env inp outcome result self =
     (let failure = (if outcome = OFailed then Some (failure_of env result) else None) in
      \<lparr>af_node_id = ai_node_id inp, af_attempt_no = ai_attempt_no inp, af_attempt_id = ai_attempt_id inp, af_outcome = outcome,
       af_result = (if failure = None then Some (result_of env inp result self) else None), af_failure = failure,
       af_unconsumed_messages = (if e_patched env ATTEMPT_RETURNS_MESSAGES
         then drop (if outcome = OCancelled then t_in_flight self else 0) (t_messages self) else []),
       af_heard_message_seqs = (if e_patched env ATTEMPT_HEARD_MESSAGES then Some (heard_seqs self) else None),
       af_usage = (if e_patched env ATTEMPT_BUDGET then Some (t_usage self) else None)\<rparr>)"

section \<open>Signals\<close>

definition approval_decided_att :: "approval_decided_signal \<Rightarrow> att \<Rightarrow> att" where
  "approval_decided_att signal self =
     self\<lparr>t_decisions := dset (case ad_tool_call_id signal of None \<Rightarrow> [] | Some c \<Rightarrow> c) signal (t_decisions self)\<rparr>"

definition deliver_messages_att :: "inbox_message list \<Rightarrow> att \<Rightarrow> att" where
  "deliver_messages_att messages self = self\<lparr>t_messages := t_messages self @ messages\<rparr>"

section \<open>The run\<close>

text \<open>
  How a run ends: it returns, it is cancelled, a cancellation ends it inside an error handler (\<open>Cut_short\<close>), an error leaves it (a
  signal the parent cannot take, an activity error an old history raises), or it continues as new.
\<close>

datatype ending = Returned | Ended_cancelled | Cut_short | Crashed | Continued att_input

text \<open>
  Where a run waits. \<open>TReporting guarded ending signal\<close>: the report is on its way to the parent, inside the \<open>try\<close> of \<open>run\<close> or in
  one of its handlers.
\<close>

datatype att_place =
    TNew
  | THead
  | TTurn "inbox_message list"
  | TCommit "inbox_message list" turn_result
  | TParking park_reason turn_result
  | TParked park_reason turn_result
  | TSop string
  | TSopCommit turn_result
  | TTeam
  | TReporting bool ending attempt_finished_signal
  | TOver ending

text \<open>
  A run with what it has sent: the turns it asked for, the parks and the reports its parent got. \<open>r_given\<close> are the messages it
  was handed since \<open>run\<close> began, \<open>r_cancel\<close> that its cancellation was asked for, which happens once. \<open>r_cut\<close> is the report that was
  on its way when the cancellation was raised there, if the parent got it all the same.
\<close>

record att_run =
  r_self :: att
  r_at :: att_place
  r_calls :: "turn_call list"
  r_parked :: "attempt_parked_signal list"
  r_reports :: "attempt_finished_signal list"
  r_given :: "inbox_message list"
  r_cancel :: bool
  r_cut :: "attempt_finished_signal list"

definition new_run :: att_run where
  "new_run = \<lparr>r_self = init_att, r_at = TNew, r_calls = [], r_parked = [], r_reports = [], r_given = [], r_cancel = False, r_cut = []\<rparr>"

definition runs_team :: "env \<Rightarrow> att_input \<Rightarrow> bool" where
  "runs_team env inp \<longleftrightarrow> ai_node_type inp = TeamStage \<and> ai_team inp \<noteq> None \<and> e_patched env ATTEMPT_TEAM_STAGE"

text \<open>Up to the first wait of \<open>run\<close>.\<close>

definition begin_run :: "env \<Rightarrow> att_input \<Rightarrow> att_run \<Rightarrow> att_run" where
  "begin_run env inp r = (let self = start_att inp (r_self r) in
     r\<lparr>r_self := self, r_given := t_messages self,
       r_at := if ai_node_type inp = SopStage then TSop [] else if runs_team env inp then TTeam else THead\<rparr>)"

text \<open>The head of the loop, where Temporal may suggest to continue as new.\<close>

definition turn_or_continue :: "env \<Rightarrow> att_input \<Rightarrow> bool \<Rightarrow> att_run \<Rightarrow> att_run" where
  "turn_or_continue env inp suggested r =
     (if t_ran_activity (r_self r) \<and> suggested \<and> e_patched env ATTEMPT_CONTINUE_AS_NEW
      then r\<lparr>r_at := TOver (Continued (inp\<lparr>ai_messages := [], ai_carry := Some (carry_att (r_self r))\<rparr>))\<rparr>
      else let (call, self) = begin_turn env inp (r_self r) in
        r\<lparr>r_self := self, r_at := TTurn (tc_messages call), r_calls := r_calls r @ [call]\<rparr>)"

text \<open>\<open>_notify_parent_finished\<close> up to its wait, and \<open>_notify_parent_parked\<close>: without a parent there is nobody to tell.\<close>

definition report :: "env \<Rightarrow> bool \<Rightarrow> att_input \<Rightarrow> bool \<Rightarrow> ending \<Rightarrow> attempt_outcome \<Rightarrow> turn_result \<Rightarrow> att_run \<Rightarrow> att_run" where
  "report env parent inp guarded e outcome result r =
     r\<lparr>r_at := if parent then TReporting guarded e (finished_signal env inp outcome result (r_self r)) else TOver e\<rparr>"

definition park :: "bool \<Rightarrow> park_reason \<Rightarrow> turn_result \<Rightarrow> att_run \<Rightarrow> att_run" where
  "park parent reason result r = r\<lparr>r_at := if parent then TParking reason result else TParked reason result\<rparr>"

text \<open>\<open>except asyncio.CancelledError\<close>, and the same for an activity that was cancelled.\<close>

definition report_cancelled :: "env \<Rightarrow> bool \<Rightarrow> att_input \<Rightarrow> att_run \<Rightarrow> att_run" where
  "report_cancelled env parent inp r =
     report env parent inp False Ended_cancelled OCancelled (no_result\<lparr>tr_checkpoint_ref := Some (sha (ai_attempt_id inp))\<rparr>)
       (r\<lparr>r_self := (r_self r)\<lparr>t_cancelled := True\<rparr>\<rparr>)"

text \<open>\<open>except ActivityError\<close>: \<open>cause\<close> is what the activity gave up with, or nothing when it was cancelled.\<close>

definition activity_error :: "env \<Rightarrow> bool \<Rightarrow> att_input \<Rightarrow> string option \<Rightarrow> att_run \<Rightarrow> att_run" where
  "activity_error env parent inp cause r =
     (if \<not> e_patched env ATTEMPT_FAILURE_CLASS then r\<lparr>r_at := TOver Crashed\<rparr>
      else case cause of None \<Rightarrow> report_cancelled env parent inp r
        | Some e \<Rightarrow> report env parent inp False Returned OFailed
            (no_result\<lparr>tr_error := Some e, tr_failure_class := Some ''lost'', tr_retryable := Some True\<rparr>) r)"

text \<open>The rest of the loop's body, once the turn's checkpoints are committed.\<close>

definition after_turn :: "env \<Rightarrow> bool \<Rightarrow> att_input \<Rightarrow> inbox_message list \<Rightarrow> turn_result \<Rightarrow> att_run \<Rightarrow> att_run" where
  "after_turn env parent inp delivered result r =
     (let state = turn_state result; now = r\<lparr>r_self := turn_read env delivered result (r_self r)\<rparr> in
      if state = ''parked_approval'' then park parent ParkApproval result now
      else if state = ''parked_input'' then park parent ParkInput result now
      else report env parent inp True Returned (if state = ''failed'' then OFailed else OCompleted) result now)"

definition turn_done :: "env \<Rightarrow> bool \<Rightarrow> att_input \<Rightarrow> inbox_message list \<Rightarrow> turn_result \<Rightarrow> att_run \<Rightarrow> att_run" where
  "turn_done env parent inp delivered result r =
     (let now = r\<lparr>r_self := turn_returned env result (r_self r)\<rparr> in
      if e_patched env COMMIT_CHECKPOINTS then now\<lparr>r_at := TCommit delivered result\<rparr> else after_turn env parent inp delivered result now)"

text \<open>\<open>_run_sop\<close>: a try of the engine, and what follows the last one.\<close>

definition sop_ended :: "env \<Rightarrow> bool \<Rightarrow> att_input \<Rightarrow> turn_result \<Rightarrow> att_run \<Rightarrow> att_run" where
  "sop_ended env parent inp result r =
     report env parent inp True Returned (if tr_status result = Some ''failed'' then OFailed else OCompleted) result r"

definition sop_done :: "env \<Rightarrow> bool \<Rightarrow> att_input \<Rightarrow> turn_result \<Rightarrow> att_run \<Rightarrow> att_run" where
  "sop_done env parent inp result r =
     (if tr_status result = Some ''continue'' then r\<lparr>r_at := TSop (tr_run_state result)\<rparr>
      else if e_patched env COMMIT_CHECKPOINTS then r\<lparr>r_at := TSopCommit result\<rparr> else sop_ended env parent inp result r)"

text \<open>\<open>wait_condition\<close> of a parked attempt, and how it goes on.\<close>

definition may_go_on :: "park_reason \<Rightarrow> att \<Rightarrow> bool" where
  "may_go_on reason self \<longleftrightarrow> (case reason of
     ParkApproval \<Rightarrow> list_all (has_key (t_decisions self)) (t_awaiting self) | ParkInput \<Rightarrow> t_messages self \<noteq> []) \<or> t_cancelled self"

definition go_on :: "env \<Rightarrow> bool \<Rightarrow> att_input \<Rightarrow> turn_result \<Rightarrow> att_run \<Rightarrow> att_run" where
  "go_on env parent inp result r =
     (if t_cancelled (r_self r) then report env parent inp True Returned OCancelled result r else r\<lparr>r_at := THead\<rparr>)"

text \<open>
  The run's own steps and what reaches it. A cancellation that comes while an activity of the agent runs waits for the activity,
  which ends with a result, as cancelled or by giving up; at the other waits it is raised at once. While a signal to the parent
  is under way the parent may have got it or not. A team stage changes the attempt's state, parks, reports the end of its last
  round, continues as new between two rounds, and lets an error of an activity or of a signal and a cancellation through.
\<close>

inductive att_step :: "env \<Rightarrow> bool \<Rightarrow> att_input \<Rightarrow> att_run \<Rightarrow> att_run \<Rightarrow> bool" for env parent inp where
  started: "r_at r = TNew \<Longrightarrow> att_step env parent inp r (begin_run env inp r)"
| head: "r_at r = THead \<Longrightarrow> att_step env parent inp r (turn_or_continue env inp suggested r)"
| turn: "r_at r = TTurn delivered \<Longrightarrow> att_step env parent inp r (turn_done env parent inp delivered result r)"
| turn_error: "r_at r = TTurn delivered \<Longrightarrow> cause = None \<longrightarrow> r_cancel r \<Longrightarrow> att_step env parent inp r (activity_error env parent inp cause r)"
| committed: "r_at r = TCommit delivered result \<Longrightarrow> att_step env parent inp r (after_turn env parent inp delivered result r)"
| parked: "r_at r = TParking reason result
    \<Longrightarrow> att_step env parent inp r (r\<lparr>r_parked := r_parked r @ [parked_signal inp reason result], r_at := TParked reason result\<rparr>)"
| resumed: "r_at r = TParked reason result \<Longrightarrow> may_go_on reason (r_self r) \<Longrightarrow> att_step env parent inp r (go_on env parent inp result r)"
| sop: "r_at r = TSop run_state \<Longrightarrow> att_step env parent inp r (sop_done env parent inp result r)"
| sop_error: "r_at r = TSop run_state \<Longrightarrow> cause = None \<longrightarrow> r_cancel r \<Longrightarrow> att_step env parent inp r (activity_error env parent inp cause r)"
| sop_committed: "r_at r = TSopCommit result \<Longrightarrow> att_step env parent inp r (sop_ended env parent inp result r)"
| team: "r_at r = TTeam \<Longrightarrow> att_step env parent inp r (r\<lparr>r_self := self, r_parked := r_parked r @ parks\<rparr>)"
| team_ended: "r_at r = TTeam \<Longrightarrow> outcome \<in> {OCompleted, OFailed} \<Longrightarrow> att_step env parent inp r (report env parent inp True Returned outcome result r)"
| team_error: "r_at r = TTeam \<Longrightarrow> cause = None \<longrightarrow> r_cancel r \<Longrightarrow> att_step env parent inp r (activity_error env parent inp cause r)"
| team_unsent: "r_at r = TTeam \<Longrightarrow> att_step env parent inp r (r\<lparr>r_at := TOver Crashed\<rparr>)"
| team_continued: "r_at r = TTeam \<Longrightarrow> e_patched env ATTEMPT_CONTINUE_AS_NEW
    \<Longrightarrow> att_step env parent inp r (r\<lparr>r_at := TOver (Continued (inp\<lparr>ai_messages := [], ai_carry := Some (carry_att (r_self r))\<rparr>))\<rparr>)"
| team_cancelled: "r_at r = TTeam \<Longrightarrow> r_cancel r \<Longrightarrow> att_step env parent inp r (report_cancelled env parent inp r)"
| reported: "r_at r = TReporting guarded e s \<Longrightarrow> att_step env parent inp r (r\<lparr>r_reports := r_reports r @ [s], r_at := TOver e\<rparr>)"
| unsent: "r_at r = TReporting guarded e s \<or> r_at r = TParking reason result \<Longrightarrow> att_step env parent inp r (r\<lparr>r_at := TOver Crashed\<rparr>)"
| decided: "\<not> (\<exists>e. r_at r = TOver e) \<Longrightarrow> att_step env parent inp r (r\<lparr>r_self := approval_decided_att signal (r_self r)\<rparr>)"
| delivered: "\<not> (\<exists>e. r_at r = TOver e) \<Longrightarrow> r_at r \<noteq> TNew
    \<Longrightarrow> att_step env parent inp r (r\<lparr>r_self := deliver_messages_att messages (r_self r), r_given := r_given r @ messages\<rparr>)"
| delivered_early: "r_at r = TNew \<Longrightarrow> att_step env parent inp r (r\<lparr>r_self := deliver_messages_att messages (r_self r)\<rparr>)"
| cancel_activity: "\<not> r_cancel r \<Longrightarrow> r_at r = TTurn d \<or> r_at r = TSop run_state \<or> r_at r = TTeam \<Longrightarrow> att_step env parent inp r (r\<lparr>r_cancel := True\<rparr>)"
| cancel_commit: "\<not> r_cancel r \<Longrightarrow> r_at r = TCommit d result \<or> r_at r = TSopCommit result \<Longrightarrow> e_patched env ATTEMPT_FAILURE_CLASS
    \<Longrightarrow> att_step env parent inp r (report_cancelled env parent inp (r\<lparr>r_cancel := True\<rparr>))"
| cancel_commit_lost: "\<not> r_cancel r \<Longrightarrow> r_at r = TCommit d result \<or> r_at r = TSopCommit result \<Longrightarrow> \<not> e_patched env ATTEMPT_FAILURE_CLASS
    \<Longrightarrow> att_step env parent inp r (r\<lparr>r_cancel := True\<rparr>)"
| cancel_parked: "\<not> r_cancel r \<Longrightarrow> r_at r = TParked reason result
    \<Longrightarrow> att_step env parent inp r (report_cancelled env parent inp (r\<lparr>r_cancel := True\<rparr>))"
| cancel_parking: "\<not> r_cancel r \<Longrightarrow> r_at r = TParking reason result \<Longrightarrow> sent \<in> {[], [parked_signal inp reason result]}
    \<Longrightarrow> att_step env parent inp r (report_cancelled env parent inp (r\<lparr>r_cancel := True, r_parked := r_parked r @ sent\<rparr>))"
| cancel_reporting: "\<not> r_cancel r \<Longrightarrow> r_at r = TReporting True e s \<Longrightarrow> sent \<in> {[], [s]}
    \<Longrightarrow> att_step env parent inp r (report_cancelled env parent inp (r\<lparr>r_cancel := True, r_reports := r_reports r @ sent, r_cut := sent\<rparr>))"
| cancel_handling: "\<not> r_cancel r \<Longrightarrow> r_at r = TReporting False e s \<Longrightarrow> sent \<in> {[], [s]}
    \<Longrightarrow> att_step env parent inp r (r\<lparr>r_cancel := True, r_reports := r_reports r @ sent, r_cut := sent, r_at := TOver Cut_short\<rparr>)"

text \<open>The states of a run.\<close>

inductive att_reachable :: "env \<Rightarrow> bool \<Rightarrow> att_input \<Rightarrow> att_run \<Rightarrow> bool" for env parent inp where
  new: "att_reachable env parent inp new_run"
| step: "att_reachable env parent inp r \<Longrightarrow> att_step env parent inp r q \<Longrightarrow> att_reachable env parent inp q"

end
