(* ===== verification/Attempt_Correct.thy ===== *)
theory Attempt_Correct
  imports Attempt_Workflow Plan_Correct
begin

text \<open>
  What an attempt promises its task: its end is reported, no message it was handed is lost with it unless it is a team stage, it goes on from an approval
  only with every decision, its turns together stay within the budget reserved for it when each of them does, and a
  Continue-As-New does not change what the next turn is given. Two places where it keeps less than that are shown as well.
\<close>

lemmas att_defs = begin_run_def turn_or_continue_def report_def park_def report_cancelled_def activity_error_def after_turn_def turn_done_def
  sop_ended_def sop_done_def go_on_def begin_turn_def Let_def

lemma att_invariant:
  assumes "att_reachable env parent inp r" "P new_run"
    and "\<And>r q. P r \<Longrightarrow> att_step env parent inp r q \<Longrightarrow> P q"
  shows "P r"
  using assms(1) by (induction rule: att_reachable.induct) (use assms(2,3) in blast)+

section \<open>The end is reported\<close>

definition about :: "att_input \<Rightarrow> attempt_finished_signal \<Rightarrow> bool" where
  "about inp s \<longleftrightarrow> af_node_id s = ai_node_id inp \<and> af_attempt_no s = ai_attempt_no inp \<and> af_attempt_id s = ai_attempt_id inp"

lemma about_finished [simp]: "about inp (finished_signal env inp outcome result self)"
  by (simp add: about_def finished_signal_def Let_def)

lemma outcome_finished [simp]: "af_outcome (finished_signal env inp outcome result self) = outcome"
  by (simp add: finished_signal_def Let_def)

text \<open>
  The reports so far: none before the first is on its way, and besides the one a run ends with only the one a cancellation met on
  its way.
\<close>

definition ended_with :: "ending \<Rightarrow> att_run \<Rightarrow> bool" where
  "ended_with e r \<longleftrightarrow> (case e of
     Returned \<Rightarrow> r_cut r = [] \<and> length (r_reports r) = 1
   | Ended_cancelled \<Rightarrow> (\<exists>s. r_reports r = r_cut r @ [s] \<and> af_outcome s = OCancelled)
   | Cut_short \<Rightarrow> r_cancel r \<and> r_reports r = r_cut r
   | Crashed \<Rightarrow> r_reports r = r_cut r
   | Continued inp' \<Rightarrow> r_cut r = [] \<and> r_reports r = [])"

definition told :: "att_input \<Rightarrow> att_run \<Rightarrow> bool" where
  "told inp r \<longleftrightarrow> list_all (about inp) (r_reports r) \<and> length (r_cut r) \<le> 1 \<and> (r_cut r \<noteq> [] \<longrightarrow> r_cancel r) \<and>
     (case r_at r of
        TReporting g e s \<Rightarrow> about inp s \<and> r_reports r = r_cut r \<and> (g \<longrightarrow> r_cut r = [])
          \<and> (e = Returned \<and> r_cut r = [] \<or> e = Ended_cancelled \<and> af_outcome s = OCancelled)
      | TOver e \<Rightarrow> ended_with e r
      | _ \<Rightarrow> r_reports r = [] \<and> r_cut r = [])"

lemma told_step: "told inp r \<Longrightarrow> att_step env True inp r q \<Longrightarrow> told inp q"
  by (erule att_step.cases)
    (auto simp: told_def ended_with_def att_defs split: att_place.splits option.splits if_splits)

lemma reachable_told: "att_reachable env True inp r \<Longrightarrow> told inp r"
  by (erule att_invariant) (simp add: told_def new_run_def, rule told_step)

section \<open>The messages\<close>

abbreviation seqs :: "inbox_message list \<Rightarrow> nat set" where
  "seqs ms \<equiv> im_message_seq ` set ms"

definition first :: "inbox_message list \<Rightarrow> inbox_message list \<Rightarrow> bool" where
  "first d ms \<longleftrightarrow> (\<exists>rest. ms = d @ rest)"

lemma first_more [simp]: "first d ms \<Longrightarrow> first d (ms @ ns)" "first ms ms"
  by (auto simp: first_def)

text \<open>
  What was handed over is heard or still there. While a turn runs, what it was given is the head of the queue and counts as heard.
\<close>

definition covered :: "att_run \<Rightarrow> bool" where
  "covered r \<longleftrightarrow> finite (t_heard (r_self r)) \<and> seqs (r_given r) \<subseteq> t_heard (r_self r) \<union> seqs (t_messages (r_self r)) \<and>
     (case r_at r of
        TTurn d \<Rightarrow> t_in_flight (r_self r) = length d \<and> first d (t_messages (r_self r)) \<and> seqs d \<subseteq> t_heard (r_self r)
      | TCommit d result \<Rightarrow> t_in_flight (r_self r) = 0 \<and> first d (t_messages (r_self r)) \<and> seqs d \<subseteq> t_heard (r_self r)
      | TReporting g e s \<Rightarrow> g \<longrightarrow> t_in_flight (r_self r) = 0
      | TOver e \<Rightarrow> True
      | _ \<Rightarrow> t_in_flight (r_self r) = 0)"

lemma seqs_split: "first d ms \<Longrightarrow> seqs ms = seqs d \<union> seqs (drop (length d) ms)"
  by (auto simp: first_def)

lemma turn_returned_messages [simp]:
  "t_messages (turn_returned env result self) = t_messages self" "t_heard (turn_returned env result self) = t_heard self"
  "t_in_flight (turn_returned env result self) = 0"
  by (simp_all add: turn_returned_def count_usage_def split: option.split)

lemma turn_read_in_flight [simp]: "t_in_flight (turn_read env d result self) = t_in_flight self"
  by (simp add: turn_read_def consume_def Let_def split: option.split)

lemma turn_read_messages:
  "t_messages (turn_read env d result self)
     = (if turn_state result \<noteq> ''failed'' \<or> \<not> e_patched env ATTEMPT_RETURNS_MESSAGES then drop (length d) (t_messages self) else t_messages self)"
  "t_heard (turn_read env d result self)
     = (if turn_state result \<noteq> ''failed'' \<or> \<not> e_patched env ATTEMPT_RETURNS_MESSAGES then t_heard self else t_heard self - seqs d)"
  by (simp_all add: turn_read_def consume_def Let_def split: option.split)

lemma turn_read_covers:
  assumes "first d (t_messages self)" "seqs d \<subseteq> t_heard self" "G \<subseteq> t_heard self \<union> seqs (t_messages self)"
  shows "G \<subseteq> t_heard (turn_read env d result self) \<union> seqs (t_messages (turn_read env d result self))"
proof (cases "turn_state result = ''failed'' \<and> e_patched env ATTEMPT_RETURNS_MESSAGES")
  case True
  have sets: "G \<subseteq> H \<union> M \<Longrightarrow> D \<subseteq> M \<Longrightarrow> G \<subseteq> (H - D) \<union> M" for H M D :: "nat set" by blast
  have "seqs d \<subseteq> seqs (t_messages self)" using assms(1) by (auto simp: first_def)
  then show ?thesis using True sets[OF assms(3)] by (simp add: turn_read_messages)
next
  case False
  have sets: "G \<subseteq> H \<union> (D \<union> R) \<Longrightarrow> D \<subseteq> H \<Longrightarrow> G \<subseteq> H \<union> R" for H D R :: "nat set" by blast
  show ?thesis using False sets[OF assms(3)[unfolded seqs_split[OF assms(1)]] assms(2)] by (auto simp: turn_read_messages)
qed

lemma covered_after_turn:
  assumes "finite (t_heard (r_self r))" "seqs (r_given r) \<subseteq> t_heard (r_self r) \<union> seqs (t_messages (r_self r))"
    "first d (t_messages (r_self r))" "seqs d \<subseteq> t_heard (r_self r)" "t_in_flight (r_self r) = 0"
  shows "covered (after_turn env parent inp d result r)"
proof -
  have "finite (t_heard (turn_read env d result (r_self r)))" using assms(1) by (simp add: turn_read_messages)
  then show ?thesis using turn_read_covers[OF assms(3,4,2), of env result] assms(5)
    by (simp add: covered_def after_turn_def report_def park_def Let_def)
qed

lemma covered_turn_done:
  assumes "covered r" "r_at r = TTurn d"
  shows "covered (turn_done env parent inp d result r)"
  using assms covered_after_turn[of "r\<lparr>r_self := turn_returned env result (r_self r)\<rparr>" d env parent inp result]
  by (simp add: covered_def turn_done_def Let_def)

lemma start_att_heard [simp]:
  "finite (t_heard self) \<Longrightarrow> finite (t_heard (start_att inp self))" "t_in_flight (start_att inp self) = t_in_flight self"
  by (simp_all add: start_att_def restore_def Let_def split: option.split)

lemma covered_delivered:
  "covered r \<Longrightarrow> covered (r\<lparr>r_self := deliver_messages_att ms (r_self r), r_given := r_given r @ ms\<rparr>)"
  "covered r \<Longrightarrow> r_at r = TNew \<Longrightarrow> covered (r\<lparr>r_self := deliver_messages_att ms (r_self r)\<rparr>)"
  by (auto simp: covered_def deliver_messages_att_def split: att_place.splits)

lemma covered_step: "covered r \<Longrightarrow> att_step env parent inp r q \<Longrightarrow> r_at r \<noteq> TTeam \<Longrightarrow> covered q"
proof (erule att_step.cases, goal_cases)
  case 3
  then show ?case using covered_turn_done by blast
next
  case (5 r1 d result)
  then have "covered r1" by simp
  then have "covered (after_turn env parent inp d result r1)" using 5 covered_after_turn[of r1 d env parent inp result] by (simp add: covered_def)
  then show ?case using 5 by simp
next
  case 20
  then show ?case using covered_delivered by blast
next
  case 21
  then show ?case using covered_delivered by blast
qed (auto simp: covered_def att_defs approval_decided_att_def split: att_place.splits option.splits if_splits)

text \<open>A stage of a team is at \<open>TTeam\<close> until it ends, and no other attempt is there.\<close>

definition on_track :: "env \<Rightarrow> att_input \<Rightarrow> att_run \<Rightarrow> bool" where
  "on_track env inp r = (case r_at r of
     TNew \<Rightarrow> True | TTeam \<Rightarrow> runs_team env inp | TReporting g e s \<Rightarrow> True | TOver e \<Rightarrow> True | _ \<Rightarrow> \<not> runs_team env inp)"

lemma on_track_step: "on_track env inp r \<Longrightarrow> att_step env parent inp r q \<Longrightarrow> on_track env inp q"
  by (erule att_step.cases)
    (auto simp: on_track_def att_defs runs_team_def split: att_place.splits option.splits if_splits)

lemma reachable_on_track: "att_reachable env parent inp r \<Longrightarrow> on_track env inp r"
  by (erule att_invariant) (simp add: on_track_def new_run_def, rule on_track_step)

lemma reachable_covered:
  assumes "att_reachable env parent inp r" "\<not> runs_team env inp"
  shows "covered r"
  using assms(1)
proof induction
  case new
  show ?case by (simp add: covered_def new_run_def init_att_def)
next
  case (step r q)
  have "r_at r \<noteq> TTeam" using reachable_on_track[OF step.hyps(1)] assms(2) by (auto simp: on_track_def)
  then show ?case using covered_step step by blast
qed

lemma heard_seqs_all:
  assumes "finite (t_heard self)" "card (t_heard self) \<le> MAX_HEARD"
  shows "set (heard_seqs self) = t_heard self"
proof -
  have "length (sorted_list_of_set (t_heard self)) \<le> MAX_HEARD" using assms(2) by simp
  then show ?thesis using assms(1) by (simp add: heard_seqs_def last_n_def)
qed

lemma unconsumed_finished [simp]: "e_patched env ATTEMPT_RETURNS_MESSAGES \<Longrightarrow>
    af_unconsumed_messages (finished_signal env inp outcome result self) = drop (if outcome = OCancelled then t_in_flight self else 0) (t_messages self)"
  by (simp add: finished_signal_def Let_def)

lemma heard_finished [simp]: "e_patched env ATTEMPT_HEARD_MESSAGES \<Longrightarrow>
    af_heard_message_seqs (finished_signal env inp outcome result self) = Some (heard_seqs self)"
  by (simp add: finished_signal_def Let_def)

text \<open>A report is built from the state its run has then; a cancellation has left the messages as they were.\<close>

definition handling :: "att_place \<Rightarrow> bool" where
  "handling p = (case p of TReporting g e s \<Rightarrow> \<not> g | TOver e \<Rightarrow> True | _ \<Rightarrow> False)"

definition built :: "env \<Rightarrow> att_input \<Rightarrow> att_run \<Rightarrow> att \<Rightarrow> attempt_finished_signal \<Rightarrow> bool" where
  "built env inp r self s \<longleftrightarrow> (\<exists>outcome result. s = finished_signal env inp outcome result self \<and>
     (outcome = OCancelled \<longrightarrow> t_messages self = t_messages (r_self r) \<and> t_heard self = t_heard (r_self r)
        \<and> t_in_flight self = t_in_flight (r_self r) \<and> \<not> handling (r_at r)))"

lemma built_open [simp]: "outcome \<noteq> OCancelled \<Longrightarrow> built env inp r self (finished_signal env inp outcome result self)"
  by (auto simp: built_def)

lemma built_cancelled [simp]: "\<not> handling (r_at r) \<Longrightarrow>
    built env inp r ((r_self r)\<lparr>t_cancelled := c\<rparr>) (finished_signal env inp OCancelled result ((r_self r)\<lparr>t_cancelled := c\<rparr>))"
  "\<not> handling (r_at r) \<Longrightarrow> built env inp r (r_self r) (finished_signal env inp OCancelled result (r_self r))"
  unfolding built_def by (rule exI[of _ OCancelled], rule exI[of _ result], simp)+

lemma report_built:
  "att_step env parent inp r q \<Longrightarrow> r_at q = TReporting g e s \<Longrightarrow> r_at r \<noteq> r_at q \<Longrightarrow> built env inp r (r_self q) s"
  by (erule att_step.cases) (auto simp: att_defs handling_def split: option.splits if_splits)

lemma in_flight_heard:
  assumes "covered r" "\<not> handling (r_at r)"
  shows "seqs (take (t_in_flight (r_self r)) (t_messages (r_self r))) \<subseteq> t_heard (r_self r)"
proof (cases "r_at r")
  case (TTurn d)
  then show ?thesis using assms(1) by (auto simp: covered_def first_def)
qed (use assms in \<open>simp_all add: covered_def handling_def\<close>)

lemma seqs_take_drop: "seqs ms = seqs (take n ms) \<union> seqs (drop n ms)"
  by (simp flip: image_Un set_append)

lemma unconsumed_covers:
  assumes "G \<subseteq> H \<union> seqs ms" "seqs (take n ms) \<subseteq> H"
  shows "G \<subseteq> H \<union> seqs (drop n ms)"
proof -
  have sets: "G \<subseteq> H \<union> (A \<union> B) \<Longrightarrow> A \<subseteq> H \<Longrightarrow> G \<subseteq> H \<union> B" for A B by blast
  show ?thesis by (rule sets[OF assms(1)[unfolded seqs_take_drop[of ms n]] assms(2)])
qed

section \<open>An attempt to try the theorems on\<close>

definition all_on :: env where
  "all_on = \<lparr>e_patched = (\<lambda>_. True), e_px = demo_px, e_now = 0, e_uuid = nat_str, e_workflow_id = ''wf'', e_continue_suggested = False, e_depth = 8\<rparr>"

definition demo_inbox :: inbox_message where
  "demo_inbox = \<lparr>im_message_seq = 3, im_client_message_id = ''m'', im_text = ''hi'', im_attachments = [], im_delivery = Queue, im_mentions = []\<rparr>"

definition demo_att_input :: att_input where
  "demo_att_input = \<lparr>ai_node_id = ''n1'', ai_attempt_id = ''att_1'', ai_attempt_no = 1, ai_node_type = AgentTurn, ai_profile = ''p@1'', ai_goal = ''g'',
     ai_policy = \<lparr>p_denied_tools = [], p_exploration_max_tool_calls = None, p_max_concurrency = None, p_max_review_rounds = None\<rparr>,
     ai_workspace_access = ReadAccess, ai_messages = [demo_inbox],
     ai_config = \<lparr>c_config_version = 1, c_expert = None, c_skills = None, c_connectors = None, c_mode = ModeDefault, c_model = None, c_team = None, c_permissions = None\<rparr>,
     ai_allow_rules = [], ai_continue_from = None, ai_retry_reason = [], ai_budget = Some (no_budget\<lparr>b_tokens := Some 10\<rparr>), ai_switched_from = None,
     ai_handover = [], ai_output_schema_ref = None, ai_team = None, ai_carry = None\<rparr>"

definition demo_subject :: approval_subject where
  "demo_subject = \<lparr>sb_kind = SubjToolCall, sb_digest = ''d'', sb_summary = ''s'', sb_risk = Low, sb_detail = [], sb_allow_rule = None, sb_role = None, sb_role_label = None\<rparr>"

definition demo_turn :: att_run where
  "demo_turn = turn_or_continue all_on demo_att_input False (begin_run all_on demo_att_input new_run)"

definition demo_commit :: "turn_result \<Rightarrow> att_run" where
  "demo_commit result = turn_done all_on True demo_att_input [demo_inbox] result demo_turn"

definition demo_after :: "turn_result \<Rightarrow> att_run" where
  "demo_after result = after_turn all_on True demo_att_input [demo_inbox] result (demo_commit result)"

lemma all_on [simp]: "e_patched all_on p"
  by (simp add: all_on_def)

lemma demo_no_team [simp]: "\<not> runs_team all_on demo_att_input"
  by (simp add: runs_team_def demo_att_input_def)

lemma demo_turn_at [simp]:
  "r_at demo_turn = TTurn [demo_inbox]" "r_given demo_turn = [demo_inbox]" "r_reports demo_turn = []" "r_cancel demo_turn = False"
  "t_messages (r_self demo_turn) = [demo_inbox]" "t_heard (r_self demo_turn) = {3}" "t_usage (r_self demo_turn) = no_usage"
  "t_cancelled (r_self demo_turn) = False"
  by (simp_all add: demo_turn_def att_defs new_run_def start_att_def init_att_def runs_team_def demo_att_input_def demo_inbox_def)

lemma demo_turn_reachable: "att_reachable all_on True demo_att_input demo_turn"
proof -
  have "r_at (begin_run all_on demo_att_input new_run) = THead" by (simp add: begin_run_def runs_team_def demo_att_input_def Let_def)
  then show ?thesis unfolding demo_turn_def
    by (intro att_reachable.step[OF att_reachable.step[OF att_reachable.new att_step.started] att_step.head]) (simp_all add: new_run_def)
qed

lemma demo_commit_at [simp]: "r_at (demo_commit result) = TCommit [demo_inbox] result" "r_cancel (demo_commit result) = False"
  "r_reports (demo_commit result) = []" "r_given (demo_commit result) = [demo_inbox]"
  by (simp_all add: demo_commit_def turn_done_def Let_def)

lemma demo_commit_reachable: "att_reachable all_on True demo_att_input (demo_commit result)"
  unfolding demo_commit_def by (intro att_reachable.step[OF demo_turn_reachable att_step.turn]) simp

lemma demo_after_reachable: "att_reachable all_on True demo_att_input (demo_after result)"
  unfolding demo_after_def by (intro att_reachable.step[OF demo_commit_reachable att_step.committed]) simp

section \<open>The properties\<close>

text \<open>
  C22. The end of an attempt is reported, whatever the stage is (an agent's turns, an SOP, a team). Every report is about this
  attempt. A run that returned has told its parent once. A run that was cancelled has told it once that it was cancelled, after at
  most one earlier report: the one that was on its way when the cancellation came and that the parent got all the same. A run cut
  short by a cancellation inside its error handler, and one that a failed signal ended, has told it no more than that, and one that
  continues as new nothing. Without a cancellation there is no such earlier report.
\<close>

theorem attempt_end_reported:
  assumes "att_reachable env True inp r" "r_at r = TOver e"
  shows "list_all (about inp) (r_reports r) \<and> length (r_cut r) \<le> (if r_cancel r then 1 else 0) \<and> (case e of
      Returned \<Rightarrow> length (r_reports r) = 1
    | Ended_cancelled \<Rightarrow> (\<exists>s. r_reports r = r_cut r @ [s] \<and> af_outcome s = OCancelled)
    | Continued inp' \<Rightarrow> r_reports r = []
    | _ \<Rightarrow> r_reports r = r_cut r)"
  using reachable_told[OF assms(1)] assms(2) by (auto simp: told_def ended_with_def split: ending.splits)

theorem attempt_end_reported_witness:
  "\<exists>r. att_reachable all_on True demo_att_input r \<and> r_at r = TOver Returned \<and> length (r_reports r) = 1 \<and> list_all (about demo_att_input) (r_reports r)"
proof -
  define q where "q = demo_after no_result"
  have at: "r_at q = TReporting True Returned (finished_signal all_on demo_att_input OCompleted no_result (r_self q))"
    by (simp add: q_def demo_after_def after_turn_def report_def turn_state_def Let_def no_result_def)
  define r where "r = q\<lparr>r_reports := r_reports q @ [finished_signal all_on demo_att_input OCompleted no_result (r_self q)], r_at := TOver Returned\<rparr>"
  have r: "att_reachable all_on True demo_att_input r" unfolding r_def
    using att_reachable.step[OF demo_after_reachable[of no_result, folded q_def] att_step.reported[OF at]] .
  moreover have "r_at r = TOver Returned" by (simp add: r_def)
  ultimately show ?thesis using attempt_end_reported[OF r, of Returned] by auto
qed

text \<open>
  C23. No message is lost with an attempt that is not a team stage. When a report leaves the run, every message the attempt was handed
  since \<open>run\<close> began is among those the report gives back or has a number among those it says were heard, as long as no more than 64
  numbers of heard messages are to be reported, the bound of the report. A team stage is left out: it may drop a message (a member's
  turn empties the queue, and the leader's turn then drops as many from the front as it was given). So is what came before \<open>run\<close>
  began, see \<open>early_signals_dropped\<close>.
\<close>

theorem no_message_lost:
  assumes "att_reachable env parent inp r" "att_step env parent inp r q" "r_at q = TReporting g e s" "r_at r \<noteq> r_at q"
    and "e_patched env ATTEMPT_RETURNS_MESSAGES" "e_patched env ATTEMPT_HEARD_MESSAGES" "card (t_heard (r_self q)) \<le> 64" "\<not> runs_team env inp"
  shows "seqs (r_given q) \<subseteq> set (the (af_heard_message_seqs s)) \<union> seqs (af_unconsumed_messages s)"
proof -
  have q: "covered q" by (rule reachable_covered[OF att_reachable.step[OF assms(1,2)] assms(8)])
  then have all: "seqs (r_given q) \<subseteq> t_heard (r_self q) \<union> seqs (t_messages (r_self q))" and fin: "finite (t_heard (r_self q))"
    by (simp_all add: covered_def)
  obtain outcome result where s: "s = finished_signal env inp outcome result (r_self q)"
    and cancelled: "outcome = OCancelled \<Longrightarrow> t_messages (r_self q) = t_messages (r_self r) \<and> t_heard (r_self q) = t_heard (r_self r)
        \<and> t_in_flight (r_self q) = t_in_flight (r_self r) \<and> \<not> handling (r_at r)"
    using report_built[OF assms(2-4)] unfolding built_def by blast
  define n where "n = (if outcome = OCancelled then t_in_flight (r_self q) else 0)"
  have "seqs (take n (t_messages (r_self q))) \<subseteq> t_heard (r_self q)"
    using cancelled in_flight_heard[OF reachable_covered[OF assms(1,8)]] by (cases "outcome = OCancelled") (simp_all add: n_def)
  from unconsumed_covers[OF all this] show ?thesis using heard_seqs_all[OF fin] assms(5-7) by (simp add: s n_def MAX_HEARD_def)
qed

theorem no_message_lost_witness:
  "r_given (demo_after (no_result\<lparr>tr_status := Some ''failed''\<rparr>)) = [demo_inbox] \<and>
   seqs [demo_inbox] \<subseteq> set (the (af_heard_message_seqs (finished_signal all_on demo_att_input OFailed (no_result\<lparr>tr_status := Some ''failed''\<rparr>)
       (r_self (demo_after (no_result\<lparr>tr_status := Some ''failed''\<rparr>))))))
     \<union> seqs (af_unconsumed_messages (finished_signal all_on demo_att_input OFailed (no_result\<lparr>tr_status := Some ''failed''\<rparr>)
       (r_self (demo_after (no_result\<lparr>tr_status := Some ''failed''\<rparr>)))))"
proof -
  let ?f = "no_result\<lparr>tr_status := Some ''failed''\<rparr>"
  have step: "att_step all_on True demo_att_input (demo_commit ?f) (demo_after ?f)"
    unfolding demo_after_def by (rule att_step.committed) simp
  have self: "r_self (demo_after ?f) = turn_read all_on [demo_inbox] ?f (r_self (demo_commit ?f))"
    and at: "r_at (demo_after ?f) = TReporting True Returned (finished_signal all_on demo_att_input OFailed ?f (r_self (demo_after ?f)))"
    and given: "r_given (demo_after ?f) = [demo_inbox]"
    by (simp_all add: demo_after_def after_turn_def report_def turn_state_def Let_def)
  have "t_heard (r_self (demo_after ?f)) = {}"
    by (simp add: self turn_read_messages demo_commit_def turn_done_def turn_state_def demo_inbox_def Let_def)
  then have heard: "card (t_heard (r_self (demo_after ?f))) \<le> 64" by simp
  show ?thesis using no_message_lost[OF demo_commit_reachable step at _ _ _ heard] given by (simp add: at)
qed

definition awaits :: "att_run \<Rightarrow> bool" where
  "awaits r \<longleftrightarrow> (case r_at r of
     TParking k result \<Rightarrow> k = ParkApproval \<longrightarrow> t_awaiting (r_self r) = map pk_tool_call_id (tr_approvals result)
       \<and> t_approval_request_id (r_self r) = tr_approval_request_id result
   | TParked k result \<Rightarrow> k = ParkApproval \<longrightarrow> t_awaiting (r_self r) = map pk_tool_call_id (tr_approvals result)
       \<and> t_approval_request_id (r_self r) = tr_approval_request_id result
   | _ \<Rightarrow> True)"

lemma turn_read_awaits: "turn_state result = ''parked_approval'' \<Longrightarrow>
    t_awaiting (turn_read env d result self) = map pk_tool_call_id (tr_approvals result)
    \<and> t_approval_request_id (turn_read env d result self) = tr_approval_request_id result"
  by (simp add: turn_read_def Let_def)

lemma awaits_step: "awaits r \<Longrightarrow> att_step env parent inp r q \<Longrightarrow> awaits q"
  by (erule att_step.cases)
    (auto simp: awaits_def att_defs approval_decided_att_def deliver_messages_att_def turn_read_awaits split: att_place.splits option.splits if_splits)

lemma reachable_awaits: "att_reachable env parent inp r \<Longrightarrow> awaits r"
  by (erule att_invariant) (simp add: awaits_def new_run_def, rule awaits_step)

lemma dmap_keys: "fst ` set (dmap f d) = fst ` set d"
  by (force simp: dmap_def)

lemma dmap_all: "list_all p (dvals (dmap (\<lambda>_. g) d)) = list_all (\<lambda>v. p (g v)) (dvals d)"
  by (force simp: dmap_def list_all_iff)

lemma resumed_head:
  assumes "att_step env parent inp r q" "r_at r = TParked k result" "r_at q = THead"
  shows "may_go_on k (r_self r) \<and> \<not> t_cancelled (r_self r) \<and> r_self q = r_self r"
  using assms by (cases rule: att_step.cases) (auto simp: att_defs split: option.splits if_splits)

text \<open>
  C34. An attempt goes on from an approval only with every decision. When a run parked on tool calls looks at the head of its loop
  again, the payload of its next turn has a decision for each of the calls, names the request the turn parked with, and is an
  approval exactly when every decision is one.
\<close>

theorem resumed_decided:
  assumes "att_reachable env parent inp r" "r_at r = TParked ParkApproval result" "att_step env parent inp r q" "r_at q = THead"
    and "tr_approvals result \<noteq> []"
  shows "\<exists>p. tc_approval (fst (begin_turn env inp (r_self q))) = Some p \<and> set (map pk_tool_call_id (tr_approvals result)) \<subseteq> fst ` set (pl_decisions p)
    \<and> pl_approval_request_id p = tr_approval_request_id result \<and> pl_approve p = list_all (\<lambda>d. d = Approve) (dvals (pl_decisions p))"
proof -
  have self: "may_go_on ParkApproval (r_self r)" "\<not> t_cancelled (r_self r)" "r_self q = r_self r" using resumed_head[OF assms(3,2,4)] by auto
  have ids: "t_awaiting (r_self r) = map pk_tool_call_id (tr_approvals result)" "t_approval_request_id (r_self r) = tr_approval_request_id result"
    using reachable_awaits[OF assms(1)] assms(2) by (simp_all add: awaits_def)
  have keys: "set (map pk_tool_call_id (tr_approvals result)) \<subseteq> fst ` set (t_decisions (r_self r))"
    using self(1,2) ids(1) by (auto simp: may_go_on_def list_all_iff)
  then have "t_decisions (r_self r) \<noteq> []" using assms(5) by (cases "tr_approvals result") auto
  then show ?thesis using keys ids(2) self(3)
    by (simp add: begin_turn_def approval_payload_of_def Let_def dmap_keys dmap_all)
qed

theorem resumed_decided_witness:
  "\<exists>r q p. att_reachable all_on True demo_att_input r \<and> att_step all_on True demo_att_input r q \<and> r_at q = THead
     \<and> tc_approval (fst (begin_turn all_on demo_att_input (r_self q))) = Some p \<and> ''c1'' \<in> fst ` set (pl_decisions p) \<and> \<not> pl_approve p"
proof -
  define result where "result = no_result\<lparr>tr_status := Some ''parked_approval'', tr_approval_request_id := ''q'',
    tr_approvals := [\<lparr>pk_tool_call_id = ''c1'', pk_subject = demo_subject\<rparr>]\<rparr>"
  define s where "s = \<lparr>ad_approval_id = ''ap'', ad_tool_call_id = Some ''c1'', ad_decision = Reject, ad_comment = [], ad_rule = None\<rparr>"
  define r0 where "r0 = demo_after result"
  define r1 where "r1 = r0\<lparr>r_parked := r_parked r0 @ [parked_signal demo_att_input ParkApproval result], r_at := TParked ParkApproval result\<rparr>"
  define r where "r = r1\<lparr>r_self := approval_decided_att s (r_self r1)\<rparr>"
  have self0: "r_self r0 = turn_read all_on [demo_inbox] result (r_self (demo_commit result))" and at0: "r_at r0 = TParking ParkApproval result"
    by (simp_all add: r0_def demo_after_def after_turn_def park_def turn_state_def result_def Let_def)
  have "att_reachable all_on True demo_att_input r1" unfolding r1_def
    by (rule att_reachable.step[OF demo_after_reachable[of result, folded r0_def] att_step.parked[OF at0]])
  then have r: "att_reachable all_on True demo_att_input r" unfolding r_def by (rule att_reachable.step[OF _ att_step.decided]) (simp add: r1_def)
  have at: "r_at r = TParked ParkApproval result" by (simp add: r_def r1_def)
  have now: "t_decisions (r_self r) = [(''c1'', s)]" "t_awaiting (r_self r) = [''c1'']" "\<not> t_cancelled (r_self r)"
    by (simp_all add: r_def r1_def self0 approval_decided_att_def turn_read_def turn_state_def result_def s_def consume_def Let_def demo_commit_def turn_done_def
      turn_returned_def count_usage_def no_result_def)
  have go: "may_go_on ParkApproval (r_self r)" using now by (simp add: may_go_on_def)
  have head: "r_at (go_on all_on True demo_att_input result r) = THead" using now by (simp add: go_on_def)
  note step = att_step.resumed[OF at go, of all_on True demo_att_input]
  have some: "tr_approvals result \<noteq> []" by (simp add: result_def)
  obtain p where p: "tc_approval (fst (begin_turn all_on demo_att_input (r_self (go_on all_on True demo_att_input result r)))) = Some p"
      "set (map pk_tool_call_id (tr_approvals result)) \<subseteq> fst ` set (pl_decisions p)"
    using resumed_decided[OF r at step head some] by blast
  have "''c1'' \<in> fst ` set (pl_decisions p)" using p(2) by (simp add: result_def)
  moreover have "\<not> pl_approve p" using p(1) now
    by (auto simp: go_on_def begin_turn_def approval_payload_of_def Let_def s_def)
  ultimately show ?thesis using r step head p(1) by blast
qed

definition funded :: "env \<Rightarrow> att_input \<Rightarrow> att_run \<Rightarrow> bool" where
  "funded env inp r \<longleftrightarrow> (case r_at r of TTurn d \<Rightarrow> r_calls r \<noteq> [] \<and> tc_budget (last (r_calls r)) = budget_payload env inp (r_self r) | _ \<Rightarrow> True)"

lemma budget_payload_same: "t_usage self' = t_usage self \<Longrightarrow> budget_payload env inp self' = budget_payload env inp self"
  by (simp add: budget_payload_def split: option.split)

lemma funded_step: "funded env inp r \<Longrightarrow> att_step env parent inp r q \<Longrightarrow> funded env inp q"
  by (erule att_step.cases)
    (auto simp: funded_def att_defs approval_decided_att_def deliver_messages_att_def split: att_place.splits option.splits if_splits intro!: budget_payload_same)

lemma reachable_funded: "att_reachable env parent inp r \<Longrightarrow> funded env inp r"
  by (erule att_invariant) (simp add: funded_def new_run_def, rule funded_step)

text \<open>
  The turns of an attempt share its reservation. While a turn runs, what it was given of a limit and what the turns before it
  spent are together the reservation, or all of it is spent and the turn was given nothing; so the attempt stays within a limit
  it has not passed yet as long as the turn spends no more than it was given.
\<close>

theorem turns_share_reservation:
  assumes "att_reachable env parent inp r" "r_at r = TTurn d" "ai_budget inp = Some b" "bget b f = Some v" "e_patched env ATTEMPT_BUDGET"
    and "spent (t_usage (r_self r)) f \<le> v"
  shows "\<exists>w. map_option (\<lambda>given. bget given f) (tc_budget (last (r_calls r))) = Some (Some w) \<and> w + spent (t_usage (r_self r)) f = v
    \<and> (\<forall>result u. tr_usage result = Some u \<and> spent u f \<le> w \<longrightarrow> spent (t_usage (turn_returned env result (r_self r))) f \<le> v)"
proof -
  have "tc_budget (last (r_calls r)) = Some (after b (t_usage (r_self r)))"
    using reachable_funded[OF assms(1)] assms(2,3,5) by (simp add: funded_def budget_payload_def)
  then show ?thesis using assms(4-6) by (auto simp: after_def turn_returned_def count_usage_def)
qed

theorem turns_share_reservation_witness:
  "att_reachable all_on True demo_att_input demo_turn \<and> r_at demo_turn = TTurn [demo_inbox]
     \<and> map_option (\<lambda>given. bget given Tokens) (tc_budget (last (r_calls demo_turn))) = Some (Some 10)"
proof -
  have none: "spent (t_usage (r_self demo_turn)) Tokens = 0" by (simp add: no_usage_def spent_def)
  have b: "ai_budget demo_att_input = Some (no_budget\<lparr>b_tokens := Some 10\<rparr>)" by (simp add: demo_att_input_def)
  have "bget (no_budget\<lparr>b_tokens := Some 10\<rparr>) Tokens = Some 10" "e_patched all_on ATTEMPT_BUDGET" "spent (t_usage (r_self demo_turn)) Tokens \<le> 10"
    using none by simp_all
  from turns_share_reservation[OF demo_turn_reachable demo_turn_at(1) b this] none show ?thesis using demo_turn_reachable demo_turn_at(1) by auto
qed

lemma continued:
  assumes "att_step env parent inp r q" "r_at r = THead" "r_at q = TOver (Continued inp')"
  shows "inp' = inp\<lparr>ai_messages := [], ai_carry := Some (carry_att (r_self r))\<rparr>"
  using assms by (cases rule: att_step.cases) (auto simp: att_defs split: option.splits if_splits)

text \<open>
  A Continue-As-New does not change what the agent sees. The first turn of the run that follows is given exactly the payload
  the next turn of this one would have been given, and the run goes on with the same books, up to the bound on the numbers of the
  heard messages.
\<close>

theorem attempt_continue_roundtrip:
  assumes "att_step env parent inp r q" "r_at r = THead" "r_at q = TOver (Continued inp')"
  shows "fst (begin_turn env inp' (start_att inp' init_att)) = fst (begin_turn env inp (r_self r))
    \<and> start_att inp' init_att = (r_self r)\<lparr>t_awaiting := [], t_cancelled := False, t_ran_activity := False, t_in_flight := 0, t_heard := set (heard_seqs (r_self r))\<rparr>"
proof -
  have inp': "inp' = inp\<lparr>ai_messages := [], ai_carry := Some (carry_att (r_self r))\<rparr>" by (rule continued[OF assms])
  show ?thesis
    by (simp add: inp' begin_turn_def start_att_def restore_def carry_att_def init_att_def approval_payload_of_def budget_payload_def Let_def
        split: option.split)
qed

theorem attempt_continue_roundtrip_witness:
  "\<exists>r q inp'. att_step all_on True demo_att_input r q \<and> r_at q = TOver (Continued inp') \<and> t_messages (r_self r) = [demo_inbox]
     \<and> tc_messages (fst (begin_turn all_on inp' (start_att inp' init_att))) = [demo_inbox]"
proof -
  define r where "r = new_run\<lparr>r_at := THead, r_self := init_att\<lparr>t_ran_activity := True, t_messages := [demo_inbox], t_heard := {1}\<rparr>\<rparr>"
  define inp' where "inp' = demo_att_input\<lparr>ai_messages := [], ai_carry := Some (carry_att (r_self r))\<rparr>"
  have step: "att_step all_on True demo_att_input r (turn_or_continue all_on demo_att_input True r)" by (rule att_step.head) (simp add: r_def)
  have head: "r_at r = THead" by (simp add: r_def)
  have over: "r_at (turn_or_continue all_on demo_att_input True r) = TOver (Continued inp')" by (simp add: turn_or_continue_def inp'_def r_def)
  have messages: "t_messages (r_self r) = [demo_inbox]" by (simp add: r_def)
  have "tc_messages (fst (begin_turn all_on demo_att_input (r_self r))) = [demo_inbox]" by (simp add: begin_turn_def messages Let_def)
  then have "tc_messages (fst (begin_turn all_on inp' (start_att inp' init_att))) = [demo_inbox]"
    using conjunct1[OF attempt_continue_roundtrip[OF step head over]] by simp
  then show ?thesis using step over messages by blast
qed

text \<open>
  A message that comes with the start of a run is dropped. \<open>run\<close> sets the queue from its input, or from what the last run
  carried, after the handler of a signal that arrived before the first task has put its messages into it: the run begins as if
  they had not been sent. What a Continue-As-New carries replaces the decisions in the same way.
\<close>

theorem early_signals_dropped:
  "begin_run env inp (r\<lparr>r_self := deliver_messages_att messages (r_self r)\<rparr>) = begin_run env inp r
   \<and> begin_run env (inp\<lparr>ai_carry := Some carry\<rparr>) (r\<lparr>r_self := approval_decided_att signal (r_self r)\<rparr>) = begin_run env (inp\<lparr>ai_carry := Some carry\<rparr>) r"
  by (simp add: begin_run_def start_att_def restore_def deliver_messages_att_def approval_decided_att_def Let_def split: option.split)

text \<open>
  A cancellation during the commit gives back what the turn heard. The turn has returned, so nothing is in flight, but its
  messages are taken from the queue only after the commit: the report of the cancelled attempt gives all of them back to the task
  although they count as heard.
\<close>

theorem commit_cancel_returns_heard:
  assumes "att_reachable env True inp r" "r_at r = TCommit d result" "\<not> r_cancel r" "e_patched env ATTEMPT_FAILURE_CLASS"
    and "e_patched env ATTEMPT_RETURNS_MESSAGES"
  shows "\<exists>q s. att_step env True inp r q \<and> r_at q = TReporting False Ended_cancelled s \<and> af_outcome s = OCancelled
    \<and> set d \<subseteq> set (af_unconsumed_messages s) \<and> seqs d \<subseteq> t_heard (r_self q)"
proof -
  define q where "q = report_cancelled env True inp (r\<lparr>r_cancel := True\<rparr>)"
  have step: "att_step env True inp r q" unfolding q_def by (rule att_step.cancel_commit) (use assms in auto)
  have "t_in_flight (r_self r) = 0" "first d (t_messages (r_self r))" "seqs d \<subseteq> t_heard (r_self r)"
    using reachable_covered[OF assms(1)] reachable_on_track[OF assms(1)] assms(2) by (simp_all add: covered_def on_track_def)
  then show ?thesis using step assms(5) by (intro exI[of _ q]) (auto simp: q_def report_cancelled_def report_def first_def)
qed

theorem commit_cancel_returns_heard_witness:
  "\<exists>q s. att_step all_on True demo_att_input (demo_commit no_result) q \<and> r_at q = TReporting False Ended_cancelled s
     \<and> demo_inbox \<in> set (af_unconsumed_messages s) \<and> 3 \<in> t_heard (r_self q)"
proof -
  obtain q s where "att_step all_on True demo_att_input (demo_commit no_result) q" "r_at q = TReporting False Ended_cancelled s"
      "set [demo_inbox] \<subseteq> set (af_unconsumed_messages s)" "seqs [demo_inbox] \<subseteq> t_heard (r_self q)"
    using commit_cancel_returns_heard[OF demo_commit_reachable demo_commit_at(1), of no_result] by auto
  then show ?thesis by (auto simp: demo_inbox_def)
qed

end
