(* ===== verification/Team_Stage.thy ===== *)
theory Team_Stage
  imports Handover Workflow_Common Plan_Engine
begin

text \<open>
  \<^verbatim>\<open>orbit_orch/team_stage.py\<close>: the state of a team stage (its leader and members, the mailbox, the files members left) and the rules of its
  protocol that need no workflow. The words the code says in Chinese are outside \<open>char\<close> and are an argument, \<open>wording\<close>; no limit counts
  them.
\<close>

section \<open>Limits\<close>

definition NOTE_CHARS :: nat where "NOTE_CHARS = 500"
definition RESULT_CHARS :: nat where "RESULT_CHARS = 6000"
definition FILES_LISTED :: nat where "FILES_LISTED = 20"
definition MAX_TEAM_FILES :: nat where "MAX_TEAM_FILES = 100"
definition NOTES_PER_TURN :: nat where "NOTES_PER_TURN = 5"
definition MAILBOX_KEPT :: nat where "MAILBOX_KEPT = 200"
definition MAILBOX_SHOWN :: nat where "MAILBOX_SHOWN = 10"
definition MAILBOX_BLOCK_CHARS :: nat where "MAILBOX_BLOCK_CHARS = 4000"
definition USER_CHARS :: nat where "USER_CHARS = 2000"
definition MESSAGE_CHARS :: nat where "MESSAGE_CHARS = 2000"
definition TASK_PREVIEW_CHARS :: nat where "TASK_PREVIEW_CHARS = 300"
definition SUMMARY_PREVIEW_CHARS :: nat where "SUMMARY_PREVIEW_CHARS = 500"

record wording =
  wd_mailbox_heading :: string
  wd_user_heading :: string
  wd_leader_name :: string
  wd_user_name :: string
  wd_wake_before :: string
  wd_wake_between :: string

section \<open>Text\<close>

text \<open>\<open>str.split()\<close>: the words between whitespace, and \<open>" ".join(text.split())\<close>.\<close>

function words_of_text :: "string \<Rightarrow> string list" where
  "words_of_text [] = []"
| "words_of_text (c # s) = (if is_space c then words_of_text s
     else (c # takeWhile (\<lambda>x. \<not> is_space x) s) # words_of_text (dropWhile (\<lambda>x. \<not> is_space x) s))"
  by pat_completeness auto
termination by (relation "measure length") (auto simp: less_Suc_eq_le length_dropWhile_le)

definition one_line :: "string \<Rightarrow> string" where
  "one_line text = join '' '' (words_of_text text)"

section \<open>The state\<close>

definition member_attempt_id :: "string \<Rightarrow> string \<Rightarrow> string" where
  "member_attempt_id attempt_id role = deterministic_id (attempt_id @ '':member:'' @ role) ''att''"

record participant =
  pt_role :: string
  pt_executor :: string
  pt_attempt_id :: string
  pt_leader :: bool
  pt_session_id :: string
  pt_state_version :: nat
  pt_mail_cursor :: nat
  pt_turns :: nat
  pt_awaiting :: "string list"
  pt_approval_request_id :: string
  pt_retry_calls :: "json option"

definition new_participant :: "string \<Rightarrow> string \<Rightarrow> string \<Rightarrow> bool \<Rightarrow> participant" where
  "new_participant role executor attempt_id leader = \<lparr>pt_role = role, pt_executor = executor, pt_attempt_id = attempt_id, pt_leader = leader,
     pt_session_id = [], pt_state_version = 0, pt_mail_cursor = 0, pt_turns = 0, pt_awaiting = [], pt_approval_request_id = [], pt_retry_calls = None\<rparr>"

text \<open>\<open>Participant.to_json\<close> and \<open>from_json\<close>.\<close>

record participant_json =
  pj_role :: string
  pj_executor :: string
  pj_attempt_id :: string
  pj_leader :: bool
  pj_session_id :: string
  pj_state_version :: nat
  pj_mail_cursor :: nat
  pj_turns :: nat

definition participant_to_json :: "participant \<Rightarrow> participant_json" where
  "participant_to_json p = \<lparr>pj_role = pt_role p, pj_executor = pt_executor p, pj_attempt_id = pt_attempt_id p, pj_leader = pt_leader p,
     pj_session_id = pt_session_id p, pj_state_version = pt_state_version p, pj_mail_cursor = pt_mail_cursor p, pj_turns = pt_turns p\<rparr>"

definition participant_from_json :: "participant_json \<Rightarrow> participant" where
  "participant_from_json raw = (new_participant (pj_role raw) (pj_executor raw) (pj_attempt_id raw) (pj_leader raw))
     \<lparr>pt_session_id := pj_session_id raw, pt_state_version := pj_state_version raw, pt_mail_cursor := pj_mail_cursor raw, pt_turns := pj_turns raw\<rparr>"

record mail =
  ml_seq :: nat
  ml_role :: string
  ml_text :: string

text \<open>A file a turn left, as its result names it, and as the stage keeps it.\<close>

record left_file =
  lf_name :: string
  lf_blob_ref :: string
  lf_media_type :: "string option"
  lf_size_bytes :: "nat option"

record team_file =
  tf_role :: string
  tf_name :: string
  tf_blob_ref :: string
  tf_media_type :: string
  tf_size_bytes :: nat

text \<open>The answer to a call of the leader.\<close>

record team_answer =
  an_call_id :: string
  an_tool_name :: string
  an_output :: string
  an_result_state :: string

record team_run =
  ru_leader :: participant
  ru_members :: "(string, participant) dict"
  ru_round :: nat
  ru_messages_used :: nat
  ru_mailbox :: "mail list"
  ru_next_seq :: nat
  ru_pending_results :: "team_answer list option"
  ru_files :: "(string, team_file) dict"
  ru_version :: nat
  ru_event_seq :: nat

text \<open>\<open>TeamRun.start\<close>.\<close>

definition add_member :: "string \<Rightarrow> (string, participant) dict \<Rightarrow> team_stage_member \<Rightarrow> (string, participant) dict" where
  "add_member attempt_id d m =
     dset (m_role m) (new_participant (m_role m) (m_executor m) (member_attempt_id attempt_id (m_role m)) False) d"

definition start_team :: "string \<Rightarrow> team_stage_spec \<Rightarrow> string \<Rightarrow> team_run" where
  "start_team attempt_id spec leader_profile =
     \<lparr>ru_leader = new_participant (ts_leader spec) leader_profile attempt_id True,
      ru_members = foldl (add_member attempt_id) [] (filter (\<lambda>m. m_role m \<noteq> ts_leader spec) (ts_members spec)),
      ru_round = 0, ru_messages_used = 0, ru_mailbox = [], ru_next_seq = 1, ru_pending_results = None, ru_files = [], ru_version = 0, ru_event_seq = 0\<rparr>"

text \<open>\<open>TeamRun.participant\<close>; a role that is not of the team raises.\<close>

definition participant_of :: "team_run \<Rightarrow> string \<Rightarrow> participant option" where
  "participant_of team role = (if role = pt_role (ru_leader team) then Some (ru_leader team) else dget (ru_members team) role)"

definition put_participant :: "string \<Rightarrow> participant \<Rightarrow> team_run \<Rightarrow> team_run" where
  "put_participant role p team = (if role = pt_role (ru_leader team) then team\<lparr>ru_leader := p\<rparr> else team\<lparr>ru_members := dset role p (ru_members team)\<rparr>)"

section \<open>What a Continue-As-New carries\<close>

record team_json =
  tj_leader :: participant_json
  tj_members :: "(string, participant_json) dict"
  tj_round :: nat
  tj_messages_used :: nat
  tj_mailbox :: "mail list"
  tj_next_seq :: nat
  tj_pending_results :: "team_answer list option"
  tj_files :: "(string, team_file) dict"
  tj_version :: nat
  tj_event_seq :: nat

definition team_to_json :: "team_run \<Rightarrow> team_json" where
  "team_to_json t = \<lparr>tj_leader = participant_to_json (ru_leader t), tj_members = dmap (\<lambda>_. participant_to_json) (ru_members t),
     tj_round = ru_round t, tj_messages_used = ru_messages_used t, tj_mailbox = last_n MAILBOX_KEPT (ru_mailbox t), tj_next_seq = ru_next_seq t,
     tj_pending_results = ru_pending_results t, tj_files = last_n MAX_TEAM_FILES (ru_files t), tj_version = ru_version t, tj_event_seq = ru_event_seq t\<rparr>"

definition team_from_json :: "team_json \<Rightarrow> team_run" where
  "team_from_json raw = \<lparr>ru_leader = participant_from_json (tj_leader raw), ru_members = dmap (\<lambda>_. participant_from_json) (tj_members raw),
     ru_round = tj_round raw, ru_messages_used = tj_messages_used raw, ru_mailbox = tj_mailbox raw, ru_next_seq = tj_next_seq raw,
     ru_pending_results = tj_pending_results raw, ru_files = tj_files raw, ru_version = tj_version raw, ru_event_seq = tj_event_seq raw\<rparr>"

section \<open>The mailbox and the files\<close>

definition post :: "string \<Rightarrow> string \<Rightarrow> team_run \<Rightarrow> mail \<times> team_run" where
  "post role text team =
     (let entry = \<lparr>ml_seq = ru_next_seq team, ml_role = role, ml_text = take NOTE_CHARS (one_line text)\<rparr> in
      (entry, team\<lparr>ru_next_seq := ru_next_seq team + 1, ru_mailbox := last_n MAILBOX_KEPT (ru_mailbox team @ [entry]),
         ru_messages_used := ru_messages_used team + 1\<rparr>))"

definition mail_line :: "(string, string) dict \<Rightarrow> mail \<Rightarrow> string" where
  "mail_line names item = ''- ['' @ (case dget names (ml_role item) of None \<Rightarrow> ml_role item | Some n \<Rightarrow> n) @ ''] '' @ ml_text item"

text \<open>The loop over the newest entries first, which stops at the first line that does not fit.\<close>

fun shown_lines :: "(string, string) dict \<Rightarrow> nat \<Rightarrow> mail list \<Rightarrow> string list" where
  "shown_lines names used [] = []"
| "shown_lines names used (item # rest) =
     (let line = mail_line names item in
      if MAILBOX_BLOCK_CHARS < used + length line then [] else line # shown_lines names (used + length line + 1) rest)"

definition new_mail :: "participant \<Rightarrow> string \<Rightarrow> team_run \<Rightarrow> mail list" where
  "new_mail p role team = filter (\<lambda>item. pt_mail_cursor p < ml_seq item \<and> ml_role item \<noteq> role) (ru_mailbox team)"

definition unread :: "wording \<Rightarrow> (string, string) dict \<Rightarrow> string \<Rightarrow> team_run \<Rightarrow> (string \<times> team_run) option" where
  "unread wd names role team =
     (case participant_of team role of None \<Rightarrow> None
      | Some p \<Rightarrow>
        (let entries = new_mail p role team; team' = put_participant role (p\<lparr>pt_mail_cursor := ru_next_seq team - 1\<rparr>) team in
         Some (if entries = [] then []
           else wd_mailbox_heading wd @ [CHR '':'', NL] @ join [NL] (rev (shown_lines names 0 (rev (last_n MAILBOX_SHOWN entries)))), team')))"

definition file_key :: "string \<Rightarrow> string \<Rightarrow> string" where
  "file_key role name = role @ ''/'' @ name"

definition remember_file :: "string \<Rightarrow> (string, team_file) dict \<Rightarrow> left_file \<Rightarrow> (string, team_file) dict" where
  "remember_file role files item =
     dset (file_key role (lf_name item)) \<lparr>tf_role = role, tf_name = lf_name item, tf_blob_ref = lf_blob_ref item,
         tf_media_type = (case lf_media_type item of None \<Rightarrow> ''application/octet-stream'' | Some m \<Rightarrow> m),
         tf_size_bytes = (case lf_size_bytes item of None \<Rightarrow> 0 | Some n \<Rightarrow> n)\<rparr>
       (dpop (file_key role (lf_name item)) files)"

definition remember_files :: "string \<Rightarrow> left_file list \<Rightarrow> team_run \<Rightarrow> team_run" where
  "remember_files role entries team = team\<lparr>ru_files := last_n MAX_TEAM_FILES (foldl (remember_file role) (ru_files team) entries)\<rparr>"

definition files_for_leader :: "team_run \<Rightarrow> team_file list" where
  "files_for_leader team = dvals (ru_files team)"

section \<open>What is said\<close>

definition member_prompt :: "string \<Rightarrow> string \<Rightarrow> string" where
  "member_prompt task mail = (if mail = [] then task else task @ [NL, NL] @ mail)"

definition answer_text :: "string \<Rightarrow> string \<Rightarrow> left_file list \<Rightarrow> string" where
  "answer_text output role files =
     (let fit = fit_handover (strip output) RESULT_CHARS;
          text = (if fit = [] then ''(the member answered nothing)'' else fit);
          names = take FILES_LISTED (map lf_name files) in
      if names = [] then text
      else text @ [NL, NL] @ ''Files '' @ role @ '' left, readable in your workspace under .team/'' @ role @ ''/: '' @ join '', '' names)"

definition with_blocks :: "string \<Rightarrow> string \<Rightarrow> string \<Rightarrow> string" where
  "with_blocks text mail user = join [NL, NL] (filter (\<lambda>part. part \<noteq> []) [text, mail, user])"

definition user_block :: "wording \<Rightarrow> string list \<Rightarrow> string" where
  "user_block wd texts = (if texts = [] then []
     else wd_user_heading wd @ [CHR '':'', NL] @ join [NL] (map (\<lambda>text. ''- '' @ take USER_CHARS (one_line text)) texts))"

text \<open>\<open>@name\<close> somewhere in the text, not as the start of a longer word.\<close>

definition word_char :: "char \<Rightarrow> bool" where
  "word_char c \<longleftrightarrow> is_alnum c \<or> c = CHR ''_'' \<or> c = CHR ''-''"

fun at_name :: "string \<Rightarrow> string \<Rightarrow> bool" where
  "at_name name [] = False"
| "at_name name (c # s) = (c = CHR ''@'' \<and> startswith s name \<and> (case drop (length name) s of [] \<Rightarrow> True | d # _ \<Rightarrow> \<not> word_char d) \<or> at_name name s)"

definition member_names :: "team_stage_member \<Rightarrow> string list" where
  "member_names m = filter (\<lambda>n. n \<noteq> []) [m_role m, m_label m]"

definition by_name :: "team_stage_spec \<Rightarrow> (string, string) dict" where
  "by_name spec = foldl (\<lambda>d (n, role). dset n role d) [] (concat (map (\<lambda>m. map (\<lambda>n. (n, m_role m)) (member_names m)) (ts_members spec)))"

definition resolve_mentions :: "team_stage_spec \<Rightarrow> string \<Rightarrow> string list \<Rightarrow> string \<Rightarrow> string list" where
  "resolve_mentions spec text explicit speaker =
     (let found = (if explicit \<noteq> [] then List.map_filter (dget (by_name spec)) explicit
        else map m_role (filter (\<lambda>m. list_ex (\<lambda>n. at_name n text) (member_names m)) (ts_members spec))) in
      filter (\<lambda>role. role \<noteq> speaker) (rev (remdups (rev found))))"

definition wake_prompt :: "wording \<Rightarrow> string \<Rightarrow> string \<Rightarrow> string" where
  "wake_prompt wd sender text = wd_wake_before wd @ sender @ wd_wake_between wd @ text"

definition display_names :: "wording \<Rightarrow> team_stage_spec \<Rightarrow> (string, string) dict" where
  "display_names wd spec = dset ''user'' (wd_user_name wd)
     (foldl (\<lambda>d m. dset (m_role m) (if m_label m \<noteq> [] then m_label m else if m_role m = ts_leader spec then wd_leader_name wd else m_role m) d) []
       (ts_members spec))"

section \<open>The mailbox\<close>

text \<open>
  A stage between its operations: the mailbox holds at most \<open>MAILBOX_KEPT\<close> notes in the order of their numbers, all below the next one,
  nobody has read further than that, and the files are within their bound.
\<close>

definition run_ok :: "team_run \<Rightarrow> bool" where
  "run_ok t \<longleftrightarrow> length (ru_mailbox t) \<le> MAILBOX_KEPT \<and> sorted_wrt (<) (map ml_seq (ru_mailbox t)) \<and> (\<forall>m\<in>set (ru_mailbox t). ml_seq m < ru_next_seq t)
     \<and> 1 \<le> ru_next_seq t \<and> length (ru_files t) \<le> MAX_TEAM_FILES \<and> dict_ok (ru_files t) \<and> dict_ok (ru_members t)
     \<and> (\<forall>p\<in>insert (ru_leader t) (set (dvals (ru_members t))). pt_mail_cursor p < ru_next_seq t)"

lemma sorted_wrt_drop_last: "sorted_wrt R xs \<Longrightarrow> sorted_wrt R (last_n n xs)"
  by (simp add: last_n_def sorted_wrt_drop)

lemma set_last_n: "set (last_n n xs) \<subseteq> set xs"
  by (simp add: last_n_def set_drop_subset)

lemma map_last_n: "map f (last_n n xs) = last_n n (map f xs)"
  by (simp add: last_n_def drop_map)

lemma last_n_all [simp]: "length xs \<le> n \<Longrightarrow> last_n n xs = xs"
  by (simp add: last_n_def)

lemma dict_ok_last_n: "dict_ok d \<Longrightarrow> dict_ok (last_n n d)"
  by (simp add: last_n_def distinct_drop flip: drop_map)

lemma add_members:
  assumes "dict_ok d" "\<forall>p\<in>set (dvals d). pt_mail_cursor p = 0"
  shows "dict_ok (foldl (add_member a) d ms) \<and> (\<forall>p\<in>set (dvals (foldl (add_member a) d ms)). pt_mail_cursor p = 0)"
  using assms
proof (induction ms arbitrary: d)
  case (Cons m ms)
  have "dict_ok (add_member a d m)" "\<forall>p\<in>set (dvals (add_member a d m)). pt_mail_cursor p = 0"
    using Cons.prems by (auto simp: add_member_def set_dset new_participant_def distinct_update)
  from Cons.IH[OF this] show ?case by simp
qed simp

lemma run_ok_start: "run_ok (start_team a spec l)"
  using add_members[of "[]" a "filter (\<lambda>m. m_role m \<noteq> ts_leader spec) (ts_members spec)"]
  by (auto simp: run_ok_def start_team_def new_participant_def)

lemma run_ok_post: "run_ok t \<Longrightarrow> run_ok (snd (post role text t))"
  using set_last_n[of MAILBOX_KEPT "ru_mailbox t @ [\<lparr>ml_seq = ru_next_seq t, ml_role = role, ml_text = take NOTE_CHARS (one_line text)\<rparr>]"]
  by (auto simp: run_ok_def post_def Let_def map_last_n sorted_wrt_append intro!: sorted_wrt_drop_last) (fastforce dest: subsetD)+

lemma put_participant_ok: "run_ok t \<Longrightarrow> pt_mail_cursor p < ru_next_seq t \<Longrightarrow> run_ok (put_participant role p t)"
  using set_dset[of "ru_members t" role p] by (auto simp: run_ok_def put_participant_def distinct_update)

lemma run_ok_unread: "run_ok t \<Longrightarrow> unread wd names role t = Some (block, t') \<Longrightarrow> run_ok t'"
  by (auto simp: unread_def Let_def run_ok_def[of t] split: option.splits intro!: put_participant_ok)

lemma run_ok_remember_files: "run_ok t \<Longrightarrow> run_ok (remember_files role entries t)"
proof -
  have "dict_ok d \<Longrightarrow> dict_ok (foldl (remember_file role) d entries)" for d
    by (induction entries arbitrary: d) (simp_all add: remember_file_def distinct_update distinct_delete)
  then show "run_ok t \<Longrightarrow> run_ok (remember_files role entries t)" by (auto simp: run_ok_def remember_files_def intro!: dict_ok_last_n)
qed

lemma shown_lines_bound: "used + sum_list (map (\<lambda>l. length l + 1) (shown_lines names used ms)) \<le> max used (MAILBOX_BLOCK_CHARS + 1)"
  by (induction names used ms rule: shown_lines.induct) (auto simp: Let_def max_def split: if_splits)

lemma length_join_lines: "ls \<noteq> [] \<Longrightarrow> length (join [c] ls) + 1 = sum_list (map (\<lambda>l. length l + 1) ls)"
  by (induction ls) auto

lemma length_shown: "length (shown_lines names used ms) \<le> length ms"
  by (induction names used ms rule: shown_lines.induct) (auto simp: Let_def)

lemma participant_put:
  "participant_of t role = Some q \<Longrightarrow> pt_role p = pt_role q \<Longrightarrow> participant_of (put_participant role p t) role = Some p"
  by (auto simp: participant_of_def put_participant_def dict_simps split: if_splits)

lemma put_twice: "participant_of t role = Some q \<Longrightarrow> pt_role p = pt_role q \<Longrightarrow> put_participant role p (put_participant role p t) = put_participant role p t"
  by (auto simp: participant_of_def put_participant_def AList.update_last dict_simps split: if_splits)

section \<open>The properties\<close>

definition demo_wording :: wording where
  "demo_wording = \<lparr>wd_mailbox_heading = ''Team'', wd_user_heading = ''User'', wd_leader_name = ''lead'', wd_user_name = ''user'',
     wd_wake_before = ''from '', wd_wake_between = '': ''\<rparr>"

definition demo_spec :: team_stage_spec where
  "demo_spec = \<lparr>ts_goal = ''g'', ts_members = [\<lparr>m_role = ''lead'', m_executor = ''e@1'', m_description = [], m_label = []\<rparr>,
       \<lparr>m_role = ''dev'', m_executor = ''e@1'', m_description = [], m_label = ''Ann''\<rparr>],
     ts_leader = ''lead'', ts_limits = default_limits, ts_workspace_access = ReadAccess, ts_inputs = []\<rparr>"

text \<open>
  A note is read once, and what is shown is bounded. The block a participant is shown has at most ten lines and, after its
  heading, 4000 characters; it has read everything posted so far from then on: asked again, it is shown nothing and nothing changes.
\<close>

theorem mail_read_once:
  assumes "run_ok t" "unread wd names role t = Some (block, t')"
  shows "run_ok t' \<and> length block \<le> length (wd_mailbox_heading wd) + 2 + MAILBOX_BLOCK_CHARS \<and> unread wd names role t' = Some ([], t')"
proof -
  obtain p where p: "participant_of t role = Some p"
      "t' = put_participant role (p\<lparr>pt_mail_cursor := ru_next_seq t - 1\<rparr>) t"
      "block = (let entries = new_mail p role t in if entries = [] then []
         else wd_mailbox_heading wd @ [CHR '':'', NL] @ join [NL] (rev (shown_lines names 0 (rev (last_n MAILBOX_SHOWN entries)))))"
    using assms(2) by (auto simp: unread_def Let_def split: option.splits)
  define ls where "ls = shown_lines names 0 (rev (last_n MAILBOX_SHOWN (new_mail p role t)))"
  have "sum_list (map (\<lambda>l. length l + 1) (rev ls)) \<le> MAILBOX_BLOCK_CHARS + 1"
    using shown_lines_bound[of 0 names "rev (last_n MAILBOX_SHOWN (new_mail p role t))"] unfolding ls_def sum_list_rev rev_map[symmetric] by simp
  then have "length (join [NL] (rev ls)) \<le> MAILBOX_BLOCK_CHARS" using length_join_lines[of "rev ls" NL] by (cases "ls = []") auto
  then have bound: "length block \<le> length (wd_mailbox_heading wd) + 2 + MAILBOX_BLOCK_CHARS" unfolding p(3) ls_def by (simp add: Let_def)
  let ?p = "p\<lparr>pt_mail_cursor := ru_next_seq t - 1\<rparr>"
  have now: "participant_of t' role = Some ?p" "ru_next_seq t' = ru_next_seq t" "ru_mailbox t' = ru_mailbox t"
    unfolding p(2) by (rule participant_put[OF p(1)]) (simp_all add: put_participant_def)
  have "new_mail ?p role t' = []" using assms(1) now(3) by (auto simp: new_mail_def run_ok_def filter_empty_conv)
  then have "unread wd names role t' = Some ([], put_participant role ?p t')" using now by (simp add: unread_def)
  also have "put_participant role ?p t' = t'" unfolding p(2) by (rule put_twice[OF p(1)]) simp
  finally show ?thesis using bound run_ok_unread[OF assms] by blast
qed

theorem mail_read_once_witness:
  "\<exists>block t'. unread demo_wording [] ''lead'' (snd (post ''dev'' ''hello'' (start_team ''a'' demo_spec ''e@1''))) = Some (block, t')
     \<and> block = ''Team:'' @ [NL] @ ''- [dev] hello'' \<and> unread demo_wording [] ''lead'' t' = Some ([], t')"
proof -
  define t where "t = snd (post ''dev'' ''hello'' (start_team ''a'' demo_spec ''e@1''))"
  define l where "l = new_participant ''lead'' ''e@1'' ''a'' True"
  have "one_line ''hello'' = ''hello''" by (simp add: one_line_def is_space_def)
  then have box: "ru_mailbox t = [\<lparr>ml_seq = 1, ml_role = ''dev'', ml_text = ''hello''\<rparr>]" "participant_of t ''lead'' = Some l" "ru_next_seq t = 2"
    by (simp_all add: t_def post_def start_team_def demo_spec_def NOTE_CHARS_def MAILBOX_KEPT_def participant_of_def new_participant_def l_def Let_def)
  then have "new_mail l ''lead'' t = [\<lparr>ml_seq = 1, ml_role = ''dev'', ml_text = ''hello''\<rparr>]" by (simp add: new_mail_def l_def new_participant_def)
  then have first: "unread demo_wording [] ''lead'' t = Some (''Team:'' @ [NL] @ ''- [dev] hello'', put_participant ''lead'' (l\<lparr>pt_mail_cursor := 1\<rparr>) t)"
    using box by (simp add: unread_def demo_wording_def MAILBOX_SHOWN_def mail_line_def MAILBOX_BLOCK_CHARS_def Let_def)
  have "run_ok t" unfolding t_def by (intro run_ok_post run_ok_start)
  from mail_read_once[OF this first] first show ?thesis unfolding t_def by blast
qed

definition unparked :: "participant \<Rightarrow> participant" where
  "unparked p = p\<lparr>pt_awaiting := [], pt_approval_request_id := [], pt_retry_calls := None\<rparr>"

lemma participant_roundtrip: "participant_from_json (participant_to_json p) = unparked p"
  by (simp add: participant_from_json_def participant_to_json_def new_participant_def unparked_def)

lemma dmap_dmap: "dmap (\<lambda>_. f) (dmap (\<lambda>_. g) d) = dmap (\<lambda>_. f \<circ> g) d"
  by (simp add: dmap_def comp_def split_def)

text \<open>
  A team stage survives a Continue-As-New. What \<open>from_json\<close> makes of \<open>to_json\<close> is the stage itself, with nobody parked: the bounds
  \<open>to_json\<close> puts on the mailbox and the files cut nothing, because posting and remembering files keep them.
\<close>

theorem team_json_roundtrip:
  assumes "run_ok t"
  shows "team_from_json (team_to_json t) = t\<lparr>ru_leader := unparked (ru_leader t), ru_members := dmap (\<lambda>_. unparked) (ru_members t)\<rparr>"
  using assms by (simp add: run_ok_def team_from_json_def team_to_json_def participant_roundtrip dmap_dmap comp_def)

theorem team_json_roundtrip_witness:
  "team_from_json (team_to_json (start_team ''a'' demo_spec ''e@1'')) = start_team ''a'' demo_spec ''e@1''"
proof -
  have "dmap (\<lambda>_. unparked) (ru_members (start_team ''a'' demo_spec ''e@1'')) = ru_members (start_team ''a'' demo_spec ''e@1'')"
    "unparked (ru_leader (start_team ''a'' demo_spec ''e@1'')) = ru_leader (start_team ''a'' demo_spec ''e@1'')"
    by (simp_all add: start_team_def demo_spec_def add_member_def new_participant_def unparked_def dmap_def)
  then show ?thesis using team_json_roundtrip[OF run_ok_start] by simp
qed

lemma name_here: "startswith s name \<and> (case drop (length name) s of [] \<Rightarrow> True | d # _ \<Rightarrow> \<not> word_char d)
    \<longleftrightarrow> (\<exists>z. s = name @ z \<and> (z = [] \<or> \<not> word_char (hd z)))"
proof
  assume *: "startswith s name \<and> (case drop (length name) s of [] \<Rightarrow> True | d # _ \<Rightarrow> \<not> word_char d)"
  then have "s = name @ drop (length name) s" using append_take_drop_id[of "length name" s] by (simp add: startswith_def)
  moreover have "drop (length name) s = [] \<or> \<not> word_char (hd (drop (length name) s))" using * by (cases "drop (length name) s") auto
  ultimately show "\<exists>z. s = name @ z \<and> (z = [] \<or> \<not> word_char (hd z))" by blast
qed (auto simp: startswith_def split: list.split)

lemma at_name_iff: "at_name name s \<longleftrightarrow> (\<exists>y z. s = y @ CHR ''@'' # name @ z \<and> (z = [] \<or> \<not> word_char (hd z)))"
proof (induction s)
  case (Cons c s)
  have "at_name name (c # s) \<longleftrightarrow> (c = CHR ''@'' \<and> (\<exists>z. s = name @ z \<and> (z = [] \<or> \<not> word_char (hd z)))) \<or> at_name name s"
    using name_here[of s name] by auto
  also have "\<dots> \<longleftrightarrow> (\<exists>y z. c # s = y @ CHR ''@'' # name @ z \<and> (z = [] \<or> \<not> word_char (hd z)))"
    unfolding Cons.IH by (rule iffI) (metis append_Cons append_Nil, auto simp: Cons_eq_append_conv)
  finally show ?case .
qed simp

lemma by_name_roles: "dget (by_name spec) n = Some role \<Longrightarrow> role \<in> m_role ` set (ts_members spec)"
proof -
  have fold: "dget (foldl (\<lambda>d (n, role). dset n role d) d ps) n = Some role \<Longrightarrow> dget d n = Some role \<or> role \<in> snd ` set ps" for d and ps :: "(string \<times> string) list"
    by (induction ps arbitrary: d) (force simp: dict_simps split: if_splits)+
  show "dget (by_name spec) n = Some role \<Longrightarrow> role \<in> m_role ` set (ts_members spec)"
    unfolding by_name_def by (drule fold) auto
qed

text \<open>
  Who a note is for. The roles \<open>resolve_mentions\<close> returns are different roles of the team and never the speaker. Without an
  explicit list they are exactly the roles a name of which stands in the text after an \<open>@\<close>, not as the start of a longer word.
\<close>

theorem mentions_exact:
  "distinct (resolve_mentions spec t explicit speaker)
   \<and> set (resolve_mentions spec t explicit speaker) \<subseteq> m_role ` set (ts_members spec) - {speaker}
   \<and> set (resolve_mentions spec t [] speaker) = {m_role m | m. m \<in> set (ts_members spec) \<and> m_role m \<noteq> speaker
       \<and> (\<exists>n y z. n \<noteq> [] \<and> (n = m_role m \<or> n = m_label m) \<and> t = y @ CHR ''@'' # n @ z \<and> (z = [] \<or> \<not> word_char (hd z)))}"
proof (intro conjI)
  show "distinct (resolve_mentions spec t explicit speaker)" by (simp add: resolve_mentions_def Let_def)
  have "set (List.map_filter (dget (by_name spec)) explicit) \<subseteq> m_role ` set (ts_members spec)"
  proof
    fix role assume "role \<in> set (List.map_filter (dget (by_name spec)) explicit)"
    then obtain n where "dget (by_name spec) n = Some role" by (auto simp: List.map_filter_def)
    then show "role \<in> m_role ` set (ts_members spec)" by (rule by_name_roles)
  qed
  then show "set (resolve_mentions spec t explicit speaker) \<subseteq> m_role ` set (ts_members spec) - {speaker}"
    by (auto simp: resolve_mentions_def Let_def)
  have "list_ex (\<lambda>n. at_name n t) (member_names m) \<longleftrightarrow>
      (\<exists>n y z. n \<noteq> [] \<and> (n = m_role m \<or> n = m_label m) \<and> t = y @ CHR ''@'' # n @ z \<and> (z = [] \<or> \<not> word_char (hd z)))" for m
    unfolding list_ex_iff member_names_def at_name_iff by auto
  then show "set (resolve_mentions spec t [] speaker) = {m_role m | m. m \<in> set (ts_members spec) \<and> m_role m \<noteq> speaker
       \<and> (\<exists>n y z. n \<noteq> [] \<and> (n = m_role m \<or> n = m_label m) \<and> t = y @ CHR ''@'' # n @ z \<and> (z = [] \<or> \<not> word_char (hd z)))}"
    by (auto simp: resolve_mentions_def Let_def)
qed

theorem mentions_exact_witness:
  "resolve_mentions demo_spec ''hi @Ann!'' [] ''lead'' = [''dev''] \<and> ''lead'' \<notin> set (resolve_mentions demo_spec ''@lead @Ann'' [] ''lead'')"
proof -
  have "resolve_mentions demo_spec ''hi @Ann!'' [] ''lead'' = [''dev'']" by code_simp
  moreover have "set (resolve_mentions demo_spec ''@lead @Ann'' [] ''lead'') \<subseteq> m_role ` set (ts_members demo_spec) - {''lead''}"
    using mentions_exact[of demo_spec "''@lead @Ann''" "[]" "''lead''"] by blast
  ultimately show ?thesis by blast
qed

end
