(* ===== verification/Ask_User.thy ===== *)
theory Ask_User
  imports Messages "HOL-Library.Sublist"
begin

text \<open>
  The part of \<^verbatim>\<open>v3/messages.py\<close> that reads the arguments of an \<^verbatim>\<open>ask_user\<close> call, leniently, into structured questions and a text. What
  Python's \<open>json.loads\<close> makes of a string (\<open>loads\<close>) and how it prints a value that is not a string (\<open>str_of\<close>) are arguments, as are the
  full-width brackets around the choices, which are outside \<open>char\<close>.
\<close>

definition MAX_ASK_QUESTIONS :: nat where "MAX_ASK_QUESTIONS = 4"

definition valid_option :: "ask_user_option \<Rightarrow> bool" where
  "valid_option o' \<longleftrightarrow> ao_label o' \<noteq> [] \<and> length (ao_label o') \<le> 60 \<and> (case ao_description o' of None \<Rightarrow> True | Some d \<Rightarrow> length d \<le> 200)"

definition valid_question :: "ask_user_question \<Rightarrow> bool" where
  "valid_question q \<longleftrightarrow> aq_header q \<noteq> [] \<and> length (aq_header q) \<le> 24 \<and> aq_question q \<noteq> [] \<and> length (aq_options q) \<le> 4
     \<and> list_all valid_option (aq_options q)"

section \<open>Reading a call\<close>

text \<open>\<open>dict.get(key)\<close> of a JSON object, and a value as \<open>bool\<close>.\<close>

definition jget :: "(string \<times> json) list \<Rightarrow> string \<Rightarrow> json" where
  "jget d k = (case dget d k of None \<Rightarrow> JNull | Some v \<Rightarrow> v)"

fun json_true :: "json \<Rightarrow> bool" where
  "json_true JNull = False"
| "json_true (JBool b) = b"
| "json_true (JInt n) = (n \<noteq> 0)"
| "json_true (JFloat s) = (s \<notin> {''0.0'', ''-0.0''})"
| "json_true (JStr s) = (s \<noteq> [])"
| "json_true (JArr xs) = (xs \<noteq> [])"
| "json_true (JObj d) = (d \<noteq> [])"

definition clip :: "json \<Rightarrow> nat \<Rightarrow> string" where
  "clip value limit = (case value of JStr s \<Rightarrow> strip (take limit (strip s)) | _ \<Rightarrow> [])"

definition as_list :: "(string \<Rightarrow> json option) \<Rightarrow> json \<Rightarrow> json list" where
  "as_list loads raw = (case (case raw of JStr s \<Rightarrow> loads s | _ \<Rightarrow> Some raw) of Some (JArr xs) \<Rightarrow> xs | _ \<Rightarrow> [])"

definition parse_option :: "json \<Rightarrow> ask_user_option option" where
  "parse_option option = (case option of
     JObj d \<Rightarrow> (let label = clip (jget d ''label'') 60; description = clip (jget d ''description'') 200 in
       if label = [] then None else Some \<lparr>ao_label = label, ao_description = if description = [] then None else Some description\<rparr>)
   | _ \<Rightarrow> None)"

definition stripped :: "json \<Rightarrow> string" where
  "stripped v = (case v of JStr s \<Rightarrow> strip s | _ \<Rightarrow> [])"

definition parse_question :: "json \<Rightarrow> ask_user_question option" where
  "parse_question item = (case item of
     JObj d \<Rightarrow> (let question = stripped (jget d ''question''); header = clip (jget d ''header'') 24 in
       if question = [] then None
       else Some \<lparr>aq_header = if header = [] then clip (JStr question) 24 else header, aq_question = question,
         aq_options = take 4 (List.map_filter parse_option (case jget d ''options'' of JArr listed \<Rightarrow> listed | _ \<Rightarrow> [])),
         aq_multi_select = json_true (jget d ''multi_select'')\<rparr>)
   | _ \<Rightarrow> None)"

definition parse_ask_questions :: "(string \<Rightarrow> json option) \<Rightarrow> json \<Rightarrow> ask_user_question list" where
  "parse_ask_questions loads raw = List.map_filter parse_question (take MAX_ASK_QUESTIONS (as_list loads raw))"

section \<open>The text\<close>

definition question_line :: "string \<times> string \<Rightarrow> nat \<Rightarrow> ask_user_question \<Rightarrow> string" where
  "question_line brackets index item = (let choices = join '' / '' (map ao_label (aq_options item)) in
     nat_str index @ ''. '' @ aq_question item @ (if choices = [] then [] else fst brackets @ choices @ snd brackets))"

fun numbered_lines :: "string \<times> string \<Rightarrow> nat \<Rightarrow> ask_user_question list \<Rightarrow> string list" where
  "numbered_lines brackets index [] = []"
| "numbered_lines brackets index (item # rest) = question_line brackets index item # numbered_lines brackets (index + 1) rest"

definition ask_question_text :: "string \<times> string \<Rightarrow> string \<Rightarrow> ask_user_question list \<Rightarrow> string" where
  "ask_question_text brackets lead questions =
     join [CHR 0x0A] ((if strip lead = [] then [] else [strip lead]) @ numbered_lines brackets 1 questions)"

definition lead_of :: "(json \<Rightarrow> string) \<Rightarrow> (string \<times> json) list \<Rightarrow> string" where
  "lead_of str_of a = (let v = jget a ''question'' in strip (if json_true v then (case v of JStr s \<Rightarrow> s | _ \<Rightarrow> str_of v) else []))"

definition strip_slashes :: "string \<Rightarrow> string" where
  "strip_slashes s = (let cut = dropWhile (\<lambda>c. c = CHR '' '' \<or> c = CHR ''/'') in rev (cut (rev (cut s))))"

definition raw_question :: "json \<Rightarrow> string" where
  "raw_question item = stripped (case item of JObj d \<Rightarrow> jget d ''question'' | _ \<Rightarrow> item)"

definition ask_user_park :: "(string \<Rightarrow> json option) \<Rightarrow> (json \<Rightarrow> string) \<Rightarrow> string \<times> string \<Rightarrow> (string \<times> json) list list \<Rightarrow> string \<times> ask_user_question list" where
  "ask_user_park loads str_of brackets arguments =
     (let lead = strip_slashes (join '' / '' (map (lead_of str_of) arguments));
          asked = take MAX_ASK_QUESTIONS (concat (map (\<lambda>a. parse_ask_questions loads (jget a ''questions'')) arguments)) in
      if asked \<noteq> [] then (ask_question_text brackets lead asked, asked)
      else (join [CHR 0x0A] ((if lead = [] then [] else [lead])
        @ filter (\<lambda>t. t \<noteq> []) (concat (map (\<lambda>a. map raw_question (as_list loads (jget a ''questions''))) arguments))), []))"

section \<open>What it keeps\<close>

lemma length_strip: "length (strip s) \<le> length s"
  unfolding strip_def rstrip_def by (metis length_dropWhile_le length_rev order_trans)

lemma length_clip: "length (clip v n) \<le> n"
  by (auto simp: clip_def split: json.split) (metis length_strip length_take min.bounded_iff min.cobounded2 order_trans)

lemma strip_ne: "strip s = [] \<longleftrightarrow> list_all is_space s"
proof -
  have "\<not> list_all is_space (dropWhile is_space s)" if "dropWhile is_space s \<noteq> []"
    using hd_dropWhile[OF that] hd_in_set[OF that] by (auto simp: list_all_iff)
  then show ?thesis by (auto simp: strip_def rstrip_def dropWhile_eq_Nil_conv list_all_iff dest: set_dropWhileD)
qed

lemma strip_solid: "strip s \<noteq> [] \<Longrightarrow> \<not> is_space (hd (strip s))"
proof -
  assume ne: "strip s \<noteq> []"
  then have d: "dropWhile is_space s \<noteq> []" unfolding strip_def rstrip_def by force
  define r where "r = rev (dropWhile is_space s)"
  have r: "dropWhile is_space r \<noteq> []" using ne by (simp add: strip_def rstrip_def r_def)
  have "hd (strip s) = last (dropWhile is_space r)" using r by (simp add: strip_def rstrip_def r_def hd_rev)
  also have "\<dots> = last r" using r by (metis last_appendR takeWhile_dropWhile_id)
  also have "\<dots> = hd (dropWhile is_space s)" using d by (simp add: r_def last_rev)
  finally show "\<not> is_space (hd (strip s))" using hd_dropWhile[OF d] by simp
qed

lemma strip_solid_all: "q \<noteq> [] \<Longrightarrow> \<not> is_space (hd q) \<Longrightarrow> strip q \<noteq> []"
  by (cases q) (simp_all add: strip_ne)

lemma clip_ne: "strip s \<noteq> [] \<Longrightarrow> 0 < n \<Longrightarrow> clip (JStr (strip s)) n \<noteq> []"
proof -
  assume *: "strip s \<noteq> []" "0 < n"
  have q: "strip (strip s) \<noteq> []" by (rule strip_solid_all[OF *(1) strip_solid[OF *(1)]])
  then have "strip (take n (strip (strip s))) \<noteq> []" using strip_solid[OF q] *(2) by (intro strip_solid_all) auto
  then show "clip (JStr (strip s)) n \<noteq> []" by (simp add: clip_def)
qed

lemma parse_option_valid: "parse_option v = Some o' \<Longrightarrow> valid_option o'"
  using length_clip by (auto simp: parse_option_def valid_option_def Let_def split: json.splits if_splits)

lemma map_filter_all: "(\<And>x y. f x = Some y \<Longrightarrow> p y) \<Longrightarrow> list_all p (List.map_filter f xs)"
  by (auto simp: List.map_filter_def list_all_iff)

lemma length_map_filter: "length (List.map_filter f xs) \<le> length xs"
  by (simp add: List.map_filter_def)

lemma list_all_take: "list_all p xs \<Longrightarrow> list_all p (take n xs)"
  by (metis append_take_drop_id list_all_append)

lemma parse_question_valid:
  assumes "parse_question v = Some q"
  shows "valid_question q"
proof -
  obtain d s where v: "v = JObj d" and s: "jget d ''question'' = JStr s" "strip s \<noteq> []"
      "q = \<lparr>aq_header = if clip (jget d ''header'') 24 = [] then clip (JStr (strip s)) 24 else clip (jget d ''header'') 24, aq_question = strip s,
         aq_options = take 4 (List.map_filter parse_option (case jget d ''options'' of JArr listed \<Rightarrow> listed | _ \<Rightarrow> [])),
         aq_multi_select = json_true (jget d ''multi_select'')\<rparr>"
    using assms by (auto simp: parse_question_def stripped_def Let_def split: json.splits if_splits)
  then show ?thesis using clip_ne[OF s(2), of 24] length_clip[of _ 24]
    by (simp add: valid_question_def list_all_take map_filter_all parse_option_valid)
qed

lemma join_mem: "x \<in> set ls \<Longrightarrow> sublist x (join sep ls)"
proof (induction ls)
  case (Cons a ls)
  show ?case
  proof (cases "x = a")
    case False
    then have "sublist x (join sep ls)" "ls \<noteq> []" using Cons by auto
    then show ?thesis using sublist_order.order_trans[OF _ sublist_append_leftI[of "join sep ls" "a @ sep"]] by simp
  qed (cases ls, auto)
qed simp

lemma numbered_lines_mem: "q \<in> set qs \<Longrightarrow> \<exists>l\<in>set (numbered_lines b i qs). sublist (aq_question q) l"
proof (induction qs arbitrary: i)
  case (Cons a qs)
  have "sublist (aq_question a) (question_line b i a)" unfolding question_line_def Let_def by (metis append.assoc sublist_appendI)
  then show ?case using Cons by auto
qed simp

section \<open>The properties\<close>

text \<open>
  C36. The question that parks an attempt is well formed and complete. Whatever a call was made with, the structured questions satisfy
  the contract (so building them never fails) and are at most four, and the text holds each of them; when none survives the text holds
  every question string of the raw items.
\<close>

theorem ask_park_complete:
  assumes "ask_user_park loads str_of brackets arguments = (shown, asked)"
  shows "list_all valid_question asked \<and> length asked \<le> MAX_ASK_QUESTIONS \<and> list_all (\<lambda>q. sublist (aq_question q) shown) asked
    \<and> (asked = [] \<longrightarrow> (\<forall>a\<in>set arguments. \<forall>item\<in>set (as_list loads (jget a ''questions'')). sublist (raw_question item) shown))"
proof -
  define qs where "qs = take MAX_ASK_QUESTIONS (concat (map (\<lambda>a. parse_ask_questions loads (jget a ''questions'')) arguments))"
  define lead where "lead = strip_slashes (join '' / '' (map (lead_of str_of) arguments))"
  have valid: "list_all valid_question (parse_ask_questions loads raw)" for raw
    unfolding parse_ask_questions_def by (rule map_filter_all[OF parse_question_valid])
  have "list_all valid_question qs" unfolding qs_def using valid by (intro list_all_take) (auto simp: list_all_iff)
  moreover have asked: "asked = qs" using assms by (auto simp: ask_user_park_def qs_def Let_def split: if_splits)
  moreover have "list_all (\<lambda>q. sublist (aq_question q) shown) qs"
  proof (cases "qs = []")
    case False
    then have shown: "shown = ask_question_text brackets lead qs" using assms by (auto simp add: ask_user_park_def Let_def simp flip: qs_def lead_def)
    show ?thesis unfolding list_all_iff
    proof
      fix q assume "q \<in> set qs"
      then obtain l where "l \<in> set (numbered_lines brackets 1 qs)" and q: "sublist (aq_question q) l" using numbered_lines_mem by blast
      then have "sublist l shown" unfolding shown ask_question_text_def by (intro join_mem) simp
      then show "sublist (aq_question q) shown" using q by (rule sublist_order.order_trans[rotated])
    qed
  qed simp
  moreover have "\<forall>a\<in>set arguments. \<forall>item\<in>set (as_list loads (jget a ''questions'')). sublist (raw_question item) shown" if "qs = []"
  proof (intro ballI)
    fix a item assume a: "a \<in> set arguments" "item \<in> set (as_list loads (jget a ''questions''))"
    define raws where "raws = concat (map (\<lambda>a. map raw_question (as_list loads (jget a ''questions''))) arguments)"
    have "raw_question item \<in> set raws" using a by (auto simp: raws_def)
    moreover have shown: "shown = join [CHR 0x0A] ((if lead = [] then [] else [lead]) @ filter (\<lambda>t. t \<noteq> []) raws)"
      using assms that unfolding ask_user_park_def Let_def qs_def lead_def raws_def by (simp only: prod.inject if_False not_True_eq_False simp_thms)
    ultimately show "sublist (raw_question item) shown"
      by (cases "raw_question item = []") (simp, simp only: shown, rule join_mem, simp)
  qed
  ultimately show ?thesis by (auto simp: qs_def)
qed

theorem ask_park_complete_witness:
  "ask_user_park (\<lambda>_. None) (\<lambda>_. []) (''('', '')'') [[(''questions'', JArr [JObj [(''question'', JStr ''why?'')]])]]
     = (''1. why?'', [\<lparr>aq_header = ''why?'', aq_question = ''why?'', aq_options = [], aq_multi_select = False\<rparr>])
   \<and> valid_question \<lparr>aq_header = ''why?'', aq_question = ''why?'', aq_options = [], aq_multi_select = False\<rparr>"
proof -
  let ?q = "\<lparr>aq_header = ''why?'', aq_question = ''why?'', aq_options = [], aq_multi_select = False\<rparr>"
  have park: "ask_user_park (\<lambda>_. None) (\<lambda>_. []) (''('', '')'') [[(''questions'', JArr [JObj [(''question'', JStr ''why?'')]])]] = (''1. why?'', [?q])"
    by code_simp
  show ?thesis using ask_park_complete[OF park] park by simp
qed

end
