(* ===== verification/Attempt_Team.thy ===== *)
theory Attempt_Team
  imports Attempt_Workflow Team_Stage Ask_User
begin

text \<open>
  \<^verbatim>\<open>orbit_orch/attempt_team.py\<close>: the attempt of a team stage, a loop of rounds. A round is a turn of the leader and, when it assigned work,
  turns of the members it named, side by side across members and one after another for the same member. The coroutine of the stage, a
  task per member and what reaches them interleave at the awaits; \<open>stage_step\<close> is one part of one of them.
\<close>

definition ASSIGN :: string where "ASSIGN = ''team_assign''"
definition ASK :: string where "ASK = ''ask_user''"
definition ATTEMPT_TEAM_FACTS :: string where "ATTEMPT_TEAM_FACTS = ''attempt-team-facts''"
definition ATTEMPT_TEAM_MENTIONS :: string where "ATTEMPT_TEAM_MENTIONS = ''attempt-team-mentions''"

text \<open>What the model takes from outside: the words in Chinese and what Python's \<open>json.loads\<close> and \<open>str\<close> do.\<close>

record lang = wording +
  ln_loads :: "string \<Rightarrow> json option"
  ln_str :: "json \<Rightarrow> string"
  ln_brackets :: "string \<times> string"

definition usage_since :: "usage \<Rightarrow> usage \<Rightarrow> usage" where
  "usage_since now before = \<lparr>u_tokens_in = u_tokens_in now - u_tokens_in before, u_tokens_out = u_tokens_out now - u_tokens_out before,
     u_tool_calls = u_tool_calls now - u_tool_calls before, u_wall_s = u_wall_s now - u_wall_s before,
     u_cost_usd_micros = (case u_cost_usd_micros now of None \<Rightarrow> None | Some c \<Rightarrow> Some (c - or_zero (u_cost_usd_micros before)))\<rparr>"

text \<open>\<open>_Stop\<close>.\<close>

record stop =
  st_failure_class :: string
  st_message :: string

text \<open>A call a turn ended with, and what a turn of an agent of the stage returns.\<close>

record ext_call =
  xc_call_id :: string
  xc_tool_name :: string
  xc_arguments :: "(string \<times> json) list"

record team_result = turn_result +
  sr_text :: string
  sr_notes :: "string list"
  sr_note_mentions :: "string list list"
  sr_externals :: "ext_call list"
  sr_files :: "left_file list"

definition answer_of_call :: "string \<Rightarrow> string \<Rightarrow> string \<Rightarrow> string \<Rightarrow> team_answer" where
  "answer_of_call call_id tool_name output state = \<lparr>an_call_id = call_id, an_tool_name = tool_name, an_output = output, an_result_state = state\<rparr>"

text \<open>\<open>str(call["arguments"].get(key, ""))\<close>.\<close>

definition arg_str :: "lang \<Rightarrow> ext_call \<Rightarrow> string \<Rightarrow> string" where
  "arg_str ln call k = (case dget (xc_arguments call) k of None \<Rightarrow> [] | Some (JStr s) \<Rightarrow> s | Some v \<Rightarrow> ln_str ln v)"

text \<open>The work of a member: an assignment of the leader (its call and task) or a wake (from whom, with what, how far down the chain).\<close>

datatype job = Assigned string string | Wake string string nat

record team_event =
  te_event_id :: string
  te_type :: string
  te_version :: nat
  te_payload :: "(string \<times> json) list"

text \<open>What varies in the payload of an \<open>agent_turn\<close> of the stage; the rest is the attempt's input.\<close>

record stage_call =
  sc_role :: string
  sc_attempt_id :: string
  sc_executor :: string
  sc_continue_from :: "string option"
  sc_retry_reason :: string
  sc_goal :: string
  sc_workspace_access :: workspace_access
  sc_team_workspace :: workspace_access
  sc_messages :: "inbox_message list"
  sc_retry_calls :: "json option"
  sc_approval :: "approval_payload option"
  sc_session_id :: string
  sc_state_version :: nat
  sc_output_schema_ref :: "string option"
  sc_files :: "team_file list"
  sc_results :: "team_answer list option"
  sc_budget :: "budget option"

text \<open>A turn of an agent (\<open>_team_turn\<close>) by its awaits: the activity, the commit, the park on approvals and the park on a question.\<close>

datatype turn_place = TuRun | TuCommit team_result | TuParking team_result | TuParked team_result | TuAsking "ext_call list" | TuAsked "ext_call list"

record agent_turn =
  tu_goal :: string
  tu_messages :: "inbox_message list"
  tu_parts :: nat
  tu_spent :: usage
  tu_at :: turn_place

text \<open>
  A member's task: at the head of its loop over the queue, publishing that its turn starts, in the turn, publishing that it ended (and
  whether it goes on), or done.
\<close>

datatype member_place = MReady | MStarting job nat string | MTurn job agent_turn | MClosing "stop option" | MDone

text \<open>The coroutine of the stage. The turns that run are those of \<open>GWakes\<close> (before the leader) and \<open>GWork\<close> (after it).\<close>

datatype stage_place =
    GHead
  | GContinue
  | GWakes
  | GLeader "inbox_message list" agent_turn
  | GWork "ext_call list" "ext_call list" nat
  | GAsk "ext_call list" "ext_call list" nat bool
  | GRoundEnd "(attempt_outcome \<times> team_result) option"
  | GStopping stop
  | GReporting attempt_finished_signal
  | GContinued att_carry team_json
  | GOver

record stage =
  g_self :: att
  g_team :: team_run
  g_at :: stage_place
  g_queues :: "(string, job list) dict"
  g_tasks :: "(string, member_place) dict"
  g_answers :: "(string, team_answer) dict"
  g_stops :: "stop list"
  g_round_usage :: usage
  g_before :: usage
  g_mention_seen :: "nat set"
  g_events :: "team_event list"
  g_published :: "team_event list"
  g_calls :: "stage_call list"
  g_parked :: "attempt_parked_signal list"
  g_draws :: nat

section \<open>Events and words\<close>

definition team_label :: "env \<Rightarrow> team_stage_spec \<Rightarrow> string \<Rightarrow> (string \<times> json) list" where
  "team_label env spec role = (case filter (\<lambda>m. m_role m = role \<and> m_label m \<noteq> []) (ts_members spec) of
     [] \<Rightarrow> [] | m # _ \<Rightarrow> if e_patched env ATTEMPT_TEAM_FACTS then [(''label'', JStr (m_label m))] else [])"

definition name_of :: "lang \<Rightarrow> team_stage_spec \<Rightarrow> string \<Rightarrow> string" where
  "name_of ln spec role = (case dget (display_names (wording.truncate ln) spec) role of None \<Rightarrow> role | Some n \<Rightarrow> n)"

definition team_emit :: "env \<Rightarrow> string \<Rightarrow> (string \<times> json) list \<Rightarrow> stage \<Rightarrow> stage" where
  "team_emit env event_type payload g =
     g\<lparr>g_team := (g_team g)\<lparr>ru_version := ru_version (g_team g) + 1\<rparr>, g_draws := g_draws g + 1,
       g_events := g_events g @ [\<lparr>te_event_id = deterministic_id (e_uuid env (g_draws g)) ''evt'', te_type = event_type,
         te_version = ru_version (g_team g) + 1, te_payload = payload\<rparr>]\<rparr>"

text \<open>\<open>_flush_team_events\<close>: one batch at a time, so batches are published in the order the flushes were called; a batch that is not published is lost.\<close>

definition flush_team :: "bool \<Rightarrow> stage \<Rightarrow> stage" where
  "flush_team published g = g\<lparr>g_events := [], g_published := g_published g @ (if published then g_events g else [])\<rparr>"

definition stage_message ::
  "env \<Rightarrow> att_input \<Rightarrow> team_stage_spec \<Rightarrow> string \<Rightarrow> string \<Rightarrow> string list \<Rightarrow> string \<Rightarrow> nat \<Rightarrow> left_file list \<Rightarrow> stage \<Rightarrow> stage" where
  "stage_message env inp spec kind from_role to_roles said hop artifacts g =
     (let team = g_team g; seq = ru_event_seq team + 1; label = team_label env spec from_role in
      team_emit env ''team.message''
        ([(''node_id'', JStr (ai_node_id inp)), (''attempt_id'', JStr (ai_attempt_id inp)), (''seq'', JInt (int seq)), (''role'', JStr from_role),
          (''from_role'', JStr from_role), (''to_roles'', JArr (map JStr to_roles)), (''text'', JStr (take MESSAGE_CHARS said)), (''kind'', JStr kind),
          (''round'', JInt (int (ru_round team))), (''hop'', JInt (int hop))] @ label
         @ map (\<lambda>(_, v). (''from_label'', v)) label
         @ (if artifacts = [] then [] else [(''artifacts'', JArr (map (\<lambda>f. JObj [(''name'', JStr (lf_name f)), (''blob_ref'', JStr (lf_blob_ref f))]) (take 20 artifacts)))]))
        (g\<lparr>g_team := team\<lparr>ru_event_seq := seq\<rparr>\<rparr>))"

text \<open>\<open>_team_notes\<close>: what a turn posted, and whom each note addresses.\<close>

fun post_notes ::
  "env \<Rightarrow> att_input \<Rightarrow> team_stage_spec \<Rightarrow> string \<Rightarrow> nat \<Rightarrow> string list \<Rightarrow> string list list \<Rightarrow> stage \<Rightarrow> (string \<times> string list) list \<times> stage" where
  "post_notes env inp spec role hop [] listed g = ([], g)"
| "post_notes env inp spec role hop (note # notes) listed g =
     (let (entry, team) = post role note (g_team g);
          mentioned = resolve_mentions spec (ml_text entry) (case listed of [] \<Rightarrow> [] | explicit # _ \<Rightarrow> explicit) role;
          g1 = stage_message env inp spec ''note'' role mentioned (ml_text entry) hop [] (g\<lparr>g_team := team\<rparr>);
          (rest, g2) = post_notes env inp spec role hop notes (drop 1 listed) g1 in
      ((ml_text entry, mentioned) # rest, g2))"

definition team_notes :: "env \<Rightarrow> att_input \<Rightarrow> team_stage_spec \<Rightarrow> string \<Rightarrow> team_result \<Rightarrow> nat \<Rightarrow> stage \<Rightarrow> (string \<times> string list) list \<times> stage" where
  "team_notes env inp spec role result hop g = post_notes env inp spec role hop (take NOTES_PER_TURN (sr_notes result)) (sr_note_mentions result) g"

section \<open>The queues of the members\<close>

definition is_done :: "member_place \<Rightarrow> bool" where
  "is_done p \<longleftrightarrow> p = MDone"

definition enqueue :: "string \<Rightarrow> job \<Rightarrow> stage \<Rightarrow> stage" where
  "enqueue role job g =
     (let queue = (case dget (g_queues g) role of None \<Rightarrow> [] | Some q \<Rightarrow> q); g1 = g\<lparr>g_queues := dset role (queue @ [job]) (g_queues g)\<rparr> in
      case dget (g_tasks g) role of
        Some p \<Rightarrow> if is_done p then g1\<lparr>g_tasks := dset role MReady (g_tasks g1)\<rparr> else g1
      | None \<Rightarrow> g1\<lparr>g_tasks := dset role MReady (g_tasks g1)\<rparr>)"

definition has_new_mention :: "team_stage_spec \<Rightarrow> stage \<Rightarrow> bool" where
  "has_new_mention spec g \<longleftrightarrow> list_ex (\<lambda>m. im_message_seq m \<notin> g_mention_seen g
     \<and> list_ex (has_key (ru_members (g_team g))) (resolve_mentions spec (im_text m) (im_mentions m) [])) (t_messages (g_self g))"

text \<open>One message of \<open>_take_user_wakes\<close>, and the loop, whose jobs \<open>pull_user_wakes\<close> puts into the queues.\<close>

definition take_user_wake :: "env \<Rightarrow> att_input \<Rightarrow> team_stage_spec \<Rightarrow> inbox_message \<Rightarrow> stage \<Rightarrow> string list \<times> stage" where
  "take_user_wake env inp spec message g =
     (let roles = resolve_mentions spec (im_text message) (im_mentions message) [];
          members = filter (has_key (ru_members (g_team g))) roles in
      if im_message_seq message \<in> g_mention_seen g \<or> members = [] then ([], g)
      else let g1 = g\<lparr>g_mention_seen := insert (im_message_seq message) (g_mention_seen g)\<rparr> in
        if l_max_messages (ts_limits spec) < ru_messages_used (g_team g) + 2 * length members
        then ([], stage_message env inp spec ''system'' ''system'' [] (''nobody was woken by the user's message: the stage is at its limit of ''
               @ nat_str (l_max_messages (ts_limits spec)) @ '' messages'') 0 [] g1)
        else let self = g_self g1;
            self1 = (if pt_role (ru_leader (g_team g)) \<in> set roles then self else self\<lparr>t_messages := remove1 message (t_messages self)\<rparr>);
            g2 = g1\<lparr>g_self := self1\<lparr>t_heard := insert (im_message_seq message) (t_heard self1)\<rparr>, g_team := snd (post ''user'' (im_text message) (g_team g1))\<rparr> in
          (members, stage_message env inp spec ''user'' ''user'' roles (im_text message) 0 [] g2))"

fun take_user_wakes :: "env \<Rightarrow> att_input \<Rightarrow> team_stage_spec \<Rightarrow> inbox_message list \<Rightarrow> stage \<Rightarrow> (string \<times> job) list \<times> stage" where
  "take_user_wakes env inp spec [] g = ([], g)"
| "take_user_wakes env inp spec (message # rest) g =
     (let (members, g1) = take_user_wake env inp spec message g; (jobs, g2) = take_user_wakes env inp spec rest g1 in
      (map (\<lambda>role. (role, Wake ''user'' (im_text message) 0)) members @ jobs, g2))"

definition pull_user_wakes :: "env \<Rightarrow> att_input \<Rightarrow> team_stage_spec \<Rightarrow> stage \<Rightarrow> stage" where
  "pull_user_wakes env inp spec g =
     (if e_patched env ATTEMPT_TEAM_MENTIONS
      then let (jobs, g1) = take_user_wakes env inp spec (t_messages (g_self g)) g in foldl (\<lambda>g (role, job). enqueue role job g) g1 jobs
      else g)"

text \<open>\<open>_wake_from_note\<close>.\<close>

definition wake_target :: "env \<Rightarrow> att_input \<Rightarrow> team_stage_spec \<Rightarrow> string \<Rightarrow> string \<Rightarrow> nat \<Rightarrow> stage \<Rightarrow> string \<Rightarrow> stage" where
  "wake_target env inp spec role said hop g target =
     (let limits = ts_limits spec; refuse = (\<lambda>why. stage_message env inp spec ''system'' ''system'' [role] why hop [] g) in
      if target = role \<or> \<not> has_key (ru_members (g_team g)) target then g
      else if l_max_hops limits < hop + 1
      then refuse (target @ '' was not woken: the chain of mentions would be '' @ nat_str (hop + 1) @ '' members long and the limit is '' @ nat_str (l_max_hops limits))
      else if l_max_messages limits < ru_messages_used (g_team g) + 2
      then refuse (target @ '' was not woken: the stage is at its limit of '' @ nat_str (l_max_messages limits) @ '' messages'')
      else enqueue target (Wake role said (hop + 1)) g)"

definition wake_from_note :: "env \<Rightarrow> att_input \<Rightarrow> team_stage_spec \<Rightarrow> string \<Rightarrow> nat \<Rightarrow> stage \<Rightarrow> string \<times> string list \<Rightarrow> stage" where
  "wake_from_note env inp spec role hop g note =
     (if e_patched env ATTEMPT_TEAM_MENTIONS then foldl (wake_target env inp spec role (fst note) hop) g (snd note) else g)"

section \<open>Budgets and payloads\<close>

text \<open>\<open>_team_budget\<close>: members share what was left when the assignments began; time is not split.\<close>

definition team_budget :: "env \<Rightarrow> att_input \<Rightarrow> nat \<Rightarrow> bool \<Rightarrow> stage \<Rightarrow> budget option" where
  "team_budget env inp parts leader g =
     (case ai_budget inp of None \<Rightarrow> None
      | Some b \<Rightarrow> if \<not> e_patched env ATTEMPT_BUDGET then None
        else let left = after b (if leader then t_usage (g_self g) else g_round_usage g) in
          Some (budget_of (\<lambda>f. case bget left f of None \<Rightarrow> None | Some v \<Rightarrow> Some (if f = WallS then v else v div max 1 parts))))"

definition field_name :: "budget_field \<Rightarrow> string" where
  "field_name f = (case f of Tokens \<Rightarrow> ''tokens'' | ToolCalls \<Rightarrow> ''tool_calls'' | WallS \<Rightarrow> ''wall_s'' | CostUsdMicros \<Rightarrow> ''cost_usd_micros'')"

text \<open>\<open>_team_budget_check\<close>: the fields that are spent, in the order of their names.\<close>

definition budget_gone :: "env \<Rightarrow> att_input \<Rightarrow> stage \<Rightarrow> string list" where
  "budget_gone env inp g = (case ai_budget inp of None \<Rightarrow> []
     | Some b \<Rightarrow> if \<not> e_patched env ATTEMPT_BUDGET then []
       else map field_name (filter (\<lambda>f. bget (after b (t_usage (g_self g))) f = Some 0) [CostUsdMicros, Tokens, ToolCalls, WallS]))"

definition stage_payload ::
  "env \<Rightarrow> att_input \<Rightarrow> team_stage_spec \<Rightarrow> participant \<Rightarrow> agent_turn \<Rightarrow> approval_payload option \<Rightarrow> team_answer list option \<Rightarrow> stage \<Rightarrow> stage_call" where
  "stage_payload env inp spec agent turn approval results g = (let leader = pt_leader agent in
     \<lparr>sc_role = pt_role agent, sc_attempt_id = pt_attempt_id agent, sc_executor = pt_executor agent,
      sc_continue_from = (if leader then ai_continue_from inp
        else case ai_continue_from inp of None \<Rightarrow> None | Some a \<Rightarrow> if a = [] then None else Some (member_attempt_id a (pt_role agent))),
      sc_retry_reason = (if leader then ai_retry_reason inp else []), sc_goal = tu_goal turn,
      sc_workspace_access = (if leader then ai_workspace_access inp else NoAccess),
      sc_team_workspace = (if leader then ai_workspace_access inp else ts_workspace_access spec),
      sc_messages = tu_messages turn, sc_retry_calls = pt_retry_calls agent, sc_approval = approval, sc_session_id = pt_session_id agent,
      sc_state_version = pt_state_version agent, sc_output_schema_ref = (if leader then ai_output_schema_ref inp else None),
      sc_files = (if leader then files_for_leader (g_team g) else []), sc_results = results,
      sc_budget = team_budget env inp (if leader then 1 else tu_parts turn) leader g\<rparr>)"

section \<open>A turn of an agent\<close>

text \<open>What a part of a turn leads to: it goes on, it ends with a result, its activity gave up, or the role is not of the team.\<close>

datatype turn_out = Goes agent_turn | Ends team_result usage | Lost_turn string

definition ask_agent ::
  "env \<Rightarrow> att_input \<Rightarrow> team_stage_spec \<Rightarrow> participant \<Rightarrow> approval_payload option \<Rightarrow> team_answer list option \<Rightarrow> agent_turn \<Rightarrow> stage \<Rightarrow> agent_turn \<times> stage" where
  "ask_agent env inp spec agent approval results turn g =
     (turn\<lparr>tu_at := TuRun\<rparr>, g\<lparr>g_calls := g_calls g @ [stage_payload env inp spec agent turn approval results g]\<rparr>)"

text \<open>The activity returned.\<close>

definition agent_returned :: "env \<Rightarrow> team_result \<Rightarrow> agent_turn \<Rightarrow> stage \<Rightarrow> agent_turn \<times> stage" where
  "agent_returned env result turn g =
     (turn\<lparr>tu_spent := (case tr_usage result of Some u \<Rightarrow> if e_patched env ATTEMPT_BUDGET then usage_add (tu_spent turn) u else tu_spent turn | None \<Rightarrow> tu_spent turn),
           tu_at := TuCommit result\<rparr>,
      g\<lparr>g_self := count_usage env (turn_result.truncate result) ((g_self g)\<lparr>t_ran_activity := True\<rparr>)\<rparr>)"

definition agent_id :: "participant \<Rightarrow> string \<Rightarrow> string" where
  "agent_id agent call_id = pt_role agent @ '':'' @ call_id"

text \<open>The rest of the loop's body after the commit.\<close>

definition agent_read :: "team_result \<Rightarrow> participant \<Rightarrow> participant" where
  "agent_read result agent =
     (let a1 = (if tr_session_id result = [] then agent else agent\<lparr>pt_session_id := tr_session_id result\<rparr>);
          a2 = (case tr_state_version result of None \<Rightarrow> a1 | Some v \<Rightarrow> a1\<lparr>pt_state_version := v\<rparr>);
          a3 = a2\<lparr>pt_retry_calls := tr_retry_calls result\<rparr> in
      if tr_status result = Some ''parked_approval''
      then a3\<lparr>pt_awaiting := map (agent_id agent \<circ> pk_tool_call_id) (tr_approvals result), pt_approval_request_id := tr_approval_request_id result\<rparr> else a3)"

definition agent_committed :: "participant \<Rightarrow> team_result \<Rightarrow> agent_turn \<Rightarrow> stage \<Rightarrow> turn_out \<times> stage" where
  "agent_committed agent result turn g =
     (let g1 = g\<lparr>g_team := put_participant (pt_role agent) (agent_read result agent) (g_team g)\<rparr>;
          asks = filter (\<lambda>c. xc_tool_name c = ASK) (sr_externals result) in
      (if tr_status result = Some ''parked_approval'' then Goes (turn\<lparr>tu_at := TuParking result\<rparr>)
       else if tr_status result = Some ''team_external'' \<and> length asks = length (sr_externals result) then Goes (turn\<lparr>tu_at := TuAsking asks\<rparr>)
       else Ends result (tu_spent turn), g1))"

text \<open>\<open>_team_park_approval\<close>: what the parent is shown, with the role; and the decisions, taken from those that came.\<close>

definition shown_approval :: "lang \<Rightarrow> team_stage_spec \<Rightarrow> participant \<Rightarrow> parked_tool_call \<Rightarrow> parked_tool_call" where
  "shown_approval ln spec agent item = (let label = name_of ln spec (pt_role agent); subject = pk_subject item in
     \<lparr>pk_tool_call_id = agent_id agent (pk_tool_call_id item),
      pk_subject = subject\<lparr>sb_role := Some (pt_role agent), sb_summary := pt_role agent @ '': '' @ sb_summary subject,
        sb_role_label := if label = pt_role agent then sb_role_label subject else Some label\<rparr>\<rparr>)"

definition call_part :: "string \<Rightarrow> string" where
  "call_part key = after_colon key"

definition chosen_payload :: "participant \<Rightarrow> (string, approval_decided_signal) dict \<Rightarrow> approval_payload" where
  "chosen_payload agent decisions =
     (let chosen = map (\<lambda>k. (k, the (dget decisions k))) (remdups (pt_awaiting agent)) in
      \<lparr>pl_approval_id = ad_approval_id (snd (last chosen)), pl_approval_request_id = pt_approval_request_id agent,
       pl_approve = list_all (\<lambda>d. ad_decision d = Approve) (dvals chosen),
       pl_decisions = map (\<lambda>(k, d). (call_part k, ad_decision d)) chosen,
       pl_rules = concat (map (\<lambda>(k, d). case ad_rule d of Some r \<Rightarrow> if ad_decision d = Approve then [(call_part k, r)] else [] | None \<Rightarrow> []) chosen)\<rparr>)"

definition agent_decided :: "env \<Rightarrow> att_input \<Rightarrow> team_stage_spec \<Rightarrow> participant \<Rightarrow> agent_turn \<Rightarrow> stage \<Rightarrow> agent_turn \<times> stage" where
  "agent_decided env inp spec agent turn g =
     (let decisions = t_decisions (g_self g); free = agent\<lparr>pt_awaiting := []\<rparr>;
          g1 = g\<lparr>g_self := (g_self g)\<lparr>t_decisions := filter (\<lambda>(k, _). k \<notin> set (pt_awaiting agent)) decisions\<rparr>,
                 g_team := put_participant (pt_role agent) free (g_team g)\<rparr> in
      ask_agent env inp spec free (Some (chosen_payload agent decisions)) None turn g1)"

text \<open>\<open>_team_ask\<close>: the question, and the answer, which is whatever is in the queue once something is.\<close>

definition ask_signal :: "lang \<Rightarrow> att_input \<Rightarrow> participant \<Rightarrow> ext_call list \<Rightarrow> attempt_parked_signal" where
  "ask_signal ln inp agent calls =
     (let (question, asked) = ask_user_park (ln_loads ln) (ln_str ln) (ln_brackets ln) (map xc_arguments calls) in
      parked_signal inp ParkInput (no_result\<lparr>tr_question := Some (''['' @ pt_role agent @ ''] '' @ question), tr_questions := asked\<rparr>))"

definition take_answer :: "stage \<Rightarrow> string \<times> stage" where
  "take_answer g = (let self = g_self g in
     (join [NL] (map im_text (t_messages self)), g\<lparr>g_self := self\<lparr>t_heard := t_heard self \<union> im_message_seq ` set (t_messages self), t_messages := []\<rparr>\<rparr>))"

definition agent_answered :: "env \<Rightarrow> att_input \<Rightarrow> team_stage_spec \<Rightarrow> participant \<Rightarrow> ext_call list \<Rightarrow> agent_turn \<Rightarrow> stage \<Rightarrow> agent_turn \<times> stage" where
  "agent_answered env inp spec agent calls turn g =
     (let (reply, g1) = take_answer g in
      ask_agent env inp spec agent None (Some (map (\<lambda>c. answer_of_call (xc_call_id c) ASK reply ''success'') calls)) turn g1)"

text \<open>
  A part of a turn of \<open>agent\<close>. A turn that parks without naming a call raises when it reads the last decision, and has no step. The
  set of awaited calls is kept in the order of the calls.
\<close>

inductive turn_step :: "env \<Rightarrow> lang \<Rightarrow> att_input \<Rightarrow> team_stage_spec \<Rightarrow> participant \<Rightarrow> agent_turn \<Rightarrow> stage \<Rightarrow> turn_out \<Rightarrow> stage \<Rightarrow> bool"
  for env ln inp spec agent where
  returned: "tu_at turn = TuRun \<Longrightarrow> agent_returned env result turn g = (turn', g') \<Longrightarrow> turn_step env ln inp spec agent turn g (Goes turn') g'"
| gave_up: "tu_at turn = TuRun \<Longrightarrow> turn_step env ln inp spec agent turn g (Lost_turn cause) g"
| committed: "tu_at turn = TuCommit result \<Longrightarrow> agent_committed agent result turn g = (out, g') \<Longrightarrow> turn_step env ln inp spec agent turn g out g'"
| parked: "tu_at turn = TuParking result \<Longrightarrow>
    s = parked_signal inp ParkApproval (turn_result.truncate result\<lparr>tr_approvals := map (shown_approval ln spec agent) (tr_approvals result)\<rparr>)
    \<Longrightarrow> turn_step env ln inp spec agent turn g (Goes (turn\<lparr>tu_at := TuParked result\<rparr>)) (g\<lparr>g_parked := g_parked g @ [s]\<rparr>)"
| decided: "tu_at turn = TuParked result \<Longrightarrow> pt_awaiting agent \<noteq> [] \<Longrightarrow> list_all (has_key (t_decisions (g_self g))) (pt_awaiting agent)
    \<Longrightarrow> agent_decided env inp spec agent turn g = (turn', g') \<Longrightarrow> turn_step env ln inp spec agent turn g (Goes turn') g'"
| asked: "tu_at turn = TuAsking calls
    \<Longrightarrow> turn_step env ln inp spec agent turn g (Goes (turn\<lparr>tu_at := TuAsked calls\<rparr>)) (g\<lparr>g_parked := g_parked g @ [ask_signal ln inp agent calls]\<rparr>)"
| answered: "tu_at turn = TuAsked calls \<Longrightarrow> t_messages (g_self g) \<noteq> [] \<Longrightarrow> agent_answered env inp spec agent calls turn g = (turn', g')
    \<Longrightarrow> turn_step env ln inp spec agent turn g (Goes turn') g'"

section \<open>The members\<close>

definition put_task :: "string \<Rightarrow> member_place \<Rightarrow> stage \<Rightarrow> stage" where
  "put_task role p g = g\<lparr>g_tasks := dset role p (g_tasks g)\<rparr>"

definition live_tasks :: "stage \<Rightarrow> nat" where
  "live_tasks g = length (filter (\<lambda>(_, p). \<not> is_done p) (g_tasks g))"

definition turn_facts :: "env \<Rightarrow> att_input \<Rightarrow> team_stage_spec \<Rightarrow> participant \<Rightarrow> stage \<Rightarrow> (string \<times> json) list" where
  "turn_facts env inp spec member g = [(''node_id'', JStr (ai_node_id inp)), (''attempt_id'', JStr (ai_attempt_id inp)),
     (''round'', JInt (int (ru_round (g_team g)))), (''role'', JStr (pt_role member)), (''executor'', JStr (pt_executor member)),
     (''member_attempt_id'', JStr (pt_attempt_id member))] @ team_label env spec (pt_role member)"

primrec job_hop :: "job \<Rightarrow> nat" where
  "job_hop (Assigned call_id task) = 0"
| "job_hop (Wake sender said hop) = hop"

primrec job_task :: "job \<Rightarrow> string" where
  "job_task (Assigned call_id task) = task"
| "job_task (Wake sender said hop) = said"

text \<open>\<open>_member_job\<close> up to the publication of its start: the prompt, with the mail the member has not read. \<open>None\<close>: the role is not of the team.\<close>

definition start_job :: "env \<Rightarrow> lang \<Rightarrow> att_input \<Rightarrow> team_stage_spec \<Rightarrow> string \<Rightarrow> job \<Rightarrow> bool \<Rightarrow> stage \<Rightarrow> (string \<times> stage) option" where
  "start_job env ln inp spec role job published g =
     (let g1 = (case job of Assigned _ task \<Rightarrow> stage_message env inp spec ''assign'' (pt_role (ru_leader (g_team g))) [role] task 0 [] g | Wake _ _ _ \<Rightarrow> g);
          said = (case job of Assigned _ task \<Rightarrow> task | Wake sender t _ \<Rightarrow> wake_prompt (wording.truncate ln) (name_of ln spec sender) t);
          team = (g_team g1)\<lparr>ru_messages_used := ru_messages_used (g_team g1) + 1\<rparr> in
      case (unread (wording.truncate ln) (display_names (wording.truncate ln) spec) role team, participant_of team role) of
        (Some (mail, team'), Some member) \<Rightarrow>
          let g2 = g1\<lparr>g_team := team'\<rparr>;
              g3 = team_emit env ''team.member_turn_started'' (turn_facts env inp spec member g2 @ [(''task'', JStr (take TASK_PREVIEW_CHARS (job_task job)))]) g2 in
          Some (member_prompt said mail, flush_team published g3)
      | _ \<Rightarrow> None)"

text \<open>The head of \<open>drain\<close>: the next job of the queue, with the number of tasks that are not done.\<close>

definition next_job :: "string \<Rightarrow> stage \<Rightarrow> (job \<times> nat \<times> stage) option" where
  "next_job role g = (case dget (g_queues g) role of
     Some (job # rest) \<Rightarrow> Some (job, max 1 (live_tasks g), g\<lparr>g_queues := dset role rest (g_queues g)\<rparr>) | _ \<Rightarrow> None)"

definition dump_usage :: "usage \<Rightarrow> json" where
  "dump_usage u = JObj ([(''tokens_in'', JInt (int (u_tokens_in u))), (''tokens_out'', JInt (int (u_tokens_out u))),
     (''tool_calls'', JInt (int (u_tool_calls u))), (''wall_s'', JInt (int (u_wall_s u)))]
     @ (case u_cost_usd_micros u of None \<Rightarrow> [] | Some c \<Rightarrow> [(''cost_usd_micros'', JInt (int c))]))"

definition put_answer :: "job \<Rightarrow> string \<Rightarrow> string \<Rightarrow> stage \<Rightarrow> stage" where
  "put_answer job output state g = (case job of
     Assigned call_id _ \<Rightarrow> g\<lparr>g_answers := dset call_id (answer_of_call call_id ASSIGN output state) (g_answers g)\<rparr> | Wake _ _ _ \<Rightarrow> g)"

definition requester :: "job \<Rightarrow> stage \<Rightarrow> string" where
  "requester job g = (case job of Assigned _ _ \<Rightarrow> pt_role (ru_leader (g_team g)) | Wake sender _ _ \<Rightarrow> sender)"

text \<open>The rest of \<open>_member_job\<close> once the turn ended: notes and wakes, the answer, the events. The stop is raised after they are published.\<close>

definition job_completed :: "env \<Rightarrow> att_input \<Rightarrow> team_stage_spec \<Rightarrow> participant \<Rightarrow> job \<Rightarrow> team_result \<Rightarrow> usage \<Rightarrow> stage \<Rightarrow> stage" where
  "job_completed env inp spec member job result cost g =
     (let role = pt_role member; files = sr_files result; said = sr_text result;
          g1 = g\<lparr>g_team := remember_files role files (g_team g)\<rparr>;
          g2 = (case job of
            Assigned _ _ \<Rightarrow> put_answer job (answer_text said role files) ''success'' (g1\<lparr>g_team := (g_team g1)\<lparr>ru_messages_used := ru_messages_used (g_team g1) + 1\<rparr>\<rparr>)
          | Wake _ _ _ \<Rightarrow> g1\<lparr>g_team := snd (post role said (g_team g1))\<rparr>);
          g3 = stage_message env inp spec ''reply'' role [requester job g2] said (job_hop job) files g2 in
      team_emit env ''team.member_turn_finished''
        (turn_facts env inp spec member g3 @ [(''outcome'', JStr ''completed''), (''summary'', JStr (take SUMMARY_PREVIEW_CHARS said)), (''usage'', dump_usage cost),
          (''artifacts'', JArr (map (JStr \<circ> lf_name) (take 20 files)))]) g3)"

definition job_failed :: "env \<Rightarrow> att_input \<Rightarrow> team_stage_spec \<Rightarrow> participant \<Rightarrow> job \<Rightarrow> team_result \<Rightarrow> usage \<Rightarrow> stage \<Rightarrow> stop option \<times> stage" where
  "job_failed env inp spec member job result cost g =
     (let err = (case tr_error result of None \<Rightarrow> ''the turn failed'' | Some e \<Rightarrow> e);
          g1 = team_emit env ''team.member_turn_finished''
            (turn_facts env inp spec member g @ [(''outcome'', JStr ''failed''), (''summary'', JStr (take SUMMARY_PREVIEW_CHARS err)), (''usage'', dump_usage cost)]) g in
      (if tr_failure_class result = Some ''budget'' then Some \<lparr>st_failure_class = ''budget'', st_message = ''the stage's budget is spent: '' @ err\<rparr> else None,
       put_answer job (pt_role member @ '' could not do it: '' @ err) ''error'' g1))"

definition end_job :: "env \<Rightarrow> att_input \<Rightarrow> team_stage_spec \<Rightarrow> participant \<Rightarrow> job \<Rightarrow> team_result \<Rightarrow> usage \<Rightarrow> stage \<Rightarrow> stop option \<times> stage" where
  "end_job env inp spec member job result cost g =
     (let (notes, g1) = team_notes env inp spec (pt_role member) result (job_hop job) g;
          g2 = foldl (wake_from_note env inp spec (pt_role member) (job_hop job)) g1 notes in
      if tr_status result = Some ''completed'' then (None, job_completed env inp spec member job result cost g2)
      else job_failed env inp spec member job result cost g2)"

text \<open>The activity of the member gave up.\<close>

definition lose_job :: "env \<Rightarrow> att_input \<Rightarrow> team_stage_spec \<Rightarrow> participant \<Rightarrow> job \<Rightarrow> string \<Rightarrow> stage \<Rightarrow> stage" where
  "lose_job env inp spec member job cause g =
     put_answer job (pt_role member @ '' could not be reached: '' @ cause) ''error''
       (team_emit env ''team.member_turn_finished''
         (turn_facts env inp spec member g @ [(''outcome'', JStr ''failed''), (''summary'', JStr (take SUMMARY_PREVIEW_CHARS cause))]) g)"

text \<open>After a job: a stop ends the task and empties every queue, otherwise the user's mentions are pulled and the loop goes on.\<close>

definition job_over :: "env \<Rightarrow> att_input \<Rightarrow> team_stage_spec \<Rightarrow> string \<Rightarrow> stop option \<Rightarrow> stage \<Rightarrow> stage" where
  "job_over env inp spec role stopped g = (case stopped of
     Some s \<Rightarrow> put_task role MDone (g\<lparr>g_stops := g_stops g @ [s], g_queues := dmap (\<lambda>_ _. []) (g_queues g)\<rparr>)
   | None \<Rightarrow> put_task role MReady (pull_user_wakes env inp spec g))"

text \<open>A part of the task of a member.\<close>

inductive member_step :: "env \<Rightarrow> lang \<Rightarrow> att_input \<Rightarrow> team_stage_spec \<Rightarrow> string \<Rightarrow> stage \<Rightarrow> stage \<Rightarrow> bool" for env ln inp spec role where
  idle: "dget (g_tasks g) role = Some MReady \<Longrightarrow> next_job role g = None \<Longrightarrow> member_step env ln inp spec role g (put_task role MDone g)"
| begins: "dget (g_tasks g) role = Some MReady \<Longrightarrow> next_job role g = Some (job, parts, g1) \<Longrightarrow> start_job env ln inp spec role job published g1 = Some (prompt, g2)
    \<Longrightarrow> member_step env ln inp spec role g (put_task role (MStarting job parts prompt) g2)"
| asks: "dget (g_tasks g) role = Some (MStarting job parts prompt) \<Longrightarrow> participant_of (g_team g) role = Some member
    \<Longrightarrow> ask_agent env inp spec member None None \<lparr>tu_goal = prompt, tu_messages = [], tu_parts = parts, tu_spent = no_usage, tu_at = TuRun\<rparr> g = (turn, g1)
    \<Longrightarrow> member_step env ln inp spec role g (put_task role (MTurn job turn) g1)"
| turns: "dget (g_tasks g) role = Some (MTurn job turn) \<Longrightarrow> participant_of (g_team g) role = Some member \<Longrightarrow> turn_step env ln inp spec member turn g (Goes turn') g1
    \<Longrightarrow> member_step env ln inp spec role g (put_task role (MTurn job turn') g1)"
| ends: "dget (g_tasks g) role = Some (MTurn job turn) \<Longrightarrow> participant_of (g_team g) role = Some member \<Longrightarrow> turn_step env ln inp spec member turn g (Ends result cost) g1
    \<Longrightarrow> participant_of (g_team g1) role = Some member1 \<Longrightarrow> end_job env inp spec member1 job result cost g1 = (stopped, g2)
    \<Longrightarrow> member_step env ln inp spec role g (put_task role (MClosing stopped) (flush_team published g2))"
| lost: "dget (g_tasks g) role = Some (MTurn job turn) \<Longrightarrow> participant_of (g_team g) role = Some member \<Longrightarrow> turn_step env ln inp spec member turn g (Lost_turn cause) g1
    \<Longrightarrow> member_step env ln inp spec role g (put_task role (MClosing None) (flush_team published (lose_job env inp spec member job cause g1)))"
| closes: "dget (g_tasks g) role = Some (MClosing stopped) \<Longrightarrow> member_step env ln inp spec role g (job_over env inp spec role stopped g)"

section \<open>The rounds\<close>

text \<open>\<open>_run_assignments\<close> up to its wait. Its queues, tasks and stops are its own.\<close>

definition start_assignments :: "env \<Rightarrow> att_input \<Rightarrow> team_stage_spec \<Rightarrow> (string \<times> job) list \<Rightarrow> (string, team_answer) dict \<Rightarrow> stage \<Rightarrow> stage" where
  "start_assignments env inp spec assigns answers g =
     pull_user_wakes env inp spec (foldl (\<lambda>g (role, job). enqueue role job g)
       (g\<lparr>g_round_usage := t_usage (g_self g), g_queues := [], g_tasks := [], g_stops := [], g_answers := answers\<rparr>) assigns)"

definition all_done :: "stage \<Rightarrow> bool" where
  "all_done g \<longleftrightarrow> list_all (\<lambda>(_, p). is_done p) (g_tasks g)"

definition stage_round_facts :: "att_input \<Rightarrow> stage \<Rightarrow> (string \<times> json) list" where
  "stage_round_facts inp g = [(''node_id'', JStr (ai_node_id inp)), (''attempt_id'', JStr (ai_attempt_id inp)), (''round'', JInt (int (ru_round (g_team g))))]"

definition team_count :: "env \<Rightarrow> stage \<Rightarrow> (string \<times> json) list" where
  "team_count env g = (if e_patched env ATTEMPT_TEAM_FACTS then [(''messages'', JInt (int (ru_messages_used (g_team g))))] else [])"

definition team_start_facts :: "env \<Rightarrow> team_stage_spec \<Rightarrow> stage \<Rightarrow> (string \<times> json) list" where
  "team_start_facts env spec g = (if e_patched env ATTEMPT_TEAM_FACTS
     then [(''max_messages'', JInt (int (l_max_messages (ts_limits spec)))), (''max_members'', JInt (int (l_max_members (ts_limits spec)))),
       (''max_hops'', JInt (int (l_max_hops (ts_limits spec)))), (''messages'', JInt (int (ru_messages_used (g_team g))))] else [])"

text \<open>The handler of \<open>_Stop\<close>: a round that is open is closed with the reason.\<close>

definition raise_stop :: "env \<Rightarrow> att_input \<Rightarrow> bool \<Rightarrow> bool \<Rightarrow> stop \<Rightarrow> stage \<Rightarrow> stage" where
  "raise_stop env inp round_open published s g =
     (flush_team published (if round_open then team_emit env ''team.round_finished''
        (stage_round_facts inp g @ [(''outcome'', JStr ''stopped''), (''reason'', JStr (take 300 (st_message s)))] @ team_count env g) g else g))\<lparr>g_at := GStopping s\<rparr>"

definition open_round :: "env \<Rightarrow> att_input \<Rightarrow> team_stage_spec \<Rightarrow> bool \<Rightarrow> stage \<Rightarrow> stage" where
  "open_round env inp spec published g =
     (let limit = l_max_rounds (ts_limits spec) in
      if limit \<le> ru_round (g_team g)
      then raise_stop env inp False published
        \<lparr>st_failure_class = ''policy'', st_message = ''the team stage reached its limit of '' @ nat_str limit @ '' rounds without a final answer''\<rparr> g
      else if budget_gone env inp g \<noteq> []
      then raise_stop env inp False published
        \<lparr>st_failure_class = ''budget'', st_message = ''the stage's budget is spent ('' @ join '', '' (budget_gone env inp g) @ '')''\<rparr> g
      else let g1 = g\<lparr>g_team := (g_team g)\<lparr>ru_round := ru_round (g_team g) + 1\<rparr>, g_before := t_usage (g_self g)\<rparr>;
          g2 = team_emit env ''team.round_started'' (stage_round_facts inp g1 @ [(''max_rounds'', JInt (int limit))] @ team_start_facts env spec g1) g1 in
        (start_assignments env inp spec [] [] g2)\<lparr>g_at := GWakes\<rparr>)"

text \<open>The leader's turn: with the goal and the messages, or with the answers to its calls, the mail and the messages as text.\<close>

definition start_leader :: "env \<Rightarrow> lang \<Rightarrow> att_input \<Rightarrow> team_stage_spec \<Rightarrow> stage \<Rightarrow> stage option" where
  "start_leader env ln inp spec g =
     (let team = (g_team g)\<lparr>ru_pending_results := None\<rparr>; delivered = t_messages (g_self g);
          self = (g_self g)\<lparr>t_in_flight := length delivered, t_heard := t_heard (g_self g) \<union> im_message_seq ` set delivered\<rparr>;
          ask = (\<lambda>goal messages results g1. let (turn, g2) = ask_agent env inp spec (ru_leader (g_team g1)) None results
            \<lparr>tu_goal = goal, tu_messages = messages, tu_parts = 1, tu_spent = no_usage, tu_at = TuRun\<rparr> g1 in g2\<lparr>g_at := GLeader delivered turn\<rparr>) in
      case ru_pending_results (g_team g) of
        None \<Rightarrow> Some (ask (ai_goal inp) delivered None (g\<lparr>g_team := team, g_self := self\<rparr>))
      | Some resume \<Rightarrow> if resume = [] then None
          else case unread (wording.truncate ln) (display_names (wording.truncate ln) spec) (pt_role (ru_leader team)) team of
            None \<Rightarrow> None
          | Some (mail, team') \<Rightarrow>
              let final = (last resume)\<lparr>an_output := with_blocks (an_output (last resume)) mail (user_block (wording.truncate ln) (map im_text delivered))\<rparr> in
              Some (ask [] [] (Some (butlast resume @ [final])) (g\<lparr>g_team := team', g_self := self\<rparr>)))"

definition end_round :: "env \<Rightarrow> att_input \<Rightarrow> bool \<Rightarrow> string \<Rightarrow> nat \<Rightarrow> (attempt_outcome \<times> team_result) option \<Rightarrow> stage \<Rightarrow> stage" where
  "end_round env inp published outcome assignments over g =
     (flush_team published (team_emit env ''team.round_finished''
        (stage_round_facts inp g @ [(''outcome'', JStr outcome), (''assignments'', JInt (int assignments))] @ team_count env g
          @ [(''usage'', dump_usage (usage_since (t_usage (g_self g)) (g_before g)))]) g))\<lparr>g_at := GRoundEnd over\<rparr>"

text \<open>The calls the leader's turn ended with: the assignments to members of the team, and the answers to the others.\<close>

definition known_member :: "lang \<Rightarrow> stage \<Rightarrow> ext_call \<Rightarrow> bool" where
  "known_member ln g call = has_key (ru_members (g_team g)) (arg_str ln call ''member'')"

definition unknown_answer :: "lang \<Rightarrow> (string \<Rightarrow> string) \<Rightarrow> stage \<Rightarrow> ext_call \<Rightarrow> string \<times> team_answer" where
  "unknown_answer ln repr g call = (xc_call_id call, answer_of_call (xc_call_id call) (xc_tool_name call)
     (''there is no member '' @ repr (arg_str ln call ''member'') @ '': the members are '' @ join '', '' (sort_key id (dkeys (ru_members (g_team g))))) ''error'')"

definition run_calls :: "env \<Rightarrow> lang \<Rightarrow> (string \<Rightarrow> string) \<Rightarrow> att_input \<Rightarrow> team_stage_spec \<Rightarrow> bool \<Rightarrow> ext_call list \<Rightarrow> stage \<Rightarrow> stage" where
  "run_calls env ln repr inp spec published calls g =
     (let assigns = filter (\<lambda>c. xc_tool_name c = ASSIGN) calls; asks = filter (\<lambda>c. xc_tool_name c = ASK) calls;
          valid = filter (known_member ln g) assigns;
          answers = foldl (\<lambda>d (k, a). dset k a d) [] (map (unknown_answer ln repr g) (filter (\<lambda>c. \<not> known_member ln g c) assigns));
          limits = ts_limits spec in
      if valid \<noteq> [] \<and> l_max_rounds limits \<le> ru_round (g_team g)
      then raise_stop env inp True published \<lparr>st_failure_class = ''policy'', st_message = ''the team stage reached its limit of '' @ nat_str (l_max_rounds limits)
        @ '' rounds: the leader assigned work it has no round left to use''\<rparr> g
      else if l_max_messages limits < ru_messages_used (g_team g) + 2 * length valid
      then raise_stop env inp True published \<lparr>st_failure_class = ''policy'', st_message = ''the team stage would pass its limit of '' @ nat_str (l_max_messages limits)
        @ '' messages ('' @ nat_str (ru_messages_used (g_team g)) @ '' used, '' @ nat_str (length valid) @ '' assignments asked for)''\<rparr> g
      else (start_assignments env inp spec (map (\<lambda>c. (arg_str ln c ''member'', Assigned (xc_call_id c) (arg_str ln c ''task''))) valid) answers g)
        \<lparr>g_at := GWork calls asks (length valid)\<rparr>)"

definition leader_ended :: "env \<Rightarrow> lang \<Rightarrow> (string \<Rightarrow> string) \<Rightarrow> att_input \<Rightarrow> team_stage_spec \<Rightarrow> bool \<Rightarrow> inbox_message list \<Rightarrow> team_result \<Rightarrow> stage \<Rightarrow> stage" where
  "leader_ended env ln repr inp spec published delivered result g =
     (let status = (case tr_status result of None \<Rightarrow> [] | Some s \<Rightarrow> s);
          leader = pt_role (ru_leader (g_team g));
          g1 = g\<lparr>g_self := (consume env status delivered (g_self g))\<lparr>t_in_flight := 0\<rparr>\<rparr>;
          (notes, g2) = team_notes env inp spec leader result 0 g1 in
      if status = ''completed''
      then end_round env inp published ''completed'' 0 (Some (OCompleted, result)) (stage_message env inp spec ''review'' leader [] (sr_text result) 0 [] g2)
      else if status \<noteq> ''team_external'' then end_round env inp published ''failed'' 0 (Some (OFailed, result)) g2
      else run_calls env ln repr inp spec published (sr_externals result) g2)"

text \<open>When every turn is over: the questions of the leader, one after the other, and then the answers for its next turn.\<close>

definition work_done :: "env \<Rightarrow> lang \<Rightarrow> att_input \<Rightarrow> team_stage_spec \<Rightarrow> bool \<Rightarrow> ext_call list \<Rightarrow> ext_call list \<Rightarrow> nat \<Rightarrow> stage \<Rightarrow> stage" where
  "work_done env ln inp spec published calls asks assignments g =
     (if asks \<noteq> [] then g\<lparr>g_at := GAsk calls asks assignments False\<rparr>
      else let g1 = g\<lparr>g_team := (g_team g)\<lparr>ru_pending_results := Some (List.map_filter (\<lambda>c. dget (g_answers g) (xc_call_id c)) calls)\<rparr>\<rparr> in
        if l_max_messages (ts_limits spec) < ru_messages_used (g_team g)
        then raise_stop env inp True published \<lparr>st_failure_class = ''policy'',
          st_message = ''the team stage passed its limit of '' @ nat_str (l_max_messages (ts_limits spec)) @ '' messages''\<rparr> g1
        else end_round env inp published ''assigned'' assignments None g1)"

definition leader_answered :: "env \<Rightarrow> lang \<Rightarrow> att_input \<Rightarrow> team_stage_spec \<Rightarrow> bool \<Rightarrow> ext_call list \<Rightarrow> ext_call \<Rightarrow> ext_call list \<Rightarrow> nat \<Rightarrow> stage \<Rightarrow> stage" where
  "leader_answered env ln inp spec published calls call asks assignments g =
     (let (reply, g1) = take_answer g in
      work_done env ln inp spec published calls asks assignments
        (g1\<lparr>g_answers := dset (xc_call_id call) (answer_of_call (xc_call_id call) ASK reply ''success'') (g_answers g1)\<rparr>))"

definition stage_report :: "env \<Rightarrow> att_input \<Rightarrow> attempt_outcome \<Rightarrow> turn_result \<Rightarrow> stage \<Rightarrow> stage" where
  "stage_report env inp outcome result g = g\<lparr>g_at := GReporting (finished_signal env inp outcome result (g_self g))\<rparr>"

definition stop_result :: "stop \<Rightarrow> turn_result" where
  "stop_result s = no_result\<lparr>tr_error := Some (st_message s), tr_failure_class := Some (st_failure_class s), tr_retryable := Some False\<rparr>"

definition new_stage :: "att_input \<Rightarrow> team_stage_spec \<Rightarrow> att \<Rightarrow> team_json option \<Rightarrow> stage" where
  "new_stage inp spec self carried = \<lparr>g_self = self,
     g_team = (case carried of None \<Rightarrow> start_team (ai_attempt_id inp) spec (ai_profile inp) | Some j \<Rightarrow> team_from_json j), g_at = GHead, g_queues = [],
     g_tasks = [], g_answers = [], g_stops = [], g_round_usage = no_usage, g_before = no_usage, g_mention_seen = {}, g_events = [], g_published = [],
     g_calls = [], g_parked = [], g_draws = 0\<rparr>"

text \<open>Whether turns of members may be running.\<close>

definition working :: "stage_place \<Rightarrow> bool" where
  "working p = (case p of GWakes \<Rightarrow> True | GWork _ _ _ \<Rightarrow> True | _ \<Rightarrow> False)"

definition over :: "stage_place \<Rightarrow> bool" where
  "over p = (case p of GContinued _ _ \<Rightarrow> True | GOver \<Rightarrow> True | _ \<Rightarrow> False)"

text \<open>
  The stage: its coroutine, the tasks of the members, the watcher for mentions, signals, and a cancellation, which stops the members and is
  reported. \<open>repr\<close> is Python's, and \<open>published\<close> says whether a batch of events was.
\<close>

inductive stage_step :: "env \<Rightarrow> lang \<Rightarrow> (string \<Rightarrow> string) \<Rightarrow> att_input \<Rightarrow> team_stage_spec \<Rightarrow> stage \<Rightarrow> stage \<Rightarrow> bool" for env ln repr inp spec where
  cut: "g_at g = GHead \<Longrightarrow> t_ran_activity (g_self g) \<Longrightarrow> e_patched env ATTEMPT_CONTINUE_AS_NEW
    \<Longrightarrow> stage_step env ln repr inp spec g ((flush_team published g)\<lparr>g_at := GContinue\<rparr>)"
| continued: "g_at g = GContinue \<Longrightarrow> stage_step env ln repr inp spec g (g\<lparr>g_at := GContinued (carry_att (g_self g)) (team_to_json (g_team g))\<rparr>)"
| opened: "g_at g = GHead \<Longrightarrow> stage_step env ln repr inp spec g (open_round env inp spec published g)"
| member: "working (g_at g) \<Longrightarrow> member_step env ln inp spec role g g' \<Longrightarrow> stage_step env ln repr inp spec g g'"
| watched: "working (g_at g) \<Longrightarrow> has_new_mention spec g \<Longrightarrow> stage_step env ln repr inp spec g (pull_user_wakes env inp spec g)"
| stopped: "working (g_at g) \<Longrightarrow> all_done g \<Longrightarrow> g_stops g = s # rest \<Longrightarrow> stage_step env ln repr inp spec g (raise_stop env inp True published s g)"
| led: "g_at g = GWakes \<Longrightarrow> all_done g \<Longrightarrow> g_stops g = [] \<Longrightarrow> start_leader env ln inp spec g = Some g' \<Longrightarrow> stage_step env ln repr inp spec g g'"
| leader: "g_at g = GLeader delivered turn \<Longrightarrow> turn_step env ln inp spec (ru_leader (g_team g)) turn g (Goes turn') g1
    \<Longrightarrow> stage_step env ln repr inp spec g (g1\<lparr>g_at := GLeader delivered turn'\<rparr>)"
| leader_ends: "g_at g = GLeader delivered turn \<Longrightarrow> turn_step env ln inp spec (ru_leader (g_team g)) turn g (Ends result used) g1
    \<Longrightarrow> stage_step env ln repr inp spec g (leader_ended env ln repr inp spec published delivered result g1)"
| leader_lost: "g_at g = GLeader delivered turn \<Longrightarrow> turn_step env ln inp spec (ru_leader (g_team g)) turn g (Lost_turn cause) g1
    \<Longrightarrow> stage_step env ln repr inp spec g (if e_patched env ATTEMPT_FAILURE_CLASS
      then stage_report env inp OFailed (no_result\<lparr>tr_error := Some cause, tr_failure_class := Some ''lost'', tr_retryable := Some True\<rparr>) g1 else g1\<lparr>g_at := GOver\<rparr>)"
| worked: "g_at g = GWork calls asks assignments \<Longrightarrow> all_done g \<Longrightarrow> g_stops g = []
    \<Longrightarrow> stage_step env ln repr inp spec g (work_done env ln inp spec published calls asks assignments g)"
| asked: "g_at g = GAsk calls (call # asks) assignments False \<Longrightarrow> stage_step env ln repr inp spec g
      (g\<lparr>g_parked := g_parked g @ [ask_signal ln inp (ru_leader (g_team g)) [call]], g_at := GAsk calls (call # asks) assignments True\<rparr>)"
| answered: "g_at g = GAsk calls (call # asks) assignments True \<Longrightarrow> t_messages (g_self g) \<noteq> []
    \<Longrightarrow> stage_step env ln repr inp spec g (leader_answered env ln inp spec published calls call asks assignments g)"
| next_round: "g_at g = GRoundEnd None \<Longrightarrow> stage_step env ln repr inp spec g (g\<lparr>g_at := GHead\<rparr>)"
| finished: "g_at g = GRoundEnd (Some (outcome, result)) \<Longrightarrow> stage_step env ln repr inp spec g (stage_report env inp outcome (turn_result.truncate result) g)"
| stop_reported: "g_at g = GStopping s \<Longrightarrow> stage_step env ln repr inp spec g (stage_report env inp OFailed (stop_result s) g)"
| reported: "g_at g = GReporting s \<Longrightarrow> stage_step env ln repr inp spec g (g\<lparr>g_at := GOver\<rparr>)"
| decided: "\<not> over (g_at g) \<Longrightarrow> stage_step env ln repr inp spec g (g\<lparr>g_self := approval_decided_att signal (g_self g)\<rparr>)"
| delivered: "\<not> over (g_at g) \<Longrightarrow> stage_step env ln repr inp spec g (g\<lparr>g_self := deliver_messages_att messages (g_self g)\<rparr>)"
| cancelled: "\<not> over (g_at g) \<Longrightarrow> stage_step env ln repr inp spec g (stage_report env inp OCancelled (no_result\<lparr>tr_checkpoint_ref := Some (sha (ai_attempt_id inp))\<rparr>)
      (g\<lparr>g_self := (g_self g)\<lparr>t_cancelled := True\<rparr>, g_tasks := []\<rparr>))"

inductive stage_reachable :: "env \<Rightarrow> lang \<Rightarrow> (string \<Rightarrow> string) \<Rightarrow> att_input \<Rightarrow> team_stage_spec \<Rightarrow> stage \<Rightarrow> stage \<Rightarrow> bool" for env ln repr inp spec g0 where
  start: "stage_reachable env ln repr inp spec g0 g0"
| step: "stage_reachable env ln repr inp spec g0 g \<Longrightarrow> stage_step env ln repr inp spec g g' \<Longrightarrow> stage_reachable env ln repr inp spec g0 g'"

end
