(* ===== verification/Team_Work.thy ===== *)
theory Team_Work
  imports Attempt_Team Attempt_Correct
begin

text \<open>
  What the rounds of a team stage promise: every assignment of the leader is answered before its next turn, rounds and chains of mentions
  stay within their limits, and work only reaches members of the team. A question of the leader that its own messages answer is shown as well.
\<close>

section \<open>What most of the code leaves alone\<close>

definition roles_ok :: "team_run \<Rightarrow> bool" where
  "roles_ok t \<longleftrightarrow> (\<forall>(k, p)\<in>set (ru_members t). pt_role p = k \<and> k \<noteq> pt_role (ru_leader t))"

abbreviation member_roles :: "team_run \<Rightarrow> string set" where
  "member_roles t \<equiv> fst ` set (ru_members t)"

definition same_team :: "team_run \<Rightarrow> team_run \<Rightarrow> bool" where
  "same_team t t' \<longleftrightarrow> ru_round t' = ru_round t
     \<and> (roles_ok t \<longrightarrow> roles_ok t' \<and> member_roles t' = member_roles t \<and> pt_role (ru_leader t') = pt_role (ru_leader t))"

lemma same_team_refl [simp]: "same_team t t"
  by (simp add: same_team_def)

lemma same_team_trans: "same_team t u \<Longrightarrow> same_team u v \<Longrightarrow> same_team t v"
  by (simp add: same_team_def)

lemma same_team_books [simp]:
  "same_team t (t\<lparr>ru_version := v\<rparr>) = True" "same_team t (t\<lparr>ru_event_seq := e\<rparr>) = True" "same_team t (t\<lparr>ru_messages_used := m\<rparr>) = True"
  "same_team t (t\<lparr>ru_pending_results := q\<rparr>) = True" "same_team t (snd (post role s t))" "same_team t (remember_files role files t)"
  by (simp_all add: same_team_def roles_ok_def post_def remember_files_def Let_def)

lemma dset_subset: "set (dset k v d) \<subseteq> insert (k, v) (set d)"
  by (induction d) auto

lemma participant_key: "participant_of t role = Some p \<Longrightarrow> role \<noteq> pt_role (ru_leader t) \<Longrightarrow> (role, p) \<in> set (ru_members t)"
  by (simp add: participant_of_def map_of_SomeD)

lemma participant_role: "roles_ok t \<Longrightarrow> participant_of t role = Some p \<Longrightarrow> pt_role p = role"
  using participant_key[of t role p] by (auto simp: roles_ok_def participant_of_def split: if_splits)

lemma same_team_put:
  assumes "participant_of t role = Some p" "pt_role q = pt_role p"
  shows "same_team t (put_participant role q t)"
proof (cases "role = pt_role (ru_leader t)")
  case True
  then show ?thesis using assms by (auto simp: same_team_def roles_ok_def put_participant_def participant_of_def)
next
  case False
  have k: "role \<in> member_roles t" using participant_key[OF assms(1) False] by force
  have "roles_ok (put_participant role q t)" if "roles_ok t"
    using that participant_role[OF that assms(1)] False assms(2) dset_subset[of role q "ru_members t"]
    by (auto simp: roles_ok_def put_participant_def)
  moreover have "member_roles (put_participant role q t) = member_roles t" using k False by (auto simp: put_participant_def keys_dset_set)
  ultimately show ?thesis using False by (simp add: same_team_def put_participant_def)
qed

lemma same_team_unread: "unread wd names role t = Some (block, t') \<Longrightarrow> same_team t t'"
  by (auto simp: unread_def Let_def split: option.splits intro!: same_team_put)

text \<open>A change that leaves the work alone.\<close>

definition still :: "stage \<Rightarrow> stage \<Rightarrow> bool" where
  "still g h \<longleftrightarrow> same_team (g_team g) (g_team h) \<and> g_at h = g_at g \<and> g_queues h = g_queues g \<and> g_tasks h = g_tasks g \<and> g_answers h = g_answers g
     \<and> g_stops h = g_stops g"

lemma still_refl [simp]: "still g g"
  by (simp add: still_def)

lemma still_trans: "still g h \<Longrightarrow> still h k \<Longrightarrow> still g k"
  by (auto simp: still_def intro: same_team_trans)

lemma still_emit [simp]: "still g (team_emit env et p h) \<longleftrightarrow> still g h"
  by (auto simp: still_def team_emit_def same_team_def roles_ok_def)

lemma still_flush [simp]: "still g (flush_team b h) \<longleftrightarrow> still g h"
  by (simp add: still_def flush_team_def)

lemma still_message [simp]: "still g (stage_message env inp spec kind a b c d e h) \<longleftrightarrow> still g h"
  by (simp add: stage_message_def Let_def) (auto simp: still_def same_team_def roles_ok_def)

lemma still_team: "same_team (g_team g) t \<Longrightarrow> still g (g\<lparr>g_team := t\<rparr>)"
  by (simp add: still_def)

lemma still_notes: "still g (snd (post_notes env inp spec role hop ns listed g))"
proof (induction ns arbitrary: listed g)
  case (Cons n ns)
  obtain entry team where p: "post role n (g_team g) = (entry, team)" by force
  define h where "h = stage_message env inp spec ''note'' role (resolve_mentions spec (ml_text entry) (case listed of [] \<Rightarrow> [] | e # _ \<Rightarrow> e) role)
    (ml_text entry) hop [] (g\<lparr>g_team := team\<rparr>)"
  have "same_team (g_team g) team" using p same_team_books(5)[of "g_team g" role n] by simp
  then have "still g h" unfolding h_def by (simp add: still_team)
  moreover have "snd (post_notes env inp spec role hop (n # ns) listed g) = snd (post_notes env inp spec role hop ns (drop 1 listed) h)"
    by (simp add: p h_def Let_def split: prod.split)
  ultimately show ?case using Cons.IH still_trans by metis
qed simp

lemma still_wake: "still g (snd (take_user_wake env inp spec m g))"
proof -
  have "still g (g\<lparr>g_mention_seen := S, g_self := a, g_team := snd (post ''user'' (im_text m) (g_team g))\<rparr>)" for S a
    using same_team_books(5)[of "g_team g" "''user''" "im_text m"] by (simp add: still_def)
  moreover have "still g (g\<lparr>g_mention_seen := S\<rparr>)" for S by (simp add: still_def)
  ultimately show ?thesis by (simp add: take_user_wake_def Let_def)
qed

lemma still_wakes: "still g (snd (take_user_wakes env inp spec ms g))"
proof (induction ms arbitrary: g)
  case (Cons m ms)
  have "snd (take_user_wakes env inp spec (m # ms) g) = snd (take_user_wakes env inp spec ms (snd (take_user_wake env inp spec m g)))"
    by (simp add: Let_def split: prod.split)
  then show ?case using still_wake[of g env inp spec m] Cons.IH still_trans by metis
qed simp

lemma wakes_members:
  assumes "(role, job) \<in> set (fst (take_user_wakes env inp spec ms g))" "roles_ok (g_team g)"
  shows "role \<in> member_roles (g_team g) \<and> job_hop job = 0 \<and> (\<exists>a b. job = Wake a b 0)"
  using assms
proof (induction ms arbitrary: g)
  case (Cons m ms)
  define h where "h = snd (take_user_wake env inp spec m g)"
  have "still g h" unfolding h_def by (rule still_wake)
  then have h: "roles_ok (g_team h)" "member_roles (g_team h) = member_roles (g_team g)" using Cons.prems(2) by (simp_all add: still_def same_team_def)
  have first: "set (fst (take_user_wake env inp spec m g)) \<subseteq> member_roles (g_team g)"
    by (auto simp: take_user_wake_def Let_def)
  have "(role, job) \<in> (\<lambda>r. (r, Wake ''user'' (im_text m) 0)) ` set (fst (take_user_wake env inp spec m g))
      \<or> (role, job) \<in> set (fst (take_user_wakes env inp spec ms h))"
    using Cons.prems(1) by (auto simp: h_def Let_def split: prod.splits)
  then show ?case using first Cons.IH[OF _ h(1)] h(2) by auto
qed simp

section \<open>Work that is added\<close>

abbreviation queue_of :: "stage \<Rightarrow> string \<Rightarrow> job list" where
  "queue_of g role \<equiv> case dget (g_queues g) role of None \<Rightarrow> [] | Some q \<Rightarrow> q"

text \<open>Queues only get longer, and a task that has ended is started again when there is work for it.\<close>

definition grows :: "stage \<Rightarrow> stage \<Rightarrow> bool" where
  "grows g h \<longleftrightarrow> same_team (g_team g) (g_team h) \<and> g_at h = g_at g \<and> g_answers h = g_answers g \<and> g_stops h = g_stops g
     \<and> (\<forall>r. \<exists>more. queue_of h r = queue_of g r @ more)
     \<and> (\<forall>r. dget (g_tasks h) r = dget (g_tasks g) r \<or> dget (g_tasks g) r \<in> {None, Some MDone} \<and> dget (g_tasks h) r = Some MReady)"

definition alive :: "stage \<Rightarrow> bool" where
  "alive g \<longleftrightarrow> (\<forall>r. queue_of g r \<noteq> [] \<longrightarrow> dget (g_tasks g) r \<notin> {None, Some MDone})"

lemma still_grows: "still g h \<Longrightarrow> grows g h"
  by (simp add: still_def grows_def)

lemma grows_trans:
  assumes "grows g h" "grows h k"
  shows "grows g k"
proof -
  have "\<exists>more. queue_of k r = queue_of g r @ more" for r
  proof -
    obtain x y where "queue_of h r = queue_of g r @ x" "queue_of k r = queue_of h r @ y" using assms unfolding grows_def by meson
    then show ?thesis by simp
  qed
  moreover have "dget (g_tasks k) r = dget (g_tasks g) r \<or> dget (g_tasks g) r \<in> {None, Some MDone} \<and> dget (g_tasks k) r = Some MReady" for r
    using assms unfolding grows_def by (metis insertCI member_place.distinct(7) option.inject)
  ultimately show ?thesis using assms unfolding grows_def by (auto intro: same_team_trans)
qed

lemma grows_enqueue: "grows g (enqueue r j g)"
  by (auto simp: grows_def enqueue_def is_done_def Let_def dict_simps split: option.splits)

lemma alive_enqueue: "alive g \<Longrightarrow> alive (enqueue r j g)"
  by (auto simp: alive_def enqueue_def is_done_def Let_def dict_simps split: option.splits if_splits)

lemma alive_still: "still g h \<Longrightarrow> alive g \<Longrightarrow> alive h"
  by (simp add: alive_def still_def)

text \<open>The work there is: what is queued and what the tasks are doing.\<close>

definition at_hand :: "stage \<Rightarrow> (string \<times> job) set" where
  "at_hand g = {(r, j). j \<in> set (queue_of g r) \<or> (\<exists>parts prompt. dget (g_tasks g) r = Some (MStarting j parts prompt))
     \<or> (\<exists>turn. dget (g_tasks g) r = Some (MTurn j turn))}"

lemma at_hand_still: "still g h \<Longrightarrow> at_hand h = at_hand g"
  by (simp add: at_hand_def still_def)

lemma at_hand_enqueue: "at_hand (enqueue r j g) = insert (r, j) (at_hand g)"
  by (auto simp: at_hand_def enqueue_def is_done_def Let_def dict_simps split: option.splits if_splits)

lemma grows_jobs: "grows g (foldl (\<lambda>g (r, j). enqueue r j g) g jobs) \<and> at_hand (foldl (\<lambda>g (r, j). enqueue r j g) g jobs) = at_hand g \<union> set jobs
    \<and> (alive g \<longrightarrow> alive (foldl (\<lambda>g (r, j). enqueue r j g) g jobs))"
proof (induction jobs arbitrary: g)
  case (Cons p jobs)
  obtain r j where p: "p = (r, j)" by force
  show ?case using Cons.IH[of "enqueue r j g"] grows_trans[OF grows_enqueue[of g r j]] alive_enqueue[of g r j]
    by (simp add: p at_hand_enqueue)
qed (simp add: still_grows)

text \<open>What a part of the code adds: wakes of members, at most \<open>M\<close> down the chain.\<close>

definition wake_jobs :: "nat \<Rightarrow> string set \<Rightarrow> (string \<times> job) set" where
  "wake_jobs M R = {(r, j). r \<in> R \<and> job_hop j \<le> M \<and> (\<exists>a b n. j = Wake a b n)}"

definition adds :: "nat \<Rightarrow> stage \<Rightarrow> stage \<Rightarrow> bool" where
  "adds M g h \<longleftrightarrow> grows g h \<and> (alive g \<longrightarrow> alive h) \<and> at_hand g \<subseteq> at_hand h
     \<and> (roles_ok (g_team g) \<longrightarrow> at_hand h \<subseteq> at_hand g \<union> wake_jobs M (member_roles (g_team g)))"

lemma grows_team: "grows g h \<Longrightarrow> same_team (g_team g) (g_team h)"
  by (simp add: grows_def)

lemma adds_trans:
  assumes "adds M g h" "adds M h k"
  shows "adds M g k"
proof -
  have "same_team (g_team g) (g_team h)" using assms(1) by (simp add: adds_def grows_team)
  then have team: "roles_ok (g_team g) \<longrightarrow> roles_ok (g_team h) \<and> member_roles (g_team h) = member_roles (g_team g)" by (simp add: same_team_def)
  moreover have "grows g k" using assms grows_trans[of g h k] by (simp add: adds_def)
  moreover have "at_hand g \<subseteq> at_hand k" using assms by (auto simp: adds_def)
  moreover have "alive g \<longrightarrow> alive k" using assms by (simp add: adds_def)
  moreover have "at_hand k \<subseteq> at_hand g \<union> wake_jobs M (member_roles (g_team g))" if "roles_ok (g_team g)"
  proof -
    have "at_hand h \<subseteq> at_hand g \<union> wake_jobs M (member_roles (g_team g))" using assms(1) that by (simp add: adds_def)
    moreover have "at_hand k \<subseteq> at_hand h \<union> wake_jobs M (member_roles (g_team g))" using assms(2) that team by (simp add: adds_def)
    ultimately show ?thesis by blast
  qed
  ultimately show ?thesis unfolding adds_def by simp
qed

lemma adds_still: "still g h \<Longrightarrow> adds M g h"
  by (simp add: adds_def still_grows alive_still at_hand_still)

lemma adds_enqueue: "r \<in> member_roles (g_team g) \<Longrightarrow> n \<le> M \<Longrightarrow> adds M g (enqueue r (Wake a b n) g)"
  by (auto simp: adds_def grows_enqueue alive_enqueue at_hand_enqueue wake_jobs_def)

lemma adds_pull: "adds M g (pull_user_wakes env inp spec g)"
proof -
  obtain jobs h where w: "take_user_wakes env inp spec (t_messages (g_self g)) g = (jobs, h)" by force
  have h: "still g h" using still_wakes[of g env inp spec "t_messages (g_self g)"] w by simp
  have "set jobs \<subseteq> wake_jobs M (member_roles (g_team g))" if "roles_ok (g_team g)"
    using wakes_members[of _ _ env inp spec "t_messages (g_self g)" g] that w by (fastforce simp: wake_jobs_def)
  then have "adds M g (foldl (\<lambda>g (r, j). enqueue r j g) h jobs)"
    using grows_jobs[of h jobs] grows_trans[OF still_grows[OF h]] alive_still[OF h] at_hand_still[OF h] by (simp add: adds_def) blast
  then show ?thesis by (simp add: pull_user_wakes_def w adds_still)
qed

lemma adds_target: "hop \<le> M \<Longrightarrow> l_max_hops (ts_limits spec) = M \<Longrightarrow> adds M g (wake_target env inp spec role said hop g target)"
  by (auto simp: wake_target_def Let_def adds_still intro!: adds_enqueue)

lemma adds_note: "l_max_hops (ts_limits spec) = M \<Longrightarrow> hop \<le> M \<Longrightarrow> adds M g (wake_from_note env inp spec role hop g n)"
proof -
  assume *: "l_max_hops (ts_limits spec) = M" "hop \<le> M"
  have "adds M g (foldl (wake_target env inp spec role said hop) g ts)" for said ts
    by (induction ts arbitrary: g) (use * in \<open>auto simp: adds_still intro: adds_trans[OF adds_target]\<close>)
  then show ?thesis by (simp add: wake_from_note_def adds_still)
qed

lemma still_ask: "ask_agent env inp spec agent a r turn g = (turn', h) \<Longrightarrow> still g h \<and> tu_at turn' = TuRun"
  by (auto simp: ask_agent_def still_def)

lemma agent_read_role [simp]: "pt_role (agent_read result agent) = pt_role agent"
  by (simp add: agent_read_def Let_def split: option.split)

text \<open>A part of a turn leaves the work alone.\<close>

lemma still_turn:
  assumes "turn_step env ln inp spec agent turn g out h" "participant_of (g_team g) (pt_role agent) = Some agent"
  shows "still g h"
  using assms(1)
proof cases
  case (committed result)
  then show ?thesis using same_team_put[OF assms(2), of "agent_read result agent"] by (auto simp: agent_committed_def Let_def intro!: still_team)
next
  case (decided result turn')
  define g1 where "g1 = g\<lparr>g_self := (g_self g)\<lparr>t_decisions := filter (\<lambda>(k, _). k \<notin> set (pt_awaiting agent)) (t_decisions (g_self g))\<rparr>,
    g_team := put_participant (pt_role agent) (agent\<lparr>pt_awaiting := []\<rparr>) (g_team g)\<rparr>"
  have "still g g1" using same_team_put[OF assms(2), of "agent\<lparr>pt_awaiting := []\<rparr>"] by (simp add: g1_def still_def)
  moreover have "still g1 h" using decided still_ask by (auto simp: agent_decided_def Let_def g1_def)
  ultimately show ?thesis by (rule still_trans)
next
  case (answered calls turn')
  have "still g (snd (take_answer g))" by (simp add: take_answer_def still_def Let_def)
  moreover have "still (snd (take_answer g)) h" using answered still_ask by (auto simp: agent_answered_def split: prod.splits)
  ultimately show ?thesis by (rule still_trans)
qed (auto simp: agent_returned_def still_def)

lemma start_job_still: "start_job env ln inp spec role job b g = Some (prompt, h) \<Longrightarrow> still g h"
proof -
  assume a: "start_job env ln inp spec role job b g = Some (prompt, h)"
  define g1 where "g1 = (case job of Assigned _ task \<Rightarrow> stage_message env inp spec ''assign'' (pt_role (ru_leader (g_team g))) [role] task 0 [] g | Wake _ _ _ \<Rightarrow> g)"
  have g1: "still g g1" by (simp add: g1_def split: job.split)
  define team where "team = (g_team g1)\<lparr>ru_messages_used := Suc (ru_messages_used (g_team g1))\<rparr>"
  obtain mail team' member where u: "unread (wording.truncate ln) (display_names (wording.truncate ln) spec) role team = Some (mail, team')"
      and h: "h = flush_team b (team_emit env ''team.member_turn_started'' (turn_facts env inp spec member (g1\<lparr>g_team := team'\<rparr>)
        @ [(''task'', JStr (take TASK_PREVIEW_CHARS (job_task job)))]) (g1\<lparr>g_team := team'\<rparr>))"
    using a by (auto simp: start_job_def Let_def split: option.splits simp flip: g1_def team_def)
  have "same_team (g_team g1) team'" using same_team_unread[OF u] same_team_trans[of "g_team g1" team] by (simp add: team_def)
  then show "still g h" using g1 still_trans[OF g1 still_team] by (simp add: h)
qed

section \<open>The end of a job\<close>

text \<open>The answer to a call is in the books when the job that was to give it is over.\<close>

definition answers_job :: "job \<Rightarrow> stage \<Rightarrow> stage \<Rightarrow> bool" where
  "answers_job job g h \<longleftrightarrow> fst ` set (g_answers g) \<subseteq> fst ` set (g_answers h) \<and> (\<forall>c t. job = Assigned c t \<longrightarrow> c \<in> fst ` set (g_answers h))"

text \<open>Up to the answers, \<open>h\<close> is reached from \<open>g\<close> by adding work.\<close>

definition closes_job :: "nat \<Rightarrow> job \<Rightarrow> stage \<Rightarrow> stage \<Rightarrow> bool" where
  "closes_job M job g h \<longleftrightarrow> answers_job job g h \<and> adds M g (h\<lparr>g_answers := g_answers g\<rparr>)"

lemma put_answer_closes: "still g h \<Longrightarrow> closes_job M job g (put_answer job out st h)"
  by (auto simp: closes_job_def answers_job_def put_answer_def still_def keys_dset_set split: job.split intro!: adds_still)

lemma emit_answers [simp]: "g_answers (team_emit env et p h) = g_answers h" "g_answers (flush_team b h) = g_answers h"
  "g_answers (stage_message env inp spec k a b' c d e h) = g_answers h"
  by (simp_all add: team_emit_def flush_team_def stage_message_def Let_def)

lemma still_answers: "still (g\<lparr>g_answers := a\<rparr>) (h\<lparr>g_answers := a\<rparr>) \<Longrightarrow> still (g\<lparr>g_answers := a\<rparr>) h = (g_answers h = a \<and> True)"
  by (auto simp: still_def)

lemma closes_job_then:
  assumes "closes_job M job g h" "still (h\<lparr>g_answers := g_answers g\<rparr>) (k\<lparr>g_answers := g_answers g\<rparr>)" "g_answers k = g_answers h"
  shows "closes_job M job g k"
  using assms adds_trans[OF _ adds_still[OF assms(2)]] by (simp add: closes_job_def answers_job_def)

lemma adds_then_closes:
  assumes "adds M g h" "closes_job M job h k"
  shows "closes_job M job g k"
proof -
  have "g_answers h = g_answers g" using assms(1) by (simp add: adds_def grows_def)
  then show ?thesis using assms adds_trans[of M g h] by (simp add: closes_job_def answers_job_def)
qed

lemma job_failed_closes: "job_failed env inp spec member job result cost g = (stopped, h) \<Longrightarrow> closes_job M job g h"
  by (auto simp: job_failed_def Let_def intro!: put_answer_closes)

lemma lose_job_closes: "closes_job M job g (lose_job env inp spec member job cause g)"
  by (simp add: lose_job_def put_answer_closes)

lemma same_answers_still: "still (h\<lparr>g_answers := a\<rparr>) (team_emit env et p h\<lparr>g_answers := a\<rparr>)"
  "still (h\<lparr>g_answers := a\<rparr>) (stage_message env inp spec kd x b c d e h\<lparr>g_answers := a\<rparr>)"
  "still (h\<lparr>g_answers := a\<rparr>) (flush_team bb h\<lparr>g_answers := a\<rparr>)"
  by (simp_all add: still_def team_emit_def stage_message_def flush_team_def Let_def same_team_def roles_ok_def)

lemma job_completed_closes: "closes_job M job g (job_completed env inp spec member job result cost g)"
proof -
  define g1 where "g1 = g\<lparr>g_team := remember_files (pt_role member) (sr_files result) (g_team g)\<rparr>"
  define g2 where "g2 = (case job of
      Assigned _ _ \<Rightarrow> put_answer job (answer_text (sr_text result) (pt_role member) (sr_files result)) ''success''
        (g1\<lparr>g_team := (g_team g1)\<lparr>ru_messages_used := Suc (ru_messages_used (g_team g1))\<rparr>\<rparr>)
    | Wake _ _ _ \<Rightarrow> g1\<lparr>g_team := snd (post (pt_role member) (sr_text result) (g_team g1))\<rparr>)"
  have g1: "still g g1" unfolding g1_def by (rule still_team) simp
  have "closes_job M job g g2"
  proof (cases job)
    case (Assigned c t)
    have "still g (g1\<lparr>g_team := (g_team g1)\<lparr>ru_messages_used := Suc (ru_messages_used (g_team g1))\<rparr>\<rparr>)" by (rule still_trans[OF g1 still_team]) simp
    then show ?thesis using put_answer_closes by (simp add: g2_def Assigned)
  next
    case (Wake a b n)
    have "still g (g1\<lparr>g_team := snd (post (pt_role member) (sr_text result) (g_team g1))\<rparr>)" by (rule still_trans[OF g1 still_team]) simp
    then show ?thesis using Wake by (auto simp: g2_def closes_job_def answers_job_def still_def intro!: adds_still)
  qed
  moreover have "\<exists>p. job_completed env inp spec member job result cost g = team_emit env ''team.member_turn_finished'' p
      (stage_message env inp spec ''reply'' (pt_role member) [requester job g2] (sr_text result) (job_hop job) (sr_files result) g2)"
    unfolding job_completed_def Let_def g2_def g1_def Suc_eq_plus1 by (rule exI, rule refl)
  ultimately show ?thesis
    by (auto simp: closes_job_then[OF closes_job_then[OF _ same_answers_still(2)] same_answers_still(1)])
qed

lemma end_job_closes:
  assumes "end_job env inp spec member job result cost g = (stopped, h)" "job_hop job \<le> M" "l_max_hops (ts_limits spec) = M"
  shows "closes_job M job g h"
proof -
  obtain ns g1 where ns: "team_notes env inp spec (pt_role member) result (job_hop job) g = (ns, g1)" by force
  have g1: "adds M g g1" using still_notes ns unfolding team_notes_def by (metis adds_still snd_conv)
  have more: "adds M k (foldl (wake_from_note env inp spec (pt_role member) (job_hop job)) k xs)" for k xs
    by (induction xs arbitrary: k) (use assms(2,3) in \<open>auto simp: adds_still intro: adds_trans[OF adds_note]\<close>)
  define g2 where "g2 = foldl (wake_from_note env inp spec (pt_role member) (job_hop job)) g1 ns"
  have g2: "adds M g g2" unfolding g2_def by (rule adds_trans[OF g1 more])
  have "(if tr_status result = Some ''completed'' then (None, job_completed env inp spec member job result cost g2)
      else job_failed env inp spec member job result cost g2) = (stopped, h)"
    using assms(1) by (auto simp: end_job_def ns g2_def Let_def split: if_splits)
  then have "closes_job M job g2 h" using job_completed_closes job_failed_closes by (auto split: if_splits)
  then show ?thesis by (rule adds_then_closes[OF g2])
qed

section \<open>The invariant\<close>

text \<open>The calls a round has to answer, and where each of them is.\<close>

definition owed :: "stage_place \<Rightarrow> string set" where
  "owed p = (case p of GWork calls asks n \<Rightarrow> xc_call_id ` {c \<in> set calls. xc_tool_name c = ASSIGN} | _ \<Rightarrow> {})"

definition in_hand :: "stage \<Rightarrow> string set" where
  "in_hand g = {c. \<exists>r t. (r, Assigned c t) \<in> at_hand g}"

definition jobs_ok :: "nat \<Rightarrow> string set \<Rightarrow> (string \<times> job) set \<Rightarrow> bool" where
  "jobs_ok M R H \<longleftrightarrow> (\<forall>(r, j)\<in>H. r \<in> R \<and> job_hop j \<le> M)"

lemma jobs_ok_more: "jobs_ok M R H \<Longrightarrow> K \<subseteq> H \<union> wake_jobs M R \<Longrightarrow> jobs_ok M R K"
  by (auto simp: jobs_ok_def wake_jobs_def)

definition limits_kept :: "team_stage_spec \<Rightarrow> stage \<Rightarrow> bool" where
  "limits_kept spec g \<longleftrightarrow> roles_ok (g_team g) \<and> ru_round (g_team g) \<le> l_max_rounds (ts_limits spec)
     \<and> (working (g_at g) \<longrightarrow> alive g \<and> jobs_ok (l_max_hops (ts_limits spec)) (member_roles (g_team g)) (at_hand g)
        \<and> (g_stops g \<noteq> [] \<or> owed (g_at g) \<subseteq> in_hand g \<union> fst ` set (g_answers g)))"

lemma limits_kept_still: "limits_kept spec g \<Longrightarrow> still g h \<Longrightarrow> limits_kept spec h"
  using at_hand_still[of g h] alive_still[of g h] by (auto simp: limits_kept_def still_def same_team_def in_hand_def)

lemma limits_kept_adds:
  assumes "limits_kept spec g" "adds (l_max_hops (ts_limits spec)) g h"
  shows "limits_kept spec h"
proof -
  have team: "same_team (g_team g) (g_team h)" and eqs: "g_at h = g_at g" "g_stops h = g_stops g" "g_answers h = g_answers g"
    using assms(2) by (simp_all add: adds_def grows_def)
  have "roles_ok (g_team g)" using assms(1) by (simp add: limits_kept_def)
  then have new: "at_hand h \<subseteq> at_hand g \<union> wake_jobs (l_max_hops (ts_limits spec)) (member_roles (g_team g))" using assms(2) by (simp add: adds_def)
  have "in_hand g \<subseteq> in_hand h" using assms(2) by (auto simp: adds_def in_hand_def)
  moreover have "roles_ok (g_team h)" "member_roles (g_team h) = member_roles (g_team g)" "ru_round (g_team h) = ru_round (g_team g)"
    using team \<open>roles_ok (g_team g)\<close> by (simp_all add: same_team_def)
  moreover have "alive g \<longrightarrow> alive h" using assms(2) by (simp add: adds_def)
  ultimately show ?thesis using assms(1) eqs jobs_ok_more[OF _ new] by (simp add: limits_kept_def) blast
qed

text \<open>The task of \<open>role\<close> moves on, with the same work at hand.\<close>

lemma at_hand_put: "at_hand (put_task role p g) = {(r, j). j \<in> set (queue_of g r)
    \<or> (\<exists>parts prompt. (if r = role then Some p else dget (g_tasks g) r) = Some (MStarting j parts prompt))
    \<or> (\<exists>turn. (if r = role then Some p else dget (g_tasks g) r) = Some (MTurn j turn))}"
  by (auto simp: at_hand_def put_task_def dict_simps)

lemma alive_put: "alive g \<Longrightarrow> p \<noteq> MDone \<or> queue_of g role = [] \<Longrightarrow> alive (put_task role p g)"
  by (auto simp: alive_def put_task_def dict_simps split: if_splits)

lemma limits_keptI:
  assumes "limits_kept spec g" "same_team (g_team g) (g_team h)" "g_at h = g_at g"
    and "at_hand h \<subseteq> at_hand g \<union> wake_jobs (l_max_hops (ts_limits spec)) (member_roles (g_team g))" "alive g \<Longrightarrow> alive h"
    and "g_stops h \<noteq> [] \<or> g_stops h = g_stops g \<and> in_hand g \<union> fst ` set (g_answers g) \<subseteq> in_hand h \<union> fst ` set (g_answers h)"
  shows "limits_kept spec h"
proof -
  have "roles_ok (g_team g)" using assms(1) by (simp add: limits_kept_def)
  then have "roles_ok (g_team h)" "member_roles (g_team h) = member_roles (g_team g)" "ru_round (g_team h) = ru_round (g_team g)"
    using assms(2) by (simp_all add: same_team_def)
  moreover have "alive h \<and> jobs_ok (l_max_hops (ts_limits spec)) (member_roles (g_team g)) (at_hand h)
      \<and> (g_stops h \<noteq> [] \<or> owed (g_at g) \<subseteq> in_hand h \<union> fst ` set (g_answers h))" if "working (g_at g)"
  proof -
    have "alive g" "jobs_ok (l_max_hops (ts_limits spec)) (member_roles (g_team g)) (at_hand g)"
      and owed: "g_stops g \<noteq> [] \<or> owed (g_at g) \<subseteq> in_hand g \<union> fst ` set (g_answers g)" using assms(1) that by (simp_all add: limits_kept_def)
    then have "alive h" "jobs_ok (l_max_hops (ts_limits spec)) (member_roles (g_team g)) (at_hand h)" using assms(5) jobs_ok_more[OF _ assms(4)] by auto
    moreover have "g_stops h \<noteq> [] \<or> owed (g_at g) \<subseteq> in_hand h \<union> fst ` set (g_answers h)" using assms(6) owed subset_trans by metis
    ultimately show ?thesis by blast
  qed
  ultimately show ?thesis using assms(1,3) by (simp add: limits_kept_def)
qed

lemma grows_task: "grows g h \<Longrightarrow> dget (g_tasks g) r = Some p \<Longrightarrow> p \<noteq> MDone \<Longrightarrow> dget (g_tasks h) r = Some p"
  unfolding grows_def by (metis insertE option.distinct(1) option.inject singletonD)

lemma put_task_simps [simp]: "g_team (put_task r p g) = g_team g" "g_at (put_task r p g) = g_at g" "g_stops (put_task r p g) = g_stops g"
  "g_answers (put_task r p g) = g_answers g" "g_queues (put_task r p g) = g_queues g"
  by (simp_all add: put_task_def)

lemma in_hand_eq: "at_hand h = at_hand g \<Longrightarrow> in_hand h = in_hand g"
  by (simp add: in_hand_def)

lemma next_job_None: "next_job role g = None \<Longrightarrow> queue_of g role = []"
  by (auto simp: next_job_def split: option.splits list.splits)

text \<open>The next job leaves the queue for the task.\<close>

lemma begins_at_hand:
  assumes "dget (g_tasks g) role = Some MReady" "next_job role g = Some (job, parts, g1)" "still g1 h"
  shows "at_hand (put_task role (MStarting job n prompt) h) = at_hand g \<and> (alive g \<longrightarrow> alive (put_task role (MStarting job n prompt) h))"
proof -
  obtain rest where q: "dget (g_queues g) role = Some (job # rest)" "g1 = g\<lparr>g_queues := dset role rest (g_queues g)\<rparr>"
    using assms(2) by (auto simp: next_job_def split: option.splits list.splits)
  have h: "g_queues h = dset role rest (g_queues g)" "g_tasks h = g_tasks g" using assms(3) q(2) by (simp_all add: still_def)
  have "at_hand (put_task role (MStarting job n prompt) h) = at_hand g"
    unfolding at_hand_put using q(1) assms(1) by (auto simp: at_hand_def h dict_simps split: if_splits)
  moreover have "alive g \<longrightarrow> alive (put_task role (MStarting job n prompt) h)"
    by (auto simp: alive_def put_task_def h dict_simps split: if_splits)
  ultimately show ?thesis by simp
qed

definition doing :: "member_place \<Rightarrow> job set" where
  "doing p = (case p of MStarting j parts prompt \<Rightarrow> {j} | MTurn j turn \<Rightarrow> {j} | _ \<Rightarrow> {})"

lemma at_hand_alt: "at_hand g = {(r, j). j \<in> set (queue_of g r) \<or> (\<exists>p. dget (g_tasks g) r = Some p \<and> j \<in> doing p)}"
  by (auto simp: at_hand_def doing_def split: member_place.splits) (metis member_place.exhaust)+

lemma at_hand_move:
  assumes "dget (g_tasks g) role = Some p0" "still g h" "doing p = doing p0"
  shows "at_hand (put_task role p h) = at_hand g"
  using assms by (auto simp: at_hand_alt put_task_def still_def dict_simps split: if_splits)

lemma limits_kept_move:
  assumes "limits_kept spec g" "dget (g_tasks g) role = Some p0" "still g h" "doing p = doing p0" "p \<noteq> MDone \<or> queue_of h role = []"
  shows "limits_kept spec (put_task role p h)"
proof (rule limits_keptI[OF assms(1)])
  have same: "at_hand (put_task role p h) = at_hand g" by (rule at_hand_move[OF assms(2-4)])
  then show "at_hand (put_task role p h) \<subseteq> at_hand g \<union> wake_jobs (l_max_hops (ts_limits spec)) (member_roles (g_team g))" by simp
  show "alive (put_task role p h)" if "alive g" by (rule alive_put[OF alive_still[OF assms(3) that] assms(5)])
  show "g_stops (put_task role p h) \<noteq> [] \<or> g_stops (put_task role p h) = g_stops g
      \<and> in_hand g \<union> fst ` set (g_answers g) \<subseteq> in_hand (put_task role p h) \<union> fst ` set (g_answers (put_task role p h))"
    using assms(3) in_hand_eq[OF same] by (simp add: still_def)
qed (use assms(3) in \<open>simp_all add: still_def\<close>)

text \<open>A job is over: it is no longer at hand, and its call is answered.\<close>

lemma job_ends:
  assumes kept: "limits_kept spec g" and at: "dget (g_tasks g) role = Some (MTurn job turn)"
    and h: "still g g1" "closes_job (l_max_hops (ts_limits spec)) job g1 h"
  shows "limits_kept spec (put_task role (MClosing st) (flush_team b h))"
proof -
  let ?k = "put_task role (MClosing st) (flush_team b h)"
  have adds: "adds (l_max_hops (ts_limits spec)) g (h\<lparr>g_answers := g_answers g1\<rparr>)"
    using adds_trans[OF adds_still[OF h(1)]] h(2) by (simp add: closes_job_def)
  have same: "at_hand (h\<lparr>g_answers := a\<rparr>) = at_hand h" "alive (h\<lparr>g_answers := a\<rparr>) = alive h" for a by (simp_all add: at_hand_def alive_def)
  have roles: "roles_ok (g_team g)" using kept by (simp add: limits_kept_def)
  have g1: "g_answers g1 = g_answers g" using h(1) by (simp add: still_def)
  have "dget (g_tasks (h\<lparr>g_answers := g_answers g1\<rparr>)) role = Some (MTurn job turn)" by (rule grows_task[OF _ at]) (use adds in \<open>simp_all add: adds_def\<close>)
  then have task: "dget (g_tasks h) role = Some (MTurn job turn)" by simp
  have at_k: "at_hand ?k \<subseteq> at_hand h" "at_hand h \<subseteq> insert (role, job) (at_hand ?k)"
    unfolding at_hand_put using task by (auto simp: at_hand_def flush_team_def split: if_splits)
  have "at_hand g \<subseteq> at_hand h" using adds same by (simp add: adds_def)
  then have "in_hand g \<subseteq> in_hand ?k \<union> fst ` set (g_answers ?k)"
    using at_k(2) h(2) by (auto simp: in_hand_def closes_job_def answers_job_def) blast
  moreover have "fst ` set (g_answers g) \<subseteq> fst ` set (g_answers ?k)" using h(2) g1 by (simp add: closes_job_def answers_job_def)
  moreover have "alive g \<Longrightarrow> alive ?k" using adds same(2) alive_put[of "flush_team b h" "MClosing st" role]
    by (simp add: adds_def) (simp add: alive_def flush_team_def)
  moreover have "at_hand ?k \<subseteq> at_hand g \<union> wake_jobs (l_max_hops (ts_limits spec)) (member_roles (g_team g))"
    using at_k(1) adds same(1) roles by (simp add: adds_def) blast
  moreover have "same_team (g_team g) (g_team ?k)" "g_at ?k = g_at g" "g_stops ?k = g_stops g" using adds by (simp_all add: adds_def grows_def flush_team_def)
  ultimately show ?thesis by (intro limits_keptI[OF kept]) auto
qed

lemma agent_in_team: "roles_ok t \<Longrightarrow> participant_of t role = Some p \<Longrightarrow> participant_of t (pt_role p) = Some p"
  using participant_role by metis

lemma limits_kept_member:
  assumes "member_step env ln inp spec role g h" "limits_kept spec g" "working (g_at g)"
  shows "limits_kept spec h"
proof -
  have roles: "roles_ok (g_team g)" using assms(2) by (simp add: limits_kept_def)
  from assms(1) show ?thesis
  proof cases
    case idle
    show ?thesis unfolding idle(1) by (rule limits_kept_move[OF assms(2) idle(2)]) (use next_job_None[OF idle(3)] in \<open>simp_all add: doing_def\<close>)
  next
    case (begins job parts g1 published prompt g2)
    have s: "still g1 g2" by (rule start_job_still[OF begins(4)])
    have "same_team (g_team g) (g_team g2)" "g_at g2 = g_at g" "g_answers g2 = g_answers g" "g_stops g2 = g_stops g"
      using s begins(3) by (auto simp: still_def next_job_def split: option.splits list.splits)
    note facts = this
    have at: "at_hand h = at_hand g" "alive g \<longrightarrow> alive h" using begins_at_hand[OF begins(2,3) s, of parts prompt] unfolding begins(1) by blast+
    show ?thesis
      by (rule limits_keptI[OF assms(2)]) (use facts at in_hand_eq[OF at(1)] begins(1) in simp_all)
  next
    case (asks job parts prompt member turn g1)
    have s: "still g g1" using still_ask[OF asks(4)] by simp
    show ?thesis unfolding asks(1) by (rule limits_kept_move[OF assms(2) asks(2) s]) (simp_all add: doing_def)
  next
    case (turns job turn member turn' g1)
    have s: "still g g1" by (rule still_turn[OF turns(4) agent_in_team[OF roles turns(3)]])
    show ?thesis unfolding turns(1) by (rule limits_kept_move[OF assms(2) turns(2) s]) (simp_all add: doing_def)
  next
    case (ends job turn member result cost g1 member1 stopped g2 published)
    have s: "still g g1" by (rule still_turn[OF ends(4) agent_in_team[OF roles ends(3)]])
    have "(role, job) \<in> at_hand g" using ends(2) by (simp add: at_hand_def)
    then have "job_hop job \<le> l_max_hops (ts_limits spec)" using assms(2,3) by (auto simp: limits_kept_def jobs_ok_def)
    then show ?thesis unfolding ends(1) by (intro job_ends[OF assms(2) ends(2) s] end_job_closes[OF ends(6)]) simp_all
  next
    case (lost job turn member cause g1 published)
    have s: "still g g1" by (rule still_turn[OF lost(4) agent_in_team[OF roles lost(3)]])
    show ?thesis unfolding lost(1) by (rule job_ends[OF assms(2) lost(2) s lose_job_closes])
  next
    case (closes stopped)
    show ?thesis
    proof (cases stopped)
      case None
      have a: "adds (l_max_hops (ts_limits spec)) g (pull_user_wakes env inp spec g)" (is "adds _ _ ?k") by (rule adds_pull)
      have k: "limits_kept spec ?k" by (rule limits_kept_adds[OF assms(2) a])
      have t: "dget (g_tasks ?k) role = Some (MClosing stopped)" by (rule grows_task[OF _ closes(2)]) (use a in \<open>simp_all add: adds_def\<close>)
      have "limits_kept spec (put_task role MReady ?k)" by (rule limits_kept_move[OF k t]) (simp_all add: doing_def)
      then show ?thesis using closes(1) None by (simp add: job_over_def)
    next
      case (Some s)
      have h: "h = put_task role MDone (g\<lparr>g_stops := g_stops g @ [s], g_queues := dmap (\<lambda>_ _. []) (g_queues g)\<rparr>)" using closes(1) Some by (simp add: job_over_def)
      have empty: "queue_of h r = []" for r by (cases "dget (g_queues g) r") (simp_all add: h)
      then have "at_hand h \<subseteq> at_hand g" unfolding at_hand_alt by (auto simp: h put_task_def doing_def dict_simps split: if_splits)
      moreover have "alive h" using empty by (simp add: alive_def)
      ultimately
      show ?thesis by (intro limits_keptI[OF assms(2)]) (auto simp: h)
    qed
  qed
qed

section \<open>The rounds\<close>

text \<open>What the coroutine does outside the turns keeps the team and the number of the round.\<close>

lemma still_stop: "same_team (g_team g) (g_team h) \<Longrightarrow> same_team (g_team g) (g_team (raise_stop env inp o' b s h))"
  by (auto simp: raise_stop_def flush_team_def team_emit_def same_team_def roles_ok_def)

lemma still_end: "same_team (g_team g) (g_team h) \<Longrightarrow> same_team (g_team g) (g_team (end_round env inp b oc n ov h))"
  by (auto simp: end_round_def flush_team_def team_emit_def same_team_def roles_ok_def)

lemma at_stop [simp]: "g_at (raise_stop env inp o' b s h) = GStopping s" "g_at (end_round env inp b oc n ov h) = GRoundEnd ov"
  by (simp_all add: raise_stop_def end_round_def)

lemma limits_kept_idle: "limits_kept spec g \<Longrightarrow> same_team (g_team g) (g_team h) \<Longrightarrow> \<not> working (g_at h) \<Longrightarrow> limits_kept spec h"
  by (auto simp: limits_kept_def same_team_def)

lemma limits_kept_start:
  assumes "roles_ok (g_team g)" "ru_round (g_team g) \<le> l_max_rounds (ts_limits spec)"
    and "\<forall>(r, j)\<in>set assigns. r \<in> member_roles (g_team g) \<and> job_hop j = 0"
    and "owed p \<subseteq> {c. \<exists>r t. (r, Assigned c t) \<in> set assigns} \<union> fst ` set answers"
  shows "limits_kept spec ((start_assignments env inp spec assigns answers g)\<lparr>g_at := p\<rparr>)"
proof -
  define g1 where "g1 = g\<lparr>g_round_usage := t_usage (g_self g), g_queues := [], g_tasks := [], g_stops := [], g_answers := answers\<rparr>"
  define g2 where "g2 = foldl (\<lambda>g (r, j). enqueue r j g) g1 assigns"
  have none: "at_hand g1 = {}" "alive g1" by (simp_all add: g1_def at_hand_def alive_def)
  then have g2: "grows g1 g2" "at_hand g2 = set assigns" "alive g2" using grows_jobs[of g1 assigns] by (simp_all add: g2_def)
  then have team: "same_team (g_team g) (g_team g2)" "g_answers g2 = answers" "g_at g2 = g_at g" by (simp_all add: grows_def g1_def)
  define k where "k = pull_user_wakes env inp spec g2"
  have a: "adds (l_max_hops (ts_limits spec)) g2 k" unfolding k_def by (rule adds_pull)
  have same: "at_hand (k\<lparr>g_at := p\<rparr>) = at_hand k" "alive (k\<lparr>g_at := p\<rparr>) = alive k" by (simp_all add: at_hand_def alive_def)
  have roles: "roles_ok (g_team g2)" "member_roles (g_team g2) = member_roles (g_team g)" "ru_round (g_team g2) = ru_round (g_team g)"
    using team(1) assms(1) by (simp_all add: same_team_def)
  have k: "roles_ok (g_team k)" "member_roles (g_team k) = member_roles (g_team g)" "ru_round (g_team k) = ru_round (g_team g)" "g_answers k = answers"
    "set assigns \<subseteq> at_hand k" "at_hand k \<subseteq> set assigns \<union> wake_jobs (l_max_hops (ts_limits spec)) (member_roles (g_team g))" "alive k"
    using a roles team g2(2,3) by (simp_all add: adds_def grows_def same_team_def)
  have "jobs_ok (l_max_hops (ts_limits spec)) (member_roles (g_team g)) (set assigns)" using assms(3) by (auto simp: jobs_ok_def)
  then have "jobs_ok (l_max_hops (ts_limits spec)) (member_roles (g_team g)) (at_hand k)" using k(6) by (rule jobs_ok_more)
  moreover have "owed p \<subseteq> in_hand (k\<lparr>g_at := p\<rparr>) \<union> fst ` set answers" using assms(4) k(5) same(1) unfolding in_hand_def by blast
  moreover have "start_assignments env inp spec assigns answers g = k" by (simp add: start_assignments_def k_def g2_def g1_def)
  ultimately show ?thesis using k assms(2) same by (simp add: limits_kept_def)
qed

lemma notes_team: "team_notes env inp spec role result hop g = (ns, h) \<Longrightarrow> still g h"
  using still_notes unfolding team_notes_def by (metis snd_conv)

lemma limits_kept_open: "limits_kept spec g \<Longrightarrow> limits_kept spec (open_round env inp spec b g)"
proof -
  assume kept: "limits_kept spec g"
  show ?thesis
  proof (cases "ru_round (g_team g) < l_max_rounds (ts_limits spec) \<and> budget_gone env inp g = []")
    case True
    define g2 where "g2 = team_emit env ''team.round_started''
      (stage_round_facts inp (g\<lparr>g_team := (g_team g)\<lparr>ru_round := ru_round (g_team g) + 1\<rparr>, g_before := t_usage (g_self g)\<rparr>) @ [(''max_rounds'', JInt (int (l_max_rounds (ts_limits spec))))]
        @ team_start_facts env spec (g\<lparr>g_team := (g_team g)\<lparr>ru_round := ru_round (g_team g) + 1\<rparr>, g_before := t_usage (g_self g)\<rparr>))
      (g\<lparr>g_team := (g_team g)\<lparr>ru_round := ru_round (g_team g) + 1\<rparr>, g_before := t_usage (g_self g)\<rparr>)"
    have "roles_ok (g_team g2)" "ru_round (g_team g2) \<le> l_max_rounds (ts_limits spec)"
      using kept True by (simp_all add: g2_def team_emit_def limits_kept_def roles_ok_def)
    then have "limits_kept spec ((start_assignments env inp spec [] [] g2)\<lparr>g_at := GWakes\<rparr>)"
      by (rule limits_kept_start) (simp_all add: owed_def)
    then show ?thesis using True by (simp add: open_round_def Let_def g2_def)
  next
    case False
    then show ?thesis by (intro limits_kept_idle[OF kept]) (auto simp: open_round_def Let_def working_def intro: still_stop)
  qed
qed

lemma limits_kept_calls: "limits_kept spec g \<Longrightarrow> limits_kept spec (run_calls env ln repr inp spec b calls g)"
proof -
  assume kept: "limits_kept spec g"
  define assigns where "assigns = filter (\<lambda>c. xc_tool_name c = ASSIGN) calls"
  define valid where "valid = filter (known_member ln g) assigns"
  define answers where "answers = foldl (\<lambda>d (k, a). dset k a d) [] (map (unknown_answer ln repr g) (filter (\<lambda>c. \<not> known_member ln g c) assigns))"
  define jobs where "jobs = map (\<lambda>c. (arg_str ln c ''member'', Assigned (xc_call_id c) (arg_str ln c ''task''))) valid"
  have "fst ` set (foldl (\<lambda>d (k, a). dset k a d) d ps) = fst ` set d \<union> fst ` set ps" for d and ps :: "(string \<times> team_answer) list"
    by (induction ps arbitrary: d) (simp_all add: split_def keys_dset_set)
  then have keys: "fst ` set answers = xc_call_id ` {c \<in> set assigns. \<not> known_member ln g c}" by (auto simp: answers_def unknown_answer_def image_iff)
  have start: "limits_kept spec ((start_assignments env inp spec jobs answers g)\<lparr>g_at := GWork calls asks (length valid)\<rparr>)" for asks
  proof (rule limits_kept_start)
    show "\<forall>(r, j)\<in>set jobs. r \<in> member_roles (g_team g) \<and> job_hop j = 0" by (auto simp: jobs_def valid_def known_member_def)
    have "\<exists>r t. (r, Assigned (xc_call_id c) t) \<in> set jobs" if "c \<in> set assigns" "known_member ln g c" for c
      using that by (auto simp: jobs_def valid_def image_iff)
    then show "owed (GWork calls asks (length valid)) \<subseteq> {c. \<exists>r t. (r, Assigned c t) \<in> set jobs} \<union> fst ` set answers"
      unfolding keys by (auto simp: owed_def assigns_def)
  qed (use kept in \<open>simp_all add: limits_kept_def\<close>)
  have either: "limits_kept spec x \<Longrightarrow> limits_kept spec y \<Longrightarrow> limits_kept spec (if c then x else y)" for x y c by simp
  have stop: "limits_kept spec (raise_stop env inp True b s g)" for s
    by (rule limits_kept_idle[OF kept still_stop]) (simp_all add: working_def)
  show ?thesis unfolding run_calls_def Let_def assigns_def[symmetric] valid_def[symmetric] answers_def[symmetric] jobs_def[symmetric]
    by (rule either[OF stop either[OF stop start]])
qed

lemma limits_kept_done: "limits_kept spec g \<Longrightarrow> limits_kept spec (work_done env ln inp spec b calls asks n g)"
  by (rule limits_kept_idle) (auto simp: work_done_def Let_def working_def intro!: still_stop still_end)

lemma limits_kept_leader: "limits_kept spec g \<Longrightarrow> limits_kept spec (leader_ended env ln repr inp spec b d result g)"
proof -
  assume kept: "limits_kept spec g"
  define g1 where "g1 = g\<lparr>g_self := (consume env (case tr_status result of None \<Rightarrow> [] | Some s \<Rightarrow> s) d (g_self g))\<lparr>t_in_flight := 0\<rparr>\<rparr>"
  obtain ns g2 where ns: "team_notes env inp spec (pt_role (ru_leader (g_team g))) result 0 g1 = (ns, g2)" by force
  have "still g g1" by (simp add: g1_def still_def)
  then have g2: "still g g2" using notes_team[OF ns] still_trans by blast
  have m: "still g (stage_message env inp spec k x y z n e g2)" for k x y z n e using g2 by simp
  have kept2: "limits_kept spec g2" by (rule limits_kept_still[OF kept g2])
  have ended: "limits_kept spec (end_round env inp b oc n ov h)" if "still g h" for h oc n ov
    by (rule limits_kept_idle[OF kept still_end]) (use that in \<open>simp_all add: still_def working_def\<close>)
  show ?thesis unfolding leader_ended_def Let_def g1_def[symmetric] ns using ended[OF g2] ended[OF m] limits_kept_calls[OF kept2] by simp
qed

lemma start_leader_same:
  assumes "start_leader env ln inp spec g = Some h"
  shows "same_team (g_team g) (g_team h) \<and> \<not> working (g_at h)"
proof -
  let ?t = "(g_team g)\<lparr>ru_pending_results := None\<rparr>"
  have "same_team (g_team g) t'" if "unread wd ns role ?t = Some (m, t')" for wd ns role m t'
    by (rule same_team_trans[OF _ same_team_unread[OF that]]) simp
  then show ?thesis using assms
    by (auto simp: start_leader_def Let_def ask_agent_def working_def split: option.splits if_splits)
qed

lemma limits_kept_step:
  assumes "stage_step env ln repr inp spec g h" "limits_kept spec g"
  shows "limits_kept spec h"
  using assms(1)
proof cases
  case (opened published)
  then show ?thesis using limits_kept_open[OF assms(2)] by simp
next
  case (member role)
  then show ?thesis using limits_kept_member[OF _ assms(2)] by blast
next
  case watched
  then show ?thesis using limits_kept_adds[OF assms(2) adds_pull] by simp
next
  case (leader delivered turn turn' g1)
  have "participant_of (g_team g) (pt_role (ru_leader (g_team g))) = Some (ru_leader (g_team g))" by (simp add: participant_of_def)
  from still_turn[OF leader(3) this] show ?thesis unfolding leader(1) by (intro limits_kept_idle[OF assms(2)]) (simp_all add: still_def working_def)
next
  case (leader_ends delivered turn result used g1 published)
  have "participant_of (g_team g) (pt_role (ru_leader (g_team g))) = Some (ru_leader (g_team g))" by (simp add: participant_of_def)
  from still_turn[OF leader_ends(3) this] show ?thesis unfolding leader_ends(1) by (intro limits_kept_leader limits_kept_still[OF assms(2)])
next
  case (leader_lost delivered turn cause g1)
  have "participant_of (g_team g) (pt_role (ru_leader (g_team g))) = Some (ru_leader (g_team g))" by (simp add: participant_of_def)
  from still_turn[OF leader_lost(3) this] show ?thesis unfolding leader_lost(1)
    by (intro limits_kept_idle[OF assms(2)]) (simp_all add: still_def working_def stage_report_def)
next
  case (led)
  then show ?thesis using start_leader_same limits_kept_idle[OF assms(2)] by blast
next
  case (worked calls asks n published)
  then show ?thesis using limits_kept_done[OF assms(2)] by simp
next
  case (answered calls call asks n published)
  define k where "k = (snd (take_answer g))\<lparr>g_answers := dset (xc_call_id call) (answer_of_call (xc_call_id call) ASK (fst (take_answer g)) ''success'') (g_answers (snd (take_answer g)))\<rparr>"
  have "limits_kept spec k" by (rule limits_kept_idle[OF assms(2)]) (use answered(2) in \<open>simp_all add: k_def take_answer_def working_def Let_def\<close>)
  then show ?thesis using limits_kept_done unfolding answered(1) by (simp add: leader_answered_def k_def split_def Let_def)
next
  case (stopped s rest published)
  then show ?thesis by (auto intro!: limits_kept_idle[OF assms(2)] still_stop simp: working_def)
next
  case (decided signal)
  then show ?thesis by (auto intro: limits_kept_still[OF assms(2)] simp: still_def)
next
  case (delivered messages)
  then show ?thesis by (auto intro: limits_kept_still[OF assms(2)] simp: still_def)
qed (auto intro!: limits_kept_idle[OF assms(2)] simp: working_def flush_team_def stage_report_def)

lemma reachable_kept: "stage_reachable env ln repr inp spec g0 g \<Longrightarrow> limits_kept spec g0 \<Longrightarrow> limits_kept spec g"
  by (induction rule: stage_reachable.induct) (auto intro: limits_kept_step)

lemma new_kept:
  assumes "carried = None \<or> carried = Some (team_to_json t) \<and> roles_ok t \<and> ru_round t \<le> l_max_rounds (ts_limits spec)"
  shows "limits_kept spec (new_stage inp spec self carried)"
proof -
  have members: "(\<forall>(k, p)\<in>set (foldl (add_member a) d ms). pt_role p = k \<and> k \<noteq> l)"
    if "\<forall>(k, p)\<in>set d. pt_role p = k \<and> k \<noteq> l" "\<forall>m\<in>set ms. m_role m \<noteq> l" for a d ms and l :: string
    using that
  proof (induction ms arbitrary: d)
    case (Cons m ms)
    have "\<forall>(k, p)\<in>set (add_member a d m). pt_role p = k \<and> k \<noteq> l"
      using Cons.prems dset_subset[of "m_role m" _ d] by (fastforce simp: add_member_def new_participant_def)
    then show ?case using Cons by simp
  qed simp
  have "roles_ok (start_team a spec e)" for a e
    using members[of "[]" "ts_leader spec" "filter (\<lambda>m. m_role m \<noteq> ts_leader spec) (ts_members spec)" a]
    by (simp add: roles_ok_def start_team_def new_participant_def)
  moreover have "roles_ok (team_from_json (team_to_json t))" if "roles_ok t"
    using that by (auto simp: roles_ok_def team_from_json_def team_to_json_def dmap_dmap participant_roundtrip dmap_def unparked_def)
  ultimately show ?thesis using assms
    by (auto simp: limits_kept_def new_stage_def working_def start_team_def[of _ spec] team_from_json_def team_to_json_def)
qed

section \<open>The properties\<close>

definition demo_lang :: lang where
  "demo_lang = wording.extend demo_wording \<lparr>ln_loads = (\<lambda>_. None), ln_str = (\<lambda>_. []), ln_brackets = (''('', '')'')\<rparr>"

text \<open>
  C24. Every assignment of the leader is answered before its next turn. When the turns of a round are over and none of them ended the
  stage, each \<open>team_assign\<close> call the leader's turn ended with has its answer, whichever way the member's turn went, and whatever other
  work the turns made on the way.
\<close>

theorem assignments_answered:
  assumes "stage_reachable env ln repr inp spec (new_stage inp spec self None) g" "g_at g = GWork calls asks n" "all_done g" "g_stops g = []"
    and "call \<in> set calls" "xc_tool_name call = ASSIGN"
  shows "\<exists>answer. dget (g_answers g) (xc_call_id call) = Some answer"
proof -
  have kept: "limits_kept spec g" by (rule reachable_kept[OF assms(1) new_kept]) simp
  have over: "dget (g_tasks g) r = Some MDone" if "dget (g_tasks g) r = Some p" for r p
    using assms(3) map_of_SomeD[OF that] that by (auto simp: all_done_def list_all_iff is_done_def)
  have "working (g_at g)" using assms(2) by (simp add: working_def)
  then have "alive g" "owed (g_at g) \<subseteq> in_hand g \<union> fst ` set (g_answers g)" using kept assms(4) by (simp_all add: limits_kept_def)
  moreover have "queue_of g r = []" for r using \<open>alive g\<close> over by (cases "dget (g_tasks g) r") (auto simp: alive_def)
  then have "in_hand g = {}" using over by (fastforce simp: in_hand_def at_hand_alt doing_def)
  ultimately have "xc_call_id call \<in> fst ` set (g_answers g)" using assms(2,5,6) by (auto simp: owed_def)
  then show ?thesis using has_key_dget[of "xc_call_id call" "g_answers g"] by auto
qed

text \<open>
  C35. The limits of a team stage hold: it never opens more rounds than it may, only members of the team are given work, and no chain of
  mentions is longer than it may be, over Continue-As-New as well.
\<close>

theorem stage_limits:
  assumes "stage_reachable env ln repr inp spec (new_stage inp spec self carried) g"
    and "carried = None \<or> carried = Some (team_to_json t) \<and> roles_ok t \<and> ru_round t \<le> l_max_rounds (ts_limits spec)"
  shows "roles_ok (g_team g) \<and> ru_round (g_team g) \<le> l_max_rounds (ts_limits spec)
    \<and> (working (g_at g) \<longrightarrow> jobs_ok (l_max_hops (ts_limits spec)) (member_roles (g_team g)) (at_hand g))"
  using reachable_kept[OF assms(1) new_kept[OF assms(2)]] by (simp add: limits_kept_def)

theorem stage_limits_witness:
  "roles_ok (start_team [] demo_spec []) \<and> 0 \<le> l_max_rounds (ts_limits demo_spec)
   \<and> ru_round (g_team (new_stage demo_att_input demo_spec init_att (Some (team_to_json (start_team [] demo_spec []))))) = 0"
proof -
  have "roles_ok (start_team [] demo_spec [])" by (simp add: roles_ok_def start_team_def demo_spec_def add_member_def new_participant_def)
  moreover have "ru_round (start_team [] demo_spec []) = 0" by (simp add: start_team_def)
  moreover note stage_limits[OF stage_reachable.start, of "Some (team_to_json (start_team [] demo_spec []))" "start_team [] demo_spec []" demo_spec demo_att_input init_att]
  ultimately show ?thesis by (simp add: new_stage_def team_from_json_def team_to_json_def)
qed

text \<open>From the wakes before it to the end of the leader's activity: what both examples below start with.\<close>

definition leader_start :: "env \<Rightarrow> att_input \<Rightarrow> team_stage_spec \<Rightarrow> stage \<Rightarrow> stage \<times> agent_turn" where
  "leader_start env inp spec g =
     (let delivered = t_messages (g_self g); turn = \<lparr>tu_goal = ai_goal inp, tu_messages = delivered, tu_parts = 1, tu_spent = no_usage, tu_at = TuRun\<rparr>;
          g0 = g\<lparr>g_team := (g_team g)\<lparr>ru_pending_results := None\<rparr>,
            g_self := (g_self g)\<lparr>t_in_flight := length delivered, t_heard := t_heard (g_self g) \<union> im_message_seq ` set delivered\<rparr>\<rparr> in
      (g0\<lparr>g_calls := g_calls g0 @ [stage_payload env inp spec (ru_leader (g_team g0)) turn None None g0], g_at := GLeader delivered turn\<rparr>, turn))"

lemma leader_returns:
  assumes "g_at g = GWakes" "all_done g" "g_stops g = []" "ru_pending_results (g_team g) = None" "leader_start env inp spec g = (g1, turn)"
  obtains g2 turn2 where "stage_reachable env ln repr inp spec g g2" "g_at g2 = GLeader (t_messages (g_self g)) turn2" "tu_at turn2 = TuCommit result"
    "g_calls g2 = g_calls g1" "g_team g2 = (g_team g)\<lparr>ru_pending_results := None\<rparr>" "t_messages (g_self g2) = t_messages (g_self g)"
proof -
  have g1: "g_at g1 = GLeader (t_messages (g_self g)) turn" "tu_at turn = TuRun" "g_team g1 = (g_team g)\<lparr>ru_pending_results := None\<rparr>"
      "t_messages (g_self g1) = t_messages (g_self g)" "start_leader env ln inp spec g = Some g1"
    using assms(4,5) by (auto simp: leader_start_def start_leader_def ask_agent_def Let_def)
  obtain turn2 g2 where r: "agent_returned env result turn g1 = (turn2, g2)" by force
  have reach: "stage_reachable env ln repr inp spec g (g2\<lparr>g_at := GLeader (t_messages (g_self g)) turn2\<rparr>)"
    by (rule stage_reachable.step[OF stage_reachable.step[OF stage_reachable.start stage_step.led[OF assms(1-3) g1(5)]]
          stage_step.leader[OF g1(1) turn_step.returned[OF g1(2) r]]])
  have "tu_at turn2 = TuCommit result" "g_calls g2 = g_calls g1" "g_team g2 = g_team g1" "t_messages (g_self g2) = t_messages (g_self g1)"
    using r by (auto simp: agent_returned_def count_usage_def split: option.splits)
  then show thesis using that[OF reach] g1 by simp
qed

lemma leader_participant: "participant_of t (pt_role (ru_leader t)) = Some (ru_leader t)"
  by (simp add: participant_of_def)

text \<open>
  A question of the leader is answered by the messages its turn began with. They stay in the queue until the turn is over, and the wait for
  an answer takes whatever is in the queue: without any message from the user the leader is handed back, as the user's answer, the
  messages it was started with, and they are gone.
\<close>

theorem leader_answers_itself:
  assumes "g_at g = GWakes" "all_done g" "g_stops g = []" "ru_pending_results (g_team g) = None" "t_messages (g_self g) \<noteq> []"
    and "list_all (\<lambda>c. xc_tool_name c = ASK) (calls :: ext_call list)"
  shows "\<exists>h. stage_reachable env ln repr inp spec g h \<and> t_messages (g_self h) = []
    \<and> sc_messages (g_calls h ! length (g_calls g)) = t_messages (g_self g)
    \<and> sc_results (last (g_calls h)) = Some (map (\<lambda>c. answer_of_call (xc_call_id c) ASK (join [NL] (map im_text (t_messages (g_self g)))) ''success'') calls)"
proof -
  define result where "result = turn_result.extend (no_result\<lparr>tr_status := Some ''team_external''\<rparr>)
    \<lparr>sr_text = [], sr_notes = [], sr_note_mentions = [], sr_externals = calls, sr_files = []\<rparr>"
  have res: "tr_status result = Some ''team_external''" "sr_externals result = calls" by (simp_all add: result_def turn_result.defs no_result_def)
  obtain g1 turn where start: "leader_start env inp spec g = (g1, turn)" by force
  obtain g2 turn2 where g2: "stage_reachable env ln repr inp spec g g2" "g_at g2 = GLeader (t_messages (g_self g)) turn2" "tu_at turn2 = TuCommit result"
      "g_calls g2 = g_calls g1" "t_messages (g_self g2) = t_messages (g_self g)"
    using leader_returns[OF assms(1-4) start, of ln repr result] by metis
  have all: "filter (\<lambda>c. xc_tool_name c = ASK) calls = calls" using assms(6) by (simp add: list_all_iff filter_id_conv)
  obtain g3 where c: "agent_committed (ru_leader (g_team g2)) result turn2 g2 = (Goes (turn2\<lparr>tu_at := TuAsking calls\<rparr>), g3)"
      and g3: "g_calls g3 = g_calls g2" "g_self g3 = g_self g2"
    by (simp add: agent_committed_def res all Let_def)
  let ?d = "t_messages (g_self g)"
  let ?g3 = "g3\<lparr>g_at := GLeader ?d (turn2\<lparr>tu_at := TuAsking calls\<rparr>)\<rparr>"
  let ?g4 = "(?g3\<lparr>g_parked := g_parked ?g3 @ [ask_signal ln inp (ru_leader (g_team ?g3)) calls]\<rparr>)\<lparr>g_at := GLeader ?d (turn2\<lparr>tu_at := TuAsked calls\<rparr>)\<rparr>"
  obtain turn5 g5 where a: "agent_answered env inp spec (ru_leader (g_team ?g4)) calls (turn2\<lparr>tu_at := TuAsked calls\<rparr>) ?g4 = (turn5, g5)" by force
  have "stage_reachable env ln repr inp spec g ?g3" by (rule stage_reachable.step[OF g2(1) stage_step.leader[OF g2(2) turn_step.committed[OF g2(3) c]]])
  then have "stage_reachable env ln repr inp spec g ?g4"
    by (rule stage_reachable.step[OF _ stage_step.leader[OF _ turn_step.asked[of "turn2\<lparr>tu_at := TuAsking calls\<rparr>", simplified]]]) simp_all
  then have "stage_reachable env ln repr inp spec g (g5\<lparr>g_at := GLeader ?d turn5\<rparr>)"
    by (rule stage_reachable.step[OF _ stage_step.leader[OF _ turn_step.answered[OF _ _ a]]]) (simp_all add: g3 g2(5) assms(5))
  moreover have "t_messages (g_self g5) = []" "\<exists>call. g_calls g5 = g_calls g1 @ [call]
      \<and> sc_results call = Some (map (\<lambda>c. answer_of_call (xc_call_id c) ASK (join [NL] (map im_text ?d)) ''success'') calls)"
    using a by (auto simp: agent_answered_def take_answer_def ask_agent_def stage_payload_def Let_def g3 g2(4,5))
  moreover have "g_calls g1 ! length (g_calls g) = last (g_calls g1)" "length (g_calls g) < length (g_calls g1)" "sc_messages (last (g_calls g1)) = ?d"
    using start by (auto simp: leader_start_def stage_payload_def Let_def nth_append)
  ultimately show ?thesis by (intro exI[of _ "g5\<lparr>g_at := GLeader ?d turn5\<rparr>"]) (auto simp: nth_append)
qed

theorem leader_answers_itself_witness:
  "\<exists>h. stage_reachable all_on demo_lang (\<lambda>s. s) demo_att_input demo_spec
       ((new_stage demo_att_input demo_spec (init_att\<lparr>t_messages := [demo_inbox]\<rparr>) None)\<lparr>g_at := GWakes\<rparr>) h
     \<and> t_messages (g_self h) = [] \<and> sc_messages (g_calls h ! 0) = [demo_inbox]
     \<and> sc_results (last (g_calls h)) = Some [answer_of_call ''q'' ASK ''hi'' ''success'']"
proof -
  let ?g = "(new_stage demo_att_input demo_spec (init_att\<lparr>t_messages := [demo_inbox]\<rparr>) None)\<lparr>g_at := GWakes\<rparr>"
  have "g_at ?g = GWakes" "all_done ?g" "g_stops ?g = []" "ru_pending_results (g_team ?g) = None" "t_messages (g_self ?g) \<noteq> []"
    "list_all (\<lambda>c. xc_tool_name c = ASK) [\<lparr>xc_call_id = ''q'', xc_tool_name = ASK, xc_arguments = []\<rparr>]"
    by (simp_all add: all_done_def new_stage_def start_team_def)
  from leader_answers_itself[OF this, of all_on demo_lang "\<lambda>s. s" demo_att_input demo_spec]
  show ?thesis by (simp add: new_stage_def demo_inbox_def)
qed

theorem assignments_answered_witness:
  "\<exists>g calls. stage_reachable all_on demo_lang (\<lambda>s. s) demo_att_input demo_spec (new_stage demo_att_input demo_spec init_att None) g
     \<and> g_at g = GWork calls [] 0 \<and> length calls = 1 \<and> (\<exists>answer. dget (g_answers g) ''c1'' = Some answer)"
proof -
  let ?step = "stage_reachable all_on demo_lang (\<lambda>s. s) demo_att_input demo_spec (new_stage demo_att_input demo_spec init_att None)"
  define call where "call = \<lparr>xc_call_id = ''c1'', xc_tool_name = ASSIGN, xc_arguments = [(''member'', JStr ''x'')]\<rparr>"
  define result where "result = turn_result.extend (no_result\<lparr>tr_status := Some ''team_external''\<rparr>)
    \<lparr>sr_text = [], sr_notes = [], sr_note_mentions = [], sr_externals = [call], sr_files = []\<rparr>"
  have res: "tr_status result = Some ''team_external''" "sr_externals result = [call]" "sr_notes result = []"
    by (simp_all add: result_def turn_result.defs no_result_def)
  define g where "g = open_round all_on demo_att_input demo_spec True (new_stage demo_att_input demo_spec init_att None)"
  have "budget_gone all_on demo_att_input (new_stage demo_att_input demo_spec init_att None) = []"
    by (simp add: budget_gone_def demo_att_input_def new_stage_def init_att_def no_usage_def no_budget_def after_def spent_def)
  then have g: "g_at g = GWakes" "all_done g" "g_stops g = []" "ru_pending_results (g_team g) = None" "t_messages (g_self g) = []"
      "ru_members (g_team g) = ru_members (start_team ''att_1'' demo_spec ''p@1'')" "ru_round (g_team g) = 1" "ru_messages_used (g_team g) = 0"
    by (simp_all add: g_def open_round_def new_stage_def start_team_def demo_spec_def default_limits_def start_assignments_def pull_user_wakes_def
        team_emit_def init_att_def all_done_def Let_def demo_att_input_def)
  have reach: "?step g" unfolding g_def by (rule stage_reachable.step[OF stage_reachable.start stage_step.opened]) (simp add: new_stage_def)
  obtain g1 turn where start: "leader_start all_on demo_att_input demo_spec g = (g1, turn)" by force
  obtain g2 turn2 where g2: "stage_reachable all_on demo_lang (\<lambda>s. s) demo_att_input demo_spec g g2" "g_at g2 = GLeader [] turn2" "tu_at turn2 = TuCommit result"
      "g_team g2 = (g_team g)\<lparr>ru_pending_results := None\<rparr>" "t_messages (g_self g2) = []"
    using leader_returns[OF g(1-4) start, of demo_lang "\<lambda>s. s" result] unfolding g(5) by metis
  have reach2: "?step g2" using g2(1) reach by (induction rule: stage_reachable.induct) (auto intro: stage_reachable.step)
  obtain g3 where c: "agent_committed (ru_leader (g_team g2)) result turn2 g2 = (Ends result (tu_spent turn2), g3)"
      and g3: "ru_members (g_team g3) = ru_members (g_team g2)" "ru_round (g_team g3) = ru_round (g_team g2)" "ru_messages_used (g_team g3) = ru_messages_used (g_team g2)"
        "t_messages (g_self g3) = []"
    using g2(5) by (simp add: agent_committed_def res call_def ASSIGN_def ASK_def put_participant_def Let_def)
  define h where "h = leader_ended all_on demo_lang (\<lambda>s. s) demo_att_input demo_spec True [] result g3"
  have "?step h" unfolding h_def by (rule stage_reachable.step[OF reach2 stage_step.leader_ends[OF g2(2) turn_step.committed[OF g2(3) c]]])
  moreover have "\<not> has_key (ru_members (g_team g)) ''x''" unfolding g(6) by (simp add: start_team_def demo_spec_def add_member_def)
  then have h: "g_at h = GWork [call] [] 0" "all_done h" "g_stops h = []"
    using g g2(4) g3 by (simp_all add: h_def leader_ended_def team_notes_def res run_calls_def call_def known_member_def arg_str_def ASSIGN_def ASK_def
        demo_spec_def default_limits_def start_assignments_def pull_user_wakes_def consume_def turn_state_def all_done_def Let_def)
  moreover have "\<exists>answer. dget (g_answers h) (xc_call_id call) = Some answer"
    by (rule assignments_answered[OF calculation(1) h]) (simp_all add: call_def)
  ultimately show ?thesis by (intro exI[of _ h] exI[of _ "[call]"]) (simp add: call_def)
qed

end
