(* ===== verification/Shell_Lexer.thy ===== *)
theory Shell_Lexer
  imports Workflow_Common
begin

text \<open>
  How the worker reads the text of a Bash command: the class \<open>_Lexer\<close> of \<open>command_risk.py\<close> and the functions it
  calls. The source walks an index over the text; here every reader takes what is left of the text and returns what is
  left after it, so \<open>text[i:end]\<close> is the part between two remainders. \<open>_Lexer\<close>'s fields are a record, and its
  methods are functions from that record to that record.

  A command that owns a here-document is shared in the source: the list of pending here-documents holds a reference to
  it, and reading the body adds substitutions to it after it was put on the list of commands, or was dropped because
  nothing else had been read for it. The reference is the datatype \<open>owner\<close>.

  Characters are code points below 256. The one place where the lexer makes a larger one, an octal escape above
  \<open>\377\<close> in \<open>$'...'\<close>, gives the character 255 instead: both are letters that no table of the classifier names.
\<close>

section \<open>Characters\<close>

abbreviation newline :: char where "newline \<equiv> CHR 0x0A"
abbreviation tab :: char where "tab \<equiv> CHR 0x09"
abbreviation squote :: char where "squote \<equiv> CHR 0x27"
abbreviation dquote :: char where "dquote \<equiv> CHR 0x22"
abbreviation backslash :: char where "backslash \<equiv> CHR 0x5C"
abbreviation backquote :: char where "backquote \<equiv> CHR 0x60"

definition is_digit :: "char \<Rightarrow> bool" where
  "is_digit c \<longleftrightarrow> (let n = of_char c :: nat in 48 \<le> n \<and> n \<le> 57)"

definition is_letter :: "char \<Rightarrow> bool" where
  "is_letter c \<longleftrightarrow> (let n = of_char c :: nat in 65 \<le> n \<and> n \<le> 90 \<or> 97 \<le> n \<and> n \<le> 122)"

text \<open>\<open>str.isdigit\<close> also accepts the superscripts two, three and one.\<close>

definition py_isdigit :: "string \<Rightarrow> bool" where
  "py_isdigit s \<longleftrightarrow> s \<noteq> [] \<and> (\<forall>c\<in>set s. is_digit c \<or> (of_char c :: nat) \<in> {178, 179, 185})"

text \<open>A name of the shell, \<open>[A-Za-z_][A-Za-z0-9_]*\<close>, at the front of a text: the name, or nothing.\<close>

definition name_char :: "char \<Rightarrow> bool" where
  "name_char c \<longleftrightarrow> is_letter c \<or> is_digit c \<or> c = CHR ''_''"

definition leading_name :: "string \<Rightarrow> string" where
  "leading_name s = (case s of [] \<Rightarrow> [] | c # r \<Rightarrow> if is_letter c \<or> c = CHR ''_'' then c # takeWhile name_char r else [])"

text \<open>What is left of a text from the first \<open>q\<close> on, \<open>text.find(q, i)\<close>.\<close>

abbreviation from_char :: "char \<Rightarrow> string \<Rightarrow> string" where
  "from_char q \<equiv> dropWhile (\<lambda>c. c \<noteq> q)"

abbreviation upto_char :: "char \<Rightarrow> string \<Rightarrow> string" where
  "upto_char q \<equiv> takeWhile (\<lambda>c. c \<noteq> q)"

text \<open>\<open>text[i:end]\<close>, where \<open>rest\<close> is \<open>text[end:]\<close>.\<close>

definition before :: "string \<Rightarrow> string \<Rightarrow> string" where
  "before s rest = take (length s - length rest) s"

section \<open>Commands and the state of the lexer\<close>

record shell_cmd =
  sc_words :: "string list"
  sc_redirects :: "(string \<times> string) list"
  sc_subs :: "string list"
  sc_piped_in :: bool

definition new_cmd :: "bool \<Rightarrow> shell_cmd" where
  "new_cmd piped = \<lparr>sc_words = [], sc_redirects = [], sc_subs = [], sc_piped_in = piped\<rparr>"

datatype owner = Current | Pushed nat | Dropped

record lexer =
  lx_cmds :: "shell_cmd list"
  lx_cur :: shell_cmd
  lx_word :: "string list"
  lx_in_word :: bool
  lx_quoted :: bool
  lx_redirect :: "string option"
  lx_heredocs :: "(string \<times> bool \<times> bool \<times> owner) list"

definition new_lexer :: lexer where
  "new_lexer = \<lparr>lx_cmds = [], lx_cur = new_cmd False, lx_word = [], lx_in_word = False, lx_quoted = False,
     lx_redirect = None, lx_heredocs = []\<rparr>"

definition end_word :: "lexer \<Rightarrow> lexer" where
  "end_word st =
    (if \<not> lx_in_word st then st
     else let w = concat (lx_word st);
              st' = st\<lparr>lx_word := [], lx_in_word := False, lx_quoted := False, lx_redirect := None\<rparr>
          in case lx_redirect st of
               None \<Rightarrow> st'\<lparr>lx_cur := (lx_cur st')\<lparr>sc_words := sc_words (lx_cur st') @ [w]\<rparr>\<rparr>
             | Some oper \<Rightarrow>
                 if oper \<in> {''<<'', ''<<-''}
                 then st'\<lparr>lx_heredocs := lx_heredocs st' @ [(w, lx_quoted st, oper = ''<<-'', Current)]\<rparr>
                 else if oper \<noteq> ''dup''
                 then st'\<lparr>lx_cur := (lx_cur st')\<lparr>sc_redirects := sc_redirects (lx_cur st') @ [(oper, w)]\<rparr>\<rparr>
                 else st')"

definition settle :: "owner \<Rightarrow> (string \<times> bool \<times> bool \<times> owner) list \<Rightarrow> (string \<times> bool \<times> bool \<times> owner) list" where
  "settle ow = map (\<lambda>(delim, quoted, dash, ow'). (delim, quoted, dash, if ow' = Current then ow else ow'))"

definition push_cmd :: "string \<Rightarrow> lexer \<Rightarrow> lexer" where
  "push_cmd oper st =
    (let cur = lx_cur st;
         st' = (if sc_words cur \<noteq> [] \<or> sc_redirects cur \<noteq> [] \<or> sc_subs cur \<noteq> []
                then st\<lparr>lx_heredocs := settle (Pushed (length (lx_cmds st))) (lx_heredocs st),
                        lx_cmds := lx_cmds st @ [cur]\<rparr>
                else st\<lparr>lx_heredocs := settle Dropped (lx_heredocs st)\<rparr>)
     in st'\<lparr>lx_cur := new_cmd (oper \<in> {''|'', ''|&''})\<rparr>)"

definition end_cmd :: "string \<Rightarrow> lexer \<Rightarrow> lexer" where
  "end_cmd oper st = push_cmd oper ((end_word st)\<lparr>lx_redirect := None\<rparr>)"

definition add_text :: "string \<Rightarrow> lexer \<Rightarrow> lexer" where
  "add_text s st = st\<lparr>lx_word := lx_word st @ [s], lx_in_word := True\<rparr>"

definition add_subs :: "string list \<Rightarrow> lexer \<Rightarrow> lexer" where
  "add_subs subs st = st\<lparr>lx_cur := (lx_cur st)\<lparr>sc_subs := sc_subs (lx_cur st) @ subs\<rparr>\<rparr>"

definition set_quoted :: "lexer \<Rightarrow> lexer" where
  "set_quoted st = st\<lparr>lx_quoted := True\<rparr>"

section \<open>Finding the end of a quoted or bracketed part\<close>

text \<open>\<open>while end < n and text[end] != q: end += 2 if text[end] == "\\" else 1\<close>: what is left from the closing \<open>q\<close>.\<close>

function skip_to :: "char \<Rightarrow> string \<Rightarrow> string" where
  "skip_to q [] = []"
| "skip_to q (c # r) = (if c = q then c # r else if c = backslash then skip_to q (drop 1 r) else skip_to q r)"
  by pat_completeness auto
termination by (relation "measure (\<lambda>(q, s). length s)") auto

lemma length_skip_to: "length (skip_to q s) \<le> length s"
  by (induction q s rule: skip_to.induct) auto

lemma length_from_char: "length (from_char q s) \<le> length s"
  by (rule length_dropWhile_le)

lemma less_Suc_len [termination_simp]:
  "length (from_char q s) - Suc 0 < Suc (length s)"
  "length (skip_to q s) - Suc 0 < Suc (length s)"
  using length_from_char[of q s] length_skip_to[of q s] by linarith+

text \<open>\<open>_balanced\<close>: what is left from the \<open>)\<close> that closes the bracket, \<open>depth\<close> brackets being open.\<close>

function balanced :: "nat \<Rightarrow> string \<Rightarrow> string" where
  "balanced depth [] = []"
| "balanced depth (c # r) =
    (if c = backslash then balanced depth (drop 1 r)
     else if c = squote then balanced depth (drop 1 (from_char squote r))
     else if c = dquote then balanced depth (drop 1 (skip_to dquote r))
     else if c = CHR ''('' then balanced (depth + 1) r
     else if c = CHR '')'' then (if depth - 1 = 0 then c # r else balanced (depth - 1) r)
     else balanced depth r)"
  by pat_completeness auto
termination
  by (relation "measure (\<lambda>(d, s). length s)") (simp_all add: less_Suc_len)

lemma if_len_le: "(b \<Longrightarrow> length x \<le> n) \<Longrightarrow> (\<not> b \<Longrightarrow> length y \<le> n) \<Longrightarrow> length (if b then x else y) \<le> n"
  by simp

lemma le_length_Cons: "n \<le> length r \<Longrightarrow> n \<le> length (c # r)"
  by simp

lemma length_balanced: "length (balanced d s) \<le> length s"
proof (induction d s rule: balanced.induct)
  case (2 depth c r)
  have le: "length (drop 1 r) \<le> length r" "length (drop 1 (from_char squote r)) \<le> length r"
    "length (drop 1 (skip_to dquote r)) \<le> length r"
    using less_Suc_len[of squote r] less_Suc_len[of dquote r] by simp_all
  note IH = "2.IH"(1)[THEN order_trans, OF _ le(1)] "2.IH"(2)[THEN order_trans, OF _ _ le(2)]
    "2.IH"(3)[THEN order_trans, OF _ _ _ le(3)]
  show ?case
    unfolding balanced.simps
    by (intro if_len_le; (rule order_refl | (rule le_length_Cons, rule IH "2.IH"(4,5,6); simp)))
qed simp

text \<open>\<open>_subs_in\<close>: the commands substituted in a text that is data otherwise.\<close>

function subs_in :: "string \<Rightarrow> string list" where
  "subs_in [] = []"
| "subs_in (c # r) =
    (if c = backslash then subs_in (drop 1 r)
     else if c = CHR ''$'' \<and> startswith r ''('' then
       (let rest = balanced 1 (drop 1 r) in before (drop 1 r) rest # subs_in (drop 1 rest))
     else if c = backquote then upto_char backquote r # subs_in (drop 1 (from_char backquote r))
     else subs_in r)"
  by pat_completeness auto
termination
proof (relation "measure length", goal_cases)
  case (3 c r x)
  then show ?case using length_balanced[of 1 "drop 1 r"] by simp
next
  case (4 c r)
  then show ?case using length_dropWhile_le[of "\<lambda>c. c \<noteq> backquote" r] by simp
qed auto

section \<open>ANSI-C quoting\<close>

definition ansi_simple :: "(char \<times> char) list" where
  "ansi_simple = [(CHR ''n'', newline), (CHR ''t'', tab), (CHR ''r'', CHR 0x0D), (backslash, backslash), (squote, squote),
     (dquote, dquote), (CHR ''a'', CHR 0x07), (CHR ''b'', CHR 0x08), (CHR ''e'', CHR 0x1B), (CHR ''f'', CHR 0x0C),
     (CHR ''v'', CHR 0x0B)]"

definition is_hexdigit :: "char \<Rightarrow> bool" where
  "is_hexdigit c \<longleftrightarrow> c \<in> set ''0123456789abcdefABCDEF''"

definition hexdigit_val :: "char \<Rightarrow> nat" where
  "hexdigit_val c = (let n = of_char c :: nat in if n \<le> 57 then n - 48 else if n \<le> 70 then n - 55 else n - 87)"

definition is_octdigit :: "char \<Rightarrow> bool" where
  "is_octdigit c \<longleftrightarrow> c \<in> set ''01234567''"

definition int_base :: "nat \<Rightarrow> string \<Rightarrow> nat" where
  "int_base b ds = foldl (\<lambda>n d. n * b + hexdigit_val d) 0 ds"

definition chr :: "nat \<Rightarrow> char" where
  "chr n = char_of (min n 255)"

function ansi_c :: "string \<Rightarrow> string" where
  "ansi_c [] = []"
| "ansi_c (c # r) =
    (if c \<noteq> backslash \<or> r = [] then c # ansi_c r
     else let nxt = hd r; r' = tl r in
       case map_of ansi_simple nxt of
         Some d \<Rightarrow> d # ansi_c r'
       | None \<Rightarrow>
           if nxt = CHR ''x'' \<and> takeWhile is_hexdigit (take 2 r') \<noteq> [] then
             (let digits = takeWhile is_hexdigit (take 2 r')
              in chr (int_base 16 digits) # ansi_c (drop (length digits) r'))
           else if is_octdigit nxt then
             (let digits = takeWhile is_octdigit (take 3 r)
              in chr (int_base 8 digits) # ansi_c (drop (length digits) r))
           else nxt # ansi_c r')"
  by pat_completeness auto
termination by (relation "measure length") auto

section \<open>Expansions\<close>

text \<open>\<open>backtick\<close>, from the character after the opening backquote.\<close>

definition backtick :: "lexer \<Rightarrow> string \<Rightarrow> lexer \<times> string" where
  "backtick st r =
    (let rest = skip_to backquote r
     in (add_text ''$()'' (add_subs [before r rest] st), drop 1 rest))"

text \<open>
  \<open>dollar\<close>, from the character after the dollar, except for \<open>$"..."\<close>, which is \<open>double_quoted\<close> again and stands there.
\<close>

definition dollar_plain :: "lexer \<Rightarrow> string \<Rightarrow> lexer \<times> string" where
  "dollar_plain st r =
    (if startswith r ''('' then
       (if startswith (drop 1 r) ''('' then (add_text ''$(())'' st, drop 1 (balanced 1 (drop 1 r)))
        else let rest = balanced 1 (drop 1 r)
             in (add_text ''$()'' (add_subs [before (drop 1 r) rest] st), drop 1 rest))
     else if startswith r ''{'' then
       (let inner = upto_char (CHR ''}'') (drop 1 r)
        in (add_text (''${'' @ inner @ ''}'') (add_subs (subs_in inner) st), drop 1 (from_char (CHR ''}'') (drop 1 r))))
     else if startswith r [squote] then
       (let rest = skip_to squote (drop 1 r)
        in (set_quoted (add_text (ansi_c (before (drop 1 r) rest)) st), drop 1 rest))
     else if leading_name r \<noteq> [] then
       (add_text (CHR ''$'' # leading_name r) st, drop (length (leading_name r)) r)
     else if r \<noteq> [] \<and> (is_digit (hd r) \<or> hd r \<in> set ''@*#?$!-'') then
       (add_text [CHR ''$'', hd r] st, tl r)
     else (add_text ''$'' st, r))"

lemma length_backtick: "length (snd (backtick st r)) \<le> length r"
  using length_skip_to[of backquote r] by (simp add: backtick_def Let_def)

lemma length_dollar_plain: "length (snd (dollar_plain st r)) \<le> length r"
proof -
  have "length (drop 1 (balanced 1 (drop 1 r))) \<le> length r"
    "length (drop 1 (skip_to squote (drop 1 r))) \<le> length r"
    "length (drop 1 (from_char (CHR ''}'') (drop 1 r))) \<le> length r"
    using length_balanced[of 1 "drop 1 r"] length_skip_to[of squote "drop 1 r"]
      length_from_char[of "CHR ''}''" "drop 1 r"]
    by (simp_all only: length_drop)
  moreover have "length (drop (length (leading_name r)) r) \<le> length r" by simp
  ultimately show ?thesis unfolding dollar_plain_def Let_def by (auto simp del: length_drop One_nat_def)
qed

text \<open>
  The loop of \<open>double_quoted\<close>. A backslash before a newline adds the two characters and takes them back
  (\<open>self.word.pop()\<close>), so only the fact that a word is being read is left of it.
\<close>

definition quoted_escape :: "char \<Rightarrow> lexer \<Rightarrow> lexer" where
  "quoted_escape nxt st =
    (let st' = add_text (if nxt \<in> set [dquote, backslash, CHR ''$'', backquote] then [nxt] else [backslash, nxt]) st
     in if nxt = newline then st'\<lparr>lx_word := butlast (lx_word st')\<rparr> else st')"

function quoted_loop :: "lexer \<Rightarrow> string \<Rightarrow> lexer \<times> string" where
  "quoted_loop st [] = (st, [])"
| "quoted_loop st (c # r) =
    (if c = dquote then (st, r)
     else if c = backslash \<and> r \<noteq> [] then
       quoted_loop (quoted_escape (hd r) st) (tl r)
     else if c = CHR ''$'' then
       (if startswith r [dquote]
        then (case quoted_loop ((set_quoted st)\<lparr>lx_in_word := True\<rparr>) (tl r) of (st', r') \<Rightarrow> quoted_loop st' r')
        else (case dollar_plain st r of (st', r') \<Rightarrow> quoted_loop st' r'))
     else if c = backquote then (case backtick st r of (st', r') \<Rightarrow> quoted_loop st' r')
     else quoted_loop (add_text [c] st) r)"
  by pat_completeness auto

lemma length_quoted_loop: "quoted_loop_dom (st, s) \<Longrightarrow> length (snd (quoted_loop st s)) \<le> length s"
proof (induction st s rule: quoted_loop.pinduct)
  case (2 st c r)
  note IH = "2.IH"
  have plain: "length r' \<le> length r" if "dollar_plain st r = (st', r')" for st' r'
    using length_dollar_plain[of st r] that by simp
  have tick_le: "length r' \<le> length r" if "backtick st r = (st', r')" for st' r'
    using length_backtick[of st r] that by simp
  consider (closing) "c = dquote" | (escape) "c = backslash" "r \<noteq> []" | (tick) "c = backquote"
    | (nested) "c = CHR ''$''" "startswith r [dquote]" | (dollar) "c = CHR ''$''" "\<not> startswith r [dquote]"
    | (other) "c \<noteq> dquote" "c \<noteq> backslash \<or> r = []" "c \<noteq> backquote" "c \<noteq> CHR ''$''" by blast
  then show ?case
  proof cases
    case escape
    show ?thesis using "2.hyps" IH(1) escape by (simp add: quoted_loop.psimps)
  next
    case nested
    let ?q = "quoted_loop ((set_quoted st)\<lparr>lx_in_word := True\<rparr>) (tl r)"
    have "length (snd ?q) \<le> length (tl r)" using IH(2) nested by simp
    moreover have "length (snd (quoted_loop (fst ?q) (snd ?q))) \<le> length (snd ?q)"
      by (rule IH(3)) (use nested in simp_all)
    ultimately show ?thesis using nested "2.hyps" by (simp add: quoted_loop.psimps case_prod_beta)
  next
    case dollar
    obtain st' r' where *: "dollar_plain st r = (st', r')" by (cases "dollar_plain st r")
    show ?thesis using "2.hyps" IH(4)[OF _ _ _ _ *[symmetric]] dollar plain[OF *] * by (simp add: quoted_loop.psimps)
  next
    case tick
    obtain st' r' where *: "backtick st r = (st', r')" by (cases "backtick st r")
    show ?thesis using "2.hyps" IH(5)[OF _ _ _ _ *[symmetric]] tick tick_le[OF *] * by (simp add: quoted_loop.psimps)
  next
    case other
    show ?thesis using "2.hyps" IH(6) other by (auto simp: quoted_loop.psimps)
  qed (use "2.hyps" in \<open>simp add: quoted_loop.psimps\<close>)
qed (simp add: quoted_loop.psimps)

lemma quoted_loop_total: "All quoted_loop_dom"
proof (relation "measure (\<lambda>(st, s). length s)", goal_cases)
  case 4
  then show ?case by (auto simp: case_prod_beta dest!: length_quoted_loop)
next
  case 5
  then show ?case using length_dollar_plain by (auto simp: case_prod_beta less_Suc_eq_le)
next
  case 6
  then show ?case using length_backtick by (auto simp: case_prod_beta less_Suc_eq_le)
qed auto

termination quoted_loop by (rule quoted_loop_total)

lemma length_quoted: "length (snd (quoted_loop st s)) \<le> length s"
  by (rule length_quoted_loop) (rule quoted_loop_total[THEN spec])

text \<open>\<open>double_quoted\<close>, from the character after the opening quote, and \<open>dollar\<close> with all its branches.\<close>

definition double_quoted :: "lexer \<Rightarrow> string \<Rightarrow> lexer \<times> string" where
  "double_quoted st r = quoted_loop (st\<lparr>lx_in_word := True\<rparr>) r"

definition dollar :: "lexer \<Rightarrow> string \<Rightarrow> lexer \<times> string" where
  "dollar st r = (if startswith r [dquote] then double_quoted (set_quoted st) (tl r) else dollar_plain st r)"

lemma length_double_quoted: "length (snd (double_quoted st r)) \<le> length r"
  by (simp add: double_quoted_def length_quoted)

lemma length_dollar: "length (snd (dollar st r)) \<le> length r"
  using length_double_quoted[of "set_quoted st" "tl r"] length_dollar_plain[of st r] by (auto simp: dollar_def)

lemma quoted_loop_dollar:
  "quoted_loop st (CHR ''$'' # r) = (case dollar st r of (st', r') \<Rightarrow> quoted_loop st' r')"
  by (simp add: dollar_def double_quoted_def)

section \<open>Operators, redirections and here-documents\<close>

text \<open>\<open>separator\<close> and \<open>redirection\<close> get the text from the operator on.\<close>

definition separator :: "lexer \<Rightarrow> string \<Rightarrow> lexer \<times> string" where
  "separator st s =
    (let two = take 2 s
     in if two \<in> {''&&'', ''||'', '';;'', ''|&''} then (end_cmd two st, drop 2 s)
        else (end_cmd (take 1 s) st, drop 1 s))"

definition redirect_operator :: "string \<Rightarrow> string \<times> string" where
  "redirect_operator s =
    (let oper = take 1 s; r = drop 1 s
     in if oper = ''>'' \<and> take 1 r = ''>'' then (''>>'', drop 1 r)
        else if oper = ''>'' \<and> take 1 r = ''|'' then (''>|'', drop 1 r)
        else if oper = ''<'' \<and> take 2 r = ''<<'' then (''<<<'', drop 2 r)
        else if oper = ''<'' \<and> take 1 r = ''<'' then
          (if take 1 (drop 1 r) = ''-'' then (''<<-'', drop 2 r) else (''<<'', drop 1 r))
        else (oper, r))"

definition redirection :: "lexer \<Rightarrow> string \<Rightarrow> lexer \<times> string" where
  "redirection st s =
    (let st1 = (if lx_in_word st \<and> py_isdigit (concat (lx_word st)) then st\<lparr>lx_word := [], lx_in_word := False\<rparr>
                else end_word st);
         (oper, r) = redirect_operator (if take 1 s = ''&'' then drop 1 s else s)
     in if take 1 r = ''&'' \<and> oper \<in> {''>'', ''>>'', ''<''} then (st1\<lparr>lx_redirect := Some ''dup''\<rparr>, drop 1 r)
        else if oper \<in> {''<'', ''<<<''} then (st1\<lparr>lx_redirect := Some ''dup''\<rparr>, r)
        else (st1\<lparr>lx_redirect := Some oper\<rparr>, r))"

text \<open>The lines of a here-document up to its delimiter, and what is left of the text after it.\<close>

function heredoc_body :: "bool \<Rightarrow> string \<Rightarrow> string \<Rightarrow> string list \<times> string" where
  "heredoc_body dash delim s =
    (if s = [] then ([], [])
     else let line = upto_char newline s; rest = drop 1 (from_char newline s)
          in if (if dash then dropWhile (\<lambda>c. c = tab) line else line) = delim then ([], rest)
             else (case heredoc_body dash delim rest of (body, rest') \<Rightarrow> (line # body, rest')))"
  by pat_completeness auto
termination
proof (relation "measure (\<lambda>(dash, delim, s). length s)", goal_cases)
  case (2 dash delim s x xa)
  then show ?case using length_from_char[of newline s] by (cases s) (auto simp: le_imp_less_Suc split: if_splits)
qed simp

declare heredoc_body.simps [simp del]

text \<open>\<open>owner.subs.extend\<close>: the owner is a command of the list, or one nobody looks at any more.\<close>

definition own_subs :: "owner \<Rightarrow> string list \<Rightarrow> lexer \<Rightarrow> lexer" where
  "own_subs ow subs st =
    (case ow of
       Current \<Rightarrow> add_subs subs st
     | Pushed k \<Rightarrow> st\<lparr>lx_cmds := (lx_cmds st)[k := (lx_cmds st ! k)\<lparr>sc_subs := sc_subs (lx_cmds st ! k) @ subs\<rparr>]\<rparr>
     | Dropped \<Rightarrow> st)"

fun heredocs_loop :: "(string \<times> bool \<times> bool \<times> owner) list \<Rightarrow> lexer \<Rightarrow> string \<Rightarrow> lexer \<times> string" where
  "heredocs_loop [] st s = (st, s)"
| "heredocs_loop ((delim, quoted, dash, ow) # pending) st s =
    (case heredoc_body dash delim s of (body, rest) \<Rightarrow>
       heredocs_loop pending (if \<not> quoted then own_subs ow (subs_in (join [newline] body)) st else st) rest)"

definition read_heredocs :: "lexer \<Rightarrow> string \<Rightarrow> lexer \<times> string" where
  "read_heredocs st s = heredocs_loop (lx_heredocs st) (st\<lparr>lx_heredocs := []\<rparr>) s"

lemma length_heredoc_body: "length (snd (heredoc_body dash delim s)) \<le> length s"
proof (induction dash delim s rule: heredoc_body.induct)
  case (1 dash delim s)
  have "length (drop 1 (from_char newline s)) \<le> length s" using length_from_char[of newline s] by simp
  with 1 show ?case
    by (subst heredoc_body.simps) (fastforce simp: Let_def split: prod.split simp del: length_drop One_nat_def)
qed

lemma length_heredocs_loop: "length (snd (heredocs_loop pending st s)) \<le> length s"
proof (induction pending st s rule: heredocs_loop.induct)
  case (2 delim quoted dash ow pending st s)
  then show ?case using length_heredoc_body[of dash delim s] by (fastforce split: prod.split)
qed simp

lemma length_read_heredocs: "length (snd (read_heredocs st s)) \<le> length s"
  by (simp add: read_heredocs_def length_heredocs_loop)

lemma length_separator: "s \<noteq> [] \<Longrightarrow> length (snd (separator st s)) < length s"
  by (auto simp: separator_def Let_def)

lemma length_redirect_operator: "s \<noteq> [] \<Longrightarrow> length (snd (redirect_operator s)) < length s"
  by (auto simp: redirect_operator_def Let_def)

lemma length_redirection:
  assumes "s \<noteq> []" and "take 1 s = ''&'' \<Longrightarrow> drop 1 s \<noteq> []"
  shows "length (snd (redirection st s)) < length s"
proof -
  define s' where "s' = (if take 1 s = ''&'' then drop 1 s else s)"
  have "s' \<noteq> []" "length s' \<le> length s" using assms by (auto simp: s'_def)
  moreover obtain oper r where r: "redirect_operator s' = (oper, r)" by (cases "redirect_operator s'")
  ultimately have "length r < length s"
    using length_redirect_operator[of s'] by simp
  then have "length r < length s" "length (drop 1 r) < length s" by simp_all
  then show ?thesis
    unfolding redirection_def s'_def[symmetric] r Let_def prod.case by (simp only: snd_conv split: if_split) simp
qed

section \<open>The loop\<close>

text \<open>One round of the loop of \<open>run\<close>, at the character \<open>c\<close> with \<open>r\<close> after it.\<close>

definition lex_step :: "lexer \<Rightarrow> char \<Rightarrow> string \<Rightarrow> lexer \<times> string" where
  "lex_step st c r =
    (if c \<in> set [CHR '' '', tab] then (end_word st, r)
     else if c = newline then read_heredocs (end_cmd '';'' st) r
     else if c = backslash then
       (case r of [] \<Rightarrow> (st, []) | d # r' \<Rightarrow> if d = newline then (st, r') else (add_text [d] st, r'))
     else if c = squote then (set_quoted (add_text (upto_char squote r) st), drop 1 (from_char squote r))
     else if c = dquote then (case double_quoted st r of (st', r') \<Rightarrow> (set_quoted st', r'))
     else if c = backquote then backtick st r
     else if c = CHR ''$'' then dollar st r
     else if c \<in> set ''<>'' \<and> startswith r ''('' then
       (let rest = balanced 1 (drop 1 r)
        in (add_text ''$()'' (add_subs [before (drop 1 r) rest] st), drop 1 rest))
     else if c \<in> set ''<>'' \<or> c = CHR ''&'' \<and> startswith r ''>'' then redirection st (c # r)
     else if c \<in> set '';&|'' then separator st (c # r)
     else if c \<in> set ''()'' then (end_cmd '';'' st, r)
     else (add_text [c] st, r))"

lemma if_snd_le:
  "(b \<Longrightarrow> length (snd x) \<le> n) \<Longrightarrow> (\<not> b \<Longrightarrow> length (snd y) \<le> n) \<Longrightarrow> length (snd (if b then x else y)) \<le> n"
  by simp

lemma length_lex_step: "length (snd (lex_step st c r)) \<le> length r"
proof -
  have red: "length (snd (redirection st (c # r))) \<le> length r" if "c \<in> set ''<>'' \<or> c = CHR ''&'' \<and> startswith r ''>''"
    using length_redirection[of "c # r" st] that by (cases r) (auto simp: startswith_def less_Suc_eq_le)
  have sep: "length (snd (separator st (c # r))) \<le> length r"
    using length_separator[of "c # r" st] by (simp add: less_Suc_eq_le)
  have bal: "length (drop 1 (balanced 1 (drop 1 r))) \<le> length r" "length (drop 1 (from_char squote r)) \<le> length r"
    using length_balanced[of 1 "drop 1 r"] length_from_char[of squote r] by (simp_all only: length_drop)
  show ?thesis
    unfolding lex_step_def Let_def
    by (intro if_snd_le)
      (use red sep bal in \<open>simp_all add: length_read_heredocs length_double_quoted length_backtick length_dollar
         case_prod_beta split: list.split\<close>)
qed

function run_loop :: "lexer \<Rightarrow> string \<Rightarrow> lexer" where
  "run_loop st [] = st"
| "run_loop st (c # r) = (case lex_step st c r of (st', r') \<Rightarrow> run_loop st' r')"
  by pat_completeness auto
termination
proof (relation "measure (\<lambda>(st, s). length s)", goal_cases)
  case 2
  then show ?case using length_lex_step by (auto simp: case_prod_beta less_Suc_eq_le)
qed simp

definition lex_text :: "string \<Rightarrow> shell_cmd list" where
  "lex_text s = lx_cmds (end_cmd '';'' (run_loop new_lexer s))"

end
