(* ===== verification/Shell_Paths.thy ===== *)
theory Shell_Paths
  imports Shell_Lexer
begin

text \<open>
  The verdict a command is read into (\<open>_Acc\<close> of \<open>command_risk.py\<close>) and how a path it writes is judged: paths are
  resolved against the working directory the way \<open>posixpath\<close> does, brace expansions are written out, and devices,
  protected files, system directories and targets that wipe a machine are recognised. The regular expressions of the
  module that need backtracking are built from a small matcher that lists every way a pattern can match; \<open>re.search\<close>
  asks whether there is one.

  AgentScope's lists of dangerous files and directories (\<open>agentscope.tool._constants\<close>) are not part of the
  repository: they are the fields of the record \<open>guarded\<close>, an argument of whatever consults them.
\<close>

section \<open>Levels and verdicts\<close>

datatype level = LvLow | LvMedium | LvHigh | LvCatastrophic

primrec rank :: "level \<Rightarrow> nat" where
  "rank LvLow = 0"
| "rank LvMedium = 1"
| "rank LvHigh = 2"
| "rank LvCatastrophic = 3"

lemma rank_inject: "rank a = rank b \<Longrightarrow> a = b"
  by (cases a; cases b) simp_all

instantiation level :: linorder
begin

definition less_eq_level :: "level \<Rightarrow> level \<Rightarrow> bool" where "a \<le> b \<longleftrightarrow> rank a \<le> rank b"
definition less_level :: "level \<Rightarrow> level \<Rightarrow> bool" where "a < b \<longleftrightarrow> rank a < rank b"

instance
  by standard (auto simp: less_eq_level_def less_level_def dest: rank_inject)

end

lemma level_simps [simp]:
  "LvLow \<le> a" "a \<le> LvCatastrophic" "LvCatastrophic \<le> a \<longleftrightarrow> a = LvCatastrophic" "a \<le> LvLow \<longleftrightarrow> a = LvLow"
  "LvMedium \<le> a \<longleftrightarrow> a \<noteq> LvLow" "\<not> a < LvLow" "a < LvMedium \<longleftrightarrow> a = LvLow" "LvLow < a \<longleftrightarrow> a \<noteq> LvLow"
  by (cases a; simp add: less_eq_level_def less_level_def)+

lemma level_order [simp]:
  "LvHigh \<le> a \<longleftrightarrow> a = LvHigh \<or> a = LvCatastrophic" "a < LvHigh \<longleftrightarrow> a = LvLow \<or> a = LvMedium"
  by (cases a; simp add: less_eq_level_def less_level_def)+

record acc =
  ac_level :: level
  ac_reason :: string
  ac_writes :: bool
  ac_protected :: bool
  ac_skills_seen :: bool
  ac_skills_ok :: bool

definition new_acc :: acc where
  "new_acc = \<lparr>ac_level = LvLow, ac_reason = [], ac_writes = False, ac_protected = False, ac_skills_seen = False,
     ac_skills_ok = True\<rparr>"

definition bump :: "level \<Rightarrow> string \<Rightarrow> acc \<Rightarrow> acc" where
  "bump l why a = (if rank l > rank (ac_level a) then a\<lparr>ac_level := l, ac_reason := why\<rparr> else a)"

definition merge_acc :: "acc \<Rightarrow> acc \<Rightarrow> acc" where
  "merge_acc other a =
    (bump (ac_level other) (ac_reason other) a)\<lparr>ac_writes := ac_writes a \<or> ac_writes other,
       ac_protected := ac_protected a \<or> ac_protected other\<rparr>"

abbreviation writing :: "acc \<Rightarrow> acc" where "writing a \<equiv> a\<lparr>ac_writes := True\<rparr>"
abbreviation protecting :: "acc \<Rightarrow> acc" where "protecting a \<equiv> a\<lparr>ac_protected := True\<rparr>"
abbreviation no_skills :: "acc \<Rightarrow> acc" where "no_skills a \<equiv> a\<lparr>ac_skills_ok := False\<rparr>"

lemma bump_level [simp]: "ac_level (bump l why a) = max l (ac_level a)"
  by (auto simp: bump_def max_def less_eq_level_def dest: rank_inject)

lemma bump_rest [simp]:
  "ac_writes (bump l why a) = ac_writes a" "ac_protected (bump l why a) = ac_protected a"
  "ac_skills_seen (bump l why a) = ac_skills_seen a" "ac_skills_ok (bump l why a) = ac_skills_ok a"
  by (simp_all add: bump_def)

lemma merge_acc_sel [simp]:
  "ac_level (merge_acc b a) = max (ac_level b) (ac_level a)"
  "ac_writes (merge_acc b a) = (ac_writes a \<or> ac_writes b)"
  "ac_protected (merge_acc b a) = (ac_protected a \<or> ac_protected b)"
  "ac_skills_seen (merge_acc b a) = ac_skills_seen a" "ac_skills_ok (merge_acc b a) = ac_skills_ok a"
  by (simp_all add: merge_acc_def)

section \<open>A matcher for the regular expressions\<close>

text \<open>
  A place in a text: the character before it, which decides whether it is at the start and at a word boundary, and the
  text after it. A matcher lists the places a match from a given place may end at.
\<close>

type_synonym text_place = "char option \<times> string"
type_synonym matcher = "text_place \<Rightarrow> text_place list"

definition re_word :: "char \<Rightarrow> bool" where
  "re_word c \<longleftrightarrow> name_char c \<or> (let n = of_char c :: nat in
     n \<in> {170, 178, 179, 181, 185, 186, 188, 189, 190} \<or> 192 \<le> n \<and> n \<noteq> 215 \<and> n \<noteq> 247)"

fun re_char :: "(char \<Rightarrow> bool) \<Rightarrow> matcher" where
  "re_char p (prev, []) = []"
| "re_char p (prev, c # r) = (if p c then [(Some c, r)] else [])"

primrec re_seq :: "matcher list \<Rightarrow> matcher" where
  "re_seq [] at = [at]"
| "re_seq (m # ms) at = concat (map (re_seq ms) (m at))"

definition re_str :: "string \<Rightarrow> matcher" where
  "re_str w = re_seq (map (\<lambda>c. re_char (\<lambda>d. d = c)) w)"

definition re_alt :: "matcher list \<Rightarrow> matcher" where
  "re_alt ms at = concat (map (\<lambda>m. m at) ms)"

definition re_opt :: "matcher \<Rightarrow> matcher" where
  "re_opt m at = at # m at"

fun re_star :: "(char \<Rightarrow> bool) \<Rightarrow> matcher" where
  "re_star p (prev, []) = [(prev, [])]"
| "re_star p (prev, c # r) = (prev, c # r) # (if p c then re_star p (Some c, r) else [])"

definition re_plus :: "(char \<Rightarrow> bool) \<Rightarrow> matcher" where
  "re_plus p = re_seq [re_char p, re_star p]"

definition re_start :: matcher where
  "re_start at = (if fst at = None then [at] else [])"

definition re_boundary :: matcher where
  "re_boundary at =
    (let left = (case fst at of None \<Rightarrow> False | Some c \<Rightarrow> re_word c);
         right = (case snd at of [] \<Rightarrow> False | c # _ \<Rightarrow> re_word c)
     in if left \<noteq> right then [at] else [])"

fun places :: "char option \<Rightarrow> string \<Rightarrow> text_place list" where
  "places prev [] = [(prev, [])]"
| "places prev (c # r) = (prev, c # r) # places (Some c) r"

definition re_search :: "matcher \<Rightarrow> string \<Rightarrow> bool" where
  "re_search m s \<longleftrightarrow> list_ex (\<lambda>at. m at \<noteq> []) (places None s)"

definition re_match :: "matcher \<Rightarrow> string \<Rightarrow> bool" where
  "re_match m s \<longleftrightarrow> m (None, s) \<noteq> []"

text \<open>
  \<open>_FORK_BOMB\<close> names a function with its first group and asks for the name again in the body: every name the group
  may have matched is tried.
\<close>

definition bomb_names :: "string \<Rightarrow> string list" where
  "bomb_names s =
    (case s of [] \<Rightarrow> []
     | c # r \<Rightarrow>
         (if is_letter c \<or> c = CHR ''_''
          then map (\<lambda>k. c # take k r) [0..<Suc (length (takeWhile (\<lambda>d. re_word d \<or> d = CHR ''-'') r))] else [])
         @ (if c = CHR '':'' then ['':''] else []))"

definition bomb_body :: "string \<Rightarrow> matcher" where
  "bomb_body name =
    re_seq [re_str name, re_star is_space, re_str ''('', re_star is_space, re_str '')'', re_star is_space, re_str ''{'',
      re_star (\<lambda>c. c \<noteq> CHR ''}''), re_boundary, re_str name, re_boundary, re_star is_space, re_str ''|'',
      re_star is_space, re_opt (re_str ''&''), re_star is_space, re_str name, re_boundary]"

definition fork_bomb :: "string \<Rightarrow> bool" where
  "fork_bomb s \<longleftrightarrow>
    list_ex (\<lambda>at. list_ex (\<lambda>name. bomb_body name at \<noteq> []) (bomb_names (snd at))) (places None s) \<or>
    re_search (re_seq [re_str '':'', re_star is_space, re_str ''|'', re_star is_space, re_str '':'', re_star is_space,
      re_str ''&'']) s"

definition fetch_pattern :: "string \<Rightarrow> bool" where
  "fetch_pattern =
    re_search (re_seq [re_boundary,
      re_alt (map re_str [''curl'', ''wget'', ''nc'', ''ncat'', ''netcat'', ''socat'', ''fetch'']), re_boundary])"

section \<open>Strings of the library\<close>

fun split_on :: "char \<Rightarrow> string \<Rightarrow> string list" where
  "split_on q [] = [[]]"
| "split_on q (c # r) =
    (if c = q then [] # split_on q r else (case split_on q r of [] \<Rightarrow> [[c]] | p # ps \<Rightarrow> (c # p) # ps))"

definition lower_char :: "char \<Rightarrow> char" where
  "lower_char c = (let n = of_char c :: nat in
     if 65 \<le> n \<and> n \<le> 90 \<or> 192 \<le> n \<and> n \<le> 222 \<and> n \<noteq> 215 then char_of (n + 32) else c)"

definition str_lower :: "string \<Rightarrow> string" where
  "str_lower s = map lower_char s"

definition rstrip_slashes :: "string \<Rightarrow> string" where
  "rstrip_slashes s = rev (dropWhile (\<lambda>c. c = CHR ''/'') (rev s))"

definition endswith :: "string \<Rightarrow> string \<Rightarrow> bool" where
  "endswith s p \<longleftrightarrow> startswith (rev s) (rev p)"

section \<open>Paths\<close>

definition normpath_step :: "bool \<Rightarrow> string list \<Rightarrow> string \<Rightarrow> string list" where
  "normpath_step rooted comps part =
    (if part \<in> {[], ''.''} then comps
     else if part \<noteq> ''..'' \<or> \<not> rooted \<and> comps = [] \<or> comps \<noteq> [] \<and> last comps = ''..'' then comps @ [part]
     else if comps \<noteq> [] then butlast comps else comps)"

definition normpath :: "string \<Rightarrow> string" where
  "normpath path =
    (if path = [] then ''.''
     else let slashes = (if startswith path ''//'' \<and> \<not> startswith path ''///'' then ''//''
                         else if startswith path ''/'' then ''/'' else []);
              norm = slashes @ join ''/'' (foldl (normpath_step (slashes \<noteq> [])) [] (split_on (CHR ''/'') path))
          in if norm = [] then ''.'' else norm)"

definition path_join :: "string \<Rightarrow> string \<Rightarrow> string" where
  "path_join a b =
    (if startswith b ''/'' then b else if a = [] \<or> endswith a ''/'' then a @ b else a @ ''/'' @ b)"

definition basename :: "string \<Rightarrow> string" where
  "basename p = rev (takeWhile (\<lambda>c. c \<noteq> CHR ''/'') (rev p))"

definition WORKSPACE :: string where "WORKSPACE = ''/workspace''"
definition SKILLS_PREFIX :: string where "SKILLS_PREFIX = WORKSPACE @ ''/.skills/''"

definition home :: "string \<Rightarrow> string" where
  "home path =
    (if startswith path ''${HOME}'' then ''~'' @ drop 7 path
     else if startswith path ''$HOME'' then ''~'' @ drop 5 path else path)"

definition one_slash :: "string \<Rightarrow> string" where
  "one_slash p = (if startswith p ''//'' then ''/'' @ dropWhile (\<lambda>c. c = CHR ''/'') p else p)"

definition resolve :: "string \<Rightarrow> string \<Rightarrow> string" where
  "resolve path0 cwd =
    (let path = home path0
     in if startswith path ''~'' then
          (let tail = drop 1 (from_char (CHR ''/'') (drop 1 path))
           in ''~'' @ (if list_ex (\<lambda>c. c \<noteq> CHR ''/'') tail then normpath (''/'' @ tail) else []))
        else one_slash (normpath (if startswith path ''/'' then path else path_join cwd path)))"

text \<open>
  \<open>_expand_braces\<close>: the first \<open>{a,b}\<close> without another brace inside. Every expansion takes one opening brace away, so
  the number of them bounds the recursion.
\<close>

fun find_brace :: "string \<Rightarrow> string \<Rightarrow> (string \<times> string \<times> string) option" where
  "find_brace pre [] = None"
| "find_brace pre (c # r) =
    (let body = takeWhile (\<lambda>d. d \<noteq> CHR ''{'' \<and> d \<noteq> CHR ''}'') r; rest = drop (length body) r
     in if c = CHR ''{'' \<and> CHR '','' \<in> set body \<and> startswith rest ''}'' then Some (pre, body, drop 1 rest)
        else find_brace (pre @ [c]) r)"

primrec expand_options :: "(string \<Rightarrow> string list) \<Rightarrow> string list \<Rightarrow> string list \<Rightarrow> string list" where
  "expand_options f [] out = out"
| "expand_options f (opt # opts) out =
    (let out' = out @ f opt in if length out' > 32 then out' else expand_options f opts out')"

primrec expand_upto :: "nat \<Rightarrow> string \<Rightarrow> string list" where
  "expand_upto 0 w = [w]"
| "expand_upto (Suc n) w =
    (case find_brace [] w of
       None \<Rightarrow> [w]
     | Some (pre, body, post) \<Rightarrow>
         expand_options (\<lambda>opt. expand_upto n (pre @ opt @ post)) (split_on (CHR '','') body) [])"

definition expand_braces :: "string \<Rightarrow> string list" where
  "expand_braces w = expand_upto (length (filter (\<lambda>c. c = CHR ''{'') w)) w"

section \<open>What a path is\<close>

definition SYSTEM_STRICT :: "string list" where
  "SYSTEM_STRICT = [''/bin'', ''/boot'', ''/dev'', ''/etc'', ''/lib'', ''/lib32'', ''/lib64'', ''/proc'', ''/root'',
     ''/sbin'', ''/sys'', ''/usr'']"
definition SYSTEM_LOOSE :: "string list" where
  "SYSTEM_LOOSE = [''/home'', ''/media'', ''/mnt'', ''/opt'', ''/run'', ''/srv'', ''/var'']"
definition SYSTEM_WRITE :: "string list" where
  "SYSTEM_WRITE = SYSTEM_STRICT @ [''/var'', ''/opt'']"
definition HARMLESS_DEVICES :: "string list" where
  "HARMLESS_DEVICES = [''/dev/null'', ''/dev/zero'', ''/dev/stdout'', ''/dev/stderr'', ''/dev/stdin'', ''/dev/tty'',
     ''/dev/full'']"

record guarded =
  g_files :: "string list"
  g_dirs :: "string list"

definition PROTECTED_FILES :: "guarded \<Rightarrow> string list" where
  "PROTECTED_FILES g = map str_lower (g_files g @ [''.bash_logout'', ''.zshenv'', ''.zlogin'', ''.inputrc'', ''.pgpass'',
     ''.git-credentials'', ''id_rsa'', ''id_ed25519'', ''id_ecdsa'', ''known_hosts'', ''credentials''])"
definition PROTECTED_DIRS :: "guarded \<Rightarrow> string list" where
  "PROTECTED_DIRS g = map str_lower (g_dirs g @ [''.aws'', ''.gnupg'', ''.kube'', ''.docker''])"

text \<open>\<open>/[^/]*[*?\[][^/]*\<close> as a whole: a slash, then no other slash, and a wild card among it.\<close>

definition root_glob :: "string \<Rightarrow> bool" where
  "root_glob s \<longleftrightarrow> startswith s ''/'' \<and> CHR ''/'' \<notin> set (drop 1 s) \<and> list_ex (\<lambda>c. c \<in> set ''*?['') (drop 1 s)"

definition is_root_like :: "string \<Rightarrow> bool" where
  "is_root_like path \<longleftrightarrow>
    path \<in> {''/'', ''/*'', ''~'', ''~/*''} \<or> root_glob path \<or> startswith path ''~'' \<and> root_glob (drop 1 path) \<or>
    path \<in> set SYSTEM_STRICT \<or> path \<in> set SYSTEM_LOOSE \<or>
    (let parts = split_on (CHR ''/'') path
     in length parts = 3 \<and> ''/'' @ parts ! 1 \<in> set SYSTEM_STRICT \<or>
        length parts = 3 \<and> parts ! 2 = ''*'' \<and> ''/'' @ parts ! 1 \<in> set SYSTEM_LOOSE)"

definition protected_parts :: "string list \<Rightarrow> string list \<Rightarrow> string \<Rightarrow> string list \<Rightarrow> bool" where
  "protected_parts files dirs lowered parts \<longleftrightarrow>
    parts \<noteq> [] \<and>
    (list_ex (\<lambda>p. p \<in> set dirs) parts \<or> last parts \<in> set files \<or> startswith (last parts) ''.env'' \<or>
     list_ex (\<lambda>f. CHR ''/'' \<in> set f \<and> endswith lowered (''/'' @ f)) files)"

definition protected_lower :: "guarded \<Rightarrow> string \<Rightarrow> bool" where
  "protected_lower g lowered \<longleftrightarrow>
    protected_parts (PROTECTED_FILES g) (PROTECTED_DIRS g) lowered (filter (\<lambda>p. p \<noteq> []) (split_on (CHR ''/'') lowered))"

definition protected :: "guarded \<Rightarrow> string \<Rightarrow> bool" where
  "protected g path \<longleftrightarrow> protected_lower g (rstrip_slashes (str_lower path))"

definition is_protected_path :: "guarded \<Rightarrow> string \<Rightarrow> bool" where
  "is_protected_path g path \<longleftrightarrow> path \<noteq> [] \<and> protected g (resolve path WORKSPACE)"

definition block_device :: "string \<Rightarrow> bool" where
  "block_device =
    (let az = re_char (\<lambda>c. let n = of_char c :: nat in 97 \<le> n \<and> n \<le> 122); d = re_char is_digit
     in re_match (re_seq [re_str ''/dev/'', re_alt [
          re_seq [re_str ''sd'', az], re_seq [re_str ''hd'', az], re_seq [re_str ''vd'', az], re_seq [re_str ''xvd'', az],
          re_seq [re_str ''nvme'', d], re_seq [re_str ''mmcblk'', d], re_seq [re_str ''loop'', d], re_seq [re_str ''dm-'', d],
          re_seq [re_str ''md'', d], re_seq [re_str ''disk'', d], re_seq [re_str ''sr'', d], re_str ''mapper/'']]))"

definition device_level :: "string \<Rightarrow> level option" where
  "device_level path =
    (if path \<in> set HARMLESS_DEVICES \<or> startswith path ''/dev/fd/'' \<or> startswith path ''/dev/pts/'' then None
     else if block_device path \<or> path = ''/proc/sysrq-trigger'' then Some LvCatastrophic
     else if startswith path ''/dev/tcp/'' \<or> startswith path ''/dev/udp/'' then Some LvHigh
     else if startswith path ''/dev/'' then Some LvHigh
     else None)"

text \<open>A word with an expansion in it other than a leading home directory: its value is not known.\<close>

definition unknown_value :: "string \<Rightarrow> bool" where
  "unknown_value w \<longleftrightarrow> CHR ''$'' \<in> set w \<and> \<not> startswith w ''$HOME'' \<and> \<not> startswith w ''${HOME}''"

definition check_path :: "guarded \<Rightarrow> string \<Rightarrow> acc \<Rightarrow> string \<Rightarrow> acc" where
  "check_path g verb a path =
    (case device_level path of
          Some l \<Rightarrow> bump l (verb @ '' '' @ path) a
        | None \<Rightarrow>
            if protected g path then bump LvHigh (verb @ '' '' @ path) (protecting a)
            else if list_ex (\<lambda>d. path = d \<or> startswith path (d @ ''/'')) SYSTEM_WRITE
            then bump LvHigh (verb @ '' '' @ path) a
            else a)"

definition check_variant :: "guarded \<Rightarrow> string \<Rightarrow> string \<Rightarrow> acc \<Rightarrow> string \<Rightarrow> acc" where
  "check_variant g cwd verb a variant = check_path g verb a (resolve variant cwd)"

definition check_write_target :: "guarded \<Rightarrow> string \<Rightarrow> string \<Rightarrow> string \<Rightarrow> acc \<Rightarrow> acc" where
  "check_write_target g cwd verb raw a =
    (if unknown_value raw then writing a else foldl (check_variant g cwd verb) (writing a) (expand_braces raw))"

definition redirect :: "guarded \<Rightarrow> string \<Rightarrow> string \<Rightarrow> acc \<Rightarrow> acc" where
  "redirect g cwd target a =
    (if target \<in> set HARMLESS_DEVICES then a
     else if unknown_value target then bump LvMedium (''writes to '' @ target) (writing a)
     else bump LvMedium ''writes a file'' (check_write_target g cwd ''writes to'' target a))"

end
