(* ===== verification/Shell_Quoting.thy ===== *)
theory Shell_Quoting
  imports Shell_Paths
begin

text \<open>
  Reading is the inverse of spelling. A word of the shell can be spelled in many ways, a character bare, behind a
  backslash, inside single or double quotes; \<open>piece\<close> is one such bit and \<open>spell\<close> the text of a word made of them. The
  lexer gives back exactly the words a line of spelled words stands for, whatever the spelling. And the expansion of
  braces satisfies the recursion the source is written with.
\<close>

section \<open>Spelling\<close>

datatype piece = Bare char | Escaped char | Single string | Double string

definition special :: "char \<Rightarrow> bool" where
  "special c \<longleftrightarrow> c \<in> set ([tab, newline, backslash, squote, dquote, backquote] @ '' $<>&;|()'')"

fun piece_ok :: "piece \<Rightarrow> bool" where
  "piece_ok (Bare c) \<longleftrightarrow> \<not> special c"
| "piece_ok (Escaped c) \<longleftrightarrow> c \<noteq> newline"
| "piece_ok (Single s) \<longleftrightarrow> squote \<notin> set s"
| "piece_ok (Double s) \<longleftrightarrow> list_all (\<lambda>c. c \<noteq> dquote \<and> c \<noteq> backslash \<and> c \<noteq> backquote \<and> c \<noteq> CHR ''$'') s"

fun render :: "piece \<Rightarrow> string" where
  "render (Bare c) = [c]"
| "render (Escaped c) = [backslash, c]"
| "render (Single s) = [squote] @ s @ [squote]"
| "render (Double s) = [dquote] @ s @ [dquote]"

fun meaning :: "piece \<Rightarrow> string" where
  "meaning (Bare c) = [c]"
| "meaning (Escaped c) = [c]"
| "meaning (Single s) = s"
| "meaning (Double s) = s"

definition spell :: "piece list \<Rightarrow> string" where
  "spell ps = concat (map render ps)"

definition spelled_word :: "piece list \<Rightarrow> string" where
  "spelled_word ps = concat (map meaning ps)"

definition word_ok :: "piece list \<Rightarrow> bool" where
  "word_ok ps \<longleftrightarrow> ps \<noteq> [] \<and> list_all piece_ok ps"

section \<open>The lexer inside a word\<close>

text \<open>The lexer has read \<open>t\<close> of the current word and nothing else.\<close>

definition grown :: "lexer \<Rightarrow> string \<Rightarrow> lexer \<Rightarrow> bool" where
  "grown st t st' \<longleftrightarrow>
    (\<exists>w q. st' = st\<lparr>lx_word := w, lx_in_word := True, lx_quoted := q\<rparr> \<and> concat w = concat (lx_word st) @ t)"

lemma grown_trans: "grown st t st' \<Longrightarrow> grown st' u st'' \<Longrightarrow> grown st (t @ u) st''"
  unfolding grown_def by fastforce

lemma grown_add [simp]: "grown st t (add_text t st)"
  unfolding grown_def add_text_def by (rule exI[of _ "lx_word st @ [t]"], rule exI[of _ "lx_quoted st"]) simp

lemma grown_quoted: "grown st t st' \<Longrightarrow> grown st t (set_quoted st')"
  unfolding grown_def set_quoted_def by fastforce

lemma grown_in_word: "grown (st\<lparr>lx_in_word := True\<rparr>) t st' \<Longrightarrow> grown st t st'"
  unfolding grown_def by fastforce

lemma grown_nothing: "grown st [] (st\<lparr>lx_in_word := True\<rparr>)"
  unfolding grown_def by (rule exI[of _ "lx_word st"], rule exI[of _ "lx_quoted st"]) simp

lemma quoted_plain:
  assumes "piece_ok (Double s)"
  shows "\<exists>st'. quoted_loop st (s @ dquote # r) = (st', r) \<and> (lx_in_word st \<longrightarrow> grown st s st')"
  using assms
proof (induction s arbitrary: st)
  case Nil
  have "lx_in_word st \<Longrightarrow> grown st [] st"
    unfolding grown_def by (rule exI[of _ "lx_word st"], rule exI[of _ "lx_quoted st"]) simp
  then show ?case by simp
next
  case (Cons c s)
  have *: "quoted_loop st ((c # s) @ dquote # r) = quoted_loop (add_text [c] st) (s @ dquote # r)"
    using Cons.prems by simp
  obtain st' where st': "quoted_loop (add_text [c] st) (s @ dquote # r) = (st', r)" "grown (add_text [c] st) s st'"
    using Cons.IH[of "add_text [c] st"] Cons.prems by (auto simp: add_text_def)
  have "grown st ([c] @ s) st'" by (rule grown_trans[OF grown_add st'(2)])
  with * st'(1) show ?case by simp
qed

lemma run_piece:
  assumes "piece_ok p"
  shows "\<exists>st'. run_loop st (render p @ r) = run_loop st' r \<and> grown st (meaning p) st'"
proof (cases p)
  case (Bare c)
  then have "lex_step st c r = (add_text [c] st, r)"
    using assms by (simp add: lex_step_def special_def)
  then show ?thesis using Bare by (intro exI[of _ "add_text [c] st"]) simp
next
  case (Escaped c)
  then have "lex_step st backslash (c # r) = (add_text [c] st, r)"
    using assms by (simp add: lex_step_def)
  then show ?thesis using Escaped by (intro exI[of _ "add_text [c] st"]) simp
next
  case (Single s)
  have "upto_char squote (s @ squote # r) = s" "from_char squote (s @ squote # r) = squote # r"
    using assms Single by (auto simp: takeWhile_append2 dropWhile_append2 intro!: takeWhile_append2[THEN trans] dropWhile_append2[THEN trans])
  then have "lex_step st squote (s @ squote # r) = (set_quoted (add_text s st), r)"
    by (simp add: lex_step_def)
  then show ?thesis using Single by (intro exI[of _ "set_quoted (add_text s st)"]) (simp add: grown_quoted)
next
  case (Double s)
  obtain st' where st': "double_quoted st (s @ dquote # r) = (st', r)" "grown (st\<lparr>lx_in_word := True\<rparr>) s st'"
    using quoted_plain[of s "st\<lparr>lx_in_word := True\<rparr>" r] assms Double by (auto simp: double_quoted_def)
  then have "lex_step st dquote (s @ dquote # r) = (set_quoted st', r)"
    by (simp add: lex_step_def)
  then show ?thesis
    using Double grown_quoted[OF grown_in_word[OF st'(2)]] by (intro exI[of _ "set_quoted st'"]) simp
qed

lemma run_word:
  assumes "list_all piece_ok ps" and "ps \<noteq> []"
  shows "\<exists>st'. run_loop st (spell ps @ r) = run_loop st' r \<and> grown st (spelled_word ps) st'"
  using assms
proof (induction ps arbitrary: st)
  case (Cons p ps)
  obtain st1 where st1: "run_loop st (render p @ spell ps @ r) = run_loop st1 (spell ps @ r)" "grown st (meaning p) st1"
    using run_piece[of p st "spell ps @ r"] Cons.prems by auto
  show ?case
  proof (cases "ps = []")
    case True
    then show ?thesis using st1 by (auto simp: spell_def spelled_word_def)
  next
    case False
    then obtain st2 where "run_loop st1 (spell ps @ r) = run_loop st2 r" "grown st1 (spelled_word ps) st2"
      using Cons by auto
    then show ?thesis using st1 grown_trans[OF st1(2)] by (auto simp: spell_def spelled_word_def)
  qed
qed simp

section \<open>A line of words\<close>

definition between_words :: "lexer \<Rightarrow> bool" where
  "between_words st \<longleftrightarrow> lx_word st = [] \<and> \<not> lx_in_word st \<and> \<not> lx_quoted st \<and> lx_redirect st = None"

definition with_word :: "lexer \<Rightarrow> string \<Rightarrow> lexer" where
  "with_word st w = st\<lparr>lx_cur := (lx_cur st)\<lparr>sc_words := sc_words (lx_cur st) @ [w]\<rparr>\<rparr>"

lemma end_word_grown: "between_words st \<Longrightarrow> grown st t st' \<Longrightarrow> end_word st' = with_word st t"
  unfolding between_words_def grown_def with_word_def end_word_def by (auto simp: Let_def)

lemma between_with_word [simp]: "between_words (with_word st w) = between_words st"
  by (simp add: between_words_def with_word_def)

lemma run_words:
  assumes "list_all word_ok ps" and "ps \<noteq> []" and "between_words st"
  shows "\<exists>st'. run_loop st (join '' '' (map spell ps)) = st' \<and> end_word st' = foldl with_word st (map spelled_word ps)"
  using assms
proof (induction ps arbitrary: st)
  case (Cons p ps)
  have p: "list_all piece_ok p" "p \<noteq> []" using Cons.prems(1) by (auto simp: word_ok_def)
  show ?case
  proof (cases "ps = []")
    case True
    obtain st' where "run_loop st (spell p @ []) = run_loop st' []" "grown st (spelled_word p) st'"
      using run_word[OF p] by blast
    then show ?thesis using True end_word_grown[OF Cons.prems(3)] by auto
  next
    case False
    let ?rest = "join '' '' (map spell ps)"
    obtain st' where st': "run_loop st (spell p @ CHR '' '' # ?rest) = run_loop st' (CHR '' '' # ?rest)"
      "grown st (spelled_word p) st'"
      using run_word[OF p] by blast
    have "run_loop st' (CHR '' '' # ?rest) = run_loop (with_word st (spelled_word p)) ?rest"
      using end_word_grown[OF Cons.prems(3) st'(2)] by (simp add: lex_step_def)
    with st'(1) False have "run_loop st (join '' '' (map spell (p # ps))) = run_loop (with_word st (spelled_word p)) ?rest"
      by simp
    then show ?thesis using Cons.IH[of "with_word st (spelled_word p)"] Cons.prems False by simp
  qed
qed simp

lemma foldl_with_word:
  "foldl with_word st ws = st\<lparr>lx_cur := (lx_cur st)\<lparr>sc_words := sc_words (lx_cur st) @ ws\<rparr>\<rparr>"
  by (induction ws arbitrary: st) (simp_all add: with_word_def)

text \<open>
  C28. Reading inverts spelling: a line of one or more words, each spelled with any mixture of bare, escaped, single-
  and double-quoted pieces and separated by blanks, is read as one command with exactly these words, no redirection
  and no substituted command. So a command cannot hide behind the spelling of its words.
\<close>

theorem lex_spelled:
  assumes "list_all word_ok ps" and "ps \<noteq> []"
  shows "lex_text (join '' '' (map spell ps)) =
    [\<lparr>sc_words = map spelled_word ps, sc_redirects = [], sc_subs = [], sc_piped_in = False\<rparr>]"
proof -
  have "between_words new_lexer" by (simp add: between_words_def new_lexer_def)
  with run_words[OF assms] obtain st' where
    st': "run_loop new_lexer (join '' '' (map spell ps)) = st'" "end_word st' = foldl with_word new_lexer (map spelled_word ps)"
    by blast
  then show ?thesis
    using assms(2) by (simp add: lex_text_def end_cmd_def push_cmd_def foldl_with_word new_lexer_def new_cmd_def Let_def)
qed

theorem lex_spelled_witness:
  "lex_text (''r'' @ [backslash] @ ''m '' @ [dquote] @ ''-r'' @ [dquote] @ ''f '' @ [squote] @ ''a; b'' @ [squote]) =
    [\<lparr>sc_words = [''rm'', ''-rf'', ''a; b''], sc_redirects = [], sc_subs = [], sc_piped_in = False\<rparr>]"
proof -
  let ?ps = "[[Bare (CHR ''r''), Escaped (CHR ''m'')], [Double ''-r'', Bare (CHR ''f'')], [Single ''a; b'']]"
  have "list_all word_ok ?ps" by code_simp
  from lex_spelled[OF this] show ?thesis by (simp add: spell_def spelled_word_def)
qed

section \<open>Brace expansion\<close>

abbreviation braces :: "string \<Rightarrow> nat" where
  "braces w \<equiv> length (filter (\<lambda>c. c = CHR ''{'') w)"

lemma find_brace_split:
  assumes "find_brace pre w = Some (p, body, post)"
  shows "\<exists>q. p = pre @ q \<and> w = q @ CHR ''{'' # body @ CHR ''}'' # post \<and> CHR ''{'' \<notin> set body"
  using assms
proof (induction pre w rule: find_brace.induct)
  case (2 pre c r)
  let ?body = "takeWhile (\<lambda>d. d \<noteq> CHR ''{'' \<and> d \<noteq> CHR ''}'') r"
  let ?rest = "drop (length ?body) r"
  have r: "r = ?body @ ?rest" by (simp flip: dropWhile_eq_drop)
  show ?case
  proof (cases "c = CHR ''{'' \<and> CHR '','' \<in> set ?body \<and> startswith ?rest ''}''")
    case True
    then have "?rest = CHR ''}'' # drop 1 ?rest" by (cases ?rest) (auto simp: startswith_def)
    moreover have "p = pre" "body = ?body" "post = drop 1 ?rest" using "2.prems" True by (auto simp: Let_def)
    ultimately have "r = body @ CHR ''}'' # post" "p = pre" "c = CHR ''{''" "CHR ''{'' \<notin> set body"
      using r True set_takeWhileD[of "CHR ''{''" _ r] by auto
    then show ?thesis by (intro exI[of _ "[]"]) simp
  next
    case False
    then have "find_brace (pre @ [c]) r = Some (p, body, post)" using "2.prems" by (auto simp: Let_def split: if_splits)
    from "2.IH"[OF refl refl False this] obtain q where
      "p = (pre @ [c]) @ q" "r = q @ CHR ''{'' # body @ CHR ''}'' # post" "CHR ''{'' \<notin> set body" by blast
    then show ?thesis by (intro exI[of _ "c # q"]) simp
  qed
qed simp

lemma split_on_sub: "w \<in> set (split_on q s) \<Longrightarrow> set w \<subseteq> set s"
proof (induction s arbitrary: w)
  case (Cons c s)
  then show ?case by (fastforce split: if_splits list.splits)
qed simp

lemma braces_option:
  assumes "find_brace [] w = Some (pre, body, post)" and "opt \<in> set (split_on (CHR '','') body)"
  shows "braces (pre @ opt @ post) < braces w"
proof -
  have w: "w = pre @ CHR ''{'' # body @ CHR ''}'' # post" "CHR ''{'' \<notin> set body"
    using find_brace_split[OF assms(1)] by auto
  then have "braces opt = 0" using split_on_sub[OF assms(2)] by (auto simp: filter_empty_conv)
  with w(1) show ?thesis by simp
qed

lemma expand_options_cong:
  "(\<And>x. x \<in> set xs \<Longrightarrow> f x = h x) \<Longrightarrow> expand_options f xs out = expand_options h xs out"
  by (induction xs arbitrary: out) (simp_all add: Let_def)

lemma expand_upto_enough: "braces w \<le> n \<Longrightarrow> expand_upto n w = expand_upto (braces w) w"
proof (induction n arbitrary: w rule: less_induct)
  case (less n)
  show ?case
  proof (cases "find_brace [] w")
    case None
    then show ?thesis by (cases n; cases "braces w") simp_all
  next
    case (Some x)
    obtain pre body post where x: "x = (pre, body, post)" by (cases x)
    note found = Some[unfolded x]
    have "braces w > 0" using find_brace_split[OF found] by auto
    then obtain m k where m: "n = Suc m" "braces w = Suc k" "k \<le> m"
      using less.prems by (metis Suc_le_mono gr0_conv_Suc less_le_trans)
    have "expand_upto m (pre @ opt @ post) = expand_upto k (pre @ opt @ post)"
      if "opt \<in> set (split_on (CHR '','') body)" for opt
    proof -
      have b: "braces (pre @ opt @ post) \<le> k" using braces_option[OF found that] m by simp
      then have "expand_upto m (pre @ opt @ post) = expand_upto (braces (pre @ opt @ post)) (pre @ opt @ post)"
        using m by (intro less.IH) simp_all
      moreover have "expand_upto k (pre @ opt @ post) = expand_upto (braces (pre @ opt @ post)) (pre @ opt @ post)"
        using b m by (intro less.IH) simp_all
      ultimately show ?thesis by simp
    qed
    then show ?thesis using found m by (simp cong: expand_options_cong)
  qed
qed

text \<open>
  Brace expansion terminates and is what the source computes: \<open>expand_braces\<close>, which recurses at most as often as
  the word has opening braces, satisfies the unbounded recursion of \<open>_expand_braces\<close>.
\<close>

theorem expand_braces_recursion:
  "expand_braces w =
    (case find_brace [] w of
       None \<Rightarrow> [w]
     | Some (pre, body, post) \<Rightarrow>
         expand_options (\<lambda>opt. expand_braces (pre @ opt @ post)) (split_on (CHR '','') body) [])"
proof (cases "find_brace [] w")
  case None
  then show ?thesis by (cases "braces w") (simp_all add: expand_braces_def)
next
  case (Some x)
  obtain pre body post where x: "x = (pre, body, post)" by (cases x)
  note found = Some[unfolded x]
  obtain k where k: "braces w = Suc k" using find_brace_split[OF found] by auto
  have "expand_upto k (pre @ opt @ post) = expand_braces (pre @ opt @ post)"
    if "opt \<in> set (split_on (CHR '','') body)" for opt
    unfolding expand_braces_def using braces_option[OF found that] k by (intro expand_upto_enough) simp
  then show ?thesis using found k by (simp add: expand_braces_def[of w] cong: expand_options_cong)
qed

end
