(* ===== verification/Command_Programs.thy ===== *)
theory Command_Programs
  imports Shell_Paths
begin

text \<open>
  What \<open>command_risk.py\<close> knows of single programs: its tables, the reading of options, and one function per handler
  (\<open>_rm\<close>, \<open>_git\<close>, \<open>_find\<close>, ...), all of which update the verdict they are given, put together by \<open>_program\<close>. A
  handler that judges a command inside its arguments gets the walk of that command as an argument. A set of flags is
  the list of them; only membership is asked. \<open>str.upper\<close> is written out for the characters it maps to one character
  below 256, which are all that can make a difference to the comparisons it is used for.
\<close>

section \<open>Tables\<close>

definition SHELLS :: "string list" where
  "SHELLS = [''sh'', ''bash'', ''zsh'', ''dash'', ''ksh'', ''fish'', ''csh'', ''tcsh'', ''ash'']"

definition INTERPRETERS :: "string list" where
  "INTERPRETERS = [''python'', ''perl'', ''ruby'', ''node'', ''php'', ''lua'', ''deno'', ''bun'', ''tclsh'',
     ''Rscript'']"

definition DISK_FORMAT :: "string list" where
  "DISK_FORMAT = [''mke2fs'', ''mkswap'', ''wipefs'', ''mkfs'']"

definition POWER :: "string list" where
  "POWER = [''shutdown'', ''reboot'', ''halt'', ''poweroff'']"

definition LOW_PROGRAMS :: "string list" where
  "LOW_PROGRAMS = [''ls'', ''ll'', ''la'', ''dir'', ''cat'', ''head'', ''tail'', ''less'', ''more'', ''file'',
     ''stat'', ''wc'', ''grep'', ''egrep'', ''fgrep'', ''rg'', ''ag'', ''ack'', ''tree'', ''pwd'', ''which'',
     ''whereis'', ''type'', ''echo'', ''printf'', ''true'', ''false'', ''whoami'', ''id'', ''uname'', ''basename'',
     ''dirname'', ''realpath'', ''readlink'', ''du'', ''df'', ''free'', ''uptime'', ''ps'', ''top'', ''sort'',
     ''uniq'', ''cut'', ''tr'', ''diff'', ''cmp'', ''comm'', ''tac'', ''nl'', ''rev'', ''seq'', ''sleep'',
     ''test'', ''['', ''md5sum'', ''sha1sum'', ''sha256sum'', ''sha512sum'', ''cksum'', ''od'', ''hexdump'',
     ''strings'', ''jq'', ''column'', ''fold'', ''fmt'', ''expand'', ''unexpand'', ''cd'', ''pushd'', ''popd'',
     '':'', ''export'', ''unset'', ''read'', ''wait'', ''exit'', ''return'', ''shift'', ''local'', ''declare'',
     ''readonly'', ''alias'', ''unalias'', ''history'', ''set'', ''shopt'', ''ulimit'', ''umask'', ''getconf'',
     ''nproc'', ''lscpu'', ''lsblk'', ''locale'', ''base64'', ''printenv_'', ''expr'', ''bc'', ''tput'', ''clear'',
     ''dos2unix_'', ''pgrep'', ''lsof_'', ''nslookup'', ''dig'', ''host'', ''whatis'', ''man'', ''info'', ''help'',
     ''tty'', ''groups'', ''logname'', ''arch'', ''date'']"

definition GIT_LOW :: "string list" where
  "GIT_LOW = [''status'', ''log'', ''diff'', ''show'', ''ls-files'', ''ls-tree'', ''rev-parse'', ''rev-list'',
     ''describe'', ''shortlog'', ''blame'', ''cat-file'', ''grep'', ''diff-tree'', ''name-rev'', ''check-ignore'',
     ''count-objects'', ''whatchanged'', ''help'', ''version'', ''var'', ''fsck'', ''verify-commit'']"

definition WRITE_PROGRAMS :: "string list" where
  "WRITE_PROGRAMS = [''rm'', ''rmdir'', ''mv'', ''cp'', ''mkdir'', ''touch'', ''tee'', ''ln'', ''chmod'',
     ''chown'', ''chgrp'', ''truncate'', ''dd'', ''install'', ''patch'', ''shred'', ''rsync'', ''unzip'', ''gzip'',
     ''gunzip'', ''bzip2'', ''xz'', ''zip'', ''tar_'', ''unlink'', ''mkfifo'', ''mknod'']"

definition PKG_SYSTEM :: "string list" where
  "PKG_SYSTEM = [''apt'', ''apt-get'', ''aptitude'', ''dpkg'', ''yum'', ''dnf'', ''apk'', ''pacman'', ''zypper'',
     ''brew'', ''snap'', ''port'', ''rpm'']"

definition PKG_READ :: "string list" where
  "PKG_READ = [''list'', ''search'', ''show'', ''info'', ''policy'', ''query'', ''-l'', ''-L'', ''-s'', ''-S'',
     ''--list'', ''--status'', ''-q'', ''-qa'', ''-qi'', ''outdated'', ''--version'']"

definition LEAD_KEYWORDS :: "string list" where
  "LEAD_KEYWORDS = [''!'', ''{'', ''}'', ''then'', ''do'', ''else'', ''elif'', ''if'', ''while'', ''until'',
     ''time'', ''coproc'']"

definition EMPTY_KEYWORDS :: "string list" where
  "EMPTY_KEYWORDS = [''for'', ''select'', ''case'', ''done'', ''fi'', ''esac'', ''function'', ''in'']"

definition HIGH_PROGRAMS :: "(string \<times> string) list" where
  "HIGH_PROGRAMS = [(''doas'', ''doas''), (''pkexec'', ''pkexec''), (''mount'', ''mount''),
     (''umount'', ''umount''), (''swapon'', ''swapon''), (''swapoff'', ''swapoff''), (''losetup'', ''losetup''),
     (''modprobe'', ''modprobe''), (''insmod'', ''insmod''), (''rmmod'', ''rmmod''), (''iptables'', ''iptables''),
     (''ip6tables'', ''ip6tables''), (''nft'', ''nft''), (''ufw'', ''ufw''), (''firewall-cmd'', ''firewall-cmd''),
     (''useradd'', ''useradd''), (''userdel'', ''userdel''), (''usermod'', ''usermod''),
     (''groupadd'', ''groupadd''), (''passwd'', ''passwd''), (''chpasswd'', ''chpasswd''),
     (''visudo'', ''visudo''), (''chsh'', ''chsh''), (''at'', ''at''), (''fdisk'', ''fdisk''),
     (''sfdisk'', ''sfdisk''), (''cfdisk'', ''cfdisk''), (''parted'', ''parted''), (''gdisk'', ''gdisk''),
     (''sgdisk'', ''sgdisk''), (''nc'', ''nc (network)''), (''ncat'', ''ncat (network)''),
     (''netcat'', ''netcat (network)''), (''socat'', ''socat (network)''), (''telnet'', ''telnet (network)''),
     (''ssh'', ''ssh (remote)''), (''scp'', ''scp (remote)''), (''sftp'', ''sftp (remote)''),
     (''ftp'', ''ftp (remote)''), (''killall'', ''killall''), (''pkill'', ''pkill''), (''kexec'', ''kexec'')]"

section \<open>Options\<close>

definition upper_char :: "char \<Rightarrow> char" where
  "upper_char c = (let n = of_char c :: nat in
     if 97 \<le> n \<and> n \<le> 122 \<or> 224 \<le> n \<and> n \<le> 254 \<and> n \<noteq> 247 then char_of (n - 32) else c)"

definition str_upper :: "string \<Rightarrow> string" where
  "str_upper s = map upper_char s"

record options =
  op_shorts :: "char list"
  op_longs :: "string list"
  op_operands :: "string list"

fun options_loop :: "bool \<Rightarrow> string list \<Rightarrow> options \<Rightarrow> options" where
  "options_loop ended [] opts = opts"
| "options_loop ended (arg # args) opts =
    (if ended \<or> arg = ''-'' \<or> \<not> startswith arg ''-''
     then options_loop ended args (opts\<lparr>op_operands := op_operands opts @ [arg]\<rparr>)
     else if arg = ''--'' then options_loop True args opts
     else if startswith arg ''--''
     then options_loop ended args (opts\<lparr>op_longs := op_longs opts @ [upto_char (CHR ''='') arg]\<rparr>)
     else options_loop ended args (opts\<lparr>op_shorts := op_shorts opts @ drop 1 arg\<rparr>))"

definition read_options :: "string list \<Rightarrow> options" where
  "read_options args = options_loop False args \<lparr>op_shorts = [], op_longs = [], op_operands = []\<rparr>"

abbreviation any_in :: "'a list \<Rightarrow> 'a list \<Rightarrow> bool" where
  "any_in xs ys \<equiv> list_ex (\<lambda>x. x \<in> set ys) xs"

definition verb_of :: "string list \<Rightarrow> string" where
  "verb_of operands = (case operands of [] \<Rightarrow> [] | v # _ \<Rightarrow> v)"

section \<open>Handlers\<close>

definition rm_path ::
  "guarded \<Rightarrow> string \<Rightarrow> string \<Rightarrow> string \<Rightarrow> bool \<Rightarrow> string \<Rightarrow> acc \<Rightarrow> string \<Rightarrow> string \<Rightarrow> acc" where
  "rm_path g cwd prog label wipes operand a variant path =
    (if wipes \<and> is_root_like path then bump LvCatastrophic (label @ '' '' @ operand) a
        else if path \<in> {WORKSPACE, WORKSPACE @ ''/*''} then bump LvHigh (prog @ '' wipes the workspace'') a
        else check_write_target g cwd ''removes'' variant a)"

definition rm_variant ::
  "guarded \<Rightarrow> string \<Rightarrow> string \<Rightarrow> string \<Rightarrow> bool \<Rightarrow> string \<Rightarrow> acc \<Rightarrow> string \<Rightarrow> acc" where
  "rm_variant g cwd prog label wipes operand a variant =
    rm_path g cwd prog label wipes operand a variant (resolve variant cwd)"

definition rm_operand ::
  "guarded \<Rightarrow> string \<Rightarrow> string \<Rightarrow> string \<Rightarrow> bool \<Rightarrow> bool \<Rightarrow> acc \<Rightarrow> string \<Rightarrow> acc" where
  "rm_operand g cwd prog label recursive wipes a operand =
    (if unknown_value operand then (if recursive then bump LvHigh (label @ '' '' @ operand) a else a)
     else foldl (rm_variant g cwd prog label wipes operand) a (expand_braces operand))"

definition rm_handler :: "guarded \<Rightarrow> string \<Rightarrow> string \<Rightarrow> options \<Rightarrow> acc \<Rightarrow> acc" where
  "rm_handler g cwd prog opts a =
    (let recursive = any_in (op_shorts opts) ''rR'' \<or> ''--recursive'' \<in> set (op_longs opts);
         force = CHR ''f'' \<in> set (op_shorts opts) \<or> ''--force'' \<in> set (op_longs opts);
         no_preserve = ''--no-preserve-root'' \<in> set (op_longs opts);
         label = (if recursive \<or> force then ''rm -'' @ (if recursive then ''r'' else []) @ (if force then ''f'' else [])
                  else prog);
         a' = foldl (rm_operand g cwd prog label recursive (recursive \<or> no_preserve)) (writing a) (op_operands opts)
     in if recursive \<and> force then bump LvHigh ''rm -rf'' a' else bump LvMedium prog a')"

definition dd_handler :: "guarded \<Rightarrow> string \<Rightarrow> string list \<Rightarrow> acc \<Rightarrow> acc" where
  "dd_handler g cwd args a0 =
    (let a = writing a0;
         out = (case filter (\<lambda>x. startswith x ''of='') args of [] \<Rightarrow> [] | x # _ \<Rightarrow> drop 3 x);
         l = (if out \<noteq> [] then device_level out else None)
     in if l = Some LvCatastrophic then bump LvCatastrophic (''dd of='' @ out) a
        else if out \<in> set HARMLESS_DEVICES then bump LvMedium ''dd'' a
        else bump LvHigh ''dd'' (if out \<noteq> [] then check_write_target g cwd ''dd to'' out a else a))"

text \<open>The mode \<open>0?777|[ugoa]*[+=]rwx|a\+w|o\+w\<close>.\<close>

definition open_mode :: "string \<Rightarrow> bool" where
  "open_mode m \<longleftrightarrow>
    m \<in> {''777'', ''0777'', ''a+w'', ''o+w''} \<or> dropWhile (\<lambda>c. c \<in> set ''ugoa'') m \<in> {''+rwx'', ''=rwx''}"

definition wipe_variant :: "string \<Rightarrow> string \<Rightarrow> bool \<Rightarrow> acc \<Rightarrow> string \<Rightarrow> acc" where
  "wipe_variant cwd why wipes a variant =
    (if wipes \<and> is_root_like (resolve variant cwd) then bump LvCatastrophic why a else a)"

definition chmod_target :: "guarded \<Rightarrow> string \<Rightarrow> string \<Rightarrow> bool \<Rightarrow> acc \<Rightarrow> string \<Rightarrow> acc" where
  "chmod_target g cwd prog recursive a target =
    check_write_target g cwd ''changes'' target
      (foldl (wipe_variant cwd (prog @ '' -R '' @ target) recursive) a (expand_braces target))"

definition chmod_handler :: "guarded \<Rightarrow> string \<Rightarrow> string \<Rightarrow> options \<Rightarrow> acc \<Rightarrow> acc" where
  "chmod_handler g cwd prog opts a =
    (let recursive = CHR ''R'' \<in> set (op_shorts opts) \<or> ''--recursive'' \<in> set (op_longs opts);
         a1 = foldl (chmod_target g cwd prog recursive) (writing a) (drop 1 (op_operands opts));
         a2 = (if recursive then bump LvHigh (prog @ '' -R'') a1 else a1);
         a3 = (if prog = ''chmod'' \<and> open_mode (verb_of (op_operands opts)) then bump LvHigh ''chmod 777'' a2 else a2)
     in bump LvMedium prog a3)"

definition systemctl_handler :: "string list \<Rightarrow> acc \<Rightarrow> acc" where
  "systemctl_handler operands a =
    (let verb = verb_of operands
     in if verb \<in> set [''poweroff'', ''reboot'', ''halt'', ''kexec'', ''rescue'', ''emergency'']
        then bump LvCatastrophic (''systemctl '' @ verb) a
        else if verb \<in> set [''status'', ''show'', ''is-active'', ''is-enabled'', ''is-failed'', ''list-units'',
                  ''list-unit-files'', ''list-timers'', ''cat'', ''list-dependencies'', '''']
        then a else bump LvHigh (''systemctl '' @ verb) a)"

fun kill_spaced :: "string list \<Rightarrow> bool" where
  "kill_spaced (x # y # rest) = (x = ''-s'' \<and> y \<in> set [''9'', ''KILL'', ''SIGKILL''] \<or> kill_spaced (y # rest))"
| "kill_spaced _ = False"

definition kill_handler :: "string \<Rightarrow> string list \<Rightarrow> acc \<Rightarrow> acc" where
  "kill_handler prog args a =
    (let pids = filter (\<lambda>x. \<not> startswith x ''-'' \<or> x = ''-1'') args
     in if prog = ''kill'' \<and> (''-1'' \<in> set (drop 1 args) \<or> ''1'' \<in> set pids)
        then bump LvCatastrophic (if ''-1'' \<in> set (drop 1 args) then ''kill -1'' else ''kill 1'') a
        else if prog \<in> set [''pkill'', ''killall''] then bump LvHigh prog a
        else if any_in args [''-9'', ''-KILL'', ''-SIGKILL''] \<or> kill_spaced args then bump LvHigh ''kill -9'' a
        else bump LvMedium ''kill'' a)"

text \<open>What \<open>_walk\<close> gives for a text one level deeper, read from a working directory.\<close>

type_synonym walker = "string \<Rightarrow> acc \<Rightarrow> string \<Rightarrow> acc \<times> string"

definition find_inside :: "string \<Rightarrow> bool" where
  "find_inside x \<longleftrightarrow> x \<notin> set ['';'', ''+'', [backslash, CHR '';'']]"

definition find_exec :: "acc \<Rightarrow> acc \<times> bool \<Rightarrow> acc \<times> bool" where
  "find_exec inner st =
    (bump LvMedium ''find -exec'' (merge_acc inner (fst st)), snd st \<or> rank (ac_level inner) \<ge> rank LvHigh)"

function find_loop :: "walker \<Rightarrow> string \<Rightarrow> string list \<Rightarrow> acc \<times> bool \<Rightarrow> acc \<times> bool" where
  "find_loop walk cwd [] (a, destructive) = (a, destructive)"
| "find_loop walk cwd (arg # rest) (a, destructive) =
    (if arg = ''-delete'' then find_loop walk cwd rest (bump LvHigh ''find -delete'' (writing a), True)
     else if arg \<in> set [''-exec'', ''-execdir'', ''-ok'', ''-okdir''] then
       find_loop walk cwd (drop 1 (dropWhile find_inside rest))
         (find_exec (fst (walk (join '' '' (takeWhile find_inside rest)) new_acc cwd)) (a, destructive))
     else if startswith arg ''-fprint'' \<or> startswith arg ''-fls''
     then find_loop walk cwd rest (bump LvMedium ''find writes a file'' (writing a), destructive)
     else find_loop walk cwd rest (a, destructive))"
  by pat_completeness auto
termination
proof (relation "measure (\<lambda>(walk, cwd, args, st). length args)", goal_cases)
  case (3 walk cwd arg rest a destructive)
  then show ?case using length_dropWhile_le[of find_inside rest] by simp
qed simp_all

definition find_start :: "string \<Rightarrow> acc \<Rightarrow> string \<Rightarrow> acc" where
  "find_start cwd a start =
    (if CHR ''$'' \<notin> set start \<and> is_root_like (resolve start cwd)
     then bump LvCatastrophic (''find '' @ start @ '' (destructive)'') a else a)"

definition find_handler :: "walker \<Rightarrow> string \<Rightarrow> string list \<Rightarrow> acc \<Rightarrow> acc" where
  "find_handler walk cwd args a =
    (let starts = takeWhile (\<lambda>x. \<not> (startswith x ''-'' \<or> startswith x ''('' \<or> startswith x ''!'')) args;
         (a', destructive) = find_loop walk cwd args (a, False)
     in if destructive
        then foldl (find_start cwd) a' starts
        else a')"

fun git_globals :: "string list \<Rightarrow> string list" where
  "git_globals [] = []"
| "git_globals (flag # rest) =
    (if startswith flag ''-''
     then git_globals (if flag \<in> set [''-C'', ''-c'', ''--git-dir'', ''--work-tree'', ''--namespace''] then drop 1 rest
                       else rest)
     else flag # rest)"

text \<open>The read-only uses of git: the long condition of \<open>_git\<close>.\<close>

definition git_reads :: "string \<Rightarrow> options \<Rightarrow> bool" where
  "git_reads sub opts \<longleftrightarrow>
    (let shorts = op_shorts opts; longs = op_longs opts; operands = op_operands opts
     in sub \<in> set GIT_LOW \<and>
          \<not> (sub = ''grep'' \<and> (CHR ''O'' \<in> set shorts \<or> any_in longs [''--open-files-in-pager'', ''--output''])) \<or>
        sub = ''branch'' \<and> operands = [] \<and> \<not> any_in shorts ''dDmMcCu'' \<and>
          \<not> any_in longs [''--delete'', ''--move'', ''--copy'', ''--set-upstream-to''] \<or>
        sub = ''tag'' \<and> (operands = [] \<or> CHR ''l'' \<in> set shorts \<or> ''--list'' \<in> set longs) \<and> \<not> any_in shorts ''dasf'' \<or>
        sub = ''remote'' \<and> (operands = [] \<or> operands = [''show''] \<or> take 1 operands = [''-v'']) \<and>
          list_all (\<lambda>c. c = CHR ''v'') shorts \<and> longs = [] \<or>
        sub \<in> {''stash'', ''reflog''} \<and> (operands = [] \<or> hd operands \<in> {''list'', ''show''}) \<or>
        sub = '''')"

definition git_sub :: "string \<Rightarrow> options \<Rightarrow> acc \<Rightarrow> acc" where
  "git_sub sub opts a =
    (let shorts = op_shorts opts; longs = op_longs opts; operands = op_operands opts;
         finish = (\<lambda>a. bump LvMedium (''git '' @ sub)
           (if sub \<notin> set (GIT_LOW @ [''push'', ''ls-remote'']) \<and>
               \<not> (sub \<in> set [''branch'', ''tag'', ''remote'', ''stash'', ''reflog''] \<and> ac_level a = LvLow)
            then writing a else a))
     in if sub = ''push'' \<and> (CHR ''f'' \<in> set shorts \<or>
             any_in longs [''--force'', ''--force-with-lease'', ''--mirror'', ''--delete''] \<or>
             list_ex (\<lambda>x. startswith x ''+'') operands)
        then finish (bump LvHigh ''git push --force'' a)
        else if sub = ''reset'' \<and> ''--hard'' \<in> set longs then finish (bump LvHigh ''git reset --hard'' (writing a))
        else if sub = ''clean'' \<and> (CHR ''f'' \<in> set shorts \<or> ''--force'' \<in> set longs)
        then finish (bump LvHigh ''git clean -f'' (writing a))
        else if sub = ''config'' then
          (if any_in longs [''--get'', ''--get-all'', ''--get-regexp'', ''--list''] \<or> CHR ''l'' \<in> set shorts then finish a
           else if any_in longs [''--global'', ''--system'']
           then finish (bump LvHigh ''git config --global'' (protecting (writing a)))
           else finish (bump LvMedium ''git config'' (writing a)))
        else if git_reads sub opts then a
        else finish a)"

definition git_handler :: "string list \<Rightarrow> acc \<Rightarrow> acc" where
  "git_handler args a = (let rest = git_globals args in git_sub (verb_of rest) (read_options (drop 1 rest)) a)"

fun curl_requests :: "string list \<Rightarrow> bool" where
  "curl_requests [] = False"
| "curl_requests (arg # rest) =
    (arg \<in> {''-X'', ''--request''} \<and> rest \<noteq> [] \<and> str_upper (hd rest) \<notin> {''GET'', ''HEAD''} \<or>
     startswith (str_upper arg) ''-X'' \<and> length arg > 2 \<and> str_upper (drop 2 arg) \<notin> {''GET'', ''HEAD''} \<or>
     curl_requests rest)"

definition fetch_handler :: "string \<Rightarrow> string list \<Rightarrow> options \<Rightarrow> acc \<Rightarrow> acc" where
  "fetch_handler prog args opts a =
    (let (upload, a') =
       (if prog = ''curl'' then
          (any_in (op_shorts opts) ''dFT'' \<or>
           any_in (op_longs opts) [''--data'', ''--data-binary'', ''--data-raw'', ''--data-urlencode'', ''--data-ascii'',
             ''--form'', ''--form-string'', ''--upload-file'', ''--json''] \<or> curl_requests args,
           if any_in (op_shorts opts) ''oO'' \<or> any_in (op_longs opts) [''--output'', ''--remote-name''] then writing a
           else a)
        else
          (list_ex (\<lambda>x. startswith x ''--post-data'' \<or> startswith x ''--post-file'' \<or> startswith x ''--body-data'' \<or>
             startswith x ''--body-file'') args \<or>
           list_ex (\<lambda>x. str_upper x \<in> set [''--METHOD=POST'', ''--METHOD=PUT'', ''--METHOD=PATCH'', ''--METHOD=DELETE''])
             args, writing a))
     in if upload then bump LvHigh (prog @ '' uploads data'') a' else bump LvMedium prog a')"

definition node_packages :: "string \<Rightarrow> string list \<Rightarrow> options \<Rightarrow> acc \<Rightarrow> acc" where
  "node_packages prog args opts a =
    (let verb = verb_of (op_operands opts)
     in if verb \<in> set [''ls'', ''list'', ''view'', ''outdated'', ''info'', ''why'', ''audit'', ''root'', ''bin'', ''''] \<and>
           list_all (\<lambda>c. c = CHR ''v'') (op_shorts opts) then a
        else if CHR ''g'' \<in> set (op_shorts opts) \<or> ''--global'' \<in> set (op_longs opts) \<or> verb = ''global'' \<or>
                ''--location=global'' \<in> set args
        then bump LvHigh (prog @ '' global install'') a
        else bump LvMedium prog
          (a\<lparr>ac_writes := verb \<in> set [''install'', ''i'', ''add'', ''ci'', ''update'', ''remove'', ''uninstall'', ''rm'',
               ''link'', ''init'']\<rparr>))"

definition pip_handler :: "string \<Rightarrow> string list \<Rightarrow> options \<Rightarrow> acc \<Rightarrow> acc" where
  "pip_handler prog args opts a =
    (if verb_of (op_operands opts) \<in> set [''list'', ''show'', ''freeze'', ''check'', ''search'', ''''] \<or>
        args = [''--version''] then a
     else if any_in (op_longs opts) [''--user'', ''--break-system-packages'', ''--root''] \<or> ''--target=/'' \<in> set args
     then bump LvHigh (prog @ '' install outside the workspace'') a
     else bump LvMedium prog (writing a))"

definition system_packages :: "string \<Rightarrow> string list \<Rightarrow> string list \<Rightarrow> acc \<Rightarrow> acc" where
  "system_packages prog args operands a =
    (if verb_of operands \<in> set PKG_READ \<or> any_in (take 1 args) PKG_READ then a
     else bump LvHigh (prog @ '' changes system packages'') a)"

definition host_volume :: "string \<Rightarrow> bool" where
  "host_volume =
    (let flag = re_seq [re_alt [re_start, re_char is_space], re_str ''-v'', re_star is_space]
     in re_search (re_alt [
          re_seq [flag, re_str ''/:''],
          re_seq [re_str ''--volume'', re_char (\<lambda>c. c = CHR ''='' \<or> c = CHR '' ''), re_str ''/:''],
          re_seq [flag, re_str ''/'', re_alt (map re_str [''etc'', ''root'', ''var'', ''usr'']), re_str '':'']]))"

definition contains :: "string \<Rightarrow> string \<Rightarrow> bool" where
  "contains s p \<longleftrightarrow> re_search (re_str p) s"

definition docker_handler :: "string \<Rightarrow> string list \<Rightarrow> string list \<Rightarrow> acc \<Rightarrow> acc" where
  "docker_handler prog args operands a =
    (let line = join '' '' args
     in if any_in args [''--privileged'', ''--pid=host'', ''--net=host''] \<or> contains line ''docker.sock'' \<or>
           host_volume line
        then bump LvHigh (prog @ '' with host access'') a
        else if verb_of operands \<in> set [''ps'', ''images'', ''inspect'', ''logs'', ''version'', ''info'', ''top'', ''stats'', '''']
        then a else bump LvMedium prog a)"

text \<open>\<open>^([^/\s]+@)?[^/\s:]+:\<close>: a remote host before the path.\<close>

definition remote_operand :: "string \<Rightarrow> bool" where
  "remote_operand w \<longleftrightarrow>
    re_match (re_seq [
      re_opt (re_seq [re_plus (\<lambda>c. c \<noteq> CHR ''/'' \<and> \<not> is_space c), re_str ''@'']),
      re_plus (\<lambda>c. c \<noteq> CHR ''/'' \<and> \<not> is_space c \<and> c \<noteq> CHR '':''), re_str '':'']) w \<or>
    startswith w ''rsync://''"

definition rsync_handler :: "guarded \<Rightarrow> string \<Rightarrow> string list \<Rightarrow> acc \<Rightarrow> acc" where
  "rsync_handler g cwd operands a =
    (if list_ex remote_operand operands then bump LvHigh ''rsync to a remote host'' (writing a)
     else let a' = bump LvMedium ''rsync'' (writing a)
          in if operands \<noteq> [] then check_write_target g cwd ''writes'' (last operands) a' else a')"

section \<open>Programs\<close>

definition trim_version :: "string \<Rightarrow> string" where
  "trim_version prog =
    (let trim = (\<lambda>s. rev (dropWhile (\<lambda>c. is_digit c \<or> c = CHR ''.'') (rev s)))
     in if prog \<noteq> [] \<and> last prog = newline then trim (butlast prog) @ [newline] else trim prog)"

definition is_interpreter :: "string \<Rightarrow> bool" where
  "is_interpreter prog \<longleftrightarrow> trim_version prog \<in> set INTERPRETERS \<or> prog \<in> set INTERPRETERS \<or> prog = ''uv''"

definition is_pip :: "string \<Rightarrow> bool" where
  "is_pip prog \<longleftrightarrow> prog \<in> {''pip'', ''pip3'', ''pipx''} \<or>
     startswith prog ''pip'' \<and> py_isdigit (filter (\<lambda>c. c \<noteq> CHR ''.'') (drop 3 prog))"

definition write_targets :: "guarded \<Rightarrow> string \<Rightarrow> string \<Rightarrow> string list \<Rightarrow> acc \<Rightarrow> acc" where
  "write_targets g cwd verb operands a = fold (check_write_target g cwd verb) operands a"

definition mv_operand :: "string \<Rightarrow> acc \<Rightarrow> string \<Rightarrow> acc" where
  "mv_operand cwd a operand = foldl (wipe_variant cwd (''mv '' @ operand) True) a (expand_braces operand)"

definition mv_handler :: "guarded \<Rightarrow> string \<Rightarrow> string list \<Rightarrow> acc \<Rightarrow> acc" where
  "mv_handler g cwd operands a =
    (let a1 = foldl (mv_operand cwd) a operands
     in bump LvMedium ''mv'' (write_targets g cwd ''moves'' operands a1))"

definition sed_handler :: "guarded \<Rightarrow> string \<Rightarrow> string list \<Rightarrow> options \<Rightarrow> acc \<Rightarrow> acc" where
  "sed_handler g cwd args opts a =
    (let in_place = CHR ''i'' \<in> set (op_shorts opts) \<or> ''--in-place'' \<in> set (op_longs opts) \<or>
                    list_ex (\<lambda>x. startswith x ''-i'') args
     in if in_place
        then bump LvMedium ''sed -i'' (writing (write_targets g cwd ''edits''
               (if any_in (op_shorts opts) ''ef'' then op_operands opts else drop 1 (op_operands opts)) a))
        else bump LvMedium ''sed'' a)"

definition copy_handler :: "guarded \<Rightarrow> string \<Rightarrow> string \<Rightarrow> string list \<Rightarrow> options \<Rightarrow> acc \<Rightarrow> acc" where
  "copy_handler g cwd prog args opts a =
    (let operands = op_operands opts;
         dest = (if CHR ''t'' \<notin> set (op_shorts opts) \<and> ''-t'' \<notin> set args
                 then (if operands = [] then [] else [last operands]) else operands)
     in bump LvMedium prog (writing (write_targets g cwd ''writes'' dest a)))"

definition tar_lists :: "string list \<Rightarrow> options \<Rightarrow> bool" where
  "tar_lists args opts \<longleftrightarrow>
    (let flags = op_shorts opts @ concat (map (drop 1) (filter (\<lambda>x. \<not> startswith x ''-'') (take 1 args)))
     in CHR ''t'' \<in> set flags \<and> CHR ''x'' \<notin> set flags \<and> CHR ''c'' \<notin> set flags)"

text \<open>
  The chain of \<open>_program\<close>, whose branches update the verdict; two of them return at once, which is the flag of the
  result. The last two statements of \<open>_program\<close> are \<open>program_end\<close>.
\<close>

definition program_branch ::
  "guarded \<Rightarrow> walker \<Rightarrow> string \<Rightarrow> string list \<Rightarrow> options \<Rightarrow> string \<Rightarrow> acc \<Rightarrow> acc \<times> bool" where
  "program_branch g walk prog args opts cwd a =
    (let shorts = op_shorts opts; longs = op_longs opts; operands = op_operands opts in
     if prog \<in> set [''rm'', ''unlink'', ''shred'', ''rmdir''] then (rm_handler g cwd prog opts a, False)
     else if startswith prog ''mkfs'' \<or> prog \<in> set DISK_FORMAT
     then (bump LvCatastrophic (prog @ '' formats a disk'') a, False)
     else if prog \<in> set POWER then (bump LvCatastrophic prog a, False)
     else if prog \<in> set [''init'', ''telinit''] then
       (bump (if take 1 operands \<in> {[''0''], [''6'']} then LvCatastrophic else LvHigh)
         (strip (prog @ '' '' @ join '' '' (take 1 operands))) a, False)
     else if prog = ''systemctl'' then (systemctl_handler operands a, False)
     else if prog = ''service'' then
       (bump (if take 1 (drop 1 operands) = [''status''] then LvMedium else LvHigh) ''service'' a, False)
     else if prog = ''dd'' then (dd_handler g cwd args a, False)
     else if prog \<in> set [''chmod'', ''chown'', ''chgrp''] then (chmod_handler g cwd prog opts a, False)
     else if prog = ''mv'' then (mv_handler g cwd operands a, False)
     else if prog \<in> set [''cp'', ''install'', ''ln''] then (copy_handler g cwd prog args opts a, False)
     else if prog \<in> set [''touch'', ''mkdir'', ''tee'', ''truncate'', ''mkfifo'', ''mknod'', ''patch''] then
       (bump LvMedium prog (writing (write_targets g cwd ''writes'' operands a)), False)
     else if prog = ''sed'' then (sed_handler g cwd args opts a, False)
     else if prog = ''find'' then (find_handler walk cwd args a, False)
     else if prog = ''git'' then (git_handler args a, False)
     else if prog \<in> set [''curl'', ''wget''] then (fetch_handler prog args opts a, False)
     else if prog = ''rsync'' then (rsync_handler g cwd operands a, False)
     else if prog \<in> set [''kill'', ''pkill'', ''killall''] then (kill_handler prog args a, False)
     else if prog \<in> set [''npm'', ''pnpm'', ''yarn'', ''bun'', ''npx''] then (node_packages prog args opts a, False)
     else if is_pip prog then (pip_handler prog args opts a, False)
     else if prog \<in> set PKG_SYSTEM then (system_packages prog args operands a, False)
     else if prog \<in> set [''gem'', ''cargo''] \<and> take 1 operands = [''install''] then
       (bump LvHigh (prog @ '' install (global)'') a, False)
     else if prog = ''crontab'' then (bump (if CHR ''l'' \<in> set shorts then LvMedium else LvHigh) ''crontab'' a, False)
     else if prog \<in> set [''docker'', ''podman''] then (docker_handler prog args operands a, False)
     else if prog \<in> set [''env'', ''printenv'', ''set''] then
       (if prog \<noteq> ''set'' then bump LvMedium (prog @ '' dumps the environment'') a else a, False)
     else if prog = ''tar'' then
       (if tar_lists args opts then (a, True) else (bump LvMedium ''tar'' (writing a), False))
     else if prog = ''sort'' \<and> (CHR ''o'' \<in> set shorts \<or> ''--output'' \<in> set longs) then
       (bump LvMedium ''sort -o'' (writing a), False)
     else if prog = ''date'' \<and> (CHR ''s'' \<in> set shorts \<or> ''--set'' \<in> set longs) then (bump LvHigh ''date -s'' a, False)
     else if prog = ''hostname'' \<and> operands \<noteq> [] then (bump LvHigh ''hostname'' a, False)
     else if is_interpreter prog then (bump LvMedium prog a, False)
     else if args \<in> set [[''--version''], [''-V''], [''-v''], [''--help''], [''-h''], [''version'']] \<or>
             prog \<in> set LOW_PROGRAMS then (a, True)
     else
       (let b = (case map_of HIGH_PROGRAMS prog of Some why \<Rightarrow> bump LvHigh why a | None \<Rightarrow> bump LvMedium prog a)
        in (if prog \<in> set WRITE_PROGRAMS then writing b else b, False)))"

definition program_end :: "string \<Rightarrow> acc \<Rightarrow> acc" where
  "program_end prog a =
    (let b = (case map_of HIGH_PROGRAMS prog of
                Some why \<Rightarrow> if prog \<notin> {''killall'', ''pkill''} then bump LvHigh why a else a
              | None \<Rightarrow> a)
     in if prog \<in> set WRITE_PROGRAMS then writing b else b)"

definition note_network :: "acc \<Rightarrow> string \<Rightarrow> acc" where
  "note_network a arg =
    (if startswith arg ''/dev/tcp/'' \<or> startswith arg ''/dev/udp/'' then bump LvHigh ''network through /dev/tcp'' a else a)"

definition program :: "guarded \<Rightarrow> walker \<Rightarrow> string \<Rightarrow> string list \<Rightarrow> string \<Rightarrow> acc \<Rightarrow> acc" where
  "program g walk prog args cwd a =
    (case program_branch g walk prog args (read_options args) cwd (foldl note_network a args) of
       (b, returned) \<Rightarrow> if returned then b else program_end prog b)"

end
