(* ===== verification/Command_Risk.thy ===== *)
theory Command_Risk
  imports Command_Programs
begin

text \<open>
  From the commands the lexer finds to one verdict: \<open>_walk\<close>, \<open>_judge\<close>, \<open>_unwrap\<close> and \<open>_interpreter\<close> of
  \<open>command_risk.py\<close> and the entry point \<open>assess\<close>. The source bounds the nesting of commands inside commands by
  \<open>_MAX_DEPTH\<close>; \<open>walk\<close> counts the levels that are left, so \<open>walk n\<close> is \<open>_walk\<close> at depth \<open>_MAX_DEPTH + 1 - n\<close> and
  every call ends. A wrapper (\<open>sudo\<close>, \<open>env\<close>, \<open>timeout\<close>, ...) is judged by what it runs, which has fewer words.
\<close>

section \<open>Wrappers\<close>

definition is_assignment :: "string \<Rightarrow> bool" where
  "is_assignment w \<longleftrightarrow> leading_name w \<noteq> [] \<and> startswith (drop (length (leading_name w)) w) ''=''"

definition strip_leading :: "string list \<Rightarrow> string list" where
  "strip_leading words =
    (let ws = dropWhile (\<lambda>w. w \<in> set LEAD_KEYWORDS) words
     in if ws \<noteq> [] \<and> hd ws \<in> set EMPTY_KEYWORDS then [] else ws)"

function skip_options :: "string list \<Rightarrow> string list \<Rightarrow> string list" where
  "skip_options with_value [] = []"
| "skip_options with_value (flag # rest) =
    (if startswith flag ''-'' \<and> flag \<noteq> ''-'' then
       (if flag = ''--'' then rest
        else if flag \<in> set with_value then skip_options with_value (drop 1 rest)
        else skip_options with_value rest)
     else flag # rest)"
  by pat_completeness auto
termination by (relation "measure (\<lambda>(with_value, args). length args)") simp_all

text \<open>The word after the first \<open>-c\<close>, when there is one.\<close>

definition after_c :: "string list \<Rightarrow> string option" where
  "after_c args = (case dropWhile (\<lambda>w. w \<noteq> ''-c'') args of _ # w # _ \<Rightarrow> Some w | _ \<Rightarrow> None)"

definition unwrap :: "string \<Rightarrow> string list \<Rightarrow> acc \<Rightarrow> acc \<times> string list option" where
  "unwrap prog args a =
    (if prog \<in> set [''sudo'', ''doas'', ''pkexec''] then
       (bump LvHigh prog a,
        Some (skip_options [''-u'', ''-g'', ''-p'', ''-C'', ''-D'', ''-R'', ''-T'', ''-r'', ''-t'', ''-h'', ''-U'', ''--user'',
          ''--group''] args))
     else if prog = ''su'' then
       (bump LvHigh ''su'' a, Some (case after_c args of Some w \<Rightarrow> [''sh'', ''-c'', w] | None \<Rightarrow> []))
     else if prog = ''env'' then
       (let rest = dropWhile is_assignment (skip_options [''-u'', ''-C'', ''-S'', ''--unset'', ''--chdir''] args)
        in (if rest = [] then bump LvMedium ''env dumps the environment'' a else a, Some rest))
     else if prog \<in> set [''nohup'', ''time'', ''setsid'', ''unbuffer'', ''builtin'', ''exec'', ''busybox'', ''chrt'', ''taskset'']
     then (a, Some (skip_options (if prog = ''exec'' then [''-n'', ''-p'', ''-a''] else []) args))
     else if prog \<in> set [''nice'', ''ionice''] then (a, Some (skip_options [''-n'', ''-c'', ''-p''] args))
     else if prog = ''stdbuf'' then (a, Some (skip_options [''-i'', ''-o'', ''-e''] args))
     else if prog = ''timeout'' then
       (a, Some (drop 1 (skip_options [''-s'', ''-k'', ''--signal'', ''--kill-after''] args)))
     else if prog = ''command'' then
       (a, Some (if args \<noteq> [] \<and> hd args \<in> {''-v'', ''-V''} then [] else skip_options [] args))
     else if prog = ''xargs'' then
       (let rest = skip_options [''-n'', ''-I'', ''-P'', ''-d'', ''-L'', ''-s'', ''-a'', ''-E'', ''-i'', ''--max-args'',
          ''--max-procs'', ''--delimiter''] args
        in (a, Some (if rest = [] then [''echo''] else rest)))
     else (a, None))"

section \<open>Interpreters and skill scripts\<close>

definition under_skills :: "string \<Rightarrow> string \<Rightarrow> bool" where
  "under_skills path cwd \<longleftrightarrow>
    CHR ''$'' \<notin> set path \<and> CHR ''*'' \<notin> set path \<and> startswith (resolve path cwd) SKILLS_PREFIX"

fun skill_operand :: "string \<Rightarrow> string list \<Rightarrow> bool" where
  "skill_operand cwd [] = False"
| "skill_operand cwd (arg # rest) =
    (if arg \<in> set [''-c'', ''-m'', ''-e'', ''-p'', ''--eval'', ''--print''] then False
     else if startswith arg ''-'' then skill_operand cwd rest
     else under_skills arg cwd)"

definition skill_invocation :: "string \<Rightarrow> string \<Rightarrow> string list \<Rightarrow> string \<Rightarrow> bool" where
  "skill_invocation prog_word prog args cwd \<longleftrightarrow>
    (if startswith prog_word ''/'' \<or> startswith prog_word ''./'' then under_skills prog_word cwd
     else if prog \<in> set SHELLS \<or> trim_version prog \<in> set INTERPRETERS \<or> prog = ''uv'' then
       (if prog = ''uv'' then args \<noteq> [] \<and> hd args = ''run'' \<and> skill_operand cwd (drop 1 args)
        else skill_operand cwd args)
     else False)"

text \<open>A command inside another: its verdict is merged, and unless it is low the whole is no mere skill script.\<close>

definition add_inner :: "acc \<Rightarrow> acc \<Rightarrow> acc" where
  "add_inner inner a = (if ac_level inner \<noteq> LvLow then no_skills (merge_acc inner a) else merge_acc inner a)"

definition interpreter ::
  "guarded \<Rightarrow> walker \<Rightarrow> string \<Rightarrow> string list \<Rightarrow> string \<Rightarrow> bool \<Rightarrow> bool \<Rightarrow> acc \<Rightarrow> acc" where
  "interpreter g walk prog args cwd shell_input fetches a =
    (if prog = ''eval'' then merge_acc (fst (walk (join '' '' args) new_acc cwd)) (bump LvHigh ''eval'' a)
     else if prog = ''uv'' \<and> \<not> (args \<noteq> [] \<and> hd args = ''run'' \<and> \<not> any_in args [''-c'', ''-m''])
     then program g walk prog args cwd a
     else let b =
       (case (if prog \<in> set SHELLS then after_c args else None) of
          Some script \<Rightarrow>
            add_inner (fst (walk script new_acc cwd)) (bump LvMedium (prog @ '' -c'') a)
        | None \<Rightarrow>
            if prog \<in> {''source'', ''.''} then bump LvMedium ''source'' a
            else if shell_input \<and> list_all (\<lambda>x. startswith x ''-'') args then bump LvHigh (''pipe into '' @ prog) a
            else bump LvMedium prog a)
       in if fetches then bump LvHigh (''runs downloaded code with '' @ prog) b else b)"

section \<open>One command\<close>

definition dangerous_names :: "string list" where
  "dangerous_names = [''LD_PRELOAD'', ''LD_LIBRARY_PATH'', ''PATH'', ''BASH_ENV'', ''ENV'', ''PYTHONSTARTUP'']"

definition note_assignment :: "acc \<Rightarrow> string \<Rightarrow> acc" where
  "note_assignment a w =
    (let name = upto_char (CHR ''='') w in if name \<in> set dangerous_names then bump LvHigh (''sets '' @ name) a else a)"

text \<open>What \<open>_judge\<close> does with a program that wraps nothing.\<close>

definition judge_plain ::
  "guarded \<Rightarrow> walker \<Rightarrow> string \<Rightarrow> string list \<Rightarrow> shell_cmd \<Rightarrow> string \<Rightarrow> bool \<Rightarrow> acc \<Rightarrow> acc" where
  "judge_plain g walk prog args cmd cwd shell_input a =
    (if prog \<notin> set SHELLS \<and> args \<in> set [[''--version''], [''-V''], [''-v''], [''version'']] \<and> sc_redirects cmd = [] then a
     else if prog \<in> set SHELLS \<or> prog \<in> {''source'', ''.'', ''eval''} \<or> is_interpreter prog
     then interpreter g walk prog args cwd shell_input (list_ex fetch_pattern (sc_subs cmd)) a
     else program g walk prog args cwd a)"

definition judge_redirect :: "guarded \<Rightarrow> string \<Rightarrow> acc \<Rightarrow> string \<times> string \<Rightarrow> acc" where
  "judge_redirect g cwd a r = redirect g cwd (snd r) a"

definition judge_start :: "guarded \<Rightarrow> string list \<Rightarrow> shell_cmd \<Rightarrow> acc \<Rightarrow> string \<Rightarrow> acc" where
  "judge_start g words cmd a cwd =
    foldl note_assignment (foldl (judge_redirect g cwd) a (sc_redirects cmd))
      (takeWhile is_assignment words)"

definition prog_of :: "string \<Rightarrow> string" where
  "prog_of prog_word = (if CHR ''/'' \<in> set prog_word then basename prog_word else prog_word)"

lemma length_skip_options: "length (skip_options vs args) \<le> length args"
  by (induction vs args rule: skip_options.induct) auto

text \<open>What a wrapper runs is shorter than the wrapper, or is one of two commands that wrap nothing.\<close>

definition plain_words :: "string list \<Rightarrow> bool" where
  "plain_words ws \<longleftrightarrow> ws = [''echo''] \<or> (\<exists>w. ws = [''sh'', ''-c'', w])"

lemma unwrap_shorter:
  assumes "unwrap prog args a = (b, Some ws)"
  shows "length ws \<le> length args \<or> plain_words ws"
proof -
  have *: "length (skip_options vs args) \<le> length args" "length (drop 1 (skip_options vs args)) \<le> length args"
    "length (dropWhile is_assignment (skip_options vs args)) \<le> length args" for vs
    using length_skip_options[of vs args] length_dropWhile_le[of is_assignment "skip_options vs args"]
    by (auto simp only: length_drop intro: order_trans)
  from assms show ?thesis
    unfolding unwrap_def Let_def
    by (auto simp: plain_words_def * simp del: length_drop One_nat_def set_simps split: if_splits option.splits)
qed

definition judge_size :: "string list \<Rightarrow> nat" where
  "judge_size ws = (if plain_words ws then 0 else Suc (length ws))"

lemma plain_words_strip: "plain_words ws \<Longrightarrow> strip_leading ws = ws"
  by (auto simp: plain_words_def strip_leading_def LEAD_KEYWORDS_def EMPTY_KEYWORDS_def)

lemma length_strip_leading: "length (strip_leading ws) \<le> length ws"
  using length_dropWhile_le[of "\<lambda>w. w \<in> set LEAD_KEYWORDS" ws] by (simp add: strip_leading_def Let_def)

lemma plain_words_unwrap:
  assumes "plain_words words" and "dropWhile is_assignment words = w # args"
  shows "snd (unwrap (prog_of w) args a) = None"
proof -
  have "\<not> is_assignment ''echo''" "\<not> is_assignment ''sh''" by code_simp+
  with assms have "w = ''echo'' \<or> w = ''sh''" by (auto simp: plain_words_def)
  moreover have "prog_of ''echo'' = ''echo''" "prog_of ''sh'' = ''sh''" by (simp_all add: prog_of_def)
  ultimately show ?thesis by (auto simp: unwrap_def)
qed

lemma strip_leading_size:
  assumes "unwrap (prog_of w) args a = (b, Some ws)" and "dropWhile is_assignment words = w # args"
  shows "judge_size (strip_leading ws) < judge_size words"
proof -
  have "\<not> plain_words words" using plain_words_unwrap[OF _ assms(2), of a] assms(1) by auto
  moreover have "length args < length words"
    using assms(2) length_dropWhile_le[of is_assignment words] by simp
  moreover have "length (strip_leading ws) \<le> length args \<or> plain_words (strip_leading ws)"
    using unwrap_shorter[OF assms(1)] plain_words_strip length_strip_leading[of ws] by fastforce
  ultimately show ?thesis by (auto simp: judge_size_def)
qed

text \<open>The verdict when the name of the program is known: whether it is a skill script is noted.\<close>

definition note_skill :: "bool \<Rightarrow> acc \<Rightarrow> acc" where
  "note_skill skill a = (if skill then a\<lparr>ac_skills_seen := True\<rparr> else no_skills a)"

definition judge_head :: "guarded \<Rightarrow> string list \<Rightarrow> shell_cmd \<Rightarrow> acc \<Rightarrow> string \<Rightarrow> string \<Rightarrow> string list \<Rightarrow> acc" where
  "judge_head g words cmd a cwd w args =
    note_skill (skill_invocation w (prog_of w) args cwd) (judge_start g words cmd a cwd)"

definition add_wrapped :: "acc \<Rightarrow> acc \<Rightarrow> acc" where
  "add_wrapped sub a = (merge_acc sub a)\<lparr>ac_skills_ok := ac_skills_ok a \<and> ac_skills_ok sub\<rparr>"

function judge_cmd ::
  "guarded \<Rightarrow> walker \<Rightarrow> string list \<Rightarrow> shell_cmd \<Rightarrow> acc \<Rightarrow> string \<Rightarrow> bool \<Rightarrow> acc" where
  "judge_cmd g walk words cmd a cwd shell_input =
    (case dropWhile is_assignment words of
       [] \<Rightarrow> judge_start g words cmd a cwd
     | w # args \<Rightarrow>
         if CHR ''$'' \<in> set w then bump LvHigh ''runs a program it cannot name'' (judge_start g words cmd a cwd)
         else (case unwrap (prog_of w) args (judge_head g words cmd a cwd w args) of
                 (b, Some inner) \<Rightarrow>
                   add_wrapped (judge_cmd g walk (strip_leading inner)
                     (cmd\<lparr>sc_words := strip_leading inner, sc_redirects := []\<rparr>) new_acc cwd shell_input) b
               | (b, None) \<Rightarrow> judge_plain g walk (prog_of w) args cmd cwd shell_input b))"
  by pat_completeness auto
termination
proof (relation "measure (\<lambda>(g, walk, words, cmd, a, cwd, shell_input). judge_size words)", goal_cases)
  case 2
  then show ?case by (auto dest: strip_leading_size[OF sym])
qed simp

declare judge_cmd.simps [simp del]

section \<open>A text\<close>

definition walk_sub :: "walker \<Rightarrow> string \<Rightarrow> acc \<Rightarrow> string \<Rightarrow> acc" where
  "walk_sub walk cwd a sub = add_inner (fst (walk sub new_acc cwd)) a"

definition next_cwd :: "string list \<Rightarrow> string \<Rightarrow> string" where
  "next_cwd words cwd =
    (if words \<noteq> [] \<and> hd words = ''cd''
     then let target = (if length words > 1 then words ! 1 else ''~'')
          in if CHR ''$'' \<notin> set target then resolve target cwd else ''/''
     else cwd)"

definition add_verdict :: "acc \<Rightarrow> acc \<Rightarrow> acc" where
  "add_verdict verdict a =
    (if ac_level verdict \<noteq> LvLow
     then (if ac_skills_seen verdict \<and> ac_skills_ok verdict then (merge_acc verdict a)\<lparr>ac_skills_seen := True\<rparr>
           else no_skills (merge_acc verdict a))
     else merge_acc verdict a)"

definition walk_words ::
  "guarded \<Rightarrow> walker \<Rightarrow> string list \<Rightarrow> shell_cmd \<Rightarrow> acc \<Rightarrow> string \<Rightarrow> shell_cmd list \<Rightarrow> acc \<times> string \<times> shell_cmd list" where
  "walk_words g walk words cmd a cwd pipeline =
    (add_verdict (judge_cmd g walk words cmd new_acc cwd (pipeline \<noteq> [])) a, cwd, pipeline @ [cmd])"

definition walk_cmd ::
  "guarded \<Rightarrow> walker \<Rightarrow> acc \<times> string \<times> shell_cmd list \<Rightarrow> shell_cmd \<Rightarrow> acc \<times> string \<times> shell_cmd list" where
  "walk_cmd g walk st cmd =
    (case st of (a, cwd, pipeline) \<Rightarrow>
       walk_words g walk (strip_leading (sc_words cmd)) cmd (foldl (walk_sub walk cwd) a (sc_subs cmd))
         (next_cwd (strip_leading (sc_words cmd)) cwd) (if \<not> sc_piped_in cmd then [] else pipeline))"

definition note_bomb :: "bool \<Rightarrow> acc \<Rightarrow> acc" where
  "note_bomb bomb a = (if bomb then no_skills (bump LvCatastrophic ''fork bomb'' a) else a)"

primrec walk :: "nat \<Rightarrow> guarded \<Rightarrow> walker" where
  "walk 0 g text a cwd = (no_skills (bump LvHigh ''nested too deeply to read'' a), cwd)"
| "walk (Suc n) g text a cwd =
    (case foldl (walk_cmd g (walk n g)) (note_bomb (fork_bomb text) a, cwd, []) (lex_text text) of
       (b, cwd', _) \<Rightarrow> (b, cwd'))"

definition MAX_DEPTH :: nat where "MAX_DEPTH = 6"

record assessment =
  as_level :: level
  as_reason :: string
  as_writes :: bool
  as_protected_write :: bool
  as_skill_script :: bool

definition assessment_of :: "acc \<Rightarrow> assessment" where
  "assessment_of a =
    \<lparr>as_level = ac_level a, as_reason = ac_reason a, as_writes = ac_writes a, as_protected_write = ac_protected a,
     as_skill_script = ac_skills_seen a \<and> ac_skills_ok a \<and> rank (ac_level a) < rank LvHigh\<rparr>"

definition assess :: "guarded \<Rightarrow> string \<Rightarrow> assessment" where
  "assess g command = assessment_of (fst (walk (Suc MAX_DEPTH) g command new_acc WORKSPACE))"

definition classify :: "guarded \<Rightarrow> string \<Rightarrow> level" where
  "classify g command = as_level (assess g command)"

end
