(* ===== verification/Command_Sound.thy ===== *)
theory Command_Sound
  imports Command_Risk
begin

text \<open>
  What every step of the classifier keeps: a verdict only rises, it is at least high as soon as a protected path is
  written, and at least medium whenever the command is known to write. \<open>rises\<close> relates a verdict to a later one,
  \<open>sound_step\<close> adds the writes; each handler, wrapper and walk is shown to be such a step, and the guarantees about
  \<open>assess\<close> follow from the step that starts at the empty verdict. Then the floors: what is enough for a level.
\<close>

section \<open>Steps that only raise a verdict\<close>

definition rises :: "acc \<Rightarrow> acc \<Rightarrow> bool" where
  "rises a b \<longleftrightarrow> ac_level a \<le> ac_level b \<and> (ac_protected b \<longrightarrow> ac_protected a \<or> LvHigh \<le> ac_level b)"

definition sound_step :: "acc \<Rightarrow> acc \<Rightarrow> bool" where
  "sound_step a b \<longleftrightarrow> rises a b \<and> (ac_writes b \<longrightarrow> ac_writes a \<or> LvMedium \<le> ac_level b)"

definition acc_ok :: "acc \<Rightarrow> bool" where
  "acc_ok a \<longleftrightarrow> (ac_protected a \<longrightarrow> LvHigh \<le> ac_level a) \<and> (ac_writes a \<longrightarrow> LvMedium \<le> ac_level a)"

definition sound_walk :: "walker \<Rightarrow> bool" where
  "sound_walk w \<longleftrightarrow> (\<forall>s a cwd. sound_step a (fst (w s a cwd)))"

lemma max_level [simp]:
  "max l m = LvLow \<longleftrightarrow> l = LvLow \<and> m = LvLow" "max l m = LvCatastrophic \<longleftrightarrow> l = LvCatastrophic \<or> m = LvCatastrophic"
  "max LvCatastrophic m = LvCatastrophic" "max m LvCatastrophic = LvCatastrophic"
  for l m :: level
  by (cases l; cases m; simp add: max_def less_eq_level_def)+

lemma level_trans [trans]: "a \<le> b \<Longrightarrow> b \<le> c \<Longrightarrow> a \<le> c" for a b c :: level
  by (rule order_trans)

named_theorems rising \<open>steps that raise a verdict\<close>

lemma rises_refl [rising]: "rises a a"
  by (simp add: rises_def)

lemma rises_trans: "rises a b \<Longrightarrow> rises b c \<Longrightarrow> rises a c"
  unfolding rises_def by (meson order_trans)

lemma rises_bump [rising]: "rises a b \<Longrightarrow> rises a (bump l why b)"
  unfolding rises_def by (auto simp: le_max_iff_disj simp del: level_order)

lemma rises_protecting [rising]: "rises a b \<Longrightarrow> rises a (bump LvHigh why (protecting b))"
  unfolding rises_def by (auto simp: le_max_iff_disj simp del: level_order)

lemma rises_flags [rising]:
  "rises a b \<Longrightarrow> rises a (b\<lparr>ac_writes := x\<rparr>)" "rises a b \<Longrightarrow> rises a (b\<lparr>ac_skills_ok := x\<rparr>)"
  "rises a b \<Longrightarrow> rises a (b\<lparr>ac_skills_seen := x\<rparr>)"
  by (simp_all add: rises_def)

lemma rises_merge [rising]: "rises a b \<Longrightarrow> acc_ok s \<Longrightarrow> rises a (merge_acc s b)"
  unfolding rises_def acc_ok_def by (auto simp: le_max_iff_disj simp del: level_order)

lemma rises_if [rising]: "(c \<Longrightarrow> rises a b) \<Longrightarrow> (\<not> c \<Longrightarrow> rises a b') \<Longrightarrow> rises a (if c then b else b')"
  by simp

lemma rises_foldl: "rises a b \<Longrightarrow> (\<And>b x. rises b (f b x)) \<Longrightarrow> rises a (foldl f b xs)"
  by (induction xs arbitrary: b) (simp_all, blast intro: rises_trans)

lemma sound_refl: "sound_step a a"
  by (simp add: sound_step_def rises_refl)

lemma sound_trans: "sound_step a b \<Longrightarrow> sound_step b c \<Longrightarrow> sound_step a c"
  unfolding sound_step_def rises_def by (meson order_trans)

lemma sound_medium: "rises a b \<Longrightarrow> ac_level b \<noteq> LvLow \<Longrightarrow> sound_step a b"
  by (simp add: sound_step_def)

lemma sound_same: "rises a b \<Longrightarrow> ac_writes b = ac_writes a \<Longrightarrow> sound_step a b"
  by (simp add: sound_step_def)

lemma sound_foldl: "sound_step a b \<Longrightarrow> (\<And>b x. sound_step b (f b x)) \<Longrightarrow> sound_step a (foldl f b xs)"
  by (induction xs arbitrary: b) (simp_all, blast intro: sound_trans)

lemma sound_rises: "sound_step a b \<Longrightarrow> rises a b"
  by (simp add: sound_step_def)

lemma sound_bump: "sound_step a b \<Longrightarrow> sound_step a (bump l why b)"
  by (erule sound_trans) (rule sound_same, simp_all add: rising)

lemma sound_flags:
  "sound_step a b \<Longrightarrow> sound_step a (b\<lparr>ac_skills_ok := x\<rparr>)" "sound_step a b \<Longrightarrow> sound_step a (b\<lparr>ac_skills_seen := x\<rparr>)"
  by (simp_all add: sound_step_def rising)

lemma sound_merge: "sound_step a b \<Longrightarrow> acc_ok s \<Longrightarrow> sound_step a (merge_acc s b)"
  unfolding sound_step_def using rises_merge[of a b s]
  by (auto simp: acc_ok_def le_max_iff_disj simp del: level_order)

lemma sound_if: "(c \<Longrightarrow> sound_step a b) \<Longrightarrow> (\<not> c \<Longrightarrow> sound_step a b') \<Longrightarrow> sound_step a (if c then b else b')"
  by simp

lemmas sound_intros = sound_refl sound_bump sound_flags sound_merge sound_if

lemma new_acc_sel [simp]:
  "ac_level new_acc = LvLow" "ac_writes new_acc = False" "ac_protected new_acc = False" "ac_skills_seen new_acc = False"
  "ac_skills_ok new_acc"
  by (simp_all add: new_acc_def)

lemma acc_ok_from_new: "sound_step new_acc a \<Longrightarrow> acc_ok a"
  by (simp add: sound_step_def rises_def acc_ok_def)

lemma acc_ok_walk: "sound_walk w \<Longrightarrow> acc_ok (fst (w s new_acc cwd))"
  by (simp add: sound_walk_def acc_ok_from_new)

section \<open>Paths\<close>

lemma rises_check_variant: "rises a (check_variant g cwd verb a v)"
  by (auto simp: check_variant_def check_path_def intro: rising split: option.split)

lemma rises_write_target: "rises a b \<Longrightarrow> rises a (check_write_target g cwd verb raw b)"
  unfolding check_write_target_def
  by (rule rises_trans, assumption) (auto intro!: rises_foldl rises_check_variant intro: rising)

lemma sound_redirect: "sound_step a (redirect g cwd target a)"
proof -
  have "rises a (redirect g cwd target a)"
    by (auto simp: redirect_def intro!: rising rises_write_target)
  then show ?thesis by (auto simp: redirect_def sound_refl intro: sound_medium)
qed

section \<open>Handlers\<close>

lemma rises_rm_operand: "rises a (rm_operand g cwd prog label r w a x)"
proof -
  have "rises b (rm_variant g cwd prog label w x b v)" for b v
    by (auto simp: rm_variant_def rm_path_def intro!: rising rises_write_target)
  then show ?thesis by (auto simp: rm_operand_def intro!: rising intro: rises_foldl)
qed

lemma sound_rm: "sound_step a (rm_handler g cwd prog opts a)"
  unfolding rm_handler_def Let_def
  by (auto intro!: sound_medium rising rises_foldl rises_rm_operand)

lemma sound_dd: "sound_step a (dd_handler g cwd args a)"
  unfolding dd_handler_def Let_def
  by (auto intro!: sound_medium rising rises_write_target)

lemma rises_wipe_variant: "rises a (wipe_variant cwd why w a v)"
  unfolding wipe_variant_def by (intro rising)

lemma sound_chmod: "sound_step a (chmod_handler g cwd prog opts a)"
proof -
  have "rises b (chmod_target g cwd prog r b t)" for b r t
    unfolding chmod_target_def by (intro rises_write_target rises_foldl rises_wipe_variant rises_refl)
  then show ?thesis
    unfolding chmod_handler_def Let_def by (auto intro!: sound_medium rising rises_foldl)
qed

lemma sound_systemctl: "sound_step a (systemctl_handler operands a)"
  unfolding systemctl_handler_def Let_def by (intro sound_intros)

lemma sound_kill: "sound_step a (kill_handler prog args a)"
  unfolding kill_handler_def Let_def by (intro sound_intros)

lemma sound_fst_if:
  "(c \<Longrightarrow> sound_step a (fst x)) \<Longrightarrow> (\<not> c \<Longrightarrow> sound_step a (fst y)) \<Longrightarrow> sound_step a (fst (if c then x else y))"
  by simp

lemma sound_find_loop: "sound_walk w \<Longrightarrow> sound_step a (fst st) \<Longrightarrow> sound_step a (fst (find_loop w cwd args st))"
proof (induction w cwd args st rule: find_loop.induct)
  case (2 walk cwd arg rest b destructive)
  have wr: "sound_step a (bump l why (writing b))" if "l \<noteq> LvLow" for l why
    using "2.prems"(2) that by (auto simp: sound_rises intro!: sound_medium rising)
  have ex: "sound_step a (fst (find_exec (fst (walk s new_acc cwd)) (b, d)))" for s d
    using "2.prems" by (auto simp: find_exec_def intro!: sound_bump sound_merge acc_ok_walk)
  show ?case
    unfolding find_loop.simps Let_def
    by (intro sound_fst_if; rule "2.IH"; (assumption | rule refl | simp add: "2.prems"[simplified] wr ex)?)
qed simp

lemma sound_find: "sound_walk w \<Longrightarrow> sound_step a (find_handler w cwd args a)"
  unfolding find_handler_def find_start_def Let_def case_prod_beta
  by (intro sound_if sound_foldl sound_bump sound_find_loop sound_refl) (simp_all add: sound_refl)

lemma sound_git: "sound_step a (git_handler args a)"
  unfolding git_handler_def git_sub_def Let_def
  by (intro sound_if; (rule sound_refl)?; intro sound_medium rising; simp)

lemma sound_fetch: "sound_step a (fetch_handler prog args opts a)"
  unfolding fetch_handler_def Let_def by (auto intro!: sound_medium rising)

lemma sound_node: "sound_step a (node_packages prog args opts a)"
  unfolding node_packages_def Let_def by (auto intro!: sound_refl sound_medium rising)

lemma sound_pip: "sound_step a (pip_handler prog args opts a)"
  unfolding pip_handler_def Let_def by (auto intro!: sound_refl sound_medium rising)

lemma sound_packages: "sound_step a (system_packages prog args operands a)"
  unfolding system_packages_def by (intro sound_intros)

lemma sound_docker: "sound_step a (docker_handler prog args operands a)"
  unfolding docker_handler_def Let_def by (intro sound_intros)

lemma level_write_target: "l \<le> ac_level a \<Longrightarrow> l \<le> ac_level (check_write_target g cwd verb raw a)"
  using rises_write_target[OF rises_refl, of a g cwd verb raw] unfolding rises_def by (meson order_trans)

lemma sound_rsync: "sound_step a (rsync_handler g cwd operands a)"
proof -
  have "LvMedium \<le> ac_level (check_write_target g cwd verb raw (bump LvMedium why b))" for verb raw why b
    by (rule level_write_target) simp
  then show ?thesis
    unfolding rsync_handler_def Let_def
    using level_simps(5) by (auto intro!: sound_medium rising rises_write_target)
qed

lemma rises_write_targets: "rises a b \<Longrightarrow> rises a (write_targets g cwd verb operands b)"
  unfolding write_targets_def by (induction operands arbitrary: b) (simp_all add: rises_write_target)

lemma sound_mv: "sound_step a (mv_handler g cwd operands a)"
  unfolding mv_handler_def Let_def mv_operand_def
  by (intro sound_medium rises_bump rises_write_targets rises_foldl rises_wipe_variant rises_refl) simp

lemma sound_sed: "sound_step a (sed_handler g cwd args opts a)"
  unfolding sed_handler_def Let_def by (auto intro!: sound_medium rising rises_write_targets)

lemma sound_copy: "sound_step a (copy_handler g cwd prog args opts a)"
  unfolding copy_handler_def Let_def by (auto intro!: sound_medium rising rises_write_targets)

lemmas sound_handlers = sound_rm sound_dd sound_chmod sound_systemctl sound_kill sound_find sound_git sound_fetch
  sound_node sound_pip sound_packages sound_docker sound_rsync sound_mv sound_sed sound_copy

section \<open>Programs, wrappers and interpreters\<close>

lemma sound_raised: "rises a b \<Longrightarrow> l \<noteq> LvLow \<Longrightarrow> sound_step a (bump l why b)"
  by (rule sound_medium) (auto intro: rising)

lemma sound_other_program:
  "sound_step a (if c then writing (case hp of Some why \<Rightarrow> bump LvHigh why a | None \<Rightarrow> bump LvMedium prog a)
                 else (case hp of Some why \<Rightarrow> bump LvHigh why a | None \<Rightarrow> bump LvMedium prog a))"
  by (auto intro!: sound_medium rising split: option.split)

lemma sound_program_branch: "sound_walk w \<Longrightarrow> sound_step a (fst (program_branch g w prog args opts cwd a))"
  unfolding program_branch_def Let_def
  by (intro sound_fst_if; unfold fst_conv;
      (rule sound_handlers, assumption | rule sound_handlers sound_refl sound_other_program
        | rule sound_raised, intro rises_refl rises_flags rises_write_targets, simp | intro sound_if sound_bump sound_refl))

lemma sound_program_end:
  assumes "sound_step a b" and "prog \<in> set WRITE_PROGRAMS \<Longrightarrow> ac_level b \<noteq> LvLow"
  shows "sound_step a (program_end prog b)"
proof -
  define b' where "b' = (case map_of HIGH_PROGRAMS prog of
      Some why \<Rightarrow> if prog \<notin> {''killall'', ''pkill''} then bump LvHigh why b else b | None \<Rightarrow> b)"
  have "b' = b \<or> (\<exists>why. b' = bump LvHigh why b)" by (auto simp: b'_def split: option.split)
  then have b': "sound_step a b'" "prog \<in> set WRITE_PROGRAMS \<Longrightarrow> ac_level b' \<noteq> LvLow"
    using assms sound_bump[OF assms(1)] by auto
  have "sound_step a (writing b')" if "prog \<in> set WRITE_PROGRAMS"
    using b'(2)[OF that] by (simp add: sound_medium rises_flags sound_rises[OF b'(1)])
  with b'(1) show ?thesis by (simp add: program_end_def b'_def[symmetric])
qed

text \<open>A program known to write leaves the chain of \<open>_program\<close> above low, unless it returned there.\<close>

lemma not_low_if: "(c \<Longrightarrow> ac_level x \<noteq> LvLow) \<Longrightarrow> (\<not> c \<Longrightarrow> ac_level y \<noteq> LvLow) \<Longrightarrow> ac_level (if c then x else y) \<noteq> LvLow"
  by simp

lemma not_low_bump: "l \<noteq> LvLow \<Longrightarrow> ac_level (bump l why a) \<noteq> LvLow"
  by simp

lemma writer_levels:
  "ac_level (rm_handler g cwd prog opts a) \<noteq> LvLow" "ac_level (dd_handler g cwd args a) \<noteq> LvLow"
  "ac_level (chmod_handler g cwd prog opts a) \<noteq> LvLow" "ac_level (mv_handler g cwd operands a) \<noteq> LvLow"
  "ac_level (copy_handler g cwd prog args opts a) \<noteq> LvLow"
  unfolding rm_handler_def dd_handler_def chmod_handler_def mv_handler_def copy_handler_def Let_def
  by (intro not_low_if not_low_bump level.distinct[symmetric] level.distinct)+

lemma rsync_level: "ac_level (rsync_handler g cwd operands a) \<noteq> LvLow"
  using level_write_target[of LvMedium "bump LvMedium ''rsync'' (writing a)" g cwd "''writes''" "last operands"]
  by (auto simp: rsync_handler_def Let_def)

definition quiet_program :: "string \<Rightarrow> bool" where
  "quiet_program prog \<longleftrightarrow> is_pip prog \<or> prog \<in> set PKG_SYSTEM \<or>
     prog \<in> set [''systemctl'', ''find'', ''git'', ''npm'', ''pnpm'', ''yarn'', ''bun'', ''npx'', ''docker'', ''podman'', ''env'',
       ''printenv'', ''set'']"

lemma writers_not_quiet: "prog \<in> set WRITE_PROGRAMS \<Longrightarrow> \<not> quiet_program prog"
proof -
  have "list_all (\<lambda>p. \<not> quiet_program p) WRITE_PROGRAMS" by code_simp
  then show "prog \<in> set WRITE_PROGRAMS \<Longrightarrow> \<not> quiet_program prog" unfolding list_all_iff by blast
qed

definition loud :: "acc \<times> bool \<Rightarrow> bool" where
  "loud p \<longleftrightarrow> snd p \<or> ac_level (fst p) \<noteq> LvLow"

lemma loud_if: "(c \<Longrightarrow> loud x) \<Longrightarrow> (\<not> c \<Longrightarrow> loud y) \<Longrightarrow> loud (if c then x else y)"
  by simp

lemma loud_levels:
  "l \<noteq> LvLow \<Longrightarrow> loud (bump l why a, r)" "loud (a, True)" "ac_level a \<noteq> LvLow \<Longrightarrow> loud (a, r)"
  by (simp_all add: loud_def)

lemma other_levels:
  "ac_level (sed_handler g cwd args opts a) \<noteq> LvLow" "ac_level (fetch_handler prog args opts a) \<noteq> LvLow"
  "ac_level (kill_handler prog args a) \<noteq> LvLow"
  "ac_level (if c then writing (case hp of Some why \<Rightarrow> bump LvHigh why a | None \<Rightarrow> bump LvMedium prog a)
             else (case hp of Some why \<Rightarrow> bump LvHigh why a | None \<Rightarrow> bump LvMedium prog a)) \<noteq> LvLow"
  unfolding sed_handler_def fetch_handler_def kill_handler_def Let_def case_prod_beta
  by (intro not_low_if not_low_bump level.distinct[symmetric]; simp split: option.split)+

lemma program_branch_loud:
  assumes "\<not> quiet_program prog"
  shows "loud (program_branch g w prog args opts cwd a)"
  unfolding program_branch_def Let_def
  by (intro loud_if; (rule loud_levels(2) | rule loud_levels(1), rule level.distinct[symmetric]
    | rule loud_levels(3), rule writer_levels rsync_level other_levels
    | rule loud_levels(1), simp | rule notE[OF assms], unfold quiet_program_def, auto))

lemma sound_program: "sound_walk w \<Longrightarrow> sound_step a (program g w prog args cwd a)"
proof -
  assume w: "sound_walk w"
  define a0 where "a0 = foldl note_network a args"
  obtain b r where br: "program_branch g w prog args (read_options args) cwd a0 = (b, r)" by fastforce
  have a0: "sound_step a a0" unfolding a0_def note_network_def by (intro sound_foldl sound_if sound_bump sound_refl)
  then have b: "sound_step a b" using sound_program_branch[OF w, of a0 g prog args "read_options args" cwd] br by (auto intro: sound_trans)
  have "sound_step a (program_end prog b)" if "\<not> r"
    using program_branch_loud[OF writers_not_quiet, of prog g w args "read_options args" cwd a0] br that
    by (intro sound_program_end[OF b]) (simp add: loud_def)
  with b br show ?thesis by (simp add: program_def a0_def[symmetric])
qed

lemma sound_unwrap: "sound_step a (fst (unwrap prog args a))"
  unfolding unwrap_def Let_def by (intro sound_fst_if; unfold fst_conv; intro sound_intros)

lemma sound_add_inner: "sound_step a b \<Longrightarrow> acc_ok s \<Longrightarrow> sound_step a (add_inner s b)"
  unfolding add_inner_def by (intro sound_intros)

lemma sound_interpreter: "sound_walk w \<Longrightarrow> sound_step a (interpreter g w prog args cwd si fetches a)"
  unfolding interpreter_def Let_def
  by (auto intro!: sound_intros sound_add_inner sound_program acc_ok_walk split: option.split)

lemma sound_judge_plain: "sound_walk w \<Longrightarrow> sound_step a (judge_plain g w prog args cmd cwd si a)"
  unfolding judge_plain_def by (intro sound_if sound_refl sound_interpreter sound_program)

lemma sound_judge_start: "sound_step a (judge_start g words cmd a cwd)"
  unfolding judge_start_def note_assignment_def judge_redirect_def Let_def
  by (intro sound_foldl sound_if sound_bump sound_refl sound_redirect)

lemma sound_judge_head: "sound_step a (judge_head g words cmd a cwd w args)"
  unfolding judge_head_def note_skill_def by (intro sound_if sound_flags sound_judge_start)

lemma sound_judge: "sound_walk w \<Longrightarrow> sound_step a (judge_cmd g w words cmd a cwd si)"
proof (induction g w words cmd a cwd si rule: judge_cmd.induct)
  case (1 g w words cmd a cwd si)
  show ?case
  proof (cases "dropWhile is_assignment words")
    case Nil
    then show ?thesis by (subst judge_cmd.simps) (simp only: list.case sound_judge_start)
  next
    case (Cons pw args)
    obtain b inner where u: "unwrap (prog_of pw) args (judge_head g words cmd a cwd pw args) = (b, inner)" by fastforce
    then have "sound_step (judge_head g words cmd a cwd pw args) b"
      using sound_unwrap[of "judge_head g words cmd a cwd pw args" "prog_of pw" args] by simp
    with sound_judge_head have b: "sound_step a b" by (rule sound_trans)
    have named: "sound_step a (judge_cmd g w words cmd a cwd si)" if "CHR ''$'' \<notin> set pw"
    proof (cases inner)
      case None
      have "judge_cmd g w words cmd a cwd si = judge_plain g w (prog_of pw) args cmd cwd si b"
        using Cons u None that by (subst judge_cmd.simps) simp
      then show ?thesis using sound_trans[OF b sound_judge_plain[OF "1.prems"]] by simp
    next
      case (Some ws)
      let ?sub = "judge_cmd g w (strip_leading ws) (cmd\<lparr>sc_words := strip_leading ws, sc_redirects := []\<rparr>) new_acc cwd si"
      have "acc_ok ?sub"
        using "1.IH"[OF Cons that u[symmetric, unfolded Some] refl "1.prems"] by (rule acc_ok_from_new)
      moreover have "judge_cmd g w words cmd a cwd si = add_wrapped ?sub b"
        using Cons u Some that by (subst judge_cmd.simps) simp
      ultimately show ?thesis using b by (simp add: add_wrapped_def sound_flags sound_merge)
    qed
    show ?thesis
    proof (cases "CHR ''$'' \<in> set pw")
      case True
      then have "judge_cmd g w words cmd a cwd si = bump LvHigh ''runs a program it cannot name'' (judge_start g words cmd a cwd)"
        using Cons by (subst judge_cmd.simps) simp
      then show ?thesis by (simp add: sound_bump sound_judge_start)
    qed (rule named)
  qed
qed

lemma sound_walk_cmd: "sound_walk w \<Longrightarrow> sound_step a (fst (walk_cmd g w (a, cwd, pl) cmd))"
proof -
  assume w: "sound_walk w"
  have "sound_step b (walk_sub w cwd b s)" for b s
    unfolding walk_sub_def by (intro sound_add_inner sound_refl acc_ok_walk w)
  then have "sound_step a (foldl (walk_sub w cwd) a (sc_subs cmd))" by (intro sound_foldl sound_refl)
  then show ?thesis
    unfolding walk_cmd_def walk_words_def add_verdict_def prod.case fst_conv
    by (intro sound_intros acc_ok_from_new sound_judge w)
qed

lemma sound_walk_all: "sound_walk (walk n g)"
proof (induction n)
  case 0
  then show ?case unfolding sound_walk_def walk.simps fst_conv by (intro allI sound_intros)
next
  case (Suc n)
  have "sound_step a (fst (foldl (walk_cmd g (walk n g)) st cmds))" if "sound_step a (fst st)" for a st cmds
    using that
  proof (induction cmds arbitrary: st)
    case (Cons cmd cmds)
    have "sound_step a (fst (walk_cmd g (walk n g) st cmd))"
      using sound_trans[OF Cons.prems sound_walk_cmd[OF Suc, of "fst st" g "fst (snd st)" "snd (snd st)" cmd]] by simp
    then show ?case using Cons.IH by simp
  qed simp
  then show ?case
    unfolding sound_walk_def walk.simps case_prod_beta fst_conv note_bomb_def
    by (intro allI) (simp add: sound_intros)
qed

section \<open>The parts of a text\<close>

text \<open>Skill scripts are noted only with a part that is not low.\<close>

definition seen_ok :: "acc \<Rightarrow> bool" where
  "seen_ok a \<longleftrightarrow> (ac_skills_seen a \<longrightarrow> ac_level a \<noteq> LvLow)"

lemma walk_subs_seen: "seen_ok a \<Longrightarrow> seen_ok (foldl (walk_sub w cwd) a subs)"
  by (induction subs arbitrary: a) (auto simp: seen_ok_def walk_sub_def add_inner_def)

lemma walk_cmd_seen: "seen_ok (fst st) \<Longrightarrow> seen_ok (fst (walk_cmd g w st cmd))"
  using walk_subs_seen[of "fst st" w "fst (snd st)" "sc_subs cmd"]
  by (auto simp: walk_cmd_def walk_words_def add_verdict_def seen_ok_def split: prod.split)

lemma walk_cmds_seen: "seen_ok (fst st) \<Longrightarrow> seen_ok (fst (foldl (walk_cmd g w) st cmds))"
  by (induction cmds arbitrary: st) (simp_all add: walk_cmd_seen)

lemma walk_seen: "seen_ok a \<Longrightarrow> seen_ok (fst (walk (Suc n) g s a cwd))"
  using walk_cmds_seen[of "(note_bomb (fork_bomb s) a, cwd, [])" g "walk n g" "lex_text s"]
  by (auto simp: case_prod_beta seen_ok_def note_bomb_def)

text \<open>The state of \<open>_walk\<close> in front of a part of the text.\<close>

definition state_before :: "nat \<Rightarrow> guarded \<Rightarrow> string \<Rightarrow> acc \<Rightarrow> string \<Rightarrow> shell_cmd list \<Rightarrow> acc \<times> string \<times> shell_cmd list" where
  "state_before n g s a cwd pre =
    foldl (walk_cmd g (walk n g)) (note_bomb (fork_bomb s) a, cwd, []) pre"

lemma walk_cmds_rise: "ac_level (fst st) \<le> ac_level (fst (foldl (walk_cmd g (walk n g)) st cmds))"
proof (induction cmds arbitrary: st)
  case (Cons cmd cmds)
  have "ac_level (fst st) \<le> ac_level (fst (walk_cmd g (walk n g) st cmd))"
    using sound_walk_cmd[OF sound_walk_all, of "fst st" g n g "fst (snd st)" "snd (snd st)" cmd]
    by (simp add: sound_step_def rises_def)
  then show ?case using Cons.IH[of "walk_cmd g (walk n g) st cmd"] by simp
qed simp

lemma walk_sub_level: "ac_level (walk_sub w cwd a sub) = max (ac_level (fst (w sub new_acc cwd))) (ac_level a)"
  by (simp add: walk_sub_def add_inner_def)

lemma walk_sub_levels:
  "sub \<in> set subs \<Longrightarrow> ac_level (fst (w sub new_acc cwd)) \<le> ac_level (foldl (walk_sub w cwd) a subs)"
proof (induction subs arbitrary: a)
  case (Cons x subs)
  have mono: "ac_level b \<le> ac_level (foldl (walk_sub w cwd) b ys)" for b ys
  proof (induction ys arbitrary: b)
    case (Cons y ys)
    have "ac_level b \<le> ac_level (walk_sub w cwd b y)" by (simp add: walk_sub_level)
    also have "\<dots> \<le> ac_level (foldl (walk_sub w cwd) (walk_sub w cwd b y) ys)" by (rule Cons.IH)
    finally show ?case by simp
  qed simp
  show ?case
  proof (cases "sub = x")
    case True
    have "ac_level (fst (w x new_acc cwd)) \<le> ac_level (walk_sub w cwd a x)" by (simp add: walk_sub_level)
    also have "\<dots> \<le> ac_level (foldl (walk_sub w cwd) (walk_sub w cwd a x) subs)" by (rule mono)
    finally show ?thesis using True by simp
  qed (use Cons in simp)
qed simp

lemma walk_part:
  assumes "lex_text s = pre @ cmd # post" and "state_before n g s a cwd pre = (b, cwd', pl)"
  shows "\<forall>sub\<in>set (sc_subs cmd). ac_level (fst (walk n g sub new_acc cwd')) \<le> ac_level (fst (walk (Suc n) g s a cwd))"
    and "ac_level (judge_cmd g (walk n g) (strip_leading (sc_words cmd)) cmd new_acc
           (next_cwd (strip_leading (sc_words cmd)) cwd') (sc_piped_in cmd \<and> pl \<noteq> []))
         \<le> ac_level (fst (walk (Suc n) g s a cwd))"
proof -
  let ?st = "walk_cmd g (walk n g) (b, cwd', pl) cmd"
  have "fst (walk (Suc n) g s a cwd) = fst (foldl (walk_cmd g (walk n g)) ?st post)"
    using assms by (simp add: state_before_def case_prod_beta)
  then have rest: "ac_level (fst ?st) \<le> ac_level (fst (walk (Suc n) g s a cwd))"
    using walk_cmds_rise[of ?st g n post] by simp
  let ?v = "judge_cmd g (walk n g) (strip_leading (sc_words cmd)) cmd new_acc (next_cwd (strip_leading (sc_words cmd)) cwd')
    ((if \<not> sc_piped_in cmd then [] else pl) \<noteq> [])"
  have st: "ac_level (fst ?st) = max (ac_level ?v) (ac_level (foldl (walk_sub (walk n g) cwd') b (sc_subs cmd)))"
    by (simp add: walk_cmd_def walk_words_def add_verdict_def)
  show "\<forall>sub\<in>set (sc_subs cmd). ac_level (fst (walk n g sub new_acc cwd')) \<le> ac_level (fst (walk (Suc n) g s a cwd))"
  proof
    fix sub
    assume "sub \<in> set (sc_subs cmd)"
    then show "ac_level (fst (walk n g sub new_acc cwd')) \<le> ac_level (fst (walk (Suc n) g s a cwd))"
      using walk_sub_levels[of sub "sc_subs cmd" "walk n g" cwd' b] rest st by (auto simp: max_def split: if_splits)
  qed
  have "((if \<not> sc_piped_in cmd then [] else pl) \<noteq> []) = (sc_piped_in cmd \<and> pl \<noteq> [])" by simp
  then show "ac_level (judge_cmd g (walk n g) (strip_leading (sc_words cmd)) cmd new_acc
           (next_cwd (strip_leading (sc_words cmd)) cwd') (sc_piped_in cmd \<and> pl \<noteq> []))
         \<le> ac_level (fst (walk (Suc n) g s a cwd))"
    using rest st by (simp add: max_def split: if_splits)
qed

end
