(* ===== verification/Command_Correct.thy ===== *)
theory Command_Correct
  imports Command_Sound
begin

text \<open>
  What a caller of the classifier may rely on: the fields of an assessment agree with each other, no part of a command
  is read as less than it is, and what is enough for a part, wherever it stands on the line, to make the whole
  catastrophic or high.
\<close>

section \<open>Every part counts\<close>

lemma state_before_append:
  "state_before n g s a cwd (pre @ [cmd]) = walk_cmd g (walk n g) (state_before n g s a cwd pre) cmd"
  by (simp add: state_before_def)

lemma walk_cmd_pipeline: "snd (snd (walk_cmd g w st cmd)) \<noteq> []"
  by (simp add: walk_cmd_def walk_words_def split: prod.split)

lemma state_before_pipeline: "pre \<noteq> [] \<Longrightarrow> snd (snd (state_before n g s a cwd pre)) \<noteq> []"
  by (cases pre rule: rev_cases) (simp_all add: state_before_append walk_cmd_pipeline)

lemma part_floor:
  assumes "cmd \<in> set (lex_text s)"
    and "\<And>cwd si. l \<le> ac_level (judge_cmd g (walk MAX_DEPTH g) (strip_leading (sc_words cmd)) cmd new_acc cwd si)"
  shows "l \<le> classify g s"
proof -
  obtain pre post where s: "lex_text s = pre @ cmd # post" using assms(1) by (auto simp: in_set_conv_decomp)
  obtain b cwd pl where st: "state_before MAX_DEPTH g s new_acc WORKSPACE pre = (b, cwd, pl)"
    by (cases "state_before MAX_DEPTH g s new_acc WORKSPACE pre")
  show ?thesis
    using order_trans[OF assms(2) walk_part(2)[OF s st]] by (simp add: classify_def assess_def assessment_of_def)
qed

lemma piped_floor:
  assumes "lex_text s = pre @ cmd # post" and "pre \<noteq> []" and "sc_piped_in cmd"
    and "\<And>cwd. l \<le> ac_level (judge_cmd g (walk MAX_DEPTH g) (strip_leading (sc_words cmd)) cmd new_acc cwd True)"
  shows "l \<le> classify g s"
proof -
  obtain b cwd pl where st: "state_before MAX_DEPTH g s new_acc WORKSPACE pre = (b, cwd, pl)"
    by (cases "state_before MAX_DEPTH g s new_acc WORKSPACE pre")
  have "(sc_piped_in cmd \<and> pl \<noteq> []) = True" using assms(3) state_before_pipeline[OF assms(2), of MAX_DEPTH g s new_acc WORKSPACE] st by simp
  then show ?thesis
    using walk_part(2)[OF assms(1) st] assms(4)[of "next_cwd (strip_leading (sc_words cmd)) cwd"]
    by (simp add: classify_def assess_def assessment_of_def)
qed

section \<open>What one command comes to\<close>

lemma judge_unnamed:
  assumes "dropWhile is_assignment words = w # args" and "CHR ''$'' \<in> set w"
  shows "LvHigh \<le> ac_level (judge_cmd g wk words cmd a cwd si)"
  using assms by (subst judge_cmd.simps) (simp add: le_max_iff_disj del: level_order)

lemma judge_wrapped:
  assumes "dropWhile is_assignment words = w # args" and "CHR ''$'' \<notin> set w"
    and "unwrap (prog_of w) args (judge_head g words cmd a cwd w args) = (b, Some inner)"
  shows "ac_level (judge_cmd g wk words cmd a cwd si) =
    max (ac_level (judge_cmd g wk (strip_leading inner) (cmd\<lparr>sc_words := strip_leading inner, sc_redirects := []\<rparr>) new_acc cwd si))
      (ac_level b)"
  using assms by (subst judge_cmd.simps) (simp add: add_wrapped_def)

lemma judge_unwrapped:
  assumes "dropWhile is_assignment words = w # args" and "CHR ''$'' \<notin> set w"
    and "unwrap (prog_of w) args (judge_head g words cmd a cwd w args) = (b, None)"
  shows "judge_cmd g wk words cmd a cwd si = judge_plain g wk (prog_of w) args cmd cwd si b"
  using assms by (subst judge_cmd.simps) simp

lemma level_rises: "rises a b \<Longrightarrow> ac_level a \<le> ac_level b"
  by (simp add: rises_def)

lemma judge_privilege:
  assumes "dropWhile is_assignment words = w # args" and "CHR ''$'' \<notin> set w"
    and "prog_of w \<in> {''sudo'', ''doas'', ''pkexec'', ''su''}"
  shows "LvHigh \<le> ac_level (judge_cmd g wk words cmd a cwd si)"
proof -
  define h where "h = judge_head g words cmd a cwd w args"
  obtain inner why where "unwrap (prog_of w) args h = (bump LvHigh why h, Some inner)"
    using assms(3) by (auto simp: unwrap_def)
  from judge_wrapped[OF assms(1,2) this[unfolded h_def]] show ?thesis
    by (simp add: le_max_iff_disj del: level_order)
qed

lemma judge_eval:
  assumes "dropWhile is_assignment words = ''eval'' # args" and "args \<notin> set [[''--version''], [''-V''], [''-v''], [''version'']]"
  shows "LvHigh \<le> ac_level (judge_cmd g wk words cmd a cwd si)"
proof -
  have *: "unwrap (prog_of ''eval'') args b = (b, None)" "CHR ''$'' \<notin> set ''eval''" "prog_of ''eval'' = ''eval''"
    "''eval'' \<notin> set SHELLS" for b
    by (simp_all add: prog_of_def unwrap_def SHELLS_def)
  show ?thesis
    using assms(2) by (simp add: judge_unwrapped[OF assms(1) *(2) *(1)] *(3,4) judge_plain_def interpreter_def
        le_max_iff_disj del: level_order)
qed

lemma not_wrapper:
  assumes "prog \<in> set SHELLS \<or> prog = ''rm''"
  shows "unwrap prog args a = (a, None)"
proof -
  have "list_all (\<lambda>p. snd (unwrap p args a) = None \<and> fst (unwrap p args a) = a) (''rm'' # SHELLS)"
    by (simp add: SHELLS_def unwrap_def)
  with assms show ?thesis unfolding list_all_iff by (metis list.set_intros prod.collapse)
qed

lemma judge_piped_shell:
  assumes "dropWhile is_assignment words = w # args" and "CHR ''$'' \<notin> set w" and "prog_of w \<in> set SHELLS"
    and "after_c args = None" and "list_all (\<lambda>x. startswith x ''-'') args"
  shows "LvHigh \<le> ac_level (judge_cmd g wk words cmd a cwd True)"
proof -
  have "prog_of w \<notin> {''eval'', ''uv'', ''source'', ''.''}" using assms(3) by (auto simp: SHELLS_def)
  then show ?thesis
    using assms(3-5) by (simp add: judge_unwrapped[OF assms(1,2) not_wrapper] judge_plain_def interpreter_def
        Let_def le_max_iff_disj del: level_order)
qed

section \<open>Recursive deletion\<close>












section \<open>The guarantees\<close>

lemma assessment_consistent_skill:
  assumes "as_skill_script (assess g c)"
  shows "as_level (assess g c) = LvMedium"
proof -
  define a where "a = fst (walk (Suc MAX_DEPTH) g c new_acc WORKSPACE)"
  have "seen_ok a" unfolding a_def by (rule walk_seen) (simp add: seen_ok_def)
  moreover have "rank l < rank LvHigh \<Longrightarrow> l \<noteq> LvLow \<Longrightarrow> l = LvMedium" for l by (cases l) simp_all
  ultimately show ?thesis
    using assms unfolding assess_def a_def[symmetric] assessment_of_def seen_ok_def by simp
qed

text \<open>
  C27. The fields of an assessment agree: a command known to write is at least medium, one that writes a protected file
  or directory is at least high, and one that only runs skill scripts is exactly medium, so it is neither low nor a
  risk a preset has to ask about.
\<close>

theorem assessment_consistent:
  "(as_writes (assess g c) \<longrightarrow> LvMedium \<le> as_level (assess g c)) \<and>
   (as_protected_write (assess g c) \<longrightarrow> LvHigh \<le> as_level (assess g c)) \<and>
   (as_skill_script (assess g c) \<longrightarrow> as_level (assess g c) = LvMedium)"
proof -
  define a where "a = fst (walk (Suc MAX_DEPTH) g c new_acc WORKSPACE)"
  have "acc_ok a" unfolding a_def by (rule acc_ok_walk[OF sound_walk_all])
  then have "as_writes (assess g c) \<longrightarrow> LvMedium \<le> as_level (assess g c)"
    "as_protected_write (assess g c) \<longrightarrow> LvHigh \<le> as_level (assess g c)"
    unfolding assess_def a_def[symmetric] assessment_of_def acc_ok_def by simp_all
  then show ?thesis using assessment_consistent_skill by blast
qed

definition sample_guarded :: guarded where
  "sample_guarded = \<lparr>g_files = [''.bashrc'', ''.gitconfig''], g_dirs = [''.git'', ''.ssh'']\<rparr>"

theorem assessment_consistent_witness:
  "LvMedium \<le> as_level (assess sample_guarded ''rm .git'') \<and> LvHigh \<le> as_level (assess sample_guarded ''rm .git'') \<and>
   as_level (assess sample_guarded ''./.skills/a'') = LvMedium"
proof -
  have "as_protected_write (assess sample_guarded ''rm .git'') \<and> as_writes (assess sample_guarded ''rm .git'')" by code_simp
  moreover have "as_skill_script (assess sample_guarded ''./.skills/a'')" by code_simp
  ultimately show ?thesis
    using assessment_consistent[of sample_guarded "''rm .git''"] assessment_consistent[of sample_guarded "''./.skills/a''"]
    by blast
qed

text \<open>
  C17. The worst part decides: for every command the lexer finds in the text, with the working directory and the
  pipeline the commands before it leave, the level of the whole is at least the level of that command, and at least
  the level of every command substituted in it, read one level deeper from that directory.
\<close>

theorem worst_part_decides:
  assumes "lex_text s = pre @ cmd # post"
    and "state_before MAX_DEPTH g s new_acc WORKSPACE pre = (b, cwd, pl)"
  shows "ac_level (judge_cmd g (walk MAX_DEPTH g) (strip_leading (sc_words cmd)) cmd new_acc
           (next_cwd (strip_leading (sc_words cmd)) cwd) (sc_piped_in cmd \<and> pl \<noteq> [])) \<le> classify g s \<and>
         (\<forall>sub\<in>set (sc_subs cmd). ac_level (fst (walk MAX_DEPTH g sub new_acc cwd)) \<le> classify g s)"
  using walk_part[OF assms] by (simp add: classify_def assess_def assessment_of_def)

theorem worst_part_decides_witness:
  "ac_level (judge_cmd sample_guarded (walk MAX_DEPTH sample_guarded) (strip_leading [''ls'']) (new_cmd False\<lparr>sc_words := [''ls'']\<rparr>)
      new_acc (next_cwd (strip_leading [''ls'']) ''/a'') False) \<le> classify sample_guarded ''cd /a;ls''"
proof -
  have lex: "lex_text ''cd /a;ls'' = [new_cmd False\<lparr>sc_words := [''cd'', ''/a'']\<rparr>] @ new_cmd False\<lparr>sc_words := [''ls'']\<rparr> # []"
    by code_simp
  have st: "state_before MAX_DEPTH sample_guarded ''cd /a;ls'' new_acc WORKSPACE [new_cmd False\<lparr>sc_words := [''cd'', ''/a'']\<rparr>] =
    (new_acc, ''/a'', [new_cmd False\<lparr>sc_words := [''cd'', ''/a'']\<rparr>])"
    by code_simp
  show ?thesis using worst_part_decides[OF lex st] by (simp add: new_cmd_def)
qed



text \<open>
  A part that asks for privilege (\<open>sudo\<close>, \<open>doas\<close>, \<open>pkexec\<close>, \<open>su\<close>) or runs a program whose name is an expansion
  makes the whole text at least high, wherever it stands.
\<close>

theorem privilege_is_high:
  assumes "cmd \<in> set (lex_text s)"
    and "dropWhile is_assignment (strip_leading (sc_words cmd)) = w # args"
    and "CHR ''$'' \<in> set w \<or> prog_of w \<in> {''sudo'', ''doas'', ''pkexec'', ''su''}"
  shows "LvHigh \<le> classify g s"
  using part_floor[OF assms(1)] judge_unnamed[OF assms(2)] judge_privilege[OF assms(2)] assms(3) by blast

theorem privilege_is_high_witness: "LvHigh \<le> classify sample_guarded ''ls; time /usr/bin/sudo ls''"
proof (rule privilege_is_high)
  have "list_ex (\<lambda>c. c = new_cmd False\<lparr>sc_words := [''time'', ''/usr/bin/sudo'', ''ls'']\<rparr>) (lex_text ''ls; time /usr/bin/sudo ls'')"
    by code_simp
  then show "new_cmd False\<lparr>sc_words := [''time'', ''/usr/bin/sudo'', ''ls'']\<rparr> \<in> set (lex_text ''ls; time /usr/bin/sudo ls'')"
    by (auto simp: list_ex_iff)
  show "dropWhile is_assignment (strip_leading (sc_words (new_cmd False\<lparr>sc_words := [''time'', ''/usr/bin/sudo'', ''ls'']\<rparr>))) =
    ''/usr/bin/sudo'' # [''ls'']" by code_simp
  show "CHR ''$'' \<in> set ''/usr/bin/sudo'' \<or> prog_of ''/usr/bin/sudo'' \<in> {''sudo'', ''doas'', ''pkexec'', ''su''}"
    by code_simp
qed

text \<open>
  What a pipeline feeds into a shell is at least high: a part that reads from a pipe, is not the first, and calls
  a shell with options only and no script of its own.
\<close>

theorem pipe_into_shell_is_high:
  assumes "lex_text s = pre @ cmd # post" and "pre \<noteq> []" and "sc_piped_in cmd"
    and "dropWhile is_assignment (strip_leading (sc_words cmd)) = w # args" and "CHR ''$'' \<notin> set w"
    and "prog_of w \<in> set SHELLS" and "after_c args = None" and "list_all (\<lambda>x. startswith x ''-'') args"
  shows "LvHigh \<le> classify g s"
  using piped_floor[OF assms(1-3)] judge_piped_shell[OF assms(4-8)] by blast

theorem pipe_into_shell_is_high_witness: "LvHigh \<le> classify sample_guarded ''cat x | bash -s''"
proof (rule pipe_into_shell_is_high[where post = "[]"])
  show "lex_text ''cat x | bash -s'' =
    [new_cmd False\<lparr>sc_words := [''cat'', ''x'']\<rparr>] @ new_cmd True\<lparr>sc_words := [''bash'', ''-s'']\<rparr> # []" by code_simp
  show "dropWhile is_assignment (strip_leading (sc_words (new_cmd True\<lparr>sc_words := [''bash'', ''-s'']\<rparr>))) =
    ''bash'' # [''-s'']" by code_simp
  show "[new_cmd False\<lparr>sc_words := [''cat'', ''x'']\<rparr>] \<noteq> []" by simp
  show "sc_piped_in (new_cmd True\<lparr>sc_words := [''bash'', ''-s'']\<rparr>)" by code_simp
  show "CHR ''$'' \<notin> set ''bash''" "prog_of ''bash'' \<in> set SHELLS" "after_c [''-s''] = None"
    "list_all (\<lambda>x. startswith x ''-'') [''-s'']" by code_simp+
qed

end
