(* ===== verification/Command_Gaps.thy ===== *)
theory Command_Gaps
  imports Command_Correct
begin

text \<open>
  Commands the classifier reads as less risky than what a shell runs. Each is a text whose words, as \<open>command_risk.py\<close>
  reads them, hide a part that Bash executes; the theorems give the level the text gets, for any list of guarded
  paths. The module's own rule is that a wrong answer leans to the riskier side.
\<close>

lemma walk_one:
  assumes "lex_text s = [cmd]" and "\<not> fork_bomb s" and "sc_subs cmd = []"
  shows "classify g s = ac_level (judge_cmd g (walk MAX_DEPTH g) (strip_leading (sc_words cmd)) cmd new_acc
           (next_cwd (strip_leading (sc_words cmd)) WORKSPACE) False)"
  using assms by (simp add: classify_def assess_def assessment_of_def note_bomb_def walk_cmd_def walk_words_def add_verdict_def)

text \<open>A program that is only looked up in the table of read-only ones adds nothing to the verdict.\<close>

definition reader :: "string \<Rightarrow> bool" where
  "reader p \<longleftrightarrow> p \<in> {''echo'', ''ls''}"

lemma program_reader:
  assumes "reader p" and "list_all (\<lambda>x. \<not> startswith x ''/dev/tcp/'' \<and> \<not> startswith x ''/dev/udp/'') args"
  shows "program g wk p args cwd a = a"
proof -
  have "foldl note_network a args = a" using assms(2) by (induction args) (auto simp: note_network_def)
  moreover have "program_branch g wk p args opts cwd a = (a, True)" for opts
  proof -
    have *: "\<not> is_pip ''echo''" "\<not> is_pip ''ls''" "\<not> is_interpreter ''echo''" "\<not> is_interpreter ''ls''"
      "''echo'' \<notin> set PKG_SYSTEM" "''ls'' \<notin> set PKG_SYSTEM" "''echo'' \<in> set LOW_PROGRAMS" "''ls'' \<in> set LOW_PROGRAMS"
      "''echo'' \<notin> set POWER" "''ls'' \<notin> set POWER" "''echo'' \<notin> set DISK_FORMAT" "''ls'' \<notin> set DISK_FORMAT"
      "\<not> startswith ''echo'' ''mkfs''" "\<not> startswith ''ls'' ''mkfs''" by code_simp+
    show ?thesis using assms(1) unfolding reader_def by (elim insertE emptyE; simp add: program_branch_def Let_def *)
  qed
  ultimately show ?thesis by (simp add: program_def)
qed

lemma judge_reader:
  assumes "reader p" and "list_all (\<lambda>x. \<not> startswith x ''/dev/tcp/'' \<and> \<not> startswith x ''/dev/udp/'') args"
    and "sc_redirects cmd = []"
  shows "ac_level (judge_cmd g wk (p # args) cmd new_acc cwd si) = LvLow"
proof -
  have p: "\<not> is_assignment p" "CHR ''$'' \<notin> set p" "prog_of p = p" "p \<notin> set SHELLS" "p \<notin> {''source'', ''.'', ''eval''}"
    "\<not> is_interpreter p" "unwrap p args b = (b, None)" for b
    using assms(1) unfolding reader_def by (elim insertE emptyE; simp; code_simp)+
  have "ac_level (judge_start g (p # args) cmd new_acc cwd) = LvLow"
    using p(1) assms(3) by (simp add: judge_start_def)
  then have "ac_level (judge_head g (p # args) cmd new_acc cwd p args) = LvLow"
    by (simp add: judge_head_def note_skill_def)
  moreover have "judge_cmd g wk (p # args) cmd new_acc cwd si =
    judge_plain g wk p args cmd cwd si (judge_head g (p # args) cmd new_acc cwd p args)"
    using judge_unwrapped[of "p # args" p args] p by simp
  moreover have "judge_plain g wk p args cmd cwd si b = b" for b
    unfolding judge_plain_def program_reader[OF assms(1,2)] using p(4,5,6) by (simp only: if_cancel simp_thms if_False)
  ultimately show ?thesis by simp
qed

lemma read_as_low:
  assumes "lex_text s = [new_cmd False\<lparr>sc_words := p # args\<rparr>]" and "\<not> fork_bomb s" and "reader p"
    and "list_all (\<lambda>x. \<not> startswith x ''/dev/tcp/'' \<and> \<not> startswith x ''/dev/udp/'') args"
  shows "classify g s = LvLow"
proof -
  have "strip_leading (p # args) = p # args"
  proof -
    have "p \<notin> set LEAD_KEYWORDS" "p \<notin> set EMPTY_KEYWORDS"
      using assms(3) unfolding reader_def by (elim insertE emptyE; simp; code_simp)+
    then show ?thesis by (simp add: strip_leading_def)
  qed
  then show ?thesis
    using walk_one[OF assms(1,2)] judge_reader[OF assms(3,4)] by (simp add: new_cmd_def)
qed

text \<open>
  A double-quoted string that ends in a dollar: \<open>_Lexer.dollar\<close> takes the closing quote for the start of a
  translated string \<open>$"..."\<close>, so what follows is read as part of the word. In \<open>echo "$"; rm -rf /\<close> the second command
  disappears.
\<close>

theorem closing_quote_after_dollar:
  "classify g (''echo '' @ [dquote, CHR ''$'', dquote] @ ''; rm -rf /'') = LvLow"
  by (rule read_as_low[where p = "''echo''" and args = "[''; rm -rf /'']"]; (simp only: append.simps)?; code_simp)

text \<open>Inside double quotes \<open>$'\<close> is no quote for Bash; the lexer reads on to the next single quote.\<close>

theorem single_quote_in_double_quotes:
  "classify g (''echo '' @ [dquote, CHR ''$'', squote, dquote] @ ''; rm -rf /'') = LvLow"
  by (rule read_as_low[where p = "''echo''" and args = "[[dquote] @ ''; rm -rf /'']"]; (simp only: append.simps)?; code_simp)

text \<open>Comments are not known to the lexer: the apostrophe of a comment quotes the lines after it.\<close>

theorem apostrophe_in_comment:
  "classify g (''ls # it'' @ [squote] @ ''s'' @ [newline] @ ''rm -rf /'') = LvLow"
  by (rule read_as_low[where p = "''ls''" and args = "[''#'', ''its'' @ [newline] @ ''rm -rf /'']"]; (simp only: append.simps)?; code_simp)

text \<open>An arithmetic expansion is skipped as a whole, with the commands substituted in it.\<close>

theorem substitution_in_arithmetic: "classify g ''echo $(( $(rm -rf /) ))'' = LvLow"
  by (rule read_as_low[where p = "''echo''" and args = "[''$(())'']"]; code_simp)

text \<open>\<open>>&\<close> before a word that is no descriptor writes a file; it is read as a duplication.\<close>

theorem redirect_of_both_outputs: "classify g ''echo x >& ~/.bashrc'' = LvLow"
  by (rule read_as_low[where p = "''echo''" and args = "[''x'']"]; code_simp)

text \<open>
  A here-document of a subshell belongs to a command without words, which the lexer drops together with the commands
  substituted in the body.
\<close>

theorem heredoc_of_subshell:
  "lex_text (''(ls) <<E'' @ [newline] @ ''$(rm -rf /)'' @ [newline] @ ''E'') = [new_cmd False\<lparr>sc_words := [''ls'']\<rparr>]"
  by (simp only: append.simps) code_simp

text \<open>The body of \<open>function f { ... }\<close> is dropped with the keyword that starts it.\<close>

theorem body_of_function_keyword:
  "strip_leading (sc_words (hd (lex_text ''function f { rm -rf /; }; f''))) = []"
  by code_simp

text \<open>\<open>_node_packages\<close> assigns to \<open>acc.writes\<close>: a redirect that was already noted is forgotten.\<close>

theorem npm_forgets_redirect:
  "ac_writes (node_packages ''npm'' [''test''] (read_options [''test'']) a) = False"
  by (simp add: node_packages_def read_options_def verb_of_def startswith_def Let_def)

text \<open>The options of \<open>env\<close> that take a value include \<open>-S\<close>, whose value is the command it runs.\<close>

theorem env_split_string: "snd (unwrap ''env'' [''-S'', ''rm -rf /''] a) = Some []"
  by (simp add: unwrap_def startswith_def)

text \<open>Only the exact option \<open>-c\<close> names a script: in \<open>bash -lc '...'\<close> the script is taken for a file name.\<close>

theorem combined_c_option: "after_c [''-lc'', ''rm -rf /''] = None"
  by (simp add: after_c_def)

text \<open>\<open>git stash\<close> without operands takes the changes of the working tree away, and is read-only for the classifier.\<close>

theorem git_stash_is_low: "git_handler [''stash''] a = a"
  by (simp add: git_handler_def git_sub_def git_reads_def read_options_def verb_of_def startswith_def Let_def GIT_LOW_def)

text \<open>Reading the configuration of git is recorded as a write: the branch for it ends in the common end of \<open>_git\<close>.\<close>

theorem git_config_get_writes: "ac_writes (git_handler [''config'', ''--get'', ''user.name''] a)"
  by (simp add: git_handler_def git_sub_def read_options_def verb_of_def startswith_def Let_def GIT_LOW_def)

end
