(* ===== verification/Permissions.thy ===== *)
theory Permissions
  imports Command_Correct
begin

text \<open>
  What an agent may do without asking: \<open>permissions.py\<close>, which turns the preset of a session and the permission spec
  of its task into a plan, and \<open>permission_middleware.py\<close>, which turns the decision of AgentScope's engine about one
  tool call into the decision of the task. The engine and the tool's own safety check are not part of the repository;
  the middleware sees their decisions, so they are arguments here, and the theorems hold for every decision they may
  give. The messages of the decisions are Chinese templates with one hole; a \<open>notice\<close> names the template and holds
  what fills it. How pydantic reads a dict into a \<open>PermissionSpec\<close> is the parameter \<open>validate\<close>.
\<close>

section \<open>Plans\<close>

datatype permission_mode = EXPLORE | BYPASS | DEFAULT_MODE | ACCEPT_EDITS

record permission_plan =
  pp_mode :: permission_mode
  pp_write_scope :: write_scope
  pp_auto_edits :: bool
  pp_auto_commands :: bool
  pp_auto_builtin :: bool
  pp_full :: bool
  pp_read_only :: bool

text \<open>\<open>PermissionPlan(mode=...)\<close> with the defaults of its fields.\<close>

definition new_plan :: "permission_mode \<Rightarrow> permission_plan" where
  "new_plan m = \<lparr>pp_mode = m, pp_write_scope = ScopeWorkspace, pp_auto_edits = True, pp_auto_commands = False,
     pp_auto_builtin = False, pp_full = False, pp_read_only = False\<rparr>"

definition SESSION_PRESETS :: "string list" where
  "SESSION_PRESETS = [''workspace-write'', ''read-only'', ''danger-full-access'']"

definition FILE_TOOLS :: "string list" where
  "FILE_TOOLS = [''Edit'', ''Write'']"

record deny_rule =
  dr_tool_name :: string
  dr_source :: string

definition deny_rules :: "permission_plan \<Rightarrow> (string, deny_rule list) dict" where
  "deny_rules plan =
    (if pp_write_scope plan \<noteq> ScopeNone \<or> pp_read_only plan then []
     else map (\<lambda>name. (name, [\<lparr>dr_tool_name = name, dr_source = ''task-permissions''\<rparr>])) FILE_TOOLS)"

definition default_spec :: permission_spec where
  "default_spec = \<lparr>ps_preset = PresetDefault, ps_write_scope = ScopeWorkspace, ps_auto_edits = True,
     ps_auto_commands = False, ps_auto_builtin = False\<rparr>"

datatype spec_arg = NoSpec | SpecModel permission_spec | SpecDict json

definition read_spec :: "(json \<Rightarrow> permission_spec option) \<Rightarrow> spec_arg \<Rightarrow> permission_spec" where
  "read_spec validate arg =
    (case arg of
       NoSpec \<Rightarrow> default_spec
     | SpecModel spec \<Rightarrow> spec
     | SpecDict raw \<Rightarrow> (case validate raw of Some spec \<Rightarrow> spec | None \<Rightarrow> default_spec))"

definition preset_plan :: "permission_spec \<Rightarrow> permission_plan" where
  "preset_plan spec =
    (case ps_preset spec of
       PresetRequest \<Rightarrow> (new_plan DEFAULT_MODE)\<lparr>pp_auto_edits := False\<rparr>
     | PresetAuto \<Rightarrow> (new_plan ACCEPT_EDITS)\<lparr>pp_auto_commands := True, pp_auto_builtin := True\<rparr>
     | PresetFull \<Rightarrow> (new_plan BYPASS)\<lparr>pp_full := True, pp_auto_commands := True, pp_auto_builtin := True\<rparr>
     | PresetCustom \<Rightarrow>
         (new_plan (if ps_auto_edits spec \<and> ps_write_scope spec = ScopeWorkspace then ACCEPT_EDITS else DEFAULT_MODE))
           \<lparr>pp_write_scope := ps_write_scope spec, pp_auto_edits := ps_auto_edits spec,
            pp_auto_commands := ps_auto_commands spec, pp_auto_builtin := ps_auto_builtin spec\<rparr>
     | PresetDefault \<Rightarrow> new_plan ACCEPT_EDITS)"

datatype permission_error = UnknownPreset string

definition plan_for ::
  "(json \<Rightarrow> permission_spec option) \<Rightarrow> string \<Rightarrow> spec_arg \<Rightarrow> permission_error + permission_plan" where
  "plan_for validate session_preset arg =
    (if session_preset \<notin> set SESSION_PRESETS then Inl (UnknownPreset session_preset)
     else if session_preset = ''read-only'' then
       Inr ((new_plan EXPLORE)\<lparr>pp_write_scope := ScopeNone, pp_auto_edits := False, pp_read_only := True\<rparr>)
     else if session_preset = ''danger-full-access'' then
       Inr ((new_plan BYPASS)\<lparr>pp_full := True, pp_auto_commands := True, pp_auto_builtin := True\<rparr>)
     else Inr (preset_plan (read_spec validate arg)))"

text \<open>\<open>call_risk\<close>: \<open>args\<close> are the arguments of the call, a dict of strings.\<close>

primrec level_risk :: "level \<Rightarrow> risk" where
  "level_risk LvLow = Low"
| "level_risk LvMedium = Medium"
| "level_risk LvHigh = High"
| "level_risk LvCatastrophic = High"

definition arg_or_empty :: "(string, string) dict \<Rightarrow> string \<Rightarrow> string" where
  "arg_or_empty args k = (case dget args k of Some v \<Rightarrow> v | None \<Rightarrow> [])"

definition call_risk :: "guarded \<Rightarrow> string \<Rightarrow> (string, string) dict \<Rightarrow> risk" where
  "call_risk g tool_name args =
    (if tool_name = ''Bash'' then level_risk (as_level (assess g (arg_or_empty args ''command'')))
     else if tool_name \<in> set FILE_TOOLS \<and> is_protected_path g (arg_or_empty args ''file_path'') then High
     else Medium)"

section \<open>Decisions\<close>

datatype behavior = ALLOW | DENY | ASK | PASSTHROUGH

datatype notice = CATASTROPHIC_DENIED string | WRITES_DENIED string | PROTECTED_ASK string | Notice string

record perm_decision =
  de_behavior :: behavior
  de_message :: notice
  de_reason :: "string option"
  de_bypass_immune :: bool

definition deny :: "notice \<Rightarrow> string \<Rightarrow> perm_decision" where
  "deny m why = \<lparr>de_behavior = DENY, de_message = m, de_reason = Some why, de_bypass_immune = False\<rparr>"

definition ask :: "notice \<Rightarrow> perm_decision" where
  "ask m = \<lparr>de_behavior = ASK, de_message = m, de_reason = Some ''Safety check: protected file or directory'',
     de_bypass_immune = True\<rparr>"

definition allow :: "string \<Rightarrow> perm_decision" where
  "allow why = \<lparr>de_behavior = ALLOW, de_message = Notice (''Permission granted: '' @ why),
     de_reason = Some ''Allowed by the permission preset of the task'', de_bypass_immune = False\<rparr>"

primrec level_str :: "level \<Rightarrow> string" where
  "level_str LvLow = ''low''"
| "level_str LvMedium = ''medium''"
| "level_str LvHigh = ''high''"
| "level_str LvCatastrophic = ''catastrophic''"

definition bash_found :: "permission_plan \<Rightarrow> perm_decision \<Rightarrow> assessment \<Rightarrow> bool \<Rightarrow> perm_decision" where
  "bash_found plan decision found confirmed =
    (if as_level found = LvCatastrophic
     then deny (CATASTROPHIC_DENIED (as_reason found)) ''Safety check: catastrophic command''
     else if de_behavior decision = DENY \<or> pp_read_only plan then decision
     else if pp_write_scope plan = ScopeNone \<and> as_writes found
     then deny (WRITES_DENIED (if as_reason found = [] then ''Bash'' else as_reason found)) ''This task may not write files''
     else if pp_full plan
     then (if as_protected_write found \<and> \<not> confirmed then ask (PROTECTED_ASK (as_reason found)) else decision)
     else if de_behavior decision \<notin> {ASK, PASSTHROUGH} then decision
     else if pp_auto_builtin plan \<and> as_skill_script found then allow ''a skill script of the workspace''
     else if pp_auto_commands plan \<and>
             as_level found \<in> set (if pp_write_scope plan = ScopeWorkspace then [LvLow, LvMedium] else [LvLow])
     then allow (''a '' @ level_str (as_level found) @ '' risk command'')
     else decision)"

definition bash_decision :: "guarded \<Rightarrow> permission_plan \<Rightarrow> perm_decision \<Rightarrow> string \<Rightarrow> bool \<Rightarrow> perm_decision" where
  "bash_decision g plan decision command confirmed = bash_found plan decision (assess g command) confirmed"

text \<open>\<open>_file\<close>: \<open>own\<close> is what the tool's own safety check decides in BYPASS.\<close>

definition file_decision :: "permission_plan \<Rightarrow> perm_decision \<Rightarrow> string \<Rightarrow> perm_decision \<Rightarrow> bool \<Rightarrow> perm_decision" where
  "file_decision plan decision tool_name own confirmed =
    (if de_behavior decision = DENY \<or> pp_read_only plan then decision
     else if pp_write_scope plan = ScopeNone then deny (WRITES_DENIED tool_name) ''This task may not write files''
     else if pp_full plan \<and> \<not> confirmed \<and> de_behavior own = ASK \<and> de_bypass_immune own then own
     else decision)"

record tool_request =
  tr_name :: string
  tr_command :: string
  tr_confirmed :: bool

definition check_permission :: "guarded \<Rightarrow> permission_plan \<Rightarrow> tool_request \<Rightarrow> perm_decision \<Rightarrow> perm_decision \<Rightarrow> perm_decision" where
  "check_permission g plan req decision own =
    (if tr_name req = ''Bash'' then bash_decision g plan decision (tr_command req) (tr_confirmed req)
     else if tr_name req \<in> set FILE_TOOLS then file_decision plan decision (tr_name req) own (tr_confirmed req)
     else decision)"

section \<open>What no preset lets through\<close>

text \<open>
  C14. A catastrophic command is denied: under every plan, whatever the engine decided before, an approval or an allow
  rule included, and even when a person already confirmed this very call.
\<close>

theorem catastrophic_is_denied:
  assumes "tr_name req = ''Bash''" and "classify g (tr_command req) = LvCatastrophic"
  shows "de_behavior (check_permission g plan req decision own) = DENY"
  using assms by (simp add: check_permission_def bash_decision_def bash_found_def classify_def deny_def)

theorem catastrophic_is_denied_witness:
  "de_behavior (check_permission sample_guarded ((new_plan BYPASS)\<lparr>pp_full := True\<rparr>)
     \<lparr>tr_name = ''Bash'', tr_command = ''rm -rf /'', tr_confirmed = True\<rparr> (allow ''a rule'') (allow ''the tool'')) = DENY"
proof (rule catastrophic_is_denied)
  show "classify sample_guarded (tr_command \<lparr>tr_name = ''Bash'', tr_command = ''rm -rf /'', tr_confirmed = True\<rparr>) = LvCatastrophic"
    by code_simp
qed simp

text \<open>
  C15. A task whose plan has the write scope \<open>none\<close> and is not read-only writes nothing the classifier knows of: Write, Edit
  and a Bash command known to write are denied whatever the engine decided and whoever confirmed, and of the commands
  the engine did not allow, only low ones and skill scripts are allowed in its place. A read-only plan also has the
  scope \<open>none\<close>, but leaves these decisions to the engine; it is not covered. Other tools than Write, Edit and Bash are
  not judged by this middleware.
\<close>

theorem no_write_scope:
  assumes "pp_write_scope plan = ScopeNone" and "\<not> pp_read_only plan"
  shows "(tr_name req \<in> set FILE_TOOLS \<longrightarrow> de_behavior (check_permission g plan req decision own) = DENY) \<and>
    (tr_name req = ''Bash'' \<and> as_writes (assess g (tr_command req)) \<longrightarrow>
       de_behavior (check_permission g plan req decision own) = DENY) \<and>
    (tr_name req = ''Bash'' \<and> de_behavior decision \<noteq> ALLOW \<and>
       de_behavior (check_permission g plan req decision own) = ALLOW \<longrightarrow>
       classify g (tr_command req) = LvLow \<or> as_skill_script (assess g (tr_command req)))"
proof (intro conjI impI)
  assume "tr_name req \<in> set FILE_TOOLS"
  then show "de_behavior (check_permission g plan req decision own) = DENY"
    using assms by (auto simp: check_permission_def file_decision_def deny_def FILE_TOOLS_def)
next
  assume "tr_name req = ''Bash'' \<and> as_writes (assess g (tr_command req))"
  then show "de_behavior (check_permission g plan req decision own) = DENY"
    using assms by (auto simp: check_permission_def bash_decision_def bash_found_def deny_def)
next
  assume "tr_name req = ''Bash'' \<and> de_behavior decision \<noteq> ALLOW \<and>
       de_behavior (check_permission g plan req decision own) = ALLOW"
  then show "classify g (tr_command req) = LvLow \<or> as_skill_script (assess g (tr_command req))"
    using assms by (auto simp: check_permission_def bash_decision_def bash_found_def deny_def ask_def classify_def split: if_splits)
qed

definition no_write_plan :: permission_plan where
  "no_write_plan = preset_plan \<lparr>ps_preset = PresetCustom, ps_write_scope = ScopeNone, ps_auto_edits = True,
     ps_auto_commands = True, ps_auto_builtin = False\<rparr>"

definition sample_ask :: perm_decision where
  "sample_ask = \<lparr>de_behavior = ASK, de_message = Notice ''run this?'', de_reason = None, de_bypass_immune = False\<rparr>"

abbreviation bash_call :: "string \<Rightarrow> tool_request" where
  "bash_call c \<equiv> \<lparr>tr_name = ''Bash'', tr_command = c, tr_confirmed = False\<rparr>"

theorem no_write_scope_witness:
  "de_behavior (check_permission sample_guarded no_write_plan \<lparr>tr_name = ''Edit'', tr_command = [], tr_confirmed = True\<rparr>
     (allow ''a rule'') (allow ''the tool'')) = DENY \<and>
   de_behavior (check_permission sample_guarded no_write_plan (bash_call ''rm x'') (allow ''a rule'') sample_ask) = DENY \<and>
   (classify sample_guarded ''ls'' = LvLow \<or> as_skill_script (assess sample_guarded ''ls''))"
proof -
  have plan: "pp_write_scope no_write_plan = ScopeNone" "\<not> pp_read_only no_write_plan"
    by (simp_all add: no_write_plan_def preset_plan_def new_plan_def)
  have "as_writes (assess sample_guarded ''rm x'')" by code_simp
  moreover have "de_behavior (check_permission sample_guarded no_write_plan (bash_call ''ls'') sample_ask sample_ask) = ALLOW"
    by code_simp
  ultimately show ?thesis
    using no_write_scope[OF plan, of "\<lparr>tr_name = ''Edit'', tr_command = [], tr_confirmed = True\<rparr>" sample_guarded "allow ''a rule''" "allow ''the tool''"]
      no_write_scope[OF plan, of "bash_call ''rm x''" sample_guarded "allow ''a rule''" sample_ask]
      no_write_scope[OF plan, of "bash_call ''ls''" sample_guarded sample_ask sample_ask]
    by (simp add: FILE_TOOLS_def sample_ask_def)
qed

text \<open>
  The middleware never allows by itself a command of high risk: when the engine did not allow a call and the
  middleware does, the command is low or medium, under every plan.
\<close>

theorem auto_allow_is_bounded:
  assumes "de_behavior decision \<noteq> ALLOW" and "de_behavior own \<noteq> ALLOW"
    and "de_behavior (check_permission g plan req decision own) = ALLOW"
  shows "tr_name req = ''Bash'' \<and> classify g (tr_command req) \<le> LvMedium \<and>
    (pp_auto_commands plan \<or> pp_auto_builtin plan) \<and> \<not> pp_read_only plan \<and> \<not> pp_full plan"
proof -
  have "as_skill_script a \<Longrightarrow> as_level a = LvMedium" if "a = assess g c" for a c
    using assessment_consistent_skill that by blast
  then show ?thesis
    using assms
    by (auto simp: check_permission_def bash_decision_def bash_found_def file_decision_def deny_def ask_def classify_def
        less_eq_level_def split: if_splits)
qed

theorem auto_allow_is_bounded_witness: "classify sample_guarded ''ls'' \<le> LvMedium"
proof -
  let ?plan = "preset_plan (default_spec\<lparr>ps_preset := PresetAuto\<rparr>)"
  have "de_behavior (check_permission sample_guarded ?plan (bash_call ''ls'') sample_ask sample_ask) = ALLOW" by code_simp
  from auto_allow_is_bounded[OF _ _ this] show ?thesis by (simp add: sample_ask_def)
qed

text \<open>
  The plan of a session: it is refused exactly for a preset outside the contract; a read-only session ignores the
  spec of the task and trusts nothing; and beside it only a custom spec takes the right to write away.
\<close>

theorem plan_for_cases:
  "((\<exists>e. plan_for validate preset arg = Inl e) = (preset \<notin> set SESSION_PRESETS)) \<and>
   plan_for validate ''read-only'' arg =
     Inr \<lparr>pp_mode = EXPLORE, pp_write_scope = ScopeNone, pp_auto_edits = False, pp_auto_commands = False,
          pp_auto_builtin = False, pp_full = False, pp_read_only = True\<rparr> \<and>
   (\<forall>plan. plan_for validate ''workspace-write'' arg = Inr plan \<and> pp_write_scope plan = ScopeNone \<longrightarrow>
     ps_preset (read_spec validate arg) = PresetCustom \<and> \<not> pp_full plan \<and> pp_mode plan = DEFAULT_MODE)"
  by (auto simp: plan_for_def SESSION_PRESETS_def new_plan_def preset_plan_def split: permission_preset.splits)

theorem plan_for_cases_witness:
  "ps_preset (read_spec (\<lambda>_. None) (SpecModel (default_spec\<lparr>ps_preset := PresetCustom, ps_write_scope := ScopeNone\<rparr>))) = PresetCustom"
proof -
  let ?arg = "SpecModel (default_spec\<lparr>ps_preset := PresetCustom, ps_write_scope := ScopeNone\<rparr>)"
  have "pp_write_scope (preset_plan (read_spec (\<lambda>_. None) ?arg)) = ScopeNone" by code_simp
  moreover have "plan_for (\<lambda>_. None) ''workspace-write'' ?arg = Inr (preset_plan (read_spec (\<lambda>_. None) ?arg))"
    by (simp add: plan_for_def SESSION_PRESETS_def)
  ultimately show ?thesis using plan_for_cases[of "\<lambda>_. None" "''read-only''" ?arg] by blast
qed

end
