(* ===== verification/Tool_Policy.thy ===== *)
theory Tool_Policy
  imports Permissions
begin

text \<open>
  The tool policy of task attempts: how the layers of policy combine (\<open>policy.py\<close>), and the middleware outside the one
  of the permission plan, which takes tools away (\<open>policy_middleware.py\<close>), with the events it publishes
  (\<open>worker_events.py\<close>) and what \<open>task_stream.py\<close> says of the turn. The store is an interface of the worker: what it
  answers to the four questions the middleware asks is the record \<open>policy_view\<close>, what it is told goes on the lists of
  \<open>policy_log\<close>. The clock of an event is an argument.
\<close>

section \<open>Layers\<close>

text \<open>One layer of \<open>merge\<close>: the names are looked up in the list that grows while they are added.\<close>

definition merge_layer :: "string list \<times> nat list \<Rightarrow> policy \<Rightarrow> string list \<times> nat list" where
  "merge_layer st layer =
    (fold (\<lambda>name denied. if name \<in> set denied then denied else denied @ [name]) (p_denied_tools layer) (fst st),
     case p_exploration_max_tool_calls layer of None \<Rightarrow> snd st | Some cap \<Rightarrow> snd st @ [cap])"

definition merge_policies :: "policy list \<Rightarrow> policy" where
  "merge_policies layers =
    (case foldl merge_layer ([], []) layers of (denied, caps) \<Rightarrow>
       \<lparr>p_denied_tools = denied,
        p_exploration_max_tool_calls = (if caps = [] then None else Some (foldr min caps (hd caps))),
        p_max_concurrency = None, p_max_review_rounds = None\<rparr>)"

text \<open>\<open>from_profile_spec\<close>: values of the spec are JSON; what is falsy counts as missing.\<close>

datatype spec_error = AttributeErrorS | TypeErrorS | ValidationErrorS

primrec json_truthy :: "json \<Rightarrow> bool" where
  "json_truthy JNull = False"
| "json_truthy (JBool b) = b"
| "json_truthy (JInt i) = (i \<noteq> 0)"
| "json_truthy (JFloat s) = (s \<notin> set [''0.0'', ''-0.0''])"
| "json_truthy (JStr s) = (s \<noteq> [])"
| "json_truthy (JArr xs) = (xs \<noteq> [])"
| "json_truthy (JObj kvs) = (kvs \<noteq> [])"

definition get_or :: "(string, json) dict \<Rightarrow> string \<Rightarrow> json" where
  "get_or d k = (case dget d k of Some v \<Rightarrow> v | None \<Rightarrow> JNull)"

text \<open>\<open>(spec.get(k) or {}).get(j)\<close>.\<close>

definition section_get :: "(string, json) dict \<Rightarrow> string \<Rightarrow> string \<Rightarrow> spec_error + json" where
  "section_get spec k j =
    (let v = get_or spec k
     in if \<not> json_truthy v then Inr JNull
        else case v of JObj kvs \<Rightarrow> Inr (get_or kvs j) | _ \<Rightarrow> Inl AttributeErrorS)"

text \<open>\<open>[str(name) for name in ... or []]\<close>; \<open>py_str\<close> is the text Python gives a value that is no string.\<close>

definition denied_names :: "(json \<Rightarrow> string) \<Rightarrow> json \<Rightarrow> spec_error + string list" where
  "denied_names py_str v =
    (if \<not> json_truthy v then Inr []
     else case v of
       JArr xs \<Rightarrow> Inr (map (\<lambda>x. case x of JStr s \<Rightarrow> s | _ \<Rightarrow> py_str x) xs)
     | JStr s \<Rightarrow> Inr (map (\<lambda>c. [c]) s)
     | JObj kvs \<Rightarrow> Inr (dkeys kvs)
     | _ \<Rightarrow> Inl TypeErrorS)"

definition cap_of :: "json \<Rightarrow> spec_error + nat option" where
  "cap_of v =
    (case v of
       JInt i \<Rightarrow> if i < 0 then Inl ValidationErrorS else Inr (Some (nat i))
     | JBool b \<Rightarrow> Inr (Some (if b then 1 else 0))
     | _ \<Rightarrow> Inr None)"

definition from_profile_spec :: "(json \<Rightarrow> string) \<Rightarrow> (string, json) dict \<Rightarrow> spec_error + policy" where
  "from_profile_spec py_str spec =
    bindE (section_get spec ''exploration'' ''max_tool_calls'') (\<lambda>cap.
    bindE (section_get spec ''tools'' ''denied'') (\<lambda>denied.
    bindE (denied_names py_str denied) (\<lambda>names.
    bindE (cap_of cap) (\<lambda>c.
      Inr \<lparr>p_denied_tools = names, p_exploration_max_tool_calls = c, p_max_concurrency = None,
           p_max_review_rounds = None\<rparr>))))"

section \<open>The turn\<close>

record team_turn =
  tt_role :: string
  tt_label :: string
  tt_stage_attempt_id :: string

record stream_context =
  sx_tenant_id :: string
  sx_task_id :: string
  sx_attempt_id :: string
  sx_activity_attempt :: nat
  sx_node_id :: string
  sx_profile :: string
  sx_task_policy :: policy
  sx_team :: "team_turn option"

definition event_attempt_id :: "stream_context \<Rightarrow> string" where
  "event_attempt_id cx =
    (case sx_team cx of
       Some t \<Rightarrow> if tt_stage_attempt_id t \<noteq> [] then tt_stage_attempt_id t else sx_attempt_id cx
     | None \<Rightarrow> sx_attempt_id cx)"

definition team_stamp :: "stream_context \<Rightarrow> (string, json) dict" where
  "team_stamp cx =
    (case sx_team cx of
       None \<Rightarrow> []
     | Some t \<Rightarrow>
         [(''team_role'', JStr (tt_role t))]
         @ (if tt_label t \<noteq> [] then [(''team_label'', JStr (tt_label t))] else [])
         @ [(''team_session'', JStr (sx_attempt_id cx))])"

definition is_exploration :: "stream_context \<Rightarrow> bool" where
  "is_exploration cx \<longleftrightarrow> sx_node_id cx = deterministic_id (sx_task_id cx @ '':exploration'') ''n''"

definition attempt_event ::
  "string \<Rightarrow> string \<Rightarrow> string \<Rightarrow> string \<Rightarrow> string \<Rightarrow> (string, json) dict \<Rightarrow> string \<Rightarrow> string option \<Rightarrow> json" where
  "attempt_event now tenant_id task_id attempt_id event_type body seed shown_attempt_id =
    (let shown = (case shown_attempt_id of Some s \<Rightarrow> if s \<noteq> [] then s else attempt_id | None \<Rightarrow> attempt_id)
     in JObj [(''schema'', JStr ''orbit.event/3''),
          (''event_id'', JStr (deterministic_id (attempt_id @ '':'' @ seed) ''evt'')),
          (''tenant_id'', JStr tenant_id), (''task_id'', JStr task_id), (''type'', JStr event_type),
          (''retention'', JStr ''durable''),
          (''source'', JObj [(''kind'', JStr ''worker''), (''id'', JStr ''orbit-worker''), (''attempt_id'', JStr shown)]),
          (''entity'', JObj [(''kind'', JStr ''attempt''), (''id'', JStr shown), (''version'', JInt 0)]),
          (''visibility'', JStr ''tenant''), (''occurred_at'', JStr now), (''payload'', JObj body)])"

section \<open>The middleware\<close>

definition DEFAULT_EXPLORATION_TOOL_CALLS :: nat where "DEFAULT_EXPLORATION_TOOL_CALLS = 50"
definition EXTENSION_TOOL_CALLS :: nat where "EXTENSION_TOOL_CALLS = 10"
definition AFTER_EXHAUSTION :: "string list" where
  "AFTER_EXHAUSTION = [''TaskCreate'', ''orbit_request_budget_extension'', ''orbit_declare_unplannable'', ''TodoWrite'']"

record policy_view =
  pv_effective :: policy
  pv_side_effects :: nat
  pv_extensions :: nat

record policy_log =
  pl_events :: "json list"
  pl_checkpoints :: "(nat \<times> string) list"
  pl_checkpointed :: "nat list"

definition exploration_allowed :: "policy_view \<Rightarrow> nat" where
  "exploration_allowed view =
    (case p_exploration_max_tool_calls (pv_effective view) of Some n \<Rightarrow> n | None \<Rightarrow> DEFAULT_EXPLORATION_TOOL_CALLS)
    + pv_extensions view * EXTENSION_TOOL_CALLS"

definition exploration_exhausted :: "policy_view \<Rightarrow> stream_context \<Rightarrow> bool" where
  "exploration_exhausted view cx \<longleftrightarrow> is_exploration cx \<and> pv_side_effects view \<ge> exploration_allowed view"

record tool_call =
  tc_id :: string
  tc_name :: string

definition refuse :: "string \<Rightarrow> stream_context \<Rightarrow> tool_call \<Rightarrow> string \<Rightarrow> policy_log \<Rightarrow> perm_decision \<times> policy_log" where
  "refuse now cx call message log =
    (\<lparr>de_behavior = DENY, de_message = Notice message, de_reason = None, de_bypass_immune = False\<rparr>,
     log\<lparr>pl_events := pl_events log @
       [attempt_event now (sx_tenant_id cx) (sx_task_id cx) (sx_attempt_id cx) ''tool.call_finished''
         ([(''attempt_id'', JStr (event_attempt_id cx))] @ team_stamp cx @
          [(''tool_call_id'', JStr (tc_id call)), (''tool_name'', JStr (tc_name call)), (''state'', JStr ''denied''),
           (''result_preview'', JStr message)])
         (''finished:'' @ tc_id call) (Some (event_attempt_id cx))]\<rparr>)"

text \<open>\<open>on_check_permission\<close>. The store is asked twice, with awaits between: \<open>view\<close> is its first answer, \<open>later\<close> the second.\<close>

definition policy_check ::
  "string \<Rightarrow> policy_view \<Rightarrow> policy_view \<Rightarrow> stream_context option \<Rightarrow> tool_call \<Rightarrow> perm_decision \<Rightarrow> policy_log \<Rightarrow> perm_decision \<times> policy_log" where
  "policy_check now view later context call decision log =
    (case context of
       None \<Rightarrow> (decision, log)
     | Some cx \<Rightarrow>
         if de_behavior decision \<noteq> DENY \<and> tc_name call \<in> set (p_denied_tools (pv_effective view))
         then refuse now cx call (tc_name call @ '' is not allowed by the policy of this task.'') log
         else if de_behavior decision = DENY \<or> tc_name call \<in> set AFTER_EXHAUSTION \<or> \<not> exploration_exhausted later cx
         then (decision, log)
         else refuse now cx call
           ''The exploration budget is spent. Create the plan with TaskCreate, ask for more budget, or declare the task unplannable.''
           log)"

text \<open>The checksum \<open>zlib.crc32\<close>: a byte at a time, least significant bit first.\<close>

definition crc_shift :: "32 word \<Rightarrow> 32 word" where
  "crc_shift w = (if bit w 0 then (drop_bit 1 w) XOR 0xEDB88320 else drop_bit 1 w)"

definition crc_byte :: "32 word \<Rightarrow> int \<Rightarrow> 32 word" where
  "crc_byte w b = (crc_shift ^^ 8) (w XOR word_of_int b)"

definition crc32 :: "int list \<Rightarrow> int" where
  "crc32 bs = uint (NOT (foldl crc_byte (NOT 0) bs))"

definition batch_index :: "string \<Rightarrow> nat \<Rightarrow> nat" where
  "batch_index reply_id cur_iter = nat (crc32 (utf8 reply_id) mod 100000) * 100 + cur_iter"

text \<open>\<open>on_acting\<close> before the batch runs: \<open>state\<close> is the saved state of the agent.\<close>

definition policy_acting :: "stream_context option \<Rightarrow> nat \<Rightarrow> string \<Rightarrow> policy_log \<Rightarrow> policy_log" where
  "policy_acting context batch state log =
    (if context = None \<or> batch \<in> set (pl_checkpointed log) then log
     else log\<lparr>pl_checkpointed := pl_checkpointed log @ [batch], pl_checkpoints := pl_checkpoints log @ [(batch, state)]\<rparr>)"

section \<open>What the layers promise\<close>

abbreviation add_name :: "string \<Rightarrow> string list \<Rightarrow> string list" where
  "add_name name denied \<equiv> if name \<in> set denied then denied else denied @ [name]"

lemma add_names: "set (fold add_name names denied) = set denied \<union> set names"
  by (induction names arbitrary: denied) auto

lemma add_names_distinct: "distinct denied \<Longrightarrow> distinct (fold add_name names denied)"
  by (induction names arbitrary: denied) auto

lemma merge_layers:
  "set (fst (foldl merge_layer (denied, caps) layers)) = set denied \<union> (\<Union>l\<in>set layers. set (p_denied_tools l))"
  "set (snd (foldl merge_layer (denied, caps) layers)) =
    set caps \<union> {n. \<exists>l\<in>set layers. p_exploration_max_tool_calls l = Some n}"
  by (induction layers arbitrary: denied caps) (auto simp: merge_layer_def add_names split: option.split)

lemma merge_layers_distinct:
  "distinct (fst st) \<Longrightarrow> distinct (fst (foldl merge_layer st layers))"
  by (induction layers arbitrary: st) (simp_all add: merge_layer_def add_names_distinct)

lemma foldr_min:
  fixes caps :: "nat list"
  shows "foldr min caps c \<le> c" "n \<in> set caps \<Longrightarrow> foldr min caps c \<le> n" "foldr min caps c \<in> insert c (set caps)"
  by (induction caps) (auto simp: min_def)

lemma merge_denied: "set (p_denied_tools (merge_policies layers)) = (\<Union>l\<in>set layers. set (p_denied_tools l))"
  using merge_layers(1)[of "[]" "[]" layers] by (simp add: merge_policies_def case_prod_beta)

text \<open>
  Layers only tighten: the merged policy denies exactly the tools some layer denies, each once, and its cap on the
  tool calls of the exploration is the smallest cap of any layer, or none when no layer has one.
\<close>

theorem merge_tightens:
  "distinct (p_denied_tools (merge_policies layers)) \<and>
   set (p_denied_tools (merge_policies layers)) = (\<Union>l\<in>set layers. set (p_denied_tools l)) \<and>
   (case p_exploration_max_tool_calls (merge_policies layers) of
      None \<Rightarrow> {n. \<exists>l\<in>set layers. p_exploration_max_tool_calls l = Some n} = {}
    | Some c \<Rightarrow> (LEAST n. \<exists>l\<in>set layers. p_exploration_max_tool_calls l = Some n) = c)"
proof -
  let ?caps = "snd (foldl merge_layer ([], []) layers)"
  let ?S = "{n. \<exists>l\<in>set layers. p_exploration_max_tool_calls l = Some n}"
  have caps: "set ?caps = ?S" using merge_layers(2)[of "[]" "[]" layers] by simp
  have cap: "p_exploration_max_tool_calls (merge_policies layers) =
      (if ?caps = [] then None else Some (foldr min ?caps (hd ?caps)))"
    by (simp add: merge_policies_def case_prod_beta)
  have least: "(LEAST n. \<exists>l\<in>set layers. p_exploration_max_tool_calls l = Some n) = foldr min ?caps (hd ?caps)" if "?caps \<noteq> []"
  proof (rule Least_equality)
    have "foldr min ?caps (hd ?caps) \<in> set ?caps" using foldr_min(3)[of ?caps "hd ?caps"] that by auto
    then show "\<exists>l\<in>set layers. p_exploration_max_tool_calls l = Some (foldr min ?caps (hd ?caps))" using caps by auto
  next
    fix n assume "\<exists>l\<in>set layers. p_exploration_max_tool_calls l = Some n"
    then show "foldr min ?caps (hd ?caps) \<le> n" using caps foldr_min(2) by blast
  qed
  moreover have "?S = {}" if "?caps = []" using caps that by simp
  ultimately show ?thesis
    using merge_denied[of layers] merge_layers_distinct[of "([], [])" layers] cap
    by (auto simp: merge_policies_def case_prod_beta)
qed

section \<open>The stack of both middlewares\<close>

text \<open>
  The policy middleware stands outside the one of the permission plan, which stands outside the engine: the decision
  of a tool call after these two. The budget and the ledger middleware act when the call runs, not here.
\<close>

definition decide_call ::
  "guarded \<Rightarrow> permission_plan \<Rightarrow> string \<Rightarrow> policy_view \<Rightarrow> policy_view \<Rightarrow> stream_context option \<Rightarrow> tool_request \<Rightarrow> string \<Rightarrow> perm_decision \<Rightarrow>
   perm_decision \<Rightarrow> policy_log \<Rightarrow> perm_decision \<times> policy_log" where
  "decide_call g plan now view later context req call_id engine own log =
    policy_check now view later context \<lparr>tc_id = call_id, tc_name = tr_name req\<rparr> (check_permission g plan req engine own) log"

lemma policy_check_passes:
  assumes "de_behavior (fst (policy_check now view later context call decision log)) \<noteq> DENY"
  shows "policy_check now view later context call decision log = (decision, log) \<and>
    (\<forall>cx. context = Some cx \<longrightarrow> tc_name call \<notin> set (p_denied_tools (pv_effective view)) \<and>
       (exploration_exhausted later cx \<longrightarrow> tc_name call \<in> set AFTER_EXHAUSTION))"
  using assms by (auto simp: policy_check_def refuse_def split: option.splits if_splits)

text \<open>
  C16. What the stack of the permission and the policy middleware lets through, by an allow or by an ask: the decision is
  then the one of the permission middleware, nothing was published, no layer of policy denies the tool (as the store
  answered first), an exhausted exploration (as it answered the second time) is left only the four tools that move the
  task on, and a Bash command is not catastrophic. Where the plan has the write scope \<open>none\<close> and is not read-only, a
  Bash command let through is not known to write either; a read-only plan leaves writing commands to the engine, so
  nothing is said of them there.
\<close>

theorem decided_call_is_safe:
  assumes "de_behavior (fst (decide_call g plan now view later (Some cx) req call_id engine own log)) \<noteq> DENY"
    and "pv_effective view = merge_policies layers"
  shows "decide_call g plan now view later (Some cx) req call_id engine own log = (check_permission g plan req engine own, log) \<and>
    (\<forall>l\<in>set layers. tr_name req \<notin> set (p_denied_tools l)) \<and>
    (exploration_exhausted later cx \<longrightarrow> tr_name req \<in> set AFTER_EXHAUSTION) \<and>
    (tr_name req = ''Bash'' \<longrightarrow> classify g (tr_command req) \<noteq> LvCatastrophic \<and>
       (pp_write_scope plan = ScopeNone \<and> \<not> pp_read_only plan \<longrightarrow> \<not> as_writes (assess g (tr_command req))))"
proof -
  let ?d = "check_permission g plan req engine own"
  let ?call = "\<lparr>tc_id = call_id, tc_name = tr_name req\<rparr>"
  have pass: "policy_check now view later (Some cx) ?call ?d log = (?d, log)"
    "tr_name req \<notin> set (p_denied_tools (pv_effective view))"
    "exploration_exhausted later cx \<longrightarrow> tr_name req \<in> set AFTER_EXHAUSTION"
    using policy_check_passes[of now view later "Some cx" ?call ?d log] assms(1) by (simp_all add: decide_call_def)
  have d: "de_behavior ?d \<noteq> DENY" using assms(1) pass(1) by (simp add: decide_call_def)
  have "tr_name req = ''Bash'' \<longrightarrow> classify g (tr_command req) \<noteq> LvCatastrophic \<and>
     (pp_write_scope plan = ScopeNone \<and> \<not> pp_read_only plan \<longrightarrow> \<not> as_writes (assess g (tr_command req)))"
    using d by (auto simp: check_permission_def bash_decision_def bash_found_def classify_def deny_def split: if_splits)
  then show ?thesis
    using pass merge_denied[of layers] assms(2) by (auto simp: decide_call_def)
qed

theorem decided_call_is_safe_witness:
  "tr_name (bash_call ''ls'') \<notin> set (p_denied_tools \<lparr>p_denied_tools = [''WebSearch''], p_exploration_max_tool_calls = Some 3,
     p_max_concurrency = None, p_max_review_rounds = None\<rparr>) \<and> classify sample_guarded ''ls'' \<noteq> LvCatastrophic"
proof -
  let ?layer = "\<lparr>p_denied_tools = [''WebSearch''], p_exploration_max_tool_calls = Some 3, p_max_concurrency = None,
    p_max_review_rounds = None\<rparr>"
  let ?view = "\<lparr>pv_effective = merge_policies [?layer], pv_side_effects = 1, pv_extensions = 0\<rparr>"
  let ?cx = "\<lparr>sx_tenant_id = ''t'', sx_task_id = ''task'', sx_attempt_id = ''att'', sx_activity_attempt = 1, sx_node_id = ''n'',
    sx_profile = [], sx_task_policy = ?layer, sx_team = None\<rparr>"
  let ?log = "\<lparr>pl_events = [], pl_checkpoints = [], pl_checkpointed = []\<rparr>"
  have plain: "check_permission sample_guarded no_write_plan (bash_call ''ls'') sample_ask sample_ask = allow ''a low risk command''"
    by code_simp
  have "''Bash'' \<notin> set (p_denied_tools (pv_effective ?view))" "exploration_allowed ?view = 3" by code_simp+
  then have "de_behavior (fst (decide_call sample_guarded no_write_plan [] ?view ?view (Some ?cx) (bash_call ''ls'') ''c1'' sample_ask
      sample_ask ?log)) \<noteq> DENY"
    by (simp add: decide_call_def policy_check_def plain allow_def exploration_exhausted_def)
  from decided_call_is_safe[OF this, of "[?layer]"] show ?thesis by simp
qed

text \<open>
  One checkpoint per batch: after any sequence of tool calls the checkpoints written have different sequence
  numbers, in the order the batches were first entered.
\<close>

definition enter_batches :: "(stream_context option \<times> nat \<times> string) list \<Rightarrow> policy_log \<Rightarrow> policy_log" where
  "enter_batches calls log = foldl (\<lambda>l (context, batch, state). policy_acting context batch state l) log calls"

lemma policy_acting_keeps:
  assumes "distinct (pl_checkpointed log)" and "map fst (pl_checkpoints log) = pl_checkpointed log"
  shows "distinct (pl_checkpointed (policy_acting context batch state log)) \<and>
    map fst (pl_checkpoints (policy_acting context batch state log)) = pl_checkpointed (policy_acting context batch state log)"
  using assms by (simp add: policy_acting_def)

lemma checkpoints_distinct:
  assumes "distinct (pl_checkpointed log)" and "map fst (pl_checkpoints log) = pl_checkpointed log"
  shows "distinct (map fst (pl_checkpoints (enter_batches calls log)))"
  using assms
proof (induction calls arbitrary: log)
  case (Cons c calls)
  obtain turn batch state where c: "c = (turn, batch, state)" by (cases c)
  show ?case using Cons.IH[of "policy_acting turn batch state log"] policy_acting_keeps[OF Cons.prems] c
    by (simp add: enter_batches_def)
qed (simp add: enter_batches_def)

end
