(* ===== verification/Tool_Ledger.thy ===== *)
theory Tool_Ledger
  imports Tool_Policy
begin

text \<open>
  The idempotency ledger of tool calls: the queries of \<open>task_store.py\<close> on \<open>idempotency_ledger\<close> and \<open>runtime_outbox\<close>, and the
  middleware that runs a call at most once (\<open>ledger_middleware.py\<close>). A statement of the store is a function on the
  tables; a transaction is one step. The table of a tenant (row-level security shows no other) is the list of its rows in the
  order of \<open>first_seen\<close>. A JSON column holds the value that was written. What AgentScope supplies is an argument: whether the
  tool is read-only, and what the rest of the stack (\<open>next_handler\<close>) yields and how it ends. The state of a response is the
  value of AgentScope's enum; the text of \<open>todo_list_preview\<close> is an argument.
\<close>

section \<open>The tables\<close>

datatype ledger_status = Started | Succeeded | FailedPermanent

record ledger_row =
  lr_scope :: string
  lr_key :: string
  lr_request_hash :: string
  lr_status :: ledger_status
  lr_owner :: "string option"
  lr_result_ref :: "(string, json) dict option"

record outbox_row =
  ob_tenant_id :: string
  ob_task_id :: string
  ob_event_id :: string
  ob_body :: json

text \<open>\<open>st_pool\<close> tells whether the store has a database at all.\<close>

record store =
  st_pool :: bool
  st_ledger :: "string \<Rightarrow> ledger_row list"
  st_outbox :: "outbox_row list"

datatype ledger_error = ValueErrorL string | RuntimeErrorL string | CancelledErrorL | RaisedL

definition REPLAY_APPROVED :: string where "REPLAY_APPROVED = ''replay-approved''"
definition EXTENSION_TOOL :: string where "EXTENSION_TOOL = ''orbit_request_budget_extension''"
definition SIDE_EFFECT :: string where "SIDE_EFFECT = ''side_effect''"

text \<open>SQL's \<open>LIKE\<close> with its default escape; \<open>like_attempt\<close> is the pattern of the calls of one attempt.\<close>

fun sql_like :: "string \<Rightarrow> string \<Rightarrow> bool" where
  "sql_like [] s \<longleftrightarrow> s = []"
| "sql_like (p # ps) s \<longleftrightarrow>
    (if p = CHR ''%'' then sql_like ps s \<or> (case s of [] \<Rightarrow> False | _ # cs \<Rightarrow> sql_like (p # ps) cs)
     else if p = backslash
     then (case (ps, s) of (q # qs, c # cs) \<Rightarrow> c = q \<and> sql_like qs cs | _ \<Rightarrow> False)
     else (case s of [] \<Rightarrow> False | c # cs \<Rightarrow> (p = CHR ''_'' \<or> p = c) \<and> sql_like ps cs))"

abbreviation like_attempt :: "string \<Rightarrow> string \<Rightarrow> bool" where
  "like_attempt attempt_id key \<equiv> sql_like (attempt_id @ '':%'') key"

lemma sql_like_any: "sql_like ''%'' s"
  by (induction s) simp_all

lemma sql_like_prefix: "backslash \<notin> set p \<Longrightarrow> sql_like (p @ ''%'') (p @ s)"
proof (induction p)
  case Nil
  then show ?case using sql_like_any[of s] by simp
next
  case (Cons c p)
  then have IH: "sql_like (p @ ''%'') (p @ s)" and c: "c \<noteq> backslash" by auto
  show ?case
  proof (cases "c = CHR ''%''")
    case True
    have "sql_like (CHR ''%'' # p @ ''%'') (p @ s)" using IH by (subst sql_like.simps) simp
    with True show ?thesis by (simp del: sql_like.simps add: sql_like.simps(2)[of "CHR ''%''" _ "CHR ''%'' # _"])
  next
    case False
    with IH c show ?thesis by simp
  qed
qed

lemma like_attempt_key: "backslash \<notin> set attempt_id \<Longrightarrow> like_attempt attempt_id (attempt_id @ '':'' @ s)"
  using sql_like_prefix[of "attempt_id @ '':''" s] by simp

section \<open>The store\<close>

definition find_row :: "ledger_row list \<Rightarrow> string \<Rightarrow> string \<Rightarrow> ledger_row option" where
  "find_row rows scope key = find (\<lambda>r. lr_scope r = scope \<and> lr_key r = key) rows"

record ledger_claim =
  lc_status :: ledger_status
  lc_result_ref :: "(string, json) dict option"
  lc_owner :: "string option"
  lc_claimed :: bool

definition fresh_claim :: ledger_claim where
  "fresh_claim = \<lparr>lc_status = Started, lc_result_ref = None, lc_owner = None, lc_claimed = True\<rparr>"

definition claim_ledger ::
  "string \<Rightarrow> string \<Rightarrow> string \<Rightarrow> string \<Rightarrow> string \<Rightarrow> (string, json) dict option \<Rightarrow> store \<Rightarrow>
   (ledger_error + ledger_claim) \<times> store" where
  "claim_ledger tenant scope key request_hash owner intent st =
    (if \<not> st_pool st then (Inr fresh_claim, st)
     else case find_row (st_ledger st tenant) scope key of
       Some row \<Rightarrow>
         if lr_request_hash row \<noteq> request_hash
         then (Inl (ValueErrorL ''idempotency key reused with a different request''), st)
         else (Inr \<lparr>lc_status = lr_status row, lc_result_ref = lr_result_ref row, lc_owner = lr_owner row, lc_claimed = False\<rparr>, st)
     | None \<Rightarrow>
         (Inr fresh_claim,
          st\<lparr>st_ledger := (st_ledger st)(tenant := st_ledger st tenant @
            [\<lparr>lr_scope = scope, lr_key = key, lr_request_hash = request_hash, lr_status = Started, lr_owner = Some owner,
              lr_result_ref = intent\<rparr>])\<rparr>))"

definition finish_ledger ::
  "string \<Rightarrow> string \<Rightarrow> string \<Rightarrow> ledger_status \<Rightarrow> (string, json) dict option \<Rightarrow> store \<Rightarrow> store" where
  "finish_ledger tenant scope key status result st =
    (if \<not> st_pool st then st
     else st\<lparr>st_ledger := (st_ledger st)(tenant :=
       map (\<lambda>r. if lr_scope r = scope \<and> lr_key r = key then r\<lparr>lr_status := status, lr_result_ref := result\<rparr> else r)
         (st_ledger st tenant))\<rparr>)"

definition approve_replay :: "string \<Rightarrow> string list \<Rightarrow> store \<Rightarrow> store" where
  "approve_replay tenant keys st =
    (if \<not> st_pool st \<or> keys = [] then st
     else st\<lparr>st_ledger := (st_ledger st)(tenant :=
       map (\<lambda>r. if lr_scope r = SIDE_EFFECT \<and> lr_key r \<in> set keys then r\<lparr>lr_owner := Some REPLAY_APPROVED\<rparr> else r)
         (st_ledger st tenant))\<rparr>)"

text \<open>\<open>ON CONFLICT (event_id) DO NOTHING\<close>; an event is its tenant, its task, its id and its body.\<close>

definition insert_event :: "outbox_row \<Rightarrow> outbox_row list \<Rightarrow> outbox_row list" where
  "insert_event e rows = (if ob_event_id e \<in> ob_event_id ` set rows then rows else rows @ [e])"

definition publish_events :: "outbox_row list \<Rightarrow> store \<Rightarrow> (ledger_error + unit) \<times> store" where
  "publish_events events st =
    (if events = [] then (Inr (), st)
     else if \<not> st_pool st
     then (Inl (RuntimeErrorL ''durable events are written through runtime_outbox; set ORBIT_CONTROL_WORKER_DB_URL''), st)
     else (Inr (),
       st\<lparr>st_outbox := fold insert_event
         (concat (map (\<lambda>t. filter (\<lambda>e. ob_tenant_id e = t) events) (rev (remdups (rev (map ob_tenant_id events))))))
         (st_outbox st)\<rparr>))"

definition get_field :: "(string, json) dict option \<Rightarrow> string \<Rightarrow> json option" where
  "get_field ref k = (case ref of None \<Rightarrow> None | Some d \<Rightarrow> dget d k)"

abbreviation field_true :: "(string, json) dict option \<Rightarrow> string \<Rightarrow> bool" where
  "field_true ref k \<equiv> (case get_field ref k of None \<Rightarrow> False | Some v \<Rightarrow> json_truthy v)"

definition unknown_side_effects :: "string \<Rightarrow> string \<Rightarrow> store \<Rightarrow> (string \<times> json) list" where
  "unknown_side_effects tenant attempt_id st =
    (if \<not> st_pool st then []
     else map (\<lambda>r. (lr_key r, case get_field (lr_result_ref r) ''tool'' of Some t \<Rightarrow> t | None \<Rightarrow> JStr ''a tool''))
       (filter (\<lambda>r. \<not> field_true (lr_result_ref r) ''read_only'')
         (filter (\<lambda>r. lr_scope r = SIDE_EFFECT \<and> lr_status r = Started \<and> like_attempt attempt_id (lr_key r) \<and>
             (case lr_owner r of None \<Rightarrow> [] | Some w \<Rightarrow> w) \<noteq> REPLAY_APPROVED)
           (st_ledger st tenant))))"

text \<open>\<open>" ".join(text.split())\<close>: \<open>word\<close> is the word being read, backwards.\<close>

fun split_space :: "string \<Rightarrow> string \<Rightarrow> string list" where
  "split_space word [] = (if word = [] then [] else [rev word])"
| "split_space word (c # cs) =
    (if is_space c then (if word = [] then [] else [rev word]) @ split_space [] cs else split_space (c # word) cs)"

definition str_of :: "(json \<Rightarrow> string) \<Rightarrow> json \<Rightarrow> string" where
  "str_of py_str v = (case v of JStr s \<Rightarrow> s | _ \<Rightarrow> py_str v)"

definition effect_line :: "(json \<Rightarrow> string) \<Rightarrow> ledger_row \<Rightarrow> string" where
  "effect_line py_str r =
    (let text = take 80 (join '' '' (split_space []
           (case get_field (lr_result_ref r) ''text'' of Some v \<Rightarrow> str_of py_str v | None \<Rightarrow> [])))
     in (case get_field (lr_result_ref r) ''tool'' of Some v \<Rightarrow> str_of py_str v | None \<Rightarrow> ''a tool'')
        @ '' ['' @ take 8 (lr_request_hash r) @ '']'' @ (if text \<noteq> [] then '': '' @ text else []))"

definition only_read :: "ledger_row \<Rightarrow> bool" where
  "only_read r \<longleftrightarrow> field_true (lr_result_ref r) ''read_only'' \<or>
     get_field (lr_result_ref r) ''tool'' = Some (JStr EXTENSION_TOOL)"

definition succeeded_side_effects :: "(json \<Rightarrow> string) \<Rightarrow> string \<Rightarrow> string list \<Rightarrow> nat \<Rightarrow> store \<Rightarrow> string list" where
  "succeeded_side_effects py_str tenant attempt_ids limit st =
    (if \<not> st_pool st \<or> attempt_ids = [] then []
     else rev (take limit (map (effect_line py_str) (filter (\<lambda>r. \<not> only_read r)
       (take (limit * 4) (rev (filter (\<lambda>r. lr_scope r = SIDE_EFFECT \<and> lr_status r = Succeeded \<and>
           (\<exists>a\<in>set attempt_ids. like_attempt a (lr_key r))) (st_ledger st tenant))))))))"

text \<open>\<open>result_ref->>'tool'\<close>: the text of the field, and NULL for a missing field or a JSON null.\<close>

definition tool_text :: "(json \<Rightarrow> string) \<Rightarrow> ledger_row \<Rightarrow> string option" where
  "tool_text json_text r =
    (case get_field (lr_result_ref r) ''tool'' of None \<Rightarrow> None | Some JNull \<Rightarrow> None | Some v \<Rightarrow> Some (str_of json_text v))"

definition count_side_effects :: "(json \<Rightarrow> string) \<Rightarrow> string \<Rightarrow> string \<Rightarrow> store \<Rightarrow> nat" where
  "count_side_effects json_text tenant attempt_id st =
    (if \<not> st_pool st then 0
     else length (filter (\<lambda>r. lr_scope r = SIDE_EFFECT \<and> like_attempt attempt_id (lr_key r) \<and>
         (case tool_text json_text r of None \<Rightarrow> [] | Some t \<Rightarrow> t) \<noteq> EXTENSION_TOOL) (st_ledger st tenant)))"

definition granted_extensions :: "(json \<Rightarrow> string) \<Rightarrow> string \<Rightarrow> string \<Rightarrow> store \<Rightarrow> nat" where
  "granted_extensions json_text tenant attempt_id st =
    (if \<not> st_pool st then 0
     else length (filter (\<lambda>r. lr_scope r = SIDE_EFFECT \<and> like_attempt attempt_id (lr_key r) \<and> lr_status r = Succeeded \<and>
         tool_text json_text r = Some EXTENSION_TOOL) (st_ledger st tenant)))"

section \<open>The middleware\<close>

record ledger_call = tool_call +
  tc_input :: string

text \<open>The blocks of a response: the texts, and the others, which the ledger does not keep.\<close>

datatype content_block = TextBlock string | OtherBlock

record tool_response =
  rs_content :: "content_block list"
  rs_state :: string

datatype stream_item = ToolChunk "content_block list" | ToolResponse tool_response

datatype handler_end = HandlerEnded | HandlerCancelled | HandlerRaised

record handled =
  hd_items :: "stream_item list"
  hd_end :: handler_end

definition response_text :: "tool_response \<Rightarrow> string" where
  "response_text r = concat (map (\<lambda>b. case b of TextBlock t \<Rightarrow> t | OtherBlock \<Rightarrow> []) (rs_content r))"

definition recorded :: "(json \<Rightarrow> string) \<Rightarrow> (string, json) dict option \<Rightarrow> tool_response" where
  "recorded py_str ref =
    \<lparr>rs_content = [TextBlock (case get_field ref ''text'' of Some v \<Rightarrow> str_of py_str v | None \<Rightarrow> [])],
     rs_state = (case get_field ref ''state'' of Some v \<Rightarrow> str_of py_str v | None \<Rightarrow> ''success'')\<rparr>"

definition error_response :: "string \<Rightarrow> tool_response" where
  "error_response message = \<lparr>rs_content = [TextBlock message], rs_state = ''error''\<rparr>"

definition call_key :: "stream_context \<Rightarrow> ledger_call \<Rightarrow> string" where
  "call_key cx call = sx_attempt_id cx @ '':'' @ tc_id call"

definition request_hash :: "ledger_call \<Rightarrow> string" where
  "request_hash call = hexdigest (utf8 (tc_name call @ '':'' @ tc_input call))"

text \<open>\<open>_is_read_only\<close>: \<open>get_tool\<close> finds the tool, with what its attribute \<open>is_read_only\<close> says, if it has one.\<close>

definition is_read_only :: "(string \<Rightarrow> bool option option) \<Rightarrow> string \<Rightarrow> bool" where
  "is_read_only get_tool name = (case get_tool name of Some (Some b) \<Rightarrow> b | _ \<Rightarrow> False)"

definition finished_body :: "(string \<Rightarrow> string) \<Rightarrow> stream_context \<Rightarrow> ledger_call \<Rightarrow> tool_response \<Rightarrow> (string, json) dict" where
  "finished_body preview cx call r =
    [(''attempt_id'', JStr (event_attempt_id cx))] @ team_stamp cx @
    [(''tool_call_id'', JStr (tc_id call)), (''tool_name'', JStr (tc_name call)), (''state'', JStr (rs_state r)),
     (''result_preview'', JStr (take 200 (response_text r)))] @
    (if tc_name call = ''TodoWrite'' then [(''args_preview'', JStr (preview (tc_input call)))] else [])"

definition finished_event ::
  "(string \<Rightarrow> string) \<Rightarrow> string \<Rightarrow> stream_context \<Rightarrow> ledger_call \<Rightarrow> tool_response \<Rightarrow> outbox_row" where
  "finished_event preview now cx call r =
    \<lparr>ob_tenant_id = sx_tenant_id cx, ob_task_id = sx_task_id cx,
     ob_event_id = deterministic_id (sx_attempt_id cx @ '':finished:'' @ tc_id call) ''evt'',
     ob_body = attempt_event now (sx_tenant_id cx) (sx_task_id cx) (sx_attempt_id cx) ''tool.call_finished''
       (finished_body preview cx call r) (''finished:'' @ tc_id call) (Some (event_attempt_id cx))\<rparr>"

definition call_finished ::
  "(string \<Rightarrow> string) \<Rightarrow> string \<Rightarrow> stream_context \<Rightarrow> ledger_call \<Rightarrow> tool_response \<Rightarrow> store \<Rightarrow> (ledger_error + unit) \<times> store" where
  "call_finished preview now cx call r = publish_events [finished_event preview now cx call r]"

text \<open>
  The generator up to the point where it calls \<open>next_handler\<close>: the claim, and the answer for a call that does not run. The
  result is the response it yields, or None when the call runs.
\<close>

definition answer_call ::
  "(string \<Rightarrow> string) \<Rightarrow> string \<Rightarrow> stream_context \<Rightarrow> ledger_call \<Rightarrow> tool_response \<Rightarrow> store \<Rightarrow>
   (ledger_error + tool_response option) \<times> store" where
  "answer_call preview now cx call r st =
    (case call_finished preview now cx call r st of
       (Inl e, st') \<Rightarrow> (Inl e, st') | (Inr _, st') \<Rightarrow> (Inr (Some r), st'))"

definition enter_call ::
  "(json \<Rightarrow> string) \<Rightarrow> (string \<Rightarrow> string) \<Rightarrow> string \<Rightarrow> stream_context \<Rightarrow> ledger_call \<Rightarrow> bool \<Rightarrow> store \<Rightarrow>
   (ledger_error + tool_response option) \<times> store" where
  "enter_call py_str preview now cx call read_only st =
    (case claim_ledger (sx_tenant_id cx) SIDE_EFFECT (call_key cx call) (request_hash call) (sx_attempt_id cx)
       (Some [(''tool'', JStr (tc_name call)), (''read_only'', JBool read_only)]) st of
       (Inl e, st') \<Rightarrow> (Inl e, st')
     | (Inr claim, st') \<Rightarrow>
         if lc_status claim = Succeeded then answer_call preview now cx call (recorded py_str (lc_result_ref claim)) st'
         else if lc_status claim = FailedPermanent
         then answer_call preview now cx call (error_response (tc_name call @ '' failed earlier and is not retried'')) st'
         else if \<not> lc_claimed claim \<and> \<not> read_only \<and> lc_owner claim \<noteq> Some REPLAY_APPROVED
         then answer_call preview now cx call
           (error_response (tc_name call @ '' may already have run; it needs approval to run again'')) st'
         else (Inr None, st'))"

definition outcome_of :: "ledger_call \<Rightarrow> bool \<Rightarrow> tool_response \<Rightarrow> (string, json) dict" where
  "outcome_of call read_only r =
    [(''tool'', JStr (tc_name call)), (''text'', JStr (response_text r)), (''state'', JStr (rs_state r)),
     (''read_only'', JBool read_only)]"

text \<open>The last response among what the handler yielded.\<close>

definition final_response :: "stream_item list \<Rightarrow> tool_response option" where
  "final_response items =
    foldl (\<lambda>final item. case item of ToolResponse r \<Rightarrow> Some r | ToolChunk _ \<Rightarrow> final) None items"

text \<open>The rest of the generator, once the handler has ended: what it yields in all, and how it ends.\<close>

definition leave_call ::
  "(string \<Rightarrow> string) \<Rightarrow> string \<Rightarrow> stream_context \<Rightarrow> ledger_call \<Rightarrow> bool \<Rightarrow> handled \<Rightarrow> store \<Rightarrow>
   stream_item list \<times> (ledger_error + unit) \<times> store" where
  "leave_call preview now cx call read_only h st =
    (case hd_end h of
       HandlerCancelled \<Rightarrow>
         (hd_items h @ [ToolResponse \<lparr>rs_content = [TextBlock (tc_name call @ '' was interrupted'')], rs_state = ''interrupted''\<rparr>],
          Inl CancelledErrorL, st)
     | HandlerRaised \<Rightarrow> (hd_items h, Inl RaisedL, st)
     | HandlerEnded \<Rightarrow>
         (hd_items h,
          case final_response (hd_items h) of
            None \<Rightarrow> (Inr (), st)
          | Some r \<Rightarrow>
              (case call_finished preview now cx call r st of
                 (Inl e, st') \<Rightarrow> (Inl e, st')
               | (Inr _, st') \<Rightarrow>
                   (Inr (), finish_ledger (sx_tenant_id cx) SIDE_EFFECT (call_key cx call)
                     (if rs_state r = ''success'' then Succeeded else FailedPermanent)
                     (Some (outcome_of call read_only r)) st'))))"

text \<open>The whole generator, with whether the handler was called; outside a task attempt it only passes the items on.\<close>

definition ledger_acting ::
  "(json \<Rightarrow> string) \<Rightarrow> (string \<Rightarrow> string) \<Rightarrow> string \<Rightarrow> (string \<Rightarrow> bool option option) \<Rightarrow> stream_context option \<Rightarrow> ledger_call \<Rightarrow>
   handled \<Rightarrow> store \<Rightarrow> bool \<times> stream_item list \<times> (ledger_error + unit) \<times> store" where
  "ledger_acting py_str preview now get_tool context call h st =
    (case context of
       None \<Rightarrow> (True, hd_items h,
         (case hd_end h of HandlerEnded \<Rightarrow> Inr () | HandlerCancelled \<Rightarrow> Inl CancelledErrorL | HandlerRaised \<Rightarrow> Inl RaisedL), st)
     | Some cx \<Rightarrow>
         (let read_only = is_read_only get_tool (tc_name call)
          in case enter_call py_str preview now cx call read_only st of
               (Inl e, st') \<Rightarrow> (False, [], Inl e, st')
             | (Inr (Some r), st') \<Rightarrow> (False, [ToolResponse r], Inr (), st')
             | (Inr None, st') \<Rightarrow> (True, leave_call preview now cx call read_only h st')))"

end
