(* ===== verification/Ledger_Correct.thy ===== *)
theory Ledger_Correct
  imports Tool_Ledger
begin

text \<open>
  What the ledger promises, over every interleaving of the activities that make tool calls: a call runs once, its recorded
  outcome is what every later try of it gets, and the calls that are refused are the ones a person is asked about. The
  system below cuts the middleware at its call of the handler: a worker may die there, or between the event of a
  finished call and its outcome, and other calls of any attempt go on meanwhile.
\<close>

section \<open>Calls in flight\<close>

text \<open>\<open>sy_runs\<close> is the history of the calls of the handler, \<open>sy_approved\<close> of what a person approved to run again.\<close>

record ledger_sys =
  sy_store :: store
  sy_running :: "(stream_context \<times> ledger_call \<times> bool) list"
  sy_runs :: "(string \<times> string \<times> bool) list"
  sy_approved :: "(string \<times> string) list"

inductive ledger_step :: "(json \<Rightarrow> string) \<Rightarrow> (string \<Rightarrow> string) \<Rightarrow> ledger_sys \<Rightarrow> ledger_sys \<Rightarrow> bool" for py_str preview where
  call_answered:
    "enter_call py_str preview now cx call ro (sy_store s) = (res, st) \<Longrightarrow> res \<noteq> Inr None \<Longrightarrow>
     ledger_step py_str preview s (s\<lparr>sy_store := st\<rparr>)"
| call_runs:
    "enter_call py_str preview now cx call ro (sy_store s) = (Inr None, st) \<Longrightarrow> sx_attempt_id cx \<noteq> REPLAY_APPROVED \<Longrightarrow>
     ledger_step py_str preview s (s\<lparr>sy_store := st, sy_running := (cx, call, ro) # sy_running s,
       sy_runs := sy_runs s @ [(sx_tenant_id cx, call_key cx call, ro)]\<rparr>)"
| call_left:
    "(cx, call, ro) \<in> set (sy_running s) \<Longrightarrow> leave_call preview now cx call ro h (sy_store s) = (items, res, st) \<Longrightarrow>
     ledger_step py_str preview s (s\<lparr>sy_store := st, sy_running := remove1 (cx, call, ro) (sy_running s)\<rparr>)"
| worker_died:
    "ledger_step py_str preview s (s\<lparr>sy_running := remove1 (cx, call, ro) (sy_running s)\<rparr>)"
| worker_died_after_event:
    "(cx, call, ro) \<in> set (sy_running s) \<Longrightarrow> call_finished preview now cx call r (sy_store s) = (res, st) \<Longrightarrow>
     ledger_step py_str preview s (s\<lparr>sy_store := st, sy_running := remove1 (cx, call, ro) (sy_running s)\<rparr>)"
| replay_approved:
    "ledger_step py_str preview s (s\<lparr>sy_store := approve_replay t keys (sy_store s),
       sy_approved := map (Pair t) keys @ sy_approved s\<rparr>)"

definition first_sys :: ledger_sys where
  "first_sys = \<lparr>sy_store = \<lparr>st_pool = True, st_ledger = \<lambda>_. [], st_outbox = []\<rparr>, sy_running = [], sy_runs = [], sy_approved = []\<rparr>"

section \<open>The row of a call\<close>

definition row_at :: "store \<Rightarrow> string \<Rightarrow> string \<Rightarrow> ledger_row option" where
  "row_at st t k = find_row (st_ledger st t) SIDE_EFFECT k"

named_theorems ledger_rows \<open>the row of a call after an operation of the store\<close>

lemma find_row_map:
  assumes "\<And>r. lr_scope (f r) = lr_scope r" "\<And>r. lr_key (f r) = lr_key r"
  shows "find_row (map f rows) scope key = map_option f (find_row rows scope key)"
  unfolding find_row_def by (induction rows) (simp_all add: assms)

lemma find_row_Some: "find_row rows scope key = Some r \<Longrightarrow> r \<in> set rows \<and> lr_scope r = scope \<and> lr_key r = key"
  unfolding find_row_def by (auto simp: find_Some_iff)

lemma find_row_append:
  "find_row (rows @ [r]) scope key =
    (case find_row rows scope key of Some x \<Rightarrow> Some x
     | None \<Rightarrow> if lr_scope r = scope \<and> lr_key r = key then Some r else None)"
  unfolding find_row_def by (induction rows) simp_all

lemma row_at_publish [ledger_rows]: "row_at (snd (publish_events es st)) t k = row_at st t k"
  and st_ledger_publish [ledger_rows]: "st_ledger (snd (publish_events es st)) = st_ledger st"
  and st_pool_publish [ledger_rows]: "st_pool (snd (publish_events es st)) = st_pool st"
  by (simp_all add: publish_events_def row_at_def)

definition with_outcome :: "ledger_status \<Rightarrow> (string, json) dict option \<Rightarrow> ledger_row \<Rightarrow> ledger_row" where
  "with_outcome status ref r = r\<lparr>lr_status := status, lr_result_ref := ref\<rparr>"

lemma with_outcome_sel [simp]:
  "lr_status (with_outcome status ref r) = status" "lr_result_ref (with_outcome status ref r) = ref"
  "lr_owner (with_outcome status ref r) = lr_owner r" "lr_request_hash (with_outcome status ref r) = lr_request_hash r"
  by (simp_all add: with_outcome_def)

lemma row_at_finish [ledger_rows]:
  "st_pool st \<Longrightarrow> row_at (finish_ledger t' SIDE_EFFECT k' status ref st) t k =
    (if t = t' \<and> k = k' then map_option (with_outcome status ref) (row_at st t k) else row_at st t k)"
  using find_row_Some[of "st_ledger st t" SIDE_EFFECT k]
  by (cases "row_at st t k") (auto simp: finish_ledger_def row_at_def find_row_map with_outcome_def)

lemma st_pool_finish [ledger_rows]: "st_pool (finish_ledger t s k status ref st) = st_pool st"
  by (simp add: finish_ledger_def)

lemma row_at_approve [ledger_rows]:
  "st_pool st \<Longrightarrow> row_at (approve_replay t' keys st) t k =
    (if t = t' \<and> k \<in> set keys then map_option (lr_owner_update (\<lambda>_. Some REPLAY_APPROVED)) (row_at st t k)
     else row_at st t k)"
  using find_row_Some[of "st_ledger st t" SIDE_EFFECT k]
  by (cases "row_at st t k") (auto simp: approve_replay_def row_at_def find_row_map)

lemma st_pool_approve [ledger_rows]: "st_pool (approve_replay t keys st) = st_pool st"
  by (simp add: approve_replay_def)

lemma answer_call_eq:
  assumes "st_pool st"
  shows "answer_call preview now cx call r st =
    (Inr (Some r), snd (publish_events [finished_event preview now cx call r] st))"
  using assms by (simp add: answer_call_def call_finished_def publish_events_def)

definition started_row :: "stream_context \<Rightarrow> ledger_call \<Rightarrow> bool \<Rightarrow> ledger_row" where
  "started_row cx call ro =
    \<lparr>lr_scope = SIDE_EFFECT, lr_key = call_key cx call, lr_request_hash = request_hash call, lr_status = Started,
     lr_owner = Some (sx_attempt_id cx),
     lr_result_ref = Some [(''tool'', JStr (tc_name call)), (''read_only'', JBool ro)]\<rparr>"

text \<open>
  The middleware by the row of its call. A call without one runs, under a new row; a call with one leaves the rows as they
  are, and what it gets depends on the row alone.
\<close>

lemma enter_call_fresh:
  assumes "st_pool st" and "row_at st (sx_tenant_id cx) (call_key cx call) = None"
  shows "enter_call py_str preview now cx call ro st =
    (Inr None, st\<lparr>st_ledger := (st_ledger st)(sx_tenant_id cx := st_ledger st (sx_tenant_id cx) @ [started_row cx call ro])\<rparr>)"
  using assms by (simp add: enter_call_def claim_ledger_def row_at_def fresh_claim_def started_row_def)

lemma enter_call_again:
  assumes "st_pool st" and "row_at st (sx_tenant_id cx) (call_key cx call) = Some row"
  shows "enter_call py_str preview now cx call ro st =
    (if lr_request_hash row \<noteq> request_hash call
     then (Inl (ValueErrorL ''idempotency key reused with a different request''), st)
     else case lr_status row of
       Succeeded \<Rightarrow> answer_call preview now cx call (recorded py_str (lr_result_ref row)) st
     | FailedPermanent \<Rightarrow> answer_call preview now cx call (error_response (tc_name call @ '' failed earlier and is not retried'')) st
     | Started \<Rightarrow> if ro \<or> lr_owner row = Some REPLAY_APPROVED then (Inr None, st)
         else answer_call preview now cx call
           (error_response (tc_name call @ '' may already have run; it needs approval to run again'')) st)"
  using assms by (cases "lr_status row") (simp_all add: enter_call_def claim_ledger_def row_at_def)

lemma enter_call_rows:
  assumes "enter_call py_str preview now cx call ro st = (res, st')" and "st_pool st"
  shows "st_pool st' \<and>
    row_at st' t k =
      (if row_at st t k = None \<and> t = sx_tenant_id cx \<and> k = call_key cx call then Some (started_row cx call ro) else row_at st t k)"
proof (cases "row_at st (sx_tenant_id cx) (call_key cx call)")
  case None
  with assms show ?thesis
    by (auto simp: enter_call_fresh row_at_def find_row_append started_row_def split: option.splits)
next
  case (Some row)
  then have "row_at st' t k = row_at st t k \<and> st_pool st'"
    using assms by (auto simp: enter_call_again answer_call_eq ledger_rows split: if_splits ledger_status.splits)
  with Some show ?thesis by auto
qed

lemma enter_call_answered:
  assumes "enter_call py_str preview now cx call ro st = (res, st')" and "st_pool st" and "res \<noteq> Inr None"
  shows "row_at st' t k = row_at st t k"
proof -
  have "row_at st (sx_tenant_id cx) (call_key cx call) \<noteq> None"
    using assms enter_call_fresh[of st cx call py_str preview now ro] by auto
  with enter_call_rows[OF assms(1,2)] show ?thesis by auto
qed

lemma enter_call_runs:
  assumes "enter_call py_str preview now cx call ro st = (Inr None, st')" and "st_pool st"
    and "row_at st (sx_tenant_id cx) (call_key cx call) = Some row"
  shows "lr_status row = Started \<and> lr_request_hash row = request_hash call \<and> (ro \<or> lr_owner row = Some REPLAY_APPROVED)"
  using assms by (auto simp: enter_call_again answer_call_eq split: if_splits ledger_status.splits)

text \<open>How a call that ends changes the rows: only its own, and only to an outcome.\<close>

lemma leave_call_final:
  assumes "leave_call preview now cx call ro h st = (items, res, st')" and "st_pool st"
    and "hd_end h = HandlerEnded" and "final_response (hd_items h) = Some r"
  shows "st_pool st' \<and> row_at st' t k =
    (if t = sx_tenant_id cx \<and> k = call_key cx call
     then map_option (with_outcome (if rs_state r = ''success'' then Succeeded else FailedPermanent) (Some (outcome_of call ro r)))
       (row_at st t k)
     else row_at st t k)"
proof -
  have "st' = finish_ledger (sx_tenant_id cx) SIDE_EFFECT (call_key cx call)
      (if rs_state r = ''success'' then Succeeded else FailedPermanent) (Some (outcome_of call ro r))
      (snd (publish_events [finished_event preview now cx call r] st))"
    using assms by (auto simp: leave_call_def call_finished_def publish_events_def)
  with assms(2) show ?thesis by (simp add: ledger_rows)
qed

lemma leave_call_open:
  assumes "leave_call preview now cx call ro h st = (items, res, st')"
    and "\<not> (hd_end h = HandlerEnded \<and> final_response (hd_items h) \<noteq> None)"
  shows "st' = st"
  using assms by (auto simp: leave_call_def split: handler_end.splits)

lemma leave_call_rows:
  assumes "leave_call preview now cx call ro h st = (items, res, st')" and "st_pool st"
  shows "st_pool st' \<and> (row_at st' t k = row_at st t k \<or>
    (t = sx_tenant_id cx \<and> k = call_key cx call \<and>
     (\<exists>status ref. status \<noteq> Started \<and> row_at st' t k = map_option (with_outcome status ref) (row_at st t k))))"
proof (cases "hd_end h = HandlerEnded \<and> final_response (hd_items h) \<noteq> None")
  case True
  then obtain r where "final_response (hd_items h) = Some r" by auto
  with True leave_call_final[OF assms, of r t k] show ?thesis
    by (auto intro!: exI[of _ "if rs_state r = ''success'' then Succeeded else FailedPermanent"])
next
  case False
  with leave_call_open[OF assms(1)] assms(2) show ?thesis by simp
qed

section \<open>A call runs once\<close>

definition ledger_inv :: "ledger_sys \<Rightarrow> bool" where
  "ledger_inv s \<longleftrightarrow> st_pool (sy_store s) \<and>
    (\<forall>t k b. (t, k, b) \<in> set (sy_runs s) \<longrightarrow> row_at (sy_store s) t k \<noteq> None) \<and>
    (\<forall>(cx, call, b) \<in> set (sy_running s). \<exists>row. row_at (sy_store s) (sx_tenant_id cx) (call_key cx call) = Some row \<and>
       lr_request_hash row = request_hash call) \<and>
    (\<forall>t k row. row_at (sy_store s) t k = Some row \<and> lr_owner row = Some REPLAY_APPROVED \<longrightarrow> (t, k) \<in> set (sy_approved s)) \<and>
    (\<forall>t k. (t, k) \<notin> set (sy_approved s) \<longrightarrow> count_list (sy_runs s) (t, k, False) \<le> 1)"

lemma ledger_invD:
  assumes "ledger_inv s"
  shows ledger_inv_pool: "st_pool (sy_store s)"
    and ledger_inv_ran: "(t, k, b) \<in> set (sy_runs s) \<Longrightarrow> \<exists>row. row_at (sy_store s) t k = Some row"
    and ledger_inv_running: "(cx, call, b) \<in> set (sy_running s) \<Longrightarrow>
      \<exists>row. row_at (sy_store s) (sx_tenant_id cx) (call_key cx call) = Some row \<and> lr_request_hash row = request_hash call"
    and ledger_inv_owner: "row_at (sy_store s) t k = Some row \<Longrightarrow> lr_owner row = Some REPLAY_APPROVED \<Longrightarrow>
      (t, k) \<in> set (sy_approved s)"
    and ledger_inv_once: "(t, k) \<notin> set (sy_approved s) \<Longrightarrow> count_list (sy_runs s) (t, k, False) \<le> 1"
proof -
  show "st_pool (sy_store s)" using assms by (simp add: ledger_inv_def)
  show "(t, k, b) \<in> set (sy_runs s) \<Longrightarrow> \<exists>row. row_at (sy_store s) t k = Some row"
    using assms unfolding ledger_inv_def by blast
  show "(cx, call, b) \<in> set (sy_running s) \<Longrightarrow>
      \<exists>row. row_at (sy_store s) (sx_tenant_id cx) (call_key cx call) = Some row \<and> lr_request_hash row = request_hash call"
    using assms unfolding ledger_inv_def by blast
  show "row_at (sy_store s) t k = Some row \<Longrightarrow> lr_owner row = Some REPLAY_APPROVED \<Longrightarrow> (t, k) \<in> set (sy_approved s)"
    using assms unfolding ledger_inv_def by blast
  show "(t, k) \<notin> set (sy_approved s) \<Longrightarrow> count_list (sy_runs s) (t, k, False) \<le> 1"
    using assms unfolding ledger_inv_def by blast
qed

lemma ledger_invI:
  assumes "st_pool (sy_store s)"
    and "\<And>t k b. (t, k, b) \<in> set (sy_runs s) \<Longrightarrow> row_at (sy_store s) t k \<noteq> None"
    and "\<And>cx call b. (cx, call, b) \<in> set (sy_running s) \<Longrightarrow>
      \<exists>row. row_at (sy_store s) (sx_tenant_id cx) (call_key cx call) = Some row \<and> lr_request_hash row = request_hash call"
    and "\<And>t k row. row_at (sy_store s) t k = Some row \<Longrightarrow> lr_owner row = Some REPLAY_APPROVED \<Longrightarrow> (t, k) \<in> set (sy_approved s)"
    and "\<And>t k. (t, k) \<notin> set (sy_approved s) \<Longrightarrow> count_list (sy_runs s) (t, k, False) \<le> 1"
  shows "ledger_inv s"
  unfolding ledger_inv_def using assms by blast

text \<open>What most steps do to the rows: no row comes or goes, and none changes its request or its owner.\<close>

definition same_calls :: "store \<Rightarrow> store \<Rightarrow> bool" where
  "same_calls st st' \<longleftrightarrow> st_pool st' \<and>
    (\<forall>t k. rel_option (\<lambda>r r'. lr_request_hash r' = lr_request_hash r \<and> lr_owner r' = lr_owner r) (row_at st t k) (row_at st' t k))"

lemma same_callsD:
  assumes "same_calls st st'"
  shows "row_at st' t k = None \<longleftrightarrow> row_at st t k = None"
    and "row_at st' t k = Some row' \<Longrightarrow>
      \<exists>row. row_at st t k = Some row \<and> lr_request_hash row' = lr_request_hash row \<and> lr_owner row' = lr_owner row"
    and "row_at st t k = Some row \<Longrightarrow> \<exists>row'. row_at st' t k = Some row' \<and> lr_request_hash row' = lr_request_hash row"
proof -
  have "rel_option (\<lambda>r r'. lr_request_hash r' = lr_request_hash r \<and> lr_owner r' = lr_owner r) (row_at st t k) (row_at st' t k)"
    using assms by (simp add: same_calls_def)
  then show "row_at st' t k = None \<longleftrightarrow> row_at st t k = None"
    and "row_at st' t k = Some row' \<Longrightarrow>
      \<exists>row. row_at st t k = Some row \<and> lr_request_hash row' = lr_request_hash row \<and> lr_owner row' = lr_owner row"
    and "row_at st t k = Some row \<Longrightarrow> \<exists>row'. row_at st' t k = Some row' \<and> lr_request_hash row' = lr_request_hash row"
    by (auto elim!: option.rel_cases)
qed

lemma same_calls_eq: "st_pool st' \<Longrightarrow> (\<And>t k. row_at st' t k = row_at st t k) \<Longrightarrow> same_calls st st'"
  by (auto simp: same_calls_def option.rel_refl)

lemma same_calls_leave:
  assumes "leave_call preview now cx call ro h st = (items, res, st')" and "st_pool st"
  shows "same_calls st st'"
  unfolding same_calls_def
proof (intro conjI allI)
  show "st_pool st'" using leave_call_rows[OF assms] by auto
  fix t k
  show "rel_option (\<lambda>r r'. lr_request_hash r' = lr_request_hash r \<and> lr_owner r' = lr_owner r) (row_at st t k) (row_at st' t k)"
    using leave_call_rows[OF assms, of t k] by (cases "row_at st t k") (auto simp: option.rel_refl)
qed

lemma ledger_inv_same:
  assumes inv: "ledger_inv s" and same: "same_calls (sy_store s) (sy_store s')"
    and "sy_runs s' = sy_runs s" and "sy_approved s' = sy_approved s" and sub: "set (sy_running s') \<subseteq> set (sy_running s)"
  shows "ledger_inv s'"
proof (rule ledger_invI)
  show "st_pool (sy_store s')" using same by (simp add: same_calls_def)
  show "row_at (sy_store s') t k \<noteq> None" if "(t, k, b) \<in> set (sy_runs s')" for t k b
    using that assms(3) ledger_inv_ran[OF inv] by (auto simp: same_callsD(1)[OF same])
  show "\<exists>row. row_at (sy_store s') (sx_tenant_id cx) (call_key cx call) = Some row \<and> lr_request_hash row = request_hash call"
    if running: "(cx, call, b) \<in> set (sy_running s')" for cx call b
  proof -
    obtain row where "row_at (sy_store s) (sx_tenant_id cx) (call_key cx call) = Some row" "lr_request_hash row = request_hash call"
      using running sub ledger_inv_running[OF inv, of cx call b] by blast
    then show ?thesis using same_callsD(3)[OF same] by fastforce
  qed
  show "(t, k) \<in> set (sy_approved s')" if "row_at (sy_store s') t k = Some row" "lr_owner row = Some REPLAY_APPROVED" for t k row
    using that assms(4) same_callsD(2)[OF same that(1)] ledger_inv_owner[OF inv] by auto
  show "count_list (sy_runs s') (t, k, False) \<le> 1" if "(t, k) \<notin> set (sy_approved s')" for t k
    using that assms(3,4) ledger_inv_once[OF inv] by simp
qed

lemma ledger_inv_runs:
  assumes inv: "ledger_inv s" and enter: "enter_call py_str preview now cx call ro (sy_store s) = (Inr None, st)"
    and owner: "sx_attempt_id cx \<noteq> REPLAY_APPROVED"
  shows "ledger_inv (s\<lparr>sy_store := st, sy_running := (cx, call, ro) # sy_running s,
    sy_runs := sy_runs s @ [(sx_tenant_id cx, call_key cx call, ro)]\<rparr>)" (is "ledger_inv ?s")
proof (rule ledger_invI)
  let ?t = "sx_tenant_id cx" and ?k = "call_key cx call"
  note pool = ledger_inv_pool[OF inv]
  note rows = enter_call_rows[OF enter pool]
  have kept: "\<exists>row. row_at st t k = Some row \<and> lr_request_hash row = h"
    if "\<exists>row. row_at (sy_store s) t k = Some row \<and> lr_request_hash row = h" for t k h
    using that rows[of t k] by auto
  have own: "\<exists>row. row_at st ?t ?k = Some row \<and> lr_request_hash row = request_hash call"
    using rows[of ?t ?k] enter_call_runs[OF enter pool] by (cases "row_at (sy_store s) ?t ?k") (auto simp: started_row_def)
  show "st_pool (sy_store ?s)" using rows by simp
  show "row_at (sy_store ?s) t k \<noteq> None" if "(t, k, b) \<in> set (sy_runs ?s)" for t k b
    using that own rows[of t k] ledger_inv_ran[OF inv, of t k b] by auto
  show "\<exists>row. row_at (sy_store ?s) (sx_tenant_id c) (call_key c l) = Some row \<and> lr_request_hash row = request_hash l"
    if "(c, l, b) \<in> set (sy_running ?s)" for c l b
    using that own kept ledger_inv_running[OF inv, of c l b] by auto
  show "(t, k) \<in> set (sy_approved ?s)" if "row_at (sy_store ?s) t k = Some row" "lr_owner row = Some REPLAY_APPROVED" for t k row
    using that owner rows[of t k] ledger_inv_owner[OF inv, of t k row] by (auto simp: started_row_def split: if_splits)
  show "count_list (sy_runs ?s) (t, k, False) \<le> 1" if "(t, k) \<notin> set (sy_approved ?s)" for t k
  proof (cases "(t, k, False) = (?t, ?k, ro)")
    case True
    have "row_at (sy_store s) ?t ?k = None"
      using True that ledger_inv_owner[OF inv] enter_call_runs[OF enter pool] by (cases "row_at (sy_store s) ?t ?k") auto
    then have "(?t, ?k, ro) \<notin> set (sy_runs s)" using ledger_inv_ran[OF inv, of ?t ?k ro] by auto
    with True show ?thesis by (simp add: count_list_0_iff)
  next
    case False
    with ledger_inv_once[OF inv, of t k] that show ?thesis by auto
  qed
qed

lemma ledger_inv_approve:
  assumes inv: "ledger_inv s"
  shows "ledger_inv (s\<lparr>sy_store := approve_replay t' keys (sy_store s), sy_approved := map (Pair t') keys @ sy_approved s\<rparr>)"
    (is "ledger_inv ?s")
proof (rule ledger_invI)
  note pool = ledger_inv_pool[OF inv]
  show "st_pool (sy_store ?s)" using pool by (simp add: ledger_rows)
  show "row_at (sy_store ?s) t k \<noteq> None" if "(t, k, b) \<in> set (sy_runs ?s)" for t k b
    using that ledger_inv_ran[OF inv, of t k b] pool by (auto simp: ledger_rows)
  show "\<exists>row. row_at (sy_store ?s) (sx_tenant_id c) (call_key c l) = Some row \<and> lr_request_hash row = request_hash l"
    if "(c, l, b) \<in> set (sy_running ?s)" for c l b
    using that ledger_inv_running[OF inv, of c l b] pool by (auto simp: ledger_rows)
  show "(t, k) \<in> set (sy_approved ?s)" if "row_at (sy_store ?s) t k = Some row" "lr_owner row = Some REPLAY_APPROVED" for t k row
    using that ledger_inv_owner[OF inv, of t k row] pool by (auto simp: ledger_rows split: if_splits)
  show "count_list (sy_runs ?s) (t, k, False) \<le> 1" if "(t, k) \<notin> set (sy_approved ?s)" for t k
    using that ledger_inv_once[OF inv, of t k] by auto
qed

lemma ledger_inv_step:
  assumes "ledger_step py_str preview s s'" and inv: "ledger_inv s"
  shows "ledger_inv s'"
  using assms(1)
proof cases
  case (call_answered now cx call ro res st)
  have "st_pool (sy_store s)" using inv by (simp add: ledger_inv_def)
  then have "same_calls (sy_store s) st"
    using enter_call_answered[OF call_answered(2)] enter_call_rows[OF call_answered(2)] call_answered(3)
    by (intro same_calls_eq) auto
  with inv call_answered(1) show ?thesis by (intro ledger_inv_same[OF inv]) simp_all
next
  case (call_runs now cx call ro st)
  then show ?thesis using ledger_inv_runs[OF inv] by simp
next
  case (call_left cx call ro now h items res st)
  have "same_calls (sy_store s) st" using same_calls_leave[OF call_left(3)] inv by (simp add: ledger_inv_def)
  with call_left(1) show ?thesis by (intro ledger_inv_same[OF inv]) (simp_all add: set_remove1_subset)
next
  case (worker_died cx call ro)
  then show ?thesis using inv by (intro ledger_inv_same[OF inv]) (auto simp: set_remove1_subset ledger_inv_def intro: same_calls_eq)
next
  case (worker_died_after_event cx call ro now r res st)
  have "st = snd (publish_events [finished_event preview now cx call r] (sy_store s))"
    using worker_died_after_event(3) by (simp add: call_finished_def)
  then have "same_calls (sy_store s) st" using inv by (intro same_calls_eq) (simp_all add: ledger_rows ledger_inv_def)
  with worker_died_after_event(1) show ?thesis by (intro ledger_inv_same[OF inv]) (simp_all add: set_remove1_subset)
next
  case (replay_approved t keys)
  then show ?thesis using ledger_inv_approve[OF inv] by simp
qed

lemma ledger_inv_reachable: "(ledger_step py_str preview)\<^sup>*\<^sup>* first_sys s \<Longrightarrow> ledger_inv s"
proof (induction rule: rtranclp_induct)
  case base
  show ?case by (simp add: ledger_inv_def first_sys_def row_at_def find_row_def)
qed (rule ledger_inv_step)

text \<open>
  C11. A call with a side effect runs at most once, where a database is configured (without one nothing is claimed): whatever calls are made and made again, in whatever order, and wherever
  workers die, a call whose key no person approved is handed to its tool at most once unless the tool is read-only.
\<close>

theorem tool_runs_once:
  assumes "(ledger_step py_str preview)\<^sup>*\<^sup>* first_sys s" and "(t, k) \<notin> set (sy_approved s)"
  shows "count_list (sy_runs s) (t, k, False) \<le> 1"
  using ledger_inv_once[OF ledger_inv_reachable[OF assms(1)] assms(2)] .

text \<open>Once a row has an outcome and no call of its key is in flight, neither changes again.\<close>

definition settled :: "string \<Rightarrow> string \<Rightarrow> string \<Rightarrow> ledger_status \<Rightarrow> (string, json) dict option \<Rightarrow> (string \<times> string \<times> bool) list \<Rightarrow>
  ledger_sys \<Rightarrow> bool" where
  "settled t k h status ref runs s \<longleftrightarrow> st_pool (sy_store s) \<and> status \<noteq> Started \<and>
    (\<exists>row. row_at (sy_store s) t k = Some row \<and> lr_request_hash row = h \<and> lr_status row = status \<and> lr_result_ref row = ref) \<and>
    (\<forall>(cx, call, b) \<in> set (sy_running s). (sx_tenant_id cx, call_key cx call) \<noteq> (t, k)) \<and>
    filter (\<lambda>(t', k', b). t' = t \<and> k' = k) (sy_runs s) = runs"

lemma settled_store:
  assumes "settled t k h status ref runs s" and "st_pool (sy_store s')" and "row_at (sy_store s') t k = row_at (sy_store s) t k"
    and "sy_runs s' = sy_runs s" and "set (sy_running s') \<subseteq> set (sy_running s)"
  shows "settled t k h status ref runs s'"
  using assms unfolding settled_def by auto

lemma settled_step:
  assumes "ledger_step py_str preview s s'" and set: "settled t k h status ref runs s"
  shows "settled t k h status ref runs s'"
  using assms(1)
proof cases
  have pool: "st_pool (sy_store s)" using set by (simp add: settled_def)
  {
    case (call_answered now cx call ro res st)
    then show ?thesis
      using enter_call_answered[OF call_answered(2) pool] enter_call_rows[OF call_answered(2) pool]
      by (intro settled_store[OF set]) auto
  next
    case (call_runs now cx call ro st)
    have other: "(sx_tenant_id cx, call_key cx call) \<noteq> (t, k)"
      using set enter_call_runs[OF call_runs(2) pool] by (auto simp: settled_def)
    have "settled t k h status ref runs (s\<lparr>sy_store := st\<rparr>)"
      using enter_call_rows[OF call_runs(2) pool] other by (intro settled_store[OF set]) auto
    with other call_runs(1) show ?thesis by (auto simp: settled_def)
  next
    case (call_left cx call ro now h' items res st)
    have "(sx_tenant_id cx, call_key cx call) \<noteq> (t, k)" using set call_left(2) by (auto simp: settled_def)
    with call_left(1) show ?thesis
      using leave_call_rows[OF call_left(3) pool, of t k] by (intro settled_store[OF set]) (auto simp: set_remove1_subset)
  next
    case (worker_died cx call ro)
    then show ?thesis using pool by (intro settled_store[OF set]) (simp_all add: set_remove1_subset)
  next
    case (worker_died_after_event cx call ro now r res st)
    then have "st = snd (publish_events [finished_event preview now cx call r] (sy_store s))" by (simp add: call_finished_def)
    with pool worker_died_after_event(1) show ?thesis
      by (intro settled_store[OF set]) (simp_all add: ledger_rows set_remove1_subset)
  next
    case (replay_approved t' keys)
    with set pool show ?thesis by (auto simp: settled_def ledger_rows)
  }
qed

lemma settled_reach: "(ledger_step py_str preview)\<^sup>*\<^sup>* s s' \<Longrightarrow> settled t k h status ref runs s \<Longrightarrow> settled t k h status ref runs s'"
  by (induction rule: rtranclp_induct) (auto intro: settled_step)

lemma recorded_outcome:
  "recorded py_str (Some (outcome_of call ro r)) = \<lparr>rs_content = [TextBlock (response_text r)], rs_state = rs_state r\<rparr>"
  by (simp add: recorded_def outcome_of_def get_field_def str_of_def)

text \<open>What every later try of a finished call gets.\<close>

definition replayed :: "ledger_call \<Rightarrow> tool_response \<Rightarrow> tool_response" where
  "replayed call r =
    (if rs_state r = ''success'' then \<lparr>rs_content = [TextBlock (response_text r)], rs_state = ''success''\<rparr>
     else error_response (tc_name call @ '' failed earlier and is not retried''))"

lemma settled_answers:
  assumes "settled (sx_tenant_id cx) (call_key cx call) (request_hash call)
      (if rs_state r = ''success'' then Succeeded else FailedPermanent) (Some (outcome_of call ro r)) runs s"
  shows "fst (enter_call py_str preview now cx call ro' (sy_store s)) = Inr (Some (replayed call r)) \<and>
    st_ledger (snd (enter_call py_str preview now cx call ro' (sy_store s))) = st_ledger (sy_store s)"
proof -
  obtain row where row: "row_at (sy_store s) (sx_tenant_id cx) (call_key cx call) = Some row"
    "lr_request_hash row = request_hash call" "lr_status row = (if rs_state r = ''success'' then Succeeded else FailedPermanent)"
    "lr_result_ref row = Some (outcome_of call ro r)" and pool: "st_pool (sy_store s)"
    using assms by (auto simp: settled_def)
  then show ?thesis
    by (cases "rs_state r = ''success''")
      (simp_all add: enter_call_again[OF pool row(1)] answer_call_eq[OF pool] recorded_outcome replayed_def ledger_rows)
qed

text \<open>
  C12. The outcome of a call stands, where a database is configured. When the one call in flight under its key ends with a response, then at every later moment
  the same request gets that outcome again, the recorded text for a success and a refusal for a failure, without
  changing the ledger; the tool has not been called in between, approved or not.
\<close>

theorem outcome_stands:
  assumes "(ledger_step py_str preview)\<^sup>*\<^sup>* first_sys s"
    and "(cx, call, ro) \<in> set (sy_running s)"
    and "\<forall>(c, l, b) \<in> set (remove1 (cx, call, ro) (sy_running s)). (sx_tenant_id c, call_key c l) \<noteq> (sx_tenant_id cx, call_key cx call)"
    and "hd_end h = HandlerEnded" and "final_response (hd_items h) = Some r"
    and "leave_call preview now cx call ro h (sy_store s) = (items, res, st)"
    and "(ledger_step py_str preview)\<^sup>*\<^sup>* (s\<lparr>sy_store := st, sy_running := remove1 (cx, call, ro) (sy_running s)\<rparr>) s'"
  shows "fst (enter_call py_str preview now' cx call ro' (sy_store s')) = Inr (Some (replayed call r)) \<and>
    st_ledger (snd (enter_call py_str preview now' cx call ro' (sy_store s'))) = st_ledger (sy_store s') \<and>
    filter (\<lambda>(t, k, b). t = sx_tenant_id cx \<and> k = call_key cx call) (sy_runs s') =
    filter (\<lambda>(t, k, b). t = sx_tenant_id cx \<and> k = call_key cx call) (sy_runs s)"
proof -
  let ?runs = "filter (\<lambda>(t, k, b). t = sx_tenant_id cx \<and> k = call_key cx call) (sy_runs s)"
  let ?status = "if rs_state r = ''success'' then Succeeded else FailedPermanent"
  note inv = ledger_inv_reachable[OF assms(1)]
  have "settled (sx_tenant_id cx) (call_key cx call) (request_hash call) ?status (Some (outcome_of call ro r)) ?runs
      (s\<lparr>sy_store := st, sy_running := remove1 (cx, call, ro) (sy_running s)\<rparr>)"
    using ledger_inv_running[OF inv assms(2)] assms(3) leave_call_final[OF assms(6) ledger_inv_pool[OF inv] assms(4,5)]
    by (auto simp: settled_def)
  then have "settled (sx_tenant_id cx) (call_key cx call) (request_hash call) ?status (Some (outcome_of call ro r)) ?runs s'"
    by (rule settled_reach[OF assms(7)])
  then show ?thesis using settled_answers[of cx call r ro ?runs s'] by (simp add: settled_def)
qed

section \<open>What a person is asked\<close>

text \<open>
  C13. A call whose outcome is unknown is refused, the activity that starts next asks a person about it, and once the person
  approves what was asked the same call runs.
\<close>

theorem refused_is_asked_and_approved_runs:
  assumes "st_pool st" and "row_at st (sx_tenant_id cx) (call_key cx call) = Some row"
    and "lr_status row = Started" and "lr_request_hash row = request_hash call" and "lr_owner row \<noteq> Some REPLAY_APPROVED"
    and "\<not> field_true (lr_result_ref row) ''read_only''" and "backslash \<notin> set (sx_attempt_id cx)"
  shows "fst (enter_call py_str preview now cx call False st) =
      Inr (Some (error_response (tc_name call @ '' may already have run; it needs approval to run again''))) \<and>
    call_key cx call \<in> fst ` set (unknown_side_effects (sx_tenant_id cx) (sx_attempt_id cx) st) \<and>
    fst (enter_call py_str preview now cx call False
      (approve_replay (sx_tenant_id cx) (map fst (unknown_side_effects (sx_tenant_id cx) (sx_attempt_id cx) st)) st)) = Inr None"
proof -
  let ?asked = "unknown_side_effects (sx_tenant_id cx) (sx_attempt_id cx) st"
  have row: "row \<in> set (st_ledger st (sx_tenant_id cx))" "lr_scope row = SIDE_EFFECT" "lr_key row = call_key cx call"
    using assms(2) find_row_Some by (fastforce simp: row_at_def)+
  have like: "like_attempt (sx_attempt_id cx) (lr_key row)"
    using like_attempt_key[OF assms(7)] row(3) by (simp add: call_key_def)
  have owner: "(case lr_owner row of None \<Rightarrow> [] | Some w \<Rightarrow> w) \<noteq> REPLAY_APPROVED"
    using assms(5) by (auto simp: REPLAY_APPROVED_def split: option.splits)
  have key: "call_key cx call \<in> fst ` set ?asked"
    using row like owner assms(1,3,6) by (force simp: unknown_side_effects_def image_image image_iff)
  let ?st = "approve_replay (sx_tenant_id cx) (map fst ?asked) st"
  have "row_at ?st (sx_tenant_id cx) (call_key cx call) = Some (row\<lparr>lr_owner := Some REPLAY_APPROVED\<rparr>)" "st_pool ?st"
    using key assms(1,2) by (simp_all add: ledger_rows)
  then have "fst (enter_call py_str preview now cx call False ?st) = Inr None"
    using assms(3,4) by (simp add: enter_call_again)
  moreover have "fst (enter_call py_str preview now cx call False st) =
      Inr (Some (error_response (tc_name call @ '' may already have run; it needs approval to run again'')))"
    using assms by (simp add: enter_call_again answer_call_eq)
  ultimately show ?thesis using key by simp
qed

text \<open>A turn and a call to run the theorems on.\<close>

definition sample_cx :: stream_context where
  "sample_cx = \<lparr>sx_tenant_id = ''t'', sx_task_id = ''task'', sx_attempt_id = ''att_1'', sx_activity_attempt = 1, sx_node_id = ''n'',
    sx_profile = [], sx_task_policy = \<lparr>p_denied_tools = [], p_exploration_max_tool_calls = None, p_max_concurrency = None,
    p_max_review_rounds = None\<rparr>, sx_team = None\<rparr>"

definition sample_call :: ledger_call where
  "sample_call = \<lparr>tc_id = ''c1'', tc_name = ''Bash'', tc_input = ''make deploy''\<rparr>"

definition sample_store :: "string \<Rightarrow> store" where
  "sample_store owner = \<lparr>st_pool = True,
    st_ledger = (\<lambda>_. [])(''t'' := [(started_row sample_cx sample_call False)\<lparr>lr_owner := Some owner\<rparr>]), st_outbox = []\<rparr>"

abbreviation sample_run :: "string \<times> string \<times> bool" where "sample_run \<equiv> (''t'', ''att_1:c1'', False)"

lemma sample_key: "call_key sample_cx sample_call = ''att_1:c1''" "sx_tenant_id sample_cx = ''t''" "sx_attempt_id sample_cx = ''att_1''"
  "sx_attempt_id sample_cx \<noteq> REPLAY_APPROVED" "REPLAY_APPROVED \<noteq> ''att_1''"
  by (simp_all add: call_key_def sample_cx_def sample_call_def REPLAY_APPROVED_def)

lemma sample_row: "row_at (sample_store owner) ''t'' ''att_1:c1'' = Some ((started_row sample_cx sample_call False)\<lparr>lr_owner := Some owner\<rparr>)"
  by (simp add: row_at_def sample_store_def find_row_def started_row_def sample_key)

lemma sample_first: "enter_call py_str preview now sample_cx sample_call False (sy_store first_sys) = (Inr None, sample_store ''att_1'')"
  by (simp add: first_sys_def enter_call_fresh row_at_def find_row_def sample_key sample_store_def started_row_def)

definition sample_sys :: "ledger_sys" where
  "sample_sys = \<lparr>sy_store = sample_store ''att_1'', sy_running = [(sample_cx, sample_call, False)], sy_runs = [sample_run], sy_approved = []\<rparr>"

lemma sample_started: "ledger_step py_str preview first_sys sample_sys"
  using call_runs[OF sample_first[of py_str preview "[]"] sample_key(4)]
  by (simp add: first_sys_def sample_sys_def sample_key)

theorem tool_runs_once_witness: "count_list (sy_runs sample_sys) sample_run \<le> 1"
proof -
  have "(ledger_step (\<lambda>_. []) id)\<^sup>*\<^sup>* first_sys sample_sys" using sample_started by (rule r_into_rtranclp)
  from tool_runs_once[OF this, of "''t''" "''att_1:c1''"] show ?thesis by (simp add: sample_sys_def)
qed

theorem outcome_stands_witness:
  "fst (enter_call (\<lambda>_. []) id [] sample_cx sample_call False
     (snd (snd (leave_call id [] sample_cx sample_call False
       \<lparr>hd_items = [ToolResponse \<lparr>rs_content = [TextBlock ''done''], rs_state = ''success''\<rparr>], hd_end = HandlerEnded\<rparr> (sample_store ''att_1''))))) =
   Inr (Some \<lparr>rs_content = [TextBlock ''done''], rs_state = ''success''\<rparr>)"
proof -
  let ?r = "\<lparr>rs_content = [TextBlock ''done''], rs_state = ''success''\<rparr>"
  let ?h = "\<lparr>hd_items = [ToolResponse ?r], hd_end = HandlerEnded\<rparr>"
  obtain items res st where leave: "leave_call id [] sample_cx sample_call False ?h (sy_store sample_sys) = (items, res, st)"
    by (cases "leave_call id [] sample_cx sample_call False ?h (sy_store sample_sys)") auto
  have "fst (enter_call (\<lambda>_. []) id [] sample_cx sample_call False
      (sy_store (sample_sys\<lparr>sy_store := st, sy_running := remove1 (sample_cx, sample_call, False) (sy_running sample_sys)\<rparr>))) =
      Inr (Some (replayed sample_call ?r))"
    using outcome_stands[OF r_into_rtranclp[of "ledger_step (\<lambda>_. []) id", OF sample_started] _ _ _ _ leave rtranclp.rtrancl_refl, of ?r]
    by (simp add: sample_sys_def final_response_def)
  with leave show ?thesis by (simp add: sample_sys_def replayed_def response_text_def)
qed

theorem refused_is_asked_and_approved_runs_witness:
  "''att_1:c1'' \<in> fst ` set (unknown_side_effects ''t'' ''att_1'' (sample_store ''att_1''))"
proof -
  let ?row = "(started_row sample_cx sample_call False)\<lparr>lr_owner := Some ''att_1''\<rparr>"
  have row: "row_at (sample_store ''att_1'') (sx_tenant_id sample_cx) (call_key sample_cx sample_call) = Some ?row"
    by (simp add: sample_key sample_row)
  have facts: "st_pool (sample_store ''att_1'')" "lr_status ?row = Started" "lr_request_hash ?row = request_hash sample_call"
    "lr_owner ?row \<noteq> Some REPLAY_APPROVED" "\<not> field_true (lr_result_ref ?row) ''read_only''" "backslash \<notin> set (sx_attempt_id sample_cx)"
    by (simp_all add: sample_store_def started_row_def sample_key sample_key(5)[symmetric] get_field_def)
  have "call_key sample_cx sample_call \<in>
      fst ` set (unknown_side_effects (sx_tenant_id sample_cx) (sx_attempt_id sample_cx) (sample_store ''att_1''))"
    using refused_is_asked_and_approved_runs[OF facts(1) row facts(2-)] by blast
  then show ?thesis by (simp only: sample_key)
qed

section \<open>What the ledger does not promise\<close>

lemma approved_again:
  assumes "(ledger_step py_str preview)\<^sup>*\<^sup>* first_sys
      \<lparr>sy_store = sample_store REPLAY_APPROVED, sy_running = [], sy_runs = runs, sy_approved = [(''t'', ''att_1:c1'')]\<rparr>"
  shows "(ledger_step py_str preview)\<^sup>*\<^sup>* first_sys
      \<lparr>sy_store = sample_store REPLAY_APPROVED, sy_running = [], sy_runs = runs @ [sample_run], sy_approved = [(''t'', ''att_1:c1'')]\<rparr>"
proof -
  let ?s = "\<lparr>sy_store = sample_store REPLAY_APPROVED, sy_running = [], sy_runs = runs, sy_approved = [(''t'', ''att_1:c1'')]\<rparr>"
  have "enter_call py_str preview [] sample_cx sample_call False (sy_store ?s) = (Inr None, sample_store REPLAY_APPROVED)"
    using enter_call_again[of "sample_store REPLAY_APPROVED" sample_cx sample_call _ py_str preview "[]" False]
    by (simp add: sample_key sample_row) (simp add: sample_store_def started_row_def)
  from call_runs[OF this sample_key(4)]
  have "ledger_step py_str preview ?s (?s\<lparr>sy_running := [(sample_cx, sample_call, False)], sy_runs := runs @ [sample_run]\<rparr>)"
    by (simp add: sample_key)
  moreover have "ledger_step py_str preview (?s\<lparr>sy_running := [(sample_cx, sample_call, False)], sy_runs := runs @ [sample_run]\<rparr>)
      (?s\<lparr>sy_runs := runs @ [sample_run]\<rparr>)"
    using worker_died[of py_str preview "?s\<lparr>sy_running := [(sample_cx, sample_call, False)], sy_runs := runs @ [sample_run]\<rparr>"
      sample_cx sample_call False] by simp
  ultimately show ?thesis using assms by (auto elim!: rtranclp.rtrancl_into_rtrancl)
qed

text \<open>
  The approval to run a call again is never used up: it is the owner of the row, which nothing takes back. After one approval
  of a call with a side effect it can run any number of times, each time a worker dies in it, and no person is asked.
\<close>

theorem one_approval_many_runs:
  "\<exists>s. (ledger_step py_str preview)\<^sup>*\<^sup>* first_sys s \<and> sy_approved s = [(''t'', ''att_1:c1'')] \<and>
     count_list (sy_runs s) sample_run = Suc n \<and> unknown_side_effects ''t'' ''att_1'' (sy_store s) = []"
proof -
  let ?s = "\<lambda>n. \<lparr>sy_store = sample_store REPLAY_APPROVED, sy_running = [], sy_runs = replicate (Suc n) sample_run,
    sy_approved = [(''t'', ''att_1:c1'')]\<rparr>"
  have died: "ledger_step py_str preview sample_sys (sample_sys\<lparr>sy_running := []\<rparr>)"
    using worker_died[of py_str preview sample_sys sample_cx sample_call False] by (simp add: sample_sys_def)
  have approved: "ledger_step py_str preview (sample_sys\<lparr>sy_running := []\<rparr>) (?s 0)"
    using replay_approved[of py_str preview "sample_sys\<lparr>sy_running := []\<rparr>" "''t''" "[''att_1:c1'']"]
    by (simp add: sample_sys_def sample_store_def approve_replay_def started_row_def sample_key)
  have "(ledger_step py_str preview)\<^sup>*\<^sup>* first_sys (?s n)"
  proof (induction n)
    case 0
    show ?case using sample_started died approved by (meson converse_rtranclp_into_rtranclp r_into_rtranclp)
  next
    case (Suc n)
    from approved_again[OF Suc] show ?case by (simp add: replicate_append_same)
  qed
  moreover have "count_list (replicate m sample_run) sample_run = m" for m by (induction m) simp_all
  moreover have "unknown_side_effects ''t'' ''att_1'' (sample_store REPLAY_APPROVED) = []"
    by (simp add: unknown_side_effects_def sample_store_def)
  ultimately show ?thesis by (intro exI[of _ "?s n"]) simp
qed

text \<open>
  The list an agent is given when it takes over looks at the newest \<open>4 * limit\<close> calls only: when those were all reads, what was
  done before them is left out, though nothing else is on the list.
\<close>

theorem takeover_forgets:
  assumes "st_ledger st t = old @ reads" and "length reads \<ge> limit * 4"
    and "\<And>r. r \<in> set reads \<Longrightarrow> only_read r \<and> lr_scope r = SIDE_EFFECT \<and> lr_status r = Succeeded \<and> (\<exists>a\<in>set as. like_attempt a (lr_key r))"
  shows "succeeded_side_effects py_str t as limit st = []"
proof -
  let ?P = "\<lambda>r. lr_scope r = SIDE_EFFECT \<and> lr_status r = Succeeded \<and> (\<exists>a\<in>set as. like_attempt a (lr_key r))"
  have "filter ?P reads = reads" using assms(3) by (simp add: filter_id_conv)
  then have "take (limit * 4) (rev (filter ?P (st_ledger st t))) = take (limit * 4) (rev reads)"
    using assms(1,2) by simp
  moreover have "filter (\<lambda>r. \<not> only_read r) (take (limit * 4) (rev reads)) = []"
    using assms(3) by (auto simp: filter_empty_conv dest: in_set_takeD)
  ultimately show ?thesis by (simp add: succeeded_side_effects_def)
qed

section \<open>The exploration budget\<close>

definition view_of :: "(json \<Rightarrow> string) \<Rightarrow> policy \<Rightarrow> stream_context \<Rightarrow> store \<Rightarrow> policy_view" where
  "view_of json_text effective cx st =
    \<lparr>pv_effective = effective, pv_side_effects = count_side_effects json_text (sx_tenant_id cx) (sx_attempt_id cx) st,
     pv_extensions = granted_extensions json_text (sx_tenant_id cx) (sx_attempt_id cx) st\<rparr>"

lemma count_side_effects_enter:
  assumes "st_pool st"
  shows "count_side_effects jt t a (snd (enter_call py_str preview now cx call ro st)) \<le> Suc (count_side_effects jt t a st)"
proof (cases "row_at st (sx_tenant_id cx) (call_key cx call)")
  case None
  with assms show ?thesis by (simp add: enter_call_fresh count_side_effects_def)
next
  case (Some row)
  then have "st_ledger (snd (enter_call py_str preview now cx call ro st)) = st_ledger st"
    "st_pool (snd (enter_call py_str preview now cx call ro st)) = st_pool st"
    using assms by (auto simp: enter_call_again answer_call_eq ledger_rows split: ledger_status.splits)
  then show ?thesis by (simp add: count_side_effects_def)
qed

text \<open>
  The exploration node keeps to its budget of tool calls: after a call the policy let through, other than one of the four
  that move the task on, the ledger counts at most the cap of the effective policy (or the default of 50) and ten
  more for each extension a person granted.
\<close>

theorem exploration_within_budget:
  assumes "st_pool st" and "is_exploration cx" and "tc_name call \<notin> set AFTER_EXHAUSTION"
    and "de_behavior (fst (policy_check now view (view_of json_text effective cx st) (Some cx) (tool_call.truncate call) decision log)) \<noteq> DENY"
  shows "count_side_effects json_text (sx_tenant_id cx) (sx_attempt_id cx) (snd (enter_call py_str preview now cx call ro st))
    \<le> (case p_exploration_max_tool_calls effective of Some n \<Rightarrow> n | None \<Rightarrow> 50) +
      10 * granted_extensions json_text (sx_tenant_id cx) (sx_attempt_id cx) st"
proof -
  have "tc_name (tool_call.truncate call) = tc_name call" by (simp add: tool_call.truncate_def)
  then have "\<not> exploration_exhausted (view_of json_text effective cx st) cx"
    using policy_check_passes[OF assms(4)] assms(3) by auto
  then have "count_side_effects json_text (sx_tenant_id cx) (sx_attempt_id cx) st < exploration_allowed (view_of json_text effective cx st)"
    using assms(2) by (simp add: exploration_exhausted_def view_of_def)
  with count_side_effects_enter[OF assms(1), of json_text "sx_tenant_id cx" "sx_attempt_id cx" py_str preview now cx call ro]
  show ?thesis
    by (cases "p_exploration_max_tool_calls effective")
      (simp_all add: exploration_allowed_def view_of_def DEFAULT_EXPLORATION_TOOL_CALLS_def EXTENSION_TOOL_CALLS_def mult.commute)
qed

definition exploring_cx :: stream_context where
  "exploring_cx = sample_cx\<lparr>sx_node_id := deterministic_id ''task:exploration'' ''n''\<rparr>"

theorem exploration_within_budget_witness:
  "count_side_effects (\<lambda>_. []) ''t'' ''att_1'' (snd (enter_call (\<lambda>_. []) id [] exploring_cx sample_call False (sy_store first_sys))) \<le> 50"
proof -
  let ?allow = "\<lparr>de_behavior = ALLOW, de_message = Notice [], de_reason = None, de_bypass_immune = False\<rparr>"
  let ?log = "\<lparr>pl_events = [], pl_checkpoints = [], pl_checkpointed = []\<rparr>"
  have cx: "is_exploration exploring_cx" "sx_tenant_id exploring_cx = ''t''" "sx_attempt_id exploring_cx = ''att_1''"
    by (simp_all add: exploring_cx_def sample_cx_def is_exploration_def)
  have pool: "st_pool (sy_store first_sys)" by (simp add: first_sys_def)
  have none: "granted_extensions (\<lambda>_. []) ''t'' ''att_1'' (sy_store first_sys) = 0" "count_side_effects (\<lambda>_. []) ''t'' ''att_1'' (sy_store first_sys) = 0"
    by (simp_all add: granted_extensions_def count_side_effects_def first_sys_def)
  have "de_behavior (fst (policy_check [] (view_of (\<lambda>_. []) (sx_task_policy sample_cx) exploring_cx (sy_store first_sys))
      (view_of (\<lambda>_. []) (sx_task_policy sample_cx) exploring_cx (sy_store first_sys)) (Some exploring_cx)
      (tool_call.truncate sample_call) ?allow ?log)) \<noteq> DENY"
    by (simp add: policy_check_def view_of_def none cx exploration_exhausted_def exploration_allowed_def DEFAULT_EXPLORATION_TOOL_CALLS_def
        sample_cx_def tool_call.truncate_def)
  from exploration_within_budget[OF pool cx(1) _ this, of "\<lambda>_. []" id False] show ?thesis
    by (simp add: cx none sample_cx_def sample_call_def AFTER_EXHAUSTION_def)
qed

end
