(* ===== verification/Budget_Meter.thy ===== *)
theory Budget_Meter
  imports Contracts
begin

text \<open>
  The budget an attempt may spend, where the agent works: \<open>budget_middleware.py\<close>. The meter of one activity counts
  tokens, cost, tool calls and wall time against the limits the parent reserved; the middleware counts a tool call
  before it runs, refuses the one that would go past a limit, and ends the turn before the next model call. The clock
  is an argument, in nanoseconds; the cost of a call is the exact ceiling of the product, which is what the source's
  float quotient has while the product is below \<open>2 ^ 50\<close>. The heartbeat that follows every change is the list of
  snapshots.
\<close>

section \<open>The meter\<close>

definition NANOS :: int where "NANOS = 1000000000"

record model_price =
  mp_input_per_mtok :: nat
  mp_output_per_mtok :: nat



definition model_price_of :: "nat option \<Rightarrow> nat option \<Rightarrow> model_price option" where
  "model_price_of inp out =
    (case (inp, out) of (Some i, Some j) \<Rightarrow> Some \<lparr>mp_input_per_mtok = i, mp_output_per_mtok = j\<rparr> | _ \<Rightarrow> None)"

record meter_snapshot =
  ms_tokens_in :: nat
  ms_tokens_out :: nat
  ms_tool_calls :: nat
  ms_wall_s :: nat
  ms_cost_usd_micros :: "nat option"
  ms_refused :: "budget_field option"

record budget_meter =
  bm_limit :: budget
  bm_price :: "model_price option"
  bm_started :: int
  bm_tokens_in :: nat
  bm_tokens_out :: nat
  bm_tool_calls :: nat
  bm_cost_usd_micros :: "nat option"
  bm_refused :: "budget_field option"
  bm_beats :: "meter_snapshot list"

definition set_price :: "model_price option \<Rightarrow> budget_meter \<Rightarrow> budget_meter" where
  "set_price price m =
    m\<lparr>bm_price := price,
      bm_cost_usd_micros := (case price of None \<Rightarrow> None | Some _ \<Rightarrow>
        Some (case bm_cost_usd_micros m of None \<Rightarrow> 0 | Some c \<Rightarrow> c))\<rparr>"

text \<open>\<open>BudgetMeter(limit, price)\<close> with \<open>__post_init__\<close>.\<close>

definition new_meter :: "budget \<Rightarrow> model_price option \<Rightarrow> int \<Rightarrow> budget_meter" where
  "new_meter limit price now =
    set_price price \<lparr>bm_limit = limit, bm_price = price, bm_started = now, bm_tokens_in = 0, bm_tokens_out = 0,
      bm_tool_calls = 0, bm_cost_usd_micros = None, bm_refused = None, bm_beats = []\<rparr>"

definition meter_wall_s :: "int \<Rightarrow> budget_meter \<Rightarrow> nat" where
  "meter_wall_s now m = nat (- ((bm_started m - now) div NANOS))"

definition snapshot :: "int \<Rightarrow> budget_meter \<Rightarrow> meter_snapshot" where
  "snapshot now m = \<lparr>ms_tokens_in = bm_tokens_in m, ms_tokens_out = bm_tokens_out m, ms_tool_calls = bm_tool_calls m,
     ms_wall_s = meter_wall_s now m, ms_cost_usd_micros = bm_cost_usd_micros m, ms_refused = bm_refused m\<rparr>"

definition restore_meter :: "int \<Rightarrow> meter_snapshot \<Rightarrow> budget_meter \<Rightarrow> budget_meter" where
  "restore_meter now saved m =
    m\<lparr>bm_tokens_in := ms_tokens_in saved, bm_tokens_out := ms_tokens_out saved, bm_tool_calls := ms_tool_calls saved,
      bm_refused := ms_refused saved, bm_cost_usd_micros := ms_cost_usd_micros saved,
      bm_started := now - int (ms_wall_s saved) * NANOS\<rparr>"

definition changed :: "int \<Rightarrow> budget_meter \<Rightarrow> budget_meter" where
  "changed now m = m\<lparr>bm_beats := bm_beats m @ [snapshot now m]\<rparr>"


definition meter_usage :: "int \<Rightarrow> budget_meter \<Rightarrow> usage" where
  "meter_usage now m = \<lparr>u_tokens_in = bm_tokens_in m, u_tokens_out = bm_tokens_out m, u_tool_calls = bm_tool_calls m,
     u_wall_s = meter_wall_s now m, u_cost_usd_micros = bm_cost_usd_micros m\<rparr>"

primrec used :: "int \<Rightarrow> budget_meter \<Rightarrow> budget_field \<Rightarrow> nat" where
  "used now m Tokens = bm_tokens_in m + bm_tokens_out m"
| "used now m WallS = meter_wall_s now m"
| "used now m CostUsdMicros = (case bm_cost_usd_micros m of None \<Rightarrow> 0 | Some c \<Rightarrow> c)"
| "used now m ToolCalls = bm_tool_calls m"

definition reached :: "int \<Rightarrow> budget_meter \<Rightarrow> budget_field \<Rightarrow> (budget_field \<times> nat \<times> nat) option" where
  "reached now m f =
    (if f = CostUsdMicros \<and> bm_price m = None then None
     else case bget (bm_limit m) f of
       Some limit \<Rightarrow> if used now m f \<ge> limit then Some (f, used now m f, limit) else None
     | None \<Rightarrow> None)"

fun first_reached :: "int \<Rightarrow> budget_meter \<Rightarrow> budget_field list \<Rightarrow> (budget_field \<times> nat \<times> nat) option" where
  "first_reached now m [] = None"
| "first_reached now m (f # fs) = (case reached now m f of None \<Rightarrow> first_reached now m fs | Some r \<Rightarrow> Some r)"

definition meter_spent :: "int \<Rightarrow> bool \<Rightarrow> budget_meter \<Rightarrow> (budget_field \<times> nat \<times> nat) option" where
  "meter_spent now tools m = first_reached now m ([Tokens, CostUsdMicros, WallS] @ (if tools then [ToolCalls] else []))"

section \<open>The middleware\<close>

datatype budget_raise = BudgetExceeded budget_field nat nat | AttributeErrorB

text \<open>
  \<open>on_reasoning\<close> before the model is called. The last raise reads \<open>meter._used\<close>, a name the class does not have: the
  exception is then an \<open>AttributeError\<close>.
\<close>

definition on_reasoning :: "int \<Rightarrow> budget_meter option \<Rightarrow> budget_raise + unit" where
  "on_reasoning now mo =
    (case mo of
       None \<Rightarrow> Inr ()
     | Some m \<Rightarrow>
         (case meter_spent now (bm_refused m \<noteq> None) m of
            Some (f, u, limit) \<Rightarrow> Inl (BudgetExceeded f u limit)
          | None \<Rightarrow> if bm_refused m \<noteq> None then Inl AttributeErrorB else Inr ()))"


section \<open>The life of a meter\<close>














lemma beats_use [simp]: "used now (m\<lparr>bm_beats := bs\<rparr>) f = used now m f"
  by (cases f) (simp_all add: meter_wall_s_def)





lemma changed_simps [simp]:
  "bm_limit (changed now m) = bm_limit m" "bm_price (changed now m) = bm_price m" "bm_tool_calls (changed now m) = bm_tool_calls m"
  "bm_refused (changed now m) = bm_refused m" "used now' (changed now m) f = used now' m f"
  by (simp_all add: changed_def)








definition one_call_budget :: budget where
  "one_call_budget = no_budget\<lparr>b_tool_calls := Some 1\<rparr>"


section \<open>Carrying on after a crash\<close>

text \<open>
  A retried activity carries on from the last heartbeat: a new meter with the same limits and price, restored from
  a snapshot at any later time of another clock, has spent at that moment exactly what the first had spent at the
  moment of the snapshot, so it reports the same usage and reaches the same limits.
\<close>

theorem restore_snapshot:
  assumes "bm_price m = price" and "bm_limit m = limit"
    and "bm_cost_usd_micros m = None \<longleftrightarrow> price = None"
  shows "meter_usage now' (set_price price (restore_meter now' (snapshot now m) (new_meter limit None now0))) = meter_usage now m \<and>
    meter_spent now' tools (set_price price (restore_meter now' (snapshot now m) (new_meter limit None now0))) =
      meter_spent now tools m"
proof -
  let ?r = "set_price price (restore_meter now' (snapshot now m) (new_meter limit None now0))"
  have wall: "meter_wall_s now' ?r = meter_wall_s now m"
    by (simp add: meter_wall_s_def[of now'] set_price_def restore_meter_def snapshot_def new_meter_def NANOS_def)
  have cost: "bm_cost_usd_micros ?r = bm_cost_usd_micros m"
    using assms(3) by (auto simp: set_price_def restore_meter_def snapshot_def new_meter_def split: option.splits)
  have rest: "bm_tokens_in ?r = bm_tokens_in m" "bm_tokens_out ?r = bm_tokens_out m" "bm_tool_calls ?r = bm_tool_calls m"
    "bm_price ?r = bm_price m" "bm_limit ?r = bm_limit m"
    using assms(1,2) by (simp_all add: set_price_def restore_meter_def snapshot_def new_meter_def)
  have used: "used now' ?r f = used now m f" for f using wall cost rest by (cases f) simp_all
  have "reached now' ?r f = reached now m f" for f unfolding reached_def used rest by (rule refl)
  then have "first_reached now' ?r fs = first_reached now m fs" for fs
    by (induction fs) (simp_all split: option.split)
  then have "meter_spent now' tools ?r = meter_spent now tools m" by (simp only: meter_spent_def)
  then show ?thesis using wall cost rest by (simp add: meter_usage_def)
qed

theorem restore_snapshot_witness:
  "meter_usage 99 (set_price None (restore_meter 99 (snapshot 5 (new_meter one_call_budget None 0))
     (new_meter one_call_budget None 42))) = meter_usage 5 (new_meter one_call_budget None 0)"
proof -
  have "bm_price (new_meter one_call_budget None 0) = None" "bm_limit (new_meter one_call_budget None 0) = one_call_budget"
    "bm_cost_usd_micros (new_meter one_call_budget None 0) = None \<longleftrightarrow> None = (None :: model_price option)"
    by (simp_all add: new_meter_def set_price_def)
  from restore_snapshot[OF this, where now = 5 and now' = 99] show ?thesis by simp
qed

text \<open>
  A retry that finds the model without a price is another matter: the cost it was refused for is no longer enforced,
  so \<open>spent\<close> finds nothing, and the raise that names the refused limit fails on the missing \<open>_used\<close>.
\<close>

theorem refused_without_price:
  "on_reasoning 0 (Some (set_price None (restore_meter 0
     \<lparr>ms_tokens_in = 10, ms_tokens_out = 5, ms_tool_calls = 1, ms_wall_s = 3, ms_cost_usd_micros = Some 9,
      ms_refused = Some CostUsdMicros\<rparr> (new_meter (no_budget\<lparr>b_cost_usd_micros := Some 8\<rparr>) None 0)))) = Inl AttributeErrorB"
  by (simp add: on_reasoning_def meter_spent_def reached_def set_price_def restore_meter_def new_meter_def no_budget_def)

end
