(* ===== verification/Workspace_Merge.thy ===== *)
theory Workspace_Merge
  imports Shell_Paths
begin

text \<open>
  Workspaces as archives: which paths are left out of them (\<open>workspace_paths.py\<close>) and how an attempt's changes go onto the
  head of its task (\<open>workspace_merge.py\<close>). An archive is the list of its members, which is what
  \<open>tarfile\<close> reads from the bytes and writes to them; no archive and an empty one have no members. The size of a member is
  the length of its data. The type of a member is the character of its header.
\<close>

section \<open>Regenerable paths\<close>

definition REGENERABLE_DIRS :: "string list" where
  "REGENERABLE_DIRS =
    [''node_modules'', ''.venv'', ''venv'', ''__pycache__'', ''.git'', ''.cache'', ''.pytest_cache'', ''.mypy_cache'',
     ''.ruff_cache'', ''dist'', ''build'', ''.next'', ''.turbo'', ''coverage'', ''site-packages'',
     ''node-compile-cache'', ''.npm'', ''.pnpm-store'', ''.vite'']"

definition REGENERABLE_FILES :: "string list" where
  "REGENERABLE_FILES = [''package-lock.json'', ''pnpm-lock.yaml'', ''yarn.lock'', ''uv.lock'', ''poetry.lock'']"

definition is_regenerable_name :: "string \<Rightarrow> bool \<Rightarrow> bool" where
  "is_regenerable_name name is_dir \<longleftrightarrow>
    (if is_dir then name \<in> set REGENERABLE_DIRS
     else name \<in> set REGENERABLE_DIRS \<or> name \<in> set REGENERABLE_FILES \<or> endswith name ''.pyc'')"

definition regenerable_parts :: "string list \<Rightarrow> bool" where
  "regenerable_parts parts \<longleftrightarrow>
    (\<exists>p\<in>set (butlast parts). p \<in> set REGENERABLE_DIRS) \<or> (parts \<noteq> [] \<and> is_regenerable_name (last parts) False)"

definition is_regenerable :: "string \<Rightarrow> bool" where
  "is_regenerable path \<longleftrightarrow> regenerable_parts (filter (\<lambda>p. p \<noteq> []) (split_on (CHR ''/'') path))"

section \<open>Archives\<close>

record tar_member =
  tm_name :: string
  tm_type :: char
  tm_mode :: nat
  tm_linkname :: string
  tm_data :: string

definition isreg :: "tar_member \<Rightarrow> bool" where
  "isreg m \<longleftrightarrow> tm_type m \<in> {CHR ''0'', char_of (0 :: nat), CHR ''7'', CHR ''S''}"

definition is_link :: "tar_member \<Rightarrow> bool" where
  "is_link m \<longleftrightarrow> tm_type m \<in> {CHR ''1'', CHR ''2''}"

text \<open>\<open>mode & 0o111\<close>, the three permissions to execute.\<close>

definition exec_bits :: "nat \<Rightarrow> bool \<times> bool \<times> bool" where
  "exec_bits mode = (odd (mode div 64), odd (mode div 8), odd mode)"

definition same_as :: "tar_member \<Rightarrow> tar_member \<Rightarrow> bool" where
  "same_as a b \<longleftrightarrow>
    (if tm_type a \<noteq> tm_type b then False
     else if isreg a then tm_data a = tm_data b \<and> exec_bits (tm_mode a) = exec_bits (tm_mode b)
     else if is_link a then tm_linkname a = tm_linkname b
     else True)"

definition removeprefix :: "string \<Rightarrow> string \<Rightarrow> string" where
  "removeprefix s p = (if startswith s p then drop (length p) s else s)"

definition entry_name :: "string \<Rightarrow> string" where
  "entry_name name = rstrip_slashes (removeprefix name ''./'')"

definition read_member :: "(string, tar_member) dict \<Rightarrow> tar_member \<Rightarrow> (string, tar_member) dict" where
  "read_member entries m =
    (let name = entry_name (tm_name m)
     in if name = [] \<or> name = ''.'' then entries else dset name (m\<lparr>tm_data := if isreg m then tm_data m else []\<rparr>) entries)"

definition read_archive :: "tar_member list \<Rightarrow> (string, tar_member) dict" where
  "read_archive archive = foldl read_member [] archive"

definition apply_changes ::
  "(string, tar_member) dict \<Rightarrow> (string, tar_member) dict \<Rightarrow> (string, tar_member) dict \<Rightarrow> (string, tar_member) dict" where
  "apply_changes earlier now latest =
    foldl (\<lambda>merged name. if has_key now name then merged else dpop name merged)
      (foldl (\<lambda>merged (name, entry).
          case dget earlier name of
            None \<Rightarrow> dset name entry merged
          | Some old \<Rightarrow> if same_as entry old then merged else dset name entry merged) latest now)
      (dkeys earlier)"

definition unchanged :: "(string, tar_member) dict \<Rightarrow> (string, tar_member) dict \<Rightarrow> bool" where
  "unchanged merged latest \<longleftrightarrow>
    (\<forall>name\<in>set (dkeys merged). has_key latest name) \<and> (\<forall>name\<in>set (dkeys latest). has_key merged name) \<and>
    (\<forall>(name, entry)\<in>set merged. case dget latest name of Some old \<Rightarrow> entry = old \<or> same_as entry old | None \<Rightarrow> False)"

definition write_archive :: "(string, tar_member) dict \<Rightarrow> tar_member list" where
  "write_archive merged =
    map (\<lambda>name. (the (dget merged name))\<lparr>tm_name := name\<rparr>) (sort (dkeys merged))"

definition merge_archives :: "tar_member list \<Rightarrow> tar_member list \<Rightarrow> tar_member list \<Rightarrow> tar_member list option" where
  "merge_archives base mine head =
    (let latest = read_archive head;
         merged = apply_changes (read_archive base) (read_archive mine) latest
     in if unchanged merged latest then None else Some (write_archive merged))"

section \<open>The merge, name by name\<close>

lemma same_as_refl [simp]: "same_as a a"
  by (simp add: same_as_def)

lemma same_as_sym: "same_as a b \<Longrightarrow> same_as b a"
  by (auto simp: same_as_def isreg_def is_link_def split: if_splits)

lemma same_as_trans: "same_as a b \<Longrightarrow> same_as b c \<Longrightarrow> same_as a c"
  by (auto simp: same_as_def isreg_def is_link_def split: if_splits)

lemma same_as_name [simp]: "same_as (a\<lparr>tm_name := n\<rparr>) b = same_as a b" "same_as a (b\<lparr>tm_name := n\<rparr>) = same_as a b"
  by (simp_all add: same_as_def isreg_def is_link_def)

text \<open>Whether the attempt added or changed a name, and what it removed.\<close>

definition put_in :: "(string, tar_member) dict \<Rightarrow> (string, tar_member) dict \<Rightarrow> string \<Rightarrow> bool" where
  "put_in earlier now name \<longleftrightarrow>
    (case dget now name of
       None \<Rightarrow> False
     | Some entry \<Rightarrow> (case dget earlier name of None \<Rightarrow> True | Some old \<Rightarrow> \<not> same_as entry old))"

definition taken_out :: "(string, tar_member) dict \<Rightarrow> (string, tar_member) dict \<Rightarrow> string \<Rightarrow> bool" where
  "taken_out earlier now name \<longleftrightarrow> has_key earlier name \<and> \<not> has_key now name"

definition three_way ::
  "(string, tar_member) dict \<Rightarrow> (string, tar_member) dict \<Rightarrow> (string, tar_member) dict \<Rightarrow> string \<Rightarrow> tar_member option" where
  "three_way earlier now latest name =
    (if put_in earlier now name then dget now name else if taken_out earlier now name then None else dget latest name)"

lemma foldl_keeps: "P d \<Longrightarrow> (\<And>d x. P d \<Longrightarrow> P (f d x)) \<Longrightarrow> P (foldl f d xs)"
  by (induction xs arbitrary: d) simp_all

lemma dict_ok_read: "dict_ok (read_archive archive)"
  unfolding read_archive_def by (rule foldl_keeps[where P = dict_ok]) (simp_all add: read_member_def Let_def)

lemma dget_puts:
  assumes "dict_ok now"
  shows "dget (foldl (\<lambda>merged (name, entry).
      case dget earlier name of
        None \<Rightarrow> dset name entry merged
      | Some old \<Rightarrow> if same_as entry old then merged else dset name entry merged) latest now) name =
    (if put_in earlier now name then dget now name else dget latest name)"
  using assms
proof (induction now arbitrary: latest)
  case (Cons x now)
  obtain n e where x: "x = (n, e)" by (cases x)
  show ?case
  proof (cases "name = n")
    case True
    then have "dget now name = None" using Cons.prems x by (auto simp: map_of_eq_None_iff)
    then have "\<not> put_in earlier now name" by (simp add: put_in_def)
    with True Cons.IH Cons.prems x show ?thesis by (auto simp: put_in_def dict_simps split: option.splits)
  next
    case False
    with Cons.IH Cons.prems x show ?thesis by (auto simp: put_in_def dict_simps split: option.splits)
  qed
qed (simp add: put_in_def)

lemma dget_pops:
  "dget (foldl (\<lambda>merged name. if has_key now name then merged else dpop name merged) d names) name =
    (if name \<in> set names \<and> \<not> has_key now name then None else dget d name)"
  by (induction names arbitrary: d) (auto simp: dict_simps)

lemma dget_apply_changes:
  assumes "dict_ok now"
  shows "dget (apply_changes earlier now latest) name = three_way earlier now latest name"
proof -
  have "put_in earlier now name \<Longrightarrow> has_key now name"
    by (auto simp: put_in_def has_key_dget split: option.splits)
  then show ?thesis
    unfolding apply_changes_def dget_pops dget_puts[OF assms] three_way_def taken_out_def by auto
qed

lemma dict_ok_apply_changes: "dict_ok latest \<Longrightarrow> dict_ok (apply_changes earlier now latest)"
  unfolding apply_changes_def
  by (intro foldl_keeps[where P = dict_ok]) (auto simp: case_prod_beta split: option.splits)

lemma unchanged_iff:
  assumes "dict_ok merged"
  shows "unchanged merged latest \<longleftrightarrow> (\<forall>name. rel_option same_as (dget merged name) (dget latest name))"
proof
  assume u: "unchanged merged latest"
  show "\<forall>name. rel_option same_as (dget merged name) (dget latest name)"
  proof
    fix name
    show "rel_option same_as (dget merged name) (dget latest name)"
    proof (cases "dget merged name")
      case None
      then have "\<not> has_key merged name" by (simp add: has_key_dget)
      then have "\<not> has_key latest name" using u unfolding unchanged_def by auto
      with None show ?thesis by (simp add: has_key_dget)
    next
      case (Some e)
      then have "(name, e) \<in> set merged" by (rule map_of_SomeD)
      then have "case dget latest name of Some old \<Rightarrow> e = old \<or> same_as e old | None \<Rightarrow> False"
        using u unfolding unchanged_def by auto
      with Some show ?thesis by (auto split: option.splits)
    qed
  qed
next
  assume r: "\<forall>name. rel_option same_as (dget merged name) (dget latest name)"
  have "case dget latest n of Some old \<Rightarrow> e = old \<or> same_as e old | None \<Rightarrow> False" if "(n, e) \<in> set merged" for n e
    using r[rule_format, of n] that assms by (auto elim: option.rel_cases)
  moreover have "has_key merged n \<longleftrightarrow> has_key latest n" for n
    using r[rule_format, of n] unfolding has_key_dget by (auto elim: option.rel_cases)
  ultimately show "unchanged merged latest" unfolding unchanged_def by (auto simp: image_iff)
qed

text \<open>The member of an archive with a name.\<close>

definition member_named :: "tar_member list \<Rightarrow> string \<Rightarrow> tar_member option" where
  "member_named archive name = dget (map (\<lambda>m. (tm_name m, m)) archive) name"

lemma member_named_write:
  assumes "dict_ok d"
  shows "member_named (write_archive d) name = map_option (\<lambda>m. m\<lparr>tm_name := name\<rparr>) (dget d name)"
proof -
  have "map (\<lambda>m. (tm_name m, m)) (write_archive d) = map (\<lambda>n. (n, (the (dget d n))\<lparr>tm_name := n\<rparr>)) (sort (dkeys d))"
    by (simp add: write_archive_def)
  then show ?thesis
    by (cases "dget d name")
      (auto simp: member_named_def map_of_map_restrict restrict_map_def map_of_eq_None_iff dest: key_of_dget)
qed

lemma names_write: "map tm_name (write_archive d) = sort (dkeys d)"
  by (simp add: write_archive_def comp_def)

text \<open>
  C30. The merge is the three-way merge. With the entries of the three archives, what the attempt added or changed against its
  base comes from its workspace, what it removed is gone, and every other name is as the head has it; the members of the
  new archive are sorted, one per name. No archive is written exactly when that changes no file, no link and
  no permission to execute of the head.
\<close>

theorem merge_is_three_way:
  "(case merge_archives base mine head of
      None \<Rightarrow> \<forall>name. rel_option same_as (three_way (read_archive base) (read_archive mine) (read_archive head) name)
                (dget (read_archive head) name)
    | Some out \<Rightarrow>
        \<not> (\<forall>name. rel_option same_as (three_way (read_archive base) (read_archive mine) (read_archive head) name)
             (dget (read_archive head) name)) \<and>
        sorted (map tm_name out) \<and> distinct (map tm_name out) \<and>
        (\<forall>name. member_named out name =
           map_option (\<lambda>m. m\<lparr>tm_name := name\<rparr>) (three_way (read_archive base) (read_archive mine) (read_archive head) name)))"
proof -
  let ?m = "apply_changes (read_archive base) (read_archive mine) (read_archive head)"
  have ok: "dict_ok ?m" by (intro dict_ok_apply_changes dict_ok_read)
  have get: "dget ?m = three_way (read_archive base) (read_archive mine) (read_archive head)"
    by (rule ext) (rule dget_apply_changes[OF dict_ok_read])
  show ?thesis
    using ok by (simp add: merge_archives_def Let_def unchanged_iff[OF ok] member_named_write[OF ok] names_write get)
qed

end
