(* ===== verification/Workspace_Save.thy ===== *)
theory Workspace_Save
  imports Workspace_Merge
begin

text \<open>
  What \<open>sandbox.py\<close> does with a workspace at the end of an attempt: the commit into the task's head (\<open>SandboxSession._commit\<close>,
  \<open>_merged\<close>, \<open>close\<close>), and the files that become artifacts (\<open>scan_archive\<close>, \<open>files\<close>). The store of snapshots is an argument
  \<open>load\<close>, which gives None where the code catches \<open>SnapshotNotFound\<close>; the commit lock makes a commit one step. The fallback to the
  host's table of media types is an argument.
\<close>

section \<open>The commit\<close>

datatype commit_error = AssertionErrorC

text \<open>The head after the commit: a snapshot of the workspace as it is, the old head, or a merged archive.\<close>

datatype commit_result = Snapshot | KeepHead string | SaveMerged "tar_member list"

definition load_base :: "(string \<Rightarrow> tar_member list option) \<Rightarrow> string option \<Rightarrow> tar_member list" where
  "load_base load base_ref =
    (case base_ref of
       None \<Rightarrow> []
     | Some ref \<Rightarrow> if ref = [] then [] else (case load ref of None \<Rightarrow> [] | Some archive \<Rightarrow> archive))"

definition merged_into ::
  "(string \<Rightarrow> tar_member list option) \<Rightarrow> string option \<Rightarrow> tar_member list \<Rightarrow> string option \<Rightarrow> commit_error + commit_result" where
  "merged_into load base_ref mine head =
    (case head of
       None \<Rightarrow> Inl AssertionErrorC
     | Some ref \<Rightarrow>
         (case load ref of
            None \<Rightarrow> Inr Snapshot
          | Some latest \<Rightarrow>
              (case merge_archives (load_base load base_ref) mine latest of
                 None \<Rightarrow> Inr (KeepHead ref)
               | Some merged \<Rightarrow> Inr (SaveMerged merged))))"

definition commit ::
  "(string \<Rightarrow> tar_member list option) \<Rightarrow> string option \<Rightarrow> tar_member list \<Rightarrow> string option \<Rightarrow> commit_error + commit_result" where
  "commit load base_ref mine head = (if head = base_ref then Inr Snapshot else merged_into load base_ref mine head)"

text \<open>
  \<open>close\<close>: without a lease there is nothing, a scratch session (\<open>restore_from\<close>, \<open>replica\<close>) saves nothing; \<open>mine\<close> is the
  workspace once the skills and the files of the team are removed.
\<close>

definition close_session ::
  "bool \<Rightarrow> bool \<Rightarrow> (string \<Rightarrow> tar_member list option) \<Rightarrow> string option \<Rightarrow> tar_member list \<Rightarrow> string option \<Rightarrow>
   commit_error + commit_result option" where
  "close_session leased scratch load base_ref mine head =
    (if \<not> leased \<or> scratch then Inr None else bindE (commit load base_ref mine head) (\<lambda>r. Inr (Some r)))"

section \<open>Artifacts\<close>

definition MAX_FILES :: nat where "MAX_FILES = 100"
definition MAX_FILE_BYTES :: nat where "MAX_FILE_BYTES = 20 * 1024 * 1024"
definition MAX_TOTAL_BYTES :: nat where "MAX_TOTAL_BYTES = 100 * 1024 * 1024"

definition MEDIA_TYPES :: "(string, string) dict" where
  "MEDIA_TYPES =
    [(''.md'', ''text/markdown''), (''.markdown'', ''text/markdown''), (''.txt'', ''text/plain''), (''.log'', ''text/plain''),
     (''.json'', ''application/json''), (''.csv'', ''text/csv''), (''.tsv'', ''text/tab-separated-values''),
     (''.yaml'', ''application/yaml''), (''.yml'', ''application/yaml''), (''.toml'', ''application/toml''), (''.xml'', ''application/xml''),
     (''.html'', ''text/html''), (''.htm'', ''text/html''), (''.css'', ''text/css''),
     (''.py'', ''text/x-python''), (''.js'', ''text/javascript''), (''.mjs'', ''text/javascript''), (''.ts'', ''text/typescript''),
     (''.tsx'', ''text/typescript''), (''.jsx'', ''text/javascript''), (''.sql'', ''application/sql''), (''.sh'', ''application/x-sh''),
     (''.go'', ''text/x-go''), (''.java'', ''text/x-java''), (''.rs'', ''text/x-rust''), (''.c'', ''text/x-c''), (''.h'', ''text/x-c''),
     (''.pdf'', ''application/pdf''), (''.zip'', ''application/zip''),
     (''.png'', ''image/png''), (''.jpg'', ''image/jpeg''), (''.jpeg'', ''image/jpeg''), (''.gif'', ''image/gif''), (''.webp'', ''image/webp''),
     (''.svg'', ''image/svg+xml''),
     (''.docx'', ''application/vnd.openxmlformats-officedocument.wordprocessingml.document''),
     (''.xlsx'', ''application/vnd.openxmlformats-officedocument.spreadsheetml.sheet''),
     (''.pptx'', ''application/vnd.openxmlformats-officedocument.presentationml.presentation'')]"

text \<open>\<open>Path(name).suffix\<close>: from the last dot of the last part, unless that dot starts or ends it.\<close>

definition path_suffix :: "string \<Rightarrow> string" where
  "path_suffix name =
    (let part = last (split_on (CHR ''/'') name);
         ext = rev (takeWhile (\<lambda>c. c \<noteq> CHR ''.'') (rev part));
         stem = length part - length ext - 1
     in if CHR ''.'' \<in> set part \<and> 0 < stem \<and> ext \<noteq> [] then CHR ''.'' # ext else [])"

definition media_type_of :: "(string \<Rightarrow> string option) \<Rightarrow> string \<Rightarrow> string" where
  "media_type_of guess name =
    (case dget MEDIA_TYPES (str_lower (path_suffix name)) of
       Some known \<Rightarrow> known
     | None \<Rightarrow> (case guess name of
         Some guessed \<Rightarrow> if guessed \<noteq> [] then guessed else ''application/octet-stream''
       | None \<Rightarrow> ''application/octet-stream''))"

definition visible_name :: "string \<Rightarrow> bool" where
  "visible_name name \<longleftrightarrow> name \<noteq> [] \<and>
    list_all (\<lambda>part. part \<notin> {[], ''.'', ''..''} \<and> \<not> startswith part ''.'') (split_on (CHR ''/'') name)"

definition SOURCE_DIRS :: "string list" where
  "SOURCE_DIRS = [''src'', ''app'', ''pages'', ''components'', ''lib'', ''public'', ''docs'']"

definition file_priority :: "string \<Rightarrow> nat" where
  "file_priority name =
    (let parts = split_on (CHR ''/'') name
     in if length parts = 1 \<or> startswith (str_lower (last parts)) ''readme'' then 0
        else if \<exists>p\<in>set (butlast parts). p \<in> set SOURCE_DIRS then 0 else 1)"

record sandbox_file =
  sf_name :: string
  sf_media_type :: string
  sf_payload :: string

record omitted =
  om_count :: nat
  om_bytes :: nat
  om_reasons :: "(string, nat) dict"

record scan =
  sc_found :: "sandbox_file list"
  sc_total :: nat
  sc_left :: omitted

definition leave_out :: "string \<Rightarrow> nat \<Rightarrow> scan \<Rightarrow> scan" where
  "leave_out reason len s =
    s\<lparr>sc_left := \<lparr>om_count = om_count (sc_left s) + 1, om_bytes = om_bytes (sc_left s) + len,
      om_reasons = dset reason ((case dget (om_reasons (sc_left s)) reason of Some n \<Rightarrow> n | None \<Rightarrow> 0) + 1) (om_reasons (sc_left s))\<rparr>\<rparr>"

definition scan_member :: "(string \<Rightarrow> string option) \<Rightarrow> scan \<Rightarrow> string \<times> tar_member \<Rightarrow> scan" where
  "scan_member guess s nm =
    (let len = length (tm_data (snd nm))
     in if len > MAX_FILE_BYTES then leave_out ''size_cap'' len s
        else if length (sc_found s) \<ge> MAX_FILES then leave_out ''file_cap'' len s
        else if sc_total s + len > MAX_TOTAL_BYTES then leave_out ''total_cap'' len s
        else s\<lparr>sc_found := sc_found s @ [\<lparr>sf_name = fst nm, sf_media_type = media_type_of guess (fst nm), sf_payload = tm_data (snd nm)\<rparr>],
               sc_total := sc_total s + len\<rparr>)"

definition deliverables :: "tar_member list \<Rightarrow> (string \<times> tar_member) list" where
  "deliverables archive =
    filter (\<lambda>(name, m). isreg m \<and> visible_name name \<and> \<not> is_regenerable name)
      (map (\<lambda>m. (removeprefix (tm_name m) ''./'', m)) archive)"

definition new_scan :: scan where
  "new_scan = \<lparr>sc_found = [], sc_total = 0, sc_left = \<lparr>om_count = 0, om_bytes = 0, om_reasons = []\<rparr>\<rparr>"

definition scan_archive :: "(string \<Rightarrow> string option) \<Rightarrow> tar_member list \<Rightarrow> sandbox_file list \<times> omitted" where
  "scan_archive guess archive =
    (let s = foldl (scan_member guess) new_scan (sort_key (\<lambda>nm. (file_priority (fst nm), fst nm)) (deliverables archive))
     in (sort_key sf_name (sc_found s), sc_left s))"

text \<open>The part of \<open>files\<close> both kinds of session share: what is not as it was in the archive the session compares with, if there is one.\<close>

definition changed_files :: "(string \<Rightarrow> string option) \<Rightarrow> tar_member list \<Rightarrow> tar_member list option \<Rightarrow> sandbox_file list \<times> omitted" where
  "changed_files guess now found =
    (let (files, left) = scan_archive guess now
     in case found of
          None \<Rightarrow> (files, left)
        | Some earlier \<Rightarrow>
            (let old = foldl (\<lambda>d f. dset (sf_name f) (sf_payload f) d) [] (fst (scan_archive guess earlier))
             in (filter (\<lambda>f. dget old (sf_name f) \<noteq> Some (sf_payload f)) files, left)))"

section \<open>An archive is read back as it was written\<close>

text \<open>A name that is the same after \<open>_read\<close> has trimmed it.\<close>

definition plain_name :: "string \<Rightarrow> bool" where
  "plain_name name \<longleftrightarrow> entry_name name = name \<and> name \<noteq> [] \<and> name \<noteq> ''.''"

lemma rstrip_slashes_prefix: "\<exists>t. s = rstrip_slashes s @ t"
proof -
  have "rev s = takeWhile (\<lambda>c. c = CHR ''/'') (rev s) @ dropWhile (\<lambda>c. c = CHR ''/'') (rev s)" by simp
  then have "s = rstrip_slashes s @ rev (takeWhile (\<lambda>c. c = CHR ''/'') (rev s))"
    by (metis rev_append rev_rev_ident rstrip_slashes_def)
  then show ?thesis by blast
qed

lemma rstrip_slashes_idem: "rstrip_slashes (rstrip_slashes s) = rstrip_slashes s"
  by (simp add: rstrip_slashes_def dropWhile_idem)

lemma startswith_rstrip: "startswith (rstrip_slashes s) p \<Longrightarrow> startswith s p"
  using rstrip_slashes_prefix[of s] unfolding startswith_def
  by (metis append_eq_conv_conj append_take_drop_id append.assoc)

text \<open>Every name \<open>_read\<close> keeps is plain, except that \<^verbatim>\<open>././\<close> at the start loses only its first half.\<close>

lemma plain_entry_name:
  assumes "\<not> startswith name ''././''" and "entry_name name \<noteq> []" and "entry_name name \<noteq> ''.''"
  shows "plain_name (entry_name name)"
proof -
  have "\<not> startswith (removeprefix name ''./'') ''./''"
  proof
    assume twice: "startswith (removeprefix name ''./'') ''./''"
    then have "startswith name ''./''" by (auto simp: removeprefix_def split: if_splits)
    then obtain r where r: "name = ''./'' @ r" unfolding startswith_def by (metis append_take_drop_id)
    with twice obtain q where "r = ''./'' @ q"
      unfolding removeprefix_def startswith_def by (simp split: if_splits) (metis append_take_drop_id append_Cons append_Nil)
    with r assms(1) show False by (simp add: startswith_def)
  qed
  then have "\<not> startswith (entry_name name) ''./''"
    using startswith_rstrip by (auto simp: entry_name_def)
  then have "entry_name (entry_name name) = entry_name name"
    by (simp add: entry_name_def[of "entry_name name"] removeprefix_def) (simp add: entry_name_def rstrip_slashes_idem)
  with assms show ?thesis by (simp add: plain_name_def)
qed

definition as_read :: "tar_member \<Rightarrow> tar_member" where
  "as_read m = m\<lparr>tm_data := if isreg m then tm_data m else []\<rparr>"

lemma same_as_as_read [simp]: "same_as (as_read a) b = same_as a b" "same_as a (as_read b) = same_as a b"
  by (auto simp: same_as_def as_read_def isreg_def is_link_def)

lemma dget_read_members:
  assumes "\<forall>m\<in>set archive. plain_name (tm_name m)" and "distinct (map tm_name archive)"
  shows "dget (foldl read_member d archive) name =
    (case member_named archive name of None \<Rightarrow> dget d name | Some m \<Rightarrow> Some (as_read m))"
  using assms
proof (induction archive arbitrary: d)
  case Nil
  show ?case by (simp add: member_named_def)
next
  case (Cons m archive)
  have step: "read_member d m = dset (tm_name m) (as_read m) d"
    using Cons.prems(1) by (simp add: read_member_def plain_name_def as_read_def)
  show ?case
  proof (cases "name = tm_name m")
    case True
    then have "member_named archive name = None"
      using Cons.prems(2) by (auto simp: member_named_def map_of_eq_None_iff)
    with True Cons.IH Cons.prems show ?thesis by (simp add: step member_named_def dict_simps)
  next
    case False
    with Cons.IH Cons.prems show ?thesis by (simp add: step member_named_def dict_simps split: option.split)
  qed
qed

lemma read_write:
  assumes "dict_ok d" and "\<forall>name\<in>set (dkeys d). plain_name name"
  shows "rel_option same_as (dget (read_archive (write_archive d)) name) (dget d name)"
proof -
  have names: "set (map tm_name (write_archive d)) = set (dkeys d)" "distinct (map tm_name (write_archive d))"
    using assms(1) by (simp_all add: names_write)
  then have "\<forall>m\<in>set (write_archive d). plain_name (tm_name m)" using assms(2) by (metis image_eqI list.set_map)
  from dget_read_members[OF this names(2), of "[]" name] show ?thesis
    by (cases "dget d name") (simp_all add: read_archive_def member_named_write[OF assms(1)])
qed

section \<open>A save keeps what others saved\<close>

definition clean :: "tar_member list \<Rightarrow> bool" where
  "clean archive \<longleftrightarrow> list_all (\<lambda>m. \<not> startswith (tm_name m) ''././'') archive"

lemma plain_keys:
  assumes "clean archive" and "has_key (read_archive archive) name"
  shows "plain_name name"
proof -
  have keys: "\<forall>name\<in>set (dkeys (foldl read_member d archive)). plain_name name"
    if "clean archive" "\<forall>name\<in>set (dkeys d). plain_name name" for d
    using that
  proof (induction archive arbitrary: d)
    case (Cons m archive)
    have "\<forall>name\<in>set (dkeys (read_member d m)). plain_name name"
      using Cons.prems plain_entry_name[of "tm_name m"] by (auto simp: read_member_def clean_def Let_def dkeys_dset simp del: set_map)
    with Cons.IH Cons.prems(1) show ?case by (simp add: clean_def)
  qed simp
  show ?thesis using keys[of "[]"] assms by (force simp: read_archive_def)
qed

lemma plain_apply_changes:
  assumes "clean mine" and "clean head"
  shows "\<forall>name\<in>set (dkeys (apply_changes (read_archive base) (read_archive mine) (read_archive head))). plain_name name"
proof
  fix name
  assume "name \<in> set (dkeys (apply_changes (read_archive base) (read_archive mine) (read_archive head)))"
  then have "three_way (read_archive base) (read_archive mine) (read_archive head) name \<noteq> None"
    by (simp add: dget_apply_changes[OF dict_ok_read, symmetric] map_of_eq_None_iff)
  then have "dget (read_archive mine) name \<noteq> None \<or> dget (read_archive head) name \<noteq> None"
    by (auto simp: three_way_def split: if_splits)
  then show "plain_name name" using plain_keys assms unfolding has_key_dget by blast
qed

lemma merge_reads_three_way:
  assumes "clean mine" and "clean head"
  shows "rel_option same_as
    (dget (read_archive (case merge_archives base mine head of None \<Rightarrow> head | Some out \<Rightarrow> out)) name)
    (three_way (read_archive base) (read_archive mine) (read_archive head) name)"
proof -
  let ?m = "apply_changes (read_archive base) (read_archive mine) (read_archive head)"
  have ok: "dict_ok ?m" by (intro dict_ok_apply_changes dict_ok_read)
  have "rel_option same_as (dget (read_archive head) name) (dget ?m name)" if "unchanged ?m (read_archive head)"
    using that[unfolded unchanged_iff[OF ok], rule_format, of name] by (auto elim!: option.rel_cases intro: same_as_sym)
  moreover have "rel_option same_as (dget (read_archive (write_archive ?m)) name) (dget ?m name)"
    by (rule read_write[OF ok plain_apply_changes[OF assms]])
  ultimately show ?thesis
    by (simp add: merge_archives_def Let_def dget_apply_changes[OF dict_ok_read])
qed

lemma three_way_same_base: "rel_option same_as (dget now name) (three_way earlier now earlier name)"
  by (auto simp: three_way_def put_in_def taken_out_def option.rel_refl has_key_dget split: option.splits)

text \<open>The archive that is the head after a commit.\<close>

definition saved :: "tar_member list \<Rightarrow> tar_member list \<Rightarrow> commit_result \<Rightarrow> tar_member list" where
  "saved mine latest r = (case r of Snapshot \<Rightarrow> mine | KeepHead _ \<Rightarrow> latest | SaveMerged out \<Rightarrow> out)"

lemma commit_three_way:
  assumes "load h = Some latest" and "h \<noteq> []" and "clean mine" and "clean latest" and "commit load base_ref mine (Some h) = Inr r"
  shows "rel_option same_as (dget (read_archive (saved mine latest r)) name)
    (three_way (read_archive (load_base load base_ref)) (read_archive mine) (read_archive latest) name)"
proof (cases "base_ref = Some h")
  case True
  with assms(1,2,5) show ?thesis by (auto simp: commit_def load_base_def saved_def three_way_same_base)
next
  case False
  with assms(5) have "merged_into load base_ref mine (Some h) = Inr r" by (auto simp: commit_def)
  with assms(1) merge_reads_three_way[OF assms(3,4), of "load_base load base_ref" name] show ?thesis
    by (auto simp: merged_into_def saved_def split: option.splits)
qed

text \<open>
  C29. A save loses no one else's files. Whatever other attempts of the task saved since this one started, after its commit
  every name it did not touch is as the head had it, every file, link and directory it added or changed is as in its
  workspace, and every name it removed is gone; this holds for the plain snapshot of an unmoved head as for the merge.
\<close>

theorem save_keeps_siblings:
  assumes "load h = Some latest" and "h \<noteq> []" and "clean mine" and "clean latest" and "commit load base_ref mine (Some h) = Inr r"
  shows "if put_in (read_archive (load_base load base_ref)) (read_archive mine) name
    then rel_option same_as (dget (read_archive (saved mine latest r)) name) (dget (read_archive mine) name)
    else if taken_out (read_archive (load_base load base_ref)) (read_archive mine) name
    then dget (read_archive (saved mine latest r)) name = None
    else rel_option same_as (dget (read_archive (saved mine latest r)) name) (dget (read_archive latest) name)"
  using commit_three_way[OF assms, of name] by (auto simp: three_way_def)

definition file_member :: "string \<Rightarrow> string \<Rightarrow> tar_member" where
  "file_member name text = \<lparr>tm_name = name, tm_type = CHR ''0'', tm_mode = 420, tm_linkname = [], tm_data = text\<rparr>"

definition dir_member :: "string \<Rightarrow> tar_member" where
  "dir_member name = \<lparr>tm_name = name, tm_type = CHR ''5'', tm_mode = 493, tm_linkname = [], tm_data = []\<rparr>"

theorem save_keeps_siblings_witness:
  "rel_option same_as
     (dget (read_archive (saved [file_member ''b'' ''2''] [file_member ''a'' ''1''] (SaveMerged [file_member ''a'' ''1'', file_member ''b'' ''2'']))) ''a'')
     (dget (read_archive [file_member ''a'' ''1'']) ''a'')"
proof -
  let ?mine = "[file_member ''b'' ''2'']" and ?head = "[file_member ''a'' ''1'']"
  let ?load = "\<lambda>_. Some [file_member ''a'' ''1'']"
  have save: "commit ?load None ?mine (Some ''h'') = Inr (SaveMerged [file_member ''a'' ''1'', file_member ''b'' ''2''])"
    by code_simp
  have clean: "clean ?mine" "clean ?head" by code_simp+
  have untouched: "\<not> put_in (read_archive (load_base ?load None)) (read_archive ?mine) ''a''"
    "\<not> taken_out (read_archive (load_base ?load None)) (read_archive ?mine) ''a''" by code_simp+
  show ?thesis
    using save_keeps_siblings[of ?load "''h''" ?head ?mine None, OF _ _ clean save, of "''a''"] untouched by simp
qed

text \<open>
  The merge goes by names, not by paths: an attempt that turns a directory into a file, while another attempt adds a file to
  that directory, leaves a head with the file and something below it, which no file system can hold.
\<close>

theorem merge_file_over_directory:
  "merge_archives [dir_member ''d''] [file_member ''d'' ''x''] [dir_member ''d'', file_member ''d/y'' ''1''] =
    Some [file_member ''d'' ''x'', file_member ''d/y'' ''1'']"
  by code_simp

section \<open>The limits on artifacts\<close>

definition bytes_of :: "sandbox_file list \<Rightarrow> nat" where
  "bytes_of files = sum_list (map (\<lambda>f. length (sf_payload f)) files)"

definition member_bytes :: "(string \<times> tar_member) list \<Rightarrow> nat" where
  "member_bytes members = sum_list (map (\<lambda>nm. length (tm_data (snd nm))) members)"

definition scan_ok :: "(string \<times> tar_member) list \<Rightarrow> scan \<Rightarrow> bool" where
  "scan_ok seen s \<longleftrightarrow>
    length (sc_found s) \<le> MAX_FILES \<and> sc_total s \<le> MAX_TOTAL_BYTES \<and> sc_total s = bytes_of (sc_found s) \<and>
    list_all (\<lambda>f. length (sf_payload f) \<le> MAX_FILE_BYTES) (sc_found s) \<and>
    set (map (\<lambda>f. (sf_name f, sf_payload f)) (sc_found s)) \<subseteq> set (map (\<lambda>nm. (fst nm, tm_data (snd nm))) seen) \<and>
    length (sc_found s) + om_count (sc_left s) = length seen \<and>
    bytes_of (sc_found s) + om_bytes (sc_left s) = member_bytes seen \<and>
    sum_list (dvals (om_reasons (sc_left s))) = om_count (sc_left s)"

lemma sum_list_count: "sum_list (dvals (dset k ((case dget d k of Some n \<Rightarrow> n | None \<Rightarrow> 0) + 1) d)) = sum_list (dvals d) + (1::nat)"
  by (induction d) auto

lemma scan_ok_leave_out:
  "scan_ok seen s \<Longrightarrow> scan_ok (seen @ [nm]) (leave_out reason (length (tm_data (snd nm))) s)"
  unfolding scan_ok_def leave_out_def using sum_list_count[of reason "om_reasons (sc_left s)"]
  by (auto simp: member_bytes_def simp del: add_Suc_right)

lemma scan_ok_member: "scan_ok seen s \<Longrightarrow> scan_ok (seen @ [nm]) (scan_member guess s nm)"
  unfolding scan_member_def Let_def
  by (auto simp: scan_ok_leave_out) (auto simp: scan_ok_def bytes_of_def member_bytes_def)

lemma scan_ok_all: "scan_ok members (foldl (scan_member guess) new_scan members)"
proof (induction members rule: rev_induct)
  case Nil
  show ?case by (simp add: scan_ok_def new_scan_def bytes_of_def member_bytes_def)
qed (simp add: scan_ok_member)

text \<open>
  C31. The artifacts of a workspace are bounded and accounted for: at most 100 files of at most 20 MiB each and 100 MiB in
  all, sorted by name, each a regular, visible and not regenerable file of the archive with its content; what a limit left out
  is counted, so that kept and omitted files and bytes add up to all there are, and every omitted file has one reason.
\<close>

theorem artifacts_bounded:
  "length (fst (scan_archive guess archive)) \<le> 100 \<and>
   bytes_of (fst (scan_archive guess archive)) \<le> 100 * 1024 * 1024 \<and>
   list_all (\<lambda>f. length (sf_payload f) \<le> 20 * 1024 * 1024) (fst (scan_archive guess archive)) \<and>
   sorted (map sf_name (fst (scan_archive guess archive))) \<and>
   set (map (\<lambda>f. (sf_name f, sf_payload f)) (fst (scan_archive guess archive)))
     \<subseteq> set (map (\<lambda>nm. (fst nm, tm_data (snd nm))) (deliverables archive)) \<and>
   length (fst (scan_archive guess archive)) + om_count (snd (scan_archive guess archive)) = length (deliverables archive) \<and>
   bytes_of (fst (scan_archive guess archive)) + om_bytes (snd (scan_archive guess archive)) = member_bytes (deliverables archive) \<and>
   sum_list (dvals (om_reasons (snd (scan_archive guess archive)))) = om_count (snd (scan_archive guess archive))"
proof -
  let ?sorted = "sort_key (\<lambda>nm. (file_priority (fst nm), fst nm)) (deliverables archive)"
  let ?s = "foldl (scan_member guess) new_scan ?sorted"
  have ok: "scan_ok ?sorted ?s" by (rule scan_ok_all)
  have sums: "sum_list (map f (sort_key k xs)) = sum_list (map f xs)" for f :: "'x \<Rightarrow> nat" and k :: "'x \<Rightarrow> 'y::linorder" and xs
    by (simp only: sum_mset_sum_list[symmetric] mset_map mset_sort)
  have bytes: "bytes_of (sort_key sf_name fs) = bytes_of fs" for fs by (simp add: bytes_of_def sums)
  have members: "member_bytes ?sorted = member_bytes (deliverables archive)" by (simp add: member_bytes_def sums)
  show ?thesis
    using ok unfolding scan_archive_def Let_def fst_conv snd_conv bytes scan_ok_def members
      MAX_FILES_def MAX_FILE_BYTES_def MAX_TOTAL_BYTES_def list_all_iff set_map set_sort length_sort
    by (intro conjI) simp_all
qed

end
