(* ===== verification/Spec2Isabelle.thy ===== *)
theory Spec2Isabelle
  imports Plan_Verdict Plan_Compact Plan_Refines Task_Answers Task_Reports Task_Schedule Task_Carry Task_Rounds Attempt_Correct Team_Work
    Shell_Quoting Command_Gaps Ledger_Correct Budget_Meter Workspace_Save
begin

text \<open>
  The Orbit orchestrator, verified.

  \<^bold>\<open>The program.\<close> Orbit runs a task as a Temporal workflow, \<^verbatim>\<open>TaskWorkflow\<close> (\<^verbatim>\<open>src/packages/orbit_orch\<close>). A task has a plan, a directed
  acyclic graph of nodes that people and agents change through plan-change commands. Each node is tried by attempts, and an
  attempt is a child workflow, \<^verbatim>\<open>AttemptWorkflow\<close>, which runs turns of an agent as activities of a worker. Task and attempt talk
  through signals: the task starts the attempt, hands it messages and decisions and cancels it; the attempt tells the task
  that it is parked and how it ended. People talk to the task through updates (messages, plan changes, controls, approvals,
  budget grants), which are answered once per command id. Both workflows cut their history by Continue-As-New, which hands a
  bounded state on to the next run. The data that crosses these borders is in \<^verbatim>\<open>src/packages/orbit_contracts/.../v3\<close>. The worker
  (\<^verbatim>\<open>src/packages/orbit_worker\<close>) runs the turns: every tool call of the agent goes through middlewares that ask whether it may run
  (permission plan, command classifier, policy), whether there is budget for it, and whether it ran before (ledger).

  \<^bold>\<open>The theories.\<close> Each models one source file, with its names, and is followed by the theories that prove things about it.
  \<^item> \<^verbatim>\<open>Prelude\<close>: errors as a sum with early return (\<open>bindE\<close>, \<open>foldE\<close>), Python dicts as ordered association lists and their laws as
    the locale \<open>pydict\<close>, decimal numerals. \<^verbatim>\<open>Pylib\<close>: UTF-8, SHA-256 on 32-bit words and JSON dumps, as the code uses them for ids.
  \<^item> \<^verbatim>\<open>Contracts\<close>, \<^verbatim>\<open>Messages\<close>: \<^verbatim>\<open>v3/common.py\<close>, \<^verbatim>\<open>nodes.py\<close>, \<^verbatim>\<open>plan.py\<close>, \<^verbatim>\<open>messages.py\<close>, the models with the constraints pydantic
    checks. \<^verbatim>\<open>Sop\<close>: \<^verbatim>\<open>sop.py\<close>, the resolution of a procedure's steps.
  \<^item> \<^verbatim>\<open>Plan_Engine\<close>, \<^verbatim>\<open>Plan_Graph\<close>, \<^verbatim>\<open>Plan_Apply\<close>: \<^verbatim>\<open>plan_engine.py\<close>: the state of a plan, the verdict on a command with every operation,
    the graph, nesting and budget checks, compaction. \<^verbatim>\<open>Plan_Props\<close>, \<^verbatim>\<open>Plan_Correct\<close>, \<^verbatim>\<open>Plan_Verdict\<close>, \<^verbatim>\<open>Plan_Compact\<close> and \<^verbatim>\<open>Plan_Refines\<close>
    prove it: every command gets a verdict, an accepted plan is well formed, acyclic, within its budget and nesting, frozen nodes
    stay as they are, an agent changes only its nodes, Kahn's sort decides acyclicity, compaction removes only what nothing needs,
    and the operations refine edits of a plain graph.
  \<^item> \<^verbatim>\<open>Budgets\<close>, \<^verbatim>\<open>Handover\<close>, \<^verbatim>\<open>Completion_Check\<close>, \<^verbatim>\<open>Workflow_Common\<close>: \<^verbatim>\<open>budgets.py\<close> and \<^verbatim>\<open>task_budget.py\<close>, \<^verbatim>\<open>handover.py\<close>, \<^verbatim>\<open>completion_check.py\<close>
    and the limits and helpers of \<^verbatim>\<open>workflow_common.py\<close>, with their bounds.
  \<^item> \<^verbatim>\<open>Task_Base\<close> (the fields of the workflow as the record \<open>task\<close>, the answered commands, carry and load), \<^verbatim>\<open>Task_Events\<close>, \<^verbatim>\<open>Task_Plan\<close>,
    \<^verbatim>\<open>Task_Retry\<close>, \<^verbatim>\<open>Task_Sop\<close>, \<^verbatim>\<open>Task_Review\<close>, \<^verbatim>\<open>Task_Completion\<close>, \<^verbatim>\<open>Task_Attempts\<close>, \<^verbatim>\<open>Task_Commands\<close>, \<^verbatim>\<open>Task_Workflow\<close>: the mixins of
    \<^verbatim>\<open>TaskWorkflow\<close>, one theory per file of the same name. A method is a function of type \<open>'a wf\<close>, which passes the task through and
    may raise. A method that awaits is cut at the await. \<^verbatim>\<open>Task_Workflow\<close> ends with the workflow as a transition system: \<open>loop_step\<close> is
    the main loop by its places, \<open>sys_step\<close> adds the handlers of updates and signals, which interleave with it at every await. Handlers
    of what came with the start run before \<open>run\<close>: \<open>early\<close> are the states they leave, \<open>reachable_from\<close> the states of a run that starts
    from one of them, \<open>reachable\<close> those of any run.
  \<^item> \<^verbatim>\<open>Task_Changes\<close> and \<^verbatim>\<open>Task_Signals\<close> are parts of \<^verbatim>\<open>task_plan.py\<close> and of the signal handlers. \<^verbatim>\<open>Task_Evolves\<close>, \<^verbatim>\<open>Task_Keeps\<close> and \<^verbatim>\<open>Task_Run\<close> hold
    the locales that lift a relation kept by the elementary changes to every operation and every step; each invariant is an
    interpretation of them. \<^verbatim>\<open>Task_Life\<close> chains the runs over Continue-As-New.
  \<^item> \<^verbatim>\<open>Task_Safety\<close> (well-formed plan, one writer in the workspace, numbered events, bounded window over the life of a task),
    \<^verbatim>\<open>Task_Answers\<close> (a repeated update, past its validator, gets its first answer and changes nothing; what an update answered before
    \<open>run\<close> does to the window and the numbers of a continued run), \<^verbatim>\<open>Task_Reports\<close> (a report counts once),
    \<^verbatim>\<open>Task_Schedule\<close> (the order of a round, sound and complete in the state it is computed in), \<^verbatim>\<open>Task_Rounds\<close> (every round ends), \<^verbatim>\<open>Task_Carry\<close> (carry and load are a
    round trip, and what is lost in it).
  \<^item> \<^verbatim>\<open>Attempt_Workflow\<close>: \<^verbatim>\<open>attempt_workflow.py\<close>, the state of an attempt (\<open>att\<close>), what it gives a turn and what it tells the task, and
    \<open>att_step\<close>, its run cut at the waits with signals and cancellation at each; a team stage is one place of it, where anything may
    happen to the attempt's state. \<^verbatim>\<open>Attempt_Correct\<close>: the end is reported, no message is lost outside team stages, decisions gate the next turn, the turns share the reservation, Continue-As-New keeps the next payload.
  \<^item> \<^verbatim>\<open>Team_Stage\<close>: \<^verbatim>\<open>team_stage.py\<close>, the state of a team stage, its mailbox, files and mentions, with their bounds and round trip.
    \<^verbatim>\<open>Ask_User\<close>: the reading of \<^verbatim>\<open>ask_user\<close> calls in \<^verbatim>\<open>messages.py\<close>. \<^verbatim>\<open>Attempt_Team\<close>: \<^verbatim>\<open>attempt_team.py\<close>; \<open>turn_step\<close> is a turn of an agent with its parks,
    \<open>member_step\<close> the task of a member with its queue, \<open>stage_step\<close> the coroutine of the stage with all of them interleaved. \<^verbatim>\<open>Team_Work\<close>: every assignment
    is answered before the leader's next turn, the limits hold, and a question of the leader can be answered by its own messages.

  \<^item> \<^verbatim>\<open>Shell_Lexer\<close>, \<^verbatim>\<open>Shell_Paths\<close>, \<^verbatim>\<open>Command_Programs\<close>, \<^verbatim>\<open>Command_Risk\<close>: \<^verbatim>\<open>command_risk.py\<close> of the worker: the lexer on the text that is left, paths
    and patterns, the handlers of programs, and \<open>assess\<close>, which walks the commands and what is substituted in them. \<^verbatim>\<open>Shell_Quoting\<close>: quoting is read
    back, brace expansion ends. \<^verbatim>\<open>Command_Sound\<close> and \<^verbatim>\<open>Command_Correct\<close>: a verdict only rises, the fields agree, the worst part decides, a
    recursive removal of a root is catastrophic wherever the lexer finds it as a command. \<^verbatim>\<open>Command_Gaps\<close>: commands a shell reads otherwise than the lexer. The model gives the
    levels that \<^verbatim>\<open>src/tests/test_command_risk.py\<close> expects, on all its 315 commands.
  \<^item> \<^verbatim>\<open>Permissions\<close>: \<^verbatim>\<open>permissions.py\<close> and \<^verbatim>\<open>permission_middleware.py\<close>. \<^verbatim>\<open>Tool_Policy\<close>: \<^verbatim>\<open>policy.py\<close>, \<^verbatim>\<open>policy_middleware.py\<close> and what they use of
    \<^verbatim>\<open>task_stream.py\<close> and \<^verbatim>\<open>worker_events.py\<close>; \<open>decide_call\<close> is the stack of both middlewares. What they let through is not catastrophic, is denied by no layer of
    policy, and keeps the write scope of a plan that is not read-only.
  \<^item> \<^verbatim>\<open>Budget_Meter\<close>: \<^verbatim>\<open>budget_middleware.py\<close> and the meter of \<^verbatim>\<open>agent_turn\<close>; \<open>meter_step\<close> is an activity with its heartbeats and retries, in which the tool
    calls that run stay within the budget.
  \<^item> \<^verbatim>\<open>Tool_Ledger\<close>: \<^verbatim>\<open>ledger_middleware.py\<close> and the ledger and outbox of \<^verbatim>\<open>task_store.py\<close>. \<^verbatim>\<open>Ledger_Correct\<close>: \<open>ledger_step\<close> interleaves the calls of all activities, with
    workers that die in them and approvals; a call runs once, its outcome stands, what is refused is asked, and what an approval does not limit.
  \<^item> \<^verbatim>\<open>Workspace_Merge\<close>: \<^verbatim>\<open>workspace_merge.py\<close> and \<^verbatim>\<open>workspace_paths.py\<close>; the merge is a three-way merge. \<^verbatim>\<open>Workspace_Save\<close>: the commit of a session and the artifacts
    taken from it in \<^verbatim>\<open>sandbox.py\<close>; a save keeps what other attempts saved, and the artifacts are bounded and accounted for.

  \<^bold>\<open>Parameters.\<close> Code outside the repository is an argument: pydantic's dump and validation (\<open>px_dump\<close>, \<open>px_dump_spec\<close>, \<open>px_validate\<close>),
  Temporal's \<open>patched\<close>, clock, uuid and Continue-As-New suggestion (fields of \<open>env\<close>), and what activities return, which is arbitrary. The
  words the code says in Chinese (\<open>wording\<close>), \<open>json.loads\<close>, \<open>str\<close> and \<open>repr\<close> of a value are arguments too. The order in which Python iterates over a set is an argument where the code does it.
  In the worker, AgentScope's lists of dangerous names (\<open>guarded\<close>), what its engine and its tools decide, whether a tool is read-only and what it yields are
  arguments, and so are clocks and the text of \<open>todo_list_preview\<close>. The tables of Postgres are lists of rows in the order they were written,
  and a database is configured. What a Continue-As-New carries besides the drafts of the plan (inbox, answers, approvals, usage, rules) comes back from JSON as it was dumped.

  \<^bold>\<open>Bounds and fuel.\<close> Loops that are not structural have a termination proof; the fixpoints of the plan engine recurse over what is
  left. \<open>e_depth\<close> bounds the recursion of node updates the way Python's stack does, and running out of it is the error the code would
  raise. Integers are unbounded as in Python; SHA-256 is on words. Characters are HOL's 8-bit characters; the one character outside them
  that the code counts, the ellipsis of a cut text, is a character of its own. In the lexer an octal escape beyond 255 stands for
  character 255, which no rule looks for. Costs are exact ceilings where the code divides floats; time is in nanoseconds. The classifier walks substitutions \<open>MAX_DEPTH\<close> deep,
  as the code does; its other recursions have termination proofs.

  \<^bold>\<open>Not modelled.\<close> The machine of an attempt and the machine of a team stage are not composed: the one lets the stage do anything at its place and end in every way,
  the other takes its parent for granted; the publication of the stage's events is one step. A retry of \<^verbatim>\<open>agent_turn\<close> reads the last heartbeat the activity made; that
  Temporal may throttle heartbeats is left out. Of the worker, the activities that drive agents and models, the completion checks, checkpoints, leases, containers
  and the redaction of secrets (whose entropy is a float) are left out: the workflows take any answer of theirs. Event and view models, schema export, process start,
  logging and metrics are I/O or data without logic of their own.
\<close>

end
